(* ===== verification/DnsModel.thy ===== *)
theory DnsModel
  imports Prelude
begin

section \<open>The DNS data model (internal/dns: bunny.go, reconcile.go, zonesync.go)\<close>

text \<open>
  Records as the Bunny API stores them, the control plane's view of an edge, the planned
  actions of a reconcile and its options. Coordinates and load factors are \<open>float64\<close> in
  the code; they are real numbers here, so rounding of the last place is not modelled.
  A \<open>*time.Time\<close> is an optional instant.
\<close>

definition TypeA :: int where "TypeA = 0"
definition TypeCNAME :: int where "TypeCNAME = 2"
definition SmartNone :: int where "SmartNone = 0"
definition SmartLatency :: int where "SmartLatency = 1"
definition SmartGeolocation :: int where "SmartGeolocation = 2"
definition MonitorNone :: int where "MonitorNone = 0"
definition MonitorPing :: int where "MonitorPing = 1"
definition MonitorHTTP :: int where "MonitorHTTP = 2"

lemmas dns_enums =
  TypeA_def TypeCNAME_def SmartNone_def SmartLatency_def SmartGeolocation_def
  MonitorNone_def MonitorPing_def MonitorHTTP_def

definition MonitorTypeFromString :: "string \<Rightarrow> int" where
  "MonitorTypeFromString s =
     (let t = to_lower (trim_space s) in
      if t = ''http'' then MonitorHTTP
      else if t = ''none'' \<or> t = ''off'' \<or> t = '''' then MonitorNone
      else MonitorPing)"

definition CommentPrefix :: string where
  "CommentPrefix = ''brisk:''"

record dns_record =
  rec_id :: int
  rec_type :: int
  rec_ttl :: int
  rec_value :: string
  rec_name :: string
  rec_weight :: int
  rec_priority :: int
  rec_disabled :: bool
  rec_comment :: string
  rec_smart :: int
  rec_latency_zone :: string
  rec_monitor_type :: int
  rec_monitor_status :: int
  rec_lat :: real
  rec_long :: real

definition IsBriskManaged :: "dns_record \<Rightarrow> bool" where
  "IsBriskManaged r = has_prefix (rec_comment r) CommentPrefix"

text \<open>The zero value of the Go struct; composite literals set some of its fields.\<close>

definition zero_record :: dns_record where
  "zero_record = \<lparr>rec_id = 0, rec_type = 0, rec_ttl = 0, rec_value = '''', rec_name = '''',
     rec_weight = 0, rec_priority = 0, rec_disabled = False, rec_comment = '''', rec_smart = 0,
     rec_latency_zone = '''', rec_monitor_type = 0, rec_monitor_status = 0, rec_lat = 0, rec_long = 0\<rparr>"

record endpoint =
  ep_edge_id :: string
  ep_region :: string
  ep_ip :: string
  ep_status :: string
  ep_last_seen :: "instant option"
  ep_weight :: int
  ep_override :: string
  ep_capacity :: int
  ep_by_capacity :: bool
  ep_load_factor :: real
  ep_health :: string
  ep_drained :: bool

datatype action_kind = Add | Enable | Disable | Update | Remove

record dns_action =
  act_kind :: action_kind
  act_edge :: string
  act_rec_id :: int
  act_record :: dns_record
  act_name :: string
  act_value :: string

type_synonym plan = "dns_action list"

definition plan_empty :: "plan \<Rightarrow> bool" where
  "plan_empty p = (length p = 0)"

record diff_opts =
  opt_name :: string
  opt_ttl :: int
  opt_stale :: duration
  opt_mode :: string
  opt_monitor :: int
  opt_now :: instant

definition coordEps :: real where
  "coordEps = 1 / 1000000"

definition floatEq :: "real \<Rightarrow> real \<Rightarrow> bool" where
  "floatEq a b = (let d = a - b; d' = (if d < 0 then - d else d) in d' \<le> coordEps)"

lemma floatEq_iff: "floatEq a b \<longleftrightarrow> \<bar>a - b\<bar> \<le> coordEps"
  by (simp add: floatEq_def Let_def abs_if)

lemma coordEps_nonneg [simp]: "0 \<le> coordEps"
  by (simp add: coordEps_def)

lemma floatEq_refl [simp]: "floatEq a a"
  by (simp add: floatEq_iff)

subsection \<open>Comment tags\<close>

text \<open>
  A record belongs to an edge (\<open>brisk:server:<edge>\<close>) or to an edge of a tenant zone
  (\<open>brisk:zone:<zone id>:<edge>\<close>) by its comment alone.
\<close>

definition serverTag :: string where
  "serverTag = CommentPrefix @ ''server:''"

definition ServerTag :: "string \<Rightarrow> string" where
  "ServerTag e = serverTag @ e"

definition edgeIDFromComment :: "string \<Rightarrow> string" where
  "edgeIDFromComment c = (if \<not> has_prefix c serverTag then '''' else trim_prefix c serverTag)"

definition zoneTag :: "int \<Rightarrow> string" where
  "zoneTag z = CommentPrefix @ ''zone:'' @ show_int z"

definition zoneEdgeTag :: "int \<Rightarrow> string \<Rightarrow> string" where
  "zoneEdgeTag z e = zoneTag z @ '':'' @ e"

definition edgeIDFromZoneComment :: "string \<Rightarrow> int \<Rightarrow> string option" where
  "edgeIDFromZoneComment c z =
     (let tag = zoneTag z in
      if c = tag then Some ''''
      else if has_prefix c (tag @ '':'') then Some (trim_prefix c (tag @ '':''))
      else None)"

definition zoneIDFromComment :: "string \<Rightarrow> int option" where
  "zoneIDFromComment c =
     (let prefix = CommentPrefix @ ''zone:'' in
      if \<not> has_prefix c prefix then None
      else
        (let rest = trim_prefix c prefix;
             rest' = (case index_byte (CHR '':'') rest of Some i \<Rightarrow> take i rest | None \<Rightarrow> rest)
         in parse_int rest'))"

text \<open>A tag is read back as the edge id it was built from, and a zone tag never as a server tag.\<close>

lemma has_prefix_append [simp]: "has_prefix (p @ s) p"
  by (simp add: has_prefix_def)

lemma trim_prefix_append [simp]: "trim_prefix (p @ s) p = s"
  by (simp add: trim_prefix_def)

lemma has_prefixE:
  assumes "has_prefix s p"
  obtains t where "s = p @ t"
proof
  have "take (length p) s = p" using assms by (simp add: has_prefix_def)
  then show "s = p @ drop (length p) s" by (metis append_take_drop_id)
qed

lemma edgeIDFromComment_ServerTag [simp]: "edgeIDFromComment (ServerTag e) = e"
  by (simp add: edgeIDFromComment_def ServerTag_def)

lemma ServerTag_inj [simp]: "ServerTag a = ServerTag b \<longleftrightarrow> a = b"
  by (simp add: ServerTag_def)

lemma edgeIDFromComment_eq:
  assumes "edgeIDFromComment c = e" and "e \<noteq> ''''"
  shows "c = ServerTag e"
proof -
  have "has_prefix c serverTag"
    using assms by (auto simp: edgeIDFromComment_def split: if_splits)
  then obtain t where "c = serverTag @ t" by (rule has_prefixE)
  with assms show ?thesis by (simp add: edgeIDFromComment_def ServerTag_def)
qed

lemma edgeIDFromZoneComment_tag [simp]: "edgeIDFromZoneComment (zoneEdgeTag z e) z = Some e"
proof -
  have split: "zoneEdgeTag z e = (zoneTag z @ '':'') @ e" by (simp add: zoneEdgeTag_def)
  show ?thesis
    unfolding edgeIDFromZoneComment_def Let_def split
    by (simp only: has_prefix_append trim_prefix_append) simp
qed

end
