(* ===== verification/Regions.thy ===== *)
theory Regions
  imports DnsModel
begin

section \<open>Region catalogue, routing mode and record weight (internal/dns/regions.go)\<close>

text \<open>
  The curated region table of the source, entry by entry; the generated world catalogue
  (\<open>regions.json\<close>, an embedded data file) is the parameter \<open>cat\<close> of \<open>buildRegionMap\<close>,
  the list its JSON decodes to. Coordinates are written in units of 1/10000 degree.
\<close>

definition ModeGeographic :: string where "ModeGeographic = ''geographic''"
definition ModeLatency :: string where "ModeLatency = ''latency''"

definition NormalizeMode :: "string \<Rightarrow> string" where
  "NormalizeMode s = (if equal_fold (trim_space s) ModeLatency then ModeLatency else ModeGeographic)"

definition NormalizeOverride :: "string \<Rightarrow> string" where
  "NormalizeOverride s =
     (let t = to_lower (trim_space s) in
      if t = ModeLatency then ModeLatency
      else if t = ModeGeographic then ModeGeographic
      else '''')"

record region_loc =
  loc_lat :: real
  loc_long :: real
  loc_zone :: string
  loc_label :: string

definition deg4 :: "int \<Rightarrow> int \<Rightarrow> string \<Rightarrow> string \<Rightarrow> region_loc" where
  "deg4 la lo z lab = \<lparr>loc_lat = of_int la / 10000, loc_long = of_int lo / 10000,
                       loc_zone = z, loc_label = lab\<rparr>"

definition legacyRegions :: "(string \<times> region_loc) list" where
  "legacyRegions = [
   (''US'', deg4 (398283) (- 985795) ''US'' (''United States'')),
   (''US-NY'', deg4 (407128) (- 740060) ''US'' (''New York, US'')),
   (''US-IL'', deg4 (418781) (- 876298) ''US'' (''Chicago, US'')),
   (''US-CA'', deg4 (377749) (- 1224194) ''US'' (''San Francisco, US'')),
   (''US-TX'', deg4 (297604) (- 953698) ''US'' (''Dallas, US'')),
   (''US-WA'', deg4 (476062) (- 1223321) ''US'' (''Seattle, US'')),
   (''US-IAD'', deg4 (390438) (- 774874) ''US'' (''Ashburn, US'')),
   (''US-LAX'', deg4 (340522) (- 1182437) ''US'' (''Los Angeles, US'')),
   (''US-MIA'', deg4 (257617) (- 801918) ''US'' (''Miami, US'')),
   (''US-ATL'', deg4 (337490) (- 843880) ''US'' (''Atlanta, US'')),
   (''US-DEN'', deg4 (397392) (- 1049903) ''US'' (''Denver, US'')),
   (''US-PHX'', deg4 (334484) (- 1120740) ''US'' (''Phoenix, US'')),
   (''US-BOS'', deg4 (423601) (- 710589) ''US'' (''Boston, US'')),
   (''US-SLC'', deg4 (407608) (- 1118910) ''US'' (''Salt Lake City, US'')),
   (''US-HOU'', deg4 (297604) (- 953698) ''US'' (''Houston, US'')),
   (''US-NJ'', deg4 (407357) (- 741724) ''US'' (''Newark, US'')),
   (''CA-TOR'', deg4 (436532) (- 793832) ''CA'' (''Toronto, CA'')),
   (''CA-YVR'', deg4 (492827) (- 1231207) ''CA'' (''Vancouver, CA'')),
   (''CA-YUL'', deg4 (455017) (- 735673) ''CA'' (''Montreal, CA'')),
   (''MX'', deg4 (194326) (- 991332) ''MX'' (''Mexico City, MX'')),
   (''BR'', deg4 (- 235505) (- 466333) ''BR'' (''S'' @ [CHR 0xC3] @ [CHR 0xA3] @ ''o Paulo, Brazil'')),
   (''BR-SAO'', deg4 (- 235505) (- 466333) ''BR'' (''S'' @ [CHR 0xC3] @ [CHR 0xA3] @ ''o Paulo, Brazil'')),
   (''BR-RIO'', deg4 (- 229068) (- 431729) ''BR'' (''Rio de Janeiro, BR'')),
   (''AR'', deg4 (- 346037) (- 583816) ''AR'' (''Buenos Aires, AR'')),
   (''CL'', deg4 (- 334489) (- 706693) ''CL'' (''Santiago, CL'')),
   (''CO'', deg4 (47110) (- 740721) ''CO'' (''Bogot'' @ [CHR 0xC3] @ [CHR 0xA1] @ '', CO'')),
   (''PE'', deg4 (- 120464) (- 770428) ''PE'' (''Lima, PE'')),
   (''EU'', deg4 (501109) (86821) ''DE'' (''Europe'')),
   (''EU-FRA'', deg4 (501109) (86821) ''DE'' (''Frankfurt, EU'')),
   (''EU-LON'', deg4 (515074) (- 1278) ''GB'' (''London, EU'')),
   (''EU-PAR'', deg4 (488566) (23522) ''FR'' (''Paris, EU'')),
   (''EU-AMS'', deg4 (523676) (49041) ''NL'' (''Amsterdam, EU'')),
   (''EU-MAD'', deg4 (404168) (- 37038) ''ES'' (''Madrid, EU'')),
   (''EU-BCN'', deg4 (413874) (21686) ''ES'' (''Barcelona, EU'')),
   (''EU-MIL'', deg4 (454642) (91900) ''IT'' (''Milan, EU'')),
   (''EU-WAW'', deg4 (522297) (210122) ''PL'' (''Warsaw, EU'')),
   (''EU-STO'', deg4 (593293) (180686) ''SE'' (''Stockholm, EU'')),
   (''EU-HEL'', deg4 (601699) (249384) ''FI'' (''Helsinki, EU'')),
   (''EU-DUB'', deg4 (533498) (- 62603) ''IE'' (''Dublin, EU'')),
   (''EU-VIE'', deg4 (482082) (163738) ''AT'' (''Vienna, EU'')),
   (''EU-ZRH'', deg4 (473769) (85417) ''CH'' (''Zurich, EU'')),
   (''EU-CPH'', deg4 (556761) (125683) ''DK'' (''Copenhagen, EU'')),
   (''EU-OSL'', deg4 (599139) (107522) ''NO'' (''Oslo, EU'')),
   (''EU-PRG'', deg4 (500755) (144378) ''CZ'' (''Prague, EU'')),
   (''EU-BUD'', deg4 (474979) (190402) ''HU'' (''Budapest, EU'')),
   (''EU-OTP'', deg4 (444268) (261025) ''RO'' (''Bucharest, EU'')),
   (''EU-ATH'', deg4 (379838) (237275) ''GR'' (''Athens, EU'')),
   (''EU-LIS'', deg4 (387223) (- 91393) ''PT'' (''Lisbon, EU'')),
   (''EU-BRU'', deg4 (508503) (43517) ''BE'' (''Brussels, EU'')),
   (''EU-SOF'', deg4 (426977) (233219) ''BG'' (''Sofia, EU'')),
   (''EU-MUC'', deg4 (481351) (115820) ''DE'' (''Munich, EU'')),
   (''GB'', deg4 (515074) (- 1278) ''GB'' (''London, UK'')),
   (''RU'', deg4 (557558) (376173) ''RU'' (''Moscow, RU'')),
   (''UA'', deg4 (504501) (305234) ''UA'' (''Kyiv, UA'')),
   (''TR'', deg4 (410082) (289784) ''TR'' (''Istanbul, TR'')),
   (''AE'', deg4 (252048) (552708) ''AE'' (''Dubai, UAE'')),
   (''IL'', deg4 (320853) (347818) ''IL'' (''Tel Aviv, IL'')),
   (''SA'', deg4 (247136) (466753) ''SA'' (''Riyadh, SA'')),
   (''QA'', deg4 (252854) (515310) ''QA'' (''Doha, QA'')),
   (''BH'', deg4 (260667) (505577) ''BH'' (''Manama, BH'')),
   (''IN'', deg4 (205937) (789629) ''IN'' (''India'')),
   (''IN-DEL'', deg4 (286139) (772090) ''IN'' (''Delhi, India'')),
   (''IN-BLR'', deg4 (129716) (775946) ''IN'' (''Bengaluru, India'')),
   (''IN-BOM'', deg4 (190760) (728777) ''IN'' (''Mumbai, India'')),
   (''IN-MAA'', deg4 (130827) (802707) ''IN'' (''Chennai, India'')),
   (''IN-HYD'', deg4 (173850) (784867) ''IN'' (''Hyderabad, India'')),
   (''IN-CCU'', deg4 (225726) (883639) ''IN'' (''Kolkata, India'')),
   (''PK'', deg4 (248607) (670011) ''PK'' (''Karachi, PK'')),
   (''BD'', deg4 (238103) (904125) ''BD'' (''Dhaka, BD'')),
   (''LK'', deg4 (69271) (798612) ''LK'' (''Colombo, LK'')),
   (''SG'', deg4 (13521) (1038198) ''SG'' (''Singapore'')),
   (''JP'', deg4 (356762) (1396503) ''JP'' (''Japan'')),
   (''JP-TYO'', deg4 (356762) (1396503) ''JP'' (''Tokyo, Japan'')),
   (''JP-OSA'', deg4 (346937) (1355023) ''JP'' (''Osaka, Japan'')),
   (''HK'', deg4 (223193) (1141694) ''HK'' (''Hong Kong'')),
   (''KR'', deg4 (375665) (1269780) ''KR'' (''Seoul, KR'')),
   (''TW'', deg4 (250330) (1215654) ''TW'' (''Taipei, TW'')),
   (''CN'', deg4 (312304) (1214737) ''CN'' (''Shanghai, CN'')),
   (''CN-PEK'', deg4 (399042) (1164074) ''CN'' (''Beijing, CN'')),
   (''TH'', deg4 (137563) (1005018) ''TH'' (''Bangkok, TH'')),
   (''MY'', deg4 (31390) (1016869) ''MY'' (''Kuala Lumpur, MY'')),
   (''ID'', deg4 (- 62088) (1068456) ''ID'' (''Jakarta, ID'')),
   (''PH'', deg4 (145995) (1209842) ''PH'' (''Manila, PH'')),
   (''VN'', deg4 (108231) (1066297) ''VN'' (''Ho Chi Minh City, VN'')),
   (''AU'', deg4 (- 338688) (1512093) ''AU'' (''Sydney, Australia'')),
   (''AU-SYD'', deg4 (- 338688) (1512093) ''AU'' (''Sydney, Australia'')),
   (''AU-MEL'', deg4 (- 378136) (1449631) ''AU'' (''Melbourne, Australia'')),
   (''AU-PER'', deg4 (- 319505) (1158605) ''AU'' (''Perth, Australia'')),
   (''NZ'', deg4 (- 368485) (1747633) ''NZ'' (''Auckland, NZ'')),
   (''ZA'', deg4 (- 262041) (280473) ''ZA'' (''Johannesburg, South Africa'')),
   (''ZA-CPT'', deg4 (- 339249) (184241) ''ZA'' (''Cape Town, South Africa'')),
   (''NG'', deg4 (65244) (33792) ''NG'' (''Lagos, NG'')),
   (''EG'', deg4 (300444) (312357) ''EG'' (''Cairo, EG'')),
   (''KE'', deg4 (- 12864) (368172) ''KE'' (''Nairobi, KE'')),
   (''DE-FALKENSTEIN'', deg4 (504779) (123713) ''DE'' (''Falkenstein (Hetzner), DE'')),
   (''DE-NUREMBERG'', deg4 (494521) (110767) ''DE'' (''Nuremberg (Hetzner), DE'')),
   (''FR-ROUBAIX'', deg4 (506901) (31746) ''FR'' (''Roubaix (OVH), FR'')),
   (''FR-GRAVELINES'', deg4 (509871) (21255) ''FR'' (''Gravelines (OVH), FR'')),
   (''FR-STRASBOURG'', deg4 (485734) (77521) ''FR'' (''Strasbourg (OVH), FR'')),
   (''FR-MARSEILLE'', deg4 (432965) (53698) ''FR'' (''Marseille, FR'')),
   (''NL-EEMSHAVEN'', deg4 (534386) (68339) ''NL'' (''Eemshaven (Google), NL'')),
   (''NL-MIDDENMEER'', deg4 (528089) (50125) ''NL'' (''Middenmeer (Microsoft), NL'')),
   (''FI-HAMINA'', deg4 (605694) (271878) ''FI'' (''Hamina (Google), FI'')),
   (''SE-LULEA'', deg4 (655848) (221567) ''SE'' (''Lule'' @ [CHR 0xC3] @ [CHR 0xA5] @ '' (Meta), SE'')),
   (''BE-SAINTGHISLAIN'', deg4 (504500) (38167) ''BE'' (''Saint-Ghislain (Google), BE'')),
   (''DK-FREDERICIA'', deg4 (555657) (97527) ''DK'' (''Fredericia (Google/Apple), DK'')),
   (''IE-CLONEE'', deg4 (534106) (- 64406) ''IE'' (''Clonee (Meta), IE'')),
   (''GB-NEWPORT'', deg4 (515842) (- 29977) ''GB'' (''Newport, GB'')),
   (''GB-SLOUGH'', deg4 (515105) (- 5950) ''GB'' (''Slough, GB'')),
   (''ES-ZARAGOZA'', deg4 (416488) (- 8891) ''ES'' (''Zaragoza (AWS), ES'')),
   (''CA-BEAUHARNOIS'', deg4 (453151) (- 738779) ''CA'' (''Beauharnois (OVH), CA'')),
   (''US-COUNCILBLUFFS'', deg4 (412619) (- 958608) ''US'' (''Council Bluffs (Google), US'')),
   (''US-THEDALLES'', deg4 (455946) (- 1211787) ''US'' (''The Dalles (Google), US'')),
   (''US-MONCKSCORNER'', deg4 (331960) (- 799968) ''US'' (''Moncks Corner (Google), US'')),
   (''US-LENOIR'', deg4 (359140) (- 815390) ''US'' (''Lenoir (Google), US'')),
   (''US-HENDERSON'', deg4 (360397) (- 1149819) ''US'' (''Henderson (Google), US'')),
   (''US-PRYOR'', deg4 (363076) (- 953169) ''US'' (''Pryor (Google), US'')),
   (''US-MIDLOTHIAN'', deg4 (324824) (- 969944) ''US'' (''Midlothian (Google), US'')),
   (''US-NEWCARLISLE'', deg4 (417017) (- 865089) ''US'' (''New Carlisle (Google), US'')),
   (''US-MESA'', deg4 (334152) (- 1118315) ''US'' (''Mesa (Google), US'')),
   (''US-QUINCY'', deg4 (472343) (- 1198527) ''US'' (''Quincy (Azure), US'')),
   (''US-BOYDTON'', deg4 (366676) (- 783875) ''US'' (''Boydton (Azure), US'')),
   (''US-CHEYENNE'', deg4 (411400) (- 1048202) ''US'' (''Cheyenne (Microsoft), US'')),
   (''US-GOODYEAR'', deg4 (334353) (- 1123576) ''US'' (''Goodyear (Microsoft), US'')),
   (''US-DESMOINES'', deg4 (415868) (- 936250) ''US'' (''Des Moines (Microsoft), US'')),
   (''US-COLUMBUS'', deg4 (399612) (- 829988) ''US'' (''Columbus (AWS), US'')),
   (''US-BOARDMAN'', deg4 (458390) (- 1197006) ''US'' (''Boardman (AWS), US'')),
   (''US-PRINEVILLE'', deg4 (442998) (- 1208345) ''US'' (''Prineville (Meta), US'')),
   (''US-ALTOONA'', deg4 (416447) (- 934646) ''US'' (''Altoona (Meta), US'')),
   (''US-PAPILLION'', deg4 (411544) (- 960422) ''US'' (''Papillion (Meta), US'')),
   (''US-EAGLEMTN'', deg4 (403141) (- 1120069) ''US'' (''Eagle Mountain (Meta), US'')),
   (''US-FORESTCITY'', deg4 (353340) (- 818651) ''US'' (''Forest City (Meta), US'')),
   (''US-NEWALBANY'', deg4 (400817) (- 828088) ''US'' (''New Albany, US'')),
   (''US-STERLING'', deg4 (390062) (- 774286) ''US'' (''Sterling, US'')),
   (''US-HILLSBORO'', deg4 (455229) (- 1229898) ''US'' (''Hillsboro, US'')),
   (''US-SANTACLARA'', deg4 (373541) (- 1219552) ''US'' (''Santa Clara, US'')),
   (''US-RENO'', deg4 (395349) (- 1194517) ''US'' (''Tahoe-Reno (Switch), US'')),
   (''MX-QUERETARO'', deg4 (205888) (- 1003899) ''MX'' (''Quer'' @ [CHR 0xC3] @ [CHR 0xA9] @ ''taro, MX'')),
   (''CL-QUILICURA'', deg4 (- 333500) (- 707333) ''CL'' (''Quilicura (Google), CL'')),
   (''MY-JOHOR'', deg4 (14927) (1037414) ''MY'' (''Johor Bahru, MY'')),
   (''TW-CHANGHUA'', deg4 (240518) (1205161) ''TW'' (''Changhua (Google), TW'')),
   (''KR-CHUNCHEON'', deg4 (378813) (1277298) ''KR'' (''Chuncheon (Naver), KR'')),
   (''JP-INZAI'', deg4 (358326) (1401437) ''JP'' (''Inzai (Tokyo), JP''))
  ]"

text \<open>One entry of the catalogue file: code, country code, label, coordinates.\<close>

record cat_entry =
  cat_code :: string
  cat_cc :: string
  cat_label :: string
  cat_lat :: real
  cat_long :: real

definition cat_put :: "(string \<rightharpoonup> region_loc) \<Rightarrow> cat_entry \<Rightarrow> (string \<rightharpoonup> region_loc)" where
  "cat_put m c =
     (if cat_code c = '''' then m
      else m(cat_code c \<mapsto> \<lparr>loc_lat = cat_lat c, loc_long = cat_long c,
                             loc_zone = cat_cc c, loc_label = cat_label c\<rparr>))"

definition buildRegionMap :: "cat_entry list \<Rightarrow> (string \<rightharpoonup> region_loc)" where
  "buildRegionMap cat = foldl (\<lambda>m e. m(fst e \<mapsto> snd e)) (foldl cat_put Map.empty cat) legacyRegions"

text \<open>The keys tried by \<open>LookupRegion\<close> after the full key: ever shorter dash-separated prefixes.\<close>

fun lookup_prefixes :: "(string \<rightharpoonup> region_loc) \<Rightarrow> string list \<Rightarrow> nat \<Rightarrow> region_loc option" where
  "lookup_prefixes m parts 0 = None"
| "lookup_prefixes m parts (Suc i) =
     (case m (join ''-'' (take (Suc i) parts)) of Some loc \<Rightarrow> Some loc
      | None \<Rightarrow> lookup_prefixes m parts i)"

definition LookupRegion :: "(string \<rightharpoonup> region_loc) \<Rightarrow> string \<Rightarrow> region_loc option" where
  "LookupRegion m region =
     (let key = to_upper (trim_space region) in
      if key = '''' then None
      else case m key of Some loc \<Rightarrow> Some loc
        | None \<Rightarrow> (let parts = split_on (CHR ''-'') key in lookup_prefixes m parts (length parts - 1)))"

definition resolveMode :: "string \<Rightarrow> string \<Rightarrow> string" where
  "resolveMode network override =
     (let o' = NormalizeOverride override in
      if o' \<noteq> '''' then o' else if network = '''' then ModeGeographic else network)"

definition smartFieldsFor ::
  "(string \<rightharpoonup> region_loc) \<Rightarrow> endpoint \<Rightarrow> string \<Rightarrow> int \<times> real \<times> real \<times> string" where
  "smartFieldsFor m ep mode =
     (case LookupRegion m (ep_region ep) of
        None \<Rightarrow> (SmartNone, 0, 0, '''')
      | Some loc \<Rightarrow>
          (if resolveMode mode (ep_override ep) = ModeLatency
           then (SmartLatency, 0, 0, loc_zone loc)
           else (SmartGeolocation, loc_lat loc, loc_long loc, '''')))"

definition normWeight :: "int \<Rightarrow> int" where
  "normWeight w = (if w \<le> 0 then 100 else if w > 100 then 100 else w)"

definition maxCapacity :: "endpoint list \<Rightarrow> int" where
  "maxCapacity eps =
     foldl (\<lambda>m ep. if ep_by_capacity ep \<and> ep_capacity ep > m then ep_capacity ep else m) 0 eps"

text \<open>All operands of the division are positive there, so \<open>div\<close> agrees with Go's truncation.\<close>

definition baseWeight :: "endpoint \<Rightarrow> int \<Rightarrow> int" where
  "baseWeight ep maxCap =
     (if ep_by_capacity ep \<and> ep_capacity ep > 0 \<and> maxCap > 0 then
        (let w = (ep_capacity ep * 100 + maxCap div 2) div maxCap;
             w = (if w < 1 then 1 else w);
             w = (if w > 100 then 100 else w)
         in w)
      else normWeight (ep_weight ep))"

text \<open>Go's conversion of a float to \<open>int\<close> truncates towards zero.\<close>

definition trunc_real :: "real \<Rightarrow> int" where
  "trunc_real x = (if 0 \<le> x then \<lfloor>x\<rfloor> else \<lceil>x\<rceil>)"

definition applyLoadFactor :: "int \<Rightarrow> real \<Rightarrow> int" where
  "applyLoadFactor base factor =
     (if factor \<le> 0 \<or> factor \<ge> 1 then base
      else (let w = trunc_real (of_int base * factor + 1 / 2) in if w < 1 then 1 else w))"

definition effectiveWeight :: "endpoint \<Rightarrow> int \<Rightarrow> int" where
  "effectiveWeight ep maxCap = applyLoadFactor (baseWeight ep maxCap) (ep_load_factor ep)"

subsection \<open>Weights stay within Bunny's range\<close>

lemma normWeight_range: "1 \<le> normWeight w \<and> normWeight w \<le> 100"
  by (simp add: normWeight_def)

lemma baseWeight_range: "1 \<le> baseWeight ep m \<and> baseWeight ep m \<le> 100"
  using normWeight_range by (auto simp: baseWeight_def Let_def)

lemma applyLoadFactor_range:
  assumes "1 \<le> base" and "base \<le> n"
  shows "1 \<le> applyLoadFactor base f \<and> applyLoadFactor base f \<le> n"
proof (cases "f \<le> 0 \<or> f \<ge> 1")
  case True
  then show ?thesis using assms by (simp add: applyLoadFactor_def)
next
  case False
  let ?x = "of_int base * f + 1 / 2 :: real"
  have pos: "0 \<le> ?x" using assms False by auto
  have "of_int base * f < of_int base * (1 :: real)"
    using assms False by (intro mult_strict_left_mono) auto
  then have "\<lfloor>?x\<rfloor> \<le> base"
    by (simp add: floor_le_iff)
  then show ?thesis using assms False pos by (auto simp: applyLoadFactor_def Let_def trunc_real_def)
qed

lemma applyLoadFactor_mono:
  assumes "0 < f" "f \<le> g" "1 \<le> base"
  shows "applyLoadFactor base f \<le> applyLoadFactor base g"
proof (cases "g \<ge> 1")
  case True
  then show ?thesis using applyLoadFactor_range [OF assms(3) order_refl, of f]
    by (auto simp: applyLoadFactor_def)
next
  case False
  let ?x = "\<lambda>h. of_int base * h + 1 / 2 :: real"
  have "?x f \<le> ?x g" using assms by (simp add: mult_left_mono)
  moreover have "0 \<le> ?x f" using assms by (simp add: add_nonneg_nonneg)
  ultimately have "trunc_real (?x f) \<le> trunc_real (?x g)"
    by (auto simp: trunc_real_def floor_mono)
  then show ?thesis using False assms by (auto simp: applyLoadFactor_def Let_def)
qed

subsection \<open>The catalogue\<close>

lemma buildRegionMap_legacy:
  assumes "distinct (map fst legacyRegions)" and "(k, v) \<in> set legacyRegions"
  shows "buildRegionMap cat k = Some v"
  using foldl_upd_mem [of fst legacyRegions "(k, v)" snd] assms by (simp add: buildRegionMap_def)

lemma cat_put_other: "k \<notin> cat_code ` set cat \<Longrightarrow> foldl cat_put m cat k = m k"
  by (induction cat arbitrary: m) (auto simp: cat_put_def)

lemma buildRegionMap_other:
  assumes "k \<notin> fst ` set legacyRegions"
  shows "buildRegionMap cat k = foldl cat_put Map.empty cat k"
  using assms by (simp add: buildRegionMap_def foldl_upd_other)

lemma legacyRegions_distinct: "distinct (map fst legacyRegions)"
  by (simp add: legacyRegions_def deg4_def)

text \<open>The curated table is well formed: coordinates on the globe, country codes of two letters.\<close>

definition loc_ok :: "region_loc \<Rightarrow> bool" where
  "loc_ok l \<longleftrightarrow> \<bar>loc_lat l\<bar> \<le> 90 \<and> \<bar>loc_long l\<bar> \<le> 180 \<and> length (loc_zone l) = 2 \<and> list_all is_upper (loc_zone l)"

lemma legacyRegions_ok: "list_all (\<lambda>(k, l). loc_ok l) legacyRegions"
  by (simp add: legacyRegions_def deg4_def loc_ok_def is_upper_def)

end
