(* ===== verification/LoadSteer.thy ===== *)
theory LoadSteer
  imports Regions "HOL-Library.List_Lexorder"
begin

section \<open>Load-feedback steering (internal/dns/loadsteer.go)\<close>

text \<open>
  The controller's state is a map from edge ids to smoothed pressure and published factor.
  A sample is the list of the entries of the pressure map, in the order Go ranges over it.
  Pressures and factors are \<open>float64\<close> in the code and reals here.
\<close>

record load_opts =
  lo_interval :: duration
  lo_alpha :: real
  lo_low :: real
  lo_high :: real
  lo_min :: real
  lo_deadband :: real

definition withDefaults :: "load_opts \<Rightarrow> load_opts" where
  "withDefaults o0 =
     (let o1 = (if lo_interval o0 \<le> 0 then o0\<lparr>lo_interval := 45 * second\<rparr> else o0);
          o2 = (if lo_alpha o1 \<le> 0 \<or> lo_alpha o1 > 1 then o1\<lparr>lo_alpha := 4 / 10\<rparr> else o1);
          o3 = (if lo_low o2 \<le> 0 then o2\<lparr>lo_low := 55 / 100\<rparr> else o2);
          o4 = (if lo_high o3 \<le> 0 \<or> lo_high o3 \<le> lo_low o3 then o3\<lparr>lo_high := 90 / 100\<rparr> else o3);
          o5 = (if lo_high o4 \<le> lo_low o4 then o4\<lparr>lo_high := lo_low o4 + 2 / 10\<rparr> else o4);
          o6 = (if lo_min o5 \<le> 0 \<or> lo_min o5 \<ge> 1 then o5\<lparr>lo_min := 30 / 100\<rparr> else o5)
      in (if lo_deadband o6 \<le> 0 then o6\<lparr>lo_deadband := 7 / 100\<rparr> else o6))"

record load_state =
  ls_smoothed :: real
  ls_factor :: real
  ls_has_data :: bool
  ls_last :: real

type_synonym load_map = "string \<rightharpoonup> load_state"

text \<open>The published factor; \<open>None\<close> as the controller is the nil controller (steering off).\<close>

definition Factor :: "load_map option \<Rightarrow> string \<Rightarrow> real" where
  "Factor c e = (case c of None \<Rightarrow> 1
     | Some st \<Rightarrow> (case st e of None \<Rightarrow> 1 | Some s \<Rightarrow> if ls_has_data s then ls_factor s else 1))"

definition factorFor :: "load_opts \<Rightarrow> real \<Rightarrow> real" where
  "factorFor o' pressure =
     (if pressure \<le> lo_low o' then 1
      else if pressure \<ge> lo_high o' then lo_min o'
      else (let frac = (pressure - lo_low o') / (lo_high o' - lo_low o') in 1 - frac * (1 - lo_min o')))"

definition absDiff :: "real \<Rightarrow> real \<Rightarrow> real" where
  "absDiff a b = (if a > b then a - b else b - a)"

definition clamp01 :: "real \<Rightarrow> real" where
  "clamp01 raw = (let r = (if raw < 0 then 0 else raw) in if r > 1 then 1 else r)"

text \<open>One entry of the sample: the edge's new state and whether its factor was republished.\<close>

definition sample_edge :: "load_opts \<Rightarrow> load_state option \<Rightarrow> real \<Rightarrow> load_state \<times> bool" where
  "sample_edge o' old raw0 =
     (let raw = clamp01 raw0;
          st = (case old of
                  None \<Rightarrow> \<lparr>ls_smoothed = raw, ls_factor = 1, ls_has_data = False, ls_last = 0\<rparr>
                | Some s \<Rightarrow> s\<lparr>ls_smoothed := lo_alpha o' * raw + (1 - lo_alpha o') * ls_smoothed s\<rparr>);
          st = st\<lparr>ls_last := raw, ls_has_data := True\<rparr>;
          want = factorFor o' (ls_smoothed st)
      in if absDiff want (ls_factor st) \<ge> lo_deadband o' \<or> (want = 1 \<and> ls_factor st \<noteq> 1)
         then (st\<lparr>ls_factor := want\<rparr>, True) else (st, False))"

fun refresh_loop :: "load_opts \<Rightarrow> (string \<times> real) list \<Rightarrow> load_map \<Rightarrow> load_map \<times> bool" where
  "refresh_loop o' [] st = (st, False)"
| "refresh_loop o' ((e, raw) # ps) st =
     (let (s, ch) = sample_edge o' (st e) raw;
          (st', ch') = refresh_loop o' ps (st(e \<mapsto> s))
      in (st', ch \<or> ch'))"

definition load_refresh :: "load_opts \<Rightarrow> (string + (string \<times> real) list) \<Rightarrow> load_map \<Rightarrow> load_map \<times> bool" where
  "load_refresh o' pressures st =
     (case pressures of Inl e \<Rightarrow> (st, False) | Inr ps \<Rightarrow> refresh_loop o' ps st)"

text \<open>The snapshot, sorted by edge id; \<open>ids\<close> lists the keys of the map.\<close>

record load_status =
  st_edge :: string
  st_pressure :: real
  st_smoothed :: real
  st_factor :: real

definition load_snapshot :: "load_map \<Rightarrow> string list \<Rightarrow> load_status list" where
  "load_snapshot st ids =
     sort_key st_edge
       (List.map_filter (\<lambda>i. case st i of None \<Rightarrow> None
          | Some s \<Rightarrow> if \<not> ls_has_data s then None
              else Some \<lparr>st_edge = i, st_pressure = ls_last s, st_smoothed = ls_smoothed s, st_factor = ls_factor s\<rparr>) ids)"

subsection \<open>Lemmas\<close>

definition opts_ok :: "load_opts \<Rightarrow> bool" where
  "opts_ok o' \<longleftrightarrow> 0 < lo_interval o' \<and> 0 < lo_alpha o' \<and> lo_alpha o' \<le> 1 \<and> 0 < lo_low o' \<and>
     lo_low o' < lo_high o' \<and> 0 < lo_min o' \<and> lo_min o' < 1 \<and> 0 < lo_deadband o'"

lemma withDefaults_ok: "opts_ok (withDefaults o')"
  by (auto simp: withDefaults_def opts_ok_def Let_def)

lemma withDefaults_id: "opts_ok o' \<Longrightarrow> withDefaults o' = o'"
  by (auto simp: withDefaults_def opts_ok_def Let_def)

lemma clamp01_range: "0 \<le> clamp01 r \<and> clamp01 r \<le> 1"
  by (simp add: clamp01_def Let_def)

lemma absDiff_abs: "absDiff a b = \<bar>a - b\<bar>"
  by (simp add: absDiff_def abs_if)

lemma factorFor_range:
  assumes "opts_ok o'"
  shows "lo_min o' \<le> factorFor o' p \<and> factorFor o' p \<le> 1"
proof (cases "p \<le> lo_low o' \<or> p \<ge> lo_high o'")
  case True
  then show ?thesis using assms by (auto simp: factorFor_def opts_ok_def)
next
  case False
  let ?f = "(p - lo_low o') / (lo_high o' - lo_low o')"
  have f: "0 \<le> ?f" "?f \<le> 1" using False by (auto simp: field_simps)
  have "0 \<le> ?f * (1 - lo_min o')" using assms by (intro mult_nonneg_nonneg f(1)) (simp add: opts_ok_def)
  moreover have "?f * (1 - lo_min o') \<le> 1 - lo_min o'"
    using mult_right_mono [OF f(2), of "1 - lo_min o'"] assms by (simp add: opts_ok_def)
  moreover have "factorFor o' p = 1 - ?f * (1 - lo_min o')" using False by (simp add: factorFor_def)
  ultimately show ?thesis by linarith
qed

lemma factorFor_antimono:
  assumes ok: "opts_ok o'" and "p \<le> q"
  shows "factorFor o' q \<le> factorFor o' p"
proof (cases "p \<le> lo_low o' \<or> q \<ge> lo_high o'")
  case True
  then have "factorFor o' p = 1 \<or> factorFor o' q = lo_min o'"
    using ok assms(2) by (auto simp: factorFor_def opts_ok_def)
  then show ?thesis using factorFor_range [OF ok] by metis
next
  case False
  let ?f = "\<lambda>p. (p - lo_low o') / (lo_high o' - lo_low o')"
  have "?f p \<le> ?f q" using assms by (intro divide_right_mono) (auto simp: opts_ok_def)
  then have "?f p * (1 - lo_min o') \<le> ?f q * (1 - lo_min o')"
    using ok by (intro mult_right_mono) (auto simp: opts_ok_def)
  then show ?thesis using False assms by (simp add: factorFor_def)
qed

text \<open>The invariant of the map, and what a sample leaves for the edges it names.\<close>

definition edge_inv :: "load_opts \<Rightarrow> load_state \<Rightarrow> bool" where
  "edge_inv o' s \<longleftrightarrow> 0 \<le> ls_smoothed s \<and> ls_smoothed s \<le> 1 \<and> lo_min o' \<le> ls_factor s \<and> ls_factor s \<le> 1"

definition load_inv :: "load_opts \<Rightarrow> load_map \<Rightarrow> bool" where
  "load_inv o' st \<longleftrightarrow> (\<forall>e s. st e = Some s \<longrightarrow> edge_inv o' s)"

definition settled :: "load_opts \<Rightarrow> load_state \<Rightarrow> bool" where
  "settled o' s \<longleftrightarrow> ls_has_data s \<and> \<bar>factorFor o' (ls_smoothed s) - ls_factor s\<bar> < lo_deadband o' \<and>
     (factorFor o' (ls_smoothed s) = 1 \<longrightarrow> ls_factor s = 1)"

lemma ewma_range:
  fixes a r s :: real
  assumes "0 < a" "a \<le> 1" "0 \<le> r" "r \<le> 1" "0 \<le> s" "s \<le> 1"
  shows "0 \<le> a * r + (1 - a) * s \<and> a * r + (1 - a) * s \<le> 1"
proof
  show "0 \<le> a * r + (1 - a) * s" using assms by simp
  have "a * r \<le> a * 1" "(1 - a) * s \<le> (1 - a) * 1"
    using assms by (intro mult_left_mono; simp)+
  then show "a * r + (1 - a) * s \<le> 1" by simp
qed

definition new_smoothed :: "load_opts \<Rightarrow> load_state option \<Rightarrow> real \<Rightarrow> real" where
  "new_smoothed o' old raw = (case old of None \<Rightarrow> clamp01 raw
     | Some s \<Rightarrow> lo_alpha o' * clamp01 raw + (1 - lo_alpha o') * ls_smoothed s)"

lemma sample_smoothed: "ls_smoothed (fst (sample_edge o' old raw)) = new_smoothed o' old raw"
  by (simp add: sample_edge_def new_smoothed_def Let_def split: option.split)

lemma sample_settled:
  assumes "opts_ok o'"
  shows "settled o' (fst (sample_edge o' old raw))"
  using assms by (auto simp: sample_edge_def settled_def Let_def absDiff_abs opts_ok_def)

lemma sample_inv:
  assumes ok: "opts_ok o'" and old: "\<And>s. old = Some s \<Longrightarrow> edge_inv o' s"
  shows "edge_inv o' (fst (sample_edge o' old raw))"
proof -
  have "0 \<le> new_smoothed o' old raw \<and> new_smoothed o' old raw \<le> 1"
    using ewma_range [of "lo_alpha o'" "clamp01 raw"] clamp01_range [of raw] ok old
    by (auto simp: new_smoothed_def opts_ok_def edge_inv_def split: option.split)
  moreover have "lo_min o' \<le> ls_factor (fst (sample_edge o' old raw)) \<and> ls_factor (fst (sample_edge o' old raw)) \<le> 1"
    using factorFor_range [OF ok] old ok
    by (auto simp: sample_edge_def Let_def edge_inv_def opts_ok_def split: option.split)
  ultimately show ?thesis by (simp add: edge_inv_def sample_smoothed)
qed

lemma refresh_step:
  "fst (refresh_loop o' (p # ps) st) =
     fst (refresh_loop o' ps (st(fst p \<mapsto> fst (sample_edge o' (st (fst p)) (snd p)))))"
  by (cases p) (simp add: Let_def case_prod_beta')

lemma load_inv_empty: "load_inv o' Map.empty"
  by (simp add: load_inv_def)

lemma refresh_inv:
  assumes "opts_ok o'" "load_inv o' st"
  shows "load_inv o' (fst (refresh_loop o' ps st))"
  using assms(2)
proof (induction ps arbitrary: st)
  case (Cons p ps)
  have "load_inv o' (st(fst p \<mapsto> fst (sample_edge o' (st (fst p)) (snd p))))"
    using Cons.prems sample_inv [OF assms(1)] by (auto simp: load_inv_def)
  from Cons.IH [OF this] show ?case unfolding refresh_step .
qed simp

lemma refresh_other: "e \<notin> fst ` set ps \<Longrightarrow> fst (refresh_loop o' ps st) e = st e"
  by (induction ps arbitrary: st) (simp_all add: refresh_step del: refresh_loop.simps(2))

lemma refresh_edge:
  assumes "distinct (map fst ps)" "(e, raw) \<in> set ps"
  shows "fst (refresh_loop o' ps st) e = Some (fst (sample_edge o' (st e) raw))"
  using assms
proof (induction ps arbitrary: st)
  case (Cons p ps)
  obtain f r where p: "p = (f, r)" by (cases p)
  have step: "fst (refresh_loop o' (p # ps) st) = fst (refresh_loop o' ps (st(f \<mapsto> fst (sample_edge o' (st f) r))))"
    unfolding refresh_step by (simp add: p)
  show ?case
  proof (cases "(e, raw) = p")
    case True
    then have "e \<notin> fst ` set ps" "f = e" "r = raw" using Cons.prems(1) p by auto
    then show ?thesis unfolding step by (simp add: refresh_other)
  next
    case False
    then have "(e, raw) \<in> set ps" "e \<noteq> f" using Cons.prems p by force+
    then show ?thesis unfolding step using Cons.IH Cons.prems(1) by simp
  qed
qed simp

text \<open>
  A series of refreshes, of which some fail and some name the edge. With every pressure reported for it
  at most \<open>p\<close>, its smoothed value approaches \<open>p\<close> from above geometrically.
\<close>

abbreviation load_refreshes :: "load_opts \<Rightarrow> (string + (string \<times> real) list) list \<Rightarrow> load_map \<Rightarrow> load_map" where
  "load_refreshes o' rs st \<equiv> foldl (\<lambda>st r. fst (load_refresh o' r st)) st rs"

definition names_edge :: "string \<Rightarrow> string + (string \<times> real) list \<Rightarrow> bool" where
  "names_edge e r \<longleftrightarrow> (case r of Inl err \<Rightarrow> False | Inr ps \<Rightarrow> e \<in> fst ` set ps)"

definition cool :: "string \<Rightarrow> real \<Rightarrow> string + (string \<times> real) list \<Rightarrow> bool" where
  "cool e p r \<longleftrightarrow> (case r of Inl err \<Rightarrow> True | Inr ps \<Rightarrow> distinct (map fst ps) \<and> (\<forall>(f, q) \<in> set ps. f = e \<longrightarrow> q \<le> p))"

lemma refresh_kept: "\<not> names_edge e r \<Longrightarrow> fst (load_refresh o' r st) e = st e"
  by (cases r) (simp_all add: names_edge_def load_refresh_def refresh_other)

lemma refresh_named:
  assumes "cool e p r" "names_edge e r"
  shows "\<exists>q \<le> p. fst (load_refresh o' r st) e = Some (fst (sample_edge o' (st e) q))"
proof (cases r)
  case (Inr ps)
  then obtain q where q: "(e, q) \<in> set ps" using assms(2) by (auto simp: names_edge_def)
  then have "q \<le> p" "distinct (map fst ps)" using assms(1) Inr by (auto simp: cool_def)
  then show ?thesis using refresh_edge [OF _ q] Inr by (auto simp: load_refresh_def)
qed (use assms(2) in \<open>simp add: names_edge_def\<close>)

lemma refreshes_smoothed:
  assumes ok: "opts_ok o'" and st: "load_inv o' st" and p: "0 \<le> p" and rs: "list_all (cool e p) rs"
  shows "case load_refreshes o' rs st e of
      None \<Rightarrow> filter (names_edge e) rs = []
    | Some t \<Rightarrow> ls_smoothed t \<le> p + (1 - lo_alpha o') ^ length (filter (names_edge e) rs) \<and>
        (filter (names_edge e) rs \<noteq> [] \<longrightarrow> settled o' t)"
  using rs
proof (induction rs rule: rev_induct)
  case Nil
  then show ?case using st p by (fastforce simp: load_inv_def edge_inv_def split: option.split)
next
  case (snoc r rs)
  let ?st = "load_refreshes o' rs st" and ?b = "1 - lo_alpha o'" and ?n = "length (filter (names_edge e) rs)"
  have b: "0 \<le> ?b" "0 \<le> lo_alpha o'" using ok by (auto simp: opts_ok_def)
  show ?case
  proof (cases "names_edge e r")
    case False
    then show ?thesis using snoc by (simp add: refresh_kept split: option.splits)
  next
    case True
    obtain q where q: "q \<le> p" "fst (load_refresh o' r ?st) e = Some (fst (sample_edge o' (?st e) q))"
      using refresh_named [OF _ True, of p o' ?st] snoc.prems by auto
    have c: "clamp01 q \<le> p" using q(1) p by (auto simp: clamp01_def)
    have "new_smoothed o' (?st e) q \<le> p + ?b ^ Suc ?n"
    proof (cases "?st e")
      case None
      then show ?thesis using c b(1) by (simp add: new_smoothed_def add_increasing2)
    next
      case (Some t)
      then have t: "ls_smoothed t \<le> p + ?b ^ ?n" using snoc by simp
      have "lo_alpha o' * clamp01 q + ?b * ls_smoothed t \<le> lo_alpha o' * p + ?b * (p + ?b ^ ?n)"
        using c t b by (intro add_mono mult_left_mono)
      also have "\<dots> = p + ?b ^ Suc ?n" by (simp add: algebra_simps)
      finally show ?thesis by (simp add: new_smoothed_def Some)
    qed
    then show ?thesis using True q(2) sample_settled [OF ok] by (simp add: sample_smoothed)
  qed
qed

subsection \<open>Properties\<close>

text \<open>
  Steering never drains an edge. From the empty map, after any number of samples (failed
  ones too), the published factor of every edge is between \<open>MinFactor\<close> and 1, so the weight
  written to DNS stays within 1 to 100.
\<close>

theorem steering_bounds:
  fixes pressures :: "(string + (string \<times> real) list) list"
  shows "let o' = withDefaults opts; f = Factor (Some (foldl (\<lambda>st ps. fst (load_refresh o' ps st)) Map.empty pressures)) e
   in lo_min o' \<le> f \<and> f \<le> 1 \<and> 0 < f \<and>
      1 \<le> applyLoadFactor (baseWeight ep maxCap) f \<and> applyLoadFactor (baseWeight ep maxCap) f \<le> 100"
proof -
  let ?o = "withDefaults opts"
  note ok = withDefaults_ok [of opts]
  have step: "load_inv ?o st \<Longrightarrow> load_inv ?o (fst (load_refresh ?o ps st))" for st ps
    using refresh_inv [OF ok] by (simp add: load_refresh_def split: sum.split)
  have "load_inv ?o st \<Longrightarrow> load_inv ?o (foldl (\<lambda>st ps. fst (load_refresh ?o ps st)) st pressures)" for st
    by (induction pressures arbitrary: st) (simp_all add: step)
  then have inv: "load_inv ?o (foldl (\<lambda>st ps. fst (load_refresh ?o ps st)) Map.empty pressures)"
    by (simp add: load_inv_empty)
  then have f: "lo_min ?o \<le> Factor (Some (foldl (\<lambda>st ps. fst (load_refresh ?o ps st)) Map.empty pressures)) e
     \<and> Factor (Some (foldl (\<lambda>st ps. fst (load_refresh ?o ps st)) Map.empty pressures)) e \<le> 1"
    using ok by (auto simp: Factor_def load_inv_def edge_inv_def opts_ok_def split: option.split)
  then show ?thesis
    using ok applyLoadFactor_range [of "baseWeight ep maxCap" 100] baseWeight_range [of ep maxCap]
    by (auto simp: Let_def opts_ok_def)
qed

text \<open>
  C29: Full recovery. There is a number \<open>N\<close> of samples, the same for every edge and every state, after
  which an edge whose reported pressure stays at or below some \<open>p < LowWater\<close> has its full share back and
  keeps it -- however hot it was before, whatever the deadband, whatever the other edges report and
  however many refreshes fail in between (in exact arithmetic, where the code has \<open>float64\<close>).
\<close>

theorem steering_recovers:
  assumes ok: "opts_ok o'" and p: "0 \<le> p" "p < lo_low o'"
  shows "\<exists>N. \<forall>e st rs. load_inv o' st \<and> list_all (cool e p) rs \<and> N \<le> length (filter (names_edge e) rs) \<longrightarrow>
           Factor (Some (load_refreshes o' rs st)) e = 1"
proof -
  let ?b = "1 - lo_alpha o'" and ?d = "lo_low o' - p"
  have b: "0 \<le> ?b" "?b < 1" using ok by (auto simp: opts_ok_def)
  have "0 < ?d" using p by simp
  from real_arch_pow_inv [OF this b(2)] obtain N where N: "?b ^ N < ?d" by blast
  have "Factor (Some (load_refreshes o' rs st)) e = 1"
    if st: "load_inv o' st" and rs: "list_all (cool e p) rs" and n: "Suc N \<le> length (filter (names_edge e) rs)" for e st rs
  proof -
    have ne: "filter (names_edge e) rs \<noteq> []" using n by auto
    obtain t where t: "load_refreshes o' rs st e = Some t" "settled o' t"
      "ls_smoothed t \<le> p + ?b ^ length (filter (names_edge e) rs)"
      using refreshes_smoothed [OF ok st p(1) rs] ne by (auto split: option.splits)
    have "?b ^ length (filter (names_edge e) rs) \<le> ?b ^ N" using b n by (intro power_decreasing) auto
    then have "ls_smoothed t \<le> lo_low o'" using t(3) N by simp
    then have "factorFor o' (ls_smoothed t) = 1" by (simp add: factorFor_def)
    then show ?thesis using t(1,2) by (simp add: Factor_def settled_def)
  qed
  then show ?thesis by blast
qed

definition demo_load :: load_opts where
  "demo_load = withDefaults \<lparr>lo_interval = 0, lo_alpha = 0, lo_low = 0, lo_high = 0, lo_min = 0, lo_deadband = 0\<rparr>"

lemma steering_recovers_witness:
  "\<exists>N. Factor (Some (load_refreshes demo_load (Inl ''timeout'' # replicate N (Inr [(''e1'', 1 / 10), (''e2'', 1)]))
     [''e1'' \<mapsto> \<lparr>ls_smoothed = 1, ls_factor = 3 / 10, ls_has_data = True, ls_last = 1\<rparr>])) ''e1'' = 1"
proof -
  have ok: "opts_ok demo_load" by (simp add: demo_load_def withDefaults_ok)
  have low: "1 / 10 < lo_low demo_load" by (simp add: demo_load_def withDefaults_def Let_def)
  obtain N where N: "\<forall>e st rs. load_inv demo_load st \<and> list_all (cool e (1 / 10)) rs \<and> N \<le> length (filter (names_edge e) rs) \<longrightarrow>
      Factor (Some (load_refreshes demo_load rs st)) e = 1"
    using steering_recovers [OF ok _ low] by auto
  let ?st = "[''e1'' \<mapsto> \<lparr>ls_smoothed = 1, ls_factor = 3 / 10, ls_has_data = True, ls_last = 1\<rparr>]"
  let ?r = "Inr [(''e1'', 1 / 10), (''e2'', 1)]"
  have inv: "load_inv demo_load ?st" by (simp add: load_inv_def edge_inv_def demo_load_def withDefaults_def Let_def)
  have "cool ''e1'' (1 / 10) ?r" "names_edge ''e1'' ?r" "cool ''e1'' (1 / 10) (Inl ''timeout'')"
    by (simp_all add: cool_def names_edge_def)
  then have "list_all (cool ''e1'' (1 / 10)) (Inl ''timeout'' # replicate N ?r)"
    "N \<le> length (filter (names_edge ''e1'') (Inl ''timeout'' # replicate N ?r))"
    by (simp_all add: list_all_iff)
  with N inv show ?thesis by blast
qed

text \<open>
  A sample leaves every edge it names with a published factor that is within the deadband
  of the ramp's value, and exactly 1 when the ramp says 1; edges it does not name keep their
  state.
\<close>

theorem refresh_settles:
  assumes "distinct (map fst ps)"
  shows "\<forall>e. (e \<notin> fst ` set ps \<longrightarrow> fst (load_refresh (withDefaults opts) (Inr ps) st) e = st e) \<and>
     (e \<in> fst ` set ps \<longrightarrow> (\<exists>s. fst (load_refresh (withDefaults opts) (Inr ps) st) e = Some s \<and>
         settled (withDefaults opts) s))"
proof (intro allI conjI impI)
  fix e
  show "fst (load_refresh (withDefaults opts) (Inr ps) st) e = st e" if "e \<notin> fst ` set ps"
    using that by (simp add: load_refresh_def refresh_other)
  show "\<exists>s. fst (load_refresh (withDefaults opts) (Inr ps) st) e = Some s \<and> settled (withDefaults opts) s"
    if "e \<in> fst ` set ps"
    using that refresh_edge [OF assms] sample_settled [OF withDefaults_ok]
    by (auto simp: load_refresh_def)
qed

lemma refresh_settles_witness:
  "\<exists>s. fst (load_refresh (withDefaults demo_load) (Inr [(''e1'', 95 / 100), (''e2'', 2)]) Map.empty) ''e2'' = Some s \<and>
     settled (withDefaults demo_load) s"
  using refresh_settles [of "[(''e1'', 95 / 100), (''e2'', 2)]" demo_load Map.empty] by simp

end
