(* ===== verification/Telemetry.thy ===== *)
theory Telemetry
  imports Prelude
begin

section \<open>Telemetry of the agent (stats/stats.go, stats/reporter.go, logship/logship.go, waf/server.go)\<close>

text \<open>
  Three components buffer records for a control plane that may be down: metric samples,
  access-log entries and firewall events. They share one contract, a bounded buffer that drops
  its oldest records, stated as the locale \<open>drop_oldest\<close> and instantiated by the three. The
  log files are byte strings; the JSON codec and the system metrics are parameters. Times
  are instants, rates and timings reals.
\<close>

definition lastn :: "nat \<Rightarrow> 'a list \<Rightarrow> 'a list" where
  "lastn n xs = drop (length xs - n) xs"

lemma lastn_fit [simp]: "length xs \<le> n \<Longrightarrow> lastn n xs = xs"
  by (simp add: lastn_def)

lemma length_lastn [simp]: "length (lastn n xs) = min n (length xs)"
  by (simp add: lastn_def min_def)

lemma lastn_append: "lastn n (lastn n xs @ ys) = lastn n (xs @ ys)"
  by (cases "length xs \<le> n") (simp_all add: lastn_def add.commute)

lemma lastn_suffix: "suffix (lastn n xs) xs"
  by (simp add: lastn_def suffix_drop)

subsection \<open>The buffer contract\<close>

locale drop_oldest =
  fixes ok :: "'b \<Rightarrow> bool" and push :: "'b \<Rightarrow> 'a list \<Rightarrow> 'b" and contents :: "'b \<Rightarrow> 'a list" and cap :: nat
  assumes push_law: "ok b \<Longrightarrow> contents (push b xs) = lastn cap (contents b @ xs)"
    and push_ok: "ok b \<Longrightarrow> ok (push b xs)"
    and ok_bound: "ok b \<Longrightarrow> length (contents b) \<le> cap"
begin

lemma pushes: "ok b \<Longrightarrow> ok (foldl push b xss) \<and> contents (foldl push b xss) = lastn cap (contents b @ concat xss)"
proof (induction xss rule: rev_induct)
  case Nil
  then show ?case by (simp add: ok_bound)
next
  case (snoc xs xss)
  then have "ok (foldl push b xss)" "contents (foldl push b xss) = lastn cap (contents b @ concat xss)" by simp_all
  then show ?case using push_law push_ok by (simp add: lastn_append flip: append_assoc)
qed

lemma bounded: "ok b \<Longrightarrow> length (contents (foldl push b xss)) \<le> cap"
  by (simp add: pushes)

lemma keeps_newest: "ok b \<Longrightarrow> suffix (contents (foldl push b xss)) (contents b @ concat xss)"
  by (simp add: pushes lastn_suffix)

lemma keeps_all: "ok b \<Longrightarrow> length (contents b @ concat xss) \<le> cap \<Longrightarrow> contents (foldl push b xss) = contents b @ concat xss"
  by (simp add: pushes)

end

subsection \<open>Metric samples\<close>

record zone_agg =
  ag_req :: int
  ag_hit :: int
  ag_miss :: int
  ag_bytes :: int

record sample =
  sm_time :: instant
  sm_zone :: string
  sm_requests :: int
  sm_hits :: int
  sm_misses :: int
  sm_bytes :: int
  sm_bps :: int
  sm_cpu :: "real option"
  sm_ram :: "real option"
  sm_disk :: "real option"
  sm_conns :: "int option"
  sm_ram_total :: "int option"
  sm_disk_total :: "int option"

record collector =
  co_offset :: nat
  co_inited :: bool
  co_last :: "instant option"

definition defaultInterval :: duration where
  "defaultInterval = 10 * second"

definition collect_interval :: "collector \<Rightarrow> instant \<Rightarrow> collector \<times> duration" where
  "collect_interval c now =
     (case co_last c of
        None \<Rightarrow> (c\<lparr>co_last := Some now\<rparr>, defaultInterval)
      | Some t \<Rightarrow> (let d = now - t in (c\<lparr>co_last := Some now\<rparr>, if d \<le> 0 then second else d)))"

definition bandwidth :: "duration \<Rightarrow> int \<Rightarrow> int" where
  "bandwidth elapsed bytes =
     (if elapsed \<le> 0 then 0
      else (let x = of_int bytes * 8 / (of_int elapsed / 1000000000) :: real in if 0 \<le> x then \<lfloor>x\<rfloor> else \<lceil>x\<rceil>))"

text \<open>\<open>ParseInt\<close> with its error ignored: 0 on a syntax error, the nearest bound on overflow.\<close>

definition parse_int_ignored :: "string \<Rightarrow> int" where
  "parse_int_ignored s =
     (case parse_int s of
        Some n \<Rightarrow> n
      | None \<Rightarrow>
          (case s of [] \<Rightarrow> 0
           | c # cs \<Rightarrow>
               (if c = CHR ''-'' then (if parse_digits cs = None then 0 else - (2 ^ 63))
                else if parse_digits (if c = CHR ''+'' then cs else s) = None then 0 else 2 ^ 63 - 1)))"

text \<open>A log line: \<open>IP host cache [time] "request" status bytes ...\<close>; the status is not used.\<close>

definition parse_stat_line :: "string \<Rightarrow> (string \<times> string \<times> int) option" where
  "parse_stat_line line =
     (let f = Prelude.fields line in
      if length f < 3 then None
      else (case index_byte (CHR 0x22) line of
              None \<Rightarrow> None
            | Some i \<Rightarrow>
                (case index_byte (CHR 0x22) (drop (i + 1) line) of
                   None \<Rightarrow> None
                 | Some j \<Rightarrow>
                     (let rest = Prelude.fields (trim_space (drop (i + 1 + j + 1) line)) in
                      if length rest < 2 then None
                      else Some (f ! 1, f ! 2, parse_int_ignored (rest ! 1))))))"

definition agg_add :: "zone_agg \<Rightarrow> string \<Rightarrow> int \<Rightarrow> zone_agg" where
  "agg_add a cache bytes =
     (let a = a\<lparr>ag_req := ag_req a + 1, ag_bytes := ag_bytes a + bytes\<rparr> in
      if cache = ''HIT'' then a\<lparr>ag_hit := ag_hit a + 1\<rparr>
      else if cache = ''MISS'' then a\<lparr>ag_miss := ag_miss a + 1\<rparr> else a)"

definition zero_agg :: zone_agg where
  "zero_agg = \<lparr>ag_req = 0, ag_hit = 0, ag_miss = 0, ag_bytes = 0\<rparr>"

definition count_line :: "(string \<times> zone_agg) list \<times> zone_agg \<Rightarrow> string \<Rightarrow> (string \<times> zone_agg) list \<times> zone_agg" where
  "count_line zt line =
     (case parse_stat_line line of
        None \<Rightarrow> zt
      | Some (host, cache, bytes) \<Rightarrow>
          (let a = (case map_of (fst zt) host of None \<Rightarrow> zero_agg | Some a \<Rightarrow> a)
           in (AList.update host (agg_add a cache bytes) (fst zt), agg_add (snd zt) cache bytes)))"

text \<open>The lines a \<open>bufio.Scanner\<close> yields: the last one needs no newline; a final CR is dropped.\<close>

definition drop_cr :: "string \<Rightarrow> string" where
  "drop_cr s = (if s \<noteq> [] \<and> last s = CHR 0x0D then butlast s else s)"

definition scan_lines :: "string \<Rightarrow> string list" where
  "scan_lines data =
     (let ps = split_on (CHR 0x0A) data in map drop_cr (if last ps = [] then butlast ps else ps))"

text \<open>
  \<open>readAccessLog\<close>: \<open>size\<close> is the size \<open>Stat\<close> reported and \<open>content\<close> what the scanner reads up
  to the end of the file, which may have grown in between; \<open>None\<close> is a failed open, stat or
  seek. Lines of more than a megabyte, at which the scanner stops, do not occur.
\<close>

definition readAccessLog :: "(nat \<times> string) option \<Rightarrow> collector \<Rightarrow> collector \<times> (string \<times> zone_agg) list \<times> zone_agg" where
  "readAccessLog file c =
     (case file of
        None \<Rightarrow> (c, [], zero_agg)
      | Some (fsize, content) \<Rightarrow>
          (if \<not> co_inited c then (c\<lparr>co_offset := fsize, co_inited := True\<rparr>, [], zero_agg)
           else
             (let c = (if fsize < co_offset c then c\<lparr>co_offset := 0\<rparr> else c) in
              if fsize = co_offset c then (c, [], zero_agg)
              else
                (let (zones, total) = foldl count_line ([], zero_agg) (scan_lines (drop (co_offset c) content))
                 in (c\<lparr>co_offset := fsize\<rparr>, zones, total)))))"

record sys_metrics =
  sy_cpu :: "real option"
  sy_ram :: "real option"
  sy_disk :: "real option"
  sy_conns :: "int option"
  sy_ram_total :: "int option"
  sy_disk_total :: "int option"

definition Collect_samples ::
  "((string \<times> zone_agg) list \<Rightarrow> (string \<times> zone_agg) list) \<Rightarrow> sys_metrics \<Rightarrow> (nat \<times> string) option \<Rightarrow> instant \<Rightarrow>
   collector \<Rightarrow> collector \<times> sample list" where
  "Collect_samples ord sys file now c =
     (let (c1, elapsed) = collect_interval c now;
          (c2, zones, total) = readAccessLog file c1;
          mk = (\<lambda>z a. \<lparr>sm_time = now, sm_zone = z, sm_requests = ag_req a, sm_hits = ag_hit a, sm_misses = ag_miss a,
                       sm_bytes = ag_bytes a, sm_bps = bandwidth elapsed (ag_bytes a), sm_cpu = None, sm_ram = None,
                       sm_disk = None, sm_conns = None, sm_ram_total = None, sm_disk_total = None\<rparr>)
      in (c2, map (\<lambda>p. mk (fst p) (snd p)) (ord zones) @
            [(mk '''' total)\<lparr>sm_cpu := sy_cpu sys, sm_ram := sy_ram sys, sm_disk := sy_disk sys,
               sm_conns := sy_conns sys, sm_ram_total := sy_ram_total sys, sm_disk_total := sy_disk_total sys\<rparr>]))"

definition parse_stub_line :: "string \<Rightarrow> int option" where
  "parse_stub_line line =
     (if has_prefix line ''Active connections:''
      then parse_int (trim_space (trim_prefix line ''Active connections:'')) else None)"

definition scrapeStub :: "string option \<Rightarrow> int option" where
  "scrapeStub body = (case body of None \<Rightarrow> None
     | Some b \<Rightarrow> (case List.map_filter parse_stub_line (scan_lines b) of [] \<Rightarrow> None | n # _ \<Rightarrow> Some n))"

subsection \<open>The stats reporter\<close>

definition maxBufferSamples :: nat where
  "maxBufferSamples = 5000"

definition buf_append :: "nat \<Rightarrow> 'a list \<Rightarrow> 'a list \<Rightarrow> 'a list" where
  "buf_append cap buf xs = (let b = buf @ xs in if length b > cap then drop (length b - cap) b else b)"

text \<open>\<open>tick\<close>: \<open>marshal\<close> tells whether the JSON encoding succeeds, \<open>ship\<close> whether the delivery does.\<close>

definition reporter_tick :: "('a list \<Rightarrow> bool) \<Rightarrow> ('a list \<Rightarrow> bool) \<Rightarrow> 'a list \<Rightarrow> 'a list \<Rightarrow> 'a list \<times> 'a list option" where
  "reporter_tick marshal ship buf samples =
     (let b = buf_append maxBufferSamples buf samples in
      if b = [] then (b, None)
      else if \<not> marshal b then ([], None)
      else if ship b then ([], Some b) else (b, None))"

lemma buf_append_lastn: "buf_append cap b xs = lastn cap (b @ xs)"
  by (simp add: buf_append_def lastn_def Let_def)

interpretation reporter: drop_oldest "\<lambda>b. length b \<le> maxBufferSamples" "buf_append maxBufferSamples" "\<lambda>b. b" maxBufferSamples
  by unfold_locales (simp_all add: buf_append_lastn)

subsection \<open>The firewall event buffer\<close>

definition maxBufferedEvents :: nat where
  "maxBufferedEvents = 5000"

record 'a event_buffer =
  eb_buf :: "'a list"
  eb_max :: nat

definition NewEventBuffer :: "'a event_buffer" where
  "NewEventBuffer = \<lparr>eb_buf = [], eb_max = maxBufferedEvents\<rparr>"

definition AddEvent :: "'a event_buffer \<Rightarrow> 'a \<Rightarrow> 'a event_buffer" where
  "AddEvent b ev = b\<lparr>eb_buf := buf_append (eb_max b) (eb_buf b) [ev]\<rparr>"

text \<open>
  \<open>flush\<close> takes the batch under the lock, ships it without the lock, and on a failure puts it
  back in front of what was added meanwhile.
\<close>

definition flush_take :: "'a event_buffer \<Rightarrow> 'a event_buffer \<times> 'a list" where
  "flush_take b = (if eb_buf b = [] then (b, []) else (b\<lparr>eb_buf := []\<rparr>, eb_buf b))"

definition flush_requeue :: "'a list \<Rightarrow> 'a event_buffer \<Rightarrow> 'a event_buffer" where
  "flush_requeue batch b = b\<lparr>eb_buf := buf_append (eb_max b) batch (eb_buf b)\<rparr>"

definition flush_events ::
  "('a list \<Rightarrow> bool) \<Rightarrow> ('a list \<Rightarrow> bool) \<Rightarrow> 'a list \<Rightarrow> 'a event_buffer \<Rightarrow> 'a event_buffer \<times> 'a list option" where
  "flush_events marshal ship added b =
     (let (b1, batch) = flush_take b;
          b2 = foldl AddEvent b1 added
      in if batch = [] then (b2, None)
         else if \<not> marshal batch then (b2, None)
         else if ship batch then (b2, Some batch)
         else (flush_requeue batch b2, None))"

text \<open>One event at a time or all at once, the buffer ends the same.\<close>

lemma buf_append_single: "foldl (\<lambda>b x. buf_append cap b [x]) b xs = (if xs = [] then b else lastn cap (b @ xs))"
proof (induction xs rule: rev_induct)
  case (snoc x xs)
  have "lastn cap (lastn cap (b @ xs) @ [x]) = lastn cap ((b @ xs) @ [x])" by (rule lastn_append)
  then show ?case using snoc by (auto simp: buf_append_lastn)
qed simp

lemma AddEvents: "foldl AddEvent b xs = b\<lparr>eb_buf := foldl (\<lambda>c x. buf_append (eb_max b) c [x]) (eb_buf b) xs\<rparr>"
  by (induction xs arbitrary: b) (simp_all add: AddEvent_def)

definition buffer_ok :: "'a event_buffer \<Rightarrow> bool" where
  "buffer_ok b \<longleftrightarrow> eb_max b = maxBufferedEvents \<and> length (eb_buf b) \<le> maxBufferedEvents"

interpretation firewall: drop_oldest buffer_ok "foldl AddEvent" eb_buf maxBufferedEvents
  by unfold_locales (auto simp: buffer_ok_def AddEvents buf_append_single)

subsection \<open>The log shipper\<close>

definition maxBuffered :: nat where
  "maxBuffered = 10000"

record log_entry =
  lg_ts :: instant
  lg_zone :: string
  lg_ip :: string
  lg_country :: string
  lg_method :: string
  lg_path :: string
  lg_status :: int
  lg_bytes :: int
  lg_cache :: string
  lg_rt :: real
  lg_urt :: real
  lg_referer :: string
  lg_ua :: string
  lg_rid :: string

record nginx_line =
  nl_ts :: string
  nl_ip :: string
  nl_country :: string
  nl_method :: string
  nl_host :: string
  nl_path :: string
  nl_status :: int
  nl_bytes :: int
  nl_cache :: string
  nl_rt :: string
  nl_urt :: string
  nl_ref :: string
  nl_ua :: string
  nl_rid :: string

fun index_any :: "string \<Rightarrow> string \<Rightarrow> nat option" where
  "index_any cs [] = None"
| "index_any cs (x # xs) = (if x \<in> set cs then Some 0 else map_option Suc (index_any cs xs))"

definition parse_timing :: "(string \<Rightarrow> real option) \<Rightarrow> string \<Rightarrow> real" where
  "parse_timing pfloat s0 =
     (let s = trim_space s0 in
      if s = '''' \<or> s = ''-'' then 0
      else (case pfloat (case index_any '', '' s of Some i \<Rightarrow> take i s | None \<Rightarrow> s) of None \<Rightarrow> 0 | Some v \<Rightarrow> v))"

definition parse_log_line ::
  "(string \<Rightarrow> nginx_line option) \<Rightarrow> (string \<Rightarrow> instant option) \<Rightarrow> (string \<Rightarrow> real option) \<Rightarrow> instant \<Rightarrow> string \<Rightarrow>
   log_entry option" where
  "parse_log_line unmarshal ptime pfloat now line =
     (case unmarshal line of
        None \<Rightarrow> None
      | Some n \<Rightarrow>
          Some \<lparr>lg_ts = (case ptime (nl_ts n) of Some t \<Rightarrow> t | None \<Rightarrow> now), lg_zone = nl_host n, lg_ip = nl_ip n,
             lg_country = (if nl_country n = ''-'' then '''' else nl_country n), lg_method = nl_method n,
             lg_path = nl_path n, lg_status = nl_status n, lg_bytes = nl_bytes n, lg_cache = nl_cache n,
             lg_rt = parse_timing pfloat (nl_rt n), lg_urt = parse_timing pfloat (nl_urt n),
             lg_referer = nl_ref n, lg_ua = nl_ua n, lg_rid = nl_rid n\<rparr>)"

record 'e shipper =
  sh_buf :: "'e list"
  sh_offset :: nat
  sh_started :: bool

definition ship_line :: "(string \<Rightarrow> 'e option) \<Rightarrow> 'e list \<Rightarrow> string \<Rightarrow> 'e list" where
  "ship_line parse buf line0 =
     (let line = trim_space line0 in
      if line = [] \<or> hd line \<noteq> CHR ''{'' then buf
      else (case parse line of None \<Rightarrow> buf | Some e \<Rightarrow> buf_append maxBuffered buf [e]))"

text \<open>
  \<open>readNew\<close>: the file's content at the time of the call, \<open>None\<close> when it cannot be opened,
  stat'ed or positioned. The read is of the size \<open>Stat\<close> reported.
\<close>

definition readNew :: "(string \<Rightarrow> 'e option) \<Rightarrow> string option \<Rightarrow> 'e shipper \<Rightarrow> 'e shipper" where
  "readNew parse file s =
     (case file of
        None \<Rightarrow> s
      | Some content \<Rightarrow>
          (let s = (if length content < sh_offset s then s\<lparr>sh_offset := 0\<rparr> else s) in
           if \<not> sh_started s then s\<lparr>sh_offset := length content, sh_started := True\<rparr>
           else if length content = sh_offset s then s
           else
             (let data = drop (sh_offset s) content in
              case last_index_byte (CHR 0x0A) data of
                None \<Rightarrow> s
              | Some i \<Rightarrow> s\<lparr>sh_buf := foldl (ship_line parse) (sh_buf s) (split_on (CHR 0x0A) (take i data)),
                            sh_offset := sh_offset s + (i + 1)\<rparr>)))"

definition ship_flush :: "('e list \<Rightarrow> bool) \<Rightarrow> ('e list \<Rightarrow> bool) \<Rightarrow> 'e shipper \<Rightarrow> 'e shipper \<times> 'e list option" where
  "ship_flush marshal ship s =
     (if sh_buf s = [] then (s, None)
      else if \<not> marshal (sh_buf s) then (s\<lparr>sh_buf := []\<rparr>, None)
      else if ship (sh_buf s) then (s\<lparr>sh_buf := []\<rparr>, Some (sh_buf s)) else (s, None))"

text \<open>
  One turn of \<open>Run\<close>: a read and then a flush. The delivery of the batch may be acknowledged, or fail
  before the control plane has it, or fail after it, when the answer is lost. A turn yields the entries
  that were acknowledged and those the control plane received.
\<close>

datatype delivery = Acknowledged | AnswerLost | Undelivered

definition ship_turn ::
  "(string \<Rightarrow> 'e option) \<Rightarrow> ('e list \<Rightarrow> bool) \<Rightarrow> string option \<times> delivery \<Rightarrow> 'e shipper \<Rightarrow> 'e shipper \<times> 'e list \<times> 'e list" where
  "ship_turn parse marshal t s =
     (let s1 = readNew parse (fst t) s;
          (s2, sent) = ship_flush marshal (\<lambda>batch. snd t = Acknowledged) s1
      in (s2, (case sent of None \<Rightarrow> [] | Some batch \<Rightarrow> batch),
          if marshal (sh_buf s1) \<and> snd t \<noteq> Undelivered then sh_buf s1 else []))"

fun Run_shipper ::
  "(string \<Rightarrow> 'e option) \<Rightarrow> ('e list \<Rightarrow> bool) \<Rightarrow> (string option \<times> delivery) list \<Rightarrow> 'e shipper \<Rightarrow> 'e shipper \<times> 'e list \<times> 'e list" where
  "Run_shipper parse marshal [] s = (s, [], [])"
| "Run_shipper parse marshal (t # ts) s =
     (let (s1, acked, received) = ship_turn parse marshal t s;
          (s2, acked', received') = Run_shipper parse marshal ts s1
      in (s2, acked @ acked', received @ received'))"

definition new_shipper :: "'e shipper" where
  "new_shipper = \<lparr>sh_buf = [], sh_offset = 0, sh_started = False\<rparr>"

subsection \<open>Tailing: complete lines, each once\<close>

definition nl :: char where
  "nl = CHR 0x0A"

text \<open>The complete lines at the front of the unread data, and their entries.\<close>

definition upto_nl :: "string \<Rightarrow> string" where
  "upto_nl d = (case last_index_byte nl d of None \<Rightarrow> [] | Some i \<Rightarrow> take (i + 1) d)"

definition lines_of :: "string \<Rightarrow> string list" where
  "lines_of t = (if t = [] then [] else split_on nl (butlast t))"

definition entry_of :: "(string \<Rightarrow> 'e option) \<Rightarrow> string \<Rightarrow> 'e option" where
  "entry_of parse line0 = (let line = trim_space line0 in
     if line = [] \<or> hd line \<noteq> CHR ''{'' then None else parse line)"

definition entries :: "(string \<Rightarrow> 'e option) \<Rightarrow> string \<Rightarrow> 'e list" where
  "entries parse t = List.map_filter (entry_of parse) (lines_of t)"

lemma last_index_None: "last_index_byte c d = None \<longleftrightarrow> c \<notin> set d"
  by (induction d) (auto split: option.splits)

lemma last_index_Some: "last_index_byte c d = Some i \<longleftrightarrow> (\<exists>u v. d = u @ c # v \<and> length u = i \<and> c \<notin> set v)"
proof (induction d arbitrary: i)
  case (Cons x d)
  show ?case
  proof (cases "c \<in> set d")
    case True
    then obtain j where j: "last_index_byte c d = Some j" using last_index_None [of c d] by fastforce
    have "(\<exists>u v. x # d = u @ c # v \<and> length u = i \<and> c \<notin> set v) \<longleftrightarrow> i = Suc j"
    proof
      assume "\<exists>u v. x # d = u @ c # v \<and> length u = i \<and> c \<notin> set v"
      then obtain u v where uv: "x # d = u @ c # v" "length u = i" "c \<notin> set v" by blast
      then obtain u' where "u = x # u'" using True by (cases u) auto
      then have "d = u' @ c # v" "i = Suc (length u')" using uv by auto
      then show "i = Suc j" using Cons.IH [of "length u'"] uv(3) j by auto
    next
      assume "i = Suc j"
      moreover obtain u v where "d = u @ c # v" "length u = j" "c \<notin> set v" using Cons.IH j by blast
      ultimately show "\<exists>u v. x # d = u @ c # v \<and> length u = i \<and> c \<notin> set v"
        by (intro exI [of _ "x # u"] exI [of _ v]) simp
    qed
    then show ?thesis using j by auto
  next
    case False
    then have n: "last_index_byte c d = None" by (simp add: last_index_None)
    have "(\<exists>u v. x # d = u @ c # v \<and> length u = i \<and> c \<notin> set v) \<longleftrightarrow> x = c \<and> i = 0"
      using False by (auto simp: Cons_eq_append_conv)
    then show ?thesis using n by auto
  qed
qed simp

text \<open>A text is terminated when it is empty or ends with a newline.\<close>

definition terminated :: "string \<Rightarrow> bool" where
  "terminated t \<longleftrightarrow> t = [] \<or> last t = nl"

lemma upto_nl_split:
  obtains v where "d = upto_nl d @ v" "nl \<notin> set v" "terminated (upto_nl d)"
proof (cases "last_index_byte nl d")
  case None
  then have "upto_nl d = []" "nl \<notin> set d" by (simp_all add: upto_nl_def last_index_None [symmetric])
  then show ?thesis using that [of d] by (simp add: terminated_def)
next
  case (Some i)
  then obtain u v where "d = u @ nl # v" "length u = i" "nl \<notin> set v" by (auto simp: last_index_Some)
  then show ?thesis using that [of v] Some by (simp add: upto_nl_def terminated_def)
qed

lemma upto_nl_unique:
  assumes "d = t @ v" "nl \<notin> set v" "terminated t"
  shows "upto_nl d = t"
proof (cases "t = []")
  case True
  then show ?thesis using assms last_index_None [of nl d] by (simp add: upto_nl_def)
next
  case False
  then have "t = butlast t @ [nl]" using assms(3) append_butlast_last_id [of t] by (simp add: terminated_def)
  then have "d = butlast t @ nl # v" using assms(1) by (metis append_Cons append_Nil append_assoc)
  then have "last_index_byte nl d = Some (length (butlast t))" using assms(2) last_index_Some [of nl d] by blast
  then show ?thesis using assms(1) False by (simp add: upto_nl_def)
qed

lemma upto_nl_append:
  assumes "terminated t"
  shows "upto_nl (t @ d) = t @ upto_nl d"
proof -
  obtain v where v: "d = upto_nl d @ v" "nl \<notin> set v" "terminated (upto_nl d)" by (rule upto_nl_split)
  show ?thesis
  proof (rule upto_nl_unique)
    show "t @ d = (t @ upto_nl d) @ v" using v(1) by simp
    show "terminated (t @ upto_nl d)" using assms v(3) by (cases "upto_nl d = []") (auto simp: terminated_def)
  qed (rule v(2))
qed

lemma split_on_nonempty [simp]: "split_on c t \<noteq> []"
  by (induction c t rule: split_on.induct) (auto split: list.split)

lemma split_on_append: "split_on c (t @ c # u) = split_on c t @ split_on c u"
  by (induction c t rule: split_on.induct) (auto split: list.split)

lemma lines_of_append:
  assumes "terminated t" "terminated u"
  shows "lines_of (t @ u) = lines_of t @ lines_of u"
proof (cases "t = [] \<or> u = []")
  case False
  then have t: "t = butlast t @ [nl]" using assms(1) append_butlast_last_id [of t] by (simp add: terminated_def)
  have "butlast (t @ u) = butlast t @ nl # butlast u" using False t by (metis append.assoc append_Cons append_Nil butlast_append)
  then show ?thesis using False by (simp add: lines_of_def split_on_append)
qed (auto simp: lines_of_def)

lemma entries_append: "terminated t \<Longrightarrow> terminated u \<Longrightarrow> entries parse (t @ u) = entries parse t @ entries parse u"
  by (simp add: entries_def lines_of_append map_filter_def)

subsection \<open>The shipper as a buffer of entries\<close>

definition push_entries :: "'e list \<Rightarrow> 'e list \<Rightarrow> 'e list" where
  "push_entries b es = foldl (\<lambda>b e. buf_append maxBuffered b [e]) b es"

interpretation logs: drop_oldest "\<lambda>b. length b \<le> maxBuffered" push_entries "\<lambda>b. b" maxBuffered
  by unfold_locales (auto simp: push_entries_def buf_append_single)

lemma ship_lines: "foldl (ship_line parse) b ls = push_entries b (List.map_filter (entry_of parse) ls)"
proof (induction ls arbitrary: b)
  case (Cons l ls)
  have "ship_line parse b l = (case entry_of parse l of None \<Rightarrow> b | Some e \<Rightarrow> buf_append maxBuffered b [e])"
    by (simp add: ship_line_def entry_of_def Let_def)
  then show ?case using Cons by (simp add: map_filter_simps push_entries_def split: option.split)
qed (simp add: push_entries_def map_filter_simps)

lemma readNew_started:
  assumes "sh_started s" "sh_offset s \<le> length content"
  shows "readNew parse (Some content) s =
     s\<lparr>sh_buf := push_entries (sh_buf s) (entries parse (upto_nl (drop (sh_offset s) content))),
       sh_offset := sh_offset s + length (upto_nl (drop (sh_offset s) content))\<rparr>"
proof (cases "last_index_byte nl (drop (sh_offset s) content)")
  case None
  then have u: "upto_nl (drop (sh_offset s) content) = []" by (simp add: upto_nl_def)
  show ?thesis using assms None
    by (simp add: readNew_def u entries_def lines_of_def map_filter_simps push_entries_def nl_def)
next
  case (Some i)
  let ?d = "drop (sh_offset s) content"
  obtain x y where xy: "?d = x @ nl # y" "length x = i" using Some by (auto simp: last_index_Some)
  then have i: "i < length ?d" by simp
  have u: "upto_nl ?d = take (i + 1) ?d" using Some by (simp add: upto_nl_def)
  have b: "butlast (take (i + 1) ?d) = take i ?d" using i by (simp add: take_Suc_conv_app_nth)
  have ne: "take (i + 1) ?d \<noteq> []" using i by auto
  have e: "entries parse (upto_nl ?d) = List.map_filter (entry_of parse) (split_on nl (take i ?d))"
    unfolding entries_def lines_of_def u if_not_P [OF ne] b ..
  have l: "length (upto_nl ?d) = i + 1" using i u by simp
  have "content \<noteq> [] \<and> length content \<noteq> sh_offset s" using i by auto
  then show ?thesis unfolding e l using assms Some
    by (simp add: readNew_def ship_lines nl_def)
qed

text \<open>The entries of a file behind an offset, and how they grow with the file.\<close>

definition unread :: "(string \<Rightarrow> 'e option) \<Rightarrow> nat \<Rightarrow> string \<Rightarrow> 'e list" where
  "unread parse off content = entries parse (upto_nl (drop off content))"

lemma tail_split:
  assumes "prefix c c'" "off \<le> length c"
  shows "off + length (upto_nl (drop off c)) \<le> length c"
    and "upto_nl (drop off c') = upto_nl (drop off c) @ upto_nl (drop (off + length (upto_nl (drop off c))) c')"
    and "unread parse off c' = unread parse off c @ unread parse (off + length (upto_nl (drop off c))) c'"
proof -
  let ?t = "upto_nl (drop off c)"
  obtain w where w: "c' = c @ w" using assms(1) by (auto simp: prefix_def)
  obtain v where v: "drop off c = ?t @ v" "terminated ?t" by (rule upto_nl_split)
  have d: "drop off c' = ?t @ (v @ w)" using v(1) w assms(2) by simp
  have r: "drop (off + length ?t) c' = v @ w" using d by (metis add.commute append_eq_conv_conj drop_drop)
  have "length (drop off c) = length ?t + length v" using v(1) by (metis length_append)
  then show "off + length ?t \<le> length c" using assms(2) by simp
  show g: "upto_nl (drop off c') = ?t @ upto_nl (drop (off + length ?t) c')"
    unfolding r unfolding d by (rule upto_nl_append [OF v(2)])
  have "terminated (upto_nl (v @ w))" by (rule upto_nl_split [of "v @ w"])
  then show "unread parse off c' = unread parse off c @ unread parse (off + length ?t) c'"
    unfolding unread_def g by (simp add: entries_append v(2) r)
qed

lemma flushed:
  assumes "ship_turn parse marshal t s = (s1, acked, received)" "\<And>b. marshal b" "sh_buf (readNew parse (fst t) s) = b"
  shows "sh_offset s1 = sh_offset (readNew parse (fst t) s)" "sh_started s1 = sh_started (readNew parse (fst t) s)"
    "acked @ sh_buf s1 = b" "received = (if snd t = Undelivered then [] else b)" "snd t \<noteq> AnswerLost \<Longrightarrow> received = acked"
    "acked = [] \<or> sh_buf s1 = []"
  using assms by (cases "snd t"; auto simp: ship_turn_def ship_flush_def Let_def split: if_splits)+

text \<open>
  The run of a shipper over a growing file: every entry at most once in what was acknowledged or still
  waits, nothing received that is not an entry, and everything once as long as the buffer never overflows.
\<close>

abbreviation reads :: "(string option \<times> delivery) list \<Rightarrow> string list" where
  "reads ts \<equiv> List.map_filter fst ts"

definition behind :: "(string \<Rightarrow> 'e option) \<Rightarrow> nat \<Rightarrow> (string option \<times> delivery) list \<Rightarrow> 'e list" where
  "behind parse off ts = (if reads ts = [] then [] else unread parse off (last (reads ts)))"

definition fresh_entries :: "(string \<Rightarrow> 'e option) \<Rightarrow> nat \<Rightarrow> string option \<Rightarrow> 'e list" where
  "fresh_entries parse off file = (case file of None \<Rightarrow> [] | Some c \<Rightarrow> unread parse off c)"

definition never_full :: "(string \<Rightarrow> 'e option) \<Rightarrow> ('e list \<Rightarrow> bool) \<Rightarrow> nat \<Rightarrow> (string option \<times> delivery) list \<Rightarrow> 'e shipper \<Rightarrow> bool" where
  "never_full parse marshal off ts s \<longleftrightarrow>
     (\<forall>us c d vs. ts = us @ (Some c, d) # vs \<longrightarrow>
        length (sh_buf s) + length (unread parse off c) \<le> length (fst (snd (Run_shipper parse marshal us s))) + maxBuffered)"

lemma in_reads: "ts = us @ (Some c, d) # vs \<Longrightarrow> c \<in> set (reads ts)"
  by (simp add: map_filter_def)

lemma turn_effect:
  assumes "sh_started s" "sh_offset s \<le> length c0" "sorted_wrt prefix (c0 # reads (t # ts))" "\<And>b. marshal b"
    and "length (sh_buf s) \<le> maxBuffered" "ship_turn parse marshal t s = (s1, a, r)"
  shows "\<exists>c1. sh_offset s1 \<le> length c1 \<and> sorted_wrt prefix (c1 # reads ts)" "sh_started s1"
    "a @ sh_buf s1 = lastn maxBuffered (sh_buf s @ fresh_entries parse (sh_offset s) (fst t))"
    "behind parse (sh_offset s) (t # ts) = fresh_entries parse (sh_offset s) (fst t) @ behind parse (sh_offset s1) ts"
    "\<forall>c \<in> set (reads ts). unread parse (sh_offset s) c = fresh_entries parse (sh_offset s) (fst t) @ unread parse (sh_offset s1) c"
proof -
  note fl = flushed [OF assms(6,4) refl]
  let ?G1 = "\<exists>c1. sh_offset s1 \<le> length c1 \<and> sorted_wrt prefix (c1 # reads ts)"
  let ?G3 = "a @ sh_buf s1 = lastn maxBuffered (sh_buf s @ fresh_entries parse (sh_offset s) (fst t))"
  let ?G5 = "\<forall>c \<in> set (reads ts). unread parse (sh_offset s) c = fresh_entries parse (sh_offset s) (fst t) @ unread parse (sh_offset s1) c"
  have main: "?G1 \<and> sh_started s1 \<and> ?G3 \<and> ?G5"
  proof (cases "fst t")
    case None
    then have rd: "readNew parse (fst t) s = s" and "reads (t # ts) = reads ts" by (simp_all add: readNew_def map_filter_simps)
    then show ?thesis using fl(1-3) assms(1,2,3,5) None by (auto simp: fresh_entries_def)
  next
    case (Some c)
    then have rs: "reads (t # ts) = c # reads ts" by (simp add: map_filter_simps)
    have pc: "prefix c0 c" and chain: "sorted_wrt prefix (c # reads ts)" using assms(3) unfolding rs by auto
    have le: "sh_offset s \<le> length c" using assms(2) prefix_length_le [OF pc] by simp
    note rd = readNew_started [OF assms(1) le, of parse]
    have off: "sh_offset s1 = sh_offset s + length (upto_nl (drop (sh_offset s) c))" using fl(1) rd Some by simp
    have "sh_offset s1 \<le> length c" unfolding off by (rule tail_split(1) [OF prefix_order.refl le])
    moreover have "unread parse (sh_offset s) c' = unread parse (sh_offset s) c @ unread parse (sh_offset s1) c'"
      if "c' \<in> set (reads ts)" for c'
      unfolding off by (rule tail_split(3) [OF _ le]) (use chain that in auto)
    moreover have ?G3
      using fl(3) rd Some logs.push_law [OF assms(5)] by (simp add: fresh_entries_def unread_def)
    ultimately show ?thesis using chain fl(2) rd Some assms(1) by (auto simp: fresh_entries_def)
  qed
  then show "?G1" "sh_started s1" "?G3" "?G5" by blast+
  show "behind parse (sh_offset s) (t # ts) = fresh_entries parse (sh_offset s) (fst t) @ behind parse (sh_offset s1) ts"
  proof (cases "reads ts = []")
    case True
    then show ?thesis by (cases "fst t") (simp_all add: behind_def fresh_entries_def map_filter_simps)
  next
    case False
    then have "last (reads (t # ts)) = last (reads ts)" "reads (t # ts) \<noteq> []" "last (reads ts) \<in> set (reads ts)"
      by (cases "fst t"; simp add: map_filter_simps)+
    then show ?thesis using main False by (simp add: behind_def)
  qed
qed

lemma never_full_step:
  assumes "never_full parse marshal (sh_offset s) (t # ts) s" "ship_turn parse marshal t s = (s1, a, r)"
    and "a @ sh_buf s1 = lastn maxBuffered (sh_buf s @ fresh_entries parse (sh_offset s) (fst t))" "length (sh_buf s) \<le> maxBuffered"
    and "\<forall>c \<in> set (reads ts). unread parse (sh_offset s) c = fresh_entries parse (sh_offset s) (fst t) @ unread parse (sh_offset s1) c"
  shows "a @ sh_buf s1 = sh_buf s @ fresh_entries parse (sh_offset s) (fst t)" "never_full parse marshal (sh_offset s1) ts s1"
proof -
  have "length (sh_buf s @ fresh_entries parse (sh_offset s) (fst t)) \<le> maxBuffered"
  proof (cases "fst t")
    case (Some c)
    then have "t # ts = [] @ (Some c, snd t) # ts" by (cases t) simp
    then show ?thesis using assms(1) unfolding never_full_def by (fastforce simp: fresh_entries_def Some)
  qed (use assms(4) in \<open>simp add: fresh_entries_def\<close>)
  then show all: "a @ sh_buf s1 = sh_buf s @ fresh_entries parse (sh_offset s) (fst t)" using assms(3) by simp
  show "never_full parse marshal (sh_offset s1) ts s1"
    unfolding never_full_def
  proof (intro allI impI)
    fix us c d vs assume ts: "ts = us @ (Some c, d) # vs"
    then have "t # ts = (t # us) @ (Some c, d) # vs" by simp
    then have "length (sh_buf s) + length (unread parse (sh_offset s) c) \<le> length (fst (snd (Run_shipper parse marshal (t # us) s))) + maxBuffered"
      using assms(1) unfolding never_full_def by blast
    moreover have "length a + length (sh_buf s1) = length (sh_buf s) + length (fresh_entries parse (sh_offset s) (fst t))"
      using all by (metis length_append)
    ultimately show "length (sh_buf s1) + length (unread parse (sh_offset s1) c) \<le> length (fst (snd (Run_shipper parse marshal us s1))) + maxBuffered"
      using assms(2,5) in_reads [OF ts] by (auto split: prod.splits)
  qed
qed

lemma Run_shipped:
  assumes "sh_started s" "sh_offset s \<le> length c0" "sorted_wrt prefix (c0 # reads ts)" "\<And>b. marshal b" "length (sh_buf s) \<le> maxBuffered"
    and "Run_shipper parse marshal ts s = (s', acked, received)"
  shows "subseq (acked @ sh_buf s') (sh_buf s @ behind parse (sh_offset s) ts) \<and>
         set received \<subseteq> set (sh_buf s @ behind parse (sh_offset s) ts) \<and>
         (never_full parse marshal (sh_offset s) ts s \<longrightarrow> acked @ sh_buf s' = sh_buf s @ behind parse (sh_offset s) ts) \<and>
         ((\<forall>t \<in> set ts. snd t \<noteq> AnswerLost) \<longrightarrow> received = acked)"
  using assms
proof (induction ts arbitrary: s c0 acked received)
  case Nil
  then show ?case by (simp add: behind_def map_filter_simps)
next
  case (Cons t ts)
  obtain s1 a r where turn: "ship_turn parse marshal t s = (s1, a, r)" by (metis prod_cases3)
  obtain a' r' where rest: "Run_shipper parse marshal ts s1 = (s', a', r')" and ar: "acked = a @ a'" "received = r @ r'"
    using Cons.prems(6) turn by (auto split: prod.splits)
  note fl = flushed [OF turn Cons.prems(4) refl]
  note eff = turn_effect [OF Cons.prems(1-5) turn]
  let ?new = "fresh_entries parse (sh_offset s) (fst t)" and ?tail = "behind parse (sh_offset s1) ts"
  obtain c1 where c1: "sh_offset s1 \<le> length c1" "sorted_wrt prefix (c1 # reads ts)" using eff(1) by blast
  have "length (a @ sh_buf s1) \<le> maxBuffered" unfolding eff(3) by simp
  then have le: "length (sh_buf s1) \<le> maxBuffered" by simp
  note IH = Cons.IH [OF eff(2) c1 Cons.prems(4) le rest]
  have kept: "subseq (a @ sh_buf s1) (sh_buf s @ ?new)" unfolding eff(3) by (intro suffix_imp_subseq lastn_suffix)
  have "subseq ((a @ a') @ sh_buf s') (a @ sh_buf s1 @ ?tail)" using IH by (simp add: list_emb_append_mono)
  moreover have "subseq (a @ sh_buf s1 @ ?tail) (sh_buf s @ ?new @ ?tail)"
    using list_emb_append_mono [OF kept subseq_order.refl [of ?tail]] by simp
  ultimately have "subseq (acked @ sh_buf s') (sh_buf s @ behind parse (sh_offset s) (t # ts))"
    unfolding ar(1) eff(4) by (rule subseq_order.trans)
  moreover have "set received \<subseteq> set (sh_buf s @ behind parse (sh_offset s) (t # ts))"
  proof -
    have "set r \<subseteq> set (a @ sh_buf s1)" using fl(3,4) by (cases "snd t = Undelivered") simp_all
    moreover have "set (a @ sh_buf s1) \<subseteq> set (sh_buf s @ ?new)" using kept by (auto dest: list_emb_set)
    ultimately show ?thesis using IH unfolding ar(2) eff(4) by auto
  qed
  moreover have "acked @ sh_buf s' = sh_buf s @ behind parse (sh_offset s) (t # ts)"
    if "never_full parse marshal (sh_offset s) (t # ts) s"
  proof -
    note st = never_full_step [OF that turn eff(3) Cons.prems(5) eff(5)]
    have "a' @ sh_buf s' = sh_buf s1 @ ?tail" using IH st(2) by blast
    then show ?thesis unfolding ar(1) eff(4) using st(1) by (metis append_assoc)
  qed
  moreover have "(\<forall>t \<in> set (t # ts). snd t \<noteq> AnswerLost) \<longrightarrow> received = acked" using IH fl(5) ar by auto
  ultimately show ?case by blast
qed

text \<open>
  C28: The access log reaches the control plane line by line. Let the log grow in any steps between the
  turns of \<open>Run\<close>, each of which reads and flushes, with any of the reads and deliveries failing. The
  entries acknowledged so far and those still waiting are then together, in order, the entries of the
  complete lines written after the first read, each exactly once and none of an incomplete line --
  provided that no more than the 10000 entries the buffer holds ever wait; when more do, the oldest are
  dropped and what is left is still in order and without repetition. What the control plane received are
  such entries too; it is what was acknowledged, unless an answer was lost: then the batch is sent again,
  and \<open>Ingest.retry_doubles\<close> shows it stored twice. The encoding of a batch to JSON is assumed to
  succeed, and the log not to be truncated.
\<close>

theorem log_lines_shipped:
  assumes "sorted_wrt prefix (c0 # reads ts)" "reads ts \<noteq> []" "\<And>batch. marshal batch"
    and "Run_shipper parse marshal ((Some c0, d0) # ts) new_shipper = (s, acked, received)"
    and "lines = entries parse (upto_nl (drop (length c0) (last (reads ts))))"
  shows "subseq (acked @ sh_buf s) lines \<and> set received \<subseteq> set lines \<and>
    ((\<forall>us c d vs. ts = us @ (Some c, d) # vs \<longrightarrow>
        length (entries parse (upto_nl (drop (length c0) c))) \<le>
        length (fst (snd (Run_shipper parse marshal ((Some c0, d0) # us) new_shipper))) + 10000) \<longrightarrow>
      acked @ sh_buf s = lines) \<and>
    ((\<forall>t \<in> set ts. snd t \<noteq> AnswerLost) \<longrightarrow> received = acked)"
proof -
  let ?s0 = "\<lparr>sh_buf = [], sh_offset = length c0, sh_started = True\<rparr>"
  have "ship_turn parse marshal (Some c0, d0) new_shipper = (?s0, [], [])"
    by (simp add: ship_turn_def ship_flush_def readNew_def new_shipper_def Let_def)
  then have first: "Run_shipper parse marshal ((Some c0, d0) # us) new_shipper = Run_shipper parse marshal us ?s0" for us
    by (simp split: prod.split)
  have l: "lines = behind parse (length c0) ts" using assms(2,5) by (simp add: behind_def unread_def)
  show ?thesis
    using Run_shipped [where s = ?s0 and parse = parse and s' = s and acked = acked and received = received, OF _ _ assms(1,3)] assms(4)
    unfolding l first never_full_def unread_def by (simp add: maxBuffered_def)
qed

definition demo_parse :: "string \<Rightarrow> string option" where
  "demo_parse l = Some l"

definition demo_log :: string where
  "demo_log = ''{old'' @ [nl] @ ''{half''"

text \<open>Three reads; the answer to the first batch is lost, and it is sent again with the second.\<close>

definition demo_turns :: "(string option \<times> delivery) list" where
  "demo_turns =
     [(Some (demo_log @ ''way'' @ [nl] @ ''{a''), Acknowledged), (None, Acknowledged),
      (Some (demo_log @ ''way'' @ [nl] @ ''{ab}'' @ [nl] @ ''{c''), AnswerLost),
      (Some (demo_log @ ''way'' @ [nl] @ ''{ab}'' @ [nl] @ ''{cd}'' @ [nl]), Acknowledged)]"

lemma log_lines_shipped_witness:
  "case Run_shipper demo_parse (\<lambda>_. True) ((Some demo_log, Acknowledged) # demo_turns) new_shipper of
     (s, acked, received) \<Rightarrow> acked @ sh_buf s = [''{ab}'', ''{cd}''] \<and> received = [''{ab}'', ''{ab}'', ''{cd}'']"
proof -
  obtain s acked received where
    run: "Run_shipper demo_parse (\<lambda>_. True) ((Some demo_log, Acknowledged) # demo_turns) new_shipper = (s, acked, received)"
    by (metis prod_cases3)
  have rs: "reads demo_turns = [demo_log @ ''way'' @ [nl] @ ''{a'', demo_log @ ''way'' @ [nl] @ ''{ab}'' @ [nl] @ ''{c'',
      demo_log @ ''way'' @ [nl] @ ''{ab}'' @ [nl] @ ''{cd}'' @ [nl]]"
    by (simp add: demo_turns_def map_filter_simps)
  have chain: "sorted_wrt prefix (demo_log # reads demo_turns)" unfolding rs by (simp add: prefix_def)
  have lines: "entries demo_parse (upto_nl (drop (length demo_log) (last (reads demo_turns)))) = [''{ab}'', ''{cd}'']"
    by code_simp
  have "\<forall>c \<in> set (reads demo_turns). length (entries demo_parse (upto_nl (drop (length demo_log) c))) \<le> 10000" by code_simp
  then have room: "length (entries demo_parse (upto_nl (drop (length demo_log) c))) \<le> n + 10000"
    if "demo_turns = us @ (Some c, d) # vs" for us c d vs n using in_reads [OF that] by fastforce
  have "snd (snd (Run_shipper demo_parse (\<lambda>_. True) ((Some demo_log, Acknowledged) # demo_turns) new_shipper)) =
      [''{ab}'', ''{ab}'', ''{cd}'']" by code_simp
  then show ?thesis
    using log_lines_shipped [OF chain _ TrueI run refl] room run lines by (simp add: rs)
qed

text \<open>
  Nothing is lost while the control plane is down. When shipping the firewall events fails,
  the buffer afterwards holds the batch and then the events added meanwhile, in order, less
  the oldest ones beyond the cap; when it succeeds exactly the batch was delivered and exactly
  the events added meanwhile remain.
\<close>

theorem flush_keeps_order:
  assumes "buffer_ok b" "marshal (eb_buf b)" "length added \<le> maxBufferedEvents"
  shows "buffer_ok (fst (flush_events marshal ship added b)) \<and>
    (if eb_buf b \<noteq> [] \<and> ship (eb_buf b)
     then snd (flush_events marshal ship added b) = Some (eb_buf b) \<and>
          eb_buf (fst (flush_events marshal ship added b)) = added
     else snd (flush_events marshal ship added b) = None \<and>
          eb_buf (fst (flush_events marshal ship added b)) = lastn maxBufferedEvents (eb_buf b @ added))"
proof -
  have m: "eb_max b = maxBufferedEvents" using assms(1) by (simp add: buffer_ok_def)
  have ok0: "buffer_ok (b\<lparr>eb_buf := []\<rparr>)" using assms(1) by (simp add: buffer_ok_def)
  let ?b2 = "foldl AddEvent (b\<lparr>eb_buf := []\<rparr>) added"
  have b2: "eb_buf ?b2 = added" "eb_max ?b2 = maxBufferedEvents"
    using firewall.push_law [OF ok0, of added] assms(3) m by (simp_all add: AddEvents)
  have ok2: "buffer_ok ?b2" by (rule firewall.push_ok [OF ok0])
  show ?thesis
  proof (cases "eb_buf b = []")
    case True
    then have "?b2 = foldl AddEvent b added" by (cases b) simp
    then show ?thesis using True ok2 b2(1) assms(3) by (simp add: flush_events_def flush_take_def)
  next
    case False
    then show ?thesis using b2 ok2 assms(2)
      by (simp add: flush_events_def flush_take_def flush_requeue_def buffer_ok_def buf_append_lastn)
  qed
qed

lemma flush_keeps_order_witness:
  "eb_buf (fst (flush_events (\<lambda>_. True) (\<lambda>_. False) [''c''] (NewEventBuffer\<lparr>eb_buf := [''a'', ''b'']\<rparr>))) = [''a'', ''b'', ''c'']"
  using flush_keeps_order [of "NewEventBuffer\<lparr>eb_buf := [''a'', ''b'']\<rparr>" "\<lambda>_. True" "[''c'']" "\<lambda>_. False"]
  by (simp add: buffer_ok_def NewEventBuffer_def maxBufferedEvents_def)

definition zone_sum :: "(zone_agg \<Rightarrow> int) \<Rightarrow> (string \<times> zone_agg) list \<Rightarrow> int" where
  "zone_sum f zs = sum_list (map (\<lambda>p. f (snd p)) zs)"

definition agg_ok :: "zone_agg \<Rightarrow> bool" where
  "agg_ok a \<longleftrightarrow> 0 \<le> ag_hit a \<and> 0 \<le> ag_miss a \<and> ag_hit a + ag_miss a \<le> ag_req a"

definition sums_ok :: "(string \<times> zone_agg) list \<times> zone_agg \<Rightarrow> bool" where
  "sums_ok zt \<longleftrightarrow> distinct (map fst (fst zt)) \<and> agg_ok (snd zt) \<and> (\<forall>p \<in> set (fst zt). agg_ok (snd p)) \<and>
     (\<forall>f \<in> {ag_req, ag_hit, ag_miss, ag_bytes}. f (snd zt) = zone_sum f (fst zt))"

definition agg_at :: "(string \<times> zone_agg) list \<Rightarrow> string \<Rightarrow> zone_agg" where
  "agg_at zs h = (case map_of zs h of None \<Rightarrow> zero_agg | Some a \<Rightarrow> a)"

lemma zone_sum_update:
  assumes "distinct (map fst zs)" "f zero_agg = 0"
  shows "zone_sum f (AList.update h a zs) = zone_sum f zs - f (agg_at zs h) + f a"
  using assms by (induction zs) (auto simp: zone_sum_def agg_at_def split: option.splits)

lemma agg_add_ok: "agg_ok a \<Longrightarrow> agg_ok (agg_add a c n)"
  by (simp add: agg_ok_def agg_add_def Let_def)

lemma agg_add_diff:
  "f \<in> {ag_req, ag_hit, ag_miss, ag_bytes} \<Longrightarrow> f (agg_add a c n) - f a = f (agg_add b c n) - f b"
  by (auto simp: agg_add_def Let_def)

lemma count_line_ok:
  assumes "sums_ok zt"
  shows "sums_ok (count_line zt line)"
proof (cases "parse_stat_line line")
  case (Some p)
  obtain host cache bytes where p: "p = (host, cache, bytes)" by (cases p)
  let ?zs = "fst zt" and ?a = "agg_at (fst zt) host"
  have eq: "count_line zt line = (AList.update host (agg_add ?a cache bytes) ?zs, agg_add (snd zt) cache bytes)"
    by (simp add: count_line_def Some p agg_at_def)
  have a: "agg_ok ?a"
    using assms map_of_SomeD [of ?zs host] by (auto simp: sums_ok_def agg_at_def agg_ok_def zero_agg_def split: option.split)
  have z: "f \<in> {ag_req, ag_hit, ag_miss, ag_bytes} \<Longrightarrow> f zero_agg = 0" for f by (auto simp: zero_agg_def)
  have "\<forall>f \<in> {ag_req, ag_hit, ag_miss, ag_bytes}. f (agg_add (snd zt) cache bytes) =
      zone_sum f (AList.update host (agg_add ?a cache bytes) ?zs)"
  proof
    fix f :: "zone_agg \<Rightarrow> int" assume f: "f \<in> {ag_req, ag_hit, ag_miss, ag_bytes}"
    have "zone_sum f (AList.update host (agg_add ?a cache bytes) ?zs) = zone_sum f ?zs - f ?a + f (agg_add ?a cache bytes)"
      using assms by (intro zone_sum_update z [OF f]) (simp add: sums_ok_def)
    moreover have "f (snd zt) = zone_sum f ?zs" using assms f unfolding sums_ok_def by blast
    ultimately show "f (agg_add (snd zt) cache bytes) = zone_sum f (AList.update host (agg_add ?a cache bytes) ?zs)"
      using agg_add_diff [OF f, of "snd zt" cache bytes ?a] by linarith
  qed
  moreover have "\<forall>p \<in> set (AList.update host (agg_add ?a cache bytes) ?zs). agg_ok (snd p)"
  proof
    fix q assume "q \<in> set (AList.update host (agg_add ?a cache bytes) ?zs)"
    then have "q = (host, agg_add ?a cache bytes) \<or> q \<in> set ?zs" by (rule update_mem)
    then show "agg_ok (snd q)" using assms agg_add_ok [OF a] by (auto simp: sums_ok_def)
  qed
  ultimately show ?thesis using assms agg_add_ok by (simp add: sums_ok_def eq distinct_update)
qed (use assms in \<open>simp add: count_line_def\<close>)

lemma count_lines_ok: "sums_ok zt \<Longrightarrow> sums_ok (foldl count_line zt ls)"
  by (induction ls arbitrary: zt) (simp_all add: count_line_ok)

text \<open>
  The counters of a collection add up: the server-level sample's requests, hits, misses and
  bytes are the sums of the zones', every count is non-negative and hits and misses together
  never exceed the requests.
\<close>

theorem collect_sums:
  "sums_ok (snd (readAccessLog file c))"
proof -
  have z: "sums_ok ([], zero_agg)" by (auto simp: sums_ok_def agg_ok_def zero_agg_def zone_sum_def)
  have "sums_ok (foldl count_line ([], zero_agg) ls)" for ls by (rule count_lines_ok [OF z])
  then show ?thesis using z by (auto simp: readAccessLog_def Let_def split: option.split prod.split)
qed

text \<open>
  The stats tail, unlike the log shipper, takes the last line without waiting for its newline
  and moves to the end of the file: a line that is being written is counted with the bytes
  seen so far, and its rest is lost.
\<close>

definition stat_line :: string where
  "stat_line = ''1.1.1.1 h HIT [t] '' @ [CHR 0x22] @ ''GET /'' @ [CHR 0x22] @ '' 200 1234''"

lemma stats_count_partial_line:
  "let c0 = \<lparr>co_offset = 0, co_inited = True, co_last = None\<rparr>;
       part = take (length stat_line - 2) stat_line; whole = stat_line @ [nl];
       (c1, z1, t1) = readAccessLog (Some (length part, part)) c0;
       (c2, z2, t2) = readAccessLog (Some (length whole, whole)) c1
   in (ag_req t1, ag_bytes t1) = (1, 12) \<and> (ag_req t2, ag_bytes t2) = (0, 0)"
  by code_simp

end
