(* ===== verification/AgentConfig.thy ===== *)
theory AgentConfig
  imports Prelude
begin

section \<open>The configuration of an edge\<close>

text \<open>
  \<open>brisk-agent/config\<close>: the configuration record and its zones, the defaults and the checks of
  \<open>Load\<close> (\<open>config.go\<close>), the zones pulled from the control plane and the cache file that holds
  the last known good ones (\<open>source.go\<close>), and the poll loop of \<open>main.go\<close> that feeds it. The
  decoders (YAML, JSON), \<open>url.Parse\<close> and \<open>time.ParseDuration\<close> are parameters.
\<close>

subsection \<open>Data\<close>

record waf_rule =
  wr_id :: int
  wr_priority :: int
  wr_field :: string
  wr_op :: string
  wr_value :: string
  wr_header :: string
  wr_action :: string
  wr_enabled :: bool

record rate_limit =
  rl_id :: int
  rl_path :: string
  rl_match :: string
  rl_requests :: int
  rl_period :: int
  rl_burst :: int
  rl_key :: string
  rl_action :: string
  rl_count_mode :: string
  rl_enabled :: bool

record zone_waf =
  zw_enabled :: bool
  zw_mode :: string
  zw_ruleset :: string
  zw_paranoia :: int
  zw_fail_open :: bool
  zw_wp_preset :: bool
  zw_rules :: "waf_rule list"
  zw_limits :: "rate_limit list"

record hotlink =
  hl_referrers :: string
  hl_allow_empty :: bool

record cache_settings =
  cs_smart :: bool
  cs_edge_mode :: string
  cs_edge_ttl :: string
  cs_browser_mode :: string
  cs_browser_ttl :: string
  cs_query_sort :: bool
  cs_cache_errors :: bool
  cs_vary_webp :: bool
  cs_vary_device :: bool
  cs_vary_country :: bool
  cs_vary_cookie :: string
  cs_vary_query :: bool
  cs_vary_headers :: string
  cs_query_whitelist :: string
  cs_strip_cookies :: bool
  cs_large_object :: bool
  cs_stale_offline :: bool
  cs_stale_updating :: bool

text \<open>\<open>DefaultCacheSettings\<close> of the control plane (\<open>store/zones.go\<close>).\<close>

definition DefaultCacheSettings :: cache_settings where
  "DefaultCacheSettings =
     \<lparr>cs_smart = False, cs_edge_mode = ''default'', cs_edge_ttl = '''', cs_browser_mode = ''default'', cs_browser_ttl = '''',
      cs_query_sort = False, cs_cache_errors = False, cs_vary_webp = False, cs_vary_device = False, cs_vary_country = False,
      cs_vary_cookie = '''', cs_vary_query = False, cs_vary_headers = '''', cs_query_whitelist = '''',
      cs_strip_cookies = False, cs_large_object = False, cs_stale_offline = True, cs_stale_updating = True\<rparr>"

record cache_rule =
  cr_priority :: int
  cr_match_type :: string
  cr_match_value :: string
  cr_action :: string
  cr_value :: string

record header_transform =
  hx_priority :: int
  hx_phase :: string
  hx_op :: string
  hx_header :: string
  hx_value :: string
  hx_match_type :: string
  hx_match_value :: string

record agent_zone =
  zn_domain :: string
  zn_origin :: string
  zn_host_header :: string
  zn_tls :: string
  zn_shield :: string
  zn_cert :: string
  zn_key :: string
  zn_serial :: string
  zn_video :: bool
  zn_profile :: string
  zn_playlist_ttl :: string
  zn_segment_ttl :: string
  zn_cors :: string
  zn_min_uses :: int
  zn_waf :: "zone_waf option"
  zn_rules :: "cache_rule list"
  zn_transforms :: "header_transform list"
  zn_cache :: "cache_settings option"
  zn_hotlink :: "hotlink option"
  zn_ssl_verify :: bool
  zn_follow :: bool
  zn_forward_host :: bool
  zn_error_html :: string
  zn_blocked_ips :: string
  zn_block_root :: bool
  zn_block_post :: bool

record agent_config =
  ac_edge_id :: string
  ac_mode :: string
  ac_url :: string
  ac_token :: string
  ac_token_file :: string
  ac_poll :: string
  ac_stats :: string
  ac_nats :: string
  ac_cache_file :: string
  ac_cache_dir :: string
  ac_cache_max :: string
  ac_tls_mode :: string
  ac_email :: string
  ac_staging :: bool
  ac_tickets :: "bool option"
  ac_brotli :: int
  ac_resolver :: string
  ac_waf_listen :: string
  ac_pull_secret :: string
  ac_pull_header :: string
  ac_protect :: bool
  ac_max_conn :: int
  ac_req_rate :: int
  ac_req_burst :: int
  ac_zones :: "agent_zone list"

subsection \<open>Durations, token, mode\<close>

definition DefaultPollInterval :: duration where
  "DefaultPollInterval = 15 * second"

definition DefaultStatsInterval :: duration where
  "DefaultStatsInterval = 10 * second"

definition interval_or :: "(string \<Rightarrow> duration option) \<Rightarrow> duration \<Rightarrow> string \<Rightarrow> duration" where
  "interval_or parse dflt s =
     (if s \<noteq> '''' then (case parse s of Some d \<Rightarrow> if d > 0 then d else dflt | None \<Rightarrow> dflt) else dflt)"

definition StatsIntervalDuration :: "(string \<Rightarrow> duration option) \<Rightarrow> agent_config \<Rightarrow> duration" where
  "StatsIntervalDuration parse c = interval_or parse DefaultStatsInterval (ac_stats c)"

definition PollIntervalDuration :: "(string \<Rightarrow> duration option) \<Rightarrow> agent_config \<Rightarrow> duration" where
  "PollIntervalDuration parse c = interval_or parse DefaultPollInterval (ac_poll c)"

text \<open>\<open>read\<close> is \<open>os.ReadFile\<close>, \<open>None\<close> its error.\<close>

definition EffectiveToken :: "(string \<Rightarrow> string option) \<Rightarrow> agent_config \<Rightarrow> string" where
  "EffectiveToken read c =
     (case (if ac_token_file c \<noteq> '''' then read (ac_token_file c) else None) of
        Some b \<Rightarrow> trim_space b
      | None \<Rightarrow> ac_token c)"

definition ConfigCachePath :: "agent_config \<Rightarrow> string" where
  "ConfigCachePath c = (if ac_cache_file c \<noteq> '''' then ac_cache_file c else ''/etc/brisk/config.cache.json'')"

definition PullMode :: "(string \<Rightarrow> string option) \<Rightarrow> agent_config \<Rightarrow> bool" where
  "PullMode read c = (ac_url c \<noteq> '''' \<and> EffectiveToken read c \<noteq> '''')"

subsection \<open>Defaults\<close>

definition profileTTLDefaults :: "string \<Rightarrow> string \<times> string" where
  "profileTTLDefaults p =
     (if p = ''vod'' then (''1h'', ''12h'')
      else if p = ''live'' then (''2s'', ''10s'')
      else (''2s'', ''12h''))"

definition zone_applyDefaults :: "agent_zone \<Rightarrow> agent_zone" where
  "zone_applyDefaults z =
     (let z = (if zn_min_uses z \<le> 0 then z\<lparr>zn_min_uses := 1\<rparr> else z);
          z = (if zn_cors z = '''' then z\<lparr>zn_cors := ''*''\<rparr> else z);
          (playlist, segment) = profileTTLDefaults (zn_profile z);
          z = (if zn_playlist_ttl z = '''' then z\<lparr>zn_playlist_ttl := playlist\<rparr> else z)
      in if zn_segment_ttl z = '''' then z\<lparr>zn_segment_ttl := segment\<rparr> else z)"

definition protect_defaults :: "agent_config \<Rightarrow> agent_config" where
  "protect_defaults c =
     (if ac_protect c
      then (let c = (if ac_max_conn c \<le> 0 then c\<lparr>ac_max_conn := 200\<rparr> else c)
            in if ac_req_rate c > 0 \<and> ac_req_burst c \<le> 0
               then c\<lparr>ac_req_burst := ac_req_rate c * 2\<rparr> else c)
      else c)"

definition config_applyDefaults :: "agent_config \<Rightarrow> agent_config" where
  "config_applyDefaults c =
     (let c = (if ac_mode c = '''' then c\<lparr>ac_mode := ''local''\<rparr> else c);
          c = (if ac_cache_dir c = '''' then c\<lparr>ac_cache_dir := ''/var/cache/brisk''\<rparr> else c);
          c = (if ac_cache_max c = '''' then c\<lparr>ac_cache_max := ''200g''\<rparr> else c);
          c = (if ac_tls_mode c = '''' then c\<lparr>ac_tls_mode := ''selfsigned''\<rparr> else c);
          c = (if ac_brotli c = 0 then c\<lparr>ac_brotli := 5\<rparr> else c);
          c = (if trim_space (ac_resolver c) = '''' then c\<lparr>ac_resolver := ''1.1.1.1 8.8.8.8''\<rparr> else c);
          c = (if trim_space (ac_waf_listen c) = '''' then c\<lparr>ac_waf_listen := ''127.0.0.1:9555''\<rparr> else c);
          c = protect_defaults c
      in c\<lparr>ac_zones := map zone_applyDefaults (ac_zones c)\<rparr>)"

definition ZoneTLSMode :: "agent_config \<Rightarrow> agent_zone \<Rightarrow> string" where
  "ZoneTLSMode c z =
     (if zn_tls z \<noteq> '''' then zn_tls z else if ac_tls_mode c \<noteq> '''' then ac_tls_mode c else ''selfsigned'')"

definition SessionTicketsEnabled :: "agent_config \<Rightarrow> bool" where
  "SessionTicketsEnabled c = (case ac_tickets c of None \<Rightarrow> True | Some b \<Rightarrow> b)"

definition validTLSMode :: "string \<Rightarrow> bool" where
  "validTLSMode m = (m \<in> {''selfsigned'', ''mkcert'', ''letsencrypt'', ''managed''})"

subsection \<open>Checks\<close>

text \<open>What \<open>url.Parse\<close> yields of a URL: its scheme, \<open>Host\<close> and \<open>Port()\<close>.\<close>

record url =
  u_scheme :: string
  u_host :: string
  u_port :: string

type_synonym url_parser = "string \<Rightarrow> string + url"

datatype zone_error =
    DomainRequired
  | OriginRequired
  | OriginUnparsable string
  | OriginScheme
  | OriginNoHost
  | BadProfile
  | BadZoneTLS
  | EmailRequired

definition OriginParts :: "url_parser \<Rightarrow> agent_zone \<Rightarrow> zone_error + string \<times> string" where
  "OriginParts parse z =
     (if trim_space (zn_origin z) = '''' then Inl OriginRequired
      else (case parse (zn_origin z) of
              Inl e \<Rightarrow> Inl (OriginUnparsable e)
            | Inr u \<Rightarrow>
                if u_scheme u \<noteq> ''http'' \<and> u_scheme u \<noteq> ''https'' then Inl OriginScheme
                else if u_host u = '''' then Inl OriginNoHost
                else Inr (u_scheme u,
                          if u_port u = '''' then (if u_scheme u = ''https'' then u_host u @ '':443'' else u_host u @ '':80'')
                          else u_host u)))"

definition zoneError :: "url_parser \<Rightarrow> agent_config \<Rightarrow> agent_zone \<Rightarrow> zone_error option" where
  "zoneError parse c z =
     (if trim_space (zn_domain z) = '''' then Some DomainRequired
      else (case OriginParts parse z of
              Inl e \<Rightarrow> Some e
            | Inr _ \<Rightarrow>
                if zn_profile z \<noteq> '''' \<and> zn_profile z \<noteq> ''vod'' \<and> zn_profile z \<noteq> ''live'' then Some BadProfile
                else if \<not> validTLSMode (ZoneTLSMode c z) then Some BadZoneTLS
                else if ZoneTLSMode c z = ''letsencrypt'' \<and> trim_space (ac_email c) = '''' then Some EmailRequired
                else None))"

datatype config_error =
    EdgeIDRequired
  | BadMode
  | NoZones
  | BadBrotli
  | BadMaxConn
  | BadRate
  | BadBurst
  | BadTLSMode
  | DuplicateDomain string
  | ZoneInvalid string zone_error

text \<open>The zone loops of \<open>Validate\<close> and \<open>DropInvalidZones\<close>; \<open>seen\<close> is the set of trimmed domains.\<close>

fun check_zones :: "url_parser \<Rightarrow> agent_config \<Rightarrow> string list \<Rightarrow> agent_zone list \<Rightarrow> config_error option" where
  "check_zones parse c seen [] = None"
| "check_zones parse c seen (z # zs) =
     (let dom = trim_space (zn_domain z) in
      if dom \<noteq> '''' \<and> dom \<in> set seen then Some (DuplicateDomain (zn_domain z))
      else (case zoneError parse c z of
              Some e \<Rightarrow> Some (ZoneInvalid (zn_domain z) e)
            | None \<Rightarrow> check_zones parse c (dom # seen) zs))"

definition config_Validate :: "url_parser \<Rightarrow> agent_config \<Rightarrow> config_error option" where
  "config_Validate parse c =
     (if trim_space (ac_edge_id c) = '''' then Some EdgeIDRequired
      else if ac_mode c \<noteq> ''local'' \<and> ac_mode c \<noteq> ''production'' then Some BadMode
      else if ac_zones c = [] then Some NoZones
      else if ac_brotli c < 1 \<or> ac_brotli c > 11 then Some BadBrotli
      else if ac_protect c \<and> ac_max_conn c < 1 then Some BadMaxConn
      else if ac_protect c \<and> ac_req_rate c < 0 then Some BadRate
      else if ac_protect c \<and> ac_req_burst c < 0 then Some BadBurst
      else if \<not> validTLSMode (ac_tls_mode c) then Some BadTLSMode
      else check_zones parse c [] (ac_zones c))"

text \<open>A dropped zone is reported by its label and its error, \<open>None\<close> for a duplicate.\<close>

fun drop_zones ::
  "url_parser \<Rightarrow> agent_config \<Rightarrow> string list \<Rightarrow> nat \<Rightarrow> agent_zone list \<Rightarrow> agent_zone list \<times> (string \<times> zone_error option) list" where
  "drop_zones parse c seen i [] = ([], [])"
| "drop_zones parse c seen i (z # zs) =
     (let dom = trim_space (zn_domain z) in
      if dom \<noteq> '''' \<and> dom \<in> set seen
      then (let (kept, dropped) = drop_zones parse c seen (i + 1) zs in (kept, (zn_domain z, None) # dropped))
      else (case zoneError parse c z of
              Some e \<Rightarrow>
                (let (kept, dropped) = drop_zones parse c seen (i + 1) zs
                 in (kept, (if trim_space (zn_domain z) = '''' then ''zone['' @ show_nat i @ '']'' else zn_domain z, Some e) # dropped))
            | None \<Rightarrow>
                (let (kept, dropped) = drop_zones parse c (dom # seen) (i + 1) zs in (z # kept, dropped))))"

definition DropInvalidZones :: "url_parser \<Rightarrow> agent_config \<Rightarrow> agent_config \<times> (string \<times> zone_error option) list" where
  "DropInvalidZones parse c =
     (if ac_zones c = [] then (c, [])
      else (let (kept, dropped) = drop_zones parse c [] 0 (ac_zones c) in (c\<lparr>ac_zones := kept\<rparr>, dropped)))"

definition config_Load :: "(string \<Rightarrow> string option) \<Rightarrow> (string \<Rightarrow> agent_config option) \<Rightarrow> url_parser \<Rightarrow> string \<Rightarrow> (config_error option) + agent_config" where
  "config_Load read decode parse path =
     (case Option.bind (read path) decode of
        None \<Rightarrow> Inl None
      | Some c \<Rightarrow>
          (let c = config_applyDefaults c
           in case config_Validate parse c of Some e \<Rightarrow> Inl (Some e) | None \<Rightarrow> Inr c))"


subsection \<open>The zones of the control plane\<close>

record wire_zone =
  wz_cdn :: string
  wz_custom :: string
  wz_origin :: string
  wz_host_header :: string
  wz_tls :: string
  wz_video :: bool
  wz_profile :: string
  wz_playlist_ttl :: string
  wz_segment_ttl :: string
  wz_cors :: string
  wz_brotli :: int
  wz_shield :: string
  wz_cert :: string
  wz_key :: string
  wz_serial :: string
  wz_waf :: "zone_waf option"
  wz_rules :: "cache_rule list"
  wz_transforms :: "header_transform list"
  wz_hotlink :: "hotlink option"
  wz_ssl_verify :: bool
  wz_follow :: bool
  wz_forward_host :: bool
  wz_error_html :: string
  wz_blocked_ips :: string
  wz_block_root :: bool
  wz_block_post :: bool

record wire_config =
  wc_version :: string
  wc_zones :: "wire_zone list"

definition toZone :: "wire_zone \<Rightarrow> agent_zone" where
  "toZone w =
     \<lparr>zn_domain = (if wz_custom w = '''' then wz_cdn w else wz_custom w),
      zn_origin = wz_origin w, zn_host_header = wz_host_header w, zn_tls = wz_tls w, zn_shield = wz_shield w,
      zn_cert = wz_cert w, zn_key = wz_key w, zn_serial = wz_serial w,
      zn_video = wz_video w, zn_profile = wz_profile w, zn_playlist_ttl = wz_playlist_ttl w,
      zn_segment_ttl = wz_segment_ttl w, zn_cors = wz_cors w, zn_min_uses = 1,
      zn_waf = wz_waf w, zn_rules = wz_rules w, zn_transforms = wz_transforms w,
      zn_cache = None, zn_hotlink = wz_hotlink w,
      zn_ssl_verify = wz_ssl_verify w, zn_follow = wz_follow w, zn_forward_host = wz_forward_host w,
      zn_error_html = wz_error_html w, zn_blocked_ips = wz_blocked_ips w,
      zn_block_root = wz_block_root w, zn_block_post = wz_block_post w\<rparr>"

text \<open>
  The cache file and the temporary file beside it. \<open>decode\<close> is \<open>json.Unmarshal\<close> into the wire
  type, \<open>None\<close> its error; a write can fail at each of its three steps, the second one after
  any part of the data.
\<close>

record cache_files =
  cf_cache :: "string option"
  cf_tmp :: "string option"

datatype write_fault = NoFault | MkdirFails | WriteFails nat | RenameFails

definition readCache :: "(string \<Rightarrow> wire_config option) \<Rightarrow> cache_files \<Rightarrow> wire_config option" where
  "readCache decode fs = Option.bind (cf_cache fs) decode"

definition CachedETag :: "(string \<Rightarrow> wire_config option) \<Rightarrow> cache_files \<Rightarrow> string" where
  "CachedETag decode fs = (case readCache decode fs of None \<Rightarrow> '''' | Some wc \<Rightarrow> wc_version wc)"

definition WriteCache :: "(string \<Rightarrow> wire_config option) \<Rightarrow> write_fault \<Rightarrow> string \<Rightarrow> cache_files \<Rightarrow> cache_files \<times> bool" where
  "WriteCache decode fault raw fs =
     (case decode raw of
        None \<Rightarrow> (fs, False)
      | Some wc \<Rightarrow>
          if wc_zones wc = [] then (fs, False)
          else (case fault of
                  MkdirFails \<Rightarrow> (fs, False)
                | WriteFails n \<Rightarrow> (fs\<lparr>cf_tmp := Some (take n raw)\<rparr>, False)
                | RenameFails \<Rightarrow> (fs\<lparr>cf_tmp := Some raw\<rparr>, False)
                | NoFault \<Rightarrow> (fs\<lparr>cf_cache := Some raw, cf_tmp := None\<rparr>, True)))"

definition overlay :: "agent_config \<Rightarrow> wire_config option \<Rightarrow> agent_config" where
  "overlay base wc =
     (case wc of
        Some w \<Rightarrow>
          (if wc_zones w \<noteq> []
           then (let c = base\<lparr>ac_zones := map toZone (wc_zones w)\<rparr>
                 in if wz_brotli (hd (wc_zones w)) > 0 then c\<lparr>ac_brotli := wz_brotli (hd (wc_zones w))\<rparr> else c)
           else base)
      | None \<Rightarrow> base)"

definition source_Fetch :: "(string \<Rightarrow> wire_config option) \<Rightarrow> url_parser \<Rightarrow> agent_config \<Rightarrow> cache_files \<Rightarrow> config_error + agent_config" where
  "source_Fetch decode parse base fs =
     (let cfg = fst (DropInvalidZones parse (config_applyDefaults (overlay base (readCache decode fs))))
      in case config_Validate parse cfg of Some e \<Rightarrow> Inl e | None \<Rightarrow> Inr cfg)"

subsection \<open>The poll loop\<close>

text \<open>
  One turn of \<open>configPollLoop\<close>: the answer of the control plane, a possible fault of the cache
  write and the result of applying the configuration are its inputs. It yields the new state,
  the pause before the next turn (before jitter) and the configuration now applied, if any.
\<close>

definition minBackoff :: duration where
  "minBackoff = 2 * second"

definition maxBackoff :: duration where
  "maxBackoff = 2 * minute"

definition nextBackoff :: "duration \<Rightarrow> duration" where
  "nextBackoff b = (let b = b * 2 in if b > maxBackoff then maxBackoff else b)"

definition jitter :: "real \<Rightarrow> duration \<Rightarrow> duration" where
  "jitter r d =
     (if d \<le> 0 then d
      else (let delta = (r * 2 - 1) * (2 / 10) * of_int d in d + (if 0 \<le> delta then \<lfloor>delta\<rfloor> else \<lceil>delta\<rceil>)))"

record pull_answer =
  pa_status :: int
  pa_body :: string
  pa_etag :: string
  pa_err :: bool

record poller =
  pl_etag :: string
  pl_backoff :: duration
  pl_files :: cache_files

definition reapply ::
  "(string \<Rightarrow> wire_config option) \<Rightarrow> url_parser \<Rightarrow> (agent_config \<Rightarrow> bool) \<Rightarrow> agent_config \<Rightarrow> cache_files \<Rightarrow> agent_config option" where
  "reapply decode parse applyCfg base fs =
     (case source_Fetch decode parse base fs of
        Inl e \<Rightarrow> None
      | Inr cfg \<Rightarrow> if applyCfg cfg then Some cfg else None)"

definition new_poller :: "(string \<Rightarrow> wire_config option) \<Rightarrow> cache_files \<Rightarrow> poller" where
  "new_poller decode fs = \<lparr>pl_etag = CachedETag decode fs, pl_backoff = minBackoff, pl_files = fs\<rparr>"

definition poll_step ::
  "(string \<Rightarrow> wire_config option) \<Rightarrow> url_parser \<Rightarrow> (string \<Rightarrow> duration option) \<Rightarrow> agent_config \<Rightarrow>
   pull_answer \<Rightarrow> write_fault \<Rightarrow> (agent_config \<Rightarrow> bool) \<Rightarrow> poller \<Rightarrow> poller \<times> duration \<times> agent_config option" where
  "poll_step decode parse dur base a fault applyCfg p =
     (let interval = PollIntervalDuration dur base in
      if pa_err a \<and> pa_status a \<noteq> 200 then (p\<lparr>pl_backoff := nextBackoff (pl_backoff p)\<rparr>, pl_backoff p, None)
      else if pa_status a = 304 then (p\<lparr>pl_backoff := minBackoff\<rparr>, interval, None)
      else if pa_status a = 200 then
        (let p = p\<lparr>pl_backoff := minBackoff\<rparr>;
             (fs, ok) = WriteCache decode fault (pa_body a) (pl_files p);
             p = p\<lparr>pl_files := fs\<rparr>
         in if \<not> ok then (p, interval, None)
            else (p\<lparr>pl_etag := pa_etag a\<rparr>, interval, reapply decode parse applyCfg base fs))
      else (p, interval, None))"


section \<open>Quarantine\<close>

text \<open>The domain a zone is known by, and whether it can be rendered.\<close>

definition zone_key :: "agent_zone \<Rightarrow> string" where
  "zone_key z = trim_space (zn_domain z)"

definition zone_ok :: "url_parser \<Rightarrow> agent_config \<Rightarrow> agent_zone \<Rightarrow> bool" where
  "zone_ok parse c z = (zoneError parse c z = None)"

abbreviation kept :: "url_parser \<Rightarrow> agent_config \<Rightarrow> string list \<Rightarrow> nat \<Rightarrow> agent_zone list \<Rightarrow> agent_zone list" where
  "kept parse c seen i zs \<equiv> fst (drop_zones parse c seen i zs)"

lemma zone_ok_key: "zone_ok parse c z \<Longrightarrow> zone_key z \<noteq> ''''"
  by (auto simp: zone_ok_def zoneError_def zone_key_def)

lemma zoneError_cong:
  "ac_tls_mode c = ac_tls_mode d \<Longrightarrow> ac_email c = ac_email d \<Longrightarrow> zoneError parse c z = zoneError parse d z"
  by (simp only: zoneError_def ZoneTLSMode_def)

lemma kept_Cons:
  "kept parse c seen i (z # zs) =
     (if zone_ok parse c z \<and> zone_key z \<notin> set seen then z # kept parse c (zone_key z # seen) (i + 1) zs
      else kept parse c seen (i + 1) zs)"
  using zone_ok_key [of parse c z]
  by (auto simp: zone_ok_def zone_key_def Let_def split: prod.splits option.splits)

declare drop_zones.simps(2) [simp del]

lemma kept_seen: "set seen = set seen' \<Longrightarrow> kept parse c seen i zs = kept parse c seen' j zs"
  by (induction zs arbitrary: seen seen' i j) (auto simp: kept_Cons)

lemma kept_append:
  "kept parse c seen i (xs @ ys) = kept parse c seen i xs @ kept parse c (map zone_key (kept parse c seen i xs) @ seen) j ys"
proof (induction xs arbitrary: seen i)
  case Nil
  show ?case by (simp add: kept_seen)
next
  case (Cons x xs)
  let ?k = "kept parse c (zone_key x # seen) (i + 1) xs"
  have "kept parse c (map zone_key ?k @ zone_key x # seen) j ys = kept parse c (zone_key x # map zone_key ?k @ seen) j ys"
    by (rule kept_seen) auto
  then show ?case using Cons.IH [of "zone_key x # seen" "i + 1"] Cons.IH [of seen "i + 1"] by (simp add: kept_Cons)
qed

lemma kept_keys:
  "set (map zone_key (kept parse c seen i zs)) = zone_key ` {z \<in> set zs. zone_ok parse c z} - set seen"
  by (induction zs arbitrary: seen i) (auto simp: kept_Cons)

lemma kept_distinct: "distinct (map zone_key (kept parse c seen i zs))"
proof (induction zs arbitrary: seen i)
  case (Cons z zs)
  have "zone_key z \<notin> set (map zone_key (kept parse c (zone_key z # seen) (i + 1) zs))"
    unfolding kept_keys by simp
  then show ?case using Cons.IH by (simp add: kept_Cons)
qed simp

lemma kept_ok: "z \<in> set (kept parse c seen i zs) \<Longrightarrow> z \<in> set zs \<and> zone_ok parse c z"
  by (induction zs arbitrary: seen i) (auto simp: kept_Cons split: if_splits)

lemma dropped_count: "length (kept parse c seen i zs) + length (snd (drop_zones parse c seen i zs)) = length zs"
  by (induction zs arbitrary: seen i)
     (auto simp: drop_zones.simps(2) Let_def split: prod.splits option.splits, (metis fst_conv snd_conv Suc_eq_plus1 add_Suc_shift)+)

lemma Drop_zones [simp]: "ac_zones (fst (DropInvalidZones parse c)) = kept parse c [] 0 (ac_zones c)"
  by (auto simp: DropInvalidZones_def split: prod.splits)

lemma Drop_other [simp]:
  "ac_edge_id (fst (DropInvalidZones parse c)) = ac_edge_id c"
  "ac_mode (fst (DropInvalidZones parse c)) = ac_mode c"
  "ac_brotli (fst (DropInvalidZones parse c)) = ac_brotli c"
  "ac_protect (fst (DropInvalidZones parse c)) = ac_protect c"
  "ac_max_conn (fst (DropInvalidZones parse c)) = ac_max_conn c"
  "ac_req_rate (fst (DropInvalidZones parse c)) = ac_req_rate c"
  "ac_req_burst (fst (DropInvalidZones parse c)) = ac_req_burst c"
  "ac_tls_mode (fst (DropInvalidZones parse c)) = ac_tls_mode c"
  "ac_email (fst (DropInvalidZones parse c)) = ac_email c"
  by (auto simp: DropInvalidZones_def split: prod.splits)

lemma Drop_ok: "zone_ok parse (fst (DropInvalidZones parse c)) z = zone_ok parse c z"
  by (simp add: zone_ok_def zoneError_cong [of "fst (DropInvalidZones parse c)" c])

definition first_valid :: "url_parser \<Rightarrow> agent_config \<Rightarrow> agent_zone list \<Rightarrow> agent_zone list" where
  "first_valid parse c zs =
     map (nth zs) (filter (\<lambda>i. zone_ok parse c (zs ! i) \<and>
       (\<forall>j < i. zone_ok parse c (zs ! j) \<longrightarrow> zone_key (zs ! j) \<noteq> zone_key (zs ! i))) [0..<length zs])"

lemma first_valid_snoc:
  "first_valid parse c (zs @ [z]) =
     first_valid parse c zs @ (if zone_ok parse c z \<and> zone_key z \<notin> zone_key ` {u \<in> set zs. zone_ok parse c u} then [z] else [])"
proof -
  let ?P = "\<lambda>ws i. zone_ok parse c (ws ! i) \<and> (\<forall>j < i. zone_ok parse c (ws ! j) \<longrightarrow> zone_key (ws ! j) \<noteq> zone_key (ws ! i))"
  have "filter (?P (zs @ [z])) [0..<length zs] = filter (?P zs) [0..<length zs]"
    by (rule filter_cong) (auto simp: nth_append)
  moreover have "map (nth (zs @ [z])) (filter (?P zs) [0..<length zs]) = map (nth zs) (filter (?P zs) [0..<length zs])"
    by (rule map_cong) (auto simp: nth_append)
  moreover have "?P (zs @ [z]) (length zs) \<longleftrightarrow> zone_ok parse c z \<and> zone_key z \<notin> zone_key ` {u \<in> set zs. zone_ok parse c u}"
    by (auto simp: nth_append in_set_conv_nth image_iff)
  ultimately show ?thesis unfolding first_valid_def by (simp add: nth_append)
qed

lemma kept_first_valid: "kept parse c [] i zs = first_valid parse c zs"
proof (induction zs rule: rev_induct)
  case Nil
  show ?case by (simp add: first_valid_def)
next
  case (snoc z zs)
  have "kept parse c [] i (zs @ [z]) = kept parse c [] i zs @ kept parse c (map zone_key (kept parse c [] i zs)) 0 [z]"
    using kept_append [of parse c "[]" i zs "[z]" 0] by simp
  also have "\<dots> = kept parse c [] i zs @ (if zone_ok parse c z \<and> zone_key z \<notin> set (map zone_key (kept parse c [] i zs)) then [z] else [])"
    by (simp add: kept_Cons)
  also have "set (map zone_key (kept parse c [] i zs)) = zone_key ` {u \<in> set zs. zone_ok parse c u}"
    by (simp only: kept_keys) simp
  finally show ?case by (simp add: snoc.IH first_valid_snoc)
qed


lemma check_zones_None:
  "check_zones parse c seen zs = None \<longleftrightarrow>
     (\<forall>z \<in> set zs. zone_ok parse c z) \<and> distinct (map zone_key zs) \<and> set (map zone_key zs) \<inter> set seen = {}"
proof (induction zs arbitrary: seen)
  case (Cons z zs)
  show ?case
  proof (cases "zone_ok parse c z")
    case True
    then have "trim_space (zn_domain z) \<noteq> ''''" using zone_ok_key [OF True] by (simp add: zone_key_def)
    then show ?thesis using True Cons.IH [of "zone_key z # seen"] by (auto simp: zone_ok_def zone_key_def Let_def)
  next
    case False
    then show ?thesis by (auto simp: zone_ok_def Let_def split: option.splits)
  qed
qed simp

lemma check_kept: "check_zones parse c [] (kept parse d [] i zs) = None \<longleftrightarrow> (\<forall>z \<in> set (kept parse d [] i zs). zone_ok parse c z)"
  by (simp add: check_zones_None kept_distinct)

lemma set_if:
  "(if b then c\<lparr>ac_mode := v\<rparr> else c) = c\<lparr>ac_mode := if b then v else ac_mode c\<rparr>"
  "(if b then c\<lparr>ac_cache_dir := v\<rparr> else c) = c\<lparr>ac_cache_dir := if b then v else ac_cache_dir c\<rparr>"
  "(if b then c\<lparr>ac_cache_max := v\<rparr> else c) = c\<lparr>ac_cache_max := if b then v else ac_cache_max c\<rparr>"
  "(if b then c\<lparr>ac_tls_mode := v\<rparr> else c) = c\<lparr>ac_tls_mode := if b then v else ac_tls_mode c\<rparr>"
  "(if b then c\<lparr>ac_brotli := n\<rparr> else c) = c\<lparr>ac_brotli := if b then n else ac_brotli c\<rparr>"
  "(if b then c\<lparr>ac_resolver := v\<rparr> else c) = c\<lparr>ac_resolver := if b then v else ac_resolver c\<rparr>"
  "(if b then c\<lparr>ac_waf_listen := v\<rparr> else c) = c\<lparr>ac_waf_listen := if b then v else ac_waf_listen c\<rparr>"
  "(if b then c\<lparr>ac_max_conn := n\<rparr> else c) = c\<lparr>ac_max_conn := if b then n else ac_max_conn c\<rparr>"
  "(if b then c\<lparr>ac_req_burst := n\<rparr> else c) = c\<lparr>ac_req_burst := if b then n else ac_req_burst c\<rparr>"
  "(if b then c\<lparr>ac_max_conn := n, ac_req_burst := m\<rparr> else c) =
     c\<lparr>ac_max_conn := if b then n else ac_max_conn c, ac_req_burst := if b then m else ac_req_burst c\<rparr>"
  by simp_all

lemma protect_eq:
  "protect_defaults c =
     c\<lparr>ac_max_conn := if ac_protect c then (if ac_max_conn c \<le> 0 then 200 else ac_max_conn c) else ac_max_conn c,
       ac_req_burst := if ac_protect c then (if ac_req_rate c > 0 \<and> ac_req_burst c \<le> 0 then ac_req_rate c * 2 else ac_req_burst c)
                       else ac_req_burst c\<rparr>"
  by (simp add: protect_defaults_def Let_def)

lemma defaults_eq:
  "config_applyDefaults c =
     c\<lparr>ac_mode := if ac_mode c = '''' then ''local'' else ac_mode c,
       ac_cache_dir := if ac_cache_dir c = '''' then ''/var/cache/brisk'' else ac_cache_dir c,
       ac_cache_max := if ac_cache_max c = '''' then ''200g'' else ac_cache_max c,
       ac_tls_mode := if ac_tls_mode c = '''' then ''selfsigned'' else ac_tls_mode c,
       ac_brotli := if ac_brotli c = 0 then 5 else ac_brotli c,
       ac_resolver := if trim_space (ac_resolver c) = '''' then ''1.1.1.1 8.8.8.8'' else ac_resolver c,
       ac_waf_listen := if trim_space (ac_waf_listen c) = '''' then ''127.0.0.1:9555'' else ac_waf_listen c,
       ac_max_conn := if ac_protect c then (if ac_max_conn c \<le> 0 then 200 else ac_max_conn c) else ac_max_conn c,
       ac_req_burst := if ac_protect c then (if ac_req_rate c > 0 \<and> ac_req_burst c \<le> 0 then ac_req_rate c * 2 else ac_req_burst c)
                       else ac_req_burst c,
       ac_zones := map zone_applyDefaults (ac_zones c)\<rparr>"
  by (simp add: config_applyDefaults_def Let_def set_if protect_eq split del: if_split cong: if_cong)

lemma defaults_fields [simp]:
  "ac_zones (config_applyDefaults c) = map zone_applyDefaults (ac_zones c)"
  "ac_mode (config_applyDefaults c) = (if ac_mode c = '''' then ''local'' else ac_mode c)"
  "ac_tls_mode (config_applyDefaults c) = (if ac_tls_mode c = '''' then ''selfsigned'' else ac_tls_mode c)"
  "ac_brotli (config_applyDefaults c) = (if ac_brotli c = 0 then 5 else ac_brotli c)"
  "ac_edge_id (config_applyDefaults c) = ac_edge_id c"
  "ac_protect (config_applyDefaults c) = ac_protect c"
  "ac_req_rate (config_applyDefaults c) = ac_req_rate c"
  "ac_email (config_applyDefaults c) = ac_email c"
  by (simp_all add: defaults_eq split del: if_split)

lemma defaults_conn [simp]: "ac_protect c \<Longrightarrow> \<not> ac_max_conn (config_applyDefaults c) < 1"
  by (simp add: defaults_eq)

lemma defaults_burst [simp]:
  "ac_req_burst (config_applyDefaults c) =
     (if ac_protect c \<and> ac_req_rate c > 0 \<and> ac_req_burst c \<le> 0 then ac_req_rate c * 2 else ac_req_burst c)"
  by (simp add: defaults_eq)

lemma zone_defaults [simp]:
  "zn_domain (zone_applyDefaults z) = zn_domain z" "zn_origin (zone_applyDefaults z) = zn_origin z"
  "zn_tls (zone_applyDefaults z) = zn_tls z" "zn_profile (zone_applyDefaults z) = zn_profile z"
  by (simp_all add: zone_applyDefaults_def Let_def split: prod.splits)

lemma zone_defaults_ok [simp]: "zone_ok parse c (zone_applyDefaults z) = zone_ok parse c z"
  by (simp only: zone_ok_def zoneError_def OriginParts_def ZoneTLSMode_def zone_defaults)

lemma zone_defaults_set:
  "zn_min_uses (zone_applyDefaults z) \<ge> 1" "zn_cors (zone_applyDefaults z) \<noteq> ''''"
  "zn_playlist_ttl (zone_applyDefaults z) \<noteq> ''''" "zn_segment_ttl (zone_applyDefaults z) \<noteq> ''''"
  by (simp_all add: zone_applyDefaults_def Let_def profileTTLDefaults_def)

lemma kept_empty: "kept parse c [] i zs = [] \<longleftrightarrow> (\<forall>z \<in> set zs. \<not> zone_ok parse c z)"
proof -
  have "kept parse c [] i zs = [] \<longleftrightarrow> set (map zone_key (kept parse c [] i zs)) = {}" by simp
  then show ?thesis unfolding kept_keys by auto
qed

text \<open>
  Quarantine. Of the zones of a configuration, \<open>DropInvalidZones\<close> keeps, in order, those
  that can be rendered and are the first such zone of their domain, and reports every other
  one: which zones are kept does not depend on the broken ones.
\<close>

theorem DropInvalidZones_keeps:
  "ac_zones (fst (DropInvalidZones parse c)) = first_valid parse c (ac_zones c) \<and>
   length (ac_zones (fst (DropInvalidZones parse c))) + length (snd (DropInvalidZones parse c)) = length (ac_zones c) \<and>
   (zoneError parse c z \<noteq> None \<longrightarrow> first_valid parse c (us @ z # vs) = first_valid parse c (us @ vs))"
proof (intro conjI impI)
  show "ac_zones (fst (DropInvalidZones parse c)) = first_valid parse c (ac_zones c)"
    by (simp add: kept_first_valid)
  show "length (ac_zones (fst (DropInvalidZones parse c))) + length (snd (DropInvalidZones parse c)) = length (ac_zones c)"
    using dropped_count [of parse c "[]" 0 "ac_zones c"]
    by (auto simp: DropInvalidZones_def split: prod.splits)
  assume "zoneError parse c z \<noteq> None"
  then have "\<not> zone_ok parse c z" by (simp add: zone_ok_def)
  then show "first_valid parse c (us @ z # vs) = first_valid parse c (us @ vs)"
    using kept_append [of parse c "[]" 0 us "z # vs" 0] kept_append [of parse c "[]" 0 us vs 1]
    by (simp add: kept_Cons kept_first_valid)
qed

lemma source_Fetch_cases:
  defines "c \<equiv> \<lambda>decode base fs. config_applyDefaults (overlay base (readCache decode fs))"
  shows "source_Fetch decode parse base fs = Inr cfg \<longleftrightarrow>
     cfg = fst (DropInvalidZones parse (c decode base fs)) \<and> config_Validate parse cfg = None"
  by (auto simp: source_Fetch_def c_def Let_def split: option.splits)

text \<open>When \<open>Fetch\<close> succeeds, in terms of the configuration with the zones and the level laid over.\<close>

lemma source_Fetch_overlay:
  assumes "c = overlay base (readCache decode fs)"
  shows "(\<exists>cfg. source_Fetch decode parse base fs = Inr cfg) \<longleftrightarrow>
     trim_space (ac_edge_id c) \<noteq> '''' \<and> ac_mode c \<in> {'''', ''local'', ''production''} \<and>
     (ac_tls_mode c = '''' \<or> validTLSMode (ac_tls_mode c)) \<and> 0 \<le> ac_brotli c \<and> ac_brotli c \<le> 11 \<and>
     (ac_protect c \<longrightarrow> 0 < ac_req_rate c \<or> ac_req_rate c = 0 \<and> 0 \<le> ac_req_burst c) \<and>
     (\<exists>z \<in> set (ac_zones c). zoneError parse (config_applyDefaults c) z = None)"
proof -
  let ?d = "config_applyDefaults c"
  have zones: "check_zones parse (fst (DropInvalidZones parse ?d)) [] (kept parse ?d [] 0 (ac_zones ?d)) = None"
    unfolding check_kept Drop_ok using kept_ok by blast
  have some: "kept parse ?d [] 0 (ac_zones ?d) \<noteq> [] \<longleftrightarrow> (\<exists>z \<in> set (ac_zones c). zoneError parse ?d z = None)"
    by (simp add: kept_empty zone_ok_def [symmetric])
  have "(\<exists>cfg. source_Fetch decode parse base fs = Inr cfg) \<longleftrightarrow> config_Validate parse (fst (DropInvalidZones parse ?d)) = None"
    unfolding source_Fetch_cases assms by blast
  also have "\<dots> \<longleftrightarrow> trim_space (ac_edge_id c) \<noteq> '''' \<and> ac_mode c \<in> {'''', ''local'', ''production''} \<and>
     (ac_tls_mode c = '''' \<or> validTLSMode (ac_tls_mode c)) \<and> 0 \<le> ac_brotli c \<and> ac_brotli c \<le> 11 \<and>
     (ac_protect c \<longrightarrow> 0 < ac_req_rate c \<or> ac_req_rate c = 0 \<and> 0 \<le> ac_req_burst c) \<and> kept parse ?d [] 0 (ac_zones ?d) \<noteq> []"
    using zones by (auto simp: config_Validate_def validTLSMode_def)
  finally show ?thesis unfolding some .
qed

text \<open>What a pulled configuration changes of the settings of the edge: the zones and the compression level.\<close>

definition pulled_level :: "agent_config \<Rightarrow> wire_zone list \<Rightarrow> int" where
  "pulled_level base ws = (if wz_brotli (hd ws) > 0 then wz_brotli (hd ws) else ac_brotli base)"

lemma overlay_pulled:
  assumes "readCache decode fs = Some w" "wc_zones w \<noteq> []"
  shows "overlay base (readCache decode fs) = base\<lparr>ac_zones := map toZone (wc_zones w), ac_brotli := pulled_level base (wc_zones w)\<rparr>"
  using assms by (simp add: overlay_def pulled_level_def Let_def)

lemma zoneError_settings:
  "zoneError parse (config_applyDefaults (base\<lparr>ac_zones := zs, ac_brotli := n\<rparr>)) z = zoneError parse (config_applyDefaults base) z"
  by (rule zoneError_cong) simp_all

text \<open>
  C24: The fate of a pulled configuration with zones. \<open>Fetch\<close> succeeds exactly when the edge's own
  settings are sound, the compression level is at most eleven and one pulled zone can be rendered; the
  zones of the result are then the renderable ones, the first of each domain. So a broken zone is dropped
  and rejects nothing -- with one exception, which the statement spells out: the compression level is
  that of the first pulled zone where it is positive, whether or not that zone is dropped, so that one
  zone can reject the whole configuration with a level above eleven (\<open>first_zone_sets_level\<close>).
\<close>

theorem source_Fetch_iff:
  assumes "readCache decode fs = Some w" "wc_zones w \<noteq> []"
    and "level = (if 0 < wz_brotli (hd (wc_zones w)) then wz_brotli (hd (wc_zones w)) else ac_brotli base)"
  shows "((\<exists>cfg. source_Fetch decode parse base fs = Inr cfg) \<longleftrightarrow>
     trim_space (ac_edge_id base) \<noteq> '''' \<and> ac_mode base \<in> {'''', ''local'', ''production''} \<and>
     (ac_tls_mode base = '''' \<or> validTLSMode (ac_tls_mode base)) \<and> 0 \<le> level \<and> level \<le> 11 \<and>
     (ac_protect base \<longrightarrow> 0 < ac_req_rate base \<or> ac_req_rate base = 0 \<and> 0 \<le> ac_req_burst base) \<and>
     (\<exists>z \<in> set (wc_zones w). zoneError parse (config_applyDefaults base) (toZone z) = None)) \<and>
     (\<forall>cfg. source_Fetch decode parse base fs = Inr cfg \<longrightarrow>
        ac_zones cfg = first_valid parse cfg (map (zone_applyDefaults \<circ> toZone) (wc_zones w)))"
proof -
  have l: "pulled_level base (wc_zones w) = level" using assms(3) by (simp add: pulled_level_def)
  note o = overlay_pulled [OF assms(1,2), of base, unfolded l]
  have "ac_zones cfg = first_valid parse cfg (map (zone_applyDefaults \<circ> toZone) (wc_zones w))"
    if "source_Fetch decode parse base fs = Inr cfg" for cfg
  proof -
    have c: "cfg = fst (DropInvalidZones parse (config_applyDefaults (overlay base (readCache decode fs))))"
      using that unfolding source_Fetch_cases by blast
    show ?thesis unfolding c o by (simp add: first_valid_def Drop_ok kept_first_valid)
  qed
  then show ?thesis
    using source_Fetch_overlay [OF o [symmetric], of parse] by (simp add: zoneError_settings del: defaults_fields)
qed

definition demo_url :: url_parser where
  "demo_url s =
     (case index_str ''://'' s of
        None \<Rightarrow> Inl ''no scheme''
      | Some i \<Rightarrow>
          (let h = drop (i + 3) s
           in Inr \<lparr>u_scheme = take i s, u_host = h,
                   u_port = (case index_byte (CHR '':'') h of None \<Rightarrow> '''' | Some j \<Rightarrow> drop (j + 1) h)\<rparr>))"

definition demo_wire :: "string \<Rightarrow> string \<Rightarrow> string \<Rightarrow> int \<Rightarrow> wire_zone" where
  "demo_wire d u t b =
     \<lparr>wz_cdn = d, wz_custom = '''', wz_origin = u, wz_host_header = '''', wz_tls = t, wz_video = False, wz_profile = '''',
      wz_playlist_ttl = '''', wz_segment_ttl = '''', wz_cors = '''', wz_brotli = b, wz_shield = '''', wz_cert = '''',
      wz_key = '''', wz_serial = '''', wz_waf = None, wz_rules = [], wz_transforms = [], wz_hotlink = None,
      wz_ssl_verify = False, wz_follow = False, wz_forward_host = False, wz_error_html = '''', wz_blocked_ips = '''',
      wz_block_root = False, wz_block_post = False\<rparr>"

definition demo_base :: agent_config where
  "demo_base =
     \<lparr>ac_edge_id = ''fra'', ac_mode = '''', ac_url = ''http://c'', ac_token = ''t'', ac_token_file = '''', ac_poll = '''',
      ac_stats = '''', ac_nats = '''', ac_cache_file = '''', ac_cache_dir = '''', ac_cache_max = '''', ac_tls_mode = '''',
      ac_email = '''', ac_staging = False, ac_tickets = None, ac_brotli = 0, ac_resolver = '''', ac_waf_listen = '''',
      ac_pull_secret = '''', ac_pull_header = '''', ac_protect = False, ac_max_conn = 0, ac_req_rate = 0, ac_req_burst = 0,
      ac_zones = [toZone (demo_wire ''base.x'' ''http://o'' '''' 0)]\<rparr>"

text \<open>Two bodies: one zone without its certificate address beside a good one, and only the former.\<close>

definition demo_decode :: "string \<Rightarrow> wire_config option" where
  "demo_decode raw =
     (if raw = ''mixed'' then
        Some \<lparr>wc_version = ''v1'', wc_zones = [demo_wire ''bad.x'' ''http://o'' ''letsencrypt'' 0, demo_wire ''a.x'' ''https://o:8443'' '''' 0]\<rparr>
      else if raw = ''poison'' then
        Some \<lparr>wc_version = ''v2'', wc_zones = [demo_wire ''bad.x'' ''http://o'' ''letsencrypt'' 0]\<rparr>
      else if raw = ''level'' then
        Some \<lparr>wc_version = ''v3'', wc_zones = [demo_wire ''bad.x'' ''ftp://o'' '''' 12, demo_wire ''a.x'' ''https://o'' '''' 5]\<rparr>
      else None)"

definition cached :: "string \<Rightarrow> cache_files" where
  "cached raw = \<lparr>cf_cache = Some raw, cf_tmp = None\<rparr>"

lemma DropInvalidZones_keeps_witness:
  "zoneError demo_url demo_base (toZone (demo_wire ''bad.x'' ''http://o'' ''letsencrypt'' 0)) \<noteq> None \<and>
   first_valid demo_url demo_base ([] @ toZone (demo_wire ''bad.x'' ''http://o'' ''letsencrypt'' 0) # ac_zones demo_base) =
   first_valid demo_url demo_base ([] @ ac_zones demo_base)"
proof -
  have bad: "zoneError demo_url demo_base (toZone (demo_wire ''bad.x'' ''http://o'' ''letsencrypt'' 0)) \<noteq> None" by code_simp
  show ?thesis using bad DropInvalidZones_keeps [of demo_url demo_base] by blast
qed

lemma source_Fetch_iff_witness: "\<exists>cfg. source_Fetch demo_decode demo_url demo_base (cached ''mixed'') = Inr cfg"
proof -
  have "readCache demo_decode (cached ''mixed'') = demo_decode ''mixed''" by (simp add: readCache_def cached_def)
  then obtain w where w: "readCache demo_decode (cached ''mixed'') = Some w" "wc_zones w \<noteq> []" "demo_decode ''mixed'' = Some w"
    by (simp add: demo_decode_def)
  have "case demo_decode ''mixed'' of None \<Rightarrow> False | Some w \<Rightarrow>
      trim_space (ac_edge_id demo_base) \<noteq> '''' \<and> ac_mode demo_base \<in> {'''', ''local'', ''production''} \<and> ac_tls_mode demo_base = '''' \<and>
      \<not> 0 < wz_brotli (hd (wc_zones w)) \<and> ac_brotli demo_base = 0 \<and> \<not> ac_protect demo_base \<and>
      list_ex (\<lambda>z. zoneError demo_url (config_applyDefaults demo_base) (toZone z) = None) (wc_zones w)" by code_simp
  then show ?thesis
    using source_Fetch_iff [OF w(1,2) refl, of demo_url demo_base] w(3) by (auto simp: list_ex_iff)
qed

text \<open>
  What \<open>Fetch\<close> returns can be rendered: it passes \<open>Validate\<close>, its domains differ, and every
  zone has an upstream with scheme and host, a known certificate mode (with an address for
  Let's Encrypt) and all its defaults.
\<close>

theorem source_Fetch_renderable:
  assumes "source_Fetch decode parse base fs = Inr cfg"
  shows "config_Validate parse cfg = None \<and> ac_zones cfg \<noteq> [] \<and> distinct (map zone_key (ac_zones cfg)) \<and>
    (\<forall>z \<in> set (ac_zones cfg).
       (\<exists>s h. OriginParts parse z = Inr (s, h) \<and> s \<in> {''http'', ''https''} \<and> h \<noteq> '''') \<and>
       validTLSMode (ZoneTLSMode cfg z) \<and> (ZoneTLSMode cfg z = ''letsencrypt'' \<longrightarrow> trim_space (ac_email cfg) \<noteq> '''') \<and>
       zn_min_uses z \<ge> 1 \<and> zn_playlist_ttl z \<noteq> '''' \<and> zn_segment_ttl z \<noteq> '''')"
proof -
  let ?c = "config_applyDefaults (overlay base (readCache decode fs))"
  have cfg: "cfg = fst (DropInvalidZones parse ?c)" and v: "config_Validate parse cfg = None"
    using assms unfolding source_Fetch_cases by blast+
  have "ac_zones cfg = kept parse ?c [] 0 (ac_zones ?c)" by (simp add: cfg)
  then have d: "distinct (map zone_key (ac_zones cfg))" by (simp only: kept_distinct)
  have ne: "ac_zones cfg \<noteq> []" using v by (auto simp: config_Validate_def split: if_splits)
  have z: "(\<exists>s h. OriginParts parse z = Inr (s, h) \<and> s \<in> {''http'', ''https''} \<and> h \<noteq> '''') \<and>
       validTLSMode (ZoneTLSMode cfg z) \<and> (ZoneTLSMode cfg z = ''letsencrypt'' \<longrightarrow> trim_space (ac_email cfg) \<noteq> '''') \<and>
       zn_min_uses z \<ge> 1 \<and> zn_playlist_ttl z \<noteq> '''' \<and> zn_segment_ttl z \<noteq> ''''" if m: "z \<in> set (ac_zones cfg)" for z
  proof -
    have "z \<in> set (ac_zones ?c) \<and> zone_ok parse ?c z"
      using m unfolding cfg Drop_zones by (rule kept_ok)
    then obtain u where u: "z = zone_applyDefaults u" and ok: "zone_ok parse cfg z" by (auto simp: cfg Drop_ok)
    have "\<exists>s h. OriginParts parse z = Inr (s, h) \<and> s \<in> {''http'', ''https''} \<and> h \<noteq> ''''"
      using ok unfolding zone_ok_def zoneError_def OriginParts_def by (auto split: if_splits sum.splits)
    moreover have "validTLSMode (ZoneTLSMode cfg z) \<and> (ZoneTLSMode cfg z = ''letsencrypt'' \<longrightarrow> trim_space (ac_email cfg) \<noteq> '''')"
      using ok unfolding zone_ok_def zoneError_def by (auto split: if_splits sum.splits)
    ultimately show ?thesis using zone_defaults_set [of u] u by simp
  qed
  show ?thesis using v ne d z by blast
qed

lemma source_Fetch_renderable_witness:
  "map zn_domain (ac_zones (projr (source_Fetch demo_decode demo_url demo_base (cached ''mixed'')))) = [''a.x''] \<and>
   config_Validate demo_url (projr (source_Fetch demo_decode demo_url demo_base (cached ''mixed''))) = None"
proof -
  have "source_Fetch demo_decode demo_url demo_base (cached ''mixed'') =
    Inr (projr (source_Fetch demo_decode demo_url demo_base (cached ''mixed'')))" by code_simp
  from source_Fetch_renderable [OF this, THEN conjunct1] show ?thesis by (rule conjI [rotated]) code_simp
qed

section \<open>Last known good\<close>

lemma nextBackoff_bounds: "minBackoff \<le> b \<Longrightarrow> minBackoff \<le> nextBackoff b \<and> nextBackoff b \<le> maxBackoff"
  by (auto simp: nextBackoff_def minBackoff_def maxBackoff_def durations Let_def)

lemma WriteCache_cases:
  "cf_cache (fst (WriteCache decode fault raw fs)) = cf_cache fs \<or>
   (cf_cache (fst (WriteCache decode fault raw fs)) = Some raw \<and> (\<exists>wc. decode raw = Some wc \<and> wc_zones wc \<noteq> []))"
  by (auto simp: WriteCache_def split: option.splits write_fault.splits)

definition good_poller :: "(string \<Rightarrow> wire_config option) \<Rightarrow> string option \<Rightarrow> string set \<Rightarrow> poller \<Rightarrow> bool" where
  "good_poller decode start bodies p \<longleftrightarrow>
     minBackoff \<le> pl_backoff p \<and> pl_backoff p \<le> maxBackoff \<and>
     (cf_cache (pl_files p) = start \<or>
      (\<exists>raw \<in> bodies. cf_cache (pl_files p) = Some raw \<and> (\<exists>wc. decode raw = Some wc \<and> wc_zones wc \<noteq> [])))"

lemma poll_step_good:
  assumes "good_poller decode start bodies p" "pa_status a = 200 \<Longrightarrow> pa_body a \<in> bodies"
  shows "good_poller decode start bodies (fst (poll_step decode parse dur base a fault applyCfg p))"
proof (cases "pa_status a = 200")
  case True
  have "cf_cache (pl_files (fst (poll_step decode parse dur base a fault applyCfg p))) =
      cf_cache (fst (WriteCache decode fault (pa_body a) (pl_files p)))"
    "pl_backoff (fst (poll_step decode parse dur base a fault applyCfg p)) = minBackoff"
    using True by (auto simp: poll_step_def Let_def split: prod.splits)
  moreover have "minBackoff \<le> maxBackoff" by (simp add: minBackoff_def maxBackoff_def durations)
  ultimately show ?thesis
    using assms True WriteCache_cases [of decode fault "pa_body a" "pl_files p"] by (auto simp: good_poller_def)
next
  case False
  have "minBackoff \<le> maxBackoff" by (simp add: minBackoff_def maxBackoff_def durations)
  then show ?thesis
    using assms False nextBackoff_bounds [of "pl_backoff p"] by (auto simp: poll_step_def good_poller_def Let_def)
qed

text \<open>
  C25: Dashboard down is not edge down. Whatever the control plane answers and whichever write
  fails, the cache file is at any time what it was at the start or the complete body of an
  answer that decodes to at least one zone, and the retry pause stays between two seconds and
  two minutes.
\<close>

theorem last_known_good:
  assumes "p' = foldl (\<lambda>p (a, fault, applyCfg). fst (poll_step decode parse dur base a fault applyCfg p)) (new_poller decode fs) evs"
  shows "minBackoff \<le> pl_backoff p' \<and> pl_backoff p' \<le> maxBackoff \<and>
     (cf_cache (pl_files p') = cf_cache fs \<or>
      (\<exists>(a, fault, applyCfg) \<in> set evs. pa_status a = 200 \<and> cf_cache (pl_files p') = Some (pa_body a) \<and>
         (\<exists>wc. decode (pa_body a) = Some wc \<and> wc_zones wc \<noteq> [])))"
proof -
  let ?bodies = "{pa_body a | a fault applyCfg. (a, fault, applyCfg) \<in> set evs \<and> pa_status a = 200}"
  let ?step = "\<lambda>p (a, fault, applyCfg). fst (poll_step decode parse dur base a fault applyCfg p)"
  have run: "good_poller decode (cf_cache fs) ?bodies (foldl ?step p xs)"
    if "good_poller decode (cf_cache fs) ?bodies p" "set xs \<subseteq> set evs" for p xs
    using that
  proof (induction xs arbitrary: p)
    case (Cons x xs)
    obtain a fault applyCfg where x: "x = (a, fault, applyCfg)" by (cases x)
    have "good_poller decode (cf_cache fs) ?bodies (?step p x)"
      unfolding x prod.case by (rule poll_step_good) (use Cons.prems x in auto)
    then show ?case using Cons.IH Cons.prems(2) by simp
  qed simp
  have "good_poller decode (cf_cache fs) ?bodies (new_poller decode fs)"
    by (simp add: good_poller_def new_poller_def minBackoff_def maxBackoff_def durations)
  from run [OF this, of evs] show ?thesis unfolding assms good_poller_def by fastforce
qed

definition demo_answer :: "string \<Rightarrow> string \<Rightarrow> pull_answer" where
  "demo_answer raw tag = \<lparr>pa_status = 200, pa_body = raw, pa_etag = tag, pa_err = False\<rparr>"

definition demo_fail :: pull_answer where
  "demo_fail = \<lparr>pa_status = 0, pa_body = '''', pa_etag = '''', pa_err = True\<rparr>"

lemma last_known_good_witness:
  "let p' = foldl (\<lambda>p (a, fault, applyCfg). fst (poll_step demo_decode demo_url (\<lambda>_. None) demo_base a fault applyCfg p))
      (new_poller demo_decode (cached ''mixed''))
      [(demo_fail, NoFault, \<lambda>_. True), (demo_answer ''mi'' ''v9'', NoFault, \<lambda>_. True), (demo_fail, NoFault, \<lambda>_. True),
       (demo_answer ''poison'' ''v2'', WriteFails 3, \<lambda>_. True)]
   in minBackoff \<le> pl_backoff p' \<and> cf_cache (pl_files p') = Some ''mixed''"
  unfolding Let_def
  by (rule conjI, (rule last_known_good [OF refl, THEN conjunct1]), code_simp)


text \<open>
  What modelling showed. The wire type has no field for the cache settings the control plane
  sends, so a pulled zone always renders with the defaults. The compression level of the
  whole edge is taken from the first pulled zone, even one that is quarantined, and an
  out-of-range value there rejects every zone. \<open>WriteCache\<close> replaces the last known good by a
  body whose zones all fail the checks, after which \<open>Fetch\<close> fails. And the version tag moves on
  whether or not the configuration could be applied, so that the next poll is answered with
  304 and does not retry.
\<close>

lemma pulled_zones_lose_cache_settings: "zn_cache (toZone w) = None"
  by (simp add: toZone_def)

lemma first_zone_sets_level:
  "source_Fetch demo_decode demo_url demo_base (cached ''level'') = Inl BadBrotli"
  by code_simp

lemma poisoned_cache:
  "let (fs, ok) = WriteCache demo_decode NoFault ''poison'' (cached ''mixed'')
   in ok \<and> source_Fetch demo_decode demo_url demo_base (cached ''mixed'') \<noteq> Inl NoZones \<and>
      source_Fetch demo_decode demo_url demo_base fs = Inl NoZones"
  by code_simp

lemma failed_apply_not_retried:
  "fst (poll_step decode parse dur base a fault (\<lambda>_. False) p) = fst (poll_step decode parse dur base a fault (\<lambda>_. True) p)"
  by (auto simp: poll_step_def Let_def split: prod.splits)

end
