(* ===== verification/CacheRender.thy ===== *)
theory CacheRender
  imports AgentConfig
begin

section \<open>Cache settings as nginx directives\<close>

text \<open>
  \<open>brisk-agent/nginx/cache.go\<close>: how the cache controls of a zone become cache keys, validity,
  staleness and browser directives. The properties: two tenants never share a cache entry,
  whatever they vary on; the rendered keys hold nothing that ends an nginx argument; sliced
  locations are consistent; and TTLs are read as written.
\<close>

record cache_render =
  cx_static_key :: string
  cx_html_key :: string
  cx_static_valid :: string
  cx_html_valid :: string
  cx_stale :: string
  cx_static_ignore :: string
  cx_static_cc :: string
  cx_html_cc :: string
  cx_errors :: bool
  cx_html_ignore :: string
  cx_nocache_static :: bool
  cx_nocache_html :: bool
  cx_slice :: bool
  cx_webp_map :: bool
  cx_device_map :: bool

definition defStaticKey :: string where "defStaticKey = ''$host$uri''"

definition defHTMLKey :: string where "defHTMLKey = ''$host$request_uri''"

definition defStale :: string where
  "defStale = ''error timeout updating http_500 http_502 http_503 http_504''"

definition defStaticCC :: string where "defStaticCC = ''public, max-age=2592000''"

definition defaultCacheRender :: cache_render where
  "defaultCacheRender =
     \<lparr>cx_static_key = defStaticKey, cx_html_key = defHTMLKey, cx_static_valid = ''200 301 302 30d'',
      cx_html_valid = ''200 301 302 10m'', cx_stale = defStale,
      cx_static_ignore = ''Set-Cookie Cache-Control Expires Vary'', cx_static_cc = defStaticCC, cx_html_cc = '''',
      cx_errors = False, cx_html_ignore = '''', cx_nocache_static = False, cx_nocache_html = False,
      cx_slice = False, cx_webp_map = False, cx_device_map = False\<rparr>"

subsection \<open>Names and lists\<close>

definition name_char :: "char \<Rightarrow> bool" where
  "name_char c = (is_lower c \<or> is_upper c \<or> is_digit c \<or> c = CHR ''_'' \<or> c = CHR ''-'')"

definition sanitizeToken :: "string \<Rightarrow> string" where
  "sanitizeToken s = filter name_char (trim_space s)"

definition headerVar :: "string \<Rightarrow> string" where
  "headerVar h = to_lower (map (\<lambda>c. if c = CHR ''-'' then CHR ''_'' else c) (sanitizeToken h))"

definition splitList :: "string \<Rightarrow> string list" where
  "splitList s = filter (\<lambda>p. p \<noteq> '''') (map trim_space (split_on (CHR '','') s))"

definition staleFlags :: "bool \<Rightarrow> bool \<Rightarrow> string" where
  "staleFlags offline updating =
     (if offline \<and> updating then defStale
      else (let parts = (if offline then [''error'', ''timeout''] else []) @ (if updating then [''updating''] else []) @
                        (if offline then [''http_500'', ''http_502'', ''http_503'', ''http_504''] else [])
            in if parts = [] then ''off'' else join '' '' parts))"

subsection \<open>Validity and TTLs\<close>

text \<open>\<open>strings.Replace(s, old, new, 1)\<close> for a non-empty \<open>old\<close>.\<close>

definition replace_once :: "string \<Rightarrow> string \<Rightarrow> string \<Rightarrow> string" where
  "replace_once s old new =
     (case index_str old s of None \<Rightarrow> s | Some i \<Rightarrow> take i s @ new @ drop (i + length old) s)"

definition with206 :: "string \<Rightarrow> string" where
  "with206 v = (if contains_str ('' '' @ v @ '' '') '' 206 '' then v else replace_once v ''200'' ''200 206'')"

definition lastToken :: "string \<Rightarrow> string" where
  "lastToken s = (let f = Prelude.fields s in if f = [] then '''' else last f)"

definition unit_mult :: "char \<Rightarrow> int option" where
  "unit_mult c =
     (if c = CHR ''s'' then Some 1 else if c = CHR ''m'' then Some 60 else if c = CHR ''h'' then Some 3600
      else if c = CHR ''d'' then Some 86400 else if c = CHR ''w'' then Some 604800
      else if c = CHR ''M'' then Some 2592000 else if c = CHR ''y'' then Some 31536000 else None)"

definition cacheTTLToSeconds :: "string \<Rightarrow> int" where
  "cacheTTLToSeconds s =
     (let t = trim_space s in
      if t = '''' then 0
      else (case unit_mult (last t) of
              Some k \<Rightarrow>
                (case parse_int (butlast t) of None \<Rightarrow> 0 | Some n \<Rightarrow> if n < 0 then 0 else wrap64 (n * k))
            | None \<Rightarrow>
                if \<not> is_digit (last t) then 0
                else (case parse_int t of None \<Rightarrow> 0 | Some n \<Rightarrow> if n < 0 then 0 else n)))"

definition browserCC :: "cache_settings \<Rightarrow> string \<Rightarrow> string \<Rightarrow> string" where
  "browserCC cs fallback edgeValid =
     (if cs_browser_mode cs = ''no_cache'' then ''no-store, no-cache, must-revalidate''
      else if cs_browser_mode cs = ''override'' then
        (let s = cacheTTLToSeconds (trim_space (cs_browser_ttl cs))
         in if s > 0 then ''public, max-age='' @ show_int s else fallback)
      else if cs_browser_mode cs = ''match_server'' then
        (let s = cacheTTLToSeconds (lastToken edgeValid)
         in if s > 0 then ''public, max-age='' @ show_int s else fallback)
      else fallback)"

subsection \<open>Rendering\<close>

text \<open>The dimensions added to the key of static and of dynamic content.\<close>

definition vary_dims :: "cache_settings \<Rightarrow> string" where
  "vary_dims cs =
     (if cs_vary_webp cs then ''$brisk_webp'' else '''') @
     (if cs_vary_device cs then ''$brisk_device'' else '''') @
     (if cs_vary_country cs then ''$brisk_country'' else '''') @
     (let c = sanitizeToken (cs_vary_cookie cs) in if c \<noteq> '''' then ''$cookie_'' @ c else '''') @
     concat (map (\<lambda>h. ''$http_'' @ headerVar h) (splitList (cs_vary_headers cs)))"

definition edge_valid :: "cache_settings \<Rightarrow> string \<Rightarrow> string" where
  "edge_valid cs dflt =
     (if cs_edge_mode cs = ''respect_origin'' then ''''
      else if cs_edge_mode cs = ''override'' \<and> trim_space (cs_edge_ttl cs) \<noteq> ''''
           then ''200 301 302 '' @ trim_space (cs_edge_ttl cs)
      else dflt)"

definition cacheRenderFor :: "cache_settings option \<Rightarrow> cache_render" where
  "cacheRenderFor s =
     (case s of
        None \<Rightarrow> defaultCacheRender
      | Some cs \<Rightarrow>
          (let static0 = edge_valid cs ''200 301 302 30d'';
               html0 = edge_valid cs ''200 301 302 10m'';
               html = (if cs_smart cs then static0 else html0);
               static = (if cs_large_object cs \<and> static0 \<noteq> '''' then with206 static0 else static0);
               nocache = (cs_edge_mode cs = ''no_cache'')
           in \<lparr>cx_static_key = defStaticKey @ vary_dims cs @ (if cs_vary_query cs then ''$is_args$args'' else '''') @
                               (if cs_large_object cs then ''$slice_range'' else ''''),
               cx_html_key = defHTMLKey @ vary_dims cs,
               cx_static_valid = static,
               cx_html_valid = html,
               cx_stale = staleFlags (cs_stale_offline cs) (cs_stale_updating cs),
               cx_static_ignore = (if cs_edge_mode cs = ''respect_origin'' then ''Set-Cookie Vary''
                                   else ''Set-Cookie Cache-Control Expires Vary''),
               cx_static_cc = browserCC cs defStaticCC static,
               cx_html_cc = browserCC cs '''' html,
               cx_errors = cs_cache_errors cs,
               cx_html_ignore = (if cs_smart cs then ''Set-Cookie Cache-Control Expires''
                                 else if cs_strip_cookies cs then ''Set-Cookie'' else ''''),
               cx_nocache_static = nocache, cx_nocache_html = nocache,
               cx_slice = cs_large_object cs,
               cx_webp_map = cs_vary_webp cs, cx_device_map = cs_vary_device cs\<rparr>))"


section \<open>Properties\<close>

text \<open>
  A zone whose cache settings are the control plane's defaults is rendered like one without
  settings, so the fleet does not change until a tenant changes a control.
\<close>

theorem default_settings_neutral: "cacheRenderFor (Some DefaultCacheSettings) = cacheRenderFor None"
  by (simp add: cacheRenderFor_def DefaultCacheSettings_def defaultCacheRender_def vary_dims_def edge_valid_def staleFlags_def
      sanitizeToken_def splitList_def browserCC_def go_str)

subsection \<open>Keys\<close>

lemma name_char_lower: "name_char c \<Longrightarrow> name_char (lower_char c)"
proof (cases "is_upper c")
  case True
  then have "65 \<le> (of_char c :: nat)" "(of_char c :: nat) \<le> 90" by (auto simp: is_upper_def Let_def)
  then have "is_lower (lower_char c)" by (simp add: lower_char_def is_lower_def Let_def of_char_of)
  then show ?thesis by (simp add: name_char_def)
next
  case False
  then have "lower_char c = c" by (auto simp: lower_char_def is_upper_def Let_def)
  moreover assume "name_char c"
  ultimately show ?thesis by simp
qed

definition key_char :: "char \<Rightarrow> bool" where
  "key_char c = (name_char c \<or> c = CHR ''$'')"

lemma sanitize_chars: "c \<in> set (sanitizeToken s) \<Longrightarrow> name_char c"
  by (simp add: sanitizeToken_def)

lemma headerVar_chars: "c \<in> set (headerVar h) \<Longrightarrow> name_char c"
proof -
  assume "c \<in> set (headerVar h)"
  then obtain d where "c = lower_char (if d = CHR ''-'' then CHR ''_'' else d)" "d \<in> set (sanitizeToken h)"
    by (auto simp: headerVar_def to_lower_def)
  moreover have "name_char (CHR ''_'')" by (simp add: name_char_def)
  ultimately show ?thesis using name_char_lower sanitize_chars by (metis (full_types))
qed

lemma key_literals:
  "list_all key_char ''$brisk_webp''" "list_all key_char ''$brisk_device''" "list_all key_char ''$brisk_country''"
  "list_all key_char ''$cookie_''" "list_all key_char ''$http_''" "list_all key_char ''$is_args$args''"
  "list_all key_char ''$slice_range''" "list_all key_char defStaticKey" "list_all key_char defHTMLKey"
  by code_simp+

lemma list_all_sanitize: "list_all key_char (sanitizeToken s)" "list_all key_char (headerVar h)"
  using sanitize_chars headerVar_chars by (auto simp: list_all_iff key_char_def)

lemma list_all_if: "list_all P (if b then xs else []) = (b \<longrightarrow> list_all P xs)"
  by simp

lemma vary_dims_chars: "list_all key_char (vary_dims cs)"
proof -
  have "list_all key_char (concat (map (\<lambda>h. ''$http_'' @ headerVar h) hs))" for hs
    by (induction hs) (simp_all only: list.map concat.simps list_all_append list_all_sanitize key_literals list.pred_inject(1) simp_thms)
  then show ?thesis unfolding vary_dims_def Let_def
    by (simp only: list_all_append key_literals list_all_sanitize list_all_if simp_thms)
qed

lemma vary_dims_start: "vary_dims cs = [] \<or> hd (vary_dims cs) = CHR ''$''"
proof -
  have "concat (map (\<lambda>h. ''$http_'' @ headerVar h) hs) = [] \<or> hd (concat (map (\<lambda>h. ''$http_'' @ headerVar h) hs)) = CHR ''$''" for hs
    by (cases hs) auto
  then show ?thesis by (auto simp: vary_dims_def Let_def)
qed

definition dims_of :: "string \<Rightarrow> bool" where
  "dims_of d = (d = [] \<or> hd d = CHR ''$'')"

lemma dims_append: "dims_of a \<Longrightarrow> dims_of b \<Longrightarrow> dims_of (a @ b)"
  by (cases a) (auto simp: dims_of_def)

lemma static_key_form: "\<exists>d. cx_static_key (cacheRenderFor s) = defStaticKey @ d \<and> dims_of d"
proof (cases s)
  case None
  then show ?thesis by (simp add: cacheRenderFor_def defaultCacheRender_def dims_of_def)
next
  case (Some cs)
  let ?d = "vary_dims cs @ (if cs_vary_query cs then ''$is_args$args'' else '''') @ (if cs_large_object cs then ''$slice_range'' else '''')"
  have "dims_of ?d" by (intro dims_append) (use vary_dims_start in \<open>auto simp: dims_of_def\<close>)
  moreover have "cx_static_key (cacheRenderFor s) = defStaticKey @ ?d" by (simp add: Some cacheRenderFor_def Let_def)
  ultimately show ?thesis by blast
qed

lemma html_key_form: "\<exists>d. cx_html_key (cacheRenderFor s) = defHTMLKey @ d \<and> dims_of d"
  using vary_dims_start by (cases s) (auto simp: cacheRenderFor_def defaultCacheRender_def dims_of_def Let_def)

text \<open>
  How nginx reads a variable in a key is its documented rule: a \<open>$\<close> and the name, up to the next
  \<open>$\<close>, stand for the value of the variable.
\<close>

definition expands :: "((string \<Rightarrow> string) \<Rightarrow> string \<Rightarrow> string) \<Rightarrow> bool" where
  "expands expand \<longleftrightarrow>
     (\<forall>env v rest. v \<in> {''host'', ''uri'', ''request_uri''} \<longrightarrow> dims_of rest \<longrightarrow>
        expand env (CHR ''$'' # v @ rest) = env v @ expand env rest)"

definition request_vars :: "(string \<Rightarrow> string) \<Rightarrow> bool" where
  "request_vars env \<longleftrightarrow>
     CHR ''/'' \<notin> set (env ''host'') \<and> (\<exists>p. env ''uri'' = CHR ''/'' # p) \<and> (\<exists>p. env ''request_uri'' = CHR ''/'' # p)"

lemma key_value:
  assumes "expands expand" "request_vars env" "key \<in> {cx_static_key (cacheRenderFor s), cx_html_key (cacheRenderFor s)}"
  shows "\<exists>r. expand env key = env ''host'' @ CHR ''/'' # r"
proof -
  obtain v d where k: "key = CHR ''$'' # ''host'' @ (CHR ''$'' # v @ d)" "v \<in> {''uri'', ''request_uri''}" "dims_of d"
  proof (cases "key = cx_static_key (cacheRenderFor s)")
    case True
    obtain d where "key = defStaticKey @ d" "dims_of d" using static_key_form [of s] True by blast
    then show thesis using that [of "''uri''" d] by (simp add: defStaticKey_def)
  next
    case False
    then obtain d where "key = defHTMLKey @ d" "dims_of d" using html_key_form [of s] assms(3) by blast
    then show thesis using that [of "''request_uri''" d] by (simp add: defHTMLKey_def)
  qed
  have "dims_of (CHR ''$'' # v @ d)" by (simp add: dims_of_def)
  then have "expand env key = env ''host'' @ expand env (CHR ''$'' # v @ d)"
    using assms(1) unfolding k(1) expands_def by blast
  also have "expand env (CHR ''$'' # v @ d) = env v @ expand env d"
    using assms(1) k(2,3) unfolding expands_def by blast
  finally show ?thesis using assms(2) k(2) by (auto simp: request_vars_def)
qed

lemma upto_slash: "CHR ''/'' \<notin> set a \<Longrightarrow> takeWhile (\<lambda>c. c \<noteq> CHR ''/'') (a @ CHR ''/'' # r) = a"
  by (induction a) auto

lemma host_unique:
  assumes "CHR ''/'' \<notin> set a" "CHR ''/'' \<notin> set b" "a @ CHR ''/'' # r = b @ CHR ''/'' # r'"
  shows "a = b"
  using upto_slash [OF assms(1), of r] upto_slash [OF assms(2), of r'] assms(3) by simp

text \<open>
  C31: Tenant isolation. Whatever two zones vary their caches on, static or dynamic, requests for
  different hosts never have the same cache key.
\<close>

theorem tenants_never_share:
  assumes "expands expand" "request_vars e1" "request_vars e2" "e1 ''host'' \<noteq> e2 ''host''"
    and "k1 \<in> {cx_static_key (cacheRenderFor s1), cx_html_key (cacheRenderFor s1)}"
    and "k2 \<in> {cx_static_key (cacheRenderFor s2), cx_html_key (cacheRenderFor s2)}"
  shows "expand e1 k1 \<noteq> expand e2 k2"
proof
  assume eq: "expand e1 k1 = expand e2 k2"
  obtain r1 where "expand e1 k1 = e1 ''host'' @ CHR ''/'' # r1" using key_value [OF assms(1,2,5)] by blast
  moreover obtain r2 where "expand e2 k2 = e2 ''host'' @ CHR ''/'' # r2" using key_value [OF assms(1,3,6)] by blast
  ultimately have "e1 ''host'' @ CHR ''/'' # r1 = e2 ''host'' @ CHR ''/'' # r2" using eq by simp
  then show False using host_unique assms(2-4) unfolding request_vars_def by blast
qed


text \<open>A reader of variables that follows the rule, and two requests.\<close>

function demo_expand :: "(string \<Rightarrow> string) \<Rightarrow> string \<Rightarrow> string" where
  "demo_expand env [] = []"
| "demo_expand env (c # cs) =
     (if c = CHR ''$''
      then env (takeWhile (\<lambda>x. x \<noteq> CHR ''$'') cs) @ demo_expand env (dropWhile (\<lambda>x. x \<noteq> CHR ''$'') cs)
      else c # demo_expand env cs)"
  by pat_completeness auto

termination demo_expand
  by (relation "measure (\<lambda>(env, s). length s)") (auto simp: le_imp_less_Suc length_dropWhile_le)

lemma demo_expands: "expands demo_expand"
proof -
  have name: "takeWhile (\<lambda>x. x \<noteq> CHR ''$'') (v @ rest) = v \<and> dropWhile (\<lambda>x. x \<noteq> CHR ''$'') (v @ rest) = rest"
    if "v \<in> {''host'', ''uri'', ''request_uri''}" "dims_of rest" for v rest
    using that by (cases rest) (auto simp: dims_of_def)
  show ?thesis unfolding expands_def using name by auto
qed

definition demo_request :: "string \<Rightarrow> string \<Rightarrow> string \<Rightarrow> string \<Rightarrow> string" where
  "demo_request h u x v =
     (if v = ''host'' then h else if v = ''uri'' \<or> v = ''request_uri'' then u else if v = ''http_x'' then x else '''')"

lemma tenants_never_share_witness:
  "demo_expand (demo_request ''a.com'' ''/x'' '''') (cx_static_key (cacheRenderFor None)) \<noteq>
   demo_expand (demo_request ''b.com'' ''/x'' '''') (cx_html_key (cacheRenderFor (Some DefaultCacheSettings)))"
  by (rule tenants_never_share [OF demo_expands, where ?s1.0 = None and ?s2.0 = "Some DefaultCacheSettings"])
     (simp_all add: request_vars_def demo_request_def)

lemma index_str_append: "index_str p t = Some i \<Longrightarrow> \<exists>j. index_str p (s @ t) = Some j"
proof (induction s)
  case (Cons c s)
  then obtain j where "index_str p (s @ t) = Some j" by blast
  then show ?case by simp
qed simp

lemma with206_has: "contains_str ('' '' @ with206 (''200 301 302 '' @ t) @ '' '') '' 206 ''"
proof (cases "contains_str ('' '' @ (''200 301 302 '' @ t) @ '' '') '' 206 ''")
  case True
  then show ?thesis by (simp add: with206_def)
next
  case False
  then have "with206 (''200 301 302 '' @ t) = ''200 206 301 302 '' @ t"
    by (simp add: with206_def replace_once_def has_prefix_def)
  then show ?thesis by (simp add: contains_str_def has_prefix_def)
qed

lemma edge_valid_form:
  "edge_valid cs (''200 301 302 '' @ d) = [] \<or> (\<exists>t. edge_valid cs (''200 301 302 '' @ d) = ''200 301 302 '' @ t)"
  by (auto simp: edge_valid_def)

lemma suffix_has: "has_suffix (a @ b) b"
  by (simp add: has_suffix_def)

text \<open>
  C34: Rendered keys are safe and slices consistent. No vary list, cookie or header name puts a
  character into a key that could end or quote an nginx argument; and a location is sliced
  only with the slice range in its key and 206 among its cacheable statuses, unless the origin
  decides on validity.
\<close>

theorem keys_and_slices:
  "list_all key_char (cx_static_key (cacheRenderFor s)) \<and> list_all key_char (cx_html_key (cacheRenderFor s)) \<and>
   (cx_slice (cacheRenderFor s) \<longrightarrow>
      has_suffix (cx_static_key (cacheRenderFor s)) ''$slice_range'' \<and>
      (cx_static_valid (cacheRenderFor s) = '''' \<or> contains_str ('' '' @ cx_static_valid (cacheRenderFor s) @ '' '') '' 206 ''))"
proof (cases s)
  case None
  then show ?thesis
    by (simp only: cacheRenderFor_def defaultCacheRender_def cache_render.simps option.case key_literals simp_thms)
next
  case (Some cs)
  have k: "cx_static_key (cacheRenderFor s) = (defStaticKey @ vary_dims cs @ (if cs_vary_query cs then ''$is_args$args'' else [])) @
       (if cs_large_object cs then ''$slice_range'' else [])"
    and h: "cx_html_key (cacheRenderFor s) = defHTMLKey @ vary_dims cs" by (simp_all add: Some cacheRenderFor_def Let_def)
  have "list_all key_char (cx_static_key (cacheRenderFor s)) \<and> list_all key_char (cx_html_key (cacheRenderFor s))"
    unfolding k h by (simp only: list_all_append list_all_if key_literals vary_dims_chars simp_thms)
  moreover have "has_suffix (cx_static_key (cacheRenderFor s)) ''$slice_range''" if "cx_slice (cacheRenderFor s)"
  proof -
    have c: "cs_large_object cs" using that by (simp add: Some cacheRenderFor_def Let_def)
    show ?thesis unfolding k if_P [OF c] by (rule suffix_has)
  qed
  moreover have "cx_static_valid (cacheRenderFor s) = '''' \<or> contains_str ('' '' @ cx_static_valid (cacheRenderFor s) @ '' '') '' 206 ''"
    if c: "cx_slice (cacheRenderFor s)"
  proof -
    let ?v = "edge_valid cs (''200 301 302 '' @ ''30d'')"
    have e: "cx_static_valid (cacheRenderFor s) = (if ?v = [] then [] else with206 ?v)"
      using c by (simp add: Some cacheRenderFor_def Let_def)
    from edge_valid_form [of cs "''30d''"] show ?thesis
    proof
      assume "?v = []" then show ?thesis unfolding e by simp
    next
      assume "\<exists>t. ?v = ''200 301 302 '' @ t"
      then obtain t where t: "?v = ''200 301 302 '' @ t" ..
      have ne: "''200 301 302 '' @ t \<noteq> []" by simp
      show ?thesis unfolding e t if_not_P [OF ne] by (rule disjI2) (rule with206_has)
    qed
  qed
  ultimately show ?thesis by blast
qed

lemma keys_and_slices_witness:
  "let cs = DefaultCacheSettings\<lparr>cs_large_object := True\<rparr> in has_suffix (cx_static_key (cacheRenderFor (Some cs))) ''$slice_range''"
proof -
  have "cx_slice (cacheRenderFor (Some (DefaultCacheSettings\<lparr>cs_large_object := True\<rparr>)))"
    by (simp add: cacheRenderFor_def Let_def)
  then show ?thesis unfolding Let_def
    using keys_and_slices [THEN conjunct2, THEN conjunct2, THEN mp] by blast
qed


subsection \<open>TTLs\<close>

definition ttl_text :: "nat \<Rightarrow> char \<Rightarrow> string" where
  "ttl_text n u = show_nat n @ [u]"

lemma unit_letter: "unit_mult u = Some k \<Longrightarrow> \<not> is_space u \<and> 0 < k"
  by (auto simp: unit_mult_def is_space_def split: if_splits)

lemma trim_ttl: "unit_mult u = Some k \<Longrightarrow> trim_space (ttl_text n u) = ttl_text n u"
  using unit_letter [of u k] by (simp add: trim_space_def ttl_text_def dropWhile_digits)

lemma ttl_seconds:
  assumes "unit_mult u = Some k" "int n * k < 2 ^ 63"
  shows "cacheTTLToSeconds (ttl_text n u) = int n * k"
proof -
  have "1 \<le> k" using unit_letter [OF assms(1)] by simp
  then have "int n \<le> int n * k" by (simp add: mult_le_cancel_left1)
  then have n: "int n < 2 ^ 63" using assms(2) by linarith
  have "cacheTTLToSeconds (ttl_text n u) = wrap64 (int n * k)"
    unfolding cacheTTLToSeconds_def Let_def trim_ttl [OF assms(1)]
    using assms(1) parse_int_show_nat [OF n] by (simp add: ttl_text_def)
  also have "\<dots> = int n * k"
    using assms(2) \<open>int n \<le> int n * k\<close> by (intro wrap64_id) linarith+
  finally show ?thesis .
qed

lemma fields_word: "list_all (\<lambda>c. \<not> is_space c) t \<Longrightarrow> cur @ t \<noteq> [] \<Longrightarrow> fields_acc cur t = [cur @ t]"
  by (induction t arbitrary: cur) auto

lemma ttl_word: "unit_mult u = Some k \<Longrightarrow> list_all (\<lambda>c. \<not> is_space c) (ttl_text n u)"
proof -
  assume u: "unit_mult u = Some k"
  have "\<not> is_space c" if "c \<in> set (show_nat n)" for c
    using show_nat_digits [OF that] by (auto simp: is_digit_def is_space_def Let_def)
  then show ?thesis using unit_letter [OF u] by (simp add: ttl_text_def list_all_iff)
qed

lemma last_ttl:
  assumes "unit_mult u = Some k"
  shows "lastToken (''200 301 302 '' @ ttl_text n u) = ttl_text n u"
    "lastToken (''200 206 301 302 '' @ ttl_text n u) = ttl_text n u"
  using fields_word [OF ttl_word [OF assms], of "[]" n]
  by (simp_all add: lastToken_def Prelude.fields_def is_space_def ttl_text_def)

lemma last_ttl_206: "unit_mult u = Some k \<Longrightarrow> lastToken (with206 (''200 301 302 '' @ ttl_text n u)) = ttl_text n u"
  using last_ttl [of u k n] by (simp add: with206_def replace_once_def has_prefix_def)

lemma ttl_text_ne [simp]: "ttl_text n u \<noteq> []"
  by (simp add: ttl_text_def)

text \<open>
  TTLs are carried over exactly. A browser TTL of \<open>n\<close> units that fits 64 bits of seconds is
  sent as \<open>max-age\<close> with that many seconds on static and dynamic content; and a browser that is to
  match the server gets the edge's override TTL, sliced or not, smart or not.
\<close>

theorem browser_ttl_exact:
  assumes "unit_mult u = Some k" "0 < n" "int n * k < 2 ^ 63"
    and "cs_browser_mode cs = ''override'' \<and> cs_browser_ttl cs = ttl_text n u \<or>
         cs_browser_mode cs = ''match_server'' \<and> cs_edge_mode cs = ''override'' \<and> cs_edge_ttl cs = ttl_text n u"
  shows "cx_static_cc (cacheRenderFor (Some cs)) = ''public, max-age='' @ show_int (int n * k) \<and>
         cx_html_cc (cacheRenderFor (Some cs)) = ''public, max-age='' @ show_int (int n * k)"
proof -
  let ?r = "cacheRenderFor (Some cs)"
  have pos: "0 < int n * k" using unit_letter [OF assms(1)] assms(2) by simp
  have cc: "browserCC cs fb v = ''public, max-age='' @ show_int (int n * k)"
    if "cs_browser_mode cs = ''override'' \<and> cs_browser_ttl cs = ttl_text n u \<or>
        cs_browser_mode cs = ''match_server'' \<and> lastToken v = ttl_text n u" for fb v
    using that pos trim_ttl [OF assms(1), of n] ttl_seconds [OF assms(1,3)] by (auto simp: browserCC_def Let_def)
  have last: "lastToken (cx_static_valid ?r) = ttl_text n u \<and> lastToken (cx_html_valid ?r) = ttl_text n u"
    if "cs_edge_mode cs = ''override''" "cs_edge_ttl cs = ttl_text n u"
  proof -
    have e: "edge_valid cs d = ''200 301 302 '' @ ttl_text n u" for d
      using that trim_ttl [OF assms(1), of n] by (simp add: edge_valid_def)
    have ne: "''200 301 302 '' @ ttl_text n u \<noteq> ''''" by simp
    have "cx_static_valid ?r = (if cs_large_object cs then with206 (''200 301 302 '' @ ttl_text n u) else ''200 301 302 '' @ ttl_text n u)"
      unfolding cacheRenderFor_def option.case Let_def e cache_render.simps using ne by (simp only: simp_thms)
    moreover have "cx_html_valid ?r = ''200 301 302 '' @ ttl_text n u"
      unfolding cacheRenderFor_def option.case Let_def e cache_render.simps by (simp only: if_cancel)
    ultimately show ?thesis
      using last_ttl(1) [OF assms(1), of n] last_ttl_206 [OF assms(1), of n] by (cases "cs_large_object cs") (simp_all only: if_True if_False)
  qed
  have "cx_static_cc ?r = browserCC cs defStaticCC (cx_static_valid ?r)" "cx_html_cc ?r = browserCC cs '''' (cx_html_valid ?r)"
    by (simp_all only: cacheRenderFor_def option.case Let_def cache_render.simps)
  then show ?thesis using cc last assms(4) by metis
qed

lemma browser_ttl_exact_witness:
  "cx_static_cc (cacheRenderFor (Some (DefaultCacheSettings\<lparr>cs_browser_mode := ''override'', cs_browser_ttl := ttl_text 90 (CHR ''m'')\<rparr>))) =
   ''public, max-age='' @ show_int (int 90 * 60)"
  by (rule browser_ttl_exact [THEN conjunct1]) (simp_all add: unit_mult_def)

text \<open>
  What modelling showed. The control plane accepts an override of 500 milliseconds or of zero
  seconds; both fall back to the thirty days of the default. And the parts of a key are put
  together without a separator: with a vary header, the content of one page can be stored
  under the key of another one of the same host, which a client can provoke.
\<close>

lemma short_ttl_becomes_default:
  "list_all (\<lambda>t. cx_static_cc (cacheRenderFor (Some (DefaultCacheSettings\<lparr>cs_browser_mode := ''override'', cs_browser_ttl := t\<rparr>))) = defStaticCC)
     [''500ms'', ''0s'']"
  by code_simp

lemma vary_keys_collide:
  "let key = cx_static_key (cacheRenderFor (Some (DefaultCacheSettings\<lparr>cs_vary_headers := ''X''\<rparr>)))
   in demo_expand (demo_request ''h'' ''/a'' ''bc'') key = demo_expand (demo_request ''h'' ''/ab'' ''c'') key"
  by code_simp

end
