(* ===== verification/NginxRender.thy ===== *)
theory NginxRender
  imports CacheRender
begin

section \<open>The data of the nginx configuration\<close>

text \<open>
  \<open>brisk-agent/nginx/nginx.go\<close>: what \<open>buildRenderData\<close> hands to the templates, and the Lua table of
  \<open>renderLuaData\<close>. The templates only print these values. Domains are taken to be free of slashes
  and not to be \<open>.\<close> or \<open>..\<close>, so that \<open>filepath.Join\<close> is concatenation; request counts are far
  below the range of 64 bits.
\<close>

subsection \<open>Names, rates, headers\<close>

definition upstreamSlug :: "string \<Rightarrow> string" where
  "upstreamSlug d = map (\<lambda>c. if c = CHR ''.'' \<or> c = CHR ''-'' \<or> c = CHR '':'' then CHR ''_'' else c) d"

definition wp_limit :: rate_limit where
  "wp_limit =
     \<lparr>rl_id = 0, rl_path = ''/wp-login.php'', rl_match = ''exact'', rl_requests = 5, rl_period = 60, rl_burst = 4,
      rl_key = ''ip'', rl_action = ''block'', rl_count_mode = '''', rl_enabled = True\<rparr>"

definition zoneRateLimits :: "agent_zone \<Rightarrow> rate_limit list" where
  "zoneRateLimits z =
     (case zn_waf z of
        None \<Rightarrow> []
      | Some w \<Rightarrow> (if zw_wp_preset w then [wp_limit] else []) @ filter rl_enabled (zw_limits w))"

definition zoneErrorsOnlyLimits :: "agent_zone \<Rightarrow> rate_limit list" where
  "zoneErrorsOnlyLimits z =
     (case zn_waf z of
        None \<Rightarrow> []
      | Some w \<Rightarrow> filter (\<lambda>r. rl_enabled r \<and> rl_count_mode r = ''errors_only'') (zw_limits w))"

definition originPullHeader :: "agent_config \<Rightarrow> string" where
  "originPullHeader c =
     (if trim_space (ac_pull_secret c) = '''' then ''''
      else if trim_space (ac_pull_header c) \<noteq> '''' then trim_space (ac_pull_header c)
      else ''X-Brisk-Pull-Token'')"

definition nginxRate :: "int \<Rightarrow> int \<Rightarrow> string" where
  "nginxRate requests period =
     (let requests = (if requests \<le> 0 then 1 else requests);
          period = (if period \<le> 0 then 1 else period);
          perMin = requests * 60
      in if perMin mod period = 0
         then (let rpm = perMin div period
               in if rpm \<ge> 60 \<and> rpm mod 60 = 0 then show_int (rpm div 60) @ ''r/s'' else show_int rpm @ ''r/m'')
         else (let rpm = (perMin + period - 1) div period;
                   rpm = (if rpm < 1 then 1 else rpm)
               in show_int rpm @ ''r/m''))"

definition hotlinkRenderFor :: "hotlink option \<Rightarrow> bool \<times> string" where
  "hotlinkRenderFor h =
     (case h of
        None \<Rightarrow> (False, '''')
      | Some h \<Rightarrow>
          (True, join '' '' ((if hl_allow_empty h then [''none'', ''blocked''] else []) @ [''server_names''] @ splitList (hl_referrers h))))"

text \<open>\<open>http2OnSupported\<close> on the version numbers found in the output of \<open>nginx -v\<close>, if any.\<close>

definition http2OnSupported :: "(int \<times> int \<times> int) option \<Rightarrow> bool" where
  "http2OnSupported v =
     (case v of
        None \<Rightarrow> False
      | Some (major, minor, patch) \<Rightarrow>
          if major \<noteq> 1 then major > 1 else if minor \<noteq> 25 then minor > 25 else patch \<ge> 1)"

subsection \<open>Certificate paths\<close>

record cert_paths =
  cp_dir :: string
  cp_chain :: string
  cp_key :: string

definition Paths :: "string \<Rightarrow> string \<Rightarrow> cert_paths" where
  "Paths base domain =
     (let dir = base @ ''/'' @ domain
      in \<lparr>cp_dir = dir, cp_chain = dir @ ''/fullchain.pem'', cp_key = dir @ ''/privkey.pem''\<rparr>)"

definition DefaultBaseDir :: string where "DefaultBaseDir = ''/etc/brisk/tls''"

subsection \<open>Render data\<close>

record limit_zone =
  lz_name :: string
  lz_key :: string
  lz_rate :: string

record shield_upstream =
  su_name :: string
  su_server :: string

record limit_location =
  ll_matcher :: string
  ll_zone :: string
  ll_burst :: int
  ll_path :: string
  ll_requests :: int
  ll_period :: int
  ll_key :: string

record zone_render =
  zx_edge :: string
  zx_domain :: string
  zx_upstream :: string
  zx_scheme :: string
  zx_host_port :: string
  zx_origin_host :: string
  zx_upstream_host :: string
  zx_video :: bool
  zx_playlist :: string
  zx_segment :: string
  zx_cors :: string
  zx_min_uses :: int
  zx_cert :: string
  zx_cert_key :: string
  zx_http2 :: bool
  zx_acme :: string
  zx_shielded :: bool
  zx_shield :: string
  zx_shield_name :: string
  zx_resolver :: string
  zx_pull_header :: string
  zx_pull_secret :: string
  zx_waf :: bool
  zx_waf_open :: bool
  zx_waf_upstream :: string
  zx_limits :: "limit_location list"
  zx_lua :: bool
  zx_brisk_zone :: string
  zx_lua_limit :: bool
  zx_cache :: cache_render
  zx_protect :: bool
  zx_max_conn :: int
  zx_rate :: int
  zx_burst :: int
  zx_hotlink :: bool
  zx_referers :: string
  zx_ssl_verify :: bool
  zx_forward_host :: bool
  zx_follow :: bool
  zx_err_on :: bool
  zx_err_path :: string
  zx_blocked :: "string list"
  zx_block_root :: bool
  zx_block_post :: bool

record render_data =
  rd_edge :: string
  rd_cache_dir :: string
  rd_cache_max :: string
  rd_tickets :: bool
  rd_brotli :: int
  rd_http2 :: bool
  rd_cert :: string
  rd_key :: string
  rd_acme :: string
  rd_limit_zones :: "limit_zone list"
  rd_shields :: "shield_upstream list"
  rd_lua :: bool
  rd_geoip :: bool
  rd_webp :: bool
  rd_device :: bool
  rd_protect :: bool
  rd_max_conn :: int
  rd_rate :: int
  rd_burst :: int
  rd_zones :: "zone_render list"

text \<open>The loop over the rate limits of a zone: errors-only limits are left to Lua.\<close>

fun render_limits :: "string \<Rightarrow> nat \<Rightarrow> rate_limit list \<Rightarrow> limit_location list \<times> limit_zone list \<times> bool" where
  "render_limits slug i [] = ([], [], False)"
| "render_limits slug i (r # rs) =
     (let (ls, zs, eo) = render_limits slug (i + 1) rs in
      if rl_count_mode r = ''errors_only'' then (ls, zs, True)
      else
        (let name = ''brisk_rl_'' @ slug @ ''_'' @ show_nat i;
             key = (if rl_key r = ''ip_path'' then ''$binary_remote_addr$uri'' else ''$binary_remote_addr'');
             burst = (if rl_burst r \<le> 0 then (let b = rl_requests r - 1 in if b < 0 then 0 else b) else rl_burst r);
             matcher = (if rl_match r = ''prefix'' then ''^~ '' else ''= '') @ rl_path r
         in (\<lparr>ll_matcher = matcher, ll_zone = name, ll_burst = burst, ll_path = rl_path r, ll_requests = rl_requests r,
              ll_period = rl_period r, ll_key = rl_key r\<rparr> # ls,
             \<lparr>lz_name = name, lz_key = key, lz_rate = nginxRate (rl_requests r) (rl_period r)\<rparr> # zs, eo)))"

definition host_of :: "string \<Rightarrow> string" where
  "host_of hp = (case last_index_byte (CHR '':'') hp of Some i \<Rightarrow> take i hp | None \<Rightarrow> hp)"

definition shield_name :: "agent_zone \<Rightarrow> string" where
  "shield_name z = (if zn_shield z \<noteq> '''' then ''brisk_shield_'' @ upstreamSlug (zn_shield z) else '''')"

definition error_page_path :: "agent_zone \<Rightarrow> string" where
  "error_page_path z =
     (if trim_space (zn_error_html z) \<noteq> '''' then ''/etc/brisk/errorpages/'' @ upstreamSlug (zn_domain z) @ ''.html'' else '''')"

definition render_zone ::
  "agent_config \<Rightarrow> bool \<Rightarrow> bool \<Rightarrow> agent_zone \<Rightarrow> string \<times> string \<Rightarrow> zone_render \<times> limit_zone list" where
  "render_zone cfg http2 lua z origin =
     (let (scheme, hostPort) = origin;
          certs = Paths DefaultBaseDir (zn_domain z);
          originHost = host_of hostPort;
          wafEnabled = (case zn_waf z of None \<Rightarrow> False | Some w \<Rightarrow> zw_enabled w);
          (rls, lzs, errorsOnly) = (if wafEnabled then render_limits (upstreamSlug (zn_domain z)) 0 (zoneRateLimits z) else ([], [], False));
          (hotOn, hotRef) = hotlinkRenderFor (zn_hotlink z)
      in (\<lparr>zx_edge = ac_edge_id cfg, zx_domain = zn_domain z,
           zx_upstream = ''brisk_origin_'' @ upstreamSlug (zn_domain z),
           zx_scheme = scheme, zx_host_port = hostPort, zx_origin_host = originHost,
           zx_upstream_host = (if zn_host_header z = '''' then originHost else zn_host_header z),
           zx_video = zn_video z, zx_playlist = zn_playlist_ttl z, zx_segment = zn_segment_ttl z, zx_cors = zn_cors z,
           zx_min_uses = zn_min_uses z, zx_cert = cp_chain certs, zx_cert_key = cp_key certs, zx_http2 = http2, zx_acme = ac_url cfg,
           zx_shielded = (zn_shield z \<noteq> ''''), zx_shield = zn_shield z, zx_shield_name = shield_name z,
           zx_resolver = ac_resolver cfg, zx_pull_header = originPullHeader cfg, zx_pull_secret = ac_pull_secret cfg,
           zx_waf = wafEnabled,
           zx_waf_open = (case zn_waf z of None \<Rightarrow> False | Some w \<Rightarrow> zw_enabled w \<and> zw_fail_open w),
           zx_waf_upstream = (if trim_space (ac_waf_listen cfg) = '''' then ''127.0.0.1:9555'' else ac_waf_listen cfg),
           zx_limits = rls,
           zx_lua = (lua \<and> (zn_rules z \<noteq> [] \<or> zn_transforms z \<noteq> [] \<or> errorsOnly)),
           zx_brisk_zone = zn_domain z, zx_lua_limit = (lua \<and> errorsOnly), zx_cache = cacheRenderFor (zn_cache z),
           zx_protect = ac_protect cfg, zx_max_conn = ac_max_conn cfg, zx_rate = ac_req_rate cfg, zx_burst = ac_req_burst cfg,
           zx_hotlink = hotOn, zx_referers = hotRef, zx_ssl_verify = zn_ssl_verify z, zx_forward_host = zn_forward_host z,
           zx_follow = zn_follow z, zx_err_on = (trim_space (zn_error_html z) \<noteq> ''''), zx_err_path = error_page_path z,
           zx_blocked = splitList (zn_blocked_ips z), zx_block_root = zn_block_root z, zx_block_post = zn_block_post z\<rparr>,
          lzs))"

text \<open>The loop over the zones; \<open>seen\<close> is \<open>shieldByName\<close>. The first bad origin is the error.\<close>

fun render_zones ::
  "url_parser \<Rightarrow> agent_config \<Rightarrow> bool \<Rightarrow> bool \<Rightarrow> string list \<Rightarrow> agent_zone list \<Rightarrow>
   (string \<times> zone_error) + (zone_render list \<times> limit_zone list \<times> shield_upstream list)" where
  "render_zones parse cfg http2 lua seen [] = Inr ([], [], [])"
| "render_zones parse cfg http2 lua seen (z # zs) =
     (case OriginParts parse z of
        Inl e \<Rightarrow> Inl (zn_domain z, e)
      | Inr origin \<Rightarrow>
          (let (zr, lzs) = render_zone cfg http2 lua z origin;
               new = (zn_shield z \<noteq> '''' \<and> shield_name z \<notin> set seen)
           in case render_zones parse cfg http2 lua (if new then shield_name z # seen else seen) zs of
                Inl e \<Rightarrow> Inl e
              | Inr (zrs, more_lzs, sus) \<Rightarrow>
                  Inr (zr # zrs, lzs @ more_lzs,
                       (if new then [\<lparr>su_name = shield_name z, su_server = zn_shield z\<rparr>] else []) @ sus)))"

definition buildRenderData ::
  "url_parser \<Rightarrow> agent_config \<Rightarrow> bool \<Rightarrow> bool \<Rightarrow> bool \<Rightarrow> (string \<times> zone_error) + render_data" where
  "buildRenderData parse cfg http2 lua geoip =
     (case render_zones parse cfg http2 lua [] (ac_zones cfg) of
        Inl e \<Rightarrow> Inl e
      | Inr (zrs, lzs, sus) \<Rightarrow>
          (let dc = (case ac_zones cfg of [] \<Rightarrow> \<lparr>cp_dir = '''', cp_chain = '''', cp_key = ''''\<rparr>
                     | z # _ \<Rightarrow> Paths DefaultBaseDir (zn_domain z))
           in Inr \<lparr>rd_edge = ac_edge_id cfg, rd_cache_dir = ac_cache_dir cfg, rd_cache_max = ac_cache_max cfg,
                   rd_tickets = SessionTicketsEnabled cfg, rd_brotli = ac_brotli cfg, rd_http2 = http2,
                   rd_cert = cp_chain dc, rd_key = cp_key dc, rd_acme = ac_url cfg,
                   rd_limit_zones = lzs, rd_shields = sus, rd_lua = lua, rd_geoip = geoip,
                   rd_webp = list_ex (\<lambda>z. cx_webp_map (cacheRenderFor (zn_cache z))) (ac_zones cfg),
                   rd_device = list_ex (\<lambda>z. cx_device_map (cacheRenderFor (zn_cache z))) (ac_zones cfg),
                   rd_protect = ac_protect cfg, rd_max_conn = ac_max_conn cfg, rd_rate = ac_req_rate cfg,
                   rd_burst = ac_req_burst cfg, rd_zones = zrs\<rparr>))"


subsection \<open>The Lua table\<close>

definition pad3 :: "nat \<Rightarrow> string" where
  "pad3 n = [char_of (48 + n div 100), char_of (48 + n div 10 mod 10), char_of (48 + n mod 10)]"

definition lua_char :: "char \<Rightarrow> string" where
  "lua_char c =
     (if c = CHR 0x5C then [CHR 0x5C, CHR 0x5C]
      else if c = CHR 0x22 then [CHR 0x5C, CHR 0x22]
      else if c = CHR 0x0A then [CHR 0x5C, CHR ''n'']
      else if c = CHR 0x0D then [CHR 0x5C, CHR ''r'']
      else if c = CHR 0x09 then [CHR 0x5C, CHR ''t'']
      else if (of_char c :: nat) < 0x20 then CHR 0x5C # pad3 (of_char c) else [c])"

definition luaStr :: "string \<Rightarrow> string" where
  "luaStr s = CHR 0x22 # concat (map lua_char s) @ [CHR 0x22]"

definition lua_ttlSeconds :: "string \<Rightarrow> string" where
  "lua_ttlSeconds s =
     (let t = trim_space s in
      if t = '''' then ''0''
      else
        (let (k, num) = (if last t = CHR ''s'' then (1, butlast t) else if last t = CHR ''m'' then (60, butlast t)
                         else if last t = CHR ''h'' then (3600, butlast t) else if last t = CHR ''d'' then (86400, butlast t)
                         else (1, t))
         in case parse_int (trim_space num) of
              None \<Rightarrow> ''0''
            | Some n \<Rightarrow> if n < 0 then ''0'' else show_int (wrap64 (n * k))))"

definition transformsForPhase :: "header_transform list \<Rightarrow> string \<Rightarrow> header_transform list" where
  "transformsForPhase ts phase = sort_key hx_priority (filter (\<lambda>t. hx_phase t = phase) ts)"

definition lua_nl :: string where "lua_nl = [CHR 0x0A]"

definition writeLuaTransforms :: "string \<Rightarrow> header_transform list \<Rightarrow> string" where
  "writeLuaTransforms key ts =
     (if ts = [] then ''''
      else ''    '' @ key @ '' = {'' @ lua_nl @
        concat (map (\<lambda>t. ''      { op='' @ luaStr (hx_op t) @ '', header='' @ luaStr (hx_header t) @ '', value='' @ luaStr (hx_value t) @
          '', match_type='' @ luaStr (if hx_match_type t = '''' then ''all'' else hx_match_type t) @
          '', match_value='' @ luaStr (hx_match_value t) @ '' },'' @ lua_nl) ts) @
        ''    },'' @ lua_nl)"

definition lua_limit :: "nat \<times> rate_limit \<Rightarrow> string" where
  "lua_limit p =
     (let (i, r) = p in
      ''      { id='' @ luaStr (show_nat i) @ '', path_match='' @ luaStr (rl_path r) @ '', match_type='' @ luaStr (rl_match r) @
      '', requests='' @ show_int (rl_requests r) @ '', period='' @ show_int (rl_period r) @
      '', key='' @ luaStr (if rl_key r = ''ip_path'' then ''ip_path'' else ''ip'') @ '' },'' @ lua_nl)"

definition lua_rule :: "cache_rule \<Rightarrow> string" where
  "lua_rule r =
     ''      { match_type='' @ luaStr (cr_match_type r) @ '', match_value='' @ luaStr (cr_match_value r) @ '', action='' @ luaStr (cr_action r) @
     '', action_value='' @ luaStr (if cr_action r = ''override_cache_ttl'' then lua_ttlSeconds (cr_value r) else cr_value r) @ '' },'' @ lua_nl"

definition lua_zone :: "agent_zone \<Rightarrow> string" where
  "lua_zone z =
     (let eo = zoneErrorsOnlyLimits z in
      if zn_rules z = [] \<and> zn_transforms z = [] \<and> eo = [] then ''''
      else ''  ['' @ luaStr (zn_domain z) @ ''] = {'' @ lua_nl @
        (if eo \<noteq> [] then ''    rate_limits = {'' @ lua_nl @ concat (map lua_limit (List.enumerate 0 eo)) @ ''    },'' @ lua_nl else '''') @
        (if zn_rules z \<noteq> []
         then ''    cache_rules = {'' @ lua_nl @ concat (map lua_rule (sort_key cr_priority (zn_rules z))) @ ''    },'' @ lua_nl
         else '''') @
        writeLuaTransforms ''req_headers'' (transformsForPhase (zn_transforms z) ''request'') @
        writeLuaTransforms ''resp_headers'' (transformsForPhase (zn_transforms z) ''response'') @
        ''  },'' @ lua_nl)"

definition renderLuaData :: "agent_zone list \<Rightarrow> string" where
  "renderLuaData zs =
     ''-- generated by brisk-agent '' @ [CHR 0xE2, CHR 0x80, CHR 0x94] @ '' DO NOT EDIT BY HAND (Phase 4 Step 5)'' @ lua_nl @
     ''return {'' @ lua_nl @ concat (map lua_zone zs) @ ''}'' @ lua_nl"

section \<open>Properties\<close>

subsection \<open>Strings survive Lua\<close>

text \<open>
  The reader of a quoted Lua string, for the escapes of the language reference that are in use
  (\<open>\ddd\<close> with three digits): it yields the string and the text after the closing quote.
\<close>

fun lua_body :: "string \<Rightarrow> (string \<times> string) option" where
  "lua_body [] = None"
| "lua_body (c # cs) =
     (if c = CHR 0x22 then Some ([], cs)
      else if c = CHR 0x0A \<or> c = CHR 0x0D then None
      else if c \<noteq> CHR 0x5C then map_option (\<lambda>(s, r). (c # s, r)) (lua_body cs)
      else (case cs of
              [] \<Rightarrow> None
            | d # ds \<Rightarrow>
                if d = CHR ''n'' then map_option (\<lambda>(s, r). (CHR 0x0A # s, r)) (lua_body ds)
                else if d = CHR ''r'' then map_option (\<lambda>(s, r). (CHR 0x0D # s, r)) (lua_body ds)
                else if d = CHR ''t'' then map_option (\<lambda>(s, r). (CHR 0x09 # s, r)) (lua_body ds)
                else if d = CHR 0x5C \<or> d = CHR 0x22 then map_option (\<lambda>(s, r). (d # s, r)) (lua_body ds)
                else (case ds of
                        e # f # rest \<Rightarrow>
                          (case parse_digits [d, e, f] of
                             Some n \<Rightarrow> if n < 256 then map_option (\<lambda>(s, r). (char_of n # s, r)) (lua_body rest) else None
                           | None \<Rightarrow> None)
                      | _ \<Rightarrow> None)))"

definition lua_unquote :: "string \<Rightarrow> (string \<times> string) option" where
  "lua_unquote t = (case t of c # cs \<Rightarrow> if c = CHR 0x22 then lua_body cs else None | [] \<Rightarrow> None)"

lemma pad3_char:
  assumes "n < 32"
  shows "\<exists>d e f. pad3 n = [d, e, f] \<and> parse_digits [d, e, f] = Some n \<and> d \<notin> {CHR ''n'', CHR ''r'', CHR ''t'', CHR 0x5C, CHR 0x22}"
proof -
  have d: "n div 100 < 10" "n div 10 mod 10 < 10" "n mod 10 < 10" using assms by auto
  have "parse_digits (pad3 n) = Some n"
    using d of_char_digit [OF d(1)] of_char_digit [OF d(2)] of_char_digit [OF d(3)] assms
      is_digit_char [OF d(1)] is_digit_char [OF d(2)] is_digit_char [OF d(3)]
    by (simp add: pad3_def parse_digits_def del: of_char_of)
  moreover have "char_of (48 :: nat) = CHR ''0''" by code_simp
  then have "char_of (48 + n div 100) = CHR ''0''" using assms by simp
  ultimately show ?thesis unfolding pad3_def by (intro exI conjI) (rule refl, assumption, simp)
qed

lemma lua_char_read: "lua_body (lua_char c @ rest) = map_option (\<lambda>(s, r). (c # s, r)) (lua_body rest)"
proof (cases "c \<in> {CHR 0x5C, CHR 0x22, CHR 0x0A, CHR 0x0D, CHR 0x09}")
  case True
  then show ?thesis by (auto simp: lua_char_def)
next
  case False
  show ?thesis
  proof (cases "(of_char c :: nat) < 0x20")
    case True
    then obtain d e f where p: "pad3 (of_char c) = [d, e, f]" "parse_digits [d, e, f] = Some (of_char c)"
      "d \<notin> {CHR ''n'', CHR ''r'', CHR ''t'', CHR 0x5C, CHR 0x22}" using pad3_char [of "of_char c"] by auto
    have "lua_char c = [CHR 0x5C, d, e, f]" using False True p(1) by (simp add: lua_char_def)
    then show ?thesis using p(2,3) True by simp
  next
    case False': False
    then have "lua_char c = [c]" using False by (simp add: lua_char_def)
    then show ?thesis using False by simp
  qed
qed

text \<open>
  C35: No tenant string breaks out of the Lua table. Whatever bytes a domain, rule, header or
  path holds, Lua reads its literal back as exactly that string and continues right after it.
\<close>

theorem luaStr_roundtrip: "lua_unquote (luaStr s @ rest) = Some (s, rest)"
proof -
  have "lua_body (concat (map lua_char s) @ CHR 0x22 # rest) = Some (s, rest)"
    by (induction s) (simp_all add: lua_char_read)
  then show ?thesis by (simp add: lua_unquote_def luaStr_def)
qed


subsection \<open>Every name is declared once\<close>

lemma limit_zones_of: "render_limits slug i rs = (ls, zs, eo) \<Longrightarrow> map ll_zone ls = map lz_name zs"
proof (induction rs arbitrary: i ls zs eo)
  case (Cons r rs)
  obtain ls' zs' eo' where r: "render_limits slug (i + 1) rs = (ls', zs', eo')" by (cases "render_limits slug (i + 1) rs")
  have "map ll_zone ls' = map lz_name zs'" by (rule Cons.IH [OF r])
  then show ?case using Cons.prems r by (auto simp: Let_def split: if_splits)
qed simp

definition limit_name :: "string \<Rightarrow> nat \<Rightarrow> string" where
  "limit_name slug i = ''brisk_rl_'' @ slug @ ''_'' @ show_nat i"

lemma upto_underscore: "list_all is_digit xs \<Longrightarrow> takeWhile is_digit (xs @ CHR ''_'' # t) = xs \<and> dropWhile is_digit (xs @ CHR ''_'' # t) = CHR ''_'' # t"
  by (induction xs) (simp_all add: is_digit_def)

lemma limit_name_inj: "limit_name s i = limit_name t j \<Longrightarrow> s = t \<and> i = j"
proof -
  have d: "list_all is_digit (rev (show_nat n))" for n using show_nat_digits by (auto simp: list_all_iff)
  have r: "rev (limit_name u n) = rev (show_nat n) @ CHR ''_'' # rev (''brisk_rl_'' @ u)" for u n by (simp add: limit_name_def)
  assume "limit_name s i = limit_name t j"
  then have eq: "rev (show_nat i) @ CHR ''_'' # rev (''brisk_rl_'' @ s) = rev (show_nat j) @ CHR ''_'' # rev (''brisk_rl_'' @ t)"
    unfolding r [symmetric] by simp
  have "rev (show_nat i) = rev (show_nat j)"
    using upto_underscore [OF d [of i]] upto_underscore [OF d [of j]] eq by metis
  moreover have "CHR ''_'' # rev (''brisk_rl_'' @ s) = CHR ''_'' # rev (''brisk_rl_'' @ t)"
    using upto_underscore [OF d [of i]] upto_underscore [OF d [of j]] eq by metis
  ultimately show ?thesis by simp
qed

lemma limit_zone_names:
  "render_limits slug i rs = (ls, zs, eo) \<Longrightarrow>
     distinct (map lz_name zs) \<and> (\<forall>z \<in> set zs. \<exists>j \<ge> i. lz_name z = limit_name slug j)"
proof (induction rs arbitrary: i ls zs eo)
  case (Cons r rs)
  obtain ls' zs' eo' where r: "render_limits slug (i + 1) rs = (ls', zs', eo')" by (cases "render_limits slug (i + 1) rs")
  have ih: "distinct (map lz_name zs')" "\<forall>z \<in> set zs'. \<exists>j \<ge> i + 1. lz_name z = limit_name slug j"
    using Cons.IH [OF r] by auto
  then have weak: "\<forall>z \<in> set zs'. \<exists>j \<ge> i. lz_name z = limit_name slug j" by (meson add_leD1)
  show ?case
  proof (cases "rl_count_mode r = ''errors_only''")
    case True
    then show ?thesis using Cons.prems r ih(1) weak by (simp add: Let_def)
  next
    case False
    then obtain z where z: "zs = z # zs'" "lz_name z = limit_name slug i"
      using Cons.prems r by (auto simp: Let_def limit_name_def)
    have "limit_name slug i \<noteq> lz_name y" if "y \<in> set zs'" for y
      using ih(2) that limit_name_inj [of slug i slug] by fastforce
    then have "lz_name z \<notin> set (map lz_name zs')" using z(2) by auto
    then show ?thesis using z ih(1) weak by auto
  qed
qed simp

lemma render_zone_fields:
  assumes "render_zone cfg http2 lua z o' = (zr, lzs)"
  shows "map ll_zone (zx_limits zr) = map lz_name lzs" "zx_domain zr = zn_domain z" "zx_shielded zr = (zn_shield z \<noteq> '''')"
    "zx_shield zr = zn_shield z" "zx_shield_name zr = shield_name z" "zx_err_path zr = error_page_path z"
    "zx_err_on zr = (trim_space (zn_error_html z) \<noteq> '''')"
    "distinct (map lz_name lzs)" "\<forall>l \<in> set lzs. \<exists>j. lz_name l = limit_name (upstreamSlug (zn_domain z)) j"
proof -
  let ?slug = "upstreamSlug (zn_domain z)"
  let ?on = "case zn_waf z of None \<Rightarrow> False | Some w \<Rightarrow> zw_enabled w"
  obtain rls rlz eo where r: "(if ?on then render_limits ?slug 0 (zoneRateLimits z) else ([], [], False)) = (rls, rlz, eo)"
    by (rule prod_cases3)
  have e: "lzs = rlz" "zx_limits zr = rls" using assms r by (auto simp: render_zone_def Let_def split: prod.splits)
  show "zx_domain zr = zn_domain z" "zx_shielded zr = (zn_shield z \<noteq> '''')"
    "zx_shield zr = zn_shield z" "zx_shield_name zr = shield_name z" "zx_err_path zr = error_page_path z"
    "zx_err_on zr = (trim_space (zn_error_html z) \<noteq> '''')"
    using assms by (auto simp: render_zone_def Let_def split: prod.splits)
  show "map ll_zone (zx_limits zr) = map lz_name lzs"
    using r limit_zones_of [of ?slug 0 "zoneRateLimits z" rls rlz eo] unfolding e by (cases ?on) auto
  show "distinct (map lz_name lzs)" "\<forall>l \<in> set lzs. \<exists>j. lz_name l = limit_name ?slug j"
    using r limit_zone_names [of ?slug 0 "zoneRateLimits z" rls rlz eo] unfolding e by (cases ?on; auto)+
qed


abbreviation new_shield :: "string list \<Rightarrow> agent_zone \<Rightarrow> bool" where
  "new_shield seen z \<equiv> zn_shield z \<noteq> '''' \<and> shield_name z \<notin> set seen"

lemma render_zones_Cons:
  assumes "render_zones parse cfg http2 lua seen (z # zs) = Inr (zrs, lzs, sus)"
  obtains o' zr lz zrs' lzs' sus' where "render_zone cfg http2 lua z o' = (zr, lz)"
    "render_zones parse cfg http2 lua (if new_shield seen z then shield_name z # seen else seen) zs = Inr (zrs', lzs', sus')"
    "zrs = zr # zrs'" "lzs = lz @ lzs'"
    "sus = (if new_shield seen z then [\<lparr>su_name = shield_name z, su_server = zn_shield z\<rparr>] else []) @ sus'"
  using assms that by (auto simp: Let_def split: sum.splits prod.splits)

lemma rendered_limits:
  "render_zones parse cfg http2 lua seen zs = Inr (zrs, lzs, sus) \<Longrightarrow>
     concat (map (\<lambda>zr. map ll_zone (zx_limits zr)) zrs) = map lz_name lzs \<and> map zx_domain zrs = map zn_domain zs \<and>
     (\<forall>l \<in> set lzs. \<exists>z \<in> set zs. \<exists>j. lz_name l = limit_name (upstreamSlug (zn_domain z)) j)"
proof (induction zs arbitrary: seen zrs lzs sus)
  case (Cons z zs)
  from Cons.prems show ?case
  proof (rule render_zones_Cons)
    fix o' zr lz zrs' lzs' sus'
    assume r: "render_zone cfg http2 lua z o' = (zr, lz)" and e: "zrs = zr # zrs'" "lzs = lz @ lzs'"
      and "render_zones parse cfg http2 lua (if new_shield seen z then shield_name z # seen else seen) zs = Inr (zrs', lzs', sus')"
    from Cons.IH [OF this(4)] show ?thesis using render_zone_fields [OF r] unfolding e by auto
  qed
qed simp

lemma rendered_distinct:
  "render_zones parse cfg http2 lua seen zs = Inr (zrs, lzs, sus) \<Longrightarrow>
     distinct (map (upstreamSlug \<circ> zn_domain) zs) \<Longrightarrow> distinct (map lz_name lzs)"
proof (induction zs arbitrary: seen zrs lzs sus)
  case (Cons z zs)
  from Cons.prems(1) show ?case
  proof (rule render_zones_Cons)
    fix o' zr lz zrs' lzs' sus'
    assume r: "render_zone cfg http2 lua z o' = (zr, lz)" and e: "lzs = lz @ lzs'"
      and rest: "render_zones parse cfg http2 lua (if new_shield seen z then shield_name z # seen else seen) zs = Inr (zrs', lzs', sus')"
    have d: "distinct (map lz_name lzs')" using Cons.IH [OF rest] Cons.prems(2) by simp
    have "set (map lz_name lz) \<inter> set (map lz_name lzs') = {}"
    proof (rule ccontr)
      assume "\<not> ?thesis"
      then obtain a b where ab: "a \<in> set lz" "b \<in> set lzs'" "lz_name a = lz_name b" by auto
      obtain j where j: "lz_name a = limit_name (upstreamSlug (zn_domain z)) j" using render_zone_fields(9) [OF r] ab(1) by blast
      obtain y k where y: "y \<in> set zs" "lz_name b = limit_name (upstreamSlug (zn_domain y)) k"
        using rendered_limits [OF rest] ab(2) by blast
      have "upstreamSlug (zn_domain z) = upstreamSlug (zn_domain y)" using limit_name_inj ab(3) j y(2) by metis
      then show False using Cons.prems(2) y(1) by auto
    qed
    then show ?thesis using d render_zone_fields(8) [OF r] unfolding e by simp
  qed
qed simp

lemma rendered_shields:
  "render_zones parse cfg http2 lua seen zs = Inr (zrs, lzs, sus) \<Longrightarrow>
     distinct (map su_name sus) \<and> set (map su_name sus) \<inter> set seen = {} \<and>
     set (map su_name sus) \<union> set seen \<supseteq> shield_name ` {z \<in> set zs. zn_shield z \<noteq> ''''} \<and>
     (\<forall>u \<in> set sus. \<exists>z \<in> set zs. zn_shield z \<noteq> '''' \<and> su_name u = shield_name z \<and> su_server u = zn_shield z)"
proof (induction zs arbitrary: seen zrs lzs sus)
  case (Cons z zs)
  from Cons.prems show ?case
  proof (rule render_zones_Cons)
    fix o' zr lz zrs' lzs' sus'
    assume s: "sus = (if new_shield seen z then [\<lparr>su_name = shield_name z, su_server = zn_shield z\<rparr>] else []) @ sus'"
      and "render_zones parse cfg http2 lua (if new_shield seen z then shield_name z # seen else seen) zs = Inr (zrs', lzs', sus')"
    from Cons.IH [OF this(2)] show ?thesis unfolding s by (cases "new_shield seen z") (auto split: if_splits)
  qed
qed simp

lemma rendered_zones:
  "render_zones parse cfg http2 lua seen zs = Inr (zrs, lzs, sus) \<Longrightarrow>
     list_all2 (\<lambda>z zr. zx_shielded zr = (zn_shield z \<noteq> '''') \<and> zx_shield zr = zn_shield z \<and> zx_shield_name zr = shield_name z \<and>
       zx_err_on zr = (trim_space (zn_error_html z) \<noteq> '''') \<and> zx_err_path zr = error_page_path z) zs zrs"
proof (induction zs arbitrary: seen zrs lzs sus)
  case (Cons z zs)
  from Cons.prems show ?case
  proof (rule render_zones_Cons)
    fix o' zr lz zrs' lzs' sus'
    assume r: "render_zone cfg http2 lua z o' = (zr, lz)" and e: "zrs = zr # zrs'"
      and "render_zones parse cfg http2 lua (if new_shield seen z then shield_name z # seen else seen) zs = Inr (zrs', lzs', sus')"
    from Cons.IH [OF this(3)] show ?thesis using render_zone_fields [OF r] unfolding e by simp
  qed
qed simp

lemma error_pages_distinct:
  "list_all2 (\<lambda>z zr. zx_err_on zr = (trim_space (zn_error_html z) \<noteq> '''') \<and> zx_err_path zr = error_page_path z) zs zrs \<Longrightarrow>
     distinct (map (upstreamSlug \<circ> zn_domain) zs) \<Longrightarrow>
     distinct (map zx_err_path (filter zx_err_on zrs)) \<and>
     (\<forall>zr \<in> set zrs. zx_err_on zr \<longrightarrow> (\<exists>z \<in> set zs. zx_err_path zr = ''/etc/brisk/errorpages/'' @ upstreamSlug (zn_domain z) @ ''.html''))"
proof (induction rule: list_all2_induct)
  case (Cons z zs zr zrs)
  have ih: "distinct (map zx_err_path (filter zx_err_on zrs))"
    "\<forall>zr \<in> set zrs. zx_err_on zr \<longrightarrow> (\<exists>z \<in> set zs. zx_err_path zr = ''/etc/brisk/errorpages/'' @ upstreamSlug (zn_domain z) @ ''.html'')"
    using Cons.IH Cons.prems by simp_all
  have p: "zx_err_on zr \<Longrightarrow> zx_err_path zr = ''/etc/brisk/errorpages/'' @ upstreamSlug (zn_domain z) @ ''.html''"
    using Cons.hyps(1) by (simp add: error_page_path_def)
  have "zx_err_path zr \<notin> zx_err_path ` {r \<in> set zrs. zx_err_on r}" if "zx_err_on zr"
  proof
    assume "zx_err_path zr \<in> zx_err_path ` {r \<in> set zrs. zx_err_on r}"
    then obtain r where r: "r \<in> set zrs" "zx_err_on r" "zx_err_path zr = zx_err_path r" by blast
    then obtain y where y: "y \<in> set zs" "zx_err_path r = ''/etc/brisk/errorpages/'' @ upstreamSlug (zn_domain y) @ ''.html''"
      using ih(2) by blast
    then have "upstreamSlug (zn_domain z) = upstreamSlug (zn_domain y)" using p [OF that] r(3) by simp
    then show False using Cons.prems y(1) by auto
  qed
  then show ?case using ih p by auto
qed simp

text \<open>
  C32: The rendered configuration is closed. When the slugs of the domains and of the shield
  addresses tell them apart, every rate-limit zone and every shield pool is declared exactly
  once, every location refers to a declared zone, every shielded server to the pool of its own
  shield, and no two zones share an error page.
\<close>

theorem render_closed:
  assumes "buildRenderData parse cfg http2 lua geoip = Inr rd"
    and "distinct (map (upstreamSlug \<circ> zn_domain) (ac_zones cfg))" "inj_on upstreamSlug (zn_shield ` set (ac_zones cfg))"
  shows "distinct (map lz_name (rd_limit_zones rd)) \<and> distinct (map su_name (rd_shields rd)) \<and>
    concat (map (\<lambda>zr. map ll_zone (zx_limits zr)) (rd_zones rd)) = map lz_name (rd_limit_zones rd) \<and>
    (\<forall>zr \<in> set (rd_zones rd). zx_shielded zr \<longrightarrow> \<lparr>su_name = zx_shield_name zr, su_server = zx_shield zr\<rparr> \<in> set (rd_shields rd)) \<and>
    distinct (map zx_err_path (filter zx_err_on (rd_zones rd)))"
proof -
  let ?zs = "ac_zones cfg"
  obtain zrs lzs sus where r: "render_zones parse cfg http2 lua [] ?zs = Inr (zrs, lzs, sus)"
    and rd: "rd_limit_zones rd = lzs" "rd_shields rd = sus" "rd_zones rd = zrs"
    using assms(1) by (auto simp: buildRenderData_def Let_def split: sum.splits)
  have l2: "list_all2 (\<lambda>z zr. zx_shielded zr = (zn_shield z \<noteq> '''') \<and> zx_shield zr = zn_shield z \<and> zx_shield_name zr = shield_name z \<and>
       zx_err_on zr = (trim_space (zn_error_html z) \<noteq> '''') \<and> zx_err_path zr = error_page_path z) ?zs zrs"
    by (rule rendered_zones [OF r])
  have pool: "\<lparr>su_name = zx_shield_name zr, su_server = zx_shield zr\<rparr> \<in> set sus" if zr: "zr \<in> set zrs" "zx_shielded zr" for zr
  proof -
    obtain z where z: "z \<in> set ?zs" "zn_shield z \<noteq> ''''" "zx_shield zr = zn_shield z" "zx_shield_name zr = shield_name z"
      using l2 zr by (fastforce simp: list_all2_conv_all_nth in_set_conv_nth)
    then obtain u where u: "u \<in> set sus" "su_name u = shield_name z" using rendered_shields [OF r] by auto
    then obtain y where y: "y \<in> set ?zs" "zn_shield y \<noteq> ''''" "su_name u = shield_name y" "su_server u = zn_shield y"
      using rendered_shields [OF r] by blast
    have "upstreamSlug (zn_shield y) = upstreamSlug (zn_shield z)" using y z u(2) by (simp add: shield_name_def)
    then have "zn_shield y = zn_shield z" using assms(3) y(1) z(1) by (simp add: inj_on_eq_iff)
    then have "u = \<lparr>su_name = zx_shield_name zr, su_server = zx_shield zr\<rparr>" using u y z by (cases u) simp
    then show ?thesis using u(1) by simp
  qed
  have err: "distinct (map zx_err_path (filter zx_err_on zrs))"
    using error_pages_distinct [OF list.rel_mono_strong [OF l2] assms(2)] by blast
  show ?thesis unfolding rd using rendered_distinct [OF r assms(2)] rendered_shields [OF r] rendered_limits [OF r] pool err by blast
qed

definition demo_zone :: "string \<Rightarrow> string \<Rightarrow> agent_zone" where
  "demo_zone d shield =
     (toZone (demo_wire d ''http://o:8080'' '''' 0))
       \<lparr>zn_shield := shield, zn_error_html := ''<p>'',
        zn_waf := Some \<lparr>zw_enabled = True, zw_mode = ''block'', zw_ruleset = ''off'', zw_paranoia = 1, zw_fail_open = True,
          zw_wp_preset = True, zw_rules = [], zw_limits = [wp_limit\<lparr>rl_path := ''/api'', rl_match := ''prefix''\<rparr>]\<rparr>\<rparr>"

definition demo_cfg :: "agent_zone list \<Rightarrow> agent_config" where
  "demo_cfg zs = demo_base\<lparr>ac_zones := zs\<rparr>"

lemma render_closed_witness:
  "distinct (map lz_name (rd_limit_zones (projr (buildRenderData demo_url
     (demo_cfg [demo_zone ''a.x'' ''10.0.0.1:443'', demo_zone ''b.x'' ''10.0.0.1:443'', demo_zone ''c.x'' '''']) True True False))))"
proof -
  let ?c = "demo_cfg [demo_zone ''a.x'' ''10.0.0.1:443'', demo_zone ''b.x'' ''10.0.0.1:443'', demo_zone ''c.x'' '''']"
  have "isl (buildRenderData demo_url ?c True True False) = False" by code_simp
  then have "buildRenderData demo_url ?c True True False = Inr (projr (buildRenderData demo_url ?c True True False))"
    by (cases "buildRenderData demo_url ?c True True False") simp_all
  moreover have "distinct (map (upstreamSlug \<circ> zn_domain) (ac_zones ?c))" by code_simp
  moreover have "inj_on upstreamSlug (zn_shield ` set (ac_zones ?c))" by code_simp
  ultimately show ?thesis by (rule render_closed [THEN conjunct1])
qed

text \<open>
  What modelling showed. Slugs do not tell all names apart: two tenants' domains that differ in
  a dash for a dot share their rate-limit zones, which nginx refuses to declare twice, and their
  error page; two shields can share one pool. A tenant who has the WordPress preset and a rate
  limit of their own on the login page gets the same location twice in one server. In each
  case nginx rejects the configuration of the whole edge. The two readers of TTLs differ: a
  cache rule of one week is sent to browsers as zero seconds. And the path of a rate limit is
  printed as it is: it can close its location and open others.
\<close>

lemma path_is_not_quoted:
  "let (ls, zs, eo) = render_limits ''a'' 0 [wp_limit\<lparr>rl_path := ''/x { return 200; } location = /y''\<rparr>]
   in map ll_matcher ls = [''= /x { return 200; } location = /y'']"
  by code_simp

lemma slugs_collide:
  "let rd = projr (buildRenderData demo_url (demo_cfg [demo_zone ''a-b.x'' ''10.0.0.1:443'', demo_zone ''a.b.x'' ''10.0.0-1:443'']) True True False)
   in \<not> distinct (map lz_name (rd_limit_zones rd)) \<and> map su_server (rd_shields rd) = [''10.0.0.1:443''] \<and>
      map zx_err_path (rd_zones rd) = [''/etc/brisk/errorpages/a_b_x.html'', ''/etc/brisk/errorpages/a_b_x.html'']"
  by code_simp

lemma preset_duplicates_location:
  "let z = (demo_zone ''a.x'' '''')\<lparr>zn_waf := Some \<lparr>zw_enabled = True, zw_mode = ''block'', zw_ruleset = ''off'', zw_paranoia = 1,
          zw_fail_open = True, zw_wp_preset = True, zw_rules = [], zw_limits = [wp_limit\<lparr>rl_requests := 10\<rparr>]\<rparr>\<rparr>;
       rd = projr (buildRenderData demo_url (demo_cfg [z]) True True False)
   in map ll_matcher (zx_limits (hd (rd_zones rd))) = [''= /wp-login.php'', ''= /wp-login.php'']"
  by code_simp

lemma ttl_readers_differ: "lua_ttlSeconds ''1w'' = ''0'' \<and> cacheTTLToSeconds ''1w'' = 604800"
  by code_simp

lemma ceil_div: "0 < p \<Longrightarrow> q * 60 \<le> (q * 60 + p - 1) div p * p \<and> ((q * 60 + p - 1) div p - 1) * p < q * (60 :: int)"
proof -
  assume p: "0 < p"
  let ?d = "(q * 60 + p - 1) div p"
  have "?d * p + (q * 60 + p - 1) mod p = q * 60 + p - 1" by simp
  moreover have "0 \<le> (q * 60 + p - 1) mod p" "(q * 60 + p - 1) mod p < p" using p by simp_all
  moreover have "(?d - 1) * p = ?d * p - p" by (simp add: algebra_simps)
  ultimately show ?thesis by linarith
qed

text \<open>
  The rate handed to nginx is the smallest whole one that admits the configured number of
  requests: never less than asked for, and less than one request per minute more.
\<close>

theorem nginxRate_bounds:
  assumes "0 < requests" "0 < period"
  shows "\<exists>rpm. 0 < rpm \<and> requests * 60 \<le> rpm * period \<and> (rpm - 1) * period < requests * 60 \<and>
    (nginxRate requests period = show_int rpm @ ''r/m'' \<or> rpm mod 60 = 0 \<and> nginxRate requests period = show_int (rpm div 60) @ ''r/s'')"
proof (cases "requests * 60 mod period = 0")
  case True
  then have eq: "requests * 60 div period * period = requests * 60" by (metis add.right_neutral div_mult_mod_eq)
  have pos: "0 < requests * 60 div period" using assms eq by (metis mult_eq_0_iff less_le mult_pos_pos not_less pos_imp_zdiv_nonneg_iff zero_less_numeral)
  show ?thesis
    by (rule exI [of _ "requests * 60 div period"]) (use True eq pos assms in \<open>auto simp: nginxRate_def Let_def algebra_simps\<close>)
next
  case False
  let ?d = "(requests * 60 + period - 1) div period"
  have b: "requests * 60 \<le> ?d * period" "(?d - 1) * period < requests * 60" using ceil_div [OF assms(2)] by auto
  have "0 < ?d * period" using b(1) assms(1) by linarith
  then have "0 < ?d" using assms(2) by (simp add: zero_less_mult_iff)
  then show ?thesis using b False assms by (intro exI [of _ ?d]) (simp add: nginxRate_def Let_def)
qed

lemma nginxRate_bounds_witness: "\<exists>rpm. 0 < rpm \<and> 5 * 60 \<le> rpm * 7 \<and> (rpm - 1) * 7 < 5 * (60 :: int)"
  using nginxRate_bounds [of 5 7] by auto

end
