(* ===== verification/TlsStore.thy ===== *)
theory TlsStore
  imports NginxRender
begin

section \<open>Certificates on disk\<close>

text \<open>
  \<open>brisk-agent/tls\<close>: the certificate and key files of a domain. The disk is a map from paths to
  contents and every operation takes an oracle that says which accesses fail; a plain write
  can fail after any part of the data, an atomic one leaves the file as it was. Parsing a PEM
  chain, matching a host name, generating a key pair and running \<open>mkcert\<close> are parameters.
\<close>

type_synonym files = "string \<rightharpoonup> string"

datatype io = Works | Fails | Partial nat

type_synonym io_oracle = "string \<Rightarrow> io"

definition write_file :: "io_oracle \<Rightarrow> string \<Rightarrow> string \<Rightarrow> files \<Rightarrow> files \<times> bool" where
  "write_file io path d fs =
     (case io path of Works \<Rightarrow> (fs(path \<mapsto> d), True) | Fails \<Rightarrow> (fs, False) | Partial n \<Rightarrow> (fs(path \<mapsto> take n d), False))"

definition writeFileAtomic :: "io_oracle \<Rightarrow> string \<Rightarrow> string \<Rightarrow> files \<Rightarrow> files \<times> bool" where
  "writeFileAtomic io path d fs = (if io path = Works then (fs(path \<mapsto> d), True) else (fs, False))"

definition read_file :: "io_oracle \<Rightarrow> string \<Rightarrow> files \<Rightarrow> string option" where
  "read_file io path fs = (if io path = Fails then None else fs path)"

record x509 =
  xc_not_before :: instant
  xc_not_after :: instant
  xc_issuer :: string
  xc_subject :: string

text \<open>The libraries: \<open>parse\<close> a PEM chain, \<open>covers\<close> for \<open>VerifyHostname\<close>, a fresh self-signed pair, \<open>mkcert\<close>.\<close>

record pki =
  pk_parse :: "string \<Rightarrow> x509 option"
  pk_covers :: "x509 \<Rightarrow> string \<Rightarrow> bool"
  pk_fresh :: "instant \<Rightarrow> string \<Rightarrow> (string \<times> string) option"
  pk_mkcert :: "string \<Rightarrow> (string \<times> string) option"

datatype tls_error =
    EmptyMaterial | CertUnparsable | HostNotCovered | MkdirFailed | WriteFailed string | GenerateFailed | MkcertFailed
  | UnknownMode | ObtainFailed

definition renewMargin :: duration where "renewMargin = 30 * (24 * hour)"

definition loadLeafCert :: "pki \<Rightarrow> io_oracle \<Rightarrow> string \<Rightarrow> files \<Rightarrow> x509 option" where
  "loadLeafCert pk io path fs = Option.bind (read_file io path fs) (pk_parse pk)"

definition isSelfSigned :: "x509 \<Rightarrow> bool" where
  "isSelfSigned c = (xc_issuer c = xc_subject c)"

definition certUsable :: "pki \<Rightarrow> io_oracle \<Rightarrow> instant \<Rightarrow> string \<Rightarrow> string \<Rightarrow> files \<Rightarrow> bool" where
  "certUsable pk io now path domain fs =
     (case loadLeafCert pk io path fs of
        None \<Rightarrow> False
      | Some c \<Rightarrow> if now < xc_not_before c \<or> now + renewMargin > xc_not_after c then False else pk_covers pk c domain)"

definition NeedsLetsEncrypt :: "pki \<Rightarrow> io_oracle \<Rightarrow> instant \<Rightarrow> string \<Rightarrow> files \<Rightarrow> bool" where
  "NeedsLetsEncrypt pk io now domain fs =
     (case loadLeafCert pk io (cp_chain (Paths DefaultBaseDir domain)) fs of
        None \<Rightarrow> True
      | Some c \<Rightarrow> if now + renewMargin > xc_not_after c then True else isSelfSigned c)"

definition writePair :: "io_oracle \<Rightarrow> cert_paths \<Rightarrow> string \<Rightarrow> string \<Rightarrow> files \<Rightarrow> files \<times> tls_error option" where
  "writePair io p cert key fs =
     (case write_file io (cp_chain p) cert fs of
        (fs1, False) \<Rightarrow> (fs1, Some (WriteFailed (cp_chain p)))
      | (fs1, True) \<Rightarrow>
          (case write_file io (cp_key p) key fs1 of
             (fs2, False) \<Rightarrow> (fs2, Some (WriteFailed (cp_key p)))
           | (fs2, True) \<Rightarrow> (fs2, None)))"

definition ensureSelfSigned :: "pki \<Rightarrow> io_oracle \<Rightarrow> instant \<Rightarrow> string \<Rightarrow> files \<Rightarrow> files \<times> tls_error option" where
  "ensureSelfSigned pk io now domain fs =
     (let p = Paths DefaultBaseDir domain in
      if certUsable pk io now (cp_chain p) domain fs then (fs, None)
      else (case pk_fresh pk now domain of
              None \<Rightarrow> (fs, Some GenerateFailed)
            | Some (cert, key) \<Rightarrow> writePair io p cert key fs))"

definition ensureMkcert :: "pki \<Rightarrow> io_oracle \<Rightarrow> instant \<Rightarrow> string \<Rightarrow> files \<Rightarrow> files \<times> tls_error option" where
  "ensureMkcert pk io now domain fs =
     (let p = Paths DefaultBaseDir domain in
      if certUsable pk io now (cp_chain p) domain fs then (fs, None)
      else (case pk_mkcert pk domain of
              None \<Rightarrow> (fs, Some MkcertFailed)
            | Some (cert, key) \<Rightarrow> (fs(cp_chain p \<mapsto> cert, cp_key p \<mapsto> key), None)))"

definition EnsurePlaceholder :: "pki \<Rightarrow> io_oracle \<Rightarrow> instant \<Rightarrow> string \<Rightarrow> files \<Rightarrow> files \<times> tls_error option" where
  "EnsurePlaceholder pk io now domain fs =
     (let p = Paths DefaultBaseDir domain in
      if io (cp_dir p) \<noteq> Works then (fs, Some MkdirFailed)
      else if fs (cp_chain p) \<noteq> None then (fs, None)
      else ensureSelfSigned pk io now domain fs)"

definition tls_Ensure :: "pki \<Rightarrow> io_oracle \<Rightarrow> instant \<Rightarrow> string \<Rightarrow> string \<Rightarrow> files \<Rightarrow> files \<times> tls_error option" where
  "tls_Ensure pk io now domain mode fs =
     (if io (cp_dir (Paths DefaultBaseDir domain)) \<noteq> Works then (fs, Some MkdirFailed)
      else if mode = ''selfsigned'' \<or> mode = '''' then ensureSelfSigned pk io now domain fs
      else if mode = ''mkcert'' then ensureMkcert pk io now domain fs
      else if mode = ''letsencrypt'' then EnsurePlaceholder pk io now domain fs
      else (fs, Some UnknownMode))"

text \<open>\<open>WriteManaged\<close>: the new disk and whether it changed, or the error.\<close>

definition WriteManaged :: "pki \<Rightarrow> io_oracle \<Rightarrow> string \<Rightarrow> string \<Rightarrow> string \<Rightarrow> files \<Rightarrow> files \<times> (tls_error + bool)" where
  "WriteManaged pk io domain cert key fs =
     (let p = Paths DefaultBaseDir domain in
      if cert = '''' \<or> key = '''' then (fs, Inl EmptyMaterial)
      else (case pk_parse pk cert of
              None \<Rightarrow> (fs, Inl CertUnparsable)
            | Some leaf \<Rightarrow>
                if \<not> pk_covers pk leaf domain then (fs, Inl HostNotCovered)
                else if io (cp_dir p) \<noteq> Works then (fs, Inl MkdirFailed)
                else if read_file io (cp_chain p) fs = Some cert \<and> read_file io (cp_key p) fs = Some key then (fs, Inr False)
                else (case writeFileAtomic io (cp_chain p) cert fs of
                        (fs1, False) \<Rightarrow> (fs1, Inl (WriteFailed (cp_chain p)))
                      | (fs1, True) \<Rightarrow>
                          (case writeFileAtomic io (cp_key p) key fs1 of
                             (fs2, False) \<Rightarrow> (fs2, Inl (WriteFailed (cp_key p)))
                           | (fs2, True) \<Rightarrow> (fs2, Inr True)))))"

section \<open>Properties\<close>

lemma chain_not_key [simp]: "cp_chain (Paths b d) \<noteq> cp_key (Paths b d)"
  by (simp add: Paths_def Let_def)

definition installed :: "string \<Rightarrow> string \<Rightarrow> string \<Rightarrow> files \<Rightarrow> bool" where
  "installed domain cert key fs \<longleftrightarrow>
     fs (cp_chain (Paths DefaultBaseDir domain)) = Some cert \<and> fs (cp_key (Paths DefaultBaseDir domain)) = Some key"

lemma read_Some: "read_file io p fs = Some d \<Longrightarrow> fs p = Some d"
  by (auto simp: read_file_def split: if_splits)

text \<open>
  C36: Installing a shipped certificate. There are three ends. Success: the shipped pair is on disk, its
  leaf parses and covers the domain, and the call reports a change exactly when it wrote. Refusal or an
  early failure -- material that is empty, does not parse or does not cover the domain, a directory that
  cannot be made, the certificate file not written: the disk is as it was. And the one left open by the
  two writes: when the key cannot be written, the new certificate stands beside the old key
  (\<open>pair_not_atomic\<close>), against the promise above the function that an error leaves the files untouched.
  In all three no other file changes and no file is torn. When nothing fails, sound material is
  installed.
\<close>

theorem WriteManaged_safe:
  assumes "WriteManaged pk io domain cert key fs = (fs', r)"
    and "chain = cp_chain (Paths DefaultBaseDir domain)" "priv = cp_key (Paths DefaultBaseDir domain)"
  shows "(case r of
            Inr changed \<Rightarrow>
              fs' chain = Some cert \<and> fs' priv = Some key \<and> fs' = (if changed then fs(chain \<mapsto> cert, priv \<mapsto> key) else fs) \<and>
              (\<exists>leaf. pk_parse pk cert = Some leaf \<and> pk_covers pk leaf domain)
          | Inl e \<Rightarrow> fs' = (if e = WriteFailed priv then fs(chain \<mapsto> cert) else fs)) \<and>
     ((\<forall>p. io p = Works) \<and> cert \<noteq> '''' \<and> key \<noteq> '''' \<and> (\<exists>leaf. pk_parse pk cert = Some leaf \<and> pk_covers pk leaf domain) \<longrightarrow>
        r = Inr (\<not> (fs chain = Some cert \<and> fs priv = Some key)))"
proof -
  have ck: "chain \<noteq> priv" "priv \<noteq> chain" using chain_not_key [of DefaultBaseDir domain] assms(2,3) by metis+
  have "case r of
            Inr changed \<Rightarrow>
              fs' chain = Some cert \<and> fs' priv = Some key \<and> fs' = (if changed then fs(chain \<mapsto> cert, priv \<mapsto> key) else fs) \<and>
              (\<exists>leaf. pk_parse pk cert = Some leaf \<and> pk_covers pk leaf domain)
          | Inl e \<Rightarrow> fs' = (if e = WriteFailed priv then fs(chain \<mapsto> cert) else fs)"
    using assms(1) ck read_Some [of io chain fs cert] read_Some [of io priv fs key] unfolding WriteManaged_def Let_def assms(2,3) [symmetric]
    by (auto simp: writeFileAtomic_def split: if_splits option.splits)
  moreover have "r = Inr (\<not> (fs chain = Some cert \<and> fs priv = Some key))"
    if "\<forall>p. io p = Works" "cert \<noteq> ''''" "key \<noteq> ''''" "\<exists>leaf. pk_parse pk cert = Some leaf \<and> pk_covers pk leaf domain"
    using assms(1) that unfolding WriteManaged_def Let_def assms(2,3) [symmetric]
    by (auto simp: writeFileAtomic_def read_file_def split: if_splits)
  ultimately show ?thesis by blast
qed

definition demo_pki :: pki where
  "demo_pki =
     \<lparr>pk_parse = (\<lambda>s. if has_prefix s ''cert:'' then Some \<lparr>xc_not_before = 0, xc_not_after = 1000 * 24 * hour, xc_issuer = ''ca'', xc_subject = s\<rparr> else None),
      pk_covers = (\<lambda>c d. xc_subject c = ''cert:'' @ d), pk_fresh = (\<lambda>now d. Some (''cert:'' @ d, ''key'')), pk_mkcert = (\<lambda>d. None)\<rparr>"

lemma WriteManaged_safe_witness:
  "installed ''a.x'' ''cert:a.x'' ''k'' (fst (WriteManaged demo_pki (\<lambda>_. Works) ''a.x'' ''cert:a.x'' ''k'' Map.empty))"
proof -
  let ?w = "WriteManaged demo_pki (\<lambda>_. Works) ''a.x'' ''cert:a.x'' ''k'' Map.empty"
  have r: "?w = (fst ?w, Inr True)"
    by (simp add: WriteManaged_def Let_def demo_pki_def has_prefix_def writeFileAtomic_def read_file_def)
  show ?thesis using WriteManaged_safe [OF r refl refl] by (simp add: installed_def)
qed

text \<open>
  What modelling showed. The key is never checked: any text in its place, or the key of another
  certificate, replaces a working one. The two files are replaced one after the other, so an
  error in between leaves the new certificate beside the old key. And an existing certificate
  counts as usable although its key is missing, so the placeholder is never made again.
\<close>

lemma shipped_key_unchecked:
  "snd (WriteManaged demo_pki (\<lambda>_. Works) ''a.x'' ''cert:a.x'' ''garbage'' fs) = Inr True \<or>
   installed ''a.x'' ''cert:a.x'' ''garbage'' fs"
  by (auto simp: WriteManaged_def Let_def demo_pki_def has_prefix_def writeFileAtomic_def read_file_def installed_def)

lemma pair_not_atomic:
  "let p = Paths DefaultBaseDir ''a.x''; fs = [cp_chain p \<mapsto> ''cert:old'', cp_key p \<mapsto> ''old''];
       fs' = fst (WriteManaged demo_pki (\<lambda>q. if q = cp_key p then Partial 0 else Works) ''a.x'' ''cert:a.x'' ''k'' fs)
   in fs' (cp_chain p) = Some ''cert:a.x'' \<and> fs' (cp_key p) = Some ''old''"
  by (simp add: WriteManaged_def Let_def demo_pki_def has_prefix_def writeFileAtomic_def read_file_def Paths_def)

lemma missing_key_is_usable:
  "let p = Paths DefaultBaseDir ''a.x''; fs = [cp_chain p \<mapsto> ''cert:a.x'']
   in EnsurePlaceholder demo_pki (\<lambda>_. Works) 0 ''a.x'' fs = (fs, None) \<and> ensureSelfSigned demo_pki (\<lambda>_. Works) 0 ''a.x'' fs = (fs, None)"
  by (simp add: EnsurePlaceholder_def ensureSelfSigned_def certUsable_def loadLeafCert_def read_file_def Let_def demo_pki_def
      has_prefix_def renewMargin_def durations)

end
