(* ===== verification/NginxApply.thy ===== *)
theory NginxApply
  imports TlsStore
begin

section \<open>Applying a configuration\<close>

text \<open>
  The second half of \<open>brisk-agent/nginx/nginx.go\<close>: write the configuration, test it, and only then
  reload, with a roll-back. The host is its disk and the disk the running nginx was last
  (re)loaded from. \<open>nginx -t\<close> is a predicate on the disk; which accesses and commands fail is an
  input. The templates and the lego client are parameters.
\<close>

record manager =
  mg_conf :: string
  mg_lua_dir :: string
  mg_err_dir :: string

definition NewManager :: "string \<Rightarrow> manager" where
  "NewManager conf =
     \<lparr>mg_conf = (if conf = '''' then ''/etc/nginx/nginx.conf'' else conf), mg_lua_dir = ''/etc/brisk/lua'',
      mg_err_dir = ''/etc/brisk/errorpages''\<rparr>"

record host =
  ho_files :: files
  ho_running :: "files option"

text \<open>The platform: what the installed nginx accepts, and which steps of this run fail.\<close>

record platform =
  pf_test :: "files \<Rightarrow> bool"
  pf_lua :: bool
  pf_lualib :: "(string \<times> string) list"
  pf_geoip :: bool
  pf_version :: "(int \<times> int \<times> int) option"
  pf_parse_url :: url_parser
  pf_print :: "render_data \<Rightarrow> string option"
  pf_pki :: pki
  pf_now :: instant
  pf_io :: io_oracle
  pf_read :: io_oracle
  pf_restore :: io_oracle
  pf_reload :: bool
  pf_start :: bool
  pf_obtain :: "string \<Rightarrow> (string \<times> string) option"

datatype apply_error =
    RenderFailed | BackupFailed | ConfNotWritten | LuaNotWritten | PagesNotWritten | RolledBack | RollbackFailed | NotReloaded
  | TlsFailed string tls_error

definition Render :: "platform \<Rightarrow> agent_config \<Rightarrow> string option" where
  "Render pf cfg =
     (case buildRenderData (pf_parse_url pf) cfg (http2OnSupported (pf_version pf)) (pf_lua pf) (pf_geoip pf) of
        Inl _ \<Rightarrow> None
      | Inr rd \<Rightarrow> pf_print pf rd)"

fun write_all :: "io_oracle \<Rightarrow> (string \<times> string) list \<Rightarrow> files \<Rightarrow> files \<times> bool" where
  "write_all io [] fs = (fs, True)"
| "write_all io ((p, d) # ws) fs =
     (case write_file io p d fs of (fs', ok) \<Rightarrow> if ok then write_all io ws fs' else (fs', False))"

definition writeLua :: "platform \<Rightarrow> manager \<Rightarrow> agent_config \<Rightarrow> files \<Rightarrow> files \<times> bool" where
  "writeLua pf m cfg fs =
     (if \<not> pf_lua pf then (fs, True)
      else if pf_io pf (mg_lua_dir m) \<noteq> Works then (fs, False)
      else write_all (pf_io pf)
             (map (\<lambda>(n, d). (mg_lua_dir m @ ''/'' @ n, d)) (pf_lualib pf) @
              [(mg_lua_dir m @ ''/zones_data.lua'', renderLuaData (ac_zones cfg))]) fs)"

definition error_pages :: "manager \<Rightarrow> agent_config \<Rightarrow> (string \<times> string) list" where
  "error_pages m cfg =
     map (\<lambda>z. (mg_err_dir m @ ''/'' @ upstreamSlug (zn_domain z) @ ''.html'', zn_error_html z))
       (filter (\<lambda>z. trim_space (zn_error_html z) \<noteq> '''') (ac_zones cfg))"

definition writeErrorPages :: "platform \<Rightarrow> manager \<Rightarrow> agent_config \<Rightarrow> files \<Rightarrow> files \<times> bool" where
  "writeErrorPages pf m cfg fs =
     (let ws = error_pages m cfg in
      if ws \<noteq> [] \<and> pf_io pf (mg_err_dir m) \<noteq> Works then (fs, False) else write_all (pf_io pf) ws fs)"

definition backup_path :: "manager \<Rightarrow> string" where
  "backup_path m = mg_conf m @ ''.bak''"

text \<open>The new disk and whether there was a previous configuration; \<open>None\<close> is an error.\<close>

definition conf_backup :: "platform \<Rightarrow> manager \<Rightarrow> files \<Rightarrow> files \<times> bool option" where
  "conf_backup pf m fs =
     (case fs (mg_conf m) of
        None \<Rightarrow> (fs, Some False)
      | Some cur \<Rightarrow>
          if pf_read pf (mg_conf m) = Fails then (fs, None)
          else (case write_file (pf_io pf) (backup_path m) cur fs of (fs', ok) \<Rightarrow> (fs', if ok then Some True else None)))"

definition conf_restore :: "platform \<Rightarrow> manager \<Rightarrow> bool \<Rightarrow> files \<Rightarrow> files \<times> bool" where
  "conf_restore pf m hadPrev fs =
     (if \<not> hadPrev then (if pf_restore pf (mg_conf m) = Works then (fs(mg_conf m := None), True) else (fs, False))
      else (case read_file (pf_read pf) (backup_path m) fs of
              None \<Rightarrow> (fs, False)
            | Some prev \<Rightarrow> write_file (pf_restore pf) (mg_conf m) prev fs))"

definition reloadOrStart :: "platform \<Rightarrow> host \<Rightarrow> host \<times> bool" where
  "reloadOrStart pf h =
     (if pf_reload pf \<or> pf_start pf then (h\<lparr>ho_running := Some (ho_files h)\<rparr>, True) else (h, False))"

definition nginx_Apply :: "platform \<Rightarrow> manager \<Rightarrow> agent_config \<Rightarrow> host \<Rightarrow> host \<times> apply_error option" where
  "nginx_Apply pf m cfg h =
     (case Render pf cfg of
        None \<Rightarrow> (h, Some RenderFailed)
      | Some rendered \<Rightarrow>
          (case conf_backup pf m (ho_files h) of
             (fs1, None) \<Rightarrow> (h\<lparr>ho_files := fs1\<rparr>, Some BackupFailed)
           | (fs1, Some hadPrev) \<Rightarrow>
               (case write_file (pf_io pf) (mg_conf m) rendered fs1 of
                  (fs2, False) \<Rightarrow> (h\<lparr>ho_files := fs2\<rparr>, Some ConfNotWritten)
                | (fs2, True) \<Rightarrow>
                    (case writeLua pf m cfg fs2 of
                       (fs3, False) \<Rightarrow> (h\<lparr>ho_files := fs3\<rparr>, Some LuaNotWritten)
                     | (fs3, True) \<Rightarrow>
                         (case writeErrorPages pf m cfg fs3 of
                            (fs4, False) \<Rightarrow> (h\<lparr>ho_files := fs4\<rparr>, Some PagesNotWritten)
                          | (fs4, True) \<Rightarrow>
                              if \<not> pf_test pf fs4
                              then (case conf_restore pf m hadPrev fs4 of
                                      (fs5, ok) \<Rightarrow> (h\<lparr>ho_files := fs5\<rparr>, Some (if ok then RolledBack else RollbackFailed)))
                              else (case reloadOrStart pf (h\<lparr>ho_files := fs4\<rparr>) of
                                      (h', ok) \<Rightarrow> (h', if ok then None else Some NotReloaded)))))))"

subsection \<open>With certificates\<close>

definition provision_zone :: "platform \<Rightarrow> agent_config \<Rightarrow> agent_zone \<Rightarrow> files \<Rightarrow> files \<times> tls_error option" where
  "provision_zone pf cfg z fs =
     (let mode = ZoneTLSMode cfg z; ph = EnsurePlaceholder (pf_pki pf) (pf_io pf) (pf_now pf) (zn_domain z) in
      if mode = ''letsencrypt'' then ph fs
      else if mode = ''managed'' then
        (if zn_cert z \<noteq> '''' \<and> zn_key z \<noteq> ''''
         then (case WriteManaged (pf_pki pf) (pf_io pf) (zn_domain z) (zn_cert z) (zn_key z) fs of
                 (fs', Inl _) \<Rightarrow> ph fs'
               | (fs', Inr _) \<Rightarrow> (fs', None))
         else ph fs)
      else tls_Ensure (pf_pki pf) (pf_io pf) (pf_now pf) (zn_domain z) mode fs)"

fun provision :: "platform \<Rightarrow> agent_config \<Rightarrow> agent_zone list \<Rightarrow> files \<Rightarrow> files \<times> apply_error option" where
  "provision pf cfg [] fs = (fs, None)"
| "provision pf cfg (z # zs) fs =
     (case provision_zone pf cfg z fs of
        (fs', Some e) \<Rightarrow> (fs', Some (TlsFailed (zn_domain z) e))
      | (fs', None) \<Rightarrow> provision pf cfg zs fs')"

definition ObtainLetsEncrypt :: "platform \<Rightarrow> agent_config \<Rightarrow> string \<Rightarrow> files \<Rightarrow> files \<times> tls_error option" where
  "ObtainLetsEncrypt pf cfg domain fs =
     (if ac_email cfg = '''' then (fs, Some ObtainFailed)
      else if pf_io pf (cp_dir (Paths DefaultBaseDir domain)) \<noteq> Works then (fs, Some MkdirFailed)
      else (case pf_obtain pf domain of
              None \<Rightarrow> (fs, Some ObtainFailed)
            | Some (cert, key) \<Rightarrow> writePair (pf_io pf) (Paths DefaultBaseDir domain) cert key fs))"

text \<open>The loop of the second phase, and of \<open>RenewTLS\<close>, which asks for every zone: \<open>needs\<close> is the test before asking.\<close>

fun obtain_all ::
  "platform \<Rightarrow> agent_config \<Rightarrow> (string \<Rightarrow> files \<Rightarrow> bool) \<Rightarrow> agent_zone list \<Rightarrow> files \<Rightarrow> files \<times> apply_error option \<times> bool" where
  "obtain_all pf cfg needs [] fs = (fs, None, False)"
| "obtain_all pf cfg needs (z # zs) fs =
     (if ZoneTLSMode cfg z \<noteq> ''letsencrypt'' \<or> \<not> needs (zn_domain z) fs then obtain_all pf cfg needs zs fs
      else (case ObtainLetsEncrypt pf cfg (zn_domain z) fs of
              (fs', Some e) \<Rightarrow> (fs', Some (TlsFailed (zn_domain z) e), False)
            | (fs', None) \<Rightarrow> (case obtain_all pf cfg needs zs fs' of (fs'', e, _) \<Rightarrow> (fs'', e, True))))"

definition ApplyWithTLS :: "platform \<Rightarrow> platform \<Rightarrow> manager \<Rightarrow> agent_config \<Rightarrow> host \<Rightarrow> host \<times> apply_error option" where
  "ApplyWithTLS pf pf2 m cfg h =
     (case provision pf cfg (ac_zones cfg) (ho_files h) of
        (fs1, Some e) \<Rightarrow> (h\<lparr>ho_files := fs1\<rparr>, Some e)
      | (fs1, None) \<Rightarrow>
          (case nginx_Apply pf m cfg (h\<lparr>ho_files := fs1\<rparr>) of
             (h2, Some e) \<Rightarrow> (h2, Some e)
           | (h2, None) \<Rightarrow>
               (case obtain_all pf2 cfg (NeedsLetsEncrypt (pf_pki pf2) (pf_read pf2) (pf_now pf2)) (ac_zones cfg) (ho_files h2) of
                  (fs3, Some e, _) \<Rightarrow> (h2\<lparr>ho_files := fs3\<rparr>, Some e)
                | (fs3, None, changed) \<Rightarrow>
                    if changed then nginx_Apply pf2 m cfg (h2\<lparr>ho_files := fs3\<rparr>) else (h2\<lparr>ho_files := fs3\<rparr>, None))))"

definition RenewTLS :: "platform \<Rightarrow> manager \<Rightarrow> agent_config \<Rightarrow> host \<Rightarrow> host \<times> apply_error option" where
  "RenewTLS pf m cfg h =
     (case obtain_all pf cfg (\<lambda>_ _. True) (ac_zones cfg) (ho_files h) of
        (fs, Some e, _) \<Rightarrow> (h\<lparr>ho_files := fs\<rparr>, Some e)
      | (fs, None, changed) \<Rightarrow> if changed then nginx_Apply pf m cfg (h\<lparr>ho_files := fs\<rparr>) else (h\<lparr>ho_files := fs\<rparr>, None))"

text \<open>\<open>reapply\<close> on the host: the WAF engine is reloaded with the zones of a configuration that was applied.\<close>

definition reapply_host ::
  "platform \<Rightarrow> platform \<Rightarrow> manager \<Rightarrow> config_error + agent_config \<Rightarrow> host \<times> agent_zone list \<Rightarrow> (host \<times> agent_zone list) \<times> bool" where
  "reapply_host pf pf2 m fetched s =
     (case fetched of
        Inl _ \<Rightarrow> (s, False)
      | Inr cfg \<Rightarrow>
          (case ApplyWithTLS pf pf2 m cfg (fst s) of
             (h, Some _) \<Rightarrow> ((h, snd s), False)
           | (h, None) \<Rightarrow> ((h, ac_zones cfg), True)))"


section \<open>Properties\<close>

definition apart :: "manager \<Rightarrow> string \<Rightarrow> bool" where
  "apart m p \<longleftrightarrow> \<not> has_prefix p (mg_lua_dir m @ ''/'') \<and> \<not> has_prefix p (mg_err_dir m @ ''/'')"

lemma write_other: "p \<noteq> q \<Longrightarrow> fst (write_file io q d fs) p = fs p"
  by (simp add: write_file_def split: io.split)

lemma write_ok: "write_file io q d fs = (fs', True) \<Longrightarrow> fs' = fs(q \<mapsto> d)"
  by (auto simp: write_file_def split: io.splits)

lemma write_all_other: "p \<notin> fst ` set ws \<Longrightarrow> fst (write_all io ws fs) p = fs p"
  by (induction ws arbitrary: fs) (auto split: prod.splits if_splits simp: write_other dest!: arg_cong [of _ _ fst])

lemma prefix_append: "has_prefix (a @ b) a"
  by (simp add: has_prefix_def)

lemma lua_other: "apart m p \<Longrightarrow> fst (writeLua pf m cfg fs) p = fs p"
proof -
  assume a: "apart m p"
  have n: "p \<noteq> mg_lua_dir m @ ''/'' @ n" for n
    using a prefix_append [of "mg_lua_dir m @ ''/''" n] by (auto simp: apart_def)
  have "p \<notin> fst ` set (map (\<lambda>(n, d). (mg_lua_dir m @ ''/'' @ n, d)) (pf_lualib pf) @
      [(mg_lua_dir m @ ''/zones_data.lua'', renderLuaData (ac_zones cfg))])" (is "p \<notin> ?names")
  proof
    assume "p \<in> ?names"
    then have "\<exists>k. p = mg_lua_dir m @ ''/'' @ k" by auto
    then show False using n by blast
  qed
  then show ?thesis unfolding writeLua_def by (simp add: write_all_other del: set_append)
qed

lemma pages_other: "apart m p \<Longrightarrow> fst (writeErrorPages pf m cfg fs) p = fs p"
proof -
  assume a: "apart m p"
  have n: "p \<noteq> mg_err_dir m @ ''/'' @ n" for n
    using a prefix_append [of "mg_err_dir m @ ''/''" n] by (auto simp: apart_def)
  have "p \<notin> fst ` set (error_pages m cfg)"
  proof
    assume "p \<in> fst ` set (error_pages m cfg)"
    then have "\<exists>k. p = mg_err_dir m @ ''/'' @ k" by (auto simp: error_pages_def)
    then show False using n by blast
  qed
  then show ?thesis unfolding writeErrorPages_def by (simp add: write_all_other Let_def)
qed

lemma bak_not_conf [simp]: "backup_path m \<noteq> mg_conf m" "mg_conf m \<noteq> backup_path m"
  by (simp_all add: backup_path_def)

lemma backup_cases:
  "conf_backup pf m fs = (fs1, r) \<Longrightarrow> fs1 (mg_conf m) = fs (mg_conf m) \<and>
     (r = Some False \<longrightarrow> fs (mg_conf m) = None) \<and> (r = Some True \<longrightarrow> fs1 (backup_path m) = fs (mg_conf m) \<and> fs (mg_conf m) \<noteq> None)"
  by (auto simp: conf_backup_def write_file_def split: option.splits io.splits if_splits)

text \<open>The outcomes of \<open>Apply\<close>: stopped before the test, refused by it, or past it.\<close>

lemma apply_cases:
  assumes "nginx_Apply pf m cfg h = (h', r)" "apart m (mg_conf m)" "apart m (backup_path m)"
  obtains (stopped) e where "ho_running h' = ho_running h" "r = Some e" "e \<in> {RenderFailed, BackupFailed, ConfNotWritten, LuaNotWritten, PagesNotWritten}"
  | (refused) "ho_running h' = ho_running h" "r = Some RollbackFailed \<or> r = Some RolledBack \<and> ho_files h' (mg_conf m) = ho_files h (mg_conf m)"
  | (tested) rendered where "Render pf cfg = Some rendered" "pf_test pf (ho_files h')" "ho_files h' (mg_conf m) = Some rendered"
      "ho_running h' = Some (ho_files h') \<and> r = None \<or> ho_running h' = ho_running h \<and> r = Some NotReloaded"
proof (cases "Render pf cfg")
  case None
  then show thesis using assms(1) stopped by (auto simp: nginx_Apply_def)
next
  case (Some rendered)
  obtain fs1 b where b: "conf_backup pf m (ho_files h) = (fs1, b)" by fastforce
  obtain fs2 ok2 where w: "write_file (pf_io pf) (mg_conf m) rendered fs1 = (fs2, ok2)" by fastforce
  obtain fs3 ok3 where l: "writeLua pf m cfg fs2 = (fs3, ok3)" by fastforce
  obtain fs4 ok4 where p: "writeErrorPages pf m cfg fs3 = (fs4, ok4)" by fastforce
  note eqs = Some b w l p
  show thesis
  proof (cases "b = None \<or> \<not> ok2 \<or> \<not> ok3 \<or> \<not> ok4")
    case True
    then show thesis using assms(1) eqs stopped by (auto simp: nginx_Apply_def split: option.splits bool.splits)
  next
    case False
    then obtain hadPrev where had: "b = Some hadPrev" and ok: "ok2" "ok3" "ok4" by auto
    have fs2: "fs2 = fs1(mg_conf m \<mapsto> rendered)" using write_ok w ok(1) by simp
    have keep: "fs4 q = fs2 q" if "apart m q" for q
      using lua_other [OF that, of pf cfg fs2] pages_other [OF that, of pf cfg fs3] l p by simp
    show thesis
    proof (cases "pf_test pf fs4")
      case True
      have "(h', r) = (case reloadOrStart pf (h\<lparr>ho_files := fs4\<rparr>) of (h', ok) \<Rightarrow> (h', if ok then None else Some NotReloaded))"
        using assms(1) eqs had ok True by (simp add: nginx_Apply_def)
      then have "ho_files h' = fs4" "ho_running h' = Some fs4 \<and> r = None \<or> ho_running h' = ho_running h \<and> r = Some NotReloaded"
        by (auto simp: reloadOrStart_def split: if_splits)
      then show thesis using tested [OF Some] True keep [OF assms(2)] fs2 by simp
    next
      case False
      obtain fs5 ok5 where r: "conf_restore pf m hadPrev fs4 = (fs5, ok5)" by fastforce
      have h': "h' = h\<lparr>ho_files := fs5\<rparr>" "r = Some (if ok5 then RolledBack else RollbackFailed)"
        using assms(1) eqs had ok False r by (simp_all add: nginx_Apply_def)
      have "fs5 (mg_conf m) = ho_files h (mg_conf m)" if "ok5"
      proof (cases hadPrev)
        case False
        then show ?thesis using r that backup_cases [OF b] had by (auto simp: conf_restore_def split: if_splits)
      next
        case True
        have bak: "fs4 (backup_path m) = ho_files h (mg_conf m)"
          using keep [OF assms(3)] fs2 backup_cases [OF b] had True by simp
        have "read_file (pf_read pf) (backup_path m) fs4 \<noteq> None" using r that True by (auto simp: conf_restore_def split: option.splits)
        then obtain prev where "read_file (pf_read pf) (backup_path m) fs4 = Some prev" by blast
        moreover from this have "fs4 (backup_path m) = Some prev" by (rule read_Some)
        ultimately have "write_file (pf_restore pf) (mg_conf m) prev fs4 = (fs5, True)" "ho_files h (mg_conf m) = Some prev"
          using r that True bak by (auto simp: conf_restore_def)
        then show ?thesis using write_ok by fastforce
      qed
      then show thesis using refused h' by simp
    qed
  qed
qed

text \<open>
  C5: The golden rule. \<open>Apply\<close> never makes nginx load a configuration that fails its test,
  whatever step fails: what runs afterwards is what ran before, or the new configuration, tested
  as it is on disk, and then only if \<open>Apply\<close> succeeded. A configuration that is refused is
  replaced by the previous one.
\<close>

theorem apply_safe:
  assumes "nginx_Apply pf m cfg h = (h', r)" "apart m (mg_conf m)" "apart m (backup_path m)"
  shows "(if r = None
      then pf_test pf (ho_files h') \<and> ho_running h' = Some (ho_files h') \<and> ho_files h' (mg_conf m) = Render pf cfg
      else ho_running h' = ho_running h) \<and>
    (r = Some RolledBack \<longrightarrow> ho_files h' (mg_conf m) = ho_files h (mg_conf m))"
  using assms by (rule apply_cases) auto


definition runs_tested :: "(files \<Rightarrow> bool) \<Rightarrow> files option \<Rightarrow> host \<Rightarrow> bool" where
  "runs_tested tst start h \<longleftrightarrow> ho_running h = start \<or> (\<exists>fs. ho_running h = Some fs \<and> tst fs)"

lemma apply_runs:
  assumes "runs_tested (pf_test pf) start h" "apart m (mg_conf m)" "apart m (backup_path m)"
  shows "runs_tested (pf_test pf) start (fst (nginx_Apply pf m cfg h))"
proof -
  obtain h' r where a: "nginx_Apply pf m cfg h = (h', r)" by fastforce
  show ?thesis using apply_cases [OF a assms(2,3)] assms(1) unfolding a runs_tested_def by (metis fst_conv)
qed

lemma runs_files [simp]: "runs_tested tst start (h\<lparr>ho_files := fs\<rparr>) = runs_tested tst start h"
  by (simp add: runs_tested_def)

lemma tls_runs:
  assumes "runs_tested tst start h" "pf_test pf = tst" "pf_test pf2 = tst" "apart m (mg_conf m)" "apart m (backup_path m)"
  shows "runs_tested tst start (fst (ApplyWithTLS pf pf2 m cfg h))"
proof -
  obtain fs1 e where p: "provision pf cfg (ac_zones cfg) (ho_files h) = (fs1, e)" by fastforce
  obtain h2 e2 where a: "nginx_Apply pf m cfg (h\<lparr>ho_files := fs1\<rparr>) = (h2, e2)" by fastforce
  obtain fs3 e3 changed where o': "obtain_all pf2 cfg (NeedsLetsEncrypt (pf_pki pf2) (pf_read pf2) (pf_now pf2)) (ac_zones cfg) (ho_files h2) = (fs3, e3, changed)"
    by (metis prod_cases3)
  have h2: "runs_tested tst start h2" using apply_runs [of pf start "h\<lparr>ho_files := fs1\<rparr>" m cfg] assms a by simp
  have h3: "runs_tested tst start (fst (nginx_Apply pf2 m cfg (h2\<lparr>ho_files := fs3\<rparr>)))"
    using apply_runs [of pf2 start "h2\<lparr>ho_files := fs3\<rparr>" m cfg] assms h2 by simp
  show ?thesis using assms(1) h2 h3 p a o' by (auto simp: ApplyWithTLS_def split: option.splits)
qed

text \<open>
  C16: The edge never runs an untested configuration. Through any sequence of fetched
  configurations, failing steps, certificate errors and refused tests, nginx runs what it ran at
  the start or a disk that passed its test; and whenever a cycle succeeds, the WAF engine holds
  the zones of the configuration that runs.
\<close>

theorem edge_runs_tested:
  assumes "apart m (mg_conf m)" "apart m (backup_path m)" "list_all (\<lambda>(pf, pf2, _). pf_test pf = tst \<and> pf_test pf2 = tst) runs"
  shows "runs_tested tst (ho_running (fst s)) (fst (foldl (\<lambda>s (pf, pf2, fetched). fst (reapply_host pf pf2 m fetched s)) s runs)) \<and>
     (\<forall>pf pf2 cfg s'. reapply_host pf pf2 m (Inr cfg) s = (s', True) \<longrightarrow> snd s' = ac_zones cfg)"
proof
  let ?step = "\<lambda>s (pf, pf2, fetched). fst (reapply_host pf pf2 m fetched s)"
  have "runs_tested tst start (fst (foldl ?step s runs))" if "runs_tested tst start (fst s)" for s start
    using that assms(3)
  proof (induction runs arbitrary: s)
    case (Cons x runs)
    obtain pf pf2 fetched where x: "x = (pf, pf2, fetched)" by (cases x)
    have t: "pf_test pf = tst" "pf_test pf2 = tst" using Cons.prems(2) x by auto
    have "runs_tested tst start (fst (?step s x))"
      using Cons.prems(1) tls_runs [OF Cons.prems(1) t assms(1,2)] unfolding x reapply_host_def
      by (auto split: sum.splits prod.splits option.splits) (metis fst_conv)+
    then show ?case using Cons.IH Cons.prems(2) by simp
  qed simp
  then show "runs_tested tst (ho_running (fst s)) (fst (foldl ?step s runs))" by (simp add: runs_tested_def)
  show "\<forall>pf pf2 cfg s'. reapply_host pf pf2 m (Inr cfg) s = (s', True) \<longrightarrow> snd s' = ac_zones cfg"
    by (auto simp: reapply_host_def split: prod.splits option.splits)
qed

definition demo_platform :: "(files \<Rightarrow> bool) \<Rightarrow> platform" where
  "demo_platform tst =
     \<lparr>pf_test = tst, pf_lua = True, pf_lualib = [(''init.lua'', ''x'')], pf_geoip = False, pf_version = Some (1, 26, 0),
      pf_parse_url = demo_url, pf_print = (\<lambda>rd. Some (concat (map zx_domain (rd_zones rd)))), pf_pki = demo_pki, pf_now = 0,
      pf_io = (\<lambda>_. Works), pf_read = (\<lambda>_. Works), pf_restore = (\<lambda>_. Works), pf_reload = True, pf_start = True,
      pf_obtain = (\<lambda>_. None)\<rparr>"

definition demo_manager :: manager where "demo_manager = NewManager ''''"

definition demo_host :: host where
  "demo_host = \<lparr>ho_files = [mg_conf demo_manager \<mapsto> ''old''], ho_running = Some [mg_conf demo_manager \<mapsto> ''old'']\<rparr>"

text \<open>An nginx that refuses one domain, and the configurations with and without it.\<close>

definition picky :: "files \<Rightarrow> bool" where
  "picky fs = (fs (mg_conf demo_manager) \<noteq> Some ''bad.x'')"

definition le_zone :: "string \<Rightarrow> string \<Rightarrow> agent_zone" where
  "le_zone d mode = toZone (demo_wire d ''http://o'' mode 0)"

lemma demo_apart: "apart demo_manager (mg_conf demo_manager)" "apart demo_manager (backup_path demo_manager)"
  by code_simp+

lemma apply_safe_witness:
  "ho_files (fst (nginx_Apply (demo_platform picky) demo_manager (demo_cfg [le_zone ''bad.x'' '''']) demo_host)) (mg_conf demo_manager) = Some ''old''"
proof -
  let ?a = "nginx_Apply (demo_platform picky) demo_manager (demo_cfg [le_zone ''bad.x'' '''']) demo_host"
  have r: "snd ?a = Some RolledBack" by code_simp
  have "?a = (fst ?a, snd ?a)" by simp
  from apply_safe [OF this demo_apart] r
  have "ho_files (fst ?a) (mg_conf demo_manager) = ho_files demo_host (mg_conf demo_manager)" by blast
  then show ?thesis by (simp add: demo_host_def)
qed

lemma edge_runs_tested_witness:
  "runs_tested picky (ho_running demo_host)
     (fst (foldl (\<lambda>s (pf, pf2, fetched). fst (reapply_host pf pf2 demo_manager fetched s)) (demo_host, [])
        [(demo_platform picky, demo_platform picky, Inr (demo_cfg [le_zone ''bad.x'' ''''])),
         (demo_platform picky, demo_platform picky, Inr (demo_cfg [le_zone ''a.x'' '''']))]))"
  using edge_runs_tested [OF demo_apart, of picky "[(demo_platform picky, demo_platform picky, Inr (demo_cfg [le_zone ''bad.x'' ''''])),
         (demo_platform picky, demo_platform picky, Inr (demo_cfg [le_zone ''a.x'' '''']))]" "(demo_host, [])"]
  by (simp add: demo_platform_def)

text \<open>
  What modelling showed. When a file written after the configuration cannot be written, the new,
  untested configuration stays on disk for the next restart. The roll-back restores the
  configuration but not the Lua data, which the next worker loads. And when a Let's Encrypt
  certificate cannot be obtained, the new configuration already runs, but the cycle counts as
  failed and the WAF engine keeps the old zones.
\<close>

lemma untested_conf_stays:
  "let pf = (demo_platform picky)\<lparr>pf_io := (\<lambda>p. if p = mg_lua_dir demo_manager then Fails else Works)\<rparr>;
       (h, r) = nginx_Apply pf demo_manager (demo_cfg [le_zone ''bad.x'' '''']) demo_host
   in r = Some LuaNotWritten \<and> ho_files h (mg_conf demo_manager) = Some ''bad.x''"
  by code_simp

lemma rollback_keeps_new_lua:
  "let (h, r) = nginx_Apply (demo_platform picky) demo_manager (demo_cfg [le_zone ''bad.x'' '''']) demo_host
   in r = Some RolledBack \<and> ho_files h (mg_lua_dir demo_manager @ ''/zones_data.lua'') \<noteq> ho_files demo_host (mg_lua_dir demo_manager @ ''/zones_data.lua'')"
  by code_simp

lemma waf_keeps_old_zones:
  "let cfg = (demo_cfg [le_zone ''a.x'' ''letsencrypt''])\<lparr>ac_email := ''m''\<rparr>;
       ((h, waf), ok) = reapply_host (demo_platform picky) ((demo_platform picky)\<lparr>pf_now := 990 * (24 * hour)\<rparr>) demo_manager (Inr cfg) (demo_host, [])
   in \<not> ok \<and> waf = [] \<and> map_option (\<lambda>fs. fs (mg_conf demo_manager)) (ho_running h) = Some (Some ''a.x'')"
  by code_simp

end
