(* ===== verification/WafEngine.thy ===== *)
theory WafEngine
  imports AgentConfig Telemetry
begin

section \<open>The WAF engine\<close>

text \<open>
  \<open>brisk-agent/waf\<close>: per-zone rules compiled on every applied configuration, and the verdict on a
  request. Regular expressions, address ranges and the OWASP engine (Coraza) are parameters;
  an engine may return an error or panic. Events are returned in the order they are emitted.
\<close>

text \<open>\<open>'w\<close> is a compiled managed ruleset.\<close>

record request =
  rq_host :: string
  rq_method :: string
  rq_uri :: string
  rq_ip :: string
  rq_agent :: string
  rq_country :: string
  rq_headers :: "(string \<times> string list) list"

record waf_event =
  we_ts :: instant
  we_zone :: string
  we_rule :: string
  we_type :: string
  we_action :: string
  we_mode :: string
  we_ip :: string
  we_country :: string
  we_path :: string
  we_method :: string
  we_agent :: string
  we_message :: string

record interruption =
  it_rule :: int
  it_data :: string

record compiled_rule =
  ru_id :: string
  ru_field :: string
  ru_op :: string
  ru_value :: string
  ru_header :: string
  ru_action :: string
  ru_re :: "(string \<Rightarrow> bool) option"
  ru_cidr :: "(string \<Rightarrow> bool) option"

record 'w zone_engine =
  ze_host :: string
  ze_mode :: string
  ze_fail_open :: bool
  ze_managed :: bool
  ze_waf :: "'w option"
  ze_rules :: "compiled_rule list"
  ze_print :: string

text \<open>What the engine hands to Coraza, and the libraries.\<close>

record coraza_input =
  ci_ip :: string
  ci_uri :: string
  ci_method :: string
  ci_headers :: "(string \<times> string) list"

type_synonym relevant = "string \<times> string \<times> int \<times> bool \<times> bool \<times> waf_rule list"

record 'w waf_libs =
  wl_regexp :: "string \<Rightarrow> (string \<Rightarrow> bool) option"
  wl_cidr :: "string \<Rightarrow> (string \<Rightarrow> bool) option"
  wl_compile :: "int \<Rightarrow> 'w option"
  wl_run :: "'w \<Rightarrow> coraza_input \<Rightarrow> (string + interruption option) option"
  wl_hash :: "relevant \<Rightarrow> string"
  wl_canonical :: "string \<Rightarrow> string"

subsection \<open>Compilation\<close>

definition modeOr :: "string \<Rightarrow> string" where
  "modeOr m = (if equal_fold m ''block'' then ''block'' else ''detect'')"

definition relevant_of :: "zone_waf \<Rightarrow> relevant" where
  "relevant_of w = (zw_mode w, zw_ruleset w, zw_paranoia w, zw_fail_open w, zw_wp_preset w, zw_rules w)"

definition waf_fingerprint :: "'w waf_libs \<Rightarrow> zone_waf \<Rightarrow> string" where
  "waf_fingerprint L w = wl_hash L (relevant_of w)"

definition compileRule :: "'w waf_libs \<Rightarrow> waf_rule \<Rightarrow> compiled_rule option" where
  "compileRule L r =
     (let c = \<lparr>ru_id = ''custom:'' @ show_int (wr_id r), ru_field = wr_field r, ru_op = wr_op r, ru_value = wr_value r,
               ru_header = wr_header r, ru_action = wr_action r, ru_re = None, ru_cidr = None\<rparr>
      in if wr_op r = ''regex'' then map_option (\<lambda>m. c\<lparr>ru_re := Some m\<rparr>) (wl_regexp L (wr_value r))
         else if wr_op r = ''cidr'' then map_option (\<lambda>m. c\<lparr>ru_cidr := Some m\<rparr>) (wl_cidr L (wr_value r))
         else Some c)"

definition bad_agents :: string where
  "bad_agents = ''(?i)(sqlmap|nikto|nmap|masscan|wpscan|nessus|fimap|acunetix|whatweb|libwww-perl)''"

definition wpPresetRules :: "'w waf_libs \<Rightarrow> compiled_rule list" where
  "wpPresetRules L =
     [\<lparr>ru_id = ''wp:xmlrpc'', ru_field = ''path'', ru_op = ''eq'', ru_value = ''/xmlrpc.php'', ru_header = '''',
       ru_action = ''block'', ru_re = None, ru_cidr = None\<rparr>,
      \<lparr>ru_id = ''wp:bad_ua'', ru_field = ''user_agent'', ru_op = ''regex'', ru_value = bad_agents, ru_header = '''',
       ru_action = ''block'', ru_re = wl_regexp L bad_agents, ru_cidr = None\<rparr>]"

definition buildZoneWAF :: "'w waf_libs \<Rightarrow> string \<Rightarrow> zone_waf \<Rightarrow> 'w zone_engine option" where
  "buildZoneWAF L host w =
     (let managed = equal_fold (zw_ruleset w) ''owasp_crs'';
          rules = (if zw_wp_preset w then wpPresetRules L else []) @
                  List.map_filter (compileRule L) (filter wr_enabled (sort_key wr_priority (zw_rules w)));
          z = \<lparr>ze_host = host, ze_mode = modeOr (zw_mode w), ze_fail_open = zw_fail_open w, ze_managed = managed, ze_waf = None,
               ze_rules = rules, ze_print = waf_fingerprint L w\<rparr>
      in if managed then map_option (\<lambda>e. z\<lparr>ze_waf := Some e\<rparr>) (wl_compile L (zw_paranoia w)) else Some z)"

subsection \<open>Reload\<close>

type_synonym 'w engine = "string \<rightharpoonup> 'w zone_engine"

definition reload_zone :: "'w waf_libs \<Rightarrow> 'w engine \<Rightarrow> 'w engine \<Rightarrow> agent_zone \<Rightarrow> 'w engine" where
  "reload_zone L old nxt z =
     (case zn_waf z of
        None \<Rightarrow> nxt
      | Some w \<Rightarrow>
          if \<not> zw_enabled w then nxt
          else (let host = to_lower (zn_domain z); build = (case buildZoneWAF L host w of None \<Rightarrow> nxt | Some zw \<Rightarrow> nxt(host \<mapsto> zw))
                in case old host of
                     Some prev \<Rightarrow> if ze_print prev = waf_fingerprint L w then nxt(host \<mapsto> prev) else build
                   | None \<Rightarrow> build))"

definition engine_Reload :: "'w waf_libs \<Rightarrow> agent_zone list \<Rightarrow> 'w engine \<Rightarrow> 'w engine" where
  "engine_Reload L zs old = foldl (reload_zone L old) Map.empty zs"

subsection \<open>Matching\<close>

definition matchStr :: "compiled_rule \<Rightarrow> string \<Rightarrow> bool" where
  "matchStr r s =
     (if ru_op r = ''eq'' then equal_fold s (ru_value r)
      else if ru_op r = ''prefix'' then has_prefix s (ru_value r)
      else if ru_op r = ''regex'' then (case ru_re r of None \<Rightarrow> False | Some m \<Rightarrow> m s)
      else False)"

definition matchIP :: "compiled_rule \<Rightarrow> string \<Rightarrow> bool" where
  "matchIP r ip =
     (if ru_op r = ''cidr'' then (case ru_cidr r of None \<Rightarrow> False | Some m \<Rightarrow> m ip)
      else if ru_op r = ''eq'' then ip = ru_value r
      else if ru_op r = ''prefix'' then has_prefix ip (ru_value r)
      else if ru_op r = ''regex'' then (case ru_re r of None \<Rightarrow> False | Some m \<Rightarrow> m ip)
      else False)"

definition header_get :: "'w waf_libs \<Rightarrow> (string \<times> string list) list \<Rightarrow> string \<Rightarrow> string" where
  "header_get L hs n = (case map_of hs (wl_canonical L n) of Some (v # _) \<Rightarrow> v | _ \<Rightarrow> '''')"

definition rule_matches :: "'w waf_libs \<Rightarrow> request \<Rightarrow> string \<Rightarrow> compiled_rule \<Rightarrow> bool" where
  "rule_matches L req path r =
     (if ru_field r = ''ip'' then matchIP r (rq_ip req)
      else if ru_field r = ''country'' then (if rq_country req = '''' then False else matchStr r (rq_country req))
      else if ru_field r = ''path'' then matchStr r path
      else if ru_field r = ''method'' then matchStr r (rq_method req)
      else if ru_field r = ''user_agent'' then matchStr r (rq_agent req)
      else if ru_field r = ''header'' then matchStr r (header_get L (rq_headers req) (ru_header r))
      else False)"

definition pathOnly :: "string \<Rightarrow> string" where
  "pathOnly uri = (case index_byte (CHR ''?'') uri of Some i \<Rightarrow> take i uri | None \<Rightarrow> uri)"

definition skipHeader :: "string \<Rightarrow> bool" where
  "skipHeader k =
     (to_lower k \<in> {''host'', ''content-length'', ''connection'', ''x-brisk-waf-zone'', ''x-brisk-waf-uri'', ''x-brisk-waf-method'',
                    ''x-brisk-waf-ip'', ''x-brisk-waf-country''})"

subsection \<open>The verdict\<close>

definition coraza_input_of :: "((string \<times> string list) list \<Rightarrow> (string \<times> string list) list) \<Rightarrow> request \<Rightarrow> coraza_input" where
  "coraza_input_of ord req =
     \<lparr>ci_ip = (if rq_ip req = '''' then ''0.0.0.0'' else rq_ip req),
      ci_uri = (if rq_uri req = '''' then ''/'' else rq_uri req),
      ci_method = (if rq_method req = '''' then ''GET'' else rq_method req),
      ci_headers = (if rq_host req \<noteq> '''' then [(''Host'', rq_host req)] else []) @
        concat (map (\<lambda>(k, vs). map (Pair k) vs) (filter (\<lambda>(k, vs). \<not> skipHeader k) (ord (rq_headers req))))\<rparr>"

definition corazaInspect ::
  "'w waf_libs \<Rightarrow> ((string \<times> string list) list \<Rightarrow> (string \<times> string list) list) \<Rightarrow> 'w \<Rightarrow> request \<Rightarrow> string + interruption option" where
  "corazaInspect L ord w req =
     (case wl_run L w (coraza_input_of ord req) of None \<Rightarrow> Inl ''coraza panic'' | Some r \<Rightarrow> r)"

definition crsMessage :: "interruption \<Rightarrow> string" where
  "crsMessage it = ''CRS rule '' @ show_int (it_rule it) @ (if it_data it \<noteq> '''' then '': '' @ it_data it else '''')"

definition emit :: "instant \<Rightarrow> 'w zone_engine \<Rightarrow> request \<Rightarrow> string \<Rightarrow> string \<Rightarrow> string \<Rightarrow> string \<Rightarrow> string \<Rightarrow> waf_event" where
  "emit now zw req path rid rtype action msg =
     \<lparr>we_ts = now, we_zone = ze_host zw, we_rule = rid, we_type = rtype, we_action = action, we_mode = ze_mode zw,
      we_ip = rq_ip req, we_country = rq_country req, we_path = path, we_method = rq_method req, we_agent = rq_agent req,
      we_message = msg\<rparr>"

text \<open>\<open>decide\<close> and the two stages: whether to block, and the events.\<close>

definition waf_decide ::
  "instant \<Rightarrow> 'w zone_engine \<Rightarrow> request \<Rightarrow> string \<Rightarrow> string \<Rightarrow> string \<Rightarrow> string \<Rightarrow> string \<Rightarrow> bool \<times> waf_event list" where
  "waf_decide now zw req path rtype rid action msg =
     (if ze_mode zw = ''block'' then (True, [emit now zw req path rid rtype action msg])
      else (False, [emit now zw req path rid rtype ''detect'' msg]))"

definition inspect_managed ::
  "'w waf_libs \<Rightarrow> ((string \<times> string list) list \<Rightarrow> (string \<times> string list) list) \<Rightarrow> instant \<Rightarrow> 'w zone_engine \<Rightarrow> request \<Rightarrow> string \<Rightarrow>
   bool \<times> waf_event list" where
  "inspect_managed L ord now zw req path =
     (case (if ze_managed zw then ze_waf zw else None) of
        None \<Rightarrow> (False, [])
      | Some w \<Rightarrow>
          (case corazaInspect L ord w req of
             Inl e \<Rightarrow>
               if ze_fail_open zw then (False, [emit now zw req path ''engine_error'' ''managed'' ''log'' (''waf engine error: '' @ e)])
               else (True, [emit now zw req path ''engine_error'' ''managed'' ''block'' (''waf engine error: '' @ e)])
           | Inr (Some it) \<Rightarrow> waf_decide now zw req path ''managed'' (''crs:'' @ show_int (it_rule it)) ''block'' (crsMessage it)
           | Inr None \<Rightarrow> (False, [])))"

fun inspect_rules ::
  "'w waf_libs \<Rightarrow> ((string \<times> string list) list \<Rightarrow> (string \<times> string list) list) \<Rightarrow> instant \<Rightarrow> 'w zone_engine \<Rightarrow> request \<Rightarrow> string \<Rightarrow>
   compiled_rule list \<Rightarrow> bool \<times> waf_event list" where
  "inspect_rules L ord now zw req path [] = inspect_managed L ord now zw req path"
| "inspect_rules L ord now zw req path (r # rs) =
     (if \<not> rule_matches L req path r then inspect_rules L ord now zw req path rs
      else if ru_action r = ''allow'' then (False, [])
      else if ru_action r = ''log'' then
        (let (b, evs) = inspect_rules L ord now zw req path rs
         in (b, emit now zw req path (ru_id r) ''custom'' ''log'' ''custom rule matched (log)'' # evs))
      else waf_decide now zw req path ''custom'' (ru_id r) (ru_action r) ''custom rule matched'')"

definition Inspect ::
  "'w waf_libs \<Rightarrow> ((string \<times> string list) list \<Rightarrow> (string \<times> string list) list) \<Rightarrow> instant \<Rightarrow> 'w engine \<Rightarrow> request \<Rightarrow> bool \<times> waf_event list" where
  "Inspect L ord now e req =
     (case e (to_lower (rq_host req)) of
        None \<Rightarrow> (False, [])
      | Some zw \<Rightarrow> inspect_rules L ord now zw req (pathOnly (rq_uri req)) (ze_rules zw))"

text \<open>The handler nginx calls: the request from the headers of its subrequest, the status, the events buffered.\<close>

definition inspect_handler ::
  "'w waf_libs \<Rightarrow> ((string \<times> string list) list \<Rightarrow> (string \<times> string list) list) \<Rightarrow> instant \<Rightarrow> 'w engine \<Rightarrow> (string \<times> string list) list \<Rightarrow>
   waf_event event_buffer \<Rightarrow> waf_event event_buffer \<times> int" where
  "inspect_handler L ord now e hs buf =
     (let h = header_get L hs; c = h ''X-Brisk-WAF-Country'';
          req = \<lparr>rq_host = h ''X-Brisk-WAF-Zone'', rq_method = h ''X-Brisk-WAF-Method'', rq_uri = h ''X-Brisk-WAF-URI'',
                 rq_ip = h ''X-Brisk-WAF-IP'', rq_agent = h ''User-Agent'', rq_country = (if c = ''-'' then '''' else c), rq_headers = hs\<rparr>;
          (block, evs) = Inspect L ord now e req
      in (foldl AddEvent buf evs, if block then 403 else 200))"


section \<open>Properties\<close>

subsection \<open>The policy\<close>

text \<open>
  What a zone's protection promises: the first matching rule that is no log rule decides; only
  when there is none, the managed ruleset does.
\<close>

definition decisive :: "'w waf_libs \<Rightarrow> request \<Rightarrow> compiled_rule \<Rightarrow> bool" where
  "decisive L req r = (rule_matches L req (pathOnly (rq_uri req)) r \<and> ru_action r \<noteq> ''log'')"

definition managed_verdict ::
  "'w waf_libs \<Rightarrow> ((string \<times> string list) list \<Rightarrow> (string \<times> string list) list) \<Rightarrow> 'w zone_engine \<Rightarrow> request \<Rightarrow> string + interruption option" where
  "managed_verdict L ord zw req =
     (case (if ze_managed zw then ze_waf zw else None) of None \<Rightarrow> Inr None | Some w \<Rightarrow> corazaInspect L ord w req)"

definition policy_blocks ::
  "'w waf_libs \<Rightarrow> ((string \<times> string list) list \<Rightarrow> (string \<times> string list) list) \<Rightarrow> 'w zone_engine \<Rightarrow> request \<Rightarrow> bool" where
  "policy_blocks L ord zw req =
     (case find (decisive L req) (ze_rules zw) of
        Some r \<Rightarrow> ru_action r \<noteq> ''allow'' \<and> ze_mode zw = ''block''
      | None \<Rightarrow>
          (case managed_verdict L ord zw req of
             Inl e \<Rightarrow> \<not> ze_fail_open zw
           | Inr it \<Rightarrow> it \<noteq> None \<and> ze_mode zw = ''block''))"

lemma managed_policy:
  "fst (inspect_managed L ord now zw req path) =
     (case managed_verdict L ord zw req of Inl e \<Rightarrow> \<not> ze_fail_open zw | Inr it \<Rightarrow> it \<noteq> None \<and> ze_mode zw = ''block'')"
  by (auto simp: inspect_managed_def managed_verdict_def waf_decide_def split: option.splits sum.splits)

lemma rules_policy:
  "fst (inspect_rules L ord now zw req (pathOnly (rq_uri req)) rs) =
     (case find (decisive L req) rs of
        Some r \<Rightarrow> ru_action r \<noteq> ''allow'' \<and> ze_mode zw = ''block''
      | None \<Rightarrow> fst (inspect_managed L ord now zw req (pathOnly (rq_uri req))))"
  by (induction rs) (auto simp: decisive_def waf_decide_def split: prod.split)

lemma rules_events:
  "\<exists>final. snd (inspect_rules L ord now zw req p rs) =
     map (\<lambda>r. emit now zw req p (ru_id r) ''custom'' ''log'' ''custom rule matched (log)'')
       (filter (\<lambda>r. rule_matches L req p r) (takeWhile (\<lambda>r. rule_matches L req p r \<longrightarrow> ru_action r = ''log'') rs)) @ final \<and>
     (fst (inspect_rules L ord now zw req p rs) \<longrightarrow> final \<noteq> []) \<and> length final \<le> 1"
proof (induction rs)
  case Nil
  show ?case by (auto simp: inspect_managed_def waf_decide_def split: option.splits sum.splits)
next
  case (Cons r rs)
  then obtain final where f: "snd (inspect_rules L ord now zw req p rs) =
     map (\<lambda>r. emit now zw req p (ru_id r) ''custom'' ''log'' ''custom rule matched (log)'')
       (filter (\<lambda>r. rule_matches L req p r) (takeWhile (\<lambda>r. rule_matches L req p r \<longrightarrow> ru_action r = ''log'') rs)) @ final"
    "fst (inspect_rules L ord now zw req p rs) \<longrightarrow> final \<noteq> []" "length final \<le> 1" by blast
  consider (skip) "\<not> rule_matches L req p r" | (logged) "rule_matches L req p r" "ru_action r = ''log''"
    | (stop) "rule_matches L req p r" "ru_action r \<noteq> ''log''" by blast
  then show ?case
  proof cases
    case skip
    then show ?thesis using Cons by simp
  next
    case logged
    then show ?thesis using f by (intro exI [of _ final]) (auto split: prod.splits)
  next
    case stop
    then show ?thesis by (auto simp: waf_decide_def)
  qed
qed

text \<open>
  C17: The verdict is the policy. A request is blocked exactly when the first decisive rule, or
  the managed ruleset when there is none, says so in block mode, or the engine fails on a zone
  that fails closed; in detect mode only the latter blocks; every block is recorded, and the
  log rules passed on the way, in order.
\<close>

theorem inspect_is_policy:
  assumes "e (to_lower (rq_host req)) = Some zw"
  shows "fst (Inspect L ord now e req) = policy_blocks L ord zw req \<and>
    (ze_mode zw \<noteq> ''block'' \<longrightarrow> fst (Inspect L ord now e req) \<longrightarrow> \<not> ze_fail_open zw \<and> isl (managed_verdict L ord zw req)) \<and>
    (\<exists>final. map we_rule (snd (Inspect L ord now e req)) =
       map ru_id (filter (rule_matches L req (pathOnly (rq_uri req))) (takeWhile (\<lambda>r. \<not> decisive L req r) (ze_rules zw))) @ final \<and>
       (fst (Inspect L ord now e req) \<longrightarrow> final \<noteq> []) \<and> length final \<le> 1)"
proof (intro conjI)
  let ?p = "pathOnly (rq_uri req)"
  have i: "Inspect L ord now e req = inspect_rules L ord now zw req ?p (ze_rules zw)" using assms by (simp add: Inspect_def)
  show pol: "fst (Inspect L ord now e req) = policy_blocks L ord zw req"
    unfolding i rules_policy policy_blocks_def managed_policy ..
  show "ze_mode zw \<noteq> ''block'' \<longrightarrow> fst (Inspect L ord now e req) \<longrightarrow> \<not> ze_fail_open zw \<and> isl (managed_verdict L ord zw req)"
    unfolding pol policy_blocks_def by (auto split: option.splits sum.splits)
  have tw: "takeWhile (\<lambda>r. rule_matches L req ?p r \<longrightarrow> ru_action r = ''log'') rs = takeWhile (\<lambda>r. \<not> decisive L req r) rs" for rs
    by (rule takeWhile_cong) (auto simp: decisive_def)
  obtain final where f: "snd (inspect_rules L ord now zw req ?p (ze_rules zw)) =
       map (\<lambda>r. emit now zw req ?p (ru_id r) ''custom'' ''log'' ''custom rule matched (log)'')
         (filter (rule_matches L req ?p) (takeWhile (\<lambda>r. \<not> decisive L req r) (ze_rules zw))) @ final"
    "fst (inspect_rules L ord now zw req ?p (ze_rules zw)) \<longrightarrow> final \<noteq> []" "length final \<le> 1"
    using rules_events [of L ord now zw req ?p "ze_rules zw"] unfolding tw by blast
  show "\<exists>final. map we_rule (snd (Inspect L ord now e req)) =
       map ru_id (filter (rule_matches L req ?p) (takeWhile (\<lambda>r. \<not> decisive L req r) (ze_rules zw))) @ final \<and>
       (fst (Inspect L ord now e req) \<longrightarrow> final \<noteq> []) \<and> length final \<le> 1"
    using f unfolding i by (intro exI [of _ "map we_rule final"]) (simp add: emit_def comp_def)
qed


subsection \<open>Reload\<close>

text \<open>Every engine entry was built, under its host, from a configuration of \<open>W\<close>.\<close>

definition built_from :: "'w waf_libs \<Rightarrow> zone_waf set \<Rightarrow> 'w engine \<Rightarrow> bool" where
  "built_from L W e \<longleftrightarrow> (\<forall>h zw. e h = Some zw \<longrightarrow> (\<exists>w \<in> W. buildZoneWAF L h w = Some zw))"

definition wafs_of :: "agent_zone list \<Rightarrow> zone_waf set" where
  "wafs_of zs = {w. \<exists>z \<in> set zs. zn_waf z = Some w}"

lemma build_relevant: "relevant_of v = relevant_of w \<Longrightarrow> buildZoneWAF L h v = buildZoneWAF L h w"
  by (simp add: relevant_of_def buildZoneWAF_def waf_fingerprint_def Let_def)

lemma build_print: "buildZoneWAF L h w = Some zw \<Longrightarrow> ze_print zw = waf_fingerprint L w"
  by (auto simp: buildZoneWAF_def Let_def split: if_splits)

lemma reload_zone_rebuild:
  assumes "built_from L W old" "inj_on (wl_hash L) (relevant_of ` W)" "\<And>w. zn_waf z = Some w \<Longrightarrow> w \<in> W"
  shows "reload_zone L old nxt z = reload_zone L Map.empty nxt z"
proof (cases "zn_waf z")
  case (Some w)
  then have w: "w \<in> W" by (rule assms(3))
  show ?thesis
  proof (cases "old (to_lower (zn_domain z))")
    case (Some prev)
    obtain v where v: "v \<in> W" "buildZoneWAF L (to_lower (zn_domain z)) v = Some prev"
      using assms(1) Some unfolding built_from_def by blast
    have "buildZoneWAF L (to_lower (zn_domain z)) w = Some prev" if "ze_print prev = waf_fingerprint L w"
    proof -
      have "wl_hash L (relevant_of v) = wl_hash L (relevant_of w)" using that build_print [OF v(2)] by (simp add: waf_fingerprint_def)
      then have "relevant_of v = relevant_of w"
        using assms(2) v(1) w by (simp add: inj_on_def)
      then show ?thesis using build_relevant v(2) by metis
    qed
    then show ?thesis using Some \<open>zn_waf z = Some w\<close> by (simp add: reload_zone_def Let_def)
  qed (simp add: reload_zone_def Some Let_def)
qed (simp add: reload_zone_def)

lemma reload_rebuild:
  assumes "built_from L W old" "inj_on (wl_hash L) (relevant_of ` W)" "wafs_of zs \<subseteq> W"
  shows "engine_Reload L zs old = engine_Reload L zs Map.empty"
proof -
  have "foldl (reload_zone L old) m zs = foldl (reload_zone L Map.empty) m zs" for m
    using assms(3)
  proof (induction zs arbitrary: m)
    case (Cons z zs)
    have "reload_zone L old m z = reload_zone L Map.empty m z"
      by (rule reload_zone_rebuild [OF assms(1,2)]) (use Cons.prems in \<open>auto simp: wafs_of_def\<close>)
    then show ?case using Cons by (simp add: wafs_of_def subset_iff)
  qed simp
  then show ?thesis by (simp add: engine_Reload_def)
qed

lemma rebuild_built: "wafs_of zs \<subseteq> W \<Longrightarrow> built_from L W (engine_Reload L zs Map.empty)"
proof -
  have "built_from L W (foldl (reload_zone L Map.empty) m zs)" if "built_from L W m" "wafs_of zs \<subseteq> W" for m
    using that
  proof (induction zs arbitrary: m)
    case (Cons z zs)
    have "built_from L W (reload_zone L Map.empty m z)"
      using Cons.prems by (auto simp: reload_zone_def built_from_def wafs_of_def Let_def split: option.splits)
    then show ?case using Cons.IH Cons.prems(2) by (simp add: wafs_of_def subset_iff)
  qed simp
  moreover have "built_from L W Map.empty" by (simp add: built_from_def)
  ultimately show "wafs_of zs \<subseteq> W \<Longrightarrow> built_from L W (engine_Reload L zs Map.empty)"
    unfolding engine_Reload_def by blast
qed

text \<open>
  C18: Reusing compiled engines is invisible. After any sequence of reloads the engine is the one
  compiled from scratch from the last configuration, provided the fingerprint tells the
  configurations that occurred apart; and every zone it protects follows its own last
  configuration.
\<close>

theorem reload_is_rebuild:
  assumes "inj_on (wl_hash L) (relevant_of ` wafs_of (concat zss))" "zss \<noteq> []"
  shows "foldl (\<lambda>e zs. engine_Reload L zs e) Map.empty zss = engine_Reload L (last zss) Map.empty"
proof -
  let ?W = "wafs_of (concat zss)"
  have sub: "wafs_of zs \<subseteq> ?W" if "zs \<in> set zss" for zs using that by (auto simp: wafs_of_def)
  have "foldl (\<lambda>e zs. engine_Reload L zs e) e yss = engine_Reload L (last yss) Map.empty"
    if "built_from L ?W e" "yss \<noteq> []" "set yss \<subseteq> set zss" for e yss
    using that
  proof (induction yss arbitrary: e)
    case (Cons ys yss)
    have ys: "engine_Reload L ys e = engine_Reload L ys Map.empty"
      by (rule reload_rebuild [OF Cons.prems(1) assms(1)]) (use Cons.prems(3) sub in auto)
    show ?case
    proof (cases "yss = []")
      case True
      then show ?thesis using ys by simp
    next
      case False
      have "built_from L ?W (engine_Reload L ys Map.empty)" by (rule rebuild_built) (use Cons.prems(3) sub in auto)
      then show ?thesis using Cons.IH [of "engine_Reload L ys e"] Cons.prems(3) False ys by simp
    qed
  qed simp
  from this [of Map.empty zss] assms(2) show ?thesis by (simp add: built_from_def)
qed

subsection \<open>Examples\<close>

definition demo_libs :: "string waf_libs" where
  "demo_libs =
     \<lparr>wl_regexp = (\<lambda>p. if p = ''('' then None else Some (\<lambda>s. contains_str s ''sqlmap'')), wl_cidr = (\<lambda>p. None), wl_compile = (\<lambda>n. Some ''crs''),
      wl_run = (\<lambda>w i. if ci_uri i = ''/panic'' then None else Some (Inr (if contains_str (ci_uri i) ''union'' then Some \<lparr>it_rule = 942, it_data = ''''\<rparr> else None))),
      wl_hash = (\<lambda>(mode, _). mode), wl_canonical = (\<lambda>n. n)\<rparr>"

definition demo_waf :: "string \<Rightarrow> bool \<Rightarrow> zone_waf" where
  "demo_waf mode open' =
     \<lparr>zw_enabled = True, zw_mode = mode, zw_ruleset = ''owasp_crs'', zw_paranoia = 1, zw_fail_open = open', zw_wp_preset = True,
      zw_rules = [], zw_limits = []\<rparr>"

definition demo_waf_zone :: "string \<Rightarrow> bool \<Rightarrow> agent_zone" where
  "demo_waf_zone mode open' = (toZone (demo_wire ''A.x'' ''http://o'' '''' 0))\<lparr>zn_waf := Some (demo_waf mode open')\<rparr>"

definition demo_get :: "string \<Rightarrow> request" where
  "demo_get uri = \<lparr>rq_host = ''a.x'', rq_method = ''GET'', rq_uri = uri, rq_ip = ''1.1.1.1'', rq_agent = ''curl'', rq_country = '''', rq_headers = []\<rparr>"

lemma inspect_is_policy_witness:
  "\<exists>zw. engine_Reload demo_libs [demo_waf_zone ''block'' True] Map.empty (to_lower (rq_host (demo_get ''/x?union''))) = Some zw \<and>
     policy_blocks demo_libs (\<lambda>hs. hs) zw (demo_get ''/x?union'')"
proof -
  let ?e = "engine_Reload demo_libs [demo_waf_zone ''block'' True] Map.empty"
  have "?e (to_lower (rq_host (demo_get ''/x?union''))) \<noteq> None" by code_simp
  then obtain zw where zw: "?e (to_lower (rq_host (demo_get ''/x?union''))) = Some zw" by blast
  have "fst (Inspect demo_libs (\<lambda>hs. hs) 0 ?e (demo_get ''/x?union''))" by code_simp
  then show ?thesis using inspect_is_policy [where e = ?e and L = demo_libs and ord = "\<lambda>hs. hs" and now = 0, OF zw] zw by blast
qed

lemma reload_is_rebuild_witness:
  "foldl (\<lambda>e zs. engine_Reload demo_libs zs e) Map.empty [[demo_waf_zone ''block'' True], [demo_waf_zone ''detect'' True]] =
   engine_Reload demo_libs [demo_waf_zone ''detect'' True] Map.empty"
proof -
  have "inj_on (wl_hash demo_libs) (relevant_of ` wafs_of (concat [[demo_waf_zone ''block'' True], [demo_waf_zone ''detect'' True]]))"
    by (auto simp: inj_on_def wafs_of_def demo_waf_zone_def demo_waf_def demo_libs_def relevant_of_def)
  from reload_is_rebuild [OF this] show ?thesis by simp
qed

text \<open>
  What modelling showed. Path rules see the path as it was sent: an encoded letter in
  \<open>/xmlrpc.php\<close> passes the preset that blocks it, while nginx serves the decoded path. A zone in
  detect mode, which is not to enforce anything, still blocks when the engine fails and the
  zone fails closed. And a zone that fails closed is left without any inspection when its
  ruleset does not compile.
\<close>

lemma encoded_path_passes:
  "let e = engine_Reload demo_libs [demo_waf_zone ''block'' True] Map.empty
   in fst (Inspect demo_libs (\<lambda>hs. hs) 0 e (demo_get ''/xmlrpc.php'')) \<and> \<not> fst (Inspect demo_libs (\<lambda>hs. hs) 0 e (demo_get ''/%78mlrpc.php''))"
  by code_simp

lemma detect_mode_blocks:
  "let e = engine_Reload demo_libs [demo_waf_zone ''detect'' False] Map.empty
   in fst (Inspect demo_libs (\<lambda>hs. hs) 0 e (demo_get ''/panic''))"
  by code_simp

lemma fail_closed_zone_unprotected:
  "engine_Reload (demo_libs\<lparr>wl_compile := (\<lambda>_. None)\<rparr>) [demo_waf_zone ''block'' False] Map.empty = Map.empty"
  by (simp add: engine_Reload_def reload_zone_def demo_waf_zone_def demo_waf_def buildZoneWAF_def equal_fold_def)

end
