(* ===== verification/ControlStore.thy ===== *)
theory ControlStore
  imports AgentConfig "HOL-Library.Product_Lexorder"
begin

section \<open>The database of the control plane\<close>

text \<open>
  \<open>brisk-control/internal/store\<close>: the tables behind zones, rules, WAF settings, header
  transforms, custom domains, managed certificates, servers, assignments and purge jobs, with one
  definition per store method. A method is one SQL statement or one transaction, so it happens
  completely or not at all; the errors modelled are the ones the handlers tell apart (a missing
  row) and the constraint violations of the migrations. A failing connection changes nothing and
  is left out. A row carries the columns of its Go struct but for \<open>created_at\<close> and
  \<open>updated_at\<close>, which no code reads back. Identifiers come from sequences that never run
  backwards, one counter per table.
\<close>

subsection \<open>Rows\<close>

record waf_settings =
  ws_enabled :: bool
  ws_mode :: string
  ws_ruleset :: string
  ws_paranoia :: int
  ws_wp_preset :: bool
  ws_fail_open :: bool

record store_zone =
  sz_id :: int
  sz_account :: int
  sz_name :: string
  sz_hostname :: string
  sz_custom :: "string option"
  sz_origin :: string
  sz_host_header :: string
  sz_tls :: string
  sz_video :: bool
  sz_profile :: string
  sz_playlist_ttl :: string
  sz_segment_ttl :: string
  sz_cors :: string
  sz_brotli :: int
  sz_status :: string
  sz_version :: int
  sz_shield_on :: bool
  sz_shield :: "int option"
  sz_waf :: waf_settings
  sz_cache :: cache_settings
  sz_hl_on :: bool
  sz_hl_referrers :: string
  sz_hl_empty :: bool
  sz_ssl_verify :: bool
  sz_follow :: bool
  sz_forward_host :: bool
  sz_error_html :: string
  sz_blocked_ips :: string
  sz_block_root :: bool
  sz_block_post :: bool

text \<open>A row of a table nested under a zone: cache rules, WAF rules, rate limits, transforms.\<close>

record 'p zone_row =
  zr_id :: int
  zr_zone :: int
  zr_params :: 'p

record rule_params =
  rp_priority :: int
  rp_match_type :: string
  rp_match_value :: string
  rp_action :: string
  rp_value :: "string option"

record waf_rule_params =
  wp_priority :: int
  wp_field :: string
  wp_op :: string
  wp_value :: string
  wp_header :: "string option"
  wp_action :: string
  wp_enabled :: bool

record limit_params =
  lp_path :: string
  lp_match :: string
  lp_requests :: int
  lp_period :: int
  lp_burst :: int
  lp_key :: string
  lp_action :: string
  lp_count_mode :: string
  lp_enabled :: bool

record transform_params =
  tp_priority :: int
  tp_phase :: string
  tp_op :: string
  tp_header :: string
  tp_value :: "string option"
  tp_match_type :: string
  tp_match_value :: "string option"
  tp_enabled :: bool

record custom_domain =
  cd_id :: int
  cd_zone :: int
  cd_account :: int
  cd_domain :: string
  cd_status :: string
  cd_method :: string
  cd_cert :: string
  cd_error :: string
  cd_attempts :: int
  cd_verified :: "instant option"
  cd_next :: "instant option"

record tls_cert =
  tc_id :: int
  tc_name :: string
  tc_domains :: string
  tc_chain :: string
  tc_key :: string
  tc_issuer :: string
  tc_serial :: string
  tc_staging :: bool

record purge_job =
  pj_id :: int
  pj_account :: int
  pj_zone :: "int option"
  pj_hostname :: string
  pj_type :: string
  pj_target :: string
  pj_status :: string
  pj_total :: int
  pj_done :: int
  pj_completed :: "instant option"

record store_server =
  ss_id :: int
  ss_name :: string
  ss_region :: string
  ss_ip :: string
  ss_hostname :: "string option"
  ss_edge :: string
  ss_capacity :: "int option"
  ss_status :: string
  ss_ssh_user :: "string option"
  ss_ssh_port :: int
  ss_host_key :: "string option"
  ss_last_seen :: "instant option"
  ss_provisioned :: "instant option"
  ss_role :: string
  ss_public :: bool
  ss_weight :: int
  ss_override :: string
  ss_by_capacity :: bool
  ss_health :: string
  ss_checked :: "instant option"
  ss_health_on :: bool
  ss_interval :: int
  ss_fail :: int
  ss_rise :: int
  ss_drained :: bool
  ss_drained_at :: "instant option"
  ss_reason :: string
  ss_ram :: "int option"
  ss_disk :: "int option"
  ss_nginx :: string
  ss_agent :: string
  ss_os :: string
  ss_kernel :: string
  ss_go :: string

type_synonym rule_row = "rule_params zone_row"

record control_db =
  tb_zones :: "store_zone list"
  tb_rules :: "rule_row list"
  tb_waf_rules :: "waf_rule_params zone_row list"
  tb_limits :: "limit_params zone_row list"
  tb_transforms :: "transform_params zone_row list"
  tb_domains :: "custom_domain list"
  tb_certs :: "tls_cert list"
  tb_servers :: "store_server list"
  tb_assigned :: "(int \<times> int) list"
  tb_jobs :: "purge_job list"
  tb_logs :: "(int \<times> string \<times> string) list"
  sq_zone :: int
  sq_rule :: int
  sq_waf_rule :: int
  sq_limit :: int
  sq_transform :: int
  sq_domain :: int
  sq_cert :: int
  sq_server :: int
  sq_job :: int

datatype store_error = ErrNotFound | UniqueViolation | ForeignKeyViolation | CheckViolation

definition IsUniqueViolation :: "store_error \<Rightarrow> bool" where
  "IsUniqueViolation e \<longleftrightarrow> e = UniqueViolation"

definition coalesce :: "'a option \<Rightarrow> 'a \<Rightarrow> 'a" where
  "coalesce p d = (case p of Some v \<Rightarrow> v | None \<Rightarrow> d)"

definition zone_exists :: "int \<Rightarrow> control_db \<Rightarrow> bool" where
  "zone_exists i db \<longleftrightarrow> list_ex (\<lambda>z. sz_id z = i) (tb_zones db)"

subsection \<open>Zones\<close>

definition zone_tls_modes :: "string list" where
  "zone_tls_modes = [''managed'', ''letsencrypt'', ''selfsigned'', ''mkcert'']"

record create_zone_params =
  cz_name :: string
  cz_hostname :: string
  cz_custom :: "string option"
  cz_origin :: string
  cz_host_header :: string
  cz_tls :: string
  cz_video :: bool
  cz_profile :: string
  cz_playlist_ttl :: string
  cz_segment_ttl :: string
  cz_cors :: string
  cz_brotli :: int

text \<open>A new row: the given columns, the column defaults of the migrations for the others.\<close>

definition new_zone :: "int \<Rightarrow> create_zone_params \<Rightarrow> store_zone" where
  "new_zone i p =
     \<lparr>sz_id = i, sz_account = 1, sz_name = cz_name p, sz_hostname = cz_hostname p, sz_custom = cz_custom p,
      sz_origin = cz_origin p, sz_host_header = cz_host_header p, sz_tls = cz_tls p, sz_video = cz_video p,
      sz_profile = cz_profile p, sz_playlist_ttl = cz_playlist_ttl p, sz_segment_ttl = cz_segment_ttl p,
      sz_cors = cz_cors p, sz_brotli = cz_brotli p, sz_status = ''active'', sz_version = 1,
      sz_shield_on = False, sz_shield = None,
      sz_waf = \<lparr>ws_enabled = False, ws_mode = ''detect'', ws_ruleset = ''owasp_crs'', ws_paranoia = 1,
                ws_wp_preset = False, ws_fail_open = True\<rparr>,
      sz_cache = DefaultCacheSettings, sz_hl_on = False, sz_hl_referrers = '''', sz_hl_empty = True,
      sz_ssl_verify = False, sz_follow = False, sz_forward_host = False, sz_error_html = '''',
      sz_blocked_ips = '''', sz_block_root = False, sz_block_post = False\<rparr>"

definition CreateZone :: "create_zone_params \<Rightarrow> control_db \<Rightarrow> store_error + store_zone \<times> control_db" where
  "CreateZone p db =
     (if cz_tls p \<notin> set zone_tls_modes then Inl CheckViolation
      else if list_ex (\<lambda>z. sz_hostname z = cz_hostname p) (tb_zones db) then Inl UniqueViolation
      else (let z = new_zone (sq_zone db) p
            in Inr (z, db\<lparr>tb_zones := tb_zones db @ [z], sq_zone := sq_zone db + 1\<rparr>)))"

definition ListZones :: "control_db \<Rightarrow> store_zone list" where
  "ListZones db = sort_key sz_id (tb_zones db)"

definition ListActiveZones :: "control_db \<Rightarrow> store_zone list" where
  "ListActiveZones db = sort_key sz_id (filter (\<lambda>z. sz_status z = ''active'') (tb_zones db))"

definition GetZone :: "int \<Rightarrow> control_db \<Rightarrow> store_error + store_zone" where
  "GetZone i db = (case find (\<lambda>z. sz_id z = i) (tb_zones db) of None \<Rightarrow> Inl ErrNotFound | Some z \<Rightarrow> Inr z)"

text \<open>
  The common shape of the zone updates: set some columns \<open>WHERE id = i\<close>, bump \<open>config_version\<close>
  in the same statement, return the row.
\<close>

definition bump_zone :: "store_zone \<Rightarrow> store_zone" where
  "bump_zone z = z\<lparr>sz_version := sz_version z + 1\<rparr>"

definition set_zone :: "int \<Rightarrow> (store_zone \<Rightarrow> store_zone) \<Rightarrow> control_db \<Rightarrow> control_db" where
  "set_zone i f db = db\<lparr>tb_zones := map (\<lambda>z. if sz_id z = i then bump_zone (f z) else z) (tb_zones db)\<rparr>"

definition update_zone :: "int \<Rightarrow> (store_zone \<Rightarrow> store_zone) \<Rightarrow> control_db \<Rightarrow> store_error + store_zone \<times> control_db" where
  "update_zone i f db =
     (case GetZone i db of Inl e \<Rightarrow> Inl e | Inr z \<Rightarrow> Inr (bump_zone (f z), set_zone i f db))"

definition BumpZoneConfigVersion :: "int \<Rightarrow> control_db \<Rightarrow> control_db" where
  "BumpZoneConfigVersion i = set_zone i (\<lambda>z. z)"

record update_zone_params =
  uz_name :: "string option"
  uz_custom :: "string option"
  uz_origin :: "string option"
  uz_host_header :: "string option"
  uz_tls :: "string option"
  uz_video :: "bool option"
  uz_profile :: "string option"
  uz_playlist_ttl :: "string option"
  uz_segment_ttl :: "string option"
  uz_cors :: "string option"
  uz_brotli :: "int option"
  uz_status :: "string option"
  uz_ssl_verify :: "bool option"
  uz_follow :: "bool option"
  uz_forward_host :: "bool option"

definition coalesce_zone :: "update_zone_params \<Rightarrow> store_zone \<Rightarrow> store_zone" where
  "coalesce_zone p z =
     z\<lparr>sz_name := coalesce (uz_name p) (sz_name z),
       sz_custom := (case uz_custom p of Some d \<Rightarrow> Some d | None \<Rightarrow> sz_custom z),
       sz_origin := coalesce (uz_origin p) (sz_origin z),
       sz_host_header := coalesce (uz_host_header p) (sz_host_header z),
       sz_tls := coalesce (uz_tls p) (sz_tls z),
       sz_video := coalesce (uz_video p) (sz_video z),
       sz_profile := coalesce (uz_profile p) (sz_profile z),
       sz_playlist_ttl := coalesce (uz_playlist_ttl p) (sz_playlist_ttl z),
       sz_segment_ttl := coalesce (uz_segment_ttl p) (sz_segment_ttl z),
       sz_cors := coalesce (uz_cors p) (sz_cors z),
       sz_brotli := coalesce (uz_brotli p) (sz_brotli z),
       sz_status := coalesce (uz_status p) (sz_status z),
       sz_ssl_verify := coalesce (uz_ssl_verify p) (sz_ssl_verify z),
       sz_follow := coalesce (uz_follow p) (sz_follow z),
       sz_forward_host := coalesce (uz_forward_host p) (sz_forward_host z)\<rparr>"

definition UpdateZone :: "int \<Rightarrow> update_zone_params \<Rightarrow> control_db \<Rightarrow> store_error + store_zone \<times> control_db" where
  "UpdateZone i p db =
     (case GetZone i db of
        Inl e \<Rightarrow> Inl e
      | Inr z \<Rightarrow> if sz_tls (coalesce_zone p z) \<notin> set zone_tls_modes then Inl CheckViolation
               else update_zone i (coalesce_zone p) db)"

definition SetZoneShield :: "int \<Rightarrow> bool \<Rightarrow> int option \<Rightarrow> control_db \<Rightarrow> store_error + store_zone \<times> control_db" where
  "SetZoneShield i on shield db =
     (if zone_exists i db \<and> (case shield of Some s \<Rightarrow> \<not> list_ex (\<lambda>v. ss_id v = s) (tb_servers db) | None \<Rightarrow> False)
      then Inl ForeignKeyViolation
      else update_zone i (\<lambda>z. z\<lparr>sz_shield_on := on, sz_shield := shield\<rparr>) db)"

definition SetZoneWAF :: "int \<Rightarrow> waf_settings \<Rightarrow> control_db \<Rightarrow> store_error + store_zone \<times> control_db" where
  "SetZoneWAF i w = update_zone i (\<lambda>z. z\<lparr>sz_waf := w\<rparr>)"

definition edge_modes :: "string list" where
  "edge_modes = [''default'', ''respect_origin'', ''override'', ''no_cache'']"

definition browser_modes :: "string list" where
  "browser_modes = [''default'', ''match_server'', ''override'', ''no_cache'']"

definition SetZoneCacheSettings :: "int \<Rightarrow> cache_settings \<Rightarrow> control_db \<Rightarrow> store_error + store_zone \<times> control_db" where
  "SetZoneCacheSettings i c db =
     (if zone_exists i db \<and> (cs_edge_mode c \<notin> set edge_modes \<or> cs_browser_mode c \<notin> set browser_modes)
      then Inl CheckViolation
      else update_zone i (\<lambda>z. z\<lparr>sz_cache := c\<rparr>) db)"

definition SetZoneHotlink :: "int \<Rightarrow> bool \<Rightarrow> string \<Rightarrow> bool \<Rightarrow> control_db \<Rightarrow> store_error + store_zone \<times> control_db" where
  "SetZoneHotlink i on refs nore =
     update_zone i (\<lambda>z. z\<lparr>sz_hl_on := on, sz_hl_referrers := refs, sz_hl_empty := nore\<rparr>)"

definition SetZoneErrorPage :: "int \<Rightarrow> string \<Rightarrow> control_db \<Rightarrow> store_error + store_zone \<times> control_db" where
  "SetZoneErrorPage i html = update_zone i (\<lambda>z. z\<lparr>sz_error_html := html\<rparr>)"

definition SetZoneBlockedIPs :: "int \<Rightarrow> string \<Rightarrow> control_db \<Rightarrow> store_error + store_zone \<times> control_db" where
  "SetZoneBlockedIPs i ips = update_zone i (\<lambda>z. z\<lparr>sz_blocked_ips := ips\<rparr>)"

definition SetZoneAccessFlags :: "int \<Rightarrow> bool \<Rightarrow> bool \<Rightarrow> control_db \<Rightarrow> store_error + store_zone \<times> control_db" where
  "SetZoneAccessFlags i rootp post = update_zone i (\<lambda>z. z\<lparr>sz_block_root := rootp, sz_block_post := post\<rparr>)"

text \<open>Deleting a zone cascades to its rows; the purge history keeps the job without the zone.\<close>

definition other_zone :: "int \<Rightarrow> 'p zone_row list \<Rightarrow> 'p zone_row list" where
  "other_zone i = filter (\<lambda>r. zr_zone r \<noteq> i)"

definition DeleteZone :: "int \<Rightarrow> control_db \<Rightarrow> store_error + control_db" where
  "DeleteZone i db =
     (if \<not> zone_exists i db then Inl ErrNotFound
      else Inr (db\<lparr>tb_zones := filter (\<lambda>z. sz_id z \<noteq> i) (tb_zones db),
                  tb_rules := other_zone i (tb_rules db), tb_waf_rules := other_zone i (tb_waf_rules db),
                  tb_limits := other_zone i (tb_limits db), tb_transforms := other_zone i (tb_transforms db),
                  tb_domains := filter (\<lambda>d. cd_zone d \<noteq> i) (tb_domains db),
                  tb_assigned := filter (\<lambda>(s, z). z \<noteq> i) (tb_assigned db),
                  tb_jobs := map (\<lambda>j. if pj_zone j = Some i then j\<lparr>pj_zone := None\<rparr> else j) (tb_jobs db)\<rparr>))"

subsection \<open>Rules nested under a zone\<close>

definition in_zone :: "int \<Rightarrow> 'p zone_row list \<Rightarrow> 'p zone_row list" where
  "in_zone i = filter (\<lambda>r. zr_zone r = i)"

definition ListRules :: "int \<Rightarrow> control_db \<Rightarrow> rule_row list" where
  "ListRules i db = sort_key (\<lambda>r. (rp_priority (zr_params r), zr_id r)) (in_zone i (tb_rules db))"

definition ListWAFRules :: "int \<Rightarrow> control_db \<Rightarrow> waf_rule_params zone_row list" where
  "ListWAFRules i db = sort_key (\<lambda>r. (wp_priority (zr_params r), zr_id r)) (in_zone i (tb_waf_rules db))"

definition ListWAFRateLimits :: "int \<Rightarrow> control_db \<Rightarrow> limit_params zone_row list" where
  "ListWAFRateLimits i db = sort_key zr_id (in_zone i (tb_limits db))"

definition ListHeaderTransforms :: "int \<Rightarrow> control_db \<Rightarrow> transform_params zone_row list" where
  "ListHeaderTransforms i db = sort_key (\<lambda>r. (tp_priority (zr_params r), zr_id r)) (in_zone i (tb_transforms db))"

definition CreateRule :: "int \<Rightarrow> rule_params \<Rightarrow> control_db \<Rightarrow> store_error + rule_row \<times> control_db" where
  "CreateRule i p db =
     (if \<not> zone_exists i db then Inl ErrNotFound
      else (let r = \<lparr>zr_id = sq_rule db, zr_zone = i, zr_params = p\<rparr>
            in Inr (r, (BumpZoneConfigVersion i db)\<lparr>tb_rules := tb_rules db @ [r], sq_rule := sq_rule db + 1\<rparr>)))"

definition CreateWAFRule :: "int \<Rightarrow> waf_rule_params \<Rightarrow> control_db \<Rightarrow> store_error + waf_rule_params zone_row \<times> control_db" where
  "CreateWAFRule i p db =
     (if \<not> zone_exists i db then Inl ErrNotFound
      else (let r = \<lparr>zr_id = sq_waf_rule db, zr_zone = i, zr_params = p\<rparr>
            in Inr (r, (BumpZoneConfigVersion i db)\<lparr>tb_waf_rules := tb_waf_rules db @ [r], sq_waf_rule := sq_waf_rule db + 1\<rparr>)))"

definition CreateWAFRateLimit :: "int \<Rightarrow> limit_params \<Rightarrow> control_db \<Rightarrow> store_error + limit_params zone_row \<times> control_db" where
  "CreateWAFRateLimit i p db =
     (if \<not> zone_exists i db then Inl ErrNotFound
      else (let r = \<lparr>zr_id = sq_limit db, zr_zone = i, zr_params = p\<rparr>
            in Inr (r, (BumpZoneConfigVersion i db)\<lparr>tb_limits := tb_limits db @ [r], sq_limit := sq_limit db + 1\<rparr>)))"

definition CreateHeaderTransform ::
  "int \<Rightarrow> transform_params \<Rightarrow> control_db \<Rightarrow> store_error + transform_params zone_row \<times> control_db" where
  "CreateHeaderTransform i p db =
     (if \<not> zone_exists i db then Inl ErrNotFound
      else (let r = \<lparr>zr_id = sq_transform db, zr_zone = i, zr_params = p\<rparr>
            in Inr (r, (BumpZoneConfigVersion i db)\<lparr>tb_transforms := tb_transforms db @ [r],
                                                   sq_transform := sq_transform db + 1\<rparr>)))"

definition is_row :: "int \<Rightarrow> int \<Rightarrow> 'p zone_row \<Rightarrow> bool" where
  "is_row zone i r \<longleftrightarrow> zr_id r = i \<and> zr_zone r = zone"

definition UpdateRule :: "int \<Rightarrow> int \<Rightarrow> rule_params \<Rightarrow> control_db \<Rightarrow> store_error + rule_row \<times> control_db" where
  "UpdateRule zone i p db =
     (if \<not> list_ex (is_row zone i) (tb_rules db) then Inl ErrNotFound
      else Inr (\<lparr>zr_id = i, zr_zone = zone, zr_params = p\<rparr>,
                (BumpZoneConfigVersion zone db)
                  \<lparr>tb_rules := map (\<lambda>r. if is_row zone i r then r\<lparr>zr_params := p\<rparr> else r) (tb_rules db)\<rparr>))"

text \<open>The loop of \<open>ReorderRules\<close>: the rule at index \<open>n\<close> gets priority \<open>n\<close>; \<open>None\<close> rolls back.\<close>

definition set_priority :: "int \<Rightarrow> rule_row \<Rightarrow> rule_row" where
  "set_priority n r = r\<lparr>zr_params := (zr_params r)\<lparr>rp_priority := n\<rparr>\<rparr>"

fun reorder_rows :: "int \<Rightarrow> int \<Rightarrow> int list \<Rightarrow> rule_row list \<Rightarrow> rule_row list option" where
  "reorder_rows zone n [] rows = Some rows"
| "reorder_rows zone n (i # ids) rows =
     (if \<not> list_ex (is_row zone i) rows then None
      else reorder_rows zone (n + 1) ids (map (\<lambda>r. if is_row zone i r then set_priority n r else r) rows))"

definition ReorderRules :: "int \<Rightarrow> int list \<Rightarrow> control_db \<Rightarrow> store_error + control_db" where
  "ReorderRules zone ids db =
     (case reorder_rows zone 0 ids (tb_rules db) of
        None \<Rightarrow> Inl ErrNotFound
      | Some rows \<Rightarrow> Inr ((BumpZoneConfigVersion zone db)\<lparr>tb_rules := rows\<rparr>))"

text \<open>\<open>DELETE \<dots> WHERE id = $1 AND zone_id = $2\<close>, \<open>None\<close> when no row is affected.\<close>

definition delete_row :: "int \<Rightarrow> int \<Rightarrow> 'p zone_row list \<Rightarrow> 'p zone_row list option" where
  "delete_row zone i rows =
     (if list_ex (is_row zone i) rows then Some (filter (\<lambda>r. \<not> is_row zone i r) rows) else None)"

definition DeleteRule :: "int \<Rightarrow> int \<Rightarrow> control_db \<Rightarrow> store_error + control_db" where
  "DeleteRule zone i db =
     (case delete_row zone i (tb_rules db) of
        None \<Rightarrow> Inl ErrNotFound
      | Some rows \<Rightarrow> Inr ((BumpZoneConfigVersion zone db)\<lparr>tb_rules := rows\<rparr>))"

text \<open>\<open>deleteScopedBump\<close> on one of its three tables, given by how the table is read and replaced.\<close>

definition deleteScopedBump ::
  "(control_db \<Rightarrow> 'p zone_row list) \<Rightarrow> ('p zone_row list \<Rightarrow> control_db \<Rightarrow> control_db) \<Rightarrow> int \<Rightarrow> int \<Rightarrow> control_db \<Rightarrow>
   store_error + control_db" where
  "deleteScopedBump tb put zone i db =
     (case delete_row zone i (tb db) of
        None \<Rightarrow> Inl ErrNotFound
      | Some rows \<Rightarrow> Inr (put rows (BumpZoneConfigVersion zone db)))"

definition DeleteWAFRule :: "int \<Rightarrow> int \<Rightarrow> control_db \<Rightarrow> store_error + control_db" where
  "DeleteWAFRule = deleteScopedBump tb_waf_rules (\<lambda>rows. tb_waf_rules_update (\<lambda>_. rows))"

definition DeleteWAFRateLimit :: "int \<Rightarrow> int \<Rightarrow> control_db \<Rightarrow> store_error + control_db" where
  "DeleteWAFRateLimit = deleteScopedBump tb_limits (\<lambda>rows. tb_limits_update (\<lambda>_. rows))"

definition DeleteHeaderTransform :: "int \<Rightarrow> int \<Rightarrow> control_db \<Rightarrow> store_error + control_db" where
  "DeleteHeaderTransform = deleteScopedBump tb_transforms (\<lambda>rows. tb_transforms_update (\<lambda>_. rows))"

subsection \<open>Assignments\<close>

definition server_exists :: "int \<Rightarrow> control_db \<Rightarrow> bool" where
  "server_exists i db \<longleftrightarrow> list_ex (\<lambda>s. ss_id s = i) (tb_servers db)"

definition AssignZone :: "int \<Rightarrow> int \<Rightarrow> control_db \<Rightarrow> store_error + control_db" where
  "AssignZone server zone db =
     (if \<not> server_exists server db \<or> \<not> zone_exists zone db then Inl ErrNotFound
      else if (server, zone) \<in> set (tb_assigned db) then Inr db
      else Inr (db\<lparr>tb_assigned := tb_assigned db @ [(server, zone)]\<rparr>))"

definition UnassignZone :: "int \<Rightarrow> int \<Rightarrow> control_db \<Rightarrow> store_error + control_db" where
  "UnassignZone server zone db =
     (if (server, zone) \<notin> set (tb_assigned db) then Inl ErrNotFound
      else Inr (db\<lparr>tb_assigned := filter (\<lambda>a. a \<noteq> (server, zone)) (tb_assigned db)\<rparr>))"

definition ServersForZone :: "int \<Rightarrow> control_db \<Rightarrow> store_server list" where
  "ServersForZone zone db = sort_key ss_id (filter (\<lambda>s. (ss_id s, zone) \<in> set (tb_assigned db)) (tb_servers db))"

definition ListZoneServers :: "int \<Rightarrow> control_db \<Rightarrow> store_server list" where
  "ListZoneServers zone db = sort_key ss_id (filter (\<lambda>s. (ss_id s, zone) \<in> set (tb_assigned db)) (tb_servers db))"

definition server_zone_rows :: "int \<Rightarrow> control_db \<Rightarrow> store_zone list" where
  "server_zone_rows server db = sort_key sz_id (filter (\<lambda>z. (server, sz_id z) \<in> set (tb_assigned db)) (tb_zones db))"

definition ListServerZones :: "int \<Rightarrow> control_db \<Rightarrow> (store_zone \<times> rule_row list) list" where
  "ListServerZones server db = map (\<lambda>z. (z, ListRules (sz_id z) db)) (server_zone_rows server db)"

subsection \<open>Custom domains and managed certificates\<close>

definition CreateCustomDomain :: "int \<Rightarrow> int \<Rightarrow> string \<Rightarrow> control_db \<Rightarrow> store_error + custom_domain \<times> control_db" where
  "CreateCustomDomain zone account name db =
     (if \<not> zone_exists zone db then Inl ForeignKeyViolation
      else if list_ex (\<lambda>d. cd_domain d = name) (tb_domains db) then Inl UniqueViolation
      else (let d = \<lparr>cd_id = sq_domain db, cd_zone = zone, cd_account = account, cd_domain = name,
                     cd_status = ''pending_dns'', cd_method = ''cname'', cd_cert = name, cd_error = '''',
                     cd_attempts = 0, cd_verified = None, cd_next = None\<rparr>
            in Inr (d, db\<lparr>tb_domains := tb_domains db @ [d], sq_domain := sq_domain db + 1\<rparr>)))"

definition GetCustomDomain :: "int \<Rightarrow> control_db \<Rightarrow> store_error + custom_domain" where
  "GetCustomDomain i db = (case find (\<lambda>d. cd_id d = i) (tb_domains db) of None \<Rightarrow> Inl ErrNotFound | Some d \<Rightarrow> Inr d)"

definition ListCustomDomainsByZone :: "int \<Rightarrow> control_db \<Rightarrow> custom_domain list" where
  "ListCustomDomainsByZone zone db = rev (sort_key cd_id (filter (\<lambda>d. cd_zone d = zone) (tb_domains db)))"

definition ListAllCustomDomains :: "control_db \<Rightarrow> custom_domain list" where
  "ListAllCustomDomains db = sort_key cd_id (tb_domains db)"

text \<open>\<open>ORDER BY zone_id, domain\<close>; \<open>key\<close> is the collation of the database.\<close>

definition ListActiveCustomDomainsForServer :: "(string \<Rightarrow> int) \<Rightarrow> int \<Rightarrow> control_db \<Rightarrow> custom_domain list" where
  "ListActiveCustomDomainsForServer key server db =
     sort_key (\<lambda>d. (cd_zone d, key (cd_domain d)))
       (filter (\<lambda>d. (server, cd_zone d) \<in> set (tb_assigned db) \<and> cd_status d = ''active'') (tb_domains db))"

definition set_domain :: "int \<Rightarrow> (custom_domain \<Rightarrow> custom_domain) \<Rightarrow> control_db \<Rightarrow> control_db" where
  "set_domain i f db = db\<lparr>tb_domains := map (\<lambda>d. if cd_id d = i then f d else d) (tb_domains db)\<rparr>"

definition SetCustomDomainStatus :: "int \<Rightarrow> string \<Rightarrow> string \<Rightarrow> control_db \<Rightarrow> store_error + control_db" where
  "SetCustomDomainStatus i status err db =
     (if \<not> list_ex (\<lambda>d. cd_id d = i) (tb_domains db) then Inl ErrNotFound
      else Inr (set_domain i (\<lambda>d. d\<lparr>cd_status := status, cd_error := err\<rparr>) db))"

definition MarkCustomDomainVerified :: "instant \<Rightarrow> int \<Rightarrow> control_db \<Rightarrow> control_db" where
  "MarkCustomDomainVerified now i =
     set_domain i (\<lambda>d. d\<lparr>cd_verified := Some now, cd_attempts := 0, cd_error := '''', cd_next := None\<rparr>)"

definition SetCustomDomainActive :: "instant \<Rightarrow> int \<Rightarrow> string \<Rightarrow> control_db \<Rightarrow> control_db" where
  "SetCustomDomainActive now i cert =
     set_domain i (\<lambda>d. d\<lparr>cd_status := ''active'', cd_cert := cert, cd_error := '''', cd_attempts := 0,
                         cd_verified := Some now, cd_next := None\<rparr>)"

definition MarkCustomDomainFailure :: "int \<Rightarrow> string \<Rightarrow> string \<Rightarrow> instant \<Rightarrow> control_db \<Rightarrow> control_db" where
  "MarkCustomDomainFailure i status err gate =
     set_domain i (\<lambda>d. d\<lparr>cd_status := status, cd_error := err, cd_attempts := cd_attempts d + 1, cd_next := Some gate\<rparr>)"

definition DeleteCustomDomain :: "int \<Rightarrow> control_db \<Rightarrow> store_error + control_db" where
  "DeleteCustomDomain i db =
     (if \<not> list_ex (\<lambda>d. cd_id d = i) (tb_domains db) then Inl ErrNotFound
      else Inr (db\<lparr>tb_domains := filter (\<lambda>d. cd_id d \<noteq> i) (tb_domains db)\<rparr>))"

definition GetTLSCert :: "string \<Rightarrow> control_db \<Rightarrow> store_error + tls_cert" where
  "GetTLSCert name db = (case find (\<lambda>c. tc_name c = name) (tb_certs db) of None \<Rightarrow> Inl ErrNotFound | Some c \<Rightarrow> Inr c)"

definition ListTLSCerts :: "(string \<Rightarrow> int) \<Rightarrow> control_db \<Rightarrow> tls_cert list" where
  "ListTLSCerts key db = sort_key (\<lambda>c. key (tc_name c)) (tb_certs db)"

definition DeleteTLSCert :: "string \<Rightarrow> control_db \<Rightarrow> control_db" where
  "DeleteTLSCert name db = db\<lparr>tb_certs := filter (\<lambda>c. tc_name c \<noteq> name) (tb_certs db)\<rparr>"

definition UpsertTLSCert :: "tls_cert \<Rightarrow> control_db \<Rightarrow> control_db" where
  "UpsertTLSCert c db =
     (if list_ex (\<lambda>d. tc_name d = tc_name c) (tb_certs db)
      then db\<lparr>tb_certs := map (\<lambda>d. if tc_name d = tc_name c then c\<lparr>tc_id := tc_id d\<rparr> else d) (tb_certs db)\<rparr>
      else db\<lparr>tb_certs := tb_certs db @ [c\<lparr>tc_id := sq_cert db\<rparr>], sq_cert := sq_cert db + 1\<rparr>)"

subsection \<open>Servers\<close>

record create_server_params =
  cp_name :: string
  cp_region :: string
  cp_ip :: string
  cp_hostname :: "string option"
  cp_edge :: string
  cp_capacity :: "int option"
  cp_by_capacity :: bool
  cp_ssh_user :: "string option"
  cp_ssh_port :: int

definition CreateServer :: "create_server_params \<Rightarrow> control_db \<Rightarrow> store_error + store_server \<times> control_db" where
  "CreateServer p db =
     (if list_ex (\<lambda>s. ss_edge s = cp_edge p) (tb_servers db) then Inl UniqueViolation
      else (let s =
              \<lparr>ss_id = sq_server db, ss_name = cp_name p, ss_region = cp_region p, ss_ip = cp_ip p,
               ss_hostname = cp_hostname p, ss_edge = cp_edge p, ss_capacity = cp_capacity p,
               ss_status = ''pending'', ss_ssh_user = cp_ssh_user p,
               ss_ssh_port = (if cp_ssh_port p = 0 then 22 else cp_ssh_port p), ss_host_key = None,
               ss_last_seen = None, ss_provisioned = None, ss_role = ''edge'', ss_public = True,
               ss_weight = 100, ss_override = '''', ss_by_capacity = cp_by_capacity p,
               ss_health = ''unknown'', ss_checked = None, ss_health_on = True, ss_interval = 0,
               ss_fail = 0, ss_rise = 0, ss_drained = False, ss_drained_at = None, ss_reason = '''',
               ss_ram = None, ss_disk = None, ss_nginx = '''', ss_agent = '''', ss_os = '''',
               ss_kernel = '''', ss_go = ''''\<rparr>
            in Inr (s, db\<lparr>tb_servers := tb_servers db @ [s], sq_server := sq_server db + 1\<rparr>)))"

definition ListServers :: "control_db \<Rightarrow> store_server list" where
  "ListServers db = sort_key ss_id (tb_servers db)"

definition GetServer :: "int \<Rightarrow> control_db \<Rightarrow> store_error + store_server" where
  "GetServer i db = (case find (\<lambda>s. ss_id s = i) (tb_servers db) of None \<Rightarrow> Inl ErrNotFound | Some s \<Rightarrow> Inr s)"

text \<open>
  Deleting a server cascades to its assignments and log lines, and clears it as the shield of a
  zone, without touching that zone's \<open>config_version\<close>.
\<close>

definition DeleteServer :: "int \<Rightarrow> control_db \<Rightarrow> store_error + control_db" where
  "DeleteServer i db =
     (if \<not> server_exists i db then Inl ErrNotFound
      else Inr (db\<lparr>tb_servers := filter (\<lambda>s. ss_id s \<noteq> i) (tb_servers db),
                  tb_assigned := filter (\<lambda>(s, z). s \<noteq> i) (tb_assigned db),
                  tb_zones := map (\<lambda>z. if sz_shield z = Some i then z\<lparr>sz_shield := None\<rparr> else z) (tb_zones db),
                  tb_logs := filter (\<lambda>l. fst l \<noteq> i) (tb_logs db)\<rparr>))"

definition set_servers :: "(store_server \<Rightarrow> bool) \<Rightarrow> (store_server \<Rightarrow> store_server) \<Rightarrow> control_db \<Rightarrow> control_db" where
  "set_servers P f db = db\<lparr>tb_servers := map (\<lambda>s. if P s then f s else s) (tb_servers db)\<rparr>"

definition update_server ::
  "int \<Rightarrow> (store_server \<Rightarrow> store_server) \<Rightarrow> control_db \<Rightarrow> store_error + store_server \<times> control_db" where
  "update_server i f db =
     (case GetServer i db of Inl e \<Rightarrow> Inl e | Inr s \<Rightarrow> Inr (f s, set_servers (\<lambda>s. ss_id s = i) f db))"

definition UpdateServerStatus :: "int \<Rightarrow> string \<Rightarrow> control_db \<Rightarrow> control_db" where
  "UpdateServerStatus i status = set_servers (\<lambda>s. ss_id s = i) (\<lambda>s. s\<lparr>ss_status := status\<rparr>)"

definition UpdateServerRouting ::
  "int \<Rightarrow> int \<Rightarrow> string \<Rightarrow> int option \<Rightarrow> bool option \<Rightarrow> control_db \<Rightarrow> store_error + store_server \<times> control_db" where
  "UpdateServerRouting i weight mode capacity by_capacity db =
     (if server_exists i db \<and> (weight < 0 \<or> weight > 100) then Inl CheckViolation
      else update_server i
             (\<lambda>s. s\<lparr>ss_weight := weight, ss_override := mode,
                    ss_capacity := (case capacity of Some c \<Rightarrow> Some c | None \<Rightarrow> ss_capacity s),
                    ss_by_capacity := coalesce by_capacity (ss_by_capacity s)\<rparr>) db)"

definition store_SetServerHealth :: "instant \<Rightarrow> int \<Rightarrow> string \<Rightarrow> control_db \<Rightarrow> control_db" where
  "store_SetServerHealth now i status =
     set_servers (\<lambda>s. ss_id s = i) (\<lambda>s. s\<lparr>ss_health := status, ss_checked := Some now\<rparr>)"

definition UpdateServerHealthConfig ::
  "int \<Rightarrow> bool \<Rightarrow> int \<Rightarrow> int \<Rightarrow> int \<Rightarrow> control_db \<Rightarrow> store_error + store_server \<times> control_db" where
  "UpdateServerHealthConfig i on interval fail rise =
     update_server i (\<lambda>s. s\<lparr>ss_health_on := on, ss_interval := interval, ss_fail := fail, ss_rise := rise\<rparr>)"

definition drain_row :: "instant \<Rightarrow> bool \<Rightarrow> string \<Rightarrow> store_server \<Rightarrow> store_server" where
  "drain_row now drained reason s =
     (if drained then s\<lparr>ss_drained := True, ss_drained_at := Some now, ss_reason := reason\<rparr>
      else s\<lparr>ss_drained := False, ss_drained_at := None, ss_reason := ''''\<rparr>)"

definition SetServerDrain ::
  "instant \<Rightarrow> int \<Rightarrow> bool \<Rightarrow> string \<Rightarrow> control_db \<Rightarrow> store_error + store_server \<times> control_db" where
  "SetServerDrain now i drained reason = update_server i (drain_row now drained reason)"

definition DrainRegion ::
  "instant \<Rightarrow> string \<Rightarrow> bool \<Rightarrow> string \<Rightarrow> control_db \<Rightarrow> store_server list \<times> control_db" where
  "DrainRegion now region drained reason db =
     (let hit = (\<lambda>s. to_upper (ss_region s) = to_upper region); f = drain_row now drained reason
      in (map f (filter hit (tb_servers db)), set_servers hit f db))"

definition SetServerRole ::
  "int \<Rightarrow> string \<Rightarrow> bool option \<Rightarrow> control_db \<Rightarrow> store_error + store_server \<times> control_db" where
  "SetServerRole i role pub = update_server i (\<lambda>s. s\<lparr>ss_role := role, ss_public := coalesce pub (ss_public s)\<rparr>)"

definition SetServerHostKey :: "int \<Rightarrow> string \<Rightarrow> control_db \<Rightarrow> control_db" where
  "SetServerHostKey i key = set_servers (\<lambda>s. ss_id s = i) (\<lambda>s. s\<lparr>ss_host_key := Some key\<rparr>)"

definition SetServerResources :: "int \<Rightarrow> int option \<Rightarrow> int option \<Rightarrow> control_db \<Rightarrow> control_db" where
  "SetServerResources i ram disk db =
     (if ram = None \<and> disk = None then db
      else set_servers (\<lambda>s. ss_id s = i)
             (\<lambda>s. s\<lparr>ss_ram := (case ram of Some r \<Rightarrow> Some r | None \<Rightarrow> ss_ram s),
                    ss_disk := (case disk of Some d \<Rightarrow> Some d | None \<Rightarrow> ss_disk s)\<rparr>) db)"

definition keep_if_blank :: "string \<Rightarrow> string \<Rightarrow> string" where
  "keep_if_blank v old = (if v = '''' then old else v)"

definition SetServerTech :: "int \<Rightarrow> string \<Rightarrow> string \<Rightarrow> string \<Rightarrow> string \<Rightarrow> string \<Rightarrow> control_db \<Rightarrow> control_db" where
  "SetServerTech i nginx agent os kern go db =
     (if nginx = '''' \<and> agent = '''' \<and> os = '''' \<and> kern = '''' \<and> go = '''' then db
      else set_servers (\<lambda>s. ss_id s = i)
             (\<lambda>s. s\<lparr>ss_nginx := keep_if_blank nginx (ss_nginx s), ss_agent := keep_if_blank agent (ss_agent s),
                    ss_os := keep_if_blank os (ss_os s), ss_kernel := keep_if_blank kern (ss_kernel s),
                    ss_go := keep_if_blank go (ss_go s)\<rparr>) db)"

definition MarkServerOnline :: "instant \<Rightarrow> int \<Rightarrow> control_db \<Rightarrow> store_error + bool \<times> control_db" where
  "MarkServerOnline now i db =
     (case GetServer i db of
        Inl e \<Rightarrow> Inl e
      | Inr old \<Rightarrow>
          Inr (ss_status old \<noteq> ''online'',
               set_servers (\<lambda>s. ss_id s = i)
                 (\<lambda>s. s\<lparr>ss_status := ''online'', ss_last_seen := Some now,
                        ss_provisioned := Some (coalesce (ss_provisioned s) now)\<rparr>) db))"

subsection \<open>Purge jobs and the provision log\<close>

definition AddProvisionLog :: "int \<Rightarrow> string \<Rightarrow> string \<Rightarrow> control_db \<Rightarrow> control_db" where
  "AddProvisionLog server level msg db =
     (if server_exists server db then db\<lparr>tb_logs := tb_logs db @ [(server, level, msg)]\<rparr> else db)"

definition CreatePurgeJob ::
  "instant \<Rightarrow> int option \<Rightarrow> string \<Rightarrow> string \<Rightarrow> int \<Rightarrow> control_db \<Rightarrow> store_error + purge_job \<times> control_db" where
  "CreatePurgeJob now zone typ target edges db =
     (let host = (case zone of None \<Rightarrow> ''''
                  | Some i \<Rightarrow> (case GetZone i db of Inr z \<Rightarrow> sz_hostname z | Inl _ \<Rightarrow> ''''));
          j = \<lparr>pj_id = sq_job db, pj_account = 1, pj_zone = zone, pj_hostname = host, pj_type = typ,
               pj_target = target, pj_status = (if edges = 0 then ''done'' else ''pending''),
               pj_total = edges, pj_done = 0, pj_completed = (if edges = 0 then Some now else None)\<rparr>
      in if (case zone of Some i \<Rightarrow> \<not> zone_exists i db | None \<Rightarrow> False) then Inl ForeignKeyViolation
         else Inr (j, db\<lparr>tb_jobs := tb_jobs db @ [j], sq_job := sq_job db + 1\<rparr>))"

definition edge_done :: "instant \<Rightarrow> purge_job \<Rightarrow> purge_job" where
  "edge_done now j =
     j\<lparr>pj_done := min (pj_done j + 1) (pj_total j),
       pj_status := (if pj_done j + 1 \<ge> pj_total j then ''done'' else ''partial''),
       pj_completed := (if pj_done j + 1 \<ge> pj_total j then Some now else pj_completed j)\<rparr>"

definition MarkPurgeJobEdgeDone :: "instant \<Rightarrow> int \<Rightarrow> control_db \<Rightarrow> store_error + purge_job \<times> control_db" where
  "MarkPurgeJobEdgeDone now i db =
     (case find (\<lambda>j. pj_id j = i) (tb_jobs db) of
        None \<Rightarrow> Inl ErrNotFound
      | Some j \<Rightarrow> Inr (edge_done now j,
                      db\<lparr>tb_jobs := map (\<lambda>j. if pj_id j = i then edge_done now j else j) (tb_jobs db)\<rparr>))"

end
