(* ===== verification/Transactions.thy ===== *)
theory Transactions
  imports ControlStore
begin

section \<open>Runs of the control plane's database\<close>

text \<open>
  Every change the control plane makes to these tables, as data: a run of the program is a
  list of transactions, whatever handlers and loops they come from. A failed transaction leaves
  the database as it was. They are grouped by what they act on. \<open>TDetachDomain\<close> is the deletion of a custom domain with the bump of its
  zone that \<open>deleteCustomDomain\<close> makes right after it.
\<close>

datatype zone_txn =
    TCreateZone create_zone_params
  | TUpdateZone int update_zone_params
  | TSetZoneShield int bool "int option"
  | TSetZoneWAF int waf_settings
  | TSetZoneCacheSettings int cache_settings
  | TSetZoneHotlink int bool string bool
  | TSetZoneErrorPage int string
  | TSetZoneBlockedIPs int string
  | TSetZoneAccessFlags int bool bool
  | TBumpZone int
  | TDeleteZone int

datatype row_txn =
    TCreateRule int rule_params
  | TUpdateRule int int rule_params
  | TReorderRules int "int list"
  | TDeleteRule int int
  | TCreateWAFRule int waf_rule_params
  | TDeleteWAFRule int int
  | TCreateWAFRateLimit int limit_params
  | TDeleteWAFRateLimit int int
  | TCreateHeaderTransform int transform_params
  | TDeleteHeaderTransform int int

datatype domain_txn =
    TAssignZone int int
  | TUnassignZone int int
  | TCreateCustomDomain int int string
  | TSetCustomDomainStatus int string string
  | TMarkCustomDomainVerified instant int
  | TSetCustomDomainActive instant int string
  | TMarkCustomDomainFailure int string string instant
  | TDetachDomain int
  | TUpsertTLSCert tls_cert
  | TDeleteTLSCert string

datatype server_txn =
    TCreateServer create_server_params
  | TDeleteServer int
  | TUpdateServerStatus int string
  | TUpdateServerRouting int int string "int option" "bool option"
  | TSetServerHealth instant int string
  | TUpdateServerHealthConfig int bool int int int
  | TSetServerDrain instant int bool string
  | TDrainRegion instant string bool string
  | TSetServerRole int string "bool option"
  | TSetServerHostKey int string
  | TSetServerResources int "int option" "int option"
  | TSetServerTech int string string string string string
  | TMarkServerOnline instant int
  | TAddProvisionLog int string string
  | TCreatePurgeJob instant "int option" string string int
  | TMarkPurgeJobEdgeDone instant int

datatype txn = OnZone zone_txn | OnRow row_txn | OnDomain domain_txn | OnServer server_txn

definition detach_domain :: "int \<Rightarrow> control_db \<Rightarrow> store_error + control_db" where
  "detach_domain i db =
     (case GetCustomDomain i db of
        Inl e \<Rightarrow> Inl e
      | Inr d \<Rightarrow> (case DeleteCustomDomain i db of
                   Inl e \<Rightarrow> Inl e
                 | Inr db' \<Rightarrow> Inr (BumpZoneConfigVersion (cd_zone d) db')))"

abbreviation without_row :: "store_error + 'a \<times> control_db \<Rightarrow> store_error + control_db" where
  "without_row \<equiv> map_sum (\<lambda>e. e) snd"

primrec exec_zone_txn :: "zone_txn \<Rightarrow> control_db \<Rightarrow> store_error + control_db" where
  "exec_zone_txn (TCreateZone p) db = without_row (CreateZone p db)"
| "exec_zone_txn (TUpdateZone i p) db = without_row (UpdateZone i p db)"
| "exec_zone_txn (TSetZoneShield i on s) db = without_row (SetZoneShield i on s db)"
| "exec_zone_txn (TSetZoneWAF i w) db = without_row (SetZoneWAF i w db)"
| "exec_zone_txn (TSetZoneCacheSettings i c) db = without_row (SetZoneCacheSettings i c db)"
| "exec_zone_txn (TSetZoneHotlink i on r e) db = without_row (SetZoneHotlink i on r e db)"
| "exec_zone_txn (TSetZoneErrorPage i h) db = without_row (SetZoneErrorPage i h db)"
| "exec_zone_txn (TSetZoneBlockedIPs i s) db = without_row (SetZoneBlockedIPs i s db)"
| "exec_zone_txn (TSetZoneAccessFlags i a b) db = without_row (SetZoneAccessFlags i a b db)"
| "exec_zone_txn (TBumpZone i) db = Inr (BumpZoneConfigVersion i db)"
| "exec_zone_txn (TDeleteZone i) db = DeleteZone i db"

primrec exec_row_txn :: "row_txn \<Rightarrow> control_db \<Rightarrow> store_error + control_db" where
  "exec_row_txn (TCreateRule i p) db = without_row (CreateRule i p db)"
| "exec_row_txn (TUpdateRule i r p) db = without_row (UpdateRule i r p db)"
| "exec_row_txn (TReorderRules i rs) db = ReorderRules i rs db"
| "exec_row_txn (TDeleteRule i r) db = DeleteRule i r db"
| "exec_row_txn (TCreateWAFRule i p) db = without_row (CreateWAFRule i p db)"
| "exec_row_txn (TDeleteWAFRule i r) db = DeleteWAFRule i r db"
| "exec_row_txn (TCreateWAFRateLimit i p) db = without_row (CreateWAFRateLimit i p db)"
| "exec_row_txn (TDeleteWAFRateLimit i r) db = DeleteWAFRateLimit i r db"
| "exec_row_txn (TCreateHeaderTransform i p) db = without_row (CreateHeaderTransform i p db)"
| "exec_row_txn (TDeleteHeaderTransform i r) db = DeleteHeaderTransform i r db"

primrec exec_domain_txn :: "domain_txn \<Rightarrow> control_db \<Rightarrow> store_error + control_db" where
  "exec_domain_txn (TAssignZone s i) db = AssignZone s i db"
| "exec_domain_txn (TUnassignZone s i) db = UnassignZone s i db"
| "exec_domain_txn (TCreateCustomDomain i a n) db = without_row (CreateCustomDomain i a n db)"
| "exec_domain_txn (TSetCustomDomainStatus d st e) db = SetCustomDomainStatus d st e db"
| "exec_domain_txn (TMarkCustomDomainVerified now d) db = Inr (MarkCustomDomainVerified now d db)"
| "exec_domain_txn (TSetCustomDomainActive now d c) db = Inr (SetCustomDomainActive now d c db)"
| "exec_domain_txn (TMarkCustomDomainFailure d st e g) db = Inr (MarkCustomDomainFailure d st e g db)"
| "exec_domain_txn (TDetachDomain d) db = detach_domain d db"
| "exec_domain_txn (TUpsertTLSCert c) db = Inr (UpsertTLSCert c db)"
| "exec_domain_txn (TDeleteTLSCert n) db = Inr (DeleteTLSCert n db)"

primrec exec_server_txn :: "server_txn \<Rightarrow> control_db \<Rightarrow> store_error + control_db" where
  "exec_server_txn (TCreateServer p) db = without_row (CreateServer p db)"
| "exec_server_txn (TDeleteServer s) db = DeleteServer s db"
| "exec_server_txn (TUpdateServerStatus s st) db = Inr (UpdateServerStatus s st db)"
| "exec_server_txn (TUpdateServerRouting s w m c b) db = without_row (UpdateServerRouting s w m c b db)"
| "exec_server_txn (TSetServerHealth now s h) db = Inr (store_SetServerHealth now s h db)"
| "exec_server_txn (TUpdateServerHealthConfig s on a b c) db = without_row (UpdateServerHealthConfig s on a b c db)"
| "exec_server_txn (TSetServerDrain now s b r) db = without_row (SetServerDrain now s b r db)"
| "exec_server_txn (TDrainRegion now g b r) db = Inr (snd (DrainRegion now g b r db))"
| "exec_server_txn (TSetServerRole s r p) db = without_row (SetServerRole s r p db)"
| "exec_server_txn (TSetServerHostKey s k) db = Inr (SetServerHostKey s k db)"
| "exec_server_txn (TSetServerResources s a b) db = Inr (SetServerResources s a b db)"
| "exec_server_txn (TSetServerTech s a b c d e) db = Inr (SetServerTech s a b c d e db)"
| "exec_server_txn (TMarkServerOnline now s) db = without_row (MarkServerOnline now s db)"
| "exec_server_txn (TAddProvisionLog s l m) db = Inr (AddProvisionLog s l m db)"
| "exec_server_txn (TCreatePurgeJob now z t g n) db = without_row (CreatePurgeJob now z t g n db)"
| "exec_server_txn (TMarkPurgeJobEdgeDone now j) db = without_row (MarkPurgeJobEdgeDone now j db)"

primrec exec_txn :: "txn \<Rightarrow> control_db \<Rightarrow> store_error + control_db" where
  "exec_txn (OnZone t) db = exec_zone_txn t db"
| "exec_txn (OnRow t) db = exec_row_txn t db"
| "exec_txn (OnDomain t) db = exec_domain_txn t db"
| "exec_txn (OnServer t) db = exec_server_txn t db"

definition run_txn :: "txn \<Rightarrow> control_db \<Rightarrow> control_db" where
  "run_txn t db = (case exec_txn t db of Inl e \<Rightarrow> db | Inr db' \<Rightarrow> db')"

definition run_txns :: "txn list \<Rightarrow> control_db \<Rightarrow> control_db" where
  "run_txns ts db = foldl (\<lambda>d t. run_txn t d) db ts"

lemma run_txns_Nil [simp]: "run_txns [] db = db"
  by (simp add: run_txns_def)

lemma run_txns_Cons [simp]: "run_txns (t # ts) db = run_txns ts (run_txn t db)"
  by (simp add: run_txns_def)

end
