(* ===== verification/ConfigVersions.thy ===== *)
theory ConfigVersions
  imports Transactions
begin

section \<open>What a zone's config_version promises\<close>

text \<open>
  What any series of transactions preserves: the tables stay well formed, and \<open>later\<close> relates a
  database to every one that comes after it -- a zone whose \<open>config_version\<close> has not moved still
  means the same configuration. This is what lets the control plane answer an edge
  \<open>304 Not Modified\<close> by comparing versions (theory \<open>AgentApi\<close>).
\<close>

definition wf_db :: "control_db \<Rightarrow> bool" where
  "wf_db db \<longleftrightarrow>
     distinct (map sz_id (tb_zones db)) \<and> (\<forall>z \<in> set (tb_zones db). sz_id z < sq_zone db) \<and>
     distinct (map cd_domain (tb_domains db)) \<and> distinct (map cd_id (tb_domains db)) \<and>
     (\<forall>x \<in> set (tb_domains db). cd_id x < sq_domain db)"

definition attached :: "control_db \<Rightarrow> int \<Rightarrow> string set" where
  "attached db i = cd_domain ` {d \<in> set (tb_domains db). cd_zone d = i}"

text \<open>
  The rows nested under zone \<open>i\<close> are those of before, and no custom domain has left it. The
  configuration of a zone is its row -- but for the shield, which the configuration shows
  resolved -- and these rows.
\<close>

definition same_rows :: "control_db \<Rightarrow> control_db \<Rightarrow> int \<Rightarrow> bool" where
  "same_rows d d' i \<longleftrightarrow>
     in_zone i (tb_rules d') = in_zone i (tb_rules d) \<and>
     in_zone i (tb_waf_rules d') = in_zone i (tb_waf_rules d) \<and>
     in_zone i (tb_limits d') = in_zone i (tb_limits d) \<and>
     in_zone i (tb_transforms d') = in_zone i (tb_transforms d) \<and>
     attached d i \<subseteq> attached d' i"

definition zone_view :: "store_zone \<Rightarrow> store_zone" where
  "zone_view z = z\<lparr>sz_shield := None\<rparr>"

definition zone_continues :: "control_db \<Rightarrow> control_db \<Rightarrow> store_zone \<Rightarrow> store_zone \<Rightarrow> bool" where
  "zone_continues d d' z z' \<longleftrightarrow>
     sz_id z = sz_id z' \<and> sz_version z \<le> sz_version z' \<and>
     (sz_version z = sz_version z' \<longrightarrow> zone_view z = zone_view z' \<and> same_rows d d' (sz_id z))"

definition later :: "control_db \<Rightarrow> control_db \<Rightarrow> bool" where
  "later d d' \<longleftrightarrow>
     sq_zone d \<le> sq_zone d' \<and>
     (\<forall>z' \<in> set (tb_zones d'). sq_zone d \<le> sz_id z' \<or> (\<exists>z \<in> set (tb_zones d). zone_continues d d' z z'))"

lemma same_rows_refl [simp]: "same_rows d d i"
  by (simp add: same_rows_def)

lemma same_rows_trans: "same_rows a b i \<Longrightarrow> same_rows b c i \<Longrightarrow> same_rows a c i"
  by (auto simp: same_rows_def)

lemma later_refl [simp]: "later d d"
  by (auto simp: later_def zone_continues_def)

lemma zone_continuesD:
  assumes "zone_continues a b x y"
  shows "sz_id x = sz_id y" "sz_version x \<le> sz_version y"
    and "sz_version x = sz_version y \<Longrightarrow> zone_view x = zone_view y"
    and "sz_version x = sz_version y \<Longrightarrow> same_rows a b (sz_id x)"
  using assms unfolding zone_continues_def by blast+

lemma zone_continues_trans:
  assumes ab: "zone_continues a b x y" and bc: "zone_continues b c y z" shows "zone_continues a c x z"
proof -
  note x = zone_continuesD [OF ab] and y = zone_continuesD [OF bc]
  have "zone_view x = zone_view z \<and> same_rows a c (sz_id x)" if v: "sz_version x = sz_version z"
  proof -
    have e: "sz_version x = sz_version y" "sz_version y = sz_version z" using x(2) y(2) v by linarith+
    show ?thesis using x(3) [OF e(1)] y(3) [OF e(2)] x(1) same_rows_trans [OF x(4) [OF e(1)], of c] y(4) [OF e(2)]
      by simp
  qed
  then show ?thesis using x(1,2) y(1,2) by (simp add: zone_continues_def)
qed

lemma later_trans:
  assumes ab: "later a b" and bc: "later b c" shows "later a c"
proof -
  have "sq_zone a \<le> sz_id z \<or> (\<exists>x \<in> set (tb_zones a). zone_continues a c x z)" if z: "z \<in> set (tb_zones c)" for z
  proof (cases "sq_zone b \<le> sz_id z")
    case True
    then show ?thesis using ab by (simp add: later_def)
  next
    case False
    then obtain y where y: "y \<in> set (tb_zones b)" "zone_continues b c y z" using bc z by (auto simp: later_def)
    then consider "sq_zone a \<le> sz_id y" | x where "x \<in> set (tb_zones a)" "zone_continues a b x y"
      using ab by (auto simp: later_def)
    then show ?thesis
    proof cases
      case 1
      then show ?thesis using zone_continuesD(1) [OF y(2)] by simp
    next
      case 2
      then show ?thesis using zone_continues_trans y(2) by blast
    qed
  qed
  moreover have "sq_zone a \<le> sq_zone c" using ab bc by (simp add: later_def)
  ultimately show ?thesis by (simp add: later_def)
qed

text \<open>The two ways a transaction moves on: it touches one zone and bumps it, or it touches no configuration.\<close>

lemma later_touch:
  assumes "sq_zone d' = sq_zone d"
      and "tb_zones d' = map (\<lambda>z. if sz_id z = i then bump_zone (f z) else z) (tb_zones d)"
      and "\<And>z. sz_id (f z) = sz_id z" and "\<And>z. sz_version (f z) = sz_version z"
      and "\<And>k. k \<noteq> i \<Longrightarrow> same_rows d d' k"
    shows "later d d'"
proof -
  have "\<exists>z \<in> set (tb_zones d). zone_continues d d' z z'" if z': "z' \<in> set (tb_zones d')" for z'
  proof -
    obtain z where z: "z \<in> set (tb_zones d)" "z' = (if sz_id z = i then bump_zone (f z) else z)"
      using z' assms(2) by auto
    have "zone_continues d d' z z'"
      using assms(5) [of "sz_id z"] z(2) by (cases "sz_id z = i") (simp_all add: zone_continues_def bump_zone_def assms(3,4))
    then show ?thesis using z(1) by blast
  qed
  then show ?thesis using assms(1) by (simp add: later_def)
qed

lemma later_frame:
  assumes "sq_zone d \<le> sq_zone d'" and "set (tb_zones d') \<subseteq> g ` set (tb_zones d)"
      and "\<And>z. sz_id (g z) = sz_id z" and "\<And>z. sz_version (g z) = sz_version z"
      and "\<And>z. zone_view (g z) = zone_view z"
      and "\<And>z. z \<in> set (tb_zones d') \<Longrightarrow> same_rows d d' (sz_id z)"
    shows "later d d'"
proof -
  have "\<exists>z \<in> set (tb_zones d). zone_continues d d' z z'" if z': "z' \<in> set (tb_zones d')" for z'
  proof -
    obtain z where z: "z \<in> set (tb_zones d)" "z' = g z" using z' assms(2) by auto
    have "zone_continues d d' z z'"
      using assms(6) [OF z'] unfolding zone_continues_def z(2) by (simp add: assms(3-5))
    then show ?thesis using z(1) by blast
  qed
  then show ?thesis using assms(1) by (simp add: later_def)
qed

subsection \<open>Every transaction moves on\<close>

lemma in_zone_append [simp]: "in_zone k (rows @ [r]) = in_zone k rows @ (if zr_zone r = k then [r] else [])"
  by (simp add: in_zone_def)

lemma in_zone_map:
  "(\<And>r. zr_zone (f r) = zr_zone r) \<Longrightarrow> (\<And>r. zr_zone r = k \<Longrightarrow> f r = r) \<Longrightarrow> in_zone k (map f rows) = in_zone k rows"
  by (induction rows) (auto simp: in_zone_def)

lemma in_zone_filter:
  "(\<And>r. zr_zone r = k \<Longrightarrow> P r) \<Longrightarrow> in_zone k (filter P rows) = in_zone k rows"
  by (induction rows) (auto simp: in_zone_def)

lemma in_zone_delete: "delete_row i n rows = Some rows' \<Longrightarrow> k \<noteq> i \<Longrightarrow> in_zone k rows' = in_zone k rows"
  by (auto simp: delete_row_def is_row_def split: if_splits intro!: in_zone_filter)

lemma in_zone_reorder: "reorder_rows i n ids rows = Some rows' \<Longrightarrow> k \<noteq> i \<Longrightarrow> in_zone k rows' = in_zone k rows"
proof (induction ids arbitrary: n rows)
  case (Cons a ids)
  let ?rows = "map (\<lambda>r. if is_row i a r then set_priority n r else r) rows"
  have "in_zone k rows' = in_zone k ?rows" using Cons by (auto split: if_splits)
  also have "in_zone k ?rows = in_zone k rows"
    using Cons.prems(2) by (intro in_zone_map) (auto simp: is_row_def set_priority_def)
  finally show ?case .
qed simp

lemma attached_map:
  assumes "tb_domains d' = map h (tb_domains d)" "\<And>x. cd_domain (h x) = cd_domain x" "\<And>x. cd_zone (h x) = cd_zone x"
  shows "attached d' k = attached d k"
proof -
  have "{y \<in> h ` set (tb_domains d). cd_zone y = k} = h ` {x \<in> set (tb_domains d). cd_zone x = k}"
    by (auto simp: assms(3))
  then show ?thesis unfolding attached_def assms(1) by (simp add: image_image assms(2))
qed

lemma later_set_zone:
  "(\<And>z. sz_id (f z) = sz_id z) \<Longrightarrow> (\<And>z. sz_version (f z) = sz_version z) \<Longrightarrow> later d (set_zone i f d)"
  by (rule later_touch [where i = i and f = f]) (simp_all add: set_zone_def same_rows_def attached_def)

lemma later_update_zone:
  assumes "without_row (update_zone i f d) = Inr d'" "\<And>z. sz_id (f z) = sz_id z" "\<And>z. sz_version (f z) = sz_version z"
  shows "later d d'"
  using assms later_set_zone [of f d i] by (auto simp: update_zone_def split: sum.splits)

lemma zone_exists_mem: "zone_exists i d \<longleftrightarrow> i \<in> sz_id ` set (tb_zones d)"
  by (auto simp: zone_exists_def list_ex_iff)

lemma in_zone_other: "k \<noteq> i \<Longrightarrow> in_zone k (other_zone i rows) = in_zone k rows"
  unfolding other_zone_def by (rule in_zone_filter) simp

lemma later_zone_txn:
  assumes "exec_zone_txn t d = Inr d'" shows "later d d'"
proof (cases t)
  case (TCreateZone p)
  then have d': "d' = d\<lparr>tb_zones := tb_zones d @ [new_zone (sq_zone d) p], sq_zone := sq_zone d + 1\<rparr>"
    using assms by (auto simp: CreateZone_def Let_def split: if_splits)
  have rows: "same_rows d d' k" for k by (simp add: d' same_rows_def attached_def)
  show ?thesis unfolding later_def
    by (auto simp: d' new_zone_def zone_continues_def rows [unfolded d' new_zone_def])
next
  case (TDeleteZone i)
  then have d': "tb_zones d' = filter (\<lambda>z. sz_id z \<noteq> i) (tb_zones d)" "sq_zone d' = sq_zone d"
    and rows: "k \<noteq> i \<Longrightarrow> same_rows d d' k" for k
    using assms by (auto simp: DeleteZone_def same_rows_def attached_def in_zone_other split: if_splits)
  show ?thesis by (rule later_frame [where g = "\<lambda>z. z"]) (auto simp: d' rows)
next
  case (TBumpZone i)
  then show ?thesis using assms by (auto simp: BumpZoneConfigVersion_def intro: later_set_zone)
next
  case (TUpdateZone i p)
  then show ?thesis using assms
    by (auto simp: UpdateZone_def coalesce_zone_def split: sum.splits if_splits intro: later_update_zone)
qed (use assms in \<open>auto simp: SetZoneShield_def SetZoneWAF_def SetZoneCacheSettings_def SetZoneHotlink_def
       SetZoneErrorPage_def SetZoneBlockedIPs_def SetZoneAccessFlags_def split: if_splits intro: later_update_zone\<close>)

lemma later_rows:
  assumes "tb_zones d' = tb_zones (BumpZoneConfigVersion i d)" "sq_zone d' = sq_zone d"
      and "tb_domains d' = tb_domains d"
      and "\<And>k. k \<noteq> i \<Longrightarrow> in_zone k (tb_rules d') = in_zone k (tb_rules d)"
      and "\<And>k. k \<noteq> i \<Longrightarrow> in_zone k (tb_waf_rules d') = in_zone k (tb_waf_rules d)"
      and "\<And>k. k \<noteq> i \<Longrightarrow> in_zone k (tb_limits d') = in_zone k (tb_limits d)"
      and "\<And>k. k \<noteq> i \<Longrightarrow> in_zone k (tb_transforms d') = in_zone k (tb_transforms d)"
    shows "later d d'"
  by (rule later_touch [where i = i and f = "\<lambda>z. z"])
     (simp_all add: assms same_rows_def attached_def BumpZoneConfigVersion_def set_zone_def)

lemma bump_frame [simp]:
  "tb_rules (BumpZoneConfigVersion i d) = tb_rules d" "tb_waf_rules (BumpZoneConfigVersion i d) = tb_waf_rules d"
  "tb_limits (BumpZoneConfigVersion i d) = tb_limits d" "tb_transforms (BumpZoneConfigVersion i d) = tb_transforms d"
  "tb_domains (BumpZoneConfigVersion i d) = tb_domains d" "tb_certs (BumpZoneConfigVersion i d) = tb_certs d"
  "tb_servers (BumpZoneConfigVersion i d) = tb_servers d" "tb_assigned (BumpZoneConfigVersion i d) = tb_assigned d"
  "sq_zone (BumpZoneConfigVersion i d) = sq_zone d"
  by (simp_all add: BumpZoneConfigVersion_def set_zone_def)

lemmas row_txn_defs =
  CreateRule_def UpdateRule_def ReorderRules_def DeleteRule_def CreateWAFRule_def DeleteWAFRule_def
  CreateWAFRateLimit_def DeleteWAFRateLimit_def CreateHeaderTransform_def DeleteHeaderTransform_def
  deleteScopedBump_def Let_def

primrec txn_zone :: "row_txn \<Rightarrow> int" where
  "txn_zone (TCreateRule i p) = i"
| "txn_zone (TUpdateRule i r p) = i"
| "txn_zone (TReorderRules i rs) = i"
| "txn_zone (TDeleteRule i r) = i"
| "txn_zone (TCreateWAFRule i p) = i"
| "txn_zone (TDeleteWAFRule i r) = i"
| "txn_zone (TCreateWAFRateLimit i p) = i"
| "txn_zone (TDeleteWAFRateLimit i r) = i"
| "txn_zone (TCreateHeaderTransform i p) = i"
| "txn_zone (TDeleteHeaderTransform i r) = i"

lemma row_txn_frame:
  assumes "exec_row_txn t d = Inr d'"
  shows "tb_zones d' = tb_zones (BumpZoneConfigVersion (txn_zone t) d)" "sq_zone d' = sq_zone d"
    and "tb_domains d' = tb_domains d" "tb_certs d' = tb_certs d" "tb_servers d' = tb_servers d" "tb_assigned d' = tb_assigned d"
  using assms by (cases t; auto simp: row_txn_defs split: if_splits option.splits)+

lemma row_txn_others:
  assumes "exec_row_txn t d = Inr d'" and "k \<noteq> txn_zone t"
  shows "in_zone k (tb_rules d') = in_zone k (tb_rules d)" "in_zone k (tb_waf_rules d') = in_zone k (tb_waf_rules d)"
    and "in_zone k (tb_limits d') = in_zone k (tb_limits d)" "in_zone k (tb_transforms d') = in_zone k (tb_transforms d)"
  using assms
  by (cases t; auto simp: row_txn_defs is_row_def in_zone_delete in_zone_reorder split: if_splits option.splits
        intro!: in_zone_map)+

lemma later_row_txn:
  assumes "exec_row_txn t d = Inr d'" shows "later d d'"
  using row_txn_frame(1-3) [OF assms] row_txn_others [OF assms] by (rule later_rows)

lemma later_still:
  assumes "tb_zones d' = tb_zones d" "sq_zone d' = sq_zone d"
      and "tb_rules d' = tb_rules d" "tb_waf_rules d' = tb_waf_rules d" "tb_limits d' = tb_limits d"
      and "tb_transforms d' = tb_transforms d" and "\<And>k. attached d k \<subseteq> attached d' k"
    shows "later d d'"
  by (rule later_frame [where g = "\<lambda>z. z"]) (simp_all add: assms same_rows_def)

lemma attached_same: "tb_domains d' = tb_domains d \<Longrightarrow> attached d' k = attached d k"
  by (simp add: attached_def)

lemma set_domain_frame [simp]:
  "tb_zones (set_domain i f d) = tb_zones d" "sq_zone (set_domain i f d) = sq_zone d"
  "tb_rules (set_domain i f d) = tb_rules d" "tb_waf_rules (set_domain i f d) = tb_waf_rules d"
  "tb_limits (set_domain i f d) = tb_limits d" "tb_transforms (set_domain i f d) = tb_transforms d"
  "tb_certs (set_domain i f d) = tb_certs d" "tb_servers (set_domain i f d) = tb_servers d"
  "tb_assigned (set_domain i f d) = tb_assigned d"
  "tb_domains (set_domain i f d) = map (\<lambda>d. if cd_id d = i then f d else d) (tb_domains d)"
  by (simp_all add: set_domain_def)

lemma later_set_domain:
  "(\<And>x. cd_domain (f x) = cd_domain x) \<Longrightarrow> (\<And>x. cd_zone (f x) = cd_zone x) \<Longrightarrow> later d (set_domain i f d)"
  by (rule later_still) (simp_all add: attached_map [where h = "\<lambda>d. if cd_id d = i then f d else d"])

lemma later_detach:
  assumes "detach_domain i d = Inr d'" and wf: "wf_db d" shows "later d d'"
proof -
  obtain x where x: "find (\<lambda>d. cd_id d = i) (tb_domains d) = Some x"
    and d': "d' = BumpZoneConfigVersion (cd_zone x) (d\<lparr>tb_domains := filter (\<lambda>d. cd_id d \<noteq> i) (tb_domains d)\<rparr>)"
    using assms by (auto simp: detach_domain_def GetCustomDomain_def DeleteCustomDomain_def split: option.splits if_splits)
  show ?thesis
  proof (rule later_touch [where i = "cd_zone x" and f = "\<lambda>z. z"])
    fix k assume k: "k \<noteq> cd_zone x"
    have "cd_zone y \<noteq> k" if "y \<in> set (tb_domains d)" "cd_id y = i" for y
    proof -
      have "x \<in> set (tb_domains d)" "cd_id x = i" using x by (auto simp: find_Some_iff)
      then have "y = x" using wf that by (auto simp: wf_db_def distinct_map dest: inj_onD)
      then show ?thesis using k by simp
    qed
    then have "attached d k \<subseteq> attached d' k" by (auto simp: d' attached_def)
    then show "same_rows d d' k" by (simp add: d' same_rows_def)
  qed (simp_all add: d' BumpZoneConfigVersion_def set_zone_def)
qed

lemmas domain_txn_defs =
  AssignZone_def UnassignZone_def CreateCustomDomain_def SetCustomDomainStatus_def MarkCustomDomainVerified_def
  SetCustomDomainActive_def MarkCustomDomainFailure_def UpsertTLSCert_def DeleteTLSCert_def Let_def

lemma later_domain_txn:
  assumes t: "exec_domain_txn t d = Inr d'" and wf: "wf_db d" shows "later d d'"
proof (cases t)
  case (TDetachDomain i)
  then show ?thesis using t wf later_detach by simp
next
  case (TCreateCustomDomain i a n)
  then show ?thesis using t
    by (auto simp: domain_txn_defs split: if_splits intro!: later_still) (auto simp: attached_def)
qed (use t in \<open>auto simp: domain_txn_defs split: if_splits intro!: later_set_domain\<close>,
     (rule later_still; simp add: attached_def)+)

lemmas server_txn_defs =
  CreateServer_def DeleteServer_def UpdateServerStatus_def UpdateServerRouting_def store_SetServerHealth_def
  UpdateServerHealthConfig_def SetServerDrain_def DrainRegion_def SetServerRole_def SetServerHostKey_def
  SetServerResources_def SetServerTech_def MarkServerOnline_def AddProvisionLog_def CreatePurgeJob_def
  MarkPurgeJobEdgeDone_def update_server_def set_servers_def Let_def

lemma later_server_txn:
  assumes t: "exec_server_txn t d = Inr d'" shows "later d d'"
proof (cases t)
  case (TDeleteServer i)
  show ?thesis
    by (rule later_frame [where g = "\<lambda>z. if sz_shield z = Some i then z\<lparr>sz_shield := None\<rparr> else z"])
       (use t TDeleteServer in \<open>auto simp: DeleteServer_def zone_view_def same_rows_def attached_def split: if_splits\<close>)
qed (rule later_still; use t in \<open>auto simp: server_txn_defs attached_def split: if_splits sum.splits option.splits\<close>)+

subsection \<open>Tables stay well formed\<close>

lemma wf_same:
  assumes "wf_db d" "map sz_id (tb_zones d') = map sz_id (tb_zones d)" "sq_zone d' = sq_zone d"
      and "map cd_domain (tb_domains d') = map cd_domain (tb_domains d)" "map cd_id (tb_domains d') = map cd_id (tb_domains d)"
      and "sq_domain d' = sq_domain d"
    shows "wf_db d'"
proof -
  have "(\<forall>z \<in> set (tb_zones d'). sz_id z < sq_zone d') \<longleftrightarrow> (\<forall>n \<in> set (map sz_id (tb_zones d')). n < sq_zone d')"
       "(\<forall>x \<in> set (tb_domains d'). cd_id x < sq_domain d') \<longleftrightarrow> (\<forall>n \<in> set (map cd_id (tb_domains d')). n < sq_domain d')"
    by simp_all
  then show ?thesis using assms(1) unfolding wf_db_def assms(2-6) by auto
qed

lemma ids_set_zone: "(\<And>z. sz_id (f z) = sz_id z) \<Longrightarrow> map sz_id (tb_zones (set_zone i f d)) = map sz_id (tb_zones d)"
  by (simp add: set_zone_def bump_zone_def)

lemma set_zone_frame [simp]:
  "tb_rules (set_zone i f d) = tb_rules d" "tb_waf_rules (set_zone i f d) = tb_waf_rules d"
  "tb_limits (set_zone i f d) = tb_limits d" "tb_transforms (set_zone i f d) = tb_transforms d"
  "tb_domains (set_zone i f d) = tb_domains d" "tb_certs (set_zone i f d) = tb_certs d"
  "tb_servers (set_zone i f d) = tb_servers d" "tb_assigned (set_zone i f d) = tb_assigned d"
  "sq_zone (set_zone i f d) = sq_zone d" "sq_domain (set_zone i f d) = sq_domain d"
  by (simp_all add: set_zone_def)

lemma wf_set_zone: "wf_db d \<Longrightarrow> (\<And>z. sz_id (f z) = sz_id z) \<Longrightarrow> wf_db (set_zone i f d)"
  by (rule wf_same) (simp_all add: ids_set_zone)

lemma wf_update_zone:
  assumes "without_row (update_zone i f d) = Inr d'" "wf_db d" "\<And>z. sz_id (f z) = sz_id z"
  shows "wf_db d'"
  using assms wf_set_zone [of d f i] by (auto simp: update_zone_def split: sum.splits)

lemma fresh_id: "\<forall>z \<in> set xs. f z < (n :: int) \<Longrightarrow> n \<notin> f ` set xs"
  by auto

lemma below_next: "\<forall>z \<in> set xs. f z < (n :: int) \<Longrightarrow> \<forall>z \<in> set xs. f z < n + 1"
  by force

lemma wf_zone_txn:
  assumes t: "exec_zone_txn t d = Inr d'" and wf: "wf_db d" shows "wf_db d'"
proof (cases t)
  case (TCreateZone p)
  then have "d' = d\<lparr>tb_zones := tb_zones d @ [new_zone (sq_zone d) p], sq_zone := sq_zone d + 1\<rparr>"
    using t by (auto simp: CreateZone_def Let_def split: if_splits)
  then show ?thesis using wf fresh_id [of "tb_zones d" sz_id] below_next [of "tb_zones d" sz_id]
    by (simp add: wf_db_def new_zone_def)
next
  case (TDeleteZone i)
  then show ?thesis using t wf
    by (auto simp: DeleteZone_def wf_db_def distinct_map_filter split: if_splits)
next
  case (TBumpZone i)
  then show ?thesis using t wf by (auto simp: BumpZoneConfigVersion_def intro: wf_set_zone)
next
  case (TUpdateZone i p)
  then show ?thesis using t wf
    by (auto simp: UpdateZone_def coalesce_zone_def split: sum.splits if_splits intro: wf_update_zone)
qed (use t wf in \<open>auto simp: SetZoneShield_def SetZoneWAF_def SetZoneCacheSettings_def SetZoneHotlink_def
       SetZoneErrorPage_def SetZoneBlockedIPs_def SetZoneAccessFlags_def split: if_splits intro: wf_update_zone\<close>)

lemma wf_row_txn:
  assumes t: "exec_row_txn t d = Inr d'" and wf: "wf_db d" shows "wf_db d'"
proof -
  have "sq_domain d' = sq_domain d"
    using t by (cases t) (auto simp: row_txn_defs BumpZoneConfigVersion_def split: if_splits option.splits)
  then show ?thesis using wf_same [OF wf, of d'] row_txn_frame [OF t] ids_set_zone [of "\<lambda>z. z"]
    by (simp add: BumpZoneConfigVersion_def)
qed

lemma map_set_domain:
  "(\<And>x. g (f x) = g x) \<Longrightarrow> map g (tb_domains (set_domain i f d)) = map g (tb_domains d)"
  by simp

lemma wf_set_domain:
  "wf_db d \<Longrightarrow> (\<And>x. cd_domain (f x) = cd_domain x) \<Longrightarrow> (\<And>x. cd_id (f x) = cd_id x) \<Longrightarrow> wf_db (set_domain i f d)"
  by (rule wf_same) (simp_all add: map_set_domain set_domain_def)

lemma wf_domain_txn:
  assumes t: "exec_domain_txn t d = Inr d'" and wf: "wf_db d" shows "wf_db d'"
proof (cases t)
  case (TDetachDomain i)
  have "wf_db (d\<lparr>tb_domains := filter (\<lambda>d. cd_id d \<noteq> i) (tb_domains d)\<rparr>)"
    using wf by (auto simp: wf_db_def distinct_map_filter)
  then show ?thesis using t TDetachDomain
    by (auto simp: detach_domain_def GetCustomDomain_def DeleteCustomDomain_def BumpZoneConfigVersion_def
          split: option.splits if_splits intro: wf_set_zone)
next
  case (TCreateCustomDomain i a n)
  let ?x = "\<lparr>cd_id = sq_domain d, cd_zone = i, cd_account = a, cd_domain = n, cd_status = ''pending_dns'',
             cd_method = ''cname'', cd_cert = n, cd_error = [], cd_attempts = 0, cd_verified = None, cd_next = None\<rparr>"
  have "d' = d\<lparr>tb_domains := tb_domains d @ [?x], sq_domain := sq_domain d + 1\<rparr>" "n \<notin> cd_domain ` set (tb_domains d)"
    using t TCreateCustomDomain by (auto simp: CreateCustomDomain_def Let_def list_ex_iff split: if_splits)
  then show ?thesis using wf fresh_id [of "tb_domains d" cd_id] below_next [of "tb_domains d" cd_id]
    by (simp add: wf_db_def)
qed (use t wf in \<open>auto simp: domain_txn_defs split: if_splits intro!: wf_set_domain\<close>,
     (auto simp: wf_db_def)+)

lemma wf_server_txn:
  assumes t: "exec_server_txn t d = Inr d'" and wf: "wf_db d" shows "wf_db d'"
proof -
  have "map sz_id (tb_zones d') = map sz_id (tb_zones d) \<and> sq_zone d' = sq_zone d \<and> tb_domains d' = tb_domains d \<and>
        sq_domain d' = sq_domain d"
    using t by (cases t) (auto simp: server_txn_defs split: if_splits sum.splits option.splits)
  then show ?thesis by (intro wf_same [OF wf]) simp_all
qed

lemma run_txn_cases:
  assumes "exec_txn t d = Inr (run_txn t d) \<Longrightarrow> P (run_txn t d)" "P d" shows "P (run_txn t d)"
  using assms by (auto simp: run_txn_def split: sum.splits)

lemma wf_run_txn:
  assumes "wf_db d" shows "wf_db (run_txn t d)"
proof (rule run_txn_cases)
  assume "exec_txn t d = Inr (run_txn t d)"
  then show "wf_db (run_txn t d)"
    using assms by (cases t) (auto dest: wf_zone_txn wf_row_txn wf_domain_txn wf_server_txn)
qed (rule assms)

lemma later_run_txn:
  assumes "wf_db d" shows "later d (run_txn t d)"
proof (rule run_txn_cases)
  assume "exec_txn t d = Inr (run_txn t d)"
  then show "later d (run_txn t d)"
    using assms by (cases t) (auto dest: later_zone_txn later_row_txn later_domain_txn later_server_txn)
qed simp

lemma wf_run_txns: "wf_db d \<Longrightarrow> wf_db (run_txns ts d)"
  by (induction ts arbitrary: d) (simp_all add: wf_run_txn)

lemma later_run_txns: "wf_db d \<Longrightarrow> later d (run_txns ts d)"
proof (induction ts arbitrary: d)
  case (Cons t ts)
  show ?case using later_trans [OF later_run_txn [OF Cons.prems] Cons.IH [OF wf_run_txn [OF Cons.prems]]] by simp
qed simp

end
