(* ===== verification/AgentApi.thy ===== *)
theory AgentApi
  imports ConfigVersions
begin

section \<open>The configuration endpoint of the agents\<close>

text \<open>
  \<open>brisk-control/internal/api/agent.go\<close>: what an edge is told to serve. \<open>agentConfig\<close> collects the
  zones assigned to the calling server with their rules, resolves the origin shield, attaches WAF
  settings, header transforms, the active custom domains as zones of their own and the managed
  certificates, and tags the answer with a hash of the zones' versions, the served host names, the
  certificate serials and the shields. The hash (the first 16 hex digits of SHA-256) is the
  parameter \<open>digest\<close>; the collation of the database is the parameter \<open>key\<close>.
\<close>

subsection \<open>Zones on the wire\<close>

record api_zone =
  az_hostname :: string
  az_custom :: string
  az_origin :: string
  az_host_header :: string
  az_tls :: string
  az_video :: bool
  az_profile :: string
  az_playlist_ttl :: string
  az_segment_ttl :: string
  az_cors :: string
  az_brotli :: int
  az_status :: string
  az_rules :: "rule_params list"
  az_shield :: string
  az_cert :: string
  az_key :: string
  az_serial :: string
  az_waf :: "zone_waf option"
  az_transforms :: "header_transform list"
  az_cache :: "cache_settings option"
  az_ssl_verify :: bool
  az_follow :: bool
  az_forward_host :: bool
  az_hotlink :: "hotlink option"
  az_error_html :: string
  az_blocked_ips :: string
  az_block_root :: bool
  az_block_post :: bool

definition buildAgentHotlink :: "store_zone \<Rightarrow> hotlink option" where
  "buildAgentHotlink z =
     (if \<not> sz_hl_on z then None
      else Some \<lparr>hl_referrers = sz_hl_referrers z, hl_allow_empty = sz_hl_empty z\<rparr>)"

definition buildAgentCache :: "cache_settings \<Rightarrow> cache_settings option" where
  "buildAgentCache c = (if c = DefaultCacheSettings then None else Some c)"

definition or_blank :: "string option \<Rightarrow> string" where
  "or_blank v = (case v of Some s \<Rightarrow> s | None \<Rightarrow> '''')"

definition agentWAFRule :: "waf_rule_params zone_row \<Rightarrow> waf_rule" where
  "agentWAFRule r =
     \<lparr>wr_id = zr_id r, wr_priority = wp_priority (zr_params r), wr_field = wp_field (zr_params r),
      wr_op = wp_op (zr_params r), wr_value = wp_value (zr_params r), wr_header = or_blank (wp_header (zr_params r)),
      wr_action = wp_action (zr_params r), wr_enabled = True\<rparr>"

definition agentRateLimit :: "limit_params zone_row \<Rightarrow> rate_limit" where
  "agentRateLimit r =
     \<lparr>rl_id = zr_id r, rl_path = lp_path (zr_params r), rl_match = lp_match (zr_params r),
      rl_requests = lp_requests (zr_params r), rl_period = lp_period (zr_params r), rl_burst = lp_burst (zr_params r),
      rl_key = lp_key (zr_params r), rl_action = lp_action (zr_params r), rl_count_mode = lp_count_mode (zr_params r),
      rl_enabled = True\<rparr>"

definition buildAgentWAF :: "control_db \<Rightarrow> store_zone \<Rightarrow> zone_waf option" where
  "buildAgentWAF db z =
     (if \<not> ws_enabled (sz_waf z) then None
      else Some \<lparr>zw_enabled = True, zw_mode = ws_mode (sz_waf z), zw_ruleset = ws_ruleset (sz_waf z),
                 zw_paranoia = ws_paranoia (sz_waf z), zw_fail_open = ws_fail_open (sz_waf z),
                 zw_wp_preset = ws_wp_preset (sz_waf z),
                 zw_rules = map agentWAFRule (filter (\<lambda>r. wp_enabled (zr_params r)) (ListWAFRules (sz_id z) db)),
                 zw_limits = map agentRateLimit (filter (\<lambda>r. lp_enabled (zr_params r)) (ListWAFRateLimits (sz_id z) db))\<rparr>)"

definition agentHeaderTransform :: "transform_params zone_row \<Rightarrow> header_transform" where
  "agentHeaderTransform r =
     \<lparr>hx_priority = tp_priority (zr_params r), hx_phase = tp_phase (zr_params r), hx_op = tp_op (zr_params r),
      hx_header = tp_header (zr_params r), hx_value = or_blank (tp_value (zr_params r)),
      hx_match_type = tp_match_type (zr_params r), hx_match_value = or_blank (tp_match_value (zr_params r))\<rparr>"

definition buildAgentTransforms :: "control_db \<Rightarrow> int \<Rightarrow> header_transform list" where
  "buildAgentTransforms db i =
     map agentHeaderTransform (filter (\<lambda>r. tp_enabled (zr_params r)) (ListHeaderTransforms i db))"

definition toAgentZone :: "store_zone \<times> rule_row list \<Rightarrow> api_zone" where
  "toAgentZone zr =
     (let z = fst zr in
      \<lparr>az_hostname = sz_hostname z, az_custom = or_blank (sz_custom z), az_origin = sz_origin z,
       az_host_header = sz_host_header z, az_tls = sz_tls z, az_video = sz_video z, az_profile = sz_profile z,
       az_playlist_ttl = sz_playlist_ttl z, az_segment_ttl = sz_segment_ttl z, az_cors = sz_cors z,
       az_brotli = sz_brotli z, az_status = sz_status z, az_rules = map zr_params (snd zr), az_shield = '''',
       az_cert = '''', az_key = '''', az_serial = '''', az_waf = None, az_transforms = [],
       az_cache = buildAgentCache (sz_cache z), az_ssl_verify = sz_ssl_verify z, az_follow = sz_follow z,
       az_forward_host = sz_forward_host z, az_hotlink = buildAgentHotlink z, az_error_html = sz_error_html z,
       az_blocked_ips = sz_blocked_ips z, az_block_root = sz_block_root z, az_block_post = sz_block_post z\<rparr>)"

definition toAgentZones :: "(store_zone \<times> rule_row list) list \<Rightarrow> api_zone list" where
  "toAgentZones zs = map toAgentZone zs"

definition customDomainAgentZone :: "custom_domain \<Rightarrow> store_zone \<times> rule_row list \<Rightarrow> api_zone" where
  "customDomainAgentZone cd parent =
     (let z = fst parent in
      \<lparr>az_hostname = cd_domain cd, az_custom = '''', az_origin = sz_origin z,
       az_host_header = sz_host_header z, az_tls = ''managed'', az_video = sz_video z, az_profile = sz_profile z,
       az_playlist_ttl = sz_playlist_ttl z, az_segment_ttl = sz_segment_ttl z, az_cors = sz_cors z,
       az_brotli = sz_brotli z, az_status = sz_status z, az_rules = map zr_params (snd parent), az_shield = '''',
       az_cert = '''', az_key = '''', az_serial = '''', az_waf = None, az_transforms = [],
       az_cache = buildAgentCache (sz_cache z), az_ssl_verify = sz_ssl_verify z, az_follow = sz_follow z,
       az_forward_host = sz_forward_host z, az_hotlink = buildAgentHotlink z, az_error_html = sz_error_html z,
       az_blocked_ips = sz_blocked_ips z, az_block_root = sz_block_root z, az_block_post = sz_block_post z\<rparr>)"

subsection \<open>Origin shield\<close>

definition shieldServing :: "store_server \<Rightarrow> bool" where
  "shieldServing s \<longleftrightarrow>
     equal_fold (ss_status s) ''online'' \<and> \<not> ss_drained s \<and> \<not> equal_fold (ss_health s) ''unhealthy''"

definition shield_host :: "store_server \<Rightarrow> string" where
  "shield_host s =
     (case ss_hostname s of
        Some h \<Rightarrow> if trim_space h \<noteq> '''' then trim_space h else ss_ip s
      | None \<Rightarrow> ss_ip s)"

text \<open>
  \<open>me\<close> is the calling server, \<open>None\<close> when its row is gone (Go then reads the zero \<open>Server\<close>: no role,
  id 0); \<open>byID\<close> the servers by id.
\<close>

definition shieldUpstreamFor ::
  "store_zone \<Rightarrow> store_server option \<Rightarrow> (int \<Rightarrow> store_server option) \<Rightarrow> int \<Rightarrow> string" where
  "shieldUpstreamFor z me byID defaultShieldID =
     (let shieldID = coalesce (sz_shield z) defaultShieldID;
          my_id = (case me of Some s \<Rightarrow> ss_id s | None \<Rightarrow> 0)
      in if \<not> sz_shield_on z then ''''
         else if (case me of Some s \<Rightarrow> equal_fold (ss_role s) ''shield'' | None \<Rightarrow> False) then ''''
         else if shieldID = 0 \<or> shieldID = my_id then ''''
         else (case byID shieldID of
                 None \<Rightarrow> ''''
               | Some shield \<Rightarrow>
                   if \<not> equal_fold (ss_role shield) ''shield'' then ''''
                   else if \<not> shieldServing shield then ''''
                   else if shield_host shield = '''' then ''''
                   else shield_host shield @ '':443''))"

definition servers_by_id :: "control_db \<Rightarrow> int \<Rightarrow> store_server option" where
  "servers_by_id db = foldl (\<lambda>m s. m(ss_id s \<mapsto> s)) Map.empty (ListServers db)"

subsection \<open>Managed certificates\<close>

definition san_covers :: "string \<Rightarrow> string \<Rightarrow> bool" where
  "san_covers host d \<longleftrightarrow>
     d = host \<or>
     (case cut_prefix d ''*.'' of
        None \<Rightarrow> False
      | Some base \<Rightarrow> (case cut_suffix host (''.'' @ base) of
                      None \<Rightarrow> False
                    | Some sub \<Rightarrow> sub \<noteq> '''' \<and> \<not> contains_str sub ''.''))"

definition certCovers :: "string list \<Rightarrow> string \<Rightarrow> bool" where
  "certCovers domains host =
     list_ex (\<lambda>d. san_covers (to_lower (trim_space host)) (to_lower (trim_space d))) domains"

definition served_host :: "api_zone \<Rightarrow> string" where
  "served_host a = (if az_custom a \<noteq> '''' then az_custom a else az_hostname a)"

definition attach_cert :: "tls_cert list \<Rightarrow> api_zone \<Rightarrow> api_zone" where
  "attach_cert certs a =
     (if az_tls a \<noteq> ''managed'' then a
      else (case find (\<lambda>c. certCovers (split_on (CHR '','') (tc_domains c)) (served_host a)) certs of
              None \<Rightarrow> a
            | Some c \<Rightarrow> a\<lparr>az_cert := tc_chain c, az_key := tc_key c, az_serial := tc_serial c\<rparr>))"

definition attachManagedCerts :: "api_zone list \<Rightarrow> tls_cert list \<Rightarrow> api_zone list" where
  "attachManagedCerts zones certs = (if certs = [] then zones else map (attach_cert certs) zones)"

subsection \<open>The answer\<close>

definition real_zones :: "int \<Rightarrow> int \<Rightarrow> control_db \<Rightarrow> api_zone list" where
  "real_zones defaultShieldID server db =
     map (\<lambda>zr. (toAgentZone zr)
            \<lparr>az_shield := shieldUpstreamFor (fst zr) (servers_by_id db server) (servers_by_id db) defaultShieldID,
             az_waf := buildAgentWAF db (fst zr), az_transforms := buildAgentTransforms db (sz_id (fst zr))\<rparr>)
         (ListServerZones server db)"

text \<open>A custom domain whose parent zone is not assigned here is skipped; WAF and transforms are the parent's.\<close>

definition custom_zone :: "control_db \<Rightarrow> (store_zone \<times> rule_row list) list \<Rightarrow> custom_domain \<Rightarrow> api_zone option" where
  "custom_zone db zones cd =
     map_option (\<lambda>parent. (customDomainAgentZone cd parent)
                    \<lparr>az_waf := buildAgentWAF db (fst parent), az_transforms := buildAgentTransforms db (cd_zone cd)\<rparr>)
       (find (\<lambda>zr. sz_id (fst zr) = cd_zone cd) zones)"

definition custom_zones :: "(string \<Rightarrow> int) \<Rightarrow> int \<Rightarrow> control_db \<Rightarrow> api_zone list" where
  "custom_zones key server db =
     List.map_filter (custom_zone db (ListServerZones server db)) (ListActiveCustomDomainsForServer key server db)"

definition agent_zones :: "(string \<Rightarrow> int) \<Rightarrow> int \<Rightarrow> int \<Rightarrow> control_db \<Rightarrow> api_zone list" where
  "agent_zones key defaultShieldID server db =
     attachManagedCerts (real_zones defaultShieldID server db @ custom_zones key server db) (ListTLSCerts key db)"

definition etag_zone :: "store_zone \<Rightarrow> string" where
  "etag_zone z = ''z:'' @ show_int (sz_id z) @ '':'' @ show_int (sz_version z) @ '';''"

definition etag_host :: "api_zone \<Rightarrow> string" where
  "etag_host a = ''h:'' @ az_hostname a @ '':'' @ az_serial a @ '':'' @ az_shield a @ '';''"

definition etag_message :: "store_zone list \<Rightarrow> api_zone list \<Rightarrow> string" where
  "etag_message zones az = concat (map etag_zone zones) @ concat (map etag_host az)"

definition configETag :: "(string \<Rightarrow> string) \<Rightarrow> store_zone list \<Rightarrow> api_zone list \<Rightarrow> string" where
  "configETag digest zones az = digest (etag_message zones az)"

definition agent_etag :: "(string \<Rightarrow> string) \<Rightarrow> (string \<Rightarrow> int) \<Rightarrow> int \<Rightarrow> int \<Rightarrow> control_db \<Rightarrow> string" where
  "agent_etag digest key defaultShieldID server db =
     configETag digest (server_zone_rows server db) (agent_zones key defaultShieldID server db)"

datatype config_answer =
    ConfigUnauthorized
  | ConfigNotModified string
  | ConfigServed string "api_zone list"

text \<open>\<open>caller\<close> is the server the agent token names; \<open>inm\<close> the \<open>If-None-Match\<close> header.\<close>

definition agentConfig ::
  "(string \<Rightarrow> string) \<Rightarrow> (string \<Rightarrow> int) \<Rightarrow> int \<Rightarrow> int option \<Rightarrow> string \<Rightarrow> control_db \<Rightarrow> config_answer" where
  "agentConfig digest key defaultShieldID caller inm db =
     (case caller of
        None \<Rightarrow> ConfigUnauthorized
      | Some server \<Rightarrow>
          (let etag = agent_etag digest key defaultShieldID server db;
               quoted = CHR 0x22 # etag @ [CHR 0x22]
           in if inm = quoted then ConfigNotModified quoted
              else ConfigServed quoted (agent_zones key defaultShieldID server db)))"

subsection \<open>Reading the hashed message back\<close>

text \<open>Host names and serials without the separators; a shield may hold colons but no semicolon.\<close>

definition etag_clean :: "api_zone \<Rightarrow> bool" where
  "etag_clean a \<longleftrightarrow>
     CHR '':'' \<notin> set (az_hostname a) \<and> CHR '';'' \<notin> set (az_hostname a) \<and>
     CHR '':'' \<notin> set (az_serial a) \<and> CHR '';'' \<notin> set (az_serial a) \<and> CHR '';'' \<notin> set (az_shield a)"

lemma sep_inject:
  assumes "xs @ c # ys = xs' @ c # ys'" "c \<notin> set xs" "c \<notin> set xs'"
  shows "xs = xs' \<and> ys = ys'"
proof -
  have "takeWhile (\<lambda>x. x \<noteq> c) (xs @ c # ys) = takeWhile (\<lambda>x. x \<noteq> c) (xs' @ c # ys')" using assms(1) by simp
  moreover have "takeWhile (\<lambda>x. x \<noteq> c) (xs @ c # ys) = xs" "takeWhile (\<lambda>x. x \<noteq> c) (xs' @ c # ys') = xs'"
    using assms(2,3) by (auto simp: takeWhile_append2 takeWhile_tail intro: takeWhile_append2)
  ultimately show ?thesis using assms(1) by simp
qed

lemma terminated_inject:
  assumes "concat (map (\<lambda>s. s @ [c]) xs) = concat (map (\<lambda>s. s @ [c]) ys)"
      and "\<forall>s \<in> set xs. c \<notin> set s" and "\<forall>s \<in> set ys. c \<notin> set s"
    shows "xs = ys"
  using assms
proof (induction xs arbitrary: ys)
  case Nil
  then show ?case by (cases ys) auto
next
  case (Cons x xs)
  then obtain y ys' where ys: "ys = y # ys'" by (cases ys) auto
  have "x @ c # concat (map (\<lambda>s. s @ [c]) xs) = y @ c # concat (map (\<lambda>s. s @ [c]) ys')" using Cons.prems(1) ys by simp
  then have "x = y \<and> concat (map (\<lambda>s. s @ [c]) xs) = concat (map (\<lambda>s. s @ [c]) ys')"
    using Cons.prems ys by (intro sep_inject) auto
  then show ?case using Cons ys by auto
qed

lemma show_int_chars: "c \<in> set (show_int i) \<Longrightarrow> is_digit c \<or> c = CHR ''-''"
  using show_nat_digits by (auto simp: show_int_def split: if_splits)

lemma show_int_no_sep: "CHR '':'' \<notin> set (show_int i)" "CHR '';'' \<notin> set (show_int i)"
  using show_int_chars [of "CHR '':''" i] show_int_chars [of "CHR '';''" i] by (auto simp: is_digit_def)

lemma show_nat_no_dash: "show_nat n \<noteq> CHR ''-'' # s"
  using show_nat_digits [of "CHR ''-''" n] by (auto simp: is_digit_def)

lemma show_int_inject: "show_int i = show_int j \<longleftrightarrow> i = j"
proof
  assume "show_int i = show_int j"
  then show "i = j"
    using show_nat_no_dash [of "nat i"] show_nat_no_dash [of "nat j"] not_sym [OF show_nat_no_dash]
    by (auto simp: show_int_def split: if_splits)
qed simp

definition zone_body :: "store_zone \<Rightarrow> string" where
  "zone_body z = ''z:'' @ show_int (sz_id z) @ CHR '':'' # show_int (sz_version z)"

definition host_body :: "api_zone \<Rightarrow> string" where
  "host_body a = ''h:'' @ az_hostname a @ CHR '':'' # az_serial a @ CHR '':'' # az_shield a"

lemma etag_message_segments:
  "etag_message zs az = concat (map (\<lambda>s. s @ [CHR '';'']) (map zone_body zs @ map host_body az))"
proof -
  have "concat (map etag_zone zs) = concat (map (\<lambda>s. s @ [CHR '';'']) (map zone_body zs))"
    by (induction zs) (simp_all add: etag_zone_def zone_body_def)
  moreover have "concat (map etag_host az) = concat (map (\<lambda>s. s @ [CHR '';'']) (map host_body az))"
    by (induction az) (simp_all add: etag_host_def host_body_def)
  ultimately show ?thesis by (simp add: etag_message_def)
qed

lemma zone_body_inject:
  assumes "zone_body z = zone_body z'" shows "sz_id z = sz_id z' \<and> sz_version z = sz_version z'"
proof -
  have "show_int (sz_id z) @ CHR '':'' # show_int (sz_version z) = show_int (sz_id z') @ CHR '':'' # show_int (sz_version z')"
    using assms by (simp only: zone_body_def append.simps list.inject simp_thms)
  from sep_inject [OF this show_int_no_sep(1) show_int_no_sep(1)] show ?thesis by (simp only: show_int_inject)
qed

lemma etag_cleanD:
  assumes "etag_clean a"
  shows "CHR '':'' \<notin> set (az_hostname a)" "CHR '':'' \<notin> set (az_serial a)"
  using assms unfolding etag_clean_def by blast+

lemma host_body_inject:
  assumes "host_body a = host_body b" and a: "etag_clean a" and b: "etag_clean b"
  shows "az_hostname a = az_hostname b \<and> az_serial a = az_serial b \<and> az_shield a = az_shield b"
proof -
  have "az_hostname a @ CHR '':'' # az_serial a @ CHR '':'' # az_shield a =
        az_hostname b @ CHR '':'' # az_serial b @ CHR '':'' # az_shield b"
    using assms(1) by (simp only: host_body_def append.simps list.inject simp_thms)
  from sep_inject [OF this etag_cleanD(1) [OF a] etag_cleanD(1) [OF b]]
  have 1: "az_hostname a = az_hostname b"
    and "az_serial a @ CHR '':'' # az_shield a = az_serial b @ CHR '':'' # az_shield b" by blast+
  from sep_inject [OF this(2) etag_cleanD(2) [OF a] etag_cleanD(2) [OF b]] 1 show ?thesis by blast
qed

lemma map_inject_on:
  "map f xs = map f' ys \<Longrightarrow> (\<And>x y. x \<in> set xs \<Longrightarrow> y \<in> set ys \<Longrightarrow> f x = f' y \<Longrightarrow> g x = g' y) \<Longrightarrow> map g xs = map g' ys"
proof (induction xs arbitrary: ys)
  case (Cons x xs)
  then obtain y ys' where "ys = y # ys'" by (cases ys) auto
  with Cons show ?case by simp
qed simp

lemma etag_message_inject:
  assumes eq: "etag_message zs az = etag_message zs' az'"
      and clean: "\<forall>a \<in> set az. etag_clean a" "\<forall>a \<in> set az'. etag_clean a"
    shows "map (\<lambda>z. (sz_id z, sz_version z)) zs = map (\<lambda>z. (sz_id z, sz_version z)) zs' \<and>
           map (\<lambda>a. (az_hostname a, az_serial a, az_shield a)) az = map (\<lambda>a. (az_hostname a, az_serial a, az_shield a)) az'"
proof -
  have segs: "map zone_body zs @ map host_body az = map zone_body zs' @ map host_body az'"
  proof (rule terminated_inject)
    show "concat (map (\<lambda>s. s @ [CHR '';'']) (map zone_body zs @ map host_body az)) =
          concat (map (\<lambda>s. s @ [CHR '';'']) (map zone_body zs' @ map host_body az'))"
      using eq by (simp only: etag_message_segments)
  qed (use clean in \<open>auto simp: zone_body_def host_body_def etag_clean_def show_int_no_sep\<close>)
  have tw: "takeWhile (\<lambda>s. hd s = CHR ''z'') (map zone_body zs @ map host_body az) = map zone_body zs" for zs az
    by (induction zs; cases az) (simp_all add: zone_body_def host_body_def)
  have z: "map zone_body zs = map zone_body zs'" using tw [of zs az] tw [of zs' az'] segs by simp
  then have h: "map host_body az = map host_body az'" using segs by simp
  show ?thesis
    using map_inject_on [OF z, of "\<lambda>z. (sz_id z, sz_version z)" "\<lambda>z. (sz_id z, sz_version z)"] zone_body_inject
      map_inject_on [OF h, of "\<lambda>a. (az_hostname a, az_serial a, az_shield a)" "\<lambda>a. (az_hostname a, az_serial a, az_shield a)"] host_body_inject clean by fast
qed

subsection \<open>An unchanged tag means an unchanged configuration\<close>

text \<open>The answer without what the tag spells out: shields and certificates.\<close>

definition strip :: "api_zone \<Rightarrow> api_zone" where
  "strip a = a\<lparr>az_shield := '''', az_cert := '''', az_key := '''', az_serial := ''''\<rparr>"

definition zone_part :: "control_db \<Rightarrow> store_zone \<Rightarrow> api_zone" where
  "zone_part d z = (toAgentZone (z, ListRules (sz_id z) d))
     \<lparr>az_waf := buildAgentWAF d z, az_transforms := buildAgentTransforms d (sz_id z)\<rparr>"

definition custom_part :: "control_db \<Rightarrow> string \<times> store_zone \<Rightarrow> api_zone" where
  "custom_part d p = (zone_part d (snd p))\<lparr>az_hostname := fst p, az_custom := '''', az_tls := ''managed''\<rparr>"

definition custom_pairs :: "(string \<Rightarrow> int) \<Rightarrow> int \<Rightarrow> control_db \<Rightarrow> (string \<times> store_zone) list" where
  "custom_pairs key server d =
     List.map_filter (\<lambda>cd. map_option (Pair (cd_domain cd)) (find (\<lambda>z. sz_id z = cd_zone cd) (server_zone_rows server d)))
       (ListActiveCustomDomainsForServer key server d)"

lemma strip_real_zones: "map strip (real_zones dflt server d) = map (zone_part d) (server_zone_rows server d)"
  by (simp add: real_zones_def ListServerZones_def strip_def zone_part_def toAgentZone_def Let_def)

lemma find_map: "find P (map f xs) = map_option f (find (P \<circ> f) xs)"
  by (induction xs) auto

lemma map_filter_map_option: "List.map_filter (\<lambda>x. map_option g (f x)) xs = map g (List.map_filter f xs)"
  by (induction xs) (auto simp: List.map_filter_def)

lemma custom_zones_pairs: "custom_zones key server d = map (custom_part d) (custom_pairs key server d)"
proof -
  have "custom_zone d (ListServerZones server d) cd =
        map_option (custom_part d)
          (map_option (Pair (cd_domain cd)) (find (\<lambda>z. sz_id z = cd_zone cd) (server_zone_rows server d)))" for cd
  proof (cases "find (\<lambda>z. sz_id z = cd_zone cd) (server_zone_rows server d)")
    case (Some z)
    then have "sz_id z = cd_zone cd" by (auto simp: find_Some_iff)
    then show ?thesis using Some
      by (simp add: custom_zone_def ListServerZones_def find_map comp_def custom_part_def zone_part_def
            customDomainAgentZone_def toAgentZone_def Let_def)
  qed (simp add: custom_zone_def ListServerZones_def find_map comp_def)
  then have "custom_zone d (ListServerZones server d) =
      (\<lambda>cd. map_option (custom_part d)
          (map_option (Pair (cd_domain cd)) (find (\<lambda>z. sz_id z = cd_zone cd) (server_zone_rows server d))))"
    by (rule ext)
  then show ?thesis by (simp only: custom_zones_def custom_pairs_def map_filter_map_option)
qed

lemma strip_custom [simp]: "strip (custom_part d p) = custom_part d p"
  by (simp add: strip_def custom_part_def zone_part_def toAgentZone_def Let_def)

lemma custom_part_host [simp]: "az_hostname (custom_part d p) = fst p"
  by (simp add: custom_part_def)

lemma zone_part_cong:
  assumes v: "zone_view z = zone_view z'" and r: "same_rows d d' (sz_id z)"
  shows "zone_part d z = zone_part d' z'"
proof -
  have z': "z' = z\<lparr>sz_shield := sz_shield z'\<rparr>" using v by (cases z; cases z') (simp add: zone_view_def)
  have "zone_part d' (z\<lparr>sz_shield := s\<rparr>) = zone_part d z" for s
    using r by (simp add: zone_part_def toAgentZone_def buildAgentWAF_def buildAgentTransforms_def buildAgentHotlink_def
        ListRules_def ListWAFRules_def ListWAFRateLimits_def ListHeaderTransforms_def same_rows_def Let_def)
  then show ?thesis using z' by metis
qed

lemma row_mem: "z \<in> set (server_zone_rows server d) \<Longrightarrow> z \<in> set (tb_zones d)"
  by (simp add: server_zone_rows_def)

lemma custom_pairs_mem:
  assumes "p \<in> set (custom_pairs key server d)"
  shows "snd p \<in> set (server_zone_rows server d)" "fst p \<in> attached d (sz_id (snd p))"
proof -
  obtain cd where "cd \<in> set (ListActiveCustomDomainsForServer key server d)"
    and p: "map_option (Pair (cd_domain cd)) (find (\<lambda>z. sz_id z = cd_zone cd) (server_zone_rows server d)) = Some p"
    using assms by (auto simp: custom_pairs_def List.map_filter_def)
  then have "cd \<in> set (tb_domains d)" by (simp add: ListActiveCustomDomainsForServer_def)
  moreover obtain z where "find (\<lambda>z. sz_id z = cd_zone cd) (server_zone_rows server d) = Some z" "p = (cd_domain cd, z)"
    using p by auto
  ultimately show "snd p \<in> set (server_zone_rows server d)" "fst p \<in> attached d (sz_id (snd p))"
    by (auto simp: find_Some_iff attached_def)
qed

lemma same_id: "wf_db d \<Longrightarrow> x \<in> set (tb_zones d) \<Longrightarrow> y \<in> set (tb_zones d) \<Longrightarrow> sz_id x = sz_id y \<Longrightarrow> x = y"
  by (auto simp: wf_db_def distinct_map dest: inj_onD)

lemma attached_unique: "wf_db d \<Longrightarrow> n \<in> attached d i \<Longrightarrow> n \<in> attached d j \<Longrightarrow> i = j"
  by (auto simp: wf_db_def attached_def distinct_map dest: inj_onD)

text \<open>A zone with the version it had before is the same zone, with the same rows.\<close>

lemma same_version:
  assumes wf: "wf_db d" and l: "later d d'" and z: "z \<in> set (tb_zones d)" and z': "z' \<in> set (tb_zones d')"
      and id: "sz_id z = sz_id z'" and v: "sz_version z = sz_version z'"
    shows "zone_view z = zone_view z' \<and> same_rows d d' (sz_id z)"
proof -
  have "\<not> sq_zone d \<le> sz_id z'" using wf z id by (auto simp: wf_db_def)
  then obtain x where x: "x \<in> set (tb_zones d)" "zone_continues d d' x z'" using l z' by (auto simp: later_def)
  then have "x = z" using same_id [OF wf x(1) z] zone_continuesD(1) [OF x(2)] id by simp
  then show ?thesis using zone_continuesD(3,4) [OF x(2)] v by simp
qed

lemma bodies_agree:
  assumes wf: "wf_db d" "wf_db d'" and l: "later d d'"
      and ver: "map (\<lambda>z. (sz_id z, sz_version z)) (server_zone_rows server d) =
                map (\<lambda>z. (sz_id z, sz_version z)) (server_zone_rows server d')"
      and hosts: "map az_hostname (real_zones dflt server d @ custom_zones key server d) =
                  map az_hostname (real_zones dflt server d' @ custom_zones key server d')"
    shows "map strip (real_zones dflt server d @ custom_zones key server d) =
           map strip (real_zones dflt server d' @ custom_zones key server d')"
proof -
  let ?Z = "server_zone_rows server d" and ?Z' = "server_zone_rows server d'"
  have cong: "zone_part d z = zone_part d' z'"
    if "z \<in> set ?Z" "z' \<in> set ?Z'" "(sz_id z, sz_version z) = (sz_id z', sz_version z')" for z z'
    using same_version [OF wf(1) l row_mem row_mem] that zone_part_cong by blast
  have reals: "map (zone_part d) ?Z = map (zone_part d') ?Z'"
    by (rule map_inject_on [OF ver cong])
  have "length (real_zones dflt server d) = length (real_zones dflt server d')"
    using arg_cong [OF ver, of length] by (simp add: real_zones_def ListServerZones_def)
  then have "map az_hostname (custom_zones key server d) = map az_hostname (custom_zones key server d')"
    using hosts by simp
  then have doms: "map fst (custom_pairs key server d) = map fst (custom_pairs key server d')"
    by (simp add: custom_zones_pairs comp_def)
  have "map (custom_part d) (custom_pairs key server d) = map (custom_part d') (custom_pairs key server d')"
  proof (rule map_inject_on [OF doms])
    fix p p' assume p: "p \<in> set (custom_pairs key server d)" and p': "p' \<in> set (custom_pairs key server d')"
      and host: "fst p = fst p'"
    note m = custom_pairs_mem [OF p] and m' = custom_pairs_mem [OF p']
    have "(sz_id (snd p), sz_version (snd p)) \<in> set (map (\<lambda>z. (sz_id z, sz_version z)) ?Z')"
      using m(1) by (simp only: ver [symmetric] set_map image_eqI)
    then obtain y where y: "y \<in> set ?Z'" "(sz_id (snd p), sz_version (snd p)) = (sz_id y, sz_version y)" by auto
    have "same_rows d d' (sz_id (snd p))"
      using same_version [OF wf(1) l row_mem [OF m(1)] row_mem [OF y(1)]] y(2) by simp
    then have "fst p \<in> attached d' (sz_id y)" using m(2) y(2) by (auto simp: same_rows_def)
    then have "sz_id y = sz_id (snd p')" using attached_unique [OF wf(2)] m'(2) host by simp
    then have "y = snd p'" using same_id [OF wf(2) row_mem [OF y(1)] row_mem [OF m'(1)]] by simp
    then have "zone_part d (snd p) = zone_part d' (snd p')" using cong [OF m(1) y(1) y(2)] by simp
    then show "custom_part d p = custom_part d' p'" using host by (simp add: custom_part_def)
  qed
  then show ?thesis using reals by (simp add: strip_real_zones custom_zones_pairs comp_def)
qed

lemma attach_frame [simp]:
  "strip (attach_cert certs a) = strip a" "az_hostname (attach_cert certs a) = az_hostname a"
  "az_shield (attach_cert certs a) = az_shield a"
  by (auto simp: attach_cert_def strip_def split: option.splits)

lemma attachManagedCerts_frame:
  "map strip (attachManagedCerts az certs) = map strip az"
  "map az_hostname (attachManagedCerts az certs) = map az_hostname az"
  by (simp_all add: attachManagedCerts_def comp_def)

text \<open>What is known of certificates: a serial is never empty and names one certificate.\<close>

definition serials_identify :: "tls_cert list \<Rightarrow> bool" where
  "serials_identify certs \<longleftrightarrow>
     (\<forall>c \<in> set certs. tc_serial c \<noteq> '''' \<and>
        (\<forall>c' \<in> set certs. tc_serial c' = tc_serial c \<longrightarrow> tc_chain c' = tc_chain c \<and> tc_key c' = tc_key c))"

lemma unserved_cert:
  "a \<in> set (real_zones dflt server d @ custom_zones key server d) \<Longrightarrow> az_cert a = '''' \<and> az_key a = '''' \<and> az_serial a = ''''"
  by (auto simp: real_zones_def toAgentZone_def custom_zones_pairs custom_part_def zone_part_def Let_def)

lemma served_cert:
  assumes "a \<in> set (agent_zones key dflt server d)"
  shows "(az_cert a = '''' \<and> az_key a = '''' \<and> az_serial a = '''') \<or>
         (\<exists>c \<in> set (tb_certs d). az_cert a = tc_chain c \<and> az_key a = tc_key c \<and> az_serial a = tc_serial c)"
proof -
  let ?pre = "real_zones dflt server d @ custom_zones key server d" and ?certs = "ListTLSCerts key d"
  obtain b where b: "b \<in> set ?pre" "a = b \<or> a = attach_cert ?certs b"
    using assms by (auto simp: agent_zones_def attachManagedCerts_def split: if_splits)
  have "a = b \<or> (\<exists>c \<in> set ?certs. a = b\<lparr>az_cert := tc_chain c, az_key := tc_key c, az_serial := tc_serial c\<rparr>)"
    using b(2) by (auto simp: attach_cert_def find_Some_iff split: option.splits if_splits)
  then show ?thesis using unserved_cert [OF b(1)] by (auto simp: ListTLSCerts_def)
qed

lemma same_cert:
  assumes s: "serials_identify (tb_certs d @ tb_certs d')"
      and a: "a \<in> set (agent_zones key dflt server d)" and a': "a' \<in> set (agent_zones key dflt server d')"
      and eq: "az_serial a = az_serial a'"
    shows "az_cert a = az_cert a' \<and> az_key a = az_key a'"
proof -
  have ne: "tc_serial c \<noteq> ''''" if "c \<in> set (tb_certs d) \<union> set (tb_certs d')" for c
    using s that by (auto simp: serials_identify_def)
  have id: "tc_chain c = tc_chain c' \<and> tc_key c = tc_key c'"
    if "c \<in> set (tb_certs d) \<union> set (tb_certs d')" "c' \<in> set (tb_certs d) \<union> set (tb_certs d')" "tc_serial c = tc_serial c'"
    for c c'
  proof -
    have "\<forall>x \<in> set (tb_certs d @ tb_certs d'). \<forall>y \<in> set (tb_certs d @ tb_certs d').
            tc_serial y = tc_serial x \<longrightarrow> tc_chain y = tc_chain x \<and> tc_key y = tc_key x"
      using s unfolding serials_identify_def by blast
    then show ?thesis using that unfolding set_append by blast
  qed
  consider "az_cert a = ''''" "az_key a = ''''" "az_serial a = ''''"
    | c where "c \<in> set (tb_certs d)" "az_cert a = tc_chain c" "az_key a = tc_key c" "az_serial a = tc_serial c"
    using served_cert [OF a] by blast
  then show ?thesis
  proof cases
    case 1
    have "tc_serial c \<noteq> az_serial a'" if "c \<in> set (tb_certs d')" for c using ne [of c] that eq 1(3) by simp
    then have "az_cert a' = ''''" "az_key a' = ''''" using served_cert [OF a'] by metis+
    then show ?thesis using 1 by simp
  next
    case (2 c)
    then obtain c' where c': "c' \<in> set (tb_certs d')" "az_cert a' = tc_chain c'" "az_key a' = tc_key c'" "az_serial a' = tc_serial c'"
      using served_cert [OF a'] eq ne [of c] by auto
    then show ?thesis using 2 eq id [of c c'] by simp
  qed
qed

lemma strip_inject:
  assumes "strip a = strip a'" "az_shield a = az_shield a'" "az_serial a = az_serial a'" "az_cert a = az_cert a'" "az_key a = az_key a'"
  shows "a = a'"
  using assms by (cases a; cases a') (simp add: strip_def)

lemma served_agree:
  assumes s: "serials_identify (tb_certs d @ tb_certs d')"
      and strips: "map strip (agent_zones key dflt server d) = map strip (agent_zones key dflt server d')"
      and tags: "map (\<lambda>a. (az_hostname a, az_serial a, az_shield a)) (agent_zones key dflt server d) =
                 map (\<lambda>a. (az_hostname a, az_serial a, az_shield a)) (agent_zones key dflt server d')"
    shows "agent_zones key dflt server d = agent_zones key dflt server d'"
proof (rule nth_equalityI)
  let ?A = "agent_zones key dflt server d" and ?B = "agent_zones key dflt server d'"
  show len: "length ?A = length ?B" using arg_cong [OF strips, of length] by simp
  fix n assume n: "n < length ?A"
  then have n': "n < length ?B" using len by simp
  have "strip (?A ! n) = strip (?B ! n)"
    using arg_cong [OF strips, of "\<lambda>xs. xs ! n"] n n' by simp
  moreover have tag: "az_serial (?A ! n) = az_serial (?B ! n)" "az_shield (?A ! n) = az_shield (?B ! n)"
    using arg_cong [OF tags, of "\<lambda>xs. xs ! n"] n n' by simp_all
  moreover note same_cert [OF s nth_mem [OF n] nth_mem [OF n'] tag(1)]
  ultimately show "?A ! n = ?B ! n" by (elim conjE) (rule strip_inject)
qed

lemma same_message_same_zones:
  assumes wf: "wf_db d" "wf_db d'" and l: "later d d'" and s: "serials_identify (tb_certs d @ tb_certs d')"
      and clean: "\<forall>a \<in> set (agent_zones key dflt server d). etag_clean a"
                 "\<forall>a \<in> set (agent_zones key dflt server d'). etag_clean a"
      and eq: "etag_message (server_zone_rows server d) (agent_zones key dflt server d) =
               etag_message (server_zone_rows server d') (agent_zones key dflt server d')"
    shows "agent_zones key dflt server d = agent_zones key dflt server d'"
proof -
  note parts = etag_message_inject [OF eq clean]
  have "map az_hostname (agent_zones key dflt server d) = map az_hostname (agent_zones key dflt server d')"
    using arg_cong [OF conjunct2 [OF parts], of "map fst"] by (simp add: comp_def)
  then have "map strip (real_zones dflt server d @ custom_zones key server d) =
             map strip (real_zones dflt server d' @ custom_zones key server d')"
    using parts by (intro bodies_agree [OF wf l]) (simp_all add: agent_zones_def attachManagedCerts_frame del: map_append)
  then have "map strip (agent_zones key dflt server d) = map strip (agent_zones key dflt server d')"
    by (simp only: agent_zones_def attachManagedCerts_frame)
  then show ?thesis using parts by (intro served_agree [OF s]) simp_all
qed

text \<open>A network of one edge and one zone with a rule, a certificate and a custom domain.\<close>

definition demo_rule :: rule_params where
  "demo_rule = \<lparr>rp_priority = 0, rp_match_type = ''extension'', rp_match_value = ''zip'', rp_action = ''force_download'',
                rp_value = None\<rparr>"

definition demo_server_params :: "string \<Rightarrow> create_server_params" where
  "demo_server_params e =
     \<lparr>cp_name = e, cp_region = ''IN'', cp_ip = ''192.0.2.1'', cp_hostname = None, cp_edge = e,
      cp_capacity = None, cp_by_capacity = False, cp_ssh_user = None, cp_ssh_port = 0\<rparr>"

definition demo_zone_params :: "string \<Rightarrow> create_zone_params" where
  "demo_zone_params h =
     \<lparr>cz_name = h, cz_hostname = h, cz_custom = None, cz_origin = ''https://o.com'', cz_host_header = '''',
      cz_tls = ''managed'', cz_video = False, cz_profile = ''vod'', cz_playlist_ttl = ''2s'', cz_segment_ttl = ''12h'',
      cz_cors = ''*'', cz_brotli = 5\<rparr>"

definition demo_cert :: tls_cert where
  "demo_cert = \<lparr>tc_id = 0, tc_name = ''b.com'', tc_domains = ''*.b.com,b.com'', tc_chain = ''CHAIN'', tc_key = ''KEY'',
                tc_issuer = ''CA'', tc_serial = ''1f'', tc_staging = False\<rparr>"

definition empty_db :: control_db where
  "empty_db =
     \<lparr>tb_zones = [], tb_rules = [], tb_waf_rules = [], tb_limits = [], tb_transforms = [], tb_domains = [], tb_certs = [],
      tb_servers = [], tb_assigned = [], tb_jobs = [], tb_logs = [], sq_zone = 1, sq_rule = 1, sq_waf_rule = 1,
      sq_limit = 1, sq_transform = 1, sq_domain = 1, sq_cert = 1, sq_server = 1, sq_job = 1\<rparr>"

lemma wf_empty_db: "wf_db empty_db"
  by (simp add: wf_db_def empty_db_def)

definition demo_network :: control_db where
  "demo_network = run_txns
     [OnServer (TCreateServer (demo_server_params ''e1'')), OnZone (TCreateZone (demo_zone_params ''a.b.com'')),
      OnDomain (TAssignZone 1 1), OnRow (TCreateRule 1 demo_rule), OnDomain (TUpsertTLSCert demo_cert),
      OnDomain (TCreateCustomDomain 1 1 ''www.c.com''), OnDomain (TSetCustomDomainActive 0 1 ''www.c.com'')] empty_db"

lemma wf_demo: "wf_db demo_network"
  unfolding demo_network_def by (rule wf_run_txns [OF wf_empty_db])

text \<open>
  C2: A 304 is never stale. Whatever transactions -- of any handler or background loop, in any
  order -- happen between two polls of an edge, if the second poll is answered \<open>304 Not
  Modified\<close> for the tag of the first answer, then the zones of the first answer are, field for
  field and in order, the ones the control plane would send now. The tag holds only versions, host
  names, serials and shields, so this rests on every change of a zone, its rules, its WAF settings,
  its transforms and its custom domains bumping \<open>config_version\<close>. Assumed of the rest: the digest
  separates the two messages, host names and serials contain no separator, and a certificate's
  serial identifies it.
\<close>

theorem not_modified_is_current:
  assumes wf: "wf_db d"
      and first: "agentConfig digest key dflt (Some server) inm d = ConfigServed tag zones"
      and second: "agentConfig digest key dflt (Some server) tag (run_txns ts d) = ConfigNotModified tag'"
      and hash: "\<And>m m'. digest m = digest m' \<Longrightarrow>
                   m = etag_message (server_zone_rows server d) (agent_zones key dflt server d) \<Longrightarrow>
                   m' = etag_message (server_zone_rows server (run_txns ts d)) (agent_zones key dflt server (run_txns ts d)) \<Longrightarrow> m = m'"
      and clean: "\<forall>a \<in> set (zones @ agent_zones key dflt server (run_txns ts d)). etag_clean a"
      and serials: "serials_identify (tb_certs d @ tb_certs (run_txns ts d))"
    shows "zones = agent_zones key dflt server (run_txns ts d)"
proof -
  have zones: "zones = agent_zones key dflt server d" and tag: "tag = CHR 0x22 # agent_etag digest key dflt server d @ [CHR 0x22]"
    using first by (auto simp: agentConfig_def Let_def split: if_splits)
  have "agent_etag digest key dflt server d = agent_etag digest key dflt server (run_txns ts d)"
    using second by (auto simp: agentConfig_def Let_def tag split: if_splits)
  then have "etag_message (server_zone_rows server d) (agent_zones key dflt server d) =
             etag_message (server_zone_rows server (run_txns ts d)) (agent_zones key dflt server (run_txns ts d))"
    using hash by (simp add: agent_etag_def configETag_def)
  then show ?thesis unfolding zones
    using clean zones by (intro same_message_same_zones [OF wf wf_run_txns [OF wf] later_run_txns [OF wf] serials]) simp_all
qed

text \<open>
  Between the polls another zone is created with a rule, the edge goes online and a deletion fails;
  the edge serves its zone and the custom domain.
\<close>

definition quiet_txns :: "txn list" where
  "quiet_txns = [OnZone (TCreateZone (demo_zone_params ''x.b.com'')), OnServer (TUpdateServerStatus 1 ''online''),
                 OnRow (TCreateRule 2 demo_rule), OnRow (TDeleteRule 1 7)]"

abbreviation demo_agentConfig :: "string \<Rightarrow> control_db \<Rightarrow> config_answer" where
  "demo_agentConfig \<equiv> agentConfig (\<lambda>m. m) (\<lambda>_. 0) 0 (Some 1)"

abbreviation demo_agent_zones :: "control_db \<Rightarrow> api_zone list" where
  "demo_agent_zones \<equiv> agent_zones (\<lambda>_. 0) 0 1"

definition demo_tag :: string where
  "demo_tag = CHR 0x22 # agent_etag (\<lambda>m. m) (\<lambda>_. 0) 0 1 demo_network @ [CHR 0x22]"

lemma demo_first: "demo_agentConfig '''' demo_network = ConfigServed demo_tag (demo_agent_zones demo_network)"
  by (simp add: agentConfig_def demo_tag_def Let_def)

lemma demo_quiet:
  "demo_agentConfig demo_tag (run_txns quiet_txns demo_network) = ConfigNotModified demo_tag"
  "\<forall>a \<in> set (demo_agent_zones demo_network @ demo_agent_zones (run_txns quiet_txns demo_network)). etag_clean a"
  "serials_identify (tb_certs demo_network @ tb_certs (run_txns quiet_txns demo_network))"
  by code_simp+

lemma not_modified_is_current_witness:
  "demo_agentConfig '''' demo_network = ConfigServed demo_tag (demo_agent_zones demo_network) \<and>
   demo_agentConfig demo_tag (run_txns quiet_txns demo_network) = ConfigNotModified demo_tag \<and>
   demo_agent_zones demo_network = demo_agent_zones (run_txns quiet_txns demo_network)"
  using demo_first demo_quiet(1)
    not_modified_is_current [OF wf_demo demo_first demo_quiet(1) _ demo_quiet(2,3)] by blast

subsection \<open>An edit reaches the edges\<close>

text \<open>The zone whose configuration a transaction edits.\<close>

fun edited_zone :: "txn \<Rightarrow> int option" where
  "edited_zone (OnZone (TCreateZone p)) = None"
| "edited_zone (OnZone (TDeleteZone i)) = None"
| "edited_zone (OnZone (TUpdateZone i p)) = Some i"
| "edited_zone (OnZone (TSetZoneShield i a b)) = Some i"
| "edited_zone (OnZone (TSetZoneWAF i a)) = Some i"
| "edited_zone (OnZone (TSetZoneCacheSettings i a)) = Some i"
| "edited_zone (OnZone (TSetZoneHotlink i a b c)) = Some i"
| "edited_zone (OnZone (TSetZoneErrorPage i a)) = Some i"
| "edited_zone (OnZone (TSetZoneBlockedIPs i a)) = Some i"
| "edited_zone (OnZone (TSetZoneAccessFlags i a b)) = Some i"
| "edited_zone (OnZone (TBumpZone i)) = Some i"
| "edited_zone (OnRow t) = Some (txn_zone t)"
| "edited_zone (OnDomain t) = None"
| "edited_zone (OnServer t) = None"

lemma bumped_version:
  assumes "tb_zones d1 = map (\<lambda>z. if sz_id z = i then bump_zone (f z) else z) (tb_zones d)"
      and "\<And>z. sz_id (f z) = sz_id z" "\<And>z. sz_version (f z) = sz_version z"
      and "z1 \<in> set (tb_zones d1)" "sz_id z1 = i"
    shows "\<exists>z \<in> set (tb_zones d). sz_id z = i \<and> sz_version z < sz_version z1"
proof -
  obtain z where "z \<in> set (tb_zones d)" "z1 = (if sz_id z = i then bump_zone (f z) else z)"
    using assms(1,4) by auto
  then show ?thesis using assms(2,3,5) by (cases "sz_id z = i") (auto simp: bump_zone_def)
qed

lemma bumped_update:
  assumes "without_row (update_zone i f d) = Inr d1" "\<And>z. sz_id (f z) = sz_id z" "\<And>z. sz_version (f z) = sz_version z"
      and "z1 \<in> set (tb_zones d1)" "sz_id z1 = i"
    shows "\<exists>z \<in> set (tb_zones d). sz_id z = i \<and> sz_version z < sz_version z1"
proof -
  have "tb_zones d1 = map (\<lambda>z. if sz_id z = i then bump_zone (f z) else z) (tb_zones d)"
    using assms(1) by (auto simp: update_zone_def set_zone_def split: sum.splits)
  then show ?thesis using bumped_version assms(2-5) by blast
qed

lemma edit_bumps:
  assumes t: "exec_txn t d = Inr d1" and i: "edited_zone t = Some i" and z1: "z1 \<in> set (tb_zones d1)" "sz_id z1 = i"
  shows "\<exists>z \<in> set (tb_zones d). sz_id z = i \<and> sz_version z < sz_version z1"
proof (cases t)
  case (OnRow r)
  have "tb_zones d1 = map (\<lambda>z. if sz_id z = i then bump_zone z else z) (tb_zones d)"
    using row_txn_frame(1) [of r d d1] t i OnRow by (simp add: BumpZoneConfigVersion_def set_zone_def)
  then show ?thesis by (rule bumped_version [OF _ _ _ z1]) simp_all
next
  case (OnZone u)
  show ?thesis
  proof (cases u)
    case (TUpdateZone j p)
    then show ?thesis using t i OnZone z1
      by (auto simp: UpdateZone_def split: sum.splits if_splits intro!: bumped_update [where f = "coalesce_zone p"])
         (auto simp: coalesce_zone_def)
  next
    case (TBumpZone j)
    then have "tb_zones d1 = map (\<lambda>z. if sz_id z = i then bump_zone z else z) (tb_zones d)"
      using t i OnZone by (auto simp: BumpZoneConfigVersion_def set_zone_def)
    then show ?thesis by (rule bumped_version [OF _ _ _ z1]) simp_all
  qed (use t i OnZone z1 in \<open>auto simp: SetZoneShield_def SetZoneWAF_def SetZoneCacheSettings_def SetZoneHotlink_def
         SetZoneErrorPage_def SetZoneBlockedIPs_def SetZoneAccessFlags_def split: if_splits intro: bumped_update\<close>)
qed (use i in auto)

text \<open>
  C6: An edit is never missed. Once a zone assigned to an edge has been edited -- its settings,
  rules, WAF, rate limits or transforms -- an edge that polls with the tag it got before is served
  the current configuration in full, however many further transactions have run by then, as long as
  the zone is still assigned to it.
\<close>

theorem edit_is_served:
  assumes wf: "wf_db d"
      and edit: "exec_txn t d = Inr d1" "edited_zone t = Some i"
      and held: "agentConfig digest key dflt (Some server) inm d = ConfigServed tag zones"
      and assigned: "i \<in> sz_id ` set (server_zone_rows server d)" "i \<in> sz_id ` set (server_zone_rows server (run_txns ts d1))"
      and hash: "\<And>m m'. digest m = digest m' \<Longrightarrow>
                   m = etag_message (server_zone_rows server d) (agent_zones key dflt server d) \<Longrightarrow>
                   m' = etag_message (server_zone_rows server (run_txns ts d1)) (agent_zones key dflt server (run_txns ts d1)) \<Longrightarrow> m = m'"
      and clean: "\<forall>a \<in> set (zones @ agent_zones key dflt server (run_txns ts d1)). etag_clean a"
    shows "\<exists>tag'. agentConfig digest key dflt (Some server) tag (run_txns ts d1) =
             ConfigServed tag' (agent_zones key dflt server (run_txns ts d1))"
proof -
  let ?d2 = "run_txns ts d1"
  have zones: "zones = agent_zones key dflt server d" and tag: "tag = CHR 0x22 # agent_etag digest key dflt server d @ [CHR 0x22]"
    using held by (auto simp: agentConfig_def Let_def split: if_splits)
  have d1: "d1 = run_txn t d" using edit(1) by (simp add: run_txn_def)
  have "agent_etag digest key dflt server d \<noteq> agent_etag digest key dflt server ?d2"
  proof
    assume "agent_etag digest key dflt server d = agent_etag digest key dflt server ?d2"
    then have "etag_message (server_zone_rows server d) (agent_zones key dflt server d) =
               etag_message (server_zone_rows server ?d2) (agent_zones key dflt server ?d2)"
      using hash by (simp add: agent_etag_def configETag_def)
    from etag_message_inject [OF this] clean zones
    have same: "map (\<lambda>z. (sz_id z, sz_version z)) (server_zone_rows server d) =
                map (\<lambda>z. (sz_id z, sz_version z)) (server_zone_rows server ?d2)" by auto
    obtain z2 where z2: "z2 \<in> set (server_zone_rows server ?d2)" "sz_id z2 = i" using assigned(2) by auto
    have "(sz_id z2, sz_version z2) \<in> set (map (\<lambda>z. (sz_id z, sz_version z)) (server_zone_rows server d))"
      using z2(1) by (simp only: same set_map image_eqI)
    then obtain z where z: "z \<in> set (tb_zones d)" "sz_id z = i" "sz_version z = sz_version z2"
      using z2(2) by (auto dest: row_mem)
    have "\<not> sq_zone d1 \<le> sz_id z2"
      using wf z(1,2) z2(2) later_run_txn [OF wf, of t] by (auto simp: wf_db_def later_def d1)
    then obtain z1 where z1: "z1 \<in> set (tb_zones d1)" "zone_continues d1 ?d2 z1 z2"
      using later_run_txns [OF wf_run_txn [OF wf], of t ts] row_mem [OF z2(1)] unfolding later_def d1 by blast
    then obtain x where x: "x \<in> set (tb_zones d)" "sz_id x = i" "sz_version x < sz_version z1"
      using edit_bumps [OF edit z1(1)] zone_continuesD(1) [OF z1(2)] z2(2) by auto
    have "x = z" using same_id [OF wf x(1) z(1)] x(2) z(2) by simp
    then show False using x(3) z(3) zone_continuesD(2) [OF z1(2)] by simp
  qed
  then show ?thesis by (auto simp: agentConfig_def Let_def tag)
qed

definition loud_txns :: "txn list" where
  "loud_txns = [OnServer (TUpdateServerStatus 1 ''online''), OnZone (TSetZoneErrorPage 1 ''<p>''), OnRow (TDeleteRule 1 1)]"

definition edited_network :: control_db where
  "edited_network = run_txn (OnRow (TCreateRule 1 demo_rule)) demo_network"

lemma demo_edit:
  "exec_txn (OnRow (TCreateRule 1 demo_rule)) demo_network = Inr edited_network"
  "1 \<in> sz_id ` set (server_zone_rows 1 demo_network)" "1 \<in> sz_id ` set (server_zone_rows 1 (run_txns loud_txns edited_network))"
  "\<forall>a \<in> set (demo_agent_zones demo_network @ demo_agent_zones (run_txns loud_txns edited_network)). etag_clean a"
  by code_simp+

lemma edit_is_served_witness:
  "\<exists>tag'. demo_agentConfig demo_tag (run_txns loud_txns edited_network) =
           ConfigServed tag' (demo_agent_zones (run_txns loud_txns edited_network))"
  by (rule edit_is_served [OF wf_demo demo_edit(1) _ demo_first demo_edit(2,3) _ demo_edit(4)]) simp_all

end
