(* ===== verification/Validators.thy ===== *)
theory Validators
  imports Prelude
begin

section \<open>Input checks of the zone settings\<close>

text \<open>
  The checks the control plane makes before it stores text that ends up in an edge's nginx
  configuration: referrer hosts (\<open>api/hotlink.go\<close>), header, cookie and argument names and nginx times
  (\<open>api/cache_settings.go\<close>), blocked addresses (\<open>api/blockedips.go\<close>), headers a transform may not touch
  (\<open>api/transforms.go\<close>) and purge targets (\<open>api/purge.go\<close>). \<open>net.ParseIP\<close>, \<open>net.ParseCIDR\<close> (with the
  printing of their results) and \<open>url.Parse\<close> are parameters. A rejected list is \<open>Inl\<close> of the offending part.
\<close>

subsection \<open>Referrers\<close>

definition normalizeRefererHost :: "string \<Rightarrow> string" where
  "normalizeRefererHost s =
     (let s = trim_space s in
      if s = '''' then ''''
      else (let s = (case index_str ''://'' s of Some i \<Rightarrow> drop (i + 3) s | None \<Rightarrow> s);
                s = takeWhile (\<lambda>c. c \<notin> set ''/?#'') s;
                s = (case last_index_byte (CHR '':'') s of Some i \<Rightarrow> take i s | None \<Rightarrow> s)
            in to_lower (trim_space s)))"

definition alnum :: "char \<Rightarrow> bool" where
  "alnum c \<longleftrightarrow> is_lower c \<or> is_digit c"

definition referer_core :: "string \<Rightarrow> string" where
  "referer_core h = trim_suffix (trim_prefix h ''*.'') ''.*''"

definition validRefererHost :: "string \<Rightarrow> bool" where
  "validRefererHost h =
     (if h = '''' \<or> length h > 253 then False
      else if referer_core h = '''' then False
      else list_all (\<lambda>c. alnum c \<or> c = CHR ''.'' \<or> c = CHR ''-'') (referer_core h) \<and> list_ex alnum (referer_core h))"

fun clean_referers :: "string list \<Rightarrow> string list \<Rightarrow> string + string list" where
  "clean_referers out [] = Inr out"
| "clean_referers out (p # ps) =
     (let h = normalizeRefererHost p in
      if h = '''' then clean_referers out ps
      else if \<not> validRefererHost h then Inl p
      else if h \<in> set out then clean_referers out ps
      else clean_referers (out @ [h]) ps)"

definition cleanRefererList :: "string \<Rightarrow> string + string" where
  "cleanRefererList raw = map_sum (\<lambda>p. p) (join '','') (clean_referers [] (split_on (CHR '','') raw))"

subsection \<open>Names and times\<close>

definition token_char :: "char \<Rightarrow> bool" where
  "token_char c \<longleftrightarrow> is_lower c \<or> is_upper c \<or> is_digit c \<or> c = CHR ''_'' \<or> c = CHR ''-''"

definition tokenName :: "string \<Rightarrow> bool" where
  "tokenName s \<longleftrightarrow> s \<noteq> '''' \<and> list_all token_char s"

definition nginx_units :: "string list" where
  "nginx_units = ['''', ''ms'', ''s'', ''m'', ''h'', ''d'', ''w'', ''M'', ''y'']"

definition nginxTime :: "string \<Rightarrow> bool" where
  "nginxTime s \<longleftrightarrow> takeWhile is_digit s \<noteq> '''' \<and> dropWhile is_digit s \<in> set nginx_units"

fun clean_tokens :: "string list \<Rightarrow> string list \<Rightarrow> string + string list" where
  "clean_tokens out [] = Inr out"
| "clean_tokens out (p # ps) =
     (let p = trim_space p in
      if p = '''' then clean_tokens out ps
      else if \<not> tokenName p then Inl p
      else clean_tokens (out @ [p]) ps)"

definition cleanTokenList :: "string \<Rightarrow> string + string" where
  "cleanTokenList raw = map_sum (\<lambda>p. p) (join '','') (clean_tokens [] (split_on (CHR '','') raw))"

subsection \<open>Blocked addresses\<close>

definition maxBlockedIPs :: nat where
  "maxBlockedIPs = 1000"

text \<open>\<open>strings.FieldsFunc\<close>: the maximal runs of characters that are no separator.\<close>

fun fields_by :: "(char \<Rightarrow> bool) \<Rightarrow> string \<Rightarrow> string \<Rightarrow> string list" where
  "fields_by sep cur [] = (if cur = [] then [] else [cur])"
| "fields_by sep cur (x # xs) =
     (if sep x then (if cur = [] then fields_by sep [] xs else cur # fields_by sep [] xs)
      else fields_by sep (cur @ [x]) xs)"

definition normalizeIPOrCIDR :: "(string \<Rightarrow> string option) \<Rightarrow> (string \<Rightarrow> string option) \<Rightarrow> string \<Rightarrow> string option" where
  "normalizeIPOrCIDR ip cidr s = (if contains_str s ''/'' then cidr s else ip s)"

datatype blocked_error = BadAddress string | TooManyAddresses

fun clean_blocked ::
  "(string \<Rightarrow> string option) \<Rightarrow> (string \<Rightarrow> string option) \<Rightarrow> string list \<Rightarrow> string list \<Rightarrow> blocked_error + string list" where
  "clean_blocked ip cidr out [] = Inr out"
| "clean_blocked ip cidr out (p # ps) =
     (let e = trim_space p in
      if e = '''' then clean_blocked ip cidr out ps
      else (case normalizeIPOrCIDR ip cidr e of
              None \<Rightarrow> Inl (BadAddress p)
            | Some a \<Rightarrow>
                if a \<in> set out then clean_blocked ip cidr out ps
                else if length (out @ [a]) > maxBlockedIPs then Inl TooManyAddresses
                else clean_blocked ip cidr (out @ [a]) ps))"

definition cleanBlockedIPs ::
  "(string \<Rightarrow> string option) \<Rightarrow> (string \<Rightarrow> string option) \<Rightarrow> string \<Rightarrow> blocked_error + string" where
  "cleanBlockedIPs ip cidr raw =
     map_sum (\<lambda>e. e) (join '','')
       (clean_blocked ip cidr [] (fields_by (\<lambda>c. c = CHR '','' \<or> c = CHR 0x0A \<or> c = CHR 0x0D) [] raw))"

subsection \<open>Managed headers and purge targets\<close>

definition managedHeaderDenied :: "string \<Rightarrow> string \<Rightarrow> bool" where
  "managedHeaderDenied phase header =
     (let h = to_lower (trim_space header) in
      has_prefix h ''x-brisk-'' \<or>
      h \<in> {''content-length'', ''transfer-encoding'', ''connection'', ''''} \<or>
      (phase = ''response'' \<and> h \<in> {''server'', ''strict-transport-security'', ''content-encoding'', ''date''}) \<or>
      (phase = ''request'' \<and> h \<in> {''host'', ''x-forwarded-proto'', ''x-forwarded-for''}))"

text \<open>What \<open>url.Parse\<close> yields: scheme, host, \<open>EscapedPath()\<close> and the raw query.\<close>

record purge_url =
  pu_scheme :: string
  pu_host :: string
  pu_path :: string
  pu_query :: string

definition normalizePurgeTarget :: "(string \<Rightarrow> purge_url option) \<Rightarrow> string \<Rightarrow> string \<Rightarrow> string option" where
  "normalizePurgeTarget parse raw typ =
     (if typ = ''zone'' then Some ''/''
      else (let t = trim_space raw;
                t = (case parse t of
                       None \<Rightarrow> t
                     | Some u \<Rightarrow>
                         if (equal_fold (pu_scheme u) ''http'' \<or> equal_fold (pu_scheme u) ''https'') \<and> pu_host u \<noteq> ''''
                         then (let p = (if pu_path u = '''' then ''/'' else pu_path u)
                               in if pu_query u \<noteq> '''' then p @ ''?'' @ pu_query u else p)
                         else t)
            in if t = '''' \<or> \<not> has_prefix t ''/'' then None else Some t))"

subsection \<open>What is accepted\<close>

text \<open>Characters with no meaning to the parser of nginx.\<close>

definition plain_char :: "char \<Rightarrow> bool" where
  "plain_char c \<longleftrightarrow> is_lower c \<or> is_upper c \<or> is_digit c \<or> c \<in> set ''.*-_,:/''"

lemma join_chars: "c \<in> set (join sep ps) \<Longrightarrow> c \<in> set sep \<or> (\<exists>p \<in> set ps. c \<in> set p)"
  by (induction sep ps rule: join.induct) auto

lemma core_chars: "c \<in> set h \<Longrightarrow> c \<in> set (referer_core h) \<or> c = CHR ''*'' \<or> c = CHR ''.''"
proof -
  assume c: "c \<in> set h"
  have "set s \<subseteq> set (trim_prefix s p) \<union> set p" for s p
    by (auto simp: trim_prefix_def has_prefix_def) (metis Un_iff append_take_drop_id set_append)
  moreover have "set s \<subseteq> set (trim_suffix s p) \<union> set p" for s p
    by (auto simp: trim_suffix_def has_suffix_def) (metis Un_iff append_take_drop_id set_append)
  ultimately have "set h \<subseteq> set (referer_core h) \<union> set ''.*'' \<union> set ''*.''" unfolding referer_core_def by blast
  then show ?thesis using c by auto
qed

lemma validRefererHost_chars: "validRefererHost h \<Longrightarrow> c \<in> set h \<Longrightarrow> alnum c \<or> c \<in> set ''.*-''"
proof -
  assume v: "validRefererHost h" and c: "c \<in> set h"
  have "\<forall>c \<in> set (referer_core h). alnum c \<or> c = CHR ''.'' \<or> c = CHR ''-''"
    using v by (auto simp: validRefererHost_def list_all_iff split: if_splits)
  then show ?thesis using core_chars [OF c] by auto
qed

lemma clean_referers_valid:
  "clean_referers out ps = Inr hs \<Longrightarrow> \<forall>h \<in> set out. validRefererHost h \<Longrightarrow> distinct out \<Longrightarrow>
   (\<forall>h \<in> set hs. validRefererHost h) \<and> distinct hs"
proof (induction ps arbitrary: out)
  case (Cons p ps)
  let ?h = "normalizeRefererHost p"
  consider "?h = ''''" | "?h \<noteq> ''''" "validRefererHost ?h" "?h \<in> set out" | "?h \<noteq> ''''" "validRefererHost ?h" "?h \<notin> set out"
    using Cons.prems(1) by (fastforce simp: Let_def)
  then show ?case
  proof cases
    case 3
    then show ?thesis using Cons.IH [of "out @ [?h]"] Cons.prems by (simp add: Let_def)
  qed (use Cons in \<open>simp_all add: Let_def\<close>)
qed simp

lemma clean_tokens_valid:
  "clean_tokens out ps = Inr ts \<Longrightarrow> \<forall>t \<in> set out. tokenName t \<Longrightarrow> \<forall>t \<in> set ts. tokenName t"
proof (induction ps arbitrary: out)
  case (Cons p ps)
  consider "trim_space p = ''''" | "trim_space p \<noteq> ''''" "tokenName (trim_space p)"
    using Cons.prems(1) by (fastforce simp: Let_def)
  then show ?case
  proof cases
    case 2
    then show ?thesis using Cons.IH [of "out @ [trim_space p]"] Cons.prems by (simp add: Let_def)
  qed (use Cons in \<open>simp_all add: Let_def\<close>)
qed simp

lemma split_join: "ps \<noteq> [] \<Longrightarrow> \<forall>p \<in> set ps. c \<notin> set p \<Longrightarrow> split_on c (join [c] ps) = ps"
proof (induction "[c]" ps rule: join.induct)
  case (2 p)
  have "c \<notin> set p \<Longrightarrow> split_on c p = [p]" by (induction p) auto
  then show ?case using 2 by simp
next
  case (3 p q ps)
  have "c \<notin> set p \<Longrightarrow> split_on c (p @ c # s) = p # split_on c s" for s by (induction p) auto
  then show ?case using 3 by simp
qed simp

lemma trim_no_space: "\<forall>c \<in> set s. \<not> is_space c \<Longrightarrow> trim_space s = s"
proof -
  have d: "dropWhile is_space s = s" if "\<forall>c \<in> set s. \<not> is_space c" for s using that by (cases s) auto
  assume "\<forall>c \<in> set s. \<not> is_space c"
  then show ?thesis using d [of s] d [of "rev s"] by (simp add: trim_space_def)
qed

lemma index_str_None: "p \<noteq> [] \<Longrightarrow> hd p \<notin> set s \<Longrightarrow> index_str p s = None"
  by (induction s) (auto simp: has_prefix_def neq_Nil_conv)

lemma last_index_byte_None: "c \<notin> set s \<Longrightarrow> last_index_byte c s = None"
  by (induction s) auto

lemma host_char_facts:
  assumes "alnum c \<or> c \<in> set ''.*-''"
  shows "\<not> is_space c" "c \<notin> set '':/?#,''" "lower_char c = c" "plain_char c"
  using assms
  by (auto simp: alnum_def is_lower_def is_digit_def is_space_def lower_char_def plain_char_def Let_def)

lemma normalize_valid:
  assumes v: "validRefererHost h" shows "normalizeRefererHost h = h"
proof -
  have c: "\<not> is_space c" "c \<notin> set '':/?#,''" "lower_char c = c" if "c \<in> set h" for c
    using host_char_facts [OF validRefererHost_chars [OF v that]] by auto
  have ne: "h \<noteq> ''''" using v by (auto simp: validRefererHost_def)
  have t: "trim_space h = h" by (rule trim_no_space) (use c in blast)
  have "hd ''://'' \<notin> set h" "CHR '':'' \<notin> set h" using c(2) by force+
  then have i: "index_str ''://'' h = None" "last_index_byte (CHR '':'') h = None"
    using index_str_None [of "''://''" h] last_index_byte_None by simp_all
  have w: "takeWhile (\<lambda>c. c \<noteq> CHR ''/'' \<and> c \<noteq> CHR ''?'' \<and> c \<noteq> CHR ''#'') h = h"
    using c(2) by (intro takeWhile_eq_all_conv [THEN iffD2]) fastforce
  have "to_lower h = h" unfolding to_lower_def by (rule map_idI) (rule c(3))
  then show ?thesis using ne by (simp add: normalizeRefererHost_def t i w Let_def del: takeWhile_eq_all_conv)
qed

lemma clean_referers_idem:
  "\<forall>h \<in> set hs. validRefererHost h \<Longrightarrow> distinct (out @ hs) \<Longrightarrow> clean_referers out hs = Inr (out @ hs)"
proof (induction hs arbitrary: out)
  case (Cons h hs)
  then have "h \<noteq> ''''" by (auto simp: validRefererHost_def)
  then show ?case using Cons normalize_valid [of h] by (simp add: Let_def)
qed simp

lemma clean_tokens_idem: "\<forall>t \<in> set ts. tokenName t \<Longrightarrow> clean_tokens out ts = Inr (out @ ts)"
proof (induction ts arbitrary: out)
  case (Cons t ts)
  have "\<forall>c \<in> set t. \<not> is_space c"
    using Cons.prems by (auto simp: tokenName_def list_all_iff token_char_def is_lower_def is_upper_def is_digit_def is_space_def Let_def)
  then have "trim_space t = t" by (rule trim_no_space)
  then show ?case using Cons by (simp add: Let_def tokenName_def)
qed simp

lemma token_char_facts: "token_char c \<Longrightarrow> c \<noteq> CHR '','' \<and> plain_char c"
  by (auto simp: token_char_def plain_char_def is_lower_def is_upper_def is_digit_def Let_def)

text \<open>
  Accepted lists are plain and canonical. A referrer list or a list of header or argument names
  that the control plane accepts consists of characters nginx gives no meaning to -- no space, quote,
  semicolon, brace, backslash, dollar or line break -- and accepting it again changes nothing: what is
  stored reads back as itself.
\<close>

theorem accepted_lists_canonical:
  "(cleanRefererList raw = Inr out \<longrightarrow> cleanRefererList out = Inr out \<and> (\<forall>c \<in> set out. plain_char c)) \<and>
   (cleanTokenList raw = Inr out \<longrightarrow> cleanTokenList out = Inr out \<and> (\<forall>c \<in> set out. plain_char c))"
proof (intro conjI impI)
  assume "cleanRefererList raw = Inr out"
  then obtain hs where hs: "clean_referers [] (split_on (CHR '','') raw) = Inr hs" "out = join '','' hs"
    by (auto simp: cleanRefererList_def map_sum_def split: sum.splits)
  then have v: "\<forall>h \<in> set hs. validRefererHost h" "distinct hs" using clean_referers_valid by auto
  have c: "CHR '','' \<notin> set h" if "h \<in> set hs" for h
    using host_char_facts(2) [OF validRefererHost_chars] v(1) that by fastforce
  show "cleanRefererList out = Inr out"
  proof (cases "hs = []")
    case True
    then show ?thesis by (simp add: hs(2) cleanRefererList_def normalizeRefererHost_def trim_space_def)
  next
    case False
    then show ?thesis using split_join [of hs "CHR '',''"] c v
      by (simp add: hs(2) cleanRefererList_def clean_referers_idem)
  qed
  show "\<forall>c \<in> set out. plain_char c"
    using join_chars v(1) host_char_facts(4) [OF validRefererHost_chars] by (fastforce simp: hs(2) plain_char_def)
next
  assume "cleanTokenList raw = Inr out"
  then obtain ts where ts: "clean_tokens [] (split_on (CHR '','') raw) = Inr ts" "out = join '','' ts"
    by (auto simp: cleanTokenList_def map_sum_def split: sum.splits)
  then have v: "\<forall>t \<in> set ts. tokenName t" using clean_tokens_valid by auto
  have c: "c \<noteq> CHR '','' \<and> plain_char c" if "t \<in> set ts" "c \<in> set t" for t c
    using v that token_char_facts by (auto simp: tokenName_def list_all_iff)
  show "cleanTokenList out = Inr out"
  proof (cases "ts = []")
    case True
    then show ?thesis by (simp add: ts(2) cleanTokenList_def trim_space_def)
  next
    case False
    then show ?thesis using split_join [of ts "CHR '',''"] c v
      by (fastforce simp: ts(2) cleanTokenList_def clean_tokens_idem)
  qed
  show "\<forall>c \<in> set out. plain_char c"
    using join_chars c by (fastforce simp: ts(2) plain_char_def)
qed

lemma accepted_lists_canonical_witness:
  "cleanRefererList ''https://A.com/x, *.b.com,,a.com:80'' = Inr ''a.com,*.b.com'' \<and>
   cleanRefererList ''a.com,*.b.com'' = Inr ''a.com,*.b.com'' \<and>
   cleanTokenList '' X-A ,v'' = Inr ''X-A,v'' \<and> cleanTokenList ''X-A,v'' = Inr ''X-A,v''"
proof -
  have 1: "cleanRefererList ''https://A.com/x, *.b.com,,a.com:80'' = Inr ''a.com,*.b.com''" by code_simp
  have 2: "cleanTokenList '' X-A ,v'' = Inr ''X-A,v''" by code_simp
  show ?thesis
    using accepted_lists_canonical [where raw = "''https://A.com/x, *.b.com,,a.com:80''" and out = "''a.com,*.b.com''"] 1
      accepted_lists_canonical [where raw = "'' X-A ,v''" and out = "''X-A,v''"] 2 by blast
qed

text \<open>
  A referrer may carry both wildcards although the comment promises one of them: nginx refuses such
  a name and with it the whole configuration of the edge. Other things are refused, like a host
  with a bracket.
\<close>

lemma two_wildcards_accepted: "validRefererHost ''*.a.*'' \<and> \<not> validRefererHost ''a;b'' \<and> \<not> validRefererHost ''*.''"
  by code_simp

text \<open>A blocked-address list keeps at most 1000 entries, all printed by the parsers.\<close>

lemma clean_blocked_bound:
  "clean_blocked ip cidr out ps = Inr ips \<Longrightarrow> length out \<le> maxBlockedIPs \<Longrightarrow> distinct out \<Longrightarrow>
   length ips \<le> maxBlockedIPs \<and> distinct ips"
proof (induction ps arbitrary: out)
  case (Cons p ps)
  show ?case
  proof (cases "trim_space p = ''''")
    case False
    then obtain a where a: "normalizeIPOrCIDR ip cidr (trim_space p) = Some a"
      using Cons.prems(1) by (auto simp: Let_def split: option.splits)
    show ?thesis
    proof (cases "a \<in> set out")
      case True
      then show ?thesis using Cons a False by (simp add: Let_def)
    next
      case new: False
      then have "\<not> length (out @ [a]) > maxBlockedIPs" using Cons.prems(1) a False by (auto simp: Let_def split: if_splits)
      then show ?thesis using Cons.IH [of "out @ [a]"] Cons.prems a False new by (simp add: Let_def)
    qed
  qed (use Cons in \<open>simp add: Let_def\<close>)
qed simp

text \<open>A purge target the control plane accepts is an absolute path.\<close>

lemma purge_target_absolute: "normalizePurgeTarget parse raw typ = Some t \<Longrightarrow> has_prefix t ''/''"
  by (auto simp: normalizePurgeTarget_def Let_def has_prefix_def split: if_splits)

end
