(* ===== verification/ZonesApi.thy ===== *)
theory ZonesApi
  imports AgentApi Validators
begin

section \<open>The tenant endpoints\<close>

text \<open>
  The handlers under \<open>/zones\<close> and \<open>/domains\<close> (\<open>brisk-control/internal/api\<close>: \<open>zones.go\<close>, \<open>waf.go\<close>,
  \<open>transforms.go\<close>, \<open>cache_settings.go\<close>, \<open>hotlink.go\<close>, \<open>errorpages.go\<close>, \<open>blockedips.go\<close>, \<open>accessflags.go\<close>,
  \<open>shield.go\<close>, \<open>domains.go\<close>, \<open>purge.go\<close>) and the identity checks they rest on
  (\<open>internal/identity\<close>). A handler is a function of the caller, the decoded input and the database
  to an answer and the new database. Path parameters are the strings of the URL; \<open>None\<close> for an input
  is a body that is not the expected JSON. The \<open>hostname\<close> and \<open>url\<close> tags of the validator
  package are parameters. Answers carry the status and what the body shows of the tables; the text of an
  error answer is the code's message, shortened where the code prints details of the input.
\<close>

subsection \<open>Identities\<close>

record identity =
  id_account :: int
  id_role :: string
  id_method :: string

definition IsAdmin :: "identity \<Rightarrow> bool" where
  "IsAdmin c \<longleftrightarrow> id_role c = ''admin''"

definition CanAccessAccount :: "identity \<Rightarrow> int \<Rightarrow> bool" where
  "CanAccessAccount c account = (if id_role c = ''admin'' then True else id_account c = account)"

text \<open>\<open>nil\<close> or \<open>ErrForbidden\<close>.\<close>

definition Authorize :: "identity \<Rightarrow> int \<Rightarrow> bool" where
  "Authorize c account = CanAccessAccount c account"

definition RequireAdmin :: "identity \<Rightarrow> bool" where
  "RequireAdmin c = IsAdmin c"

subsection \<open>Answers\<close>

datatype body =
    NoBody
  | ErrorBody string
  | ZoneBody store_zone "rule_row list"
  | ZonesBody "store_zone list"
  | RuleBody rule_row
  | RulesBody int "rule_row list"
  | WafBody int waf_settings "waf_rule_params zone_row list" "limit_params zone_row list"
  | WafRulesBody int "waf_rule_params zone_row list"
  | LimitsBody int "limit_params zone_row list"
  | TransformsBody int "transform_params zone_row list"
  | ServersBody "store_server list"
  | DomainsBody int "custom_domain list"
  | JobBody purge_job
  | ConfirmBody int string nat

type_synonym answer = "int \<times> body"

definition fail :: "int \<Rightarrow> string \<Rightarrow> answer" where
  "fail status msg = (status, ErrorBody msg)"

definition strOr :: "string option \<Rightarrow> string \<Rightarrow> string" where
  "strOr p d = (case p of Some v \<Rightarrow> v | None \<Rightarrow> d)"

definition boolOr :: "bool option \<Rightarrow> bool \<Rightarrow> bool" where
  "boolOr p d = (case p of Some v \<Rightarrow> v | None \<Rightarrow> d)"

definition i32Or :: "int option \<Rightarrow> int \<Rightarrow> int" where
  "i32Or p d = (case p of Some v \<Rightarrow> v | None \<Rightarrow> d)"

text \<open>\<open>decode\<close>: parse, then validate with the tags \<open>ok\<close> of the input type.\<close>

definition decode :: "('i \<Rightarrow> bool) \<Rightarrow> 'i option \<Rightarrow> answer + 'i" where
  "decode ok body =
     (case body of
        None \<Rightarrow> Inl (fail 400 ''invalid JSON body'')
      | Some i \<Rightarrow> if ok i then Inr i else Inl (fail 400 ''validation failed''))"

definition idParam :: "string \<Rightarrow> string \<Rightarrow> answer + int" where
  "idParam name v = (case parse_int v of None \<Rightarrow> Inl (fail 400 (''invalid '' @ name)) | Some i \<Rightarrow> Inr i)"

definition scopeZone :: "identity \<Rightarrow> int \<Rightarrow> control_db \<Rightarrow> answer + store_zone" where
  "scopeZone c i db =
     (case GetZone i db of
        Inl e \<Rightarrow> Inl (if e = ErrNotFound then fail 404 ''zone not found'' else fail 500 ''error'')
      | Inr z \<Rightarrow> if \<not> Authorize c (sz_account z) then Inl (fail 403 ''forbidden'') else Inr z)"

text \<open>The prologue of the scoped handlers: the id in the path, then the zone it names, then the input.\<close>

definition scoped :: "identity \<Rightarrow> string \<Rightarrow> control_db \<Rightarrow> (int \<Rightarrow> store_zone \<Rightarrow> answer \<times> control_db) \<Rightarrow> answer \<times> control_db" where
  "scoped c path db k =
     (case idParam ''id'' path of
        Inl a \<Rightarrow> (a, db)
      | Inr i \<Rightarrow> (case scopeZone c i db of Inl a \<Rightarrow> (a, db) | Inr z \<Rightarrow> k i z))"

definition with_input :: "control_db \<Rightarrow> answer + 'i \<Rightarrow> ('i \<Rightarrow> answer \<times> control_db) \<Rightarrow> answer \<times> control_db" where
  "with_input db r k = (case r of Inl a \<Rightarrow> (a, db) | Inr i \<Rightarrow> k i)"

text \<open>The three ways a store call ends: its answer, a missing row, another error.\<close>

definition store_answer ::
  "control_db \<Rightarrow> string \<Rightarrow> ('a \<Rightarrow> answer) \<Rightarrow> store_error + 'a \<times> control_db \<Rightarrow> answer \<times> control_db" where
  "store_answer db missing ok r =
     (case r of
        Inl e \<Rightarrow> (if e = ErrNotFound then fail 404 missing else fail 500 ''error'', db)
      | Inr (x, db') \<Rightarrow> (ok x, db'))"

definition store_done ::
  "control_db \<Rightarrow> string \<Rightarrow> store_error + control_db \<Rightarrow> answer \<times> control_db" where
  "store_done db missing r =
     (case r of
        Inl e \<Rightarrow> (if e = ErrNotFound then fail 404 missing else fail 500 ''error'', db)
      | Inr db' \<Rightarrow> ((204, NoBody), db'))"

subsection \<open>Zones\<close>

definition listZones :: "identity \<Rightarrow> control_db \<Rightarrow> answer \<times> control_db" where
  "listZones c db =
     ((200, ZonesBody (if IsAdmin c then ListZones db
                       else filter (\<lambda>z. CanAccessAccount c (sz_account z)) (ListZones db))), db)"

definition serverServing :: "store_server \<Rightarrow> bool" where
  "serverServing s \<longleftrightarrow>
     equal_fold (ss_status s) ''online'' \<and> \<not> ss_drained s \<and> \<not> equal_fold (ss_health s) ''unhealthy''"

definition hostCoveredByManagedCert :: "(string \<Rightarrow> int) \<Rightarrow> string \<Rightarrow> control_db \<Rightarrow> bool" where
  "hostCoveredByManagedCert key host db =
     list_ex (\<lambda>c. certCovers (split_on (CHR '','') (tc_domains c)) host) (ListTLSCerts key db)"

text \<open>The loop of \<open>autoAssignZone\<close> over the servers: how many assignments succeeded, and the database.\<close>

definition assign_serving :: "int \<Rightarrow> store_server list \<Rightarrow> control_db \<Rightarrow> nat \<times> control_db" where
  "assign_serving zone servers db =
     foldl (\<lambda>(n, d) s. if serverServing s
              then (case AssignZone (ss_id s) zone d of Inr d' \<Rightarrow> (n + 1, d') | Inl e \<Rightarrow> (n, d))
              else (n, d)) (0, db) servers"

definition autoAssignZone :: "int \<Rightarrow> control_db \<Rightarrow> store_zone option \<times> control_db" where
  "autoAssignZone zone db =
     (let (n, d) = assign_serving zone (ListServers db) db in
      if n = 0 then (None, d)
      else (let d' = BumpZoneConfigVersion zone d
            in (case GetZone zone d' of Inr z \<Rightarrow> (Some z, d') | Inl e \<Rightarrow> (None, d'))))"

definition autoAssignAllZonesToServer :: "int \<Rightarrow> control_db \<Rightarrow> control_db" where
  "autoAssignAllZonesToServer server db =
     foldl (\<lambda>d z. if list_ex (\<lambda>s. ss_id s = server) (ServersForZone (sz_id z) d) then d
                  else (case AssignZone server (sz_id z) d of
                          Inr d' \<Rightarrow> BumpZoneConfigVersion (sz_id z) d'
                        | Inl e \<Rightarrow> d)) db (ListActiveZones db)"

record create_zone_input =
  iz_name :: string
  iz_hostname :: string
  iz_custom :: "string option"
  iz_origin :: string
  iz_host_header :: "string option"
  iz_tls :: "string option"
  iz_video :: "bool option"
  iz_profile :: "string option"
  iz_playlist_ttl :: "string option"
  iz_segment_ttl :: "string option"
  iz_cors :: "string option"
  iz_brotli :: "int option"
  iz_assign_all :: "bool option"

definition omit_or :: "('a \<Rightarrow> bool) \<Rightarrow> 'a option \<Rightarrow> bool" where
  "omit_or ok v \<longleftrightarrow> (case v of None \<Rightarrow> True | Some x \<Rightarrow> ok x)"

definition tls_tag :: "string \<Rightarrow> bool" where
  "tls_tag m \<longleftrightarrow> m \<in> {''selfsigned'', ''mkcert'', ''letsencrypt'', ''managed''}"

definition profile_tag :: "string \<Rightarrow> bool" where
  "profile_tag p \<longleftrightarrow> p \<in> {''vod'', ''live''}"

definition brotli_tag :: "int \<Rightarrow> bool" where
  "brotli_tag b \<longleftrightarrow> 1 \<le> b \<and> b \<le> 11"

definition create_zone_ok :: "(string \<Rightarrow> bool) \<Rightarrow> (string \<Rightarrow> bool) \<Rightarrow> create_zone_input \<Rightarrow> bool" where
  "create_zone_ok hostname url i \<longleftrightarrow>
     iz_name i \<noteq> '''' \<and> iz_hostname i \<noteq> '''' \<and> hostname (iz_hostname i) \<and> iz_origin i \<noteq> '''' \<and> url (iz_origin i) \<and>
     omit_or hostname (iz_host_header i) \<and> omit_or tls_tag (iz_tls i) \<and> omit_or profile_tag (iz_profile i) \<and>
     omit_or brotli_tag (iz_brotli i)"

definition only_automatic_ssl :: string where
  "only_automatic_ssl = ''Only Automatic SSL is supported (tls_mode=managed).''"

definition zone_params :: "create_zone_input \<Rightarrow> create_zone_params" where
  "zone_params i =
     \<lparr>cz_name = iz_name i, cz_hostname = iz_hostname i, cz_custom = iz_custom i, cz_origin = iz_origin i,
      cz_host_header = strOr (iz_host_header i) '''', cz_tls = ''managed'', cz_video = boolOr (iz_video i) False,
      cz_profile = strOr (iz_profile i) ''vod'', cz_playlist_ttl = strOr (iz_playlist_ttl i) ''2s'',
      cz_segment_ttl = strOr (iz_segment_ttl i) ''12h'', cz_cors = strOr (iz_cors i) ''*'',
      cz_brotli = i32Or (iz_brotli i) 5\<rparr>"

definition createZone ::
  "(string \<Rightarrow> bool) \<Rightarrow> (string \<Rightarrow> bool) \<Rightarrow> (string \<Rightarrow> int) \<Rightarrow> create_zone_input option \<Rightarrow> control_db \<Rightarrow> answer \<times> control_db" where
  "createZone hostname url key inp db =
     with_input db (decode (create_zone_ok hostname url) inp)
       (\<lambda>i. if strOr (iz_tls i) ''managed'' \<noteq> ''managed'' then (fail 422 only_automatic_ssl, db)
            else if \<not> hostCoveredByManagedCert key (iz_hostname i) db
            then (fail 422 ''Custom external domains are not supported yet.'', db)
            else (case CreateZone (zone_params i) db of
                    Inl e \<Rightarrow> (if IsUniqueViolation e then fail 409 ''cdn_hostname already exists'' else fail 500 ''error'', db)
                  | Inr (z, d) \<Rightarrow>
                      if boolOr (iz_assign_all i) True
                      then (let (z2, d2) = autoAssignZone (sz_id z) d
                            in ((201, ZoneBody (case z2 of Some y \<Rightarrow> y | None \<Rightarrow> z) []), d2))
                      else ((201, ZoneBody z []), d)))"

definition getZone :: "identity \<Rightarrow> string \<Rightarrow> control_db \<Rightarrow> answer \<times> control_db" where
  "getZone c path db = scoped c path db (\<lambda>i z. ((200, ZoneBody z (ListRules i db)), db))"

definition update_zone_ok :: "(string \<Rightarrow> bool) \<Rightarrow> (string \<Rightarrow> bool) \<Rightarrow> update_zone_params \<Rightarrow> bool" where
  "update_zone_ok hostname url i \<longleftrightarrow>
     omit_or url (uz_origin i) \<and> omit_or hostname (uz_host_header i) \<and> omit_or tls_tag (uz_tls i) \<and>
     omit_or profile_tag (uz_profile i) \<and> omit_or brotli_tag (uz_brotli i)"

definition updateZone ::
  "(string \<Rightarrow> bool) \<Rightarrow> (string \<Rightarrow> bool) \<Rightarrow> identity \<Rightarrow> string \<Rightarrow> update_zone_params option \<Rightarrow> control_db \<Rightarrow> answer \<times> control_db" where
  "updateZone hostname url c path inp db =
     scoped c path db (\<lambda>i z.
       with_input db (decode (update_zone_ok hostname url) inp)
         (\<lambda>p. if (case uz_tls p of Some m \<Rightarrow> m \<noteq> ''managed'' | None \<Rightarrow> False) then (fail 422 only_automatic_ssl, db)
              else store_answer db ''zone not found'' (\<lambda>z. (200, ZoneBody z [])) (UpdateZone i p db)))"

subsection \<open>Purges and zone deletion\<close>

record purge_message =
  pm_type :: string
  pm_hosts :: "string list"
  pm_target :: string
  pm_job :: int
  pm_zone :: int

definition SanitizeToken :: "string \<Rightarrow> string" where
  "SanitizeToken = map (\<lambda>c. if is_lower c \<or> is_upper c \<or> is_digit c \<or> c = CHR ''-'' \<or> c = CHR ''_'' then c else CHR ''_'')"

definition EdgeSubject :: "string \<Rightarrow> string" where
  "EdgeSubject edge = ''brisk.purge.edge.'' @ SanitizeToken edge"

text \<open>
  \<open>pub\<close> is the publisher, \<open>None\<close> when NATS is not configured; it tells which subjects it accepts a
  message for. The third component of an answer is what was published, in order.
\<close>

type_synonym publisher = "(string \<Rightarrow> bool) option"
type_synonym outbox = "(string \<times> purge_message) list"

definition publish_one :: "(string \<Rightarrow> bool) \<Rightarrow> purge_message \<Rightarrow> outbox \<times> control_db \<Rightarrow> store_server \<Rightarrow> outbox \<times> control_db" where
  "publish_one pub m od s =
     (let subject = EdgeSubject (ss_edge s) in
      if pub subject then (fst od @ [(subject, m)], snd od)
      else (fst od, AddProvisionLog (ss_id s) ''warn'' ''purge publish failed'' (snd od)))"

definition publishToServers ::
  "(string \<Rightarrow> bool) \<Rightarrow> store_server list \<Rightarrow> purge_message \<Rightarrow> control_db \<Rightarrow> outbox \<times> control_db" where
  "publishToServers pub servers m db = foldl (publish_one pub m) ([], db) servers"

definition zoneHosts :: "store_zone \<Rightarrow> string list" where
  "zoneHosts z =
     sz_hostname z #
     (case sz_custom z of Some d \<Rightarrow> if d \<noteq> '''' \<and> d \<noteq> sz_hostname z then [d] else [] | None \<Rightarrow> [])"

definition purge_types :: "string list" where
  "purge_types = [''url'', ''prefix'', ''zone'']"

text \<open>\<open>inp\<close> is the type and the target of the request.\<close>

definition purgeZone ::
  "publisher \<Rightarrow> (string \<Rightarrow> purge_url option) \<Rightarrow> instant \<Rightarrow> identity \<Rightarrow> string \<Rightarrow> (string \<times> string) option \<Rightarrow> control_db \<Rightarrow>
   answer \<times> outbox \<times> control_db" where
  "purgeZone pub parse now c path inp db =
     (case idParam ''id'' path of
        Inl a \<Rightarrow> (a, [], db)
      | Inr i \<Rightarrow>
          (case decode (\<lambda>(typ, target). typ \<in> set purge_types) inp of
             Inl a \<Rightarrow> (a, [], db)
           | Inr (typ, raw) \<Rightarrow>
               (case pub of
                  None \<Rightarrow> (fail 503 ''purge channel unavailable (NATS not configured)'', [], db)
                | Some p \<Rightarrow>
                    (case scopeZone c i db of
                       Inl a \<Rightarrow> (a, [], db)
                     | Inr z \<Rightarrow>
                         (case normalizePurgeTarget parse raw typ of
                            None \<Rightarrow> (fail 400 ''target must be a path'', [], db)
                          | Some target \<Rightarrow>
                              (let servers = ServersForZone i db in
                               case CreatePurgeJob now (Some i) typ target (int (length servers)) db of
                                 Inl e \<Rightarrow> (fail 500 ''error'', [], db)
                               | Inr (job, d) \<Rightarrow>
                                   (let (sent, d') = publishToServers p servers
                                          \<lparr>pm_type = typ, pm_hosts = zoneHosts z, pm_target = target, pm_job = pj_id job,
                                           pm_zone = i\<rparr> d
                                    in ((202, JobBody job), sent, d'))))))))"

definition purgeAll ::
  "publisher \<Rightarrow> instant \<Rightarrow> int list \<Rightarrow> control_db \<Rightarrow> answer \<times> outbox \<times> control_db" where
  "purgeAll pub now server_ids db =
     (case pub of
        None \<Rightarrow> (fail 503 ''purge channel unavailable (NATS not configured)'', [], db)
      | Some p \<Rightarrow>
          (let servers = (if server_ids = [] then ListServers db
                          else filter (\<lambda>s. ss_id s \<in> set server_ids) (ListServers db))
           in case CreatePurgeJob now None ''all'' ''*'' (int (length servers)) db of
                Inl e \<Rightarrow> (fail 500 ''error'', [], db)
              | Inr (job, d) \<Rightarrow>
                  (let (sent, d') = publishToServers p servers
                         \<lparr>pm_type = ''all'', pm_hosts = [], pm_target = '''', pm_job = pj_id job, pm_zone = 0\<rparr> d
                   in ((202, JobBody job), sent, d'))))"

definition purgeAck :: "instant \<Rightarrow> int option \<Rightarrow> int option \<Rightarrow> control_db \<Rightarrow> answer \<times> control_db" where
  "purgeAck now caller inp db =
     (case caller of
        None \<Rightarrow> (fail 401 ''unauthorized'', db)
      | Some server \<Rightarrow>
          with_input db (decode (\<lambda>j. j \<noteq> 0) inp)
            (\<lambda>j. store_answer db ''purge job not found'' (\<lambda>job. (200, JobBody job)) (MarkPurgeJobEdgeDone now j db)))"

text \<open>\<open>confirm\<close>: the query parameter, and the value in the JSON body.\<close>

definition deleteConfirmValue :: "string \<times> string \<Rightarrow> string" where
  "deleteConfirmValue r = (if trim_space (fst r) \<noteq> '''' then trim_space (fst r) else trim_space (snd r))"

definition delete_notice :: "identity \<Rightarrow> store_zone \<Rightarrow> string" where
  "delete_notice c z =
     ''zone '' @ sz_hostname z @ '' (id '' @ show_int (sz_id z) @ '') deleted by account '' @ show_int (id_account c) @
     '' ('' @ id_role c @ '')''"

text \<open>The purge and the audit lines before the row goes away: only with a publisher and serving edges.\<close>

definition purge_deleted ::
  "publisher \<Rightarrow> instant \<Rightarrow> identity \<Rightarrow> store_zone \<Rightarrow> store_server list \<Rightarrow> control_db \<Rightarrow> outbox \<times> control_db" where
  "purge_deleted pub now c z servers db =
     (case pub of
        None \<Rightarrow> ([], db)
      | Some p \<Rightarrow>
          if servers = [] then ([], db)
          else (let (sent, d) =
                      (case CreatePurgeJob now (Some (sz_id z)) ''zone'' ''/'' (int (length servers)) db of
                         Inl e \<Rightarrow> ([], db)
                       | Inr (job, d) \<Rightarrow> publishToServers p servers
                           \<lparr>pm_type = ''zone'', pm_hosts = zoneHosts z, pm_target = ''/'', pm_job = pj_id job,
                            pm_zone = sz_id z\<rparr> d)
                in (sent, foldl (\<lambda>d s. AddProvisionLog (ss_id s) ''info'' (delete_notice c z) d) d servers)))"

definition deleteZone ::
  "publisher \<Rightarrow> instant \<Rightarrow> identity \<Rightarrow> string \<Rightarrow> string \<times> string \<Rightarrow> control_db \<Rightarrow> answer \<times> outbox \<times> control_db" where
  "deleteZone pub now c path confirm db =
     (case idParam ''id'' path of
        Inl a \<Rightarrow> (a, [], db)
      | Inr i \<Rightarrow>
          (case scopeZone c i db of
             Inl a \<Rightarrow> (a, [], db)
           | Inr z \<Rightarrow>
               (let servers = ServersForZone i db; live = length (filter serverServing servers) in
                if live > 0 \<and> deleteConfirmValue confirm \<noteq> sz_hostname z
                then ((412, ConfirmBody (sz_id z) (sz_hostname z) live), [], db)
                else (let (sent, d) = purge_deleted pub now c z servers db
                      in case DeleteZone i d of
                           Inl e \<Rightarrow> (if e = ErrNotFound then fail 404 ''zone not found'' else fail 500 ''error'', sent, d)
                         | Inr d' \<Rightarrow> ((204, NoBody), sent, d')))))"

subsection \<open>Cache rules\<close>

definition create_rule_ok :: "rule_params \<Rightarrow> bool" where
  "create_rule_ok i \<longleftrightarrow>
     rp_match_type i \<in> {''path_prefix'', ''extension'', ''regex''} \<and> rp_match_value i \<noteq> '''' \<and>
     rp_action i \<in> {''override_cache_ttl'', ''bypass_cache'', ''force_download'', ''redirect''}"

definition listRules :: "string \<Rightarrow> control_db \<Rightarrow> answer \<times> control_db" where
  "listRules path db =
     (case idParam ''id'' path of
        Inl a \<Rightarrow> (a, db)
      | Inr i \<Rightarrow> if GetZone i db = Inl ErrNotFound then (fail 404 ''zone not found'', db)
               else ((200, RulesBody i (ListRules i db)), db))"

definition createRule :: "string \<Rightarrow> rule_params option \<Rightarrow> control_db \<Rightarrow> answer \<times> control_db" where
  "createRule path inp db =
     (case idParam ''id'' path of
        Inl a \<Rightarrow> (a, db)
      | Inr i \<Rightarrow>
          with_input db (decode create_rule_ok inp)
            (\<lambda>p. store_answer db ''zone not found'' (\<lambda>r. (201, RuleBody r)) (CreateRule i p db)))"

definition updateRule :: "identity \<Rightarrow> string \<Rightarrow> string \<Rightarrow> rule_params option \<Rightarrow> control_db \<Rightarrow> answer \<times> control_db" where
  "updateRule c path rid inp db =
     scoped c path db (\<lambda>i z.
       with_input db (idParam ''rid'' rid) (\<lambda>r.
         with_input db (decode create_rule_ok inp)
           (\<lambda>p. store_answer db ''rule not found'' (\<lambda>r. (200, RuleBody r)) (UpdateRule i r p db))))"

definition reorderRules :: "identity \<Rightarrow> string \<Rightarrow> int list option \<Rightarrow> control_db \<Rightarrow> answer \<times> control_db" where
  "reorderRules c path inp db =
     scoped c path db (\<lambda>i z.
       with_input db (decode (\<lambda>ids. ids \<noteq> [] \<and> list_all (\<lambda>r. r > 0) ids) inp)
         (\<lambda>ids. case ReorderRules i ids db of
                  Inl e \<Rightarrow> (if e = ErrNotFound then fail 400 ''a rule_id does not belong to this zone'' else fail 500 ''error'', db)
                | Inr d \<Rightarrow> ((200, RulesBody i (ListRules i d)), d)))"

definition listZoneServers :: "identity \<Rightarrow> string \<Rightarrow> control_db \<Rightarrow> answer \<times> control_db" where
  "listZoneServers c path db = scoped c path db (\<lambda>i z. ((200, ServersBody (ListZoneServers i db)), db))"

definition deleteRule :: "string \<Rightarrow> string \<Rightarrow> control_db \<Rightarrow> answer \<times> control_db" where
  "deleteRule path rid db =
     (case idParam ''id'' path of
        Inl a \<Rightarrow> (a, db)
      | Inr i \<Rightarrow> with_input db (idParam ''rid'' rid) (\<lambda>r. store_done db ''rule not found'' (DeleteRule i r db)))"

subsection \<open>WAF and rate limits\<close>

definition getZoneWAF :: "identity \<Rightarrow> string \<Rightarrow> control_db \<Rightarrow> answer \<times> control_db" where
  "getZoneWAF c path db =
     scoped c path db (\<lambda>i z.
       ((200, WafBody (sz_id z) (sz_waf z) (ListWAFRules (sz_id z) db) (ListWAFRateLimits (sz_id z) db)), db))"

definition set_waf_ok :: "waf_settings \<Rightarrow> bool" where
  "set_waf_ok w \<longleftrightarrow> ws_mode w \<in> {''detect'', ''block''} \<and> ws_ruleset w \<in> {''off'', ''owasp_crs''} \<and>
     1 \<le> ws_paranoia w \<and> ws_paranoia w \<le> 4"

definition setZoneWAF :: "identity \<Rightarrow> string \<Rightarrow> waf_settings option \<Rightarrow> control_db \<Rightarrow> answer \<times> control_db" where
  "setZoneWAF c path inp db =
     scoped c path db (\<lambda>i z.
       with_input db (decode set_waf_ok inp)
         (\<lambda>w. store_answer db ''zone not found'' (\<lambda>u. (200, WafBody (sz_id u) (sz_waf u) [] [])) (SetZoneWAF (sz_id z) w db)))"

definition listWAFRules :: "identity \<Rightarrow> string \<Rightarrow> control_db \<Rightarrow> answer \<times> control_db" where
  "listWAFRules c path db =
     scoped c path db (\<lambda>i z. ((200, WafRulesBody (sz_id z) (ListWAFRules (sz_id z) db)), db))"

text \<open>\<open>enabled\<close> is optional in the input and true by default.\<close>

definition waf_rule_ok :: "waf_rule_params \<Rightarrow> bool" where
  "waf_rule_ok p \<longleftrightarrow>
     wp_field p \<in> {''ip'', ''country'', ''path'', ''method'', ''header'', ''user_agent''} \<and>
     wp_op p \<in> {''eq'', ''prefix'', ''regex'', ''cidr''} \<and> wp_value p \<noteq> '''' \<and>
     wp_action p \<in> {''block'', ''challenge'', ''log'', ''allow''}"

definition createWAFRule ::
  "identity \<Rightarrow> string \<Rightarrow> (waf_rule_params \<times> bool option) option \<Rightarrow> control_db \<Rightarrow> answer \<times> control_db" where
  "createWAFRule c path inp db =
     scoped c path db (\<lambda>i z.
       with_input db (decode (waf_rule_ok \<circ> fst) inp)
         (\<lambda>(p, enabled).
            if wp_field p = ''header'' \<and> (case wp_header p of None \<Rightarrow> True | Some h \<Rightarrow> trim_space h = '''')
            then (fail 400 ''header_name is required when field=header'', db)
            else store_answer db ''zone not found'' (\<lambda>r. (201, WafRulesBody (sz_id z) [r]))
                   (CreateWAFRule (sz_id z) (p\<lparr>wp_enabled := boolOr enabled True\<rparr>) db)))"

definition deleteWAFRule :: "identity \<Rightarrow> string \<Rightarrow> string \<Rightarrow> control_db \<Rightarrow> answer \<times> control_db" where
  "deleteWAFRule c path rid db =
     scoped c path db (\<lambda>i z. with_input db (idParam ''rid'' rid) (\<lambda>r. store_done db ''rule not found'' (DeleteWAFRule i r db)))"

definition listWAFRateLimits :: "identity \<Rightarrow> string \<Rightarrow> control_db \<Rightarrow> answer \<times> control_db" where
  "listWAFRateLimits c path db =
     scoped c path db (\<lambda>i z. ((200, LimitsBody (sz_id z) (ListWAFRateLimits (sz_id z) db)), db))"

definition rate_limit_ok :: "limit_params \<Rightarrow> bool" where
  "rate_limit_ok p \<longleftrightarrow>
     lp_path p \<noteq> '''' \<and> lp_match p \<in> {'''', ''exact'', ''prefix''} \<and> lp_requests p \<ge> 1 \<and> lp_period p \<ge> 1 \<and>
     lp_burst p \<ge> 0 \<and> lp_key p \<in> {'''', ''ip'', ''ip_path''} \<and> lp_action p \<in> {'''', ''block'', ''challenge''} \<and>
     lp_count_mode p \<in> {'''', ''all'', ''errors_only''}"

text \<open>
  \<open>strOr(&in.MatchType, "exact")\<close>: the pointer is never \<open>nil\<close>, so the default is never taken and an
  omitted field is stored as the empty string.
\<close>

definition limit_row :: "limit_params \<Rightarrow> bool option \<Rightarrow> limit_params" where
  "limit_row p enabled =
     p\<lparr>lp_match := strOr (Some (lp_match p)) ''exact'', lp_key := strOr (Some (lp_key p)) ''ip'',
       lp_action := strOr (Some (lp_action p)) ''block'', lp_count_mode := strOr (Some (lp_count_mode p)) ''all'',
       lp_enabled := boolOr enabled True\<rparr>"

definition createWAFRateLimit ::
  "identity \<Rightarrow> string \<Rightarrow> (limit_params \<times> bool option) option \<Rightarrow> control_db \<Rightarrow> answer \<times> control_db" where
  "createWAFRateLimit c path inp db =
     scoped c path db (\<lambda>i z.
       with_input db (decode (rate_limit_ok \<circ> fst) inp)
         (\<lambda>(p, enabled).
            if \<not> has_prefix (lp_path p) ''/'' then (fail 400 ''path_match must start with /'', db)
            else store_answer db ''zone not found'' (\<lambda>r. (201, LimitsBody (sz_id z) [r]))
                   (CreateWAFRateLimit (sz_id z) (limit_row p enabled) db)))"

definition deleteWAFRateLimit :: "identity \<Rightarrow> string \<Rightarrow> string \<Rightarrow> control_db \<Rightarrow> answer \<times> control_db" where
  "deleteWAFRateLimit c path rid db =
     scoped c path db (\<lambda>i z.
       with_input db (idParam ''rid'' rid) (\<lambda>r. store_done db ''rate limit not found'' (DeleteWAFRateLimit i r db)))"

end
