(* ===== verification/DeliveryApi.thy ===== *)
theory DeliveryApi
  imports ZonesApi
begin

section \<open>Delivery settings and custom domains\<close>

text \<open>
  The rest of the tenant endpoints (\<open>brisk-control/internal/api\<close>): header transforms
  (\<open>transforms.go\<close>), cache settings (\<open>cache_settings.go\<close>), hotlink protection (\<open>hotlink.go\<close>), error
  pages (\<open>errorpages.go\<close>), blocked addresses (\<open>blockedips.go\<close>), access toggles (\<open>accessflags.go\<close>),
  the origin shield and server roles (\<open>shield.go\<close>) and custom domains (\<open>domains.go\<close>), in the form
  of theory \<open>ZonesApi\<close>. \<open>ip\<close> and \<open>cidr\<close> are the parsers of the network library, \<open>utf8\<close> its check
  of an encoding. A domain's answer shows its row; the DNS guidance text and the certificate dates
  that the dashboard adds are left out, and so is the background check that an added domain starts.
\<close>

subsection \<open>Header transforms\<close>

definition listHeaderTransforms :: "identity \<Rightarrow> string \<Rightarrow> control_db \<Rightarrow> answer \<times> control_db" where
  "listHeaderTransforms c path db =
     scoped c path db (\<lambda>i z. ((200, TransformsBody (sz_id z) (ListHeaderTransforms (sz_id z) db)), db))"

definition transform_ok :: "transform_params \<Rightarrow> bool" where
  "transform_ok p \<longleftrightarrow>
     tp_phase p \<in> {''request'', ''response''} \<and> tp_op p \<in> {''set'', ''remove''} \<and> tp_header p \<noteq> '''' \<and>
     tp_match_type p \<in> {'''', ''all'', ''path_prefix'', ''path_regex'', ''method''}"

definition blank :: "string option \<Rightarrow> bool" where
  "blank v \<longleftrightarrow> (case v of None \<Rightarrow> True | Some s \<Rightarrow> trim_space s = '''')"

definition matched_types :: "string list" where
  "matched_types = [''path_prefix'', ''path_regex'', ''method'']"

definition transform_row :: "transform_params \<Rightarrow> bool option \<Rightarrow> transform_params" where
  "transform_row p enabled =
     p\<lparr>tp_header := trim_space (tp_header p), tp_match_type := strOr (Some (tp_match_type p)) ''all'',
       tp_enabled := boolOr enabled True\<rparr>"

definition createHeaderTransform ::
  "identity \<Rightarrow> string \<Rightarrow> (transform_params \<times> bool option) option \<Rightarrow> control_db \<Rightarrow> answer \<times> control_db" where
  "createHeaderTransform c path inp db =
     scoped c path db (\<lambda>i z.
       with_input db (decode (transform_ok \<circ> fst) inp)
         (\<lambda>(p, enabled).
            if managedHeaderDenied (tp_phase p) (tp_header p) then (fail 400 ''header is managed by Brisk'', db)
            else if tp_op p = ''set'' \<and> blank (tp_value p) then (fail 400 ''value is required when op=set'', db)
            else if tp_match_type p \<in> set matched_types \<and> blank (tp_match_value p)
            then (fail 400 ''match_value is required for this match_type'', db)
            else store_answer db ''zone not found'' (\<lambda>r. (201, TransformsBody (sz_id z) [r]))
                   (CreateHeaderTransform (sz_id z) (transform_row p enabled) db)))"

definition deleteHeaderTransform :: "identity \<Rightarrow> string \<Rightarrow> string \<Rightarrow> control_db \<Rightarrow> answer \<times> control_db" where
  "deleteHeaderTransform c path tid db =
     scoped c path db (\<lambda>i z.
       with_input db (idParam ''tid'' tid) (\<lambda>t. store_done db ''transform not found'' (DeleteHeaderTransform i t db)))"

subsection \<open>Zone settings\<close>

definition zone_answer :: "control_db \<Rightarrow> store_error + store_zone \<times> control_db \<Rightarrow> answer \<times> control_db" where
  "zone_answer db r = store_answer db ''zone not found'' (\<lambda>z. (200, ZoneBody z [])) r"

definition cache_settings_ok :: "cache_settings \<Rightarrow> bool" where
  "cache_settings_ok s \<longleftrightarrow> cs_edge_mode s \<in> set edge_modes \<and> cs_browser_mode s \<in> set browser_modes"

text \<open>The checks in the code's order, then the row that is stored; \<open>Inl\<close> is the message of the 400.\<close>

definition clean_cache_settings :: "cache_settings \<Rightarrow> string + cache_settings" where
  "clean_cache_settings s =
     (if cs_edge_mode s = ''override'' \<and> \<not> nginxTime (trim_space (cs_edge_ttl s)) then Inl ''edge_ttl''
      else if cs_browser_mode s = ''override'' \<and> \<not> nginxTime (trim_space (cs_browser_ttl s)) then Inl ''browser_ttl''
      else if trim_space (cs_vary_cookie s) \<noteq> '''' \<and> \<not> tokenName (trim_space (cs_vary_cookie s)) then Inl ''vary_cookie''
      else (case cleanTokenList (cs_vary_headers s) of
              Inl p \<Rightarrow> Inl (''vary_headers: invalid name '' @ p)
            | Inr headers \<Rightarrow>
                (case cleanTokenList (cs_query_whitelist s) of
                   Inl p \<Rightarrow> Inl (''query_whitelist: invalid name '' @ p)
                 | Inr whitelist \<Rightarrow>
                     Inr (s\<lparr>cs_edge_ttl := trim_space (cs_edge_ttl s), cs_browser_ttl := trim_space (cs_browser_ttl s),
                            cs_vary_cookie := trim_space (cs_vary_cookie s), cs_vary_headers := headers,
                            cs_query_whitelist := whitelist\<rparr>))))"

text \<open>Here a missing row is answered like any other error.\<close>

definition setZoneCacheSettings :: "identity \<Rightarrow> string \<Rightarrow> cache_settings option \<Rightarrow> control_db \<Rightarrow> answer \<times> control_db" where
  "setZoneCacheSettings c path inp db =
     scoped c path db (\<lambda>i z.
       with_input db (decode cache_settings_ok inp)
         (\<lambda>s. case clean_cache_settings s of
                Inl msg \<Rightarrow> (fail 400 msg, db)
              | Inr cs \<Rightarrow> (case SetZoneCacheSettings i cs db of
                            Inl e \<Rightarrow> (fail 500 ''error'', db)
                          | Inr (u, d) \<Rightarrow> ((200, ZoneBody u []), d))))"

text \<open>\<open>inp\<close>: enabled, the allowed referrers, and whether an empty referrer passes.\<close>

definition setZoneHotlink :: "identity \<Rightarrow> string \<Rightarrow> (bool \<times> string \<times> bool) option \<Rightarrow> control_db \<Rightarrow> answer \<times> control_db" where
  "setZoneHotlink c path inp db =
     scoped c path db (\<lambda>i z.
       with_input db (decode (\<lambda>_. True) inp)
         (\<lambda>(on, refs, nore).
            case cleanRefererList refs of
              Inl p \<Rightarrow> (fail 400 (''allowed_referrers: invalid referrer '' @ p), db)
            | Inr clean \<Rightarrow>
                if on \<and> clean = '''' \<and> \<not> nore then (fail 400 ''add at least one allowed referrer'', db)
                else zone_answer db (SetZoneHotlink i on clean nore db)))"

definition maxErrorPageBytes :: nat where
  "maxErrorPageBytes = 64 * 1024"

definition setZoneErrorPage ::
  "(string \<Rightarrow> bool) \<Rightarrow> identity \<Rightarrow> string \<Rightarrow> string option \<Rightarrow> control_db \<Rightarrow> answer \<times> control_db" where
  "setZoneErrorPage utf8 c path inp db =
     scoped c path db (\<lambda>i z.
       with_input db (decode (\<lambda>_. True) inp)
         (\<lambda>html. if length html > maxErrorPageBytes then (fail 400 ''error page HTML too large (max 64 KB)'', db)
                 else if \<not> utf8 html then (fail 400 ''error page HTML must be valid UTF-8'', db)
                 else zone_answer db (SetZoneErrorPage i html db)))"

definition blocked_message :: "blocked_error \<Rightarrow> string" where
  "blocked_message e = (case e of BadAddress p \<Rightarrow> ''invalid IP or CIDR '' @ p | TooManyAddresses \<Rightarrow> ''too many entries (max 1000)'')"

definition setZoneBlockedIPs ::
  "(string \<Rightarrow> string option) \<Rightarrow> (string \<Rightarrow> string option) \<Rightarrow> identity \<Rightarrow> string \<Rightarrow> string option \<Rightarrow> control_db \<Rightarrow>
   answer \<times> control_db" where
  "setZoneBlockedIPs ip cidr c path inp db =
     scoped c path db (\<lambda>i z.
       with_input db (decode (\<lambda>_. True) inp)
         (\<lambda>raw. case cleanBlockedIPs ip cidr raw of
                  Inl e \<Rightarrow> (fail 400 (''blocked_ips: '' @ blocked_message e), db)
                | Inr clean \<Rightarrow> zone_answer db (SetZoneBlockedIPs i clean db)))"

definition setZoneAccessFlags :: "identity \<Rightarrow> string \<Rightarrow> (bool \<times> bool) option \<Rightarrow> control_db \<Rightarrow> answer \<times> control_db" where
  "setZoneAccessFlags c path inp db =
     scoped c path db (\<lambda>i z.
       with_input db (decode (\<lambda>_. True) inp)
         (\<lambda>(rootp, post). zone_answer db (SetZoneAccessFlags i rootp post db)))"

definition setZoneShield :: "identity \<Rightarrow> string \<Rightarrow> (bool \<times> int option) option \<Rightarrow> control_db \<Rightarrow> answer \<times> control_db" where
  "setZoneShield c path inp db =
     scoped c path db (\<lambda>i z.
       with_input db (decode (\<lambda>_. True) inp)
         (\<lambda>(on, shield).
            let wrong = (case shield of
                           Some s \<Rightarrow> if on then (case GetServer s db of
                                                   Inl e \<Rightarrow> Some ''shield_server_id: server not found''
                                                 | Inr v \<Rightarrow> if \<not> equal_fold (ss_role v) ''shield''
                                                           then Some ''shield_server_id must reference a role=shield server''
                                                           else None)
                                     else None
                         | None \<Rightarrow> None)
            in case wrong of
                 Some msg \<Rightarrow> (fail 400 msg, db)
               | None \<Rightarrow> zone_answer db (SetZoneShield (sz_id z) on shield db)))"

text \<open>Admin only; the DNS reconciler it triggers is theory \<open>Syncer\<close>'s.\<close>

definition setServerRole :: "string \<Rightarrow> (string \<times> bool option) option \<Rightarrow> control_db \<Rightarrow> answer \<times> control_db" where
  "setServerRole path inp db =
     (case idParam ''id'' path of
        Inl a \<Rightarrow> (a, db)
      | Inr i \<Rightarrow>
          with_input db (decode (\<lambda>(role, p). role \<in> {''edge'', ''shield''}) inp)
            (\<lambda>(role, p). store_answer db ''server not found'' (\<lambda>s. (200, ServersBody [s]))
                            (SetServerRole i (to_lower (trim_space role)) p db)))"

subsection \<open>Custom domains\<close>

definition addCustomDomain ::
  "(string \<Rightarrow> bool) \<Rightarrow> identity \<Rightarrow> string \<Rightarrow> string option \<Rightarrow> control_db \<Rightarrow> answer \<times> control_db" where
  "addCustomDomain hostname c path inp db =
     scoped c path db (\<lambda>i z.
       with_input db (decode (\<lambda>d. d \<noteq> '''' \<and> hostname d) inp)
         (\<lambda>raw. let domain = to_lower (trim_space raw) in
            if domain = to_lower (sz_hostname z)
            then (fail 400 ''that is the zone's Brisk CDN hostname, not a custom domain'', db)
            else (case CreateCustomDomain (sz_id z) (sz_account z) domain db of
                    Inl e \<Rightarrow> (if IsUniqueViolation e then fail 409 ''domain already attached to a zone''
                             else fail 500 ''error'', db)
                  | Inr (d, db') \<Rightarrow> ((201, DomainsBody (sz_id z) [d]), db'))))"

definition listZoneDomains :: "identity \<Rightarrow> string \<Rightarrow> control_db \<Rightarrow> answer \<times> control_db" where
  "listZoneDomains c path db =
     scoped c path db (\<lambda>i z. ((200, DomainsBody (sz_id z) (ListCustomDomainsByZone (sz_id z) db)), db))"

definition scopeDomain :: "identity \<Rightarrow> string \<Rightarrow> control_db \<Rightarrow> answer + custom_domain \<times> store_zone" where
  "scopeDomain c path db =
     (case idParam ''id'' path of
        Inl a \<Rightarrow> Inl a
      | Inr i \<Rightarrow>
          (case GetCustomDomain i db of
             Inl e \<Rightarrow> Inl (if e = ErrNotFound then fail 404 ''domain not found'' else fail 500 ''error'')
           | Inr d \<Rightarrow>
               (case GetZone (cd_zone d) db of
                  Inl e \<Rightarrow> Inl (fail 500 ''error'')
                | Inr z \<Rightarrow> if \<not> Authorize c (sz_account z) then Inl (fail 403 ''forbidden'') else Inr (d, z))))"

definition deleteCustomDomain :: "identity \<Rightarrow> string \<Rightarrow> control_db \<Rightarrow> answer \<times> control_db" where
  "deleteCustomDomain c path db =
     (case scopeDomain c path db of
        Inl a \<Rightarrow> (a, db)
      | Inr (d, z) \<Rightarrow>
          (let name = trim_space (cd_cert d);
               db = (if name \<noteq> '''' then DeleteTLSCert name db else db)
           in case DeleteCustomDomain (cd_id d) db of
                Inl e \<Rightarrow> (if e = ErrNotFound then fail 404 ''domain not found'' else fail 500 ''error'', db)
              | Inr db' \<Rightarrow> ((204, NoBody), BumpZoneConfigVersion (sz_id z) db')))"

definition adminListCustomDomains :: "control_db \<Rightarrow> answer \<times> control_db" where
  "adminListCustomDomains db = ((200, DomainsBody 0 (ListAllCustomDomains db)), db)"

text \<open>\<open>tokens\<close>: the live HTTP-01 challenges, \<open>None\<close> when custom-domain certificates are not configured.\<close>

definition acmeChallenge :: "(string \<rightharpoonup> string) option \<Rightarrow> string \<Rightarrow> int \<times> string" where
  "acmeChallenge tokens token =
     (case tokens of
        None \<Rightarrow> (404, '''')
      | Some live \<Rightarrow> if token = '''' then (404, '''')
                     else (case live token of None \<Rightarrow> (404, '''') | Some k \<Rightarrow> (200, k)))"

end
