(* ===== verification/Tenancy.thy ===== *)
theory Tenancy
  imports DeliveryApi
begin

section \<open>Tenants do not reach each other's zones\<close>

text \<open>
  The dispatch of the account-scoped routes (\<open>brisk-control/internal/api/router.go\<close>, the group under
  \<open>requireAuth\<close>) and what scoping gives a tenant. Every request is a series of the transactions of
  theory \<open>Transactions\<close> that act only on zones the caller may access (\<open>steps\<close>), so the \<open>holding\<close> of
  any other account -- a zone's row with everything nested under it -- comes out of any series of
  requests as it went in. The argument is the usual one of noninterference proofs: a locale states
  what one request respects, and its conclusion is about runs.
\<close>

subsection \<open>Requests\<close>

record api_env =
  en_hostname :: "string \<Rightarrow> bool"
  en_url :: "string \<Rightarrow> bool"
  en_utf8 :: "string \<Rightarrow> bool"
  en_ip :: "string \<Rightarrow> string option"
  en_cidr :: "string \<Rightarrow> string option"
  en_parse :: "string \<Rightarrow> purge_url option"
  en_key :: "string \<Rightarrow> int"
  en_pub :: publisher
  en_now :: instant

text \<open>The routes under \<open>/zones/{id}\<close>: the zone itself, then the tables nested under it.\<close>

datatype zone_call =
    CGetZone
  | CUpdateZone "update_zone_params option"
  | CDeleteZone "string \<times> string"
  | CPurgeZone "(string \<times> string) option"
  | CListZoneServers
  | CSetShield "(bool \<times> int option) option"
  | CSetWAF "waf_settings option"
  | CSetCache "cache_settings option"
  | CSetHotlink "(bool \<times> string \<times> bool) option"
  | CSetErrorPage "string option"
  | CSetBlockedIPs "string option"
  | CSetAccessFlags "(bool \<times> bool) option"

datatype row_call =
    CUpdateRule string "rule_params option"
  | CReorderRules "int list option"
  | CGetWAF
  | CListWAFRules
  | CCreateWAFRule "(waf_rule_params \<times> bool option) option"
  | CDeleteWAFRule string
  | CListLimits
  | CCreateLimit "(limit_params \<times> bool option) option"
  | CDeleteLimit string
  | CListTransforms
  | CCreateTransform "(transform_params \<times> bool option) option"
  | CDeleteTransform string
  | CListDomains
  | CAddDomain "string option"

text \<open>The three rule routes whose handlers never look at the caller.\<close>

datatype open_call = CListRules | CCreateRule "rule_params option" | CDeleteRule string

datatype api_request =
    RListZones
  | RCreateZone "create_zone_input option"
  | RZone string zone_call
  | RRow string row_call
  | RDeleteDomain string
  | ROpen string open_call

type_synonym served = "answer \<times> outbox \<times> control_db"

definition silent :: "answer \<times> control_db \<Rightarrow> served" where
  "silent r = (fst r, [], snd r)"

primrec serve_zone :: "api_env \<Rightarrow> identity \<Rightarrow> string \<Rightarrow> zone_call \<Rightarrow> control_db \<Rightarrow> served" where
  "serve_zone en c p CGetZone db = silent (getZone c p db)"
| "serve_zone en c p (CUpdateZone i) db = silent (updateZone (en_hostname en) (en_url en) c p i db)"
| "serve_zone en c p (CDeleteZone i) db = deleteZone (en_pub en) (en_now en) c p i db"
| "serve_zone en c p (CPurgeZone i) db = purgeZone (en_pub en) (en_parse en) (en_now en) c p i db"
| "serve_zone en c p CListZoneServers db = silent (listZoneServers c p db)"
| "serve_zone en c p (CSetShield i) db = silent (setZoneShield c p i db)"
| "serve_zone en c p (CSetWAF i) db = silent (setZoneWAF c p i db)"
| "serve_zone en c p (CSetCache i) db = silent (setZoneCacheSettings c p i db)"
| "serve_zone en c p (CSetHotlink i) db = silent (setZoneHotlink c p i db)"
| "serve_zone en c p (CSetErrorPage i) db = silent (setZoneErrorPage (en_utf8 en) c p i db)"
| "serve_zone en c p (CSetBlockedIPs i) db = silent (setZoneBlockedIPs (en_ip en) (en_cidr en) c p i db)"
| "serve_zone en c p (CSetAccessFlags i) db = silent (setZoneAccessFlags c p i db)"

primrec serve_row :: "api_env \<Rightarrow> identity \<Rightarrow> string \<Rightarrow> row_call \<Rightarrow> control_db \<Rightarrow> answer \<times> control_db" where
  "serve_row en c p (CUpdateRule r i) db = updateRule c p r i db"
| "serve_row en c p (CReorderRules i) db = reorderRules c p i db"
| "serve_row en c p CGetWAF db = getZoneWAF c p db"
| "serve_row en c p CListWAFRules db = listWAFRules c p db"
| "serve_row en c p (CCreateWAFRule i) db = createWAFRule c p i db"
| "serve_row en c p (CDeleteWAFRule r) db = deleteWAFRule c p r db"
| "serve_row en c p CListLimits db = listWAFRateLimits c p db"
| "serve_row en c p (CCreateLimit i) db = createWAFRateLimit c p i db"
| "serve_row en c p (CDeleteLimit r) db = deleteWAFRateLimit c p r db"
| "serve_row en c p CListTransforms db = listHeaderTransforms c p db"
| "serve_row en c p (CCreateTransform i) db = createHeaderTransform c p i db"
| "serve_row en c p (CDeleteTransform r) db = deleteHeaderTransform c p r db"
| "serve_row en c p CListDomains db = listZoneDomains c p db"
| "serve_row en c p (CAddDomain i) db = addCustomDomain (en_hostname en) c p i db"

primrec serve_open :: "string \<Rightarrow> open_call \<Rightarrow> control_db \<Rightarrow> answer \<times> control_db" where
  "serve_open p CListRules db = listRules p db"
| "serve_open p (CCreateRule i) db = createRule p i db"
| "serve_open p (CDeleteRule r) db = deleteRule p r db"

primrec serve :: "api_env \<Rightarrow> identity \<Rightarrow> api_request \<Rightarrow> control_db \<Rightarrow> served" where
  "serve en c RListZones db = silent (listZones c db)"
| "serve en c (RCreateZone i) db = silent (createZone (en_hostname en) (en_url en) (en_key en) i db)"
| "serve en c (RZone p q) db = serve_zone en c p q db"
| "serve en c (RRow p q) db = silent (serve_row en c p q db)"
| "serve en c (RDeleteDomain p) db = silent (deleteCustomDomain c p db)"
| "serve en c (ROpen p q) db = silent (serve_open p q db)"

definition scoped_route :: "api_request \<Rightarrow> bool" where
  "scoped_route r \<longleftrightarrow> (case r of ROpen p q \<Rightarrow> False | _ \<Rightarrow> True)"

definition after :: "api_env \<times> identity \<Rightarrow> api_request \<Rightarrow> control_db \<Rightarrow> control_db" where
  "after ec r db = snd (snd (serve (fst ec) (snd ec) r db))"

subsection \<open>Holdings\<close>

record zone_holding =
  zh_zone :: "store_zone option"
  zh_rules :: "rule_row list"
  zh_waf_rules :: "waf_rule_params zone_row list"
  zh_limits :: "limit_params zone_row list"
  zh_transforms :: "transform_params zone_row list"
  zh_domains :: "custom_domain list"
  zh_servers :: "int list"

definition holding :: "int \<Rightarrow> control_db \<Rightarrow> zone_holding" where
  "holding k db =
     \<lparr>zh_zone = find (\<lambda>z. sz_id z = k) (tb_zones db), zh_rules = in_zone k (tb_rules db),
      zh_waf_rules = in_zone k (tb_waf_rules db), zh_limits = in_zone k (tb_limits db),
      zh_transforms = in_zone k (tb_transforms db), zh_domains = filter (\<lambda>d. cd_zone d = k) (tb_domains db),
      zh_servers = map fst (filter (\<lambda>a. snd a = k) (tb_assigned db))\<rparr>"



text \<open>The zones a transaction acts on; deleting a server acts on all of them.\<close>

definition zones_of_domain :: "control_db \<Rightarrow> int \<Rightarrow> int set" where
  "zones_of_domain db i = cd_zone ` {d \<in> set (tb_domains db). cd_id d = i}"

primrec zone_txn_zone :: "control_db \<Rightarrow> zone_txn \<Rightarrow> int" where
  "zone_txn_zone db (TCreateZone p) = sq_zone db"
| "zone_txn_zone db (TUpdateZone i p) = i"
| "zone_txn_zone db (TSetZoneShield i on s) = i"
| "zone_txn_zone db (TSetZoneWAF i w) = i"
| "zone_txn_zone db (TSetZoneCacheSettings i c) = i"
| "zone_txn_zone db (TSetZoneHotlink i on r e) = i"
| "zone_txn_zone db (TSetZoneErrorPage i h) = i"
| "zone_txn_zone db (TSetZoneBlockedIPs i s) = i"
| "zone_txn_zone db (TSetZoneAccessFlags i a b) = i"
| "zone_txn_zone db (TBumpZone i) = i"
| "zone_txn_zone db (TDeleteZone i) = i"

primrec domain_txn_zones :: "control_db \<Rightarrow> domain_txn \<Rightarrow> int set" where
  "domain_txn_zones db (TAssignZone s i) = {i}"
| "domain_txn_zones db (TUnassignZone s i) = {i}"
| "domain_txn_zones db (TCreateCustomDomain i a n) = {i}"
| "domain_txn_zones db (TSetCustomDomainStatus d st e) = zones_of_domain db d"
| "domain_txn_zones db (TMarkCustomDomainVerified now d) = zones_of_domain db d"
| "domain_txn_zones db (TSetCustomDomainActive now d c) = zones_of_domain db d"
| "domain_txn_zones db (TMarkCustomDomainFailure d st e g) = zones_of_domain db d"
| "domain_txn_zones db (TDetachDomain d) = zones_of_domain db d"
| "domain_txn_zones db (TUpsertTLSCert c) = {}"
| "domain_txn_zones db (TDeleteTLSCert n) = {}"

definition acts_on :: "control_db \<Rightarrow> txn \<Rightarrow> int set" where
  "acts_on db t =
     (case t of OnZone z \<Rightarrow> {zone_txn_zone db z} | OnRow r \<Rightarrow> {txn_zone r} | OnDomain d \<Rightarrow> domain_txn_zones db d
      | OnServer s \<Rightarrow> (case s of TDeleteServer i \<Rightarrow> UNIV | _ \<Rightarrow> {}))"

subsection \<open>A transaction leaves the other zones alone\<close>

lemma find_map_other:
  "(\<And>z. g (f z) = g z) \<Longrightarrow> (\<And>z. g z = k \<Longrightarrow> f z = z) \<Longrightarrow> find (\<lambda>z. g z = k) (map f zs) = find (\<lambda>z. g z = k) zs"
  by (induction zs) auto

lemma find_filter_other: "(\<And>z. g z = k \<Longrightarrow> P z) \<Longrightarrow> find (\<lambda>z. g z = k) (filter P zs) = find (\<lambda>z. g z = k) zs"
  by (induction zs) auto

lemma find_append_other: "g z \<noteq> k \<Longrightarrow> find (\<lambda>z. g z = k) (zs @ [z]) = find (\<lambda>z. g z = k) zs"
  by (induction zs) auto

lemma find_set_zone:
  "(\<And>z. sz_id (f z) = sz_id z) \<Longrightarrow> k \<noteq> i \<Longrightarrow>
   find (\<lambda>z. sz_id z = k) (tb_zones (set_zone i f d)) = find (\<lambda>z. sz_id z = k) (tb_zones d)"
  unfolding set_zone_def by (simp, rule find_map_other) (auto simp: bump_zone_def)

lemma find_bump: "k \<noteq> i \<Longrightarrow> find (\<lambda>z. sz_id z = k) (tb_zones (BumpZoneConfigVersion i d)) = find (\<lambda>z. sz_id z = k) (tb_zones d)"
  unfolding BumpZoneConfigVersion_def by (rule find_set_zone) simp_all

lemma holding_set_zone: "(\<And>z. sz_id (f z) = sz_id z) \<Longrightarrow> k \<noteq> i \<Longrightarrow> holding k (set_zone i f d) = holding k d"
  by (simp add: holding_def find_set_zone)

lemma holding_bump: "k \<noteq> i \<Longrightarrow> holding k (BumpZoneConfigVersion i d) = holding k d"
  unfolding BumpZoneConfigVersion_def by (rule holding_set_zone) simp_all

lemma holding_update_zone:
  assumes "without_row (update_zone i f d) = Inr d'" "\<And>z. sz_id (f z) = sz_id z" "k \<noteq> i"
  shows "holding k d' = holding k d"
  using assms holding_set_zone [of f k i d] by (auto simp: update_zone_def split: sum.splits)

lemma domains_other:
  "(\<And>d. cd_zone (f d) = cd_zone d) \<Longrightarrow> (\<And>d. d \<in> set ds \<Longrightarrow> cd_zone d = k \<Longrightarrow> f d = d) \<Longrightarrow>
   filter (\<lambda>d. cd_zone d = k) (map f ds) = filter (\<lambda>d. cd_zone d = k) ds"
  by (induction ds) auto

lemma holding_set_domain:
  assumes "\<And>x. cd_zone (f x) = cd_zone x" "k \<notin> zones_of_domain d i"
  shows "holding k (set_domain i f d) = holding k d"
proof -
  have "filter (\<lambda>d. cd_zone d = k) (tb_domains (set_domain i f d)) = filter (\<lambda>d. cd_zone d = k) (tb_domains d)"
    unfolding set_domain_frame using assms by (intro domains_other) (auto simp: zones_of_domain_def)
  then show ?thesis by (simp add: holding_def)
qed

lemma holding_zone_txn:
  assumes t: "exec_zone_txn t d = Inr d'" and k: "k \<noteq> zone_txn_zone d t" shows "holding k d' = holding k d"
proof (cases t)
  case (TCreateZone p)
  then have "d' = d\<lparr>tb_zones := tb_zones d @ [new_zone (sq_zone d) p], sq_zone := sq_zone d + 1\<rparr>"
    using t by (auto simp: CreateZone_def Let_def split: if_splits)
  then show ?thesis using k TCreateZone by (simp add: holding_def find_append_other new_zone_def)
next
  case (TDeleteZone i)
  then have "k \<noteq> i" using k by simp
  moreover have "filter (\<lambda>a. snd a = k) (filter (\<lambda>(s, z). z \<noteq> i) xs) = filter (\<lambda>a. snd a = k) xs"
    if "k \<noteq> i" for xs :: "(int \<times> int) list" using that by (induction xs) auto
  moreover have "filter (\<lambda>x. cd_zone x = k) (filter (\<lambda>x. cd_zone x \<noteq> i) xs) = filter (\<lambda>x. cd_zone x = k) xs"
    if "k \<noteq> i" for xs using that by (induction xs) auto
  ultimately show ?thesis using t TDeleteZone
    by (auto simp: DeleteZone_def holding_def in_zone_other find_filter_other split: if_splits)
next
  case (TBumpZone i)
  then show ?thesis using t k holding_bump by auto
next
  case (TUpdateZone i p)
  then show ?thesis using t k
    by (auto simp: UpdateZone_def coalesce_zone_def split: sum.splits if_splits intro: holding_update_zone)
qed (use t k in \<open>auto simp: SetZoneShield_def SetZoneWAF_def SetZoneCacheSettings_def SetZoneHotlink_def
       SetZoneErrorPage_def SetZoneBlockedIPs_def SetZoneAccessFlags_def split: if_splits intro: holding_update_zone\<close>)

lemma holding_row_txn:
  assumes t: "exec_row_txn t d = Inr d'" and k: "k \<noteq> txn_zone t" shows "holding k d' = holding k d"
  by (simp add: holding_def row_txn_frame [OF t] row_txn_others [OF t k] find_bump k)

lemma holding_detach:
  assumes "detach_domain i d = Inr d'" and k: "k \<notin> zones_of_domain d i" shows "holding k d' = holding k d"
proof -
  obtain x where x: "find (\<lambda>d. cd_id d = i) (tb_domains d) = Some x"
    and d': "d' = BumpZoneConfigVersion (cd_zone x) (d\<lparr>tb_domains := filter (\<lambda>d. cd_id d \<noteq> i) (tb_domains d)\<rparr>)"
    using assms by (auto simp: detach_domain_def GetCustomDomain_def DeleteCustomDomain_def split: option.splits if_splits)
  have "x \<in> set (tb_domains d)" "cd_id x = i" using x by (auto simp: find_Some_iff)
  then have kx: "k \<noteq> cd_zone x" using k by (auto simp: zones_of_domain_def)
  have "filter (\<lambda>x. cd_zone x = k) (filter (\<lambda>d. cd_id d \<noteq> i) (tb_domains d)) = filter (\<lambda>x. cd_zone x = k) (tb_domains d)"
    unfolding filter_filter using k by (intro filter_cong) (auto simp: zones_of_domain_def)
  then have "holding k (d\<lparr>tb_domains := filter (\<lambda>d. cd_id d \<noteq> i) (tb_domains d)\<rparr>) = holding k d"
    by (simp add: holding_def)
  then show ?thesis by (simp add: d' holding_bump kx)
qed

lemma filter_zone_pair: "filter (\<lambda>a. snd a = k) (filter (\<lambda>a. a \<noteq> (s, i)) xs) = filter (\<lambda>a. snd a = k) xs" if "k \<noteq> i"
  using that by (induction xs) auto

lemma holding_domain_txn:
  assumes t: "exec_domain_txn t d = Inr d'" and k: "k \<notin> domain_txn_zones d t" shows "holding k d' = holding k d"
proof (cases t)
  case (TDetachDomain i)
  then show ?thesis using t k holding_detach by simp
next
  case (TUnassignZone s i)
  then show ?thesis using t k by (auto simp: UnassignZone_def holding_def filter_zone_pair simp del: filter_filter split: if_splits)
qed (use t k in \<open>auto simp: domain_txn_defs split: if_splits intro!: holding_set_domain\<close>,
     (simp add: holding_def)+)

lemma holding_server_txn:
  assumes t: "exec_server_txn t d = Inr d'" and k: "\<And>i. t \<noteq> TDeleteServer i" shows "holding k d' = holding k d"
  using t k by (cases t) (auto simp: server_txn_defs holding_def split: if_splits sum.splits option.splits)

lemma holding_run_txn:
  assumes k: "k \<notin> acts_on d t" shows "holding k (run_txn t d) = holding k d"
proof (rule run_txn_cases)
  assume x: "exec_txn t d = Inr (run_txn t d)"
  show "holding k (run_txn t d) = holding k d"
  proof (cases t)
    case (OnServer s)
    then have "\<And>i. s \<noteq> TDeleteServer i" using k by (auto simp: acts_on_def)
    then show ?thesis using holding_server_txn x OnServer by simp
  qed (use x k in \<open>auto simp: acts_on_def dest: holding_zone_txn holding_row_txn holding_domain_txn\<close>)
qed simp

subsection \<open>A request is a series of transactions on the caller's zones\<close>

inductive steps :: "int set \<Rightarrow> control_db \<Rightarrow> control_db \<Rightarrow> bool" for A where
  steps_none: "steps A d d"
| steps_txn: "acts_on d t \<subseteq> A \<Longrightarrow> steps A (run_txn t d) d' \<Longrightarrow> steps A d d'"

lemma steps_runs: "steps A d d' \<Longrightarrow> \<exists>ts. d' = run_txns ts d"
proof (induction rule: steps.induct)
  case (steps_none d)
  show ?case by (rule exI [of _ "[]"]) simp
next
  case (steps_txn d t d')
  then obtain ts where "d' = run_txns ts (run_txn t d)" by blast
  then show ?case by (intro exI [of _ "t # ts"]) simp
qed

lemma steps_wf: "steps A d d' \<Longrightarrow> wf_db d \<Longrightarrow> wf_db d'"
  by (induction rule: steps.induct) (simp_all add: wf_run_txn)

lemma steps_holding: "steps A d d' \<Longrightarrow> k \<notin> A \<Longrightarrow> holding k d' = holding k d"
proof (induction rule: steps.induct)
  case (steps_txn d t d')
  then show ?case using holding_run_txn [of k d t] by auto
qed simp

lemma steps_trans: "steps A a b \<Longrightarrow> steps A b c \<Longrightarrow> steps A a c"
  by (induction rule: steps.induct) (auto intro: steps.intros)

lemma steps_exec: "exec_txn t d = Inr d' \<Longrightarrow> acts_on d t \<subseteq> A \<Longrightarrow> steps A d d'"
  by (rule steps_txn [of d t]) (simp_all add: run_txn_def steps_none)

lemmas steps_zone = steps_exec [of "OnZone t" for t, simplified]
  and steps_row = steps_exec [of "OnRow t" for t, simplified]
  and steps_domain = steps_exec [of "OnDomain t" for t, simplified]
  and steps_server = steps_exec [of "OnServer t" for t, simplified]

text \<open>The zones a caller may act on: those the scope check lets pass, and the one about to be created.\<close>

definition mine :: "identity \<Rightarrow> control_db \<Rightarrow> int set" where
  "mine c db = {i. \<exists>z. GetZone i db = Inr z \<and> Authorize c (sz_account z)}"

abbreviation confined :: "identity \<Rightarrow> control_db \<Rightarrow> control_db \<Rightarrow> bool" where
  "confined c db db' \<equiv> steps (insert (sq_zone db) (mine c db)) db db'"

lemma GetZone_id: "GetZone i db = Inr z \<Longrightarrow> z \<in> set (tb_zones db) \<and> sz_id z = i"
  by (auto simp: GetZone_def find_Some_iff split: option.splits)

lemma scopeZone_mine: "scopeZone c i db = Inr z \<Longrightarrow> GetZone i db = Inr z \<and> i \<in> mine c db \<and> sz_id z = i"
  by (auto simp: scopeZone_def mine_def split: sum.splits if_splits dest: GetZone_id)

lemma scoped_steps:
  assumes "\<And>i z. GetZone i db = Inr z \<Longrightarrow> i \<in> mine c db \<Longrightarrow> sz_id z = i \<Longrightarrow> steps A db (snd (k i z))"
  shows "steps A db (snd (scoped c path db k))"
  using assms by (auto simp: scoped_def steps_none split: sum.splits dest: scopeZone_mine)

lemma input_steps: "(\<And>i. r = Inr i \<Longrightarrow> steps A db (snd (k i))) \<Longrightarrow> steps A db (snd (with_input db r k))"
  by (auto simp: with_input_def steps_none split: sum.splits)

lemma store_answer_steps:
  "(\<And>x d. r = Inr (x, d) \<Longrightarrow> steps A db d) \<Longrightarrow> steps A db (snd (store_answer db m ok r))"
  by (auto simp: store_answer_def steps_none split: sum.splits)

lemma store_done_steps: "(\<And>d. r = Inr d \<Longrightarrow> steps A db d) \<Longrightarrow> steps A db (snd (store_done db m r))"
  by (auto simp: store_done_def steps_none split: sum.splits)

lemmas handler_steps = scoped_steps input_steps store_answer_steps store_done_steps


text \<open>One lemma per handler: the statement it makes and the zone it makes it on.\<close>

lemma zone_step: "exec_zone_txn t db = Inr d \<Longrightarrow> zone_txn_zone db t \<in> A \<Longrightarrow> steps A db d"
  by (rule steps_zone [of t]) (simp_all add: acts_on_def)

lemma row_step: "exec_row_txn t db = Inr d \<Longrightarrow> txn_zone t \<in> A \<Longrightarrow> steps A db d"
  by (rule steps_row [of t]) (simp_all add: acts_on_def)

lemma domain_step: "exec_domain_txn t db = Inr d \<Longrightarrow> domain_txn_zones db t \<subseteq> A \<Longrightarrow> steps A db d"
  by (rule steps_domain [of t]) (simp_all add: acts_on_def)

lemma server_step: "exec_server_txn t db = Inr d \<Longrightarrow> (\<And>i. t \<noteq> TDeleteServer i) \<Longrightarrow> steps A db d"
  by (rule steps_server [of t]) (auto simp: acts_on_def split: server_txn.splits)

lemma statement_steps:
  "UpdateZone i p db = Inr (x, d) \<Longrightarrow> i \<in> A \<Longrightarrow> steps A db d"
  "SetZoneShield i on s db = Inr (x, d) \<Longrightarrow> i \<in> A \<Longrightarrow> steps A db d"
  "SetZoneWAF i w db = Inr (x, d) \<Longrightarrow> i \<in> A \<Longrightarrow> steps A db d"
  "SetZoneCacheSettings i cs db = Inr (x, d) \<Longrightarrow> i \<in> A \<Longrightarrow> steps A db d"
  "SetZoneHotlink i on r e db = Inr (x, d) \<Longrightarrow> i \<in> A \<Longrightarrow> steps A db d"
  "SetZoneErrorPage i h db = Inr (x, d) \<Longrightarrow> i \<in> A \<Longrightarrow> steps A db d"
  "SetZoneBlockedIPs i h db = Inr (x, d) \<Longrightarrow> i \<in> A \<Longrightarrow> steps A db d"
  "SetZoneAccessFlags i a b db = Inr (x, d) \<Longrightarrow> i \<in> A \<Longrightarrow> steps A db d"
  "CreateZone cz db = Inr (x, d) \<Longrightarrow> sq_zone db \<in> A \<Longrightarrow> steps A db d"
  "DeleteZone i db = Inr d \<Longrightarrow> i \<in> A \<Longrightarrow> steps A db d"
  using zone_step [of "TUpdateZone i p"] zone_step [of "TSetZoneShield i on s"] zone_step [of "TSetZoneWAF i w"] zone_step [of "TSetZoneCacheSettings i cs"]
    zone_step [of "TSetZoneHotlink i on r e"] zone_step [of "TSetZoneErrorPage i h"] zone_step [of "TSetZoneBlockedIPs i h"] zone_step [of "TSetZoneAccessFlags i a b"]
    zone_step [of "TCreateZone cz"] zone_step [of "TDeleteZone i"]
  by simp_all

lemma row_statement_steps:
  "UpdateRule i r p db = Inr (x, d) \<Longrightarrow> i \<in> A \<Longrightarrow> steps A db d"
  "ReorderRules i rs db = Inr d \<Longrightarrow> i \<in> A \<Longrightarrow> steps A db d"
  "CreateWAFRule i w db = Inr (wr, d) \<Longrightarrow> i \<in> A \<Longrightarrow> steps A db d"
  "DeleteWAFRule i r db = Inr d \<Longrightarrow> i \<in> A \<Longrightarrow> steps A db d"
  "CreateWAFRateLimit i l db = Inr (lr, d) \<Longrightarrow> i \<in> A \<Longrightarrow> steps A db d"
  "DeleteWAFRateLimit i r db = Inr d \<Longrightarrow> i \<in> A \<Longrightarrow> steps A db d"
  "CreateHeaderTransform i t db = Inr (tr, d) \<Longrightarrow> i \<in> A \<Longrightarrow> steps A db d"
  "DeleteHeaderTransform i r db = Inr d \<Longrightarrow> i \<in> A \<Longrightarrow> steps A db d"
  using row_step [of "TUpdateRule i r p"] row_step [of "TReorderRules i rs"] row_step [of "TCreateWAFRule i w"] row_step [of "TDeleteWAFRule i r"]
    row_step [of "TCreateWAFRateLimit i l"] row_step [of "TDeleteWAFRateLimit i r"] row_step [of "TCreateHeaderTransform i t"] row_step [of "TDeleteHeaderTransform i r"]
  by simp_all

lemma other_statement_steps:
  "AssignZone s i db = Inr d \<Longrightarrow> i \<in> A \<Longrightarrow> steps A db d"
  "CreateCustomDomain i a n db = Inr (cd, d) \<Longrightarrow> i \<in> A \<Longrightarrow> steps A db d"
  "CreatePurgeJob now z ty g e db = Inr (j, d) \<Longrightarrow> steps A db d"
  using domain_step [of "TAssignZone s i"] domain_step [of "TCreateCustomDomain i a n"]
    server_step [of "TCreatePurgeJob now z ty g e"]
  by simp_all

lemma bump_steps: "i \<in> A \<Longrightarrow> steps A db (BumpZoneConfigVersion i db)"
  by (rule zone_step [of "TBumpZone i"]) simp_all

lemma log_steps: "steps A db (AddProvisionLog s l m db)"
  by (rule server_step [of "TAddProvisionLog s l m"]) simp_all

lemma zone_answer_steps: "(\<And>x d. r = Inr (x, d) \<Longrightarrow> steps A db d) \<Longrightarrow> steps A db (snd (zone_answer db r))"
  unfolding zone_answer_def by (rule store_answer_steps)

lemmas answer_steps = store_answer_steps store_done_steps zone_answer_steps steps_none
lemmas any_statement_steps = statement_steps row_statement_steps other_statement_steps

lemma updateZone_steps: "confined c db (snd (updateZone h u c p i db))"
  unfolding updateZone_def Let_def
  by (intro scoped_steps input_steps)
     (auto split: sum.splits prod.splits option.splits intro!: answer_steps intro: any_statement_steps)

lemma setZoneShield_steps: "confined c db (snd (setZoneShield c p i db))"
  unfolding setZoneShield_def Let_def
  by (intro scoped_steps input_steps)
     (auto split: sum.splits prod.splits option.splits intro!: answer_steps intro: any_statement_steps)

lemma setZoneWAF_steps: "confined c db (snd (setZoneWAF c p i db))"
  unfolding setZoneWAF_def Let_def
  by (intro scoped_steps input_steps)
     (auto split: sum.splits prod.splits option.splits intro!: answer_steps intro: any_statement_steps)

lemma setZoneCacheSettings_steps: "confined c db (snd (setZoneCacheSettings c p i db))"
  unfolding setZoneCacheSettings_def Let_def
  by (intro scoped_steps input_steps)
     (auto split: sum.splits prod.splits option.splits intro!: answer_steps intro: any_statement_steps)

lemma setZoneHotlink_steps: "confined c db (snd (setZoneHotlink c p i db))"
  unfolding setZoneHotlink_def Let_def
  by (intro scoped_steps input_steps)
     (auto split: sum.splits prod.splits option.splits intro!: answer_steps intro: any_statement_steps)

lemma setZoneErrorPage_steps: "confined c db (snd (setZoneErrorPage u c p i db))"
  unfolding setZoneErrorPage_def Let_def
  by (intro scoped_steps input_steps)
     (auto split: sum.splits prod.splits option.splits intro!: answer_steps intro: any_statement_steps)

lemma setZoneBlockedIPs_steps: "confined c db (snd (setZoneBlockedIPs ip cidr c p i db))"
  unfolding setZoneBlockedIPs_def Let_def
  by (intro scoped_steps input_steps)
     (auto split: sum.splits prod.splits option.splits intro!: answer_steps intro: any_statement_steps)

lemma setZoneAccessFlags_steps: "confined c db (snd (setZoneAccessFlags c p i db))"
  unfolding setZoneAccessFlags_def Let_def
  by (intro scoped_steps input_steps)
     (auto split: sum.splits prod.splits option.splits intro!: answer_steps intro: any_statement_steps)

lemma updateRule_steps: "confined c db (snd (updateRule c p r i db))"
  unfolding updateRule_def Let_def
  by (intro scoped_steps input_steps)
     (auto split: sum.splits prod.splits option.splits intro!: answer_steps intro: any_statement_steps)

lemma reorderRules_steps: "confined c db (snd (reorderRules c p i db))"
  unfolding reorderRules_def Let_def
  by (intro scoped_steps input_steps)
     (auto split: sum.splits prod.splits option.splits intro!: answer_steps intro: any_statement_steps)

lemma createWAFRule_steps: "confined c db (snd (createWAFRule c p i db))"
  unfolding createWAFRule_def Let_def
  by (intro scoped_steps input_steps)
     (auto split: sum.splits prod.splits option.splits intro!: answer_steps intro: any_statement_steps)

lemma createWAFRateLimit_steps: "confined c db (snd (createWAFRateLimit c p i db))"
  unfolding createWAFRateLimit_def Let_def
  by (intro scoped_steps input_steps)
     (auto split: sum.splits prod.splits option.splits intro!: answer_steps intro: any_statement_steps)

lemma createHeaderTransform_steps: "confined c db (snd (createHeaderTransform c p i db))"
  unfolding createHeaderTransform_def Let_def
  by (intro scoped_steps input_steps)
     (auto split: sum.splits prod.splits option.splits intro!: answer_steps intro: any_statement_steps)

lemma deleteWAFRule_steps: "confined c db (snd (deleteWAFRule c p r db))"
  unfolding deleteWAFRule_def Let_def
  by (intro scoped_steps input_steps)
     (auto split: sum.splits prod.splits option.splits intro!: answer_steps intro: any_statement_steps)

lemma deleteWAFRateLimit_steps: "confined c db (snd (deleteWAFRateLimit c p r db))"
  unfolding deleteWAFRateLimit_def Let_def
  by (intro scoped_steps input_steps)
     (auto split: sum.splits prod.splits option.splits intro!: answer_steps intro: any_statement_steps)

lemma deleteHeaderTransform_steps: "confined c db (snd (deleteHeaderTransform c p r db))"
  unfolding deleteHeaderTransform_def Let_def
  by (intro scoped_steps input_steps)
     (auto split: sum.splits prod.splits option.splits intro!: answer_steps intro: any_statement_steps)

lemma addCustomDomain_steps: "confined c db (snd (addCustomDomain h c p i db))"
  unfolding addCustomDomain_def Let_def
  by (intro scoped_steps input_steps)
     (auto split: sum.splits prod.splits option.splits intro!: answer_steps intro: any_statement_steps)

lemma assign_steps:
  assumes "i \<in> A" shows "steps A db (snd (assign_serving i servers db))"
proof -
  have "steps A d (snd (foldl (\<lambda>(n, d) s. if serverServing s
          then (case AssignZone (ss_id s) i d of Inr d' \<Rightarrow> (n + 1, d') | Inl e \<Rightarrow> (n, d)) else (n, d)) (n, d) servers))" for n d
  proof (induction servers arbitrary: n d)
    case (Cons s servers)
    show ?case
    proof (cases "serverServing s")
      case True
      then show ?thesis
        using Cons.IH steps_trans [OF other_statement_steps(1) Cons.IH] assms by (auto split: sum.splits)
    qed (simp add: Cons.IH)
  qed (simp add: steps_none)
  then show ?thesis by (simp add: assign_serving_def)
qed

lemma autoAssignZone_steps:
  assumes "i \<in> A" shows "steps A db (snd (autoAssignZone i db))"
proof -
  obtain n d where nd: "assign_serving i (ListServers db) db = (n, d)" by fastforce
  have "steps A db d" using assign_steps [OF assms, of db "ListServers db"] nd by simp
  then show ?thesis using steps_trans [OF _ bump_steps [OF assms]] by (auto simp: autoAssignZone_def nd Let_def split: sum.splits)
qed

lemma CreateZone_id: "CreateZone p db = Inr (z, d) \<Longrightarrow> sz_id z = sq_zone db"
  by (auto simp: CreateZone_def Let_def new_zone_def split: if_splits)

lemma createZone_steps: "steps {sq_zone db} db (snd (createZone h u key i db))"
proof -
  have "steps {sq_zone db} db d'" if "CreateZone p db = Inr (z, d)" "autoAssignZone (sz_id z) d = (x, d')" for p z d x d'
    using steps_trans [OF statement_steps(9) [OF that(1)] autoAssignZone_steps] CreateZone_id [OF that(1)] that(2)
    by (metis insertI1 snd_conv)
  then show ?thesis unfolding createZone_def Let_def
    by (intro input_steps) (auto split: sum.splits prod.splits intro!: steps_none intro: statement_steps dest: sym)
qed

lemma publish_steps: "steps A db (snd (publishToServers p servers m db))"
proof -
  have run: "steps A (snd od) (snd (foldl (publish_one p m) od servers))" for od
  proof (induction servers arbitrary: od)
    case (Cons s servers)
    have "steps A (snd od) (snd (publish_one p m od s))"
      by (simp add: publish_one_def Let_def log_steps steps_none)
    then show ?case using steps_trans Cons.IH by fastforce
  qed (simp add: steps_none)
  show ?thesis using run [of "([], db)"] by (simp add: publishToServers_def)
qed

lemma logs_steps: "steps A db (foldl (\<lambda>d s. AddProvisionLog (ss_id s) l m d) db servers)"
  by (induction servers arbitrary: db) (auto simp: steps_none intro: steps_trans [OF log_steps])

lemma publish_job_steps:
  "CreatePurgeJob now z ty g e db = Inr (j, d) \<Longrightarrow> steps A db (snd (publishToServers q servers m d))"
  "CreatePurgeJob now z ty g e db = Inr (j, d) \<Longrightarrow> publishToServers q servers m d = (sent, d') \<Longrightarrow> steps A db d'"
  using steps_trans [OF other_statement_steps(3) publish_steps] by (metis, metis snd_conv)

lemma purgeZone_steps: "steps A db (snd (snd (purgeZone pub parse now c p i db)))"
  by (auto simp: purgeZone_def Let_def steps_none split: sum.splits prod.splits option.splits intro: publish_job_steps)

lemma purge_deleted_steps: "steps A db (snd (purge_deleted pub now c z servers db))"
  by (auto simp: purge_deleted_def Let_def steps_none logs_steps split: sum.splits prod.splits option.splits
        intro!: steps_trans [OF _ logs_steps] elim: publish_job_steps)

lemma deleteZone_steps: "confined c db (snd (snd (deleteZone pub now c p cf db)))"
proof -
  have pd: "steps A db d" if "purge_deleted pub now c z servers db = (sent, d)" for A z servers sent d
    using purge_deleted_steps [of A db pub now c z servers] that by simp
  have "steps A db d'" if "purge_deleted pub now c z servers db = (sent, d)" "DeleteZone i d = Inr d'" "i \<in> A"
    for A z servers sent d d' i
    using steps_trans [OF pd [OF that(1)] statement_steps(10) [OF that(2,3)]] .
  then show ?thesis using pd
    by (auto simp: deleteZone_def Let_def steps_none split: sum.splits prod.splits dest!: scopeZone_mine)
qed

lemma GetCustomDomain_id: "GetCustomDomain i db = Inr x \<Longrightarrow> x \<in> set (tb_domains db) \<and> cd_id x = i"
  by (auto simp: GetCustomDomain_def find_Some_iff split: option.splits)

lemma domain_zone:
  assumes "wf_db db" "GetCustomDomain i db = Inr x" shows "zones_of_domain db i = {cd_zone x}"
proof -
  have "y = x" if "y \<in> set (tb_domains db)" "cd_id y = i" for y
    using assms(1) GetCustomDomain_id [OF assms(2)] that by (auto simp: wf_db_def distinct_map dest: inj_onD)
  then show ?thesis using GetCustomDomain_id [OF assms(2)] by (auto simp: zones_of_domain_def)
qed

lemma scopeDomain_found:
  "scopeDomain c p db = Inr (x, z) \<Longrightarrow>
   GetCustomDomain (cd_id x) db = Inr x \<and> GetZone (cd_zone x) db = Inr z \<and> sz_id z = cd_zone x \<and> cd_zone x \<in> mine c db"
  by (auto simp: scopeDomain_def mine_def split: sum.splits if_splits dest: GetZone_id GetCustomDomain_id)

lemma detach_steps:
  assumes "\<And>x z. scopeDomain c p db = Inr (x, z) \<Longrightarrow> zones_of_domain db (cd_id x) \<subseteq> A"
  shows "steps A db (snd (deleteCustomDomain c p db))"
proof (cases "scopeDomain c p db")
  case (Inr xz)
  obtain x z where xz: "xz = (x, z)" by fastforce
  note x = scopeDomain_found [OF Inr [unfolded xz]]
  define d where "d = (if trim_space (cd_cert x) \<noteq> '''' then DeleteTLSCert (trim_space (cd_cert x)) db else db)"
  have "tb_domains d = tb_domains db" by (simp add: d_def DeleteTLSCert_def)
  then have here: "GetCustomDomain (cd_id x) d = Inr x" "zones_of_domain d (cd_id x) \<subseteq> A"
    using x assms Inr xz by (simp_all add: GetCustomDomain_def zones_of_domain_def)
  have cert: "steps A db d"
    using domain_step [of "TDeleteTLSCert (trim_space (cd_cert x))" db d A] by (auto simp: d_def steps_none)
  have "steps A d (BumpZoneConfigVersion (sz_id z) d')" if "DeleteCustomDomain (cd_id x) d = Inr d'" for d'
    using domain_step [of "TDetachDomain (cd_id x)" d "BumpZoneConfigVersion (sz_id z) d'" A] here that x
    by (simp add: detach_domain_def)
  moreover have "deleteCustomDomain c p db =
      (case DeleteCustomDomain (cd_id x) d of
         Inl e \<Rightarrow> (if e = ErrNotFound then fail 404 ''domain not found'' else fail 500 ''error'', d)
       | Inr d' \<Rightarrow> ((204, NoBody), BumpZoneConfigVersion (sz_id z) d'))"
    unfolding deleteCustomDomain_def Inr xz Let_def d_def by simp
  ultimately show ?thesis using steps_trans [OF cert] cert by (auto split: sum.splits)
qed (simp add: deleteCustomDomain_def steps_none)

lemma deleteCustomDomain_steps: "wf_db db \<Longrightarrow> confined c db (snd (deleteCustomDomain c p db))"
  by (rule detach_steps) (auto dest!: scopeDomain_found simp: domain_zone)

text \<open>The requests that only read, and the whole dispatch.\<close>

lemmas reading_defs =
  getZone_def listZoneServers_def getZoneWAF_def listWAFRules_def listWAFRateLimits_def listHeaderTransforms_def listZoneDomains_def

lemma serve_zone_steps: "confined c db (snd (snd (serve_zone en c p q db)))"
  by (cases q) (auto simp: silent_def reading_defs intro!: scoped_steps steps_none updateZone_steps setZoneShield_steps
      setZoneWAF_steps setZoneCacheSettings_steps setZoneHotlink_steps setZoneErrorPage_steps setZoneBlockedIPs_steps
      setZoneAccessFlags_steps purgeZone_steps deleteZone_steps)

lemma serve_row_steps: "confined c db (snd (serve_row en c p q db))"
  by (cases q) (auto simp: reading_defs intro!: scoped_steps steps_none updateRule_steps reorderRules_steps
      createWAFRule_steps createWAFRateLimit_steps createHeaderTransform_steps deleteWAFRule_steps
      deleteWAFRateLimit_steps deleteHeaderTransform_steps addCustomDomain_steps)

lemma steps_mono: "steps A d d' \<Longrightarrow> A \<subseteq> B \<Longrightarrow> steps B d d'"
  by (induction rule: steps.induct) (auto intro: steps.intros)

lemma serve_steps:
  assumes "wf_db db" "scoped_route r" shows "confined c db (snd (snd (serve en c r db)))"
proof (cases r)
  case (RCreateZone i)
  then show ?thesis using steps_mono [OF createZone_steps] by (simp add: silent_def)
qed (use assms serve_zone_steps serve_row_steps deleteCustomDomain_steps in
     \<open>auto simp: silent_def listZones_def steps_none scoped_route_def\<close>)

subsection \<open>Runs of requests\<close>

text \<open>
  The unwinding argument, for any service: \<open>may\<close> tells which owners a caller may act for, \<open>ok\<close> is an
  invariant, and a request that a caller makes changes no view whose owner it may not act for.
\<close>

locale tenant_service =
  fixes step :: "'c \<Rightarrow> 'r \<Rightarrow> 's \<Rightarrow> 's"
    and guarded :: "'r \<Rightarrow> bool"
    and ok :: "'s \<Rightarrow> bool"
    and view :: "'k \<Rightarrow> 's \<Rightarrow> 'v"
    and owner :: "'v \<Rightarrow> 'a option"
    and may :: "'c \<Rightarrow> 'a \<Rightarrow> bool"
  assumes keeps_ok: "ok s \<Longrightarrow> guarded r \<Longrightarrow> ok (step c r s)"
    and respects: "ok s \<Longrightarrow> guarded r \<Longrightarrow> owner (view k s) = Some a \<Longrightarrow> \<not> may c a \<Longrightarrow> view k (step c r s) = view k s"
begin

lemma run_respects:
  assumes "ok s" "owner (view k s) = Some a" "\<And>c r. (c, r) \<in> set rs \<Longrightarrow> guarded r \<and> \<not> may c a"
  shows "ok (foldl (\<lambda>s (c, r). step c r s) s rs) \<and> view k (foldl (\<lambda>s (c, r). step c r s) s rs) = view k s"
  using assms
proof (induction rs arbitrary: s)
  case (Cons q rs)
  obtain c r where q: "q = (c, r)" by fastforce
  have g: "guarded r" "\<not> may c a" using Cons.prems(3) q by auto
  have v: "view k (step c r s) = view k s" using respects Cons.prems(1,2) g by blast
  have "owner (view k (step c r s)) = Some a" using v Cons.prems(2) by simp
  then show ?case using Cons.IH [of "step c r s"] keeps_ok [OF Cons.prems(1) g(1)] Cons.prems(3) v q by auto
qed simp

end

definition holding_owner :: "zone_holding \<Rightarrow> int option" where
  "holding_owner h = map_option sz_account (zh_zone h)"

definition caller_may :: "api_env \<times> identity \<Rightarrow> int \<Rightarrow> bool" where
  "caller_may ec = CanAccessAccount (snd ec)"

lemma owner_find: "holding_owner (holding k db) = map_option sz_account (find (\<lambda>z. sz_id z = k) (tb_zones db))"
  by (simp add: holding_owner_def holding_def)

lemma not_mine:
  assumes "wf_db db" "holding_owner (holding k db) = Some a" "\<not> CanAccessAccount c a"
  shows "k \<notin> insert (sq_zone db) (mine c db)"
proof -
  obtain z where z: "find (\<lambda>z. sz_id z = k) (tb_zones db) = Some z" "sz_account z = a"
    using assms(2) by (auto simp: owner_find)
  have "sz_id z = k \<and> z \<in> set (tb_zones db)" using z(1) by (auto simp: find_Some_iff)
  then have "k \<noteq> sq_zone db" using assms(1) by (auto simp: wf_db_def)
  moreover have "k \<notin> mine c db" using z assms(3) by (auto simp: mine_def GetZone_def Authorize_def)
  ultimately show ?thesis by simp
qed

interpretation tenancy: tenant_service after scoped_route wf_db holding holding_owner caller_may
proof
  fix db r and ec :: "api_env \<times> identity"
  assume "wf_db db" "scoped_route r"
  then have s: "confined (snd ec) db (after ec r db)" unfolding after_def by (rule serve_steps)
  then show "wf_db (after ec r db)" using \<open>wf_db db\<close> by (rule steps_wf)
  fix k a assume "holding_owner (holding k db) = Some a" "\<not> caller_may ec a"
  then have "k \<notin> insert (sq_zone db) (mine (snd ec) db)"
    using not_mine [OF \<open>wf_db db\<close>] by (simp add: caller_may_def)
  with s show "holding k (after ec r db) = holding k db" by (rule steps_holding)
qed

definition serve_all :: "((api_env \<times> identity) \<times> api_request) list \<Rightarrow> control_db \<Rightarrow> control_db" where
  "serve_all rs db = foldl (\<lambda>db (ec, r). after ec r db) db rs"

lemma open_steps: "steps UNIV db (snd (serve_open p q db))"
proof (cases q)
  case (CCreateRule i)
  have "steps UNIV db d" if "CreateRule k r db = Inr (x, d)" for k r x d
    by (rule row_step [of "TCreateRule k r"]) (simp_all add: that)
  then show ?thesis using CCreateRule
    by (auto simp: createRule_def steps_none split: sum.splits intro!: input_steps store_answer_steps)
next
  case (CDeleteRule r)
  have "steps UNIV db d" if "DeleteRule k r db = Inr d" for k r d
    by (rule row_step [of "TDeleteRule k r"]) (simp_all add: that)
  then show ?thesis using CDeleteRule
    by (auto simp: deleteRule_def steps_none split: sum.splits intro!: input_steps store_done_steps)
qed (auto simp: listRules_def steps_none split: sum.splits)

text \<open>
  Every request to the zone, row and domain routes changes the database by a series of the
  transactions of theory \<open>Transactions\<close>: what holds for every run of transactions, such as
  well-formed tables, holds for every run of these routes.
\<close>

lemma requests_are_transactions: "\<exists>ts. serve_all rs db = run_txns ts db"
proof -
  have "steps UNIV db (after ec r db)" for ec r db
    using steps_mono [OF serve_zone_steps subset_UNIV] steps_mono [OF serve_row_steps subset_UNIV] open_steps
      steps_mono [OF createZone_steps subset_UNIV] detach_steps [OF subset_UNIV]
    by (cases r) (simp_all add: after_def silent_def listZones_def steps_none)
  note one = this
  have "steps UNIV db (serve_all rs db)" for db
  proof (induction rs arbitrary: db)
    case (Cons q rs)
    obtain ec r where q: "q = (ec, r)" by fastforce
    show ?case using steps_trans [OF one [of db ec r] Cons.IH] by (simp add: serve_all_def q)
  qed (simp add: serve_all_def steps_none)
  then show ?thesis by (rule steps_runs)
qed

subsection \<open>What an answer shows\<close>

primrec shown :: "body \<Rightarrow> int set" where
  "shown NoBody = {}"
| "shown (ErrorBody m) = {}"
| "shown (ZoneBody z rs) = insert (sz_id z) (zr_zone ` set rs)"
| "shown (ZonesBody zs) = sz_id ` set zs"
| "shown (RuleBody r) = {zr_zone r}"
| "shown (RulesBody i rs) = insert i (zr_zone ` set rs)"
| "shown (WafBody i w rs ls) = insert i (zr_zone ` set rs \<union> zr_zone ` set ls)"
| "shown (WafRulesBody i rs) = insert i (zr_zone ` set rs)"
| "shown (LimitsBody i ls) = insert i (zr_zone ` set ls)"
| "shown (TransformsBody i ts) = insert i (zr_zone ` set ts)"
| "shown (ServersBody ss) = {}"
| "shown (DomainsBody i ds) = insert i (cd_zone ` set ds)"
| "shown (JobBody j) = set_option (pj_zone j)"
| "shown (ConfirmBody i h n) = {i}"

definition discreet :: "identity \<Rightarrow> control_db \<Rightarrow> answer \<Rightarrow> bool" where
  "discreet c db a \<longleftrightarrow> shown (snd a) \<subseteq> mine c db"

lemma discreet_fail [simp]: "discreet c db (fail s m)" "discreet c db (if b then fail s m else fail s' m')"
  by (auto simp: discreet_def fail_def)

lemma discreet_scoped:
  assumes "\<And>i z. GetZone i db = Inr z \<Longrightarrow> i \<in> mine c db \<Longrightarrow> sz_id z = i \<Longrightarrow> discreet c db (fst (k i z))"
  shows "discreet c db (fst (scoped c path db k))"
proof (cases "idParam ''id'' path")
  case (Inl a)
  then show ?thesis by (auto simp: scoped_def idParam_def split: option.splits)
next
  case (Inr i)
  have "discreet c db a" if "scopeZone c i db = Inl a" for a
    using that by (auto simp: scopeZone_def split: sum.splits if_splits)
  then show ?thesis using assms Inr by (auto simp: scoped_def split: sum.splits dest: scopeZone_mine)
qed

lemma discreet_input:
  "(\<And>i. r = Inr i \<Longrightarrow> discreet c db (fst (k i))) \<Longrightarrow> (\<And>a. r = Inl a \<Longrightarrow> discreet c db a) \<Longrightarrow> discreet c db (fst (with_input db r k))"
  by (auto simp: with_input_def split: sum.splits)

lemma discreet_decode: "decode ok inp = Inl a \<Longrightarrow> discreet c db a"
  by (auto simp: decode_def split: option.splits if_splits)

lemma discreet_param: "idParam n v = Inl a \<Longrightarrow> discreet c db a"
  by (auto simp: idParam_def split: option.splits)

lemma discreet_store:
  "(\<And>x d. r = Inr (x, d) \<Longrightarrow> discreet c db (ok x)) \<Longrightarrow> discreet c db (fst (store_answer db m ok r))"
  by (auto simp: store_answer_def split: sum.splits)

lemma discreet_done: "discreet c db (fst (store_done db m r))"
  by (auto simp: store_done_def discreet_def fail_def split: sum.splits)

lemma discreet_zone_answer:
  "(\<And>x d. r = Inr (x, d) \<Longrightarrow> sz_id x \<in> mine c db) \<Longrightarrow> discreet c db (fst (zone_answer db r))"
  unfolding zone_answer_def by (rule discreet_store) (simp add: discreet_def)

lemma listed_rows:
  "zr_zone ` set (ListRules i d) \<subseteq> {i}" "zr_zone ` set (ListWAFRules i d) \<subseteq> {i}"
  "zr_zone ` set (ListWAFRateLimits i d) \<subseteq> {i}" "zr_zone ` set (ListHeaderTransforms i d) \<subseteq> {i}"
  "cd_zone ` set (ListCustomDomainsByZone i d) \<subseteq> {i}"
  by (auto simp: ListRules_def ListWAFRules_def ListWAFRateLimits_def ListHeaderTransforms_def
      ListCustomDomainsByZone_def in_zone_def)

lemma update_zone_id:
  "update_zone i f d = Inr (x, d') \<Longrightarrow> (\<And>z. sz_id (f z) = sz_id z) \<Longrightarrow> sz_id x = i"
  by (auto simp: update_zone_def bump_zone_def split: sum.splits dest: GetZone_id)

lemma updated_zone:
  "UpdateZone i p db = Inr (x, d) \<Longrightarrow> sz_id x = i"
  "SetZoneShield i on s db = Inr (x, d) \<Longrightarrow> sz_id x = i"
  "SetZoneWAF i w db = Inr (x, d) \<Longrightarrow> sz_id x = i"
  "SetZoneCacheSettings i cs db = Inr (x, d) \<Longrightarrow> sz_id x = i"
  "SetZoneHotlink i on r e db = Inr (x, d) \<Longrightarrow> sz_id x = i"
  "SetZoneErrorPage i h db = Inr (x, d) \<Longrightarrow> sz_id x = i"
  "SetZoneBlockedIPs i h db = Inr (x, d) \<Longrightarrow> sz_id x = i"
  "SetZoneAccessFlags i a b db = Inr (x, d) \<Longrightarrow> sz_id x = i"
  by (auto simp: UpdateZone_def SetZoneShield_def SetZoneWAF_def SetZoneCacheSettings_def SetZoneHotlink_def
      SetZoneErrorPage_def SetZoneBlockedIPs_def SetZoneAccessFlags_def coalesce_zone_def
      split: sum.splits if_splits dest!: update_zone_id)

lemma written_row:
  "UpdateRule i r p db = Inr (x, d) \<Longrightarrow> zr_zone x = i"
  "CreateWAFRule i w db = Inr (wr, d) \<Longrightarrow> zr_zone wr = i"
  "CreateWAFRateLimit i l db = Inr (lr, d) \<Longrightarrow> zr_zone lr = i"
  "CreateHeaderTransform i t db = Inr (tr, d) \<Longrightarrow> zr_zone tr = i"
  "CreateCustomDomain i a n db = Inr (cd, d) \<Longrightarrow> cd_zone cd = i"
  "CreatePurgeJob now (Some i) ty g e db = Inr (j, d) \<Longrightarrow> pj_zone j = Some i"
  by (auto simp: UpdateRule_def CreateWAFRule_def CreateWAFRateLimit_def CreateHeaderTransform_def
      CreateCustomDomain_def CreatePurgeJob_def Let_def split: if_splits sum.splits)

lemma discreet_body [simp]: "discreet c db (s, b) \<longleftrightarrow> shown b \<subseteq> mine c db"
  by (simp add: discreet_def)

lemma owned_rows [simp]:
  "i \<in> A \<Longrightarrow> zr_zone ` set (ListRules i d) \<subseteq> A" "i \<in> A \<Longrightarrow> zr_zone ` set (ListWAFRules i d) \<subseteq> A"
  "i \<in> A \<Longrightarrow> zr_zone ` set (ListWAFRateLimits i d) \<subseteq> A" "i \<in> A \<Longrightarrow> zr_zone ` set (ListHeaderTransforms i d) \<subseteq> A"
  "i \<in> A \<Longrightarrow> cd_zone ` set (ListCustomDomainsByZone i d) \<subseteq> A"
  by (rule listed_rows [THEN subset_trans]; simp)+

lemmas discreet_intros =
  discreet_scoped discreet_input discreet_store discreet_done discreet_zone_answer

lemmas owned_statement = updated_zone written_row

lemma updateRule_discreet: "discreet c db (fst (updateRule c p r i db))"
  unfolding updateRule_def Let_def
  by (intro discreet_scoped discreet_input; (elim discreet_decode discreet_param)?)
     (auto split: prod.splits sum.splits option.splits intro!: discreet_intros simp: owned_statement)

lemma reorderRules_discreet: "discreet c db (fst (reorderRules c p i db))"
  unfolding reorderRules_def Let_def
  by (intro discreet_scoped discreet_input; (elim discreet_decode discreet_param)?)
     (auto split: prod.splits sum.splits option.splits intro!: discreet_intros simp: owned_statement)

lemma createWAFRule_discreet: "discreet c db (fst (createWAFRule c p i db))"
  unfolding createWAFRule_def Let_def
  by (intro discreet_scoped discreet_input; (elim discreet_decode discreet_param)?)
     (auto split: prod.splits sum.splits option.splits intro!: discreet_intros simp: owned_statement)

lemma createWAFRateLimit_discreet: "discreet c db (fst (createWAFRateLimit c p i db))"
  unfolding createWAFRateLimit_def Let_def
  by (intro discreet_scoped discreet_input; (elim discreet_decode discreet_param)?)
     (auto split: prod.splits sum.splits option.splits intro!: discreet_intros simp: owned_statement)

lemma createHeaderTransform_discreet: "discreet c db (fst (createHeaderTransform c p i db))"
  unfolding createHeaderTransform_def Let_def
  by (intro discreet_scoped discreet_input; (elim discreet_decode discreet_param)?)
     (auto split: prod.splits sum.splits option.splits intro!: discreet_intros simp: owned_statement)

lemma deleteWAFRule_discreet: "discreet c db (fst (deleteWAFRule c p r db))"
  unfolding deleteWAFRule_def Let_def
  by (intro discreet_scoped discreet_input; (elim discreet_decode discreet_param)?)
     (auto split: prod.splits sum.splits option.splits intro!: discreet_intros simp: owned_statement)

lemma deleteWAFRateLimit_discreet: "discreet c db (fst (deleteWAFRateLimit c p r db))"
  unfolding deleteWAFRateLimit_def Let_def
  by (intro discreet_scoped discreet_input; (elim discreet_decode discreet_param)?)
     (auto split: prod.splits sum.splits option.splits intro!: discreet_intros simp: owned_statement)

lemma deleteHeaderTransform_discreet: "discreet c db (fst (deleteHeaderTransform c p r db))"
  unfolding deleteHeaderTransform_def Let_def
  by (intro discreet_scoped discreet_input; (elim discreet_decode discreet_param)?)
     (auto split: prod.splits sum.splits option.splits intro!: discreet_intros simp: owned_statement)

lemma addCustomDomain_discreet: "discreet c db (fst (addCustomDomain h c p i db))"
  unfolding addCustomDomain_def Let_def
  by (intro discreet_scoped discreet_input; (elim discreet_decode discreet_param)?)
     (auto split: prod.splits sum.splits option.splits intro!: discreet_intros simp: owned_statement)

lemma updateZone_discreet: "discreet c db (fst (updateZone h u c p i db))"
  unfolding updateZone_def Let_def
  by (intro discreet_scoped discreet_input; (elim discreet_decode discreet_param)?)
     (auto split: prod.splits sum.splits option.splits intro!: discreet_intros simp: owned_statement)

lemma setZoneShield_discreet: "discreet c db (fst (setZoneShield c p i db))"
  unfolding setZoneShield_def Let_def
  by (intro discreet_scoped discreet_input; (elim discreet_decode discreet_param)?)
     (auto split: prod.splits sum.splits option.splits intro!: discreet_intros simp: owned_statement)

lemma setZoneWAF_discreet: "discreet c db (fst (setZoneWAF c p i db))"
  unfolding setZoneWAF_def Let_def
  by (intro discreet_scoped discreet_input; (elim discreet_decode discreet_param)?)
     (auto split: prod.splits sum.splits option.splits intro!: discreet_intros simp: owned_statement)

lemma setZoneCacheSettings_discreet: "discreet c db (fst (setZoneCacheSettings c p i db))"
  unfolding setZoneCacheSettings_def Let_def
  by (intro discreet_scoped discreet_input; (elim discreet_decode discreet_param)?)
     (auto split: prod.splits sum.splits option.splits intro!: discreet_intros simp: owned_statement)

lemma setZoneHotlink_discreet: "discreet c db (fst (setZoneHotlink c p i db))"
  unfolding setZoneHotlink_def Let_def
  by (intro discreet_scoped discreet_input; (elim discreet_decode discreet_param)?)
     (auto split: prod.splits sum.splits option.splits intro!: discreet_intros simp: owned_statement)

lemma setZoneErrorPage_discreet: "discreet c db (fst (setZoneErrorPage u c p i db))"
  unfolding setZoneErrorPage_def Let_def
  by (intro discreet_scoped discreet_input; (elim discreet_decode discreet_param)?)
     (auto split: prod.splits sum.splits option.splits intro!: discreet_intros simp: owned_statement)

lemma setZoneBlockedIPs_discreet: "discreet c db (fst (setZoneBlockedIPs ip cidr c p i db))"
  unfolding setZoneBlockedIPs_def Let_def
  by (intro discreet_scoped discreet_input; (elim discreet_decode discreet_param)?)
     (auto split: prod.splits sum.splits option.splits intro!: discreet_intros simp: owned_statement)

lemma setZoneAccessFlags_discreet: "discreet c db (fst (setZoneAccessFlags c p i db))"
  unfolding setZoneAccessFlags_def Let_def
  by (intro discreet_scoped discreet_input; (elim discreet_decode discreet_param)?)
     (auto split: prod.splits sum.splits option.splits intro!: discreet_intros simp: owned_statement)

lemma discreet_rejected: "idParam n v = Inl a \<Longrightarrow> discreet c db a" "scopeZone c i db = Inl a \<Longrightarrow> discreet c db a"
  "decode ok inp = Inl a \<Longrightarrow> discreet c db a"
  by (auto simp: idParam_def scopeZone_def decode_def split: option.splits sum.splits if_splits)

lemma discreet_created: "CreatePurgeJob now (Some i) ty g e db = Inr (j, d) \<Longrightarrow> i \<in> mine c db \<Longrightarrow> discreet c db (202, JobBody j)"
  by (simp add: owned_statement)

lemma published_zone: "m' \<in> snd ` set (fst (publishToServers p servers m db)) \<Longrightarrow> m' = m"
proof -
  have run: "snd ` set (fst (foldl (publish_one p m) od servers)) \<subseteq> insert m (snd ` set (fst od))" for od
  proof (induction servers arbitrary: od)
    case (Cons s servers)
    have "snd ` set (fst (publish_one p m od s)) \<subseteq> insert m (snd ` set (fst od))"
      by (auto simp: publish_one_def Let_def)
    then have "insert m (snd ` set (fst (publish_one p m od s))) \<subseteq> insert m (snd ` set (fst od))" by blast
    then show ?case using subset_trans [OF Cons.IH [of "publish_one p m od s"]] by simp
  qed auto
  show "m' \<in> snd ` set (fst (publishToServers p servers m db)) \<Longrightarrow> m' = m"
    using run [of "([], db)"] by (auto simp: publishToServers_def)
qed

text \<open>A message about a zone the caller may access, which names the hosts in that zone's row.\<close>

definition own_message :: "identity \<Rightarrow> control_db \<Rightarrow> purge_message \<Rightarrow> bool" where
  "own_message c db m \<longleftrightarrow>
     (\<exists>z. GetZone (pm_zone m) db = Inr z \<and> CanAccessAccount c (sz_account z) \<and> pm_hosts m = zoneHosts z)"

definition sends_own :: "identity \<Rightarrow> control_db \<Rightarrow> outbox \<Rightarrow> bool" where
  "sends_own c db sent \<longleftrightarrow> (\<forall>x \<in> set sent. own_message c db (snd x))"

lemma sends_published:
  assumes "own_message c db m"
  shows "sends_own c db (fst (publishToServers p servers m d))"
    and "publishToServers p servers m d = (sent, d') \<Longrightarrow> sends_own c db sent"
proof -
  show own: "sends_own c db (fst (publishToServers p servers m d))"
    using published_zone [of _ p servers m d] assms by (auto simp: sends_own_def)
  then show "publishToServers p servers m d = (sent, d') \<Longrightarrow> sends_own c db sent" by simp
qed

lemma sends_nothing [simp]: "sends_own c db []"
  by (simp add: sends_own_def)

lemma zone_message:
  "GetZone i db = Inr z \<Longrightarrow> i \<in> mine c db \<Longrightarrow>
   own_message c db \<lparr>pm_type = ty, pm_hosts = zoneHosts z, pm_target = g, pm_job = j, pm_zone = i\<rparr>"
  by (auto simp: own_message_def mine_def Authorize_def)

lemma purgeZone_discreet:
  "discreet c db (fst (purgeZone pub parse now c p i db)) \<and> sends_own c db (fst (snd (purgeZone pub parse now c p i db)))"
  by (auto simp: purgeZone_def Let_def simp del: discreet_body
      split: sum.splits prod.splits option.splits intro: discreet_rejected discreet_created
      intro!: sends_published zone_message dest!: scopeZone_mine)

lemma purge_deleted_sends:
  "purge_deleted pub now c z servers d = (sent, d') \<Longrightarrow> GetZone (sz_id z) db = Inr z \<Longrightarrow> sz_id z \<in> mine c db \<Longrightarrow>
   sends_own c db sent"
  by (auto simp: purge_deleted_def Let_def split: sum.splits prod.splits option.splits if_splits
      intro: sends_published(2) [OF zone_message])

lemma deleteZone_discreet:
  "discreet c db (fst (deleteZone pub now c p cf db)) \<and> sends_own c db (fst (snd (deleteZone pub now c p cf db)))"
proof -
  have said: "discreet c db ((412, ConfirmBody (sz_id z) h n))" "discreet c db (204, NoBody)" if "sz_id z \<in> mine c db" for z h n
    using that by simp_all
  show ?thesis
    by (auto simp: deleteZone_def Let_def simp del: discreet_body split: sum.splits prod.splits
        intro: discreet_rejected purge_deleted_sends said dest!: scopeZone_mine)
qed

lemma deleteCustomDomain_discreet: "discreet c db (fst (deleteCustomDomain c p db))"
proof -
  have "discreet c db a" if "scopeDomain c p db = Inl a" for a
    using that by (auto simp: scopeDomain_def simp del: discreet_body split: sum.splits if_splits intro: discreet_rejected)
  then show ?thesis by (auto simp: deleteCustomDomain_def Let_def split: sum.splits prod.splits simp del: discreet_body)
      simp_all
qed

lemma reads_discreet:
  "discreet c db (fst (getZone c p db))" "discreet c db (fst (listZoneServers c p db))"
  "discreet c db (fst (getZoneWAF c p db))" "discreet c db (fst (listWAFRules c p db))"
  "discreet c db (fst (listWAFRateLimits c p db))" "discreet c db (fst (listHeaderTransforms c p db))"
  "discreet c db (fst (listZoneDomains c p db))"
  unfolding reading_defs by (rule discreet_scoped; simp)+

lemma listZones_discreet:
  assumes "wf_db db" shows "discreet c db (fst (listZones c db))"
proof -
  have "GetZone (sz_id z) db = Inr z" if "z \<in> set (tb_zones db)" for z
  proof -
    have "find (\<lambda>x. sz_id x = sz_id z) (tb_zones db) \<noteq> None" using that unfolding find_None_iff by blast
    then obtain y where y: "find (\<lambda>x. sz_id x = sz_id z) (tb_zones db) = Some y" by blast
    then have "y \<in> set (tb_zones db)" "sz_id y = sz_id z" by (auto simp: find_Some_iff)
    then have "y = z" using assms that by (auto simp: wf_db_def distinct_map dest: inj_onD)
    then show ?thesis using y by (simp add: GetZone_def)
  qed
  then show ?thesis by (auto simp: listZones_def ListZones_def mine_def Authorize_def IsAdmin_def CanAccessAccount_def)
qed

lemma serve_discreet:
  assumes "wf_db db" "scoped_route r" "\<And>i. r \<noteq> RCreateZone i"
  shows "discreet c db (fst (serve en c r db)) \<and> sends_own c db (fst (snd (serve en c r db)))"
proof (cases r)
  case (RZone p q)
  show ?thesis unfolding RZone
    by (cases q) (simp_all add: silent_def reads_discreet updateZone_discreet setZoneShield_discreet setZoneWAF_discreet
      setZoneCacheSettings_discreet setZoneHotlink_discreet setZoneErrorPage_discreet setZoneBlockedIPs_discreet
      setZoneAccessFlags_discreet purgeZone_discreet deleteZone_discreet)
next
  case (RRow p q)
  show ?thesis unfolding RRow
    by (cases q) (simp_all add: silent_def reads_discreet updateRule_discreet reorderRules_discreet createWAFRule_discreet
      createWAFRateLimit_discreet createHeaderTransform_discreet deleteWAFRule_discreet deleteWAFRateLimit_discreet
      deleteHeaderTransform_discreet addCustomDomain_discreet)
qed (use assms in \<open>simp_all add: silent_def listZones_discreet deleteCustomDomain_discreet scoped_route_def\<close>)

subsection \<open>Isolation\<close>

definition tenants_db :: control_db where
  "tenants_db =
     (let d = run_txns [OnZone (TCreateZone (demo_zone_params ''t.b.com'')), OnDomain (TAssignZone 1 2)] demo_network
      in d\<lparr>tb_zones := map (\<lambda>z. if sz_hostname z = ''t.b.com'' then z\<lparr>sz_account := 2\<rparr> else z) (tb_zones d)\<rparr>)"

definition tenant :: identity where
  "tenant = \<lparr>id_account = 2, id_role = ''customer'', id_method = ''session''\<rparr>"

definition demo_env :: api_env where
  "demo_env = \<lparr>en_hostname = (\<lambda>_. True), en_url = (\<lambda>_. True), en_utf8 = (\<lambda>_. True), en_ip = Some, en_cidr = Some,
     en_parse = (\<lambda>_. None), en_key = (\<lambda>_. 0), en_pub = Some (\<lambda>_. True), en_now = 0\<rparr>"

lemma wf_tenants: "wf_db tenants_db"
  by code_simp

text \<open>
  A tenant is out of reach of the others: whatever series of requests callers make who are
  neither administrators nor of the zone's account, the zone -- its row, its rules, WAF rules, rate
  limits, transforms, custom domains and assignments -- is at the end what it was, unless they use
  one of the three rule routes that do not look at the caller.
\<close>

theorem tenant_isolation:
  assumes "wf_db db" and "GetZone k db = Inr z"
      and "\<And>en c r. ((en, c), r) \<in> set rs \<Longrightarrow> scoped_route r \<and> \<not> IsAdmin c \<and> id_account c \<noteq> sz_account z"
  shows "holding k (serve_all rs db) = holding k db"
proof -
  have "holding_owner (holding k db) = Some (sz_account z)"
    using assms(2) by (auto simp: owner_find GetZone_def split: option.splits)
  moreover have "scoped_route r \<and> \<not> caller_may ec (sz_account z)" if "(ec, r) \<in> set rs" for ec r
    using assms(3) [of "fst ec" "snd ec" r] that by (simp add: caller_may_def CanAccessAccount_def IsAdmin_def)
  ultimately show ?thesis using tenancy.run_respects [OF assms(1), of k _ rs] by (simp add: serve_all_def)
qed

definition tenant_requests :: "((api_env \<times> identity) \<times> api_request) list" where
  "tenant_requests = map (Pair (demo_env, tenant))
     [RZone ''2'' (CSetAccessFlags (Some (True, True))), RZone ''1'' (CSetAccessFlags (Some (True, True))),
      RRow ''2'' (CAddDomain (Some ''www.x.com'')), RDeleteDomain ''1'', RZone ''1'' (CDeleteZone (''a.b.com'', ''''))]"

lemma tenant_isolation_witness:
  "holding 1 (serve_all tenant_requests tenants_db) = holding 1 tenants_db \<and>
   holding 2 (serve_all tenant_requests tenants_db) \<noteq> holding 2 tenants_db"
proof
  have "map_sum (\<lambda>e. e) sz_account (GetZone 1 tenants_db) = Inr 1"
    by code_simp
  then obtain z where z: "GetZone 1 tenants_db = Inr z" "sz_account z = 1"
    by (cases "GetZone 1 tenants_db") auto
  show "holding 1 (serve_all tenant_requests tenants_db) = holding 1 tenants_db"
    by (rule tenant_isolation [OF wf_tenants z(1)])
       (auto simp: z(2) tenant_requests_def scoped_route_def tenant_def IsAdmin_def)
  show "holding 2 (serve_all tenant_requests tenants_db) \<noteq> holding 2 tenants_db"
    by code_simp
qed



subsection \<open>What scoping does not cover\<close>

text \<open>
  The three rule routes: a tenant adds a rule to a zone of another account. A custom domain named
  like the platform's certificate takes that certificate along when it is deleted. A custom
  hostname set on a zone is not checked, and a purge of the zone names it to the edges.
\<close>

lemma open_routes_reach_others:
  "fst (fst (serve demo_env tenant (ROpen ''1'' (CCreateRule (Some demo_rule))) tenants_db)) = 201 \<and>
   length (zh_rules (holding 1 (after (demo_env, tenant) (ROpen ''1'' (CCreateRule (Some demo_rule))) tenants_db))) =
   length (zh_rules (holding 1 tenants_db)) + 1"
  by code_simp

lemma domain_takes_platform_certificate:
  "GetTLSCert ''b.com'' tenants_db \<noteq> Inl ErrNotFound \<and>
   GetTLSCert ''b.com'' (serve_all (map (Pair (demo_env, tenant))
      [RRow ''2'' (CAddDomain (Some ''b.com'')), RDeleteDomain (show_int (sq_domain tenants_db))]) tenants_db) = Inl ErrNotFound"
  by code_simp

definition foreign_host :: update_zone_params where
  "foreign_host = \<lparr>uz_name = None, uz_custom = Some ''a.b.com'', uz_origin = None, uz_host_header = None, uz_tls = None,
     uz_video = None, uz_profile = None, uz_playlist_ttl = None, uz_segment_ttl = None, uz_cors = None, uz_brotli = None,
     uz_status = None, uz_ssl_verify = None, uz_follow = None, uz_forward_host = None\<rparr>"

lemma purge_names_foreign_host:
  "map (pm_hosts \<circ> snd) (fst (snd (serve demo_env tenant (RZone ''2'' (CPurgeZone (Some (''zone'', ''''))))
      (after (demo_env, tenant) (RZone ''2'' (CUpdateZone (Some foreign_host))) tenants_db)))) =
   [[''t.b.com'', ''a.b.com'']]"
  by code_simp

end
