(* ===== verification/AdminAuth.thy ===== *)
theory AdminAuth
  imports Prelude "HOL-Library.Word"
begin

section \<open>Secrets, passwords and the login limiter\<close>

text \<open>
  \<open>brisk-control/internal/adminauth\<close>: the encoding of password hashes (\<open>password.go\<close>), the shapes of
  session ids, CSRF tokens and admin tokens (\<open>secret.go\<close>) and the limiter of failed logins
  (\<open>ratelimit.go\<close>). Argon2, SHA-256, base64 and \<open>fmt.Sscanf\<close> are parameters; random bytes are inputs.
\<close>

unbundle bit_operations_syntax

subsection \<open>Password hashes\<close>

record argon_params =
  gp_memory :: nat
  gp_time :: nat
  gp_threads :: nat
  gp_key_len :: nat
  gp_salt_len :: nat

definition defaultArgon :: argon_params where
  "defaultArgon = \<lparr>gp_memory = 64 * 1024, gp_time = 2, gp_threads = 2, gp_key_len = 32, gp_salt_len = 16\<rparr>"

text \<open>\<open>idkey pw salt t m p n\<close> is \<open>argon2.IDKey\<close>; 19 is \<open>argon2.Version\<close>.\<close>

record argon_lib =
  gl_idkey :: "string \<Rightarrow> string \<Rightarrow> nat \<Rightarrow> nat \<Rightarrow> nat \<Rightarrow> nat \<Rightarrow> string"
  gl_b64 :: "string \<Rightarrow> string"
  gl_unb64 :: "string \<Rightarrow> string option"
  gl_scan_version :: "string \<Rightarrow> nat option"
  gl_scan_params :: "string \<Rightarrow> (nat \<times> nat \<times> nat) option"

definition argon2_version :: nat where
  "argon2_version = 19"

definition version_field :: string where
  "version_field = ''v='' @ show_nat argon2_version"

definition params_field :: "argon_params \<Rightarrow> string" where
  "params_field p = ''m='' @ show_nat (gp_memory p) @ '',t='' @ show_nat (gp_time p) @ '',p='' @ show_nat (gp_threads p)"

definition HashPassword :: "argon_lib \<Rightarrow> string \<Rightarrow> string \<Rightarrow> string" where
  "HashPassword L salt pw =
     (let p = defaultArgon; sum = gl_idkey L pw salt (gp_time p) (gp_memory p) (gp_threads p) (gp_key_len p)
      in ''$argon2id$'' @ version_field @ ''$'' @ params_field p @ ''$'' @ gl_b64 L salt @ ''$'' @ gl_b64 L sum)"

definition VerifyPassword :: "argon_lib \<Rightarrow> string \<Rightarrow> string \<Rightarrow> bool" where
  "VerifyPassword L pw encoded =
     (let parts = split_on (CHR ''$'') encoded in
      if length parts \<noteq> 6 \<or> parts ! 1 \<noteq> ''argon2id'' then False
      else if gl_scan_version L (parts ! 2) \<noteq> Some argon2_version then False
      else (case gl_scan_params L (parts ! 3) of
              None \<Rightarrow> False
            | Some (m, t, p) \<Rightarrow>
                (case gl_unb64 L (parts ! 4) of
                   None \<Rightarrow> False
                 | Some salt \<Rightarrow>
                     (case gl_unb64 L (parts ! 5) of
                        None \<Rightarrow> False
                      | Some want \<Rightarrow>
                          if want = '''' then False else gl_idkey L pw salt t m p (length want) = want))))"

lemma split_on_field: "CHR ''$'' \<notin> set f \<Longrightarrow> split_on (CHR ''$'') (f @ ''$'' @ s) = f # split_on (CHR ''$'') s"
  by (induction f) auto

lemma split_on_scheme: "split_on (CHR ''$'') (''$argon2id$'' @ s) = '''' # ''argon2id'' # split_on (CHR ''$'') s"
  using split_on_field [of "''argon2id''" s] by simp

lemma split_on_last: "CHR ''$'' \<notin> set f \<Longrightarrow> split_on (CHR ''$'') f = [f]"
  by (induction f) auto

text \<open>
  What the libraries promise: base64 text has no dollar sign and decodes to what was encoded,
  scanning reads back what was printed, and the key has the length asked for.
\<close>

definition argon_sound :: "argon_lib \<Rightarrow> bool" where
  "argon_sound L \<longleftrightarrow>
     (\<forall>x. CHR ''$'' \<notin> set (gl_b64 L x) \<and> gl_unb64 L (gl_b64 L x) = Some x) \<and>
     gl_scan_version L version_field = Some argon2_version \<and>
     gl_scan_params L (params_field defaultArgon) =
       Some (gp_memory defaultArgon, gp_time defaultArgon, gp_threads defaultArgon) \<and>
     (\<forall>pw salt t m p n. length (gl_idkey L pw salt t m p n) = n)"

lemma hash_parts:
  assumes "argon_sound L"
  shows "split_on (CHR ''$'') (HashPassword L salt pw) =
    ['''', ''argon2id'', version_field, params_field defaultArgon, gl_b64 L salt,
     gl_b64 L (gl_idkey L pw salt 2 65536 2 32)]"
proof -
  have clean: "CHR ''$'' \<notin> set version_field" "CHR ''$'' \<notin> set (params_field defaultArgon)"
    using show_nat_digits [of "CHR ''$''"]
    by (auto simp: version_field_def params_field_def is_digit_def)
  have b: "CHR ''$'' \<notin> set (gl_b64 L x)" for x using assms by (simp add: argon_sound_def)
  have "HashPassword L salt pw =
      ''$argon2id$'' @ version_field @ ''$'' @ params_field defaultArgon @ ''$'' @ gl_b64 L salt @ ''$'' @
        gl_b64 L (gl_idkey L pw salt 2 65536 2 32)"
    by (simp only: HashPassword_def Let_def) (simp add: defaultArgon_def)
  then show ?thesis
    by (simp only: split_on_scheme split_on_field [OF clean(1)] split_on_field [OF clean(2)] split_on_field [OF b]
        split_on_last [OF b])
qed

text \<open>
  A password verifies against its own hash, whatever the salt, and any password that verifies
  has the same Argon2 key for that salt.
\<close>

theorem password_roundtrip:
  assumes "argon_sound L"
  shows "VerifyPassword L pw' (HashPassword L salt pw) \<longleftrightarrow>
         gl_idkey L pw' salt 2 65536 2 32 = gl_idkey L pw salt 2 65536 2 32"
proof -
  have "gl_idkey L pw salt 2 65536 2 32 \<noteq> ''''"
    using assms by (metis argon_sound_def length_0_conv zero_neq_numeral)
  then show ?thesis using assms
    by (simp add: VerifyPassword_def hash_parts [OF assms] argon_sound_def defaultArgon_def)
qed

subsection \<open>Tokens\<close>

definition adminTokenScheme :: string where
  "adminTokenScheme = ''brisk_admin_''"

definition AdminPrefixLen :: nat where
  "AdminPrefixLen = length adminTokenScheme + 8"

definition NewAdminToken :: "string \<Rightarrow> string" where
  "NewAdminToken random = adminTokenScheme @ random"

definition AdminPrefix :: "string \<Rightarrow> string" where
  "AdminPrefix tok = (if length tok < AdminPrefixLen then tok else take AdminPrefixLen tok)"

definition IsAdminToken :: "string \<Rightarrow> bool" where
  "IsAdminToken tok = has_prefix tok adminTokenScheme"

lemma new_token_is_admin [simp]: "IsAdminToken (NewAdminToken r)"
  by (simp add: IsAdminToken_def NewAdminToken_def has_prefix_def)

text \<open>\<open>subtleEqual\<close>: constant-time comparison by accumulating the differing bits.\<close>

definition byte :: "char \<Rightarrow> 8 word" where
  "byte c = of_nat (of_char c)"

definition subtleEqual :: "string \<Rightarrow> string \<Rightarrow> bool" where
  "subtleEqual a b =
     (if length a \<noteq> length b then False
      else foldl (\<lambda>v (x, y). v OR (byte x XOR byte y)) 0 (zip a b) = 0)"

lemma of_char_small: "(of_char c :: nat) < 256"
  by (cases c) (auto simp: of_char_def horner_sum_simps of_bool_def)

lemma byte_inject: "byte x = byte y \<longleftrightarrow> x = y"
proof -
  have "unat (byte c) = of_char c" for c
    unfolding byte_def using of_char_small [of c] by (simp add: unsigned_of_nat take_bit_nat_eq_self)
  then show ?thesis by (metis of_char_eq_iff)
qed

lemma xor_zero_iff: "(a XOR b = 0) \<longleftrightarrow> a = (b :: 8 word)"
proof
  assume "a XOR b = 0"
  then have "(a XOR b) XOR b = 0 XOR b" by simp
  then show "a = b" by (simp add: ac_simps)
qed simp

lemma subtleEqual_eq: "subtleEqual a b \<longleftrightarrow> a = b"
proof -
  have run: "foldl (\<lambda>v (x, y). v OR (byte x XOR byte y)) v ps = 0 \<longleftrightarrow> v = 0 \<and> (\<forall>(x, y) \<in> set ps. x = y)" for v ps
  proof (induction ps arbitrary: v)
    case (Cons p ps)
    obtain x y where p: "p = (x, y)" by fastforce
    have "v OR (byte x XOR byte y) = 0 \<longleftrightarrow> v = 0 \<and> x = y"
      by (simp add: or_eq_0_iff xor_zero_iff byte_inject)
    then show ?case using Cons.IH p by auto
  qed simp
  show ?thesis
  proof (cases "length a = length b")
    case True
    then show ?thesis by (auto simp: subtleEqual_def run list_eq_iff_zip_eq)
  qed (auto simp: subtleEqual_def)
qed

subsection \<open>The login limiter\<close>

text \<open>\<open>None\<close> is the zero \<open>time.Time\<close> of a key that was never locked.\<close>

record fail_state =
  fs_count :: nat
  fs_first :: instant
  fs_locked :: "instant option"

record limiter =
  ll_fails :: "string \<rightharpoonup> fail_state"
  ll_max :: nat
  ll_window :: duration
  ll_lockout :: duration

definition NewLoginLimiter :: "nat \<Rightarrow> duration \<Rightarrow> duration \<Rightarrow> limiter" where
  "NewLoginLimiter m window lockout = \<lparr>ll_fails = Map.empty, ll_max = m, ll_window = window, ll_lockout = lockout\<rparr>"

definition before_lock :: "instant \<Rightarrow> instant option \<Rightarrow> bool" where
  "before_lock now l \<longleftrightarrow> (case l of None \<Rightarrow> False | Some t \<Rightarrow> now < t)"

definition limiter_Allowed :: "limiter \<Rightarrow> string \<Rightarrow> instant \<Rightarrow> bool" where
  "limiter_Allowed l key now =
     (case ll_fails l key of None \<Rightarrow> True | Some s \<Rightarrow> \<not> before_lock now (fs_locked s))"

definition failed_state :: "limiter \<Rightarrow> string \<Rightarrow> instant \<Rightarrow> fail_state" where
  "failed_state l key now =
     (let fresh = \<lparr>fs_count = 0, fs_first = now, fs_locked = None\<rparr>;
          s = (case ll_fails l key of
                 None \<Rightarrow> fresh
               | Some s \<Rightarrow> if now - fs_first s > ll_window l then fresh else s);
          s = s\<lparr>fs_count := fs_count s + 1\<rparr>
      in if fs_count s \<ge> ll_max l then s\<lparr>fs_locked := Some (now + ll_lockout l)\<rparr> else s)"

definition limiter_Fail :: "limiter \<Rightarrow> string \<Rightarrow> instant \<Rightarrow> bool \<times> limiter" where
  "limiter_Fail l key now =
     (let s = failed_state l key now in (before_lock now (fs_locked s), l\<lparr>ll_fails := (ll_fails l)(key \<mapsto> s)\<rparr>))"

definition limiter_Reset :: "limiter \<Rightarrow> string \<Rightarrow> limiter" where
  "limiter_Reset l key = l\<lparr>ll_fails := (ll_fails l)(key := None)\<rparr>"

text \<open>
  A login takes two steps: it notes the time and asks \<open>Allowed\<close>; then it looks at the password, which
  takes as long as argon2 does and holds no lock; then it records a failure, with the time noted at the
  beginning, or clears the key. Attempts overlap in any way: a run is a series of clocked events, an
  attempt that begins and the \<open>n\<close>-th of the attempts in flight whose password has been looked at. The
  result lists the attempts whose password was looked at, in that order.
\<close>

record attempt =
  at_key :: string
  at_time :: instant
  at_valid :: bool

datatype login_event = Begins attempt | Answers nat

definition login_result :: "attempt \<Rightarrow> limiter \<Rightarrow> limiter" where
  "login_result a l = (if at_valid a then limiter_Reset l (at_key a) else snd (limiter_Fail l (at_key a) (at_time a)))"

fun run_logins :: "(instant \<times> login_event) list \<Rightarrow> attempt list \<Rightarrow> limiter \<Rightarrow> attempt list" where
  "run_logins [] pending l = []"
| "run_logins ((\<tau>, Begins a) # es) pending l =
     (if limiter_Allowed l (at_key a) (at_time a) then run_logins es (pending @ [a]) l else run_logins es pending l)"
| "run_logins ((\<tau>, Answers n) # es) pending l =
     (if n < length pending
      then pending ! n # run_logins es (take n pending @ drop (n + 1) pending) (login_result (pending ! n) l)
      else run_logins es pending l)"

text \<open>
  The pace of a run, for one key: the time an attempt notes is not in the future, every attempt is
  answered within \<open>D\<close> of it, and never more than \<open>p\<close> attempts on the key are in flight.
\<close>

definition guesses :: "string \<Rightarrow> attempt list \<Rightarrow> nat" where
  "guesses key as = length (filter (\<lambda>a. at_key a = key) as)"

fun paced :: "duration \<Rightarrow> nat \<Rightarrow> string \<Rightarrow> (instant \<times> login_event) list \<Rightarrow> attempt list \<Rightarrow> limiter \<Rightarrow> bool" where
  "paced D p key [] pending l = True"
| "paced D p key ((\<tau>, Begins a) # es) pending l =
     (at_time a \<le> \<tau> \<and>
      (if limiter_Allowed l (at_key a) (at_time a)
       then guesses key (pending @ [a]) \<le> p \<and> paced D p key es (pending @ [a]) l else paced D p key es pending l))"
| "paced D p key ((\<tau>, Answers n) # es) pending l =
     (if n < length pending
      then \<tau> \<le> at_time (pending ! n) + D \<and>
           paced D p key es (take n pending @ drop (n + 1) pending) (login_result (pending ! n) l)
      else paced D p key es pending l)"

text \<open>Attempts in flight of the key that noted a time up to \<open>t\<close>; taking one out.\<close>

definition open_until :: "string \<Rightarrow> instant \<Rightarrow> attempt list \<Rightarrow> nat" where
  "open_until key t pending = guesses key (filter (\<lambda>a. at_time a \<le> t) pending)"

lemma guesses_split:
  "n < length pending \<Longrightarrow>
   guesses key pending = (if at_key (pending ! n) = key then 1 else 0) + guesses key (take n pending @ drop (n + 1) pending)"
  by (subst id_take_nth_drop [of n pending]) (simp_all add: guesses_def)

lemma open_until_split:
  "n < length pending \<Longrightarrow>
   open_until key t pending = (if at_key (pending ! n) = key \<and> at_time (pending ! n) \<le> t then 1 else 0) +
     open_until key t (take n pending @ drop (n + 1) pending)"
  by (subst id_take_nth_drop [of n pending]) (simp_all add: open_until_def guesses_def)

lemma open_until_add:
  "open_until key t (pending @ [a]) = open_until key t pending + (if at_key a = key \<and> at_time a \<le> t then 1 else 0)"
  by (simp add: open_until_def guesses_def)

lemma open_until_le: "open_until key t pending \<le> guesses key pending"
  by (induction pending) (auto simp: open_until_def guesses_def)

text \<open>
  The account of one key: \<open>n\<close> guesses since \<open>start\<close> are accounted for by the full windows before the
  current one and the count in it. A count below the maximum leaves the key open; at the maximum the
  key is locked beyond the window, and only what is in flight from within the window still adds to it.
\<close>

definition accounted :: "nat \<Rightarrow> limiter \<Rightarrow> string \<Rightarrow> attempt list \<Rightarrow> instant \<Rightarrow> instant \<Rightarrow> nat \<Rightarrow> bool" where
  "accounted M l key pending start now n \<longleftrightarrow>
     (case ll_fails l key of
        None \<Rightarrow> n = 0
      | Some s \<Rightarrow>
          start \<le> fs_first s \<and> fs_first s \<le> now \<and>
          int n \<le> int M * ((fs_first s - start) div ll_window l) + int (fs_count s) \<and>
          (fs_count s < ll_max l \<or>
           (\<exists>u. fs_locked s = Some u \<and> fs_first s + ll_window l < u) \<and>
           fs_count s + open_until key (fs_first s + ll_window l) pending \<le> M))"

lemma accounted_count:
  assumes "accounted M l key pending start now n" "ll_fails l key = Some s" "ll_max l \<le> M"
  shows "fs_count s \<le> M"
  using assms by (auto simp: accounted_def)

lemma accounted_later: "accounted M l key pending start now n \<Longrightarrow> now \<le> now' \<Longrightarrow> accounted M l key pending start now' n"
  by (auto simp: accounted_def split: option.splits)

lemma result_settings [simp]:
  "ll_max (login_result a l) = ll_max l" "ll_window (login_result a l) = ll_window l" "ll_lockout (login_result a l) = ll_lockout l"
  by (simp_all add: login_result_def limiter_Reset_def limiter_Fail_def Let_def)

lemma result_other_key: "at_key a \<noteq> key \<Longrightarrow> ll_fails (login_result a l) key = ll_fails l key"
  by (simp add: login_result_def limiter_Reset_def limiter_Fail_def Let_def)

lemma result_fail: "\<not> at_valid a \<Longrightarrow> ll_fails (login_result a l) (at_key a) = Some (failed_state l (at_key a) (at_time a))"
  by (simp add: login_result_def limiter_Fail_def Let_def)

lemma window_passed:
  assumes "(0::int) < w" "start \<le> f" "w < now - f"
  shows "(f - start) div w + 1 \<le> (now - start) div w"
proof -
  have "(f - start + w) div w \<le> (now - start) div w" using assms by (intro zdiv_mono1) auto
  then show ?thesis using assms by simp
qed

text \<open>An attempt that begins while the key is full noted a time beyond the window.\<close>

lemma begin_accounted:
  assumes acc: "accounted M l key pending start now n" and ok: "limiter_Allowed l (at_key a) (at_time a)"
  shows "accounted M l key (pending @ [a]) start now n"
  using assms by (auto simp: accounted_def open_until_add limiter_Allowed_def before_lock_def split: option.splits)

text \<open>A failure: the first of a window, or one more in it.\<close>

lemma fail_accounted:
  assumes acc: "accounted M l key pending start now n" and a: "n' < length pending" "at_key (pending ! n') = key" "\<not> at_valid (pending ! n')"
    and time: "start \<le> at_time (pending ! n')" "at_time (pending ! n') \<le> now" "now \<le> at_time (pending ! n') + D"
    and p: "guesses key pending \<le> p" and M: "M + 1 = ll_max l + p" "ll_max l \<le> M"
    and pos: "0 < ll_max l" "0 < ll_window l" "ll_window l + D < ll_lockout l" "0 \<le> D"
  shows "accounted M (login_result (pending ! n') l) key (take n' pending @ drop (n' + 1) pending) start now (n + 1)"
proof -
  let ?t = "at_time (pending ! n')" and ?w = "ll_window l" and ?rest = "take n' pending @ drop (n' + 1) pending"
  let ?s = "failed_state l key ?t"
  have r: "ll_fails (login_result (pending ! n') l) key = Some ?s" using result_fail [OF a(3)] a(2) by simp
  have left: "guesses key ?rest + 1 \<le> p" using p guesses_split [OF a(1), of key] a(2) by simp
  have "start \<le> fs_first ?s \<and> fs_first ?s \<le> now \<and> int (n + 1) \<le> int M * ((fs_first ?s - start) div ?w) + int (fs_count ?s) \<and>
      (fs_count ?s < ll_max l \<or>
       (\<exists>u. fs_locked ?s = Some u \<and> fs_first ?s + ?w < u) \<and> fs_count ?s + open_until key (fs_first ?s + ?w) ?rest \<le> M)"
  proof (cases "\<exists>s. ll_fails l key = Some s \<and> ?t - fs_first s \<le> ?w")
    case False
    have n: "int n \<le> int M * ((?t - start) div ?w)"
    proof (cases "ll_fails l key")
      case None
      then show ?thesis using acc time(1) pos(2) by (simp add: accounted_def pos_imp_zdiv_nonneg_iff)
    next
      case (Some s)
      then have s: "start \<le> fs_first s" "?w < ?t - fs_first s" "int n \<le> int M * ((fs_first s - start) div ?w) + int (fs_count s)"
        using acc False by (auto simp: accounted_def)
      have "int M * ((fs_first s - start) div ?w + 1) \<le> int M * ((?t - start) div ?w)"
        using window_passed [OF pos(2) s(1,2)] by (intro mult_left_mono) auto
      then show ?thesis using s(3) accounted_count [OF acc Some M(2)] by (simp add: distrib_left)
    qed
    have "?s = (let s = \<lparr>fs_count = 1, fs_first = ?t, fs_locked = None\<rparr> in if 1 \<ge> ll_max l then s\<lparr>fs_locked := Some (?t + ll_lockout l)\<rparr> else s)"
      using False by (auto simp: failed_state_def Let_def split: option.split)
    then show ?thesis
      using n time pos M(1) left open_until_le [of key "?t + ?w" ?rest] by (simp add: Let_def)
  next
    case True
    then obtain s where s: "ll_fails l key = Some s" "?t - fs_first s \<le> ?w" by blast
    have s': "?s = (let s = s\<lparr>fs_count := fs_count s + 1\<rparr> in if fs_count s \<ge> ll_max l then s\<lparr>fs_locked := Some (?t + ll_lockout l)\<rparr> else s)"
      using s by (simp add: failed_state_def Let_def)
    have f: "start \<le> fs_first s" "fs_first s \<le> now" "int n \<le> int M * ((fs_first s - start) div ?w) + int (fs_count s)"
      using acc s(1) by (auto simp: accounted_def)
    have "fs_first s + ?w < ?t + ll_lockout l" using f(2) time(3) pos(3) by linarith
    moreover have "fs_count s + 1 < ll_max l \<or> fs_count s + 1 + open_until key (fs_first s + ?w) ?rest \<le> M"
    proof (cases "fs_count s < ll_max l")
      case True
      then show ?thesis using M(1) left open_until_le [of key "fs_first s + ?w" ?rest] by linarith
    next
      case False
      then show ?thesis using acc s open_until_split [OF a(1), of key "fs_first s + ?w"] a(2) by (auto simp: accounted_def)
    qed
    ultimately show ?thesis using f s' by (auto simp: Let_def)
  qed
  then show ?thesis by (simp add: accounted_def r)
qed

lemma accounted_total:
  assumes "accounted M l key pending start now n" "ll_max l \<le> M" "0 < ll_window l" "start \<le> now" "now \<le> start + T"
  shows "int n \<le> int M * (1 + T div ll_window l)"
proof (cases "ll_fails l key")
  case None
  have "0 \<le> T div ll_window l" using assms(3-5) by (simp add: pos_imp_zdiv_nonneg_iff)
  then show ?thesis using assms(1) None by (simp add: accounted_def)
next
  case (Some s)
  then have s: "fs_first s \<le> now" "int n \<le> int M * ((fs_first s - start) div ll_window l) + int (fs_count s)"
    using assms(1) by (auto simp: accounted_def)
  have "(fs_first s - start) div ll_window l \<le> T div ll_window l"
    using s(1) assms(3,5) by (intro zdiv_mono1) auto
  then have "int M * ((fs_first s - start) div ll_window l) \<le> int M * (T div ll_window l)"
    by (intro mult_left_mono) auto
  then show ?thesis using s(2) accounted_count [OF assms(1) Some assms(2)] by (simp add: distrib_left)
qed

lemma accounted_other:
  assumes "accounted M l key pending start now n" "n' < length pending" "at_key (pending ! n') \<noteq> key"
  shows "accounted M (login_result (pending ! n') l) key (take n' pending @ drop (n' + 1) pending) start now n"
  using assms(1) open_until_split [OF assms(2), of key] assms(3) unfolding accounted_def result_other_key [OF assms(3)] result_settings
  by (simp split: option.splits)

text \<open>Not a correct password for the key.\<close>

definition wrong_for :: "string \<Rightarrow> attempt \<Rightarrow> bool" where
  "wrong_for key a \<longleftrightarrow> at_key a \<noteq> key \<or> \<not> at_valid a"

text \<open>What every event and every attempt in flight satisfies, up to now.\<close>

definition login_events_ok :: "instant \<Rightarrow> instant \<Rightarrow> string \<Rightarrow> instant \<Rightarrow> (instant \<times> login_event) list \<Rightarrow> bool" where
  "login_events_ok start stop key now es \<longleftrightarrow>
     sorted (map fst es) \<and> (\<forall>\<tau> e. (\<tau>, e) \<in> set es \<longrightarrow> now \<le> \<tau> \<and> \<tau> \<le> stop) \<and>
     (\<forall>\<tau> a. (\<tau>, Begins a) \<in> set es \<longrightarrow> start \<le> at_time a \<and> wrong_for key a)"

definition pending_ok :: "instant \<Rightarrow> string \<Rightarrow> instant \<Rightarrow> nat \<Rightarrow> attempt list \<Rightarrow> bool" where
  "pending_ok start key now p pending \<longleftrightarrow>
     (\<forall>a \<in> set pending. start \<le> at_time a \<and> at_time a \<le> now \<and> wrong_for key a) \<and> guesses key pending \<le> p"

lemma events_step: "login_events_ok start stop key now ((\<tau>, e) # es) \<Longrightarrow> now \<le> \<tau> \<and> \<tau> \<le> stop \<and> login_events_ok start stop key \<tau> es"
proof -
  assume ok: "login_events_ok start stop key now ((\<tau>, e) # es)"
  then have "sorted (map fst es)" "\<And>\<tau>' e'. (\<tau>', e') \<in> set es \<Longrightarrow> \<tau> \<le> \<tau>'"
    unfolding login_events_ok_def by force+
  with ok show ?thesis unfolding login_events_ok_def by (meson list.set_intros)
qed

lemma events_begin:
  "login_events_ok start stop key now ((\<tau>, Begins a) # es) \<Longrightarrow> start \<le> at_time a \<and> wrong_for key a"
  unfolding login_events_ok_def by (meson list.set_intros(1))

lemma pending_later: "pending_ok start key now p pending \<Longrightarrow> now \<le> now' \<Longrightarrow> pending_ok start key now' p pending"
  by (auto simp: pending_ok_def)

lemma pending_take:
  assumes "pending_ok start key now p pending" "k < length pending"
  shows "pending_ok start key now p (take k pending @ drop (k + 1) pending)"
proof -
  have "set (take k pending @ drop (k + 1) pending) \<subseteq> set pending" by (auto dest: in_set_takeD in_set_dropD)
  moreover have "guesses key (take k pending @ drop (k + 1) pending) \<le> guesses key pending" using guesses_split [OF assms(2), of key] by simp
  ultimately show ?thesis using assms(1) unfolding pending_ok_def by (meson order_trans subsetD)
qed

lemma run_logins_accounted:
  assumes pos: "M + 1 = m + p" "m \<le> M" "0 < m" "0 < w" "w + D < lo" "0 \<le> D"
    and "accounted M l key pending start now n" "login_events_ok start (start + T) key now es" "paced D p key es pending l"
    and "pending_ok start key now p pending" "start \<le> now" "now \<le> start + T"
    and "ll_max l = m" "ll_window l = w" "ll_lockout l = lo"
  shows "int (n + guesses key (run_logins es pending l)) \<le> int M * (1 + T div w)"
  using assms(7-15)
proof (induction es pending l arbitrary: now n rule: run_logins.induct)
  case (1 pending l)
  then show ?case using accounted_total [OF "1.prems"(1) _ _ "1.prems"(5,6)] pos by (simp add: guesses_def)
next
  case (2 \<tau> a es pending l)
  have \<tau>: "now \<le> \<tau>" "\<tau> \<le> start + T" "login_events_ok start (start + T) key \<tau> es" using events_step [OF "2.prems"(2)] by auto
  have a: "start \<le> at_time a" "wrong_for key a" using events_begin [OF "2.prems"(2)] by auto
  have s: "start \<le> \<tau>" using "2.prems"(5) \<tau>(1) by simp
  have later: "accounted M l key pending start \<tau> n" using "2.prems"(1) \<tau>(1) by (rule accounted_later)
  have pend: "pending_ok start key \<tau> p pending" using "2.prems"(4) \<tau>(1) by (rule pending_later)
  show ?case
  proof (cases "limiter_Allowed l (at_key a) (at_time a)")
    case True
    have pc: "at_time a \<le> \<tau>" "guesses key (pending @ [a]) \<le> p" "paced D p key es (pending @ [a]) l"
      using "2.prems"(3) True by simp_all
    have "pending_ok start key \<tau> p (pending @ [a])" using pend pc(1,2) a by (simp add: pending_ok_def)
    from "2.IH"(1) [OF True begin_accounted [OF later True] \<tau>(3) pc(3) this s \<tau>(2) "2.prems"(7-9)] True show ?thesis by simp
  next
    case False
    then have "paced D p key es pending l" using "2.prems"(3) by simp
    from "2.IH"(2) [OF False later \<tau>(3) this pend s \<tau>(2) "2.prems"(7-9)] False show ?thesis by simp
  qed
next
  case (3 \<tau> k es pending l)
  have \<tau>: "now \<le> \<tau>" "\<tau> \<le> start + T" "login_events_ok start (start + T) key \<tau> es" using events_step [OF "3.prems"(2)] by auto
  have s: "start \<le> \<tau>" using "3.prems"(5) \<tau>(1) by simp
  have later: "accounted M l key pending start \<tau> n" using "3.prems"(1) \<tau>(1) by (rule accounted_later)
  have pend: "pending_ok start key \<tau> p pending" using "3.prems"(4) \<tau>(1) by (rule pending_later)
  show ?case
  proof (cases "k < length pending")
    case True
    let ?a = "pending ! k" and ?rest = "take k pending @ drop (k + 1) pending"
    have pc: "\<tau> \<le> at_time ?a + D" "paced D p key es ?rest (login_result ?a l)" using "3.prems"(3) True by simp_all
    have a: "start \<le> at_time ?a" "at_time ?a \<le> \<tau>" "wrong_for key ?a" and g: "guesses key pending \<le> p"
      using pend nth_mem [OF True] by (auto simp: pending_ok_def)
    have lim: "M + 1 = ll_max l + p" "ll_max l \<le> M" "0 < ll_max l" "0 < ll_window l" "ll_window l + D < ll_lockout l" "0 \<le> D"
      using pos "3.prems"(7-9) by simp_all
    define n' where "n' = (if at_key ?a = key then n + 1 else n)"
    have acc: "accounted M (login_result ?a l) key ?rest start \<tau> n'"
    proof (cases "at_key ?a = key")
      case k: True
      then have "\<not> at_valid ?a" using a(3) by (simp add: wrong_for_def)
      from fail_accounted [OF later True k this a(1,2) pc(1) g lim] k show ?thesis by (simp add: n'_def)
    next
      case False
      from accounted_other [OF later True False] False show ?thesis by (simp add: n'_def)
    qed
    have set: "ll_max (login_result ?a l) = m" "ll_window (login_result ?a l) = w" "ll_lockout (login_result ?a l) = lo"
      using "3.prems"(7-9) by simp_all
    have "n + guesses key (run_logins ((\<tau>, Answers k) # es) pending l) = n' + guesses key (run_logins es ?rest (login_result ?a l))"
      using True by (simp add: n'_def guesses_def)
    then show ?thesis
      using "3.IH"(1) [OF True acc \<tau>(3) pc(2) pending_take [OF pend True] s \<tau>(2) set] by simp
  next
    case False
    then have "paced D p key es pending l" using "3.prems"(3) by simp
    from "3.IH"(2) [OF False later \<tau>(3) this pend s \<tau>(2) "3.prems"(7-9)] False show ?thesis by simp
  qed
qed

text \<open>
  C38: However an attacker times and overlaps wrong passwords for one key, mixed with any traffic on
  other keys: if every attempt is answered within \<open>D\<close> and at most \<open>p\<close> attempts on the key are ever in
  flight, then no more than \<open>m + p - 1\<close> passwords are looked at per started window -- the \<open>m\<close> the limiter
  allows and the \<open>p - 1\<close> that were already past its check -- as long as the lockout outlasts the window
  and \<open>D\<close> (the code has 5, one minute and 15 minutes). The bound is reached (\<open>burst_slips_through\<close>): \<open>p\<close>
  is what the server lets run in parallel, which the code does not limit. A correct password for the key
  starts its count over and is excluded, and so is a restart of the process, which forgets the counts.
\<close>

theorem guesses_bounded:
  assumes "sorted (map fst es)" and "\<And>\<tau> e. (\<tau>, e) \<in> set es \<Longrightarrow> start \<le> \<tau> \<and> \<tau> \<le> start + T"
      and "\<And>\<tau> a. (\<tau>, Begins a) \<in> set es \<Longrightarrow> start \<le> at_time a \<and> (at_key a = key \<longrightarrow> \<not> at_valid a)"
      and "paced D p key es [] (NewLoginLimiter m window lockout)"
      and "0 < m" "0 < p" "0 < window" "0 \<le> D" "window + D < lockout" "0 \<le> T"
    shows "int (guesses key (run_logins es [] (NewLoginLimiter m window lockout))) \<le> int (m + p - 1) * (1 + T div window)"
proof -
  let ?l = "NewLoginLimiter m window lockout"
  have l: "ll_max ?l = m" "ll_window ?l = window" "ll_lockout ?l = lockout" by (simp_all add: NewLoginLimiter_def)
  have "accounted (m + p - 1) ?l key [] start start 0" by (simp add: accounted_def NewLoginLimiter_def)
  moreover have "login_events_ok start (start + T) key start es"
    using assms(1-3) unfolding login_events_ok_def wrong_for_def by blast
  ultimately show ?thesis
    using run_logins_accounted [of "m + p - 1" m p window D lockout ?l key "[]" start start 0 T es] assms(4-10)
    by (simp add: l pending_ok_def guesses_def)
qed

definition demo_try :: "int \<Rightarrow> attempt" where
  "demo_try i = \<lparr>at_key = ''192.0.2.9|a@b.c'', at_time = i * second, at_valid = False\<rparr>"

text \<open>Four failures one after the other, then four attempts at once: all eight passwords are looked at.\<close>

definition demo_burst :: "(instant \<times> login_event) list" where
  "demo_burst =
     concat (map (\<lambda>i. [(i * second, Begins (demo_try i)), (i * second, Answers 0)]) [1, 2, 3, 4]) @
     replicate 4 (5 * second, Begins (demo_try 5)) @ replicate 4 (6 * second, Answers 0) @
     [(7 * second, Begins (demo_try 7)), (8 * second, Answers 0)]"

lemma guesses_bounded_witness:
  "int (guesses ''192.0.2.9|a@b.c'' (run_logins demo_burst [] (NewLoginLimiter 5 minute (15 * minute))))
     \<le> int (5 + 4 - 1) * (1 + 8 * second div minute)"
proof (rule guesses_bounded [where start = 0 and D = second])
  show "paced second 4 ''192.0.2.9|a@b.c'' demo_burst [] (NewLoginLimiter 5 minute (15 * minute))" by code_simp
  show "sorted (map fst demo_burst)" by code_simp
  have b: "\<forall>(\<tau>, e) \<in> set demo_burst. 0 \<le> \<tau> \<and> \<tau> \<le> 0 + 8 * second \<and>
      (case e of Begins a \<Rightarrow> 0 \<le> at_time a \<and> \<not> at_valid a | Answers n \<Rightarrow> True)" by code_simp
  show "0 \<le> \<tau> \<and> \<tau> \<le> 0 + 8 * second" if "(\<tau>, e) \<in> set demo_burst" for \<tau> e using b that by fastforce
  show "0 \<le> at_time a \<and> (at_key a = ''192.0.2.9|a@b.c'' \<longrightarrow> \<not> at_valid a)" if "(\<tau>, Begins a) \<in> set demo_burst" for \<tau> a
    using b that by fastforce
qed (simp_all add: durations)

lemma burst_slips_through:
  "guesses ''192.0.2.9|a@b.c'' (run_logins demo_burst [] (NewLoginLimiter 5 minute (15 * minute))) = 5 + 4 - 1"
  by code_simp

text \<open>A library with the four parts of \<open>argon_sound\<close>: base64 as an escape of the dollar sign.\<close>

fun toy_escape :: "string \<Rightarrow> string" where
  "toy_escape [] = []"
| "toy_escape (c # s) =
     (if c = CHR ''$'' then ''!d'' else if c = CHR ''!'' then ''!e'' else [c]) @ toy_escape s"

fun toy_unescape :: "string \<Rightarrow> string" where
  "toy_unescape [] = []"
| "toy_unescape [c] = [c]"
| "toy_unescape (c # d # s) =
     (if c = CHR ''!'' then (if d = CHR ''d'' then CHR ''$'' else CHR ''!'') # toy_unescape s
      else c # toy_unescape (d # s))"

lemma toy_unescape_plain: "c \<noteq> CHR ''!'' \<Longrightarrow> toy_unescape (c # s) = c # toy_unescape s"
  by (cases s) auto

lemma toy_base64: "CHR ''$'' \<notin> set (toy_escape s) \<and> toy_unescape (toy_escape s) = s"
  by (induction s) (auto simp: toy_unescape_plain)

definition toy_argon :: argon_lib where
  "toy_argon =
     \<lparr>gl_idkey = (\<lambda>pw salt t m p n. take n (pw @ salt @ replicate n (CHR ''0''))),
      gl_b64 = toy_escape, gl_unb64 = Some \<circ> toy_unescape,
      gl_scan_version = (\<lambda>s. if s = version_field then Some argon2_version else None),
      gl_scan_params = (\<lambda>s. if s = params_field defaultArgon
                           then Some (gp_memory defaultArgon, gp_time defaultArgon, gp_threads defaultArgon) else None)\<rparr>"

lemma password_roundtrip_witness:
  "VerifyPassword toy_argon ''correct horse'' (HashPassword toy_argon ''$alt'' ''correct horse'') \<and>
   \<not> VerifyPassword toy_argon ''wrong'' (HashPassword toy_argon ''$alt'' ''correct horse'')"
proof -
  have "argon_sound toy_argon" by (auto simp: argon_sound_def toy_argon_def toy_base64)
  note r = password_roundtrip [OF this]
  show ?thesis unfolding r by (simp add: toy_argon_def)
qed

end
