(* ===== verification/Sessions.thy ===== *)
theory Sessions
  imports ZonesApi AdminAuth
begin

section \<open>Human callers: login, sessions and admin tokens\<close>

text \<open>
  \<open>brisk-control/internal/api/auth.go\<close> over the tables of \<open>store/auth.go\<close>: a caller is known by a bearer
  admin token or a session cookie; sessions begin with a password (\<open>login\<close>), roll over (\<open>refresh\<close>,
  \<open>changePassword\<close>) and end (\<open>logout\<close>, twelve hours). New secrets and the salt are inputs of the step
  that draws them, \<open>None\<close> when the random source fails. The process and the database read one clock.
  \<open>last_used_at\<close>, \<open>user_agent\<close> and the time stamps nobody reads back are left out.
\<close>

subsection \<open>Tables\<close>

record account =
  ac_id :: int
  ac_name :: string
  ac_role :: string
  ac_email :: "string option"
  ac_hash :: "string option"

record session_row =
  sn_hash :: string
  sn_csrf :: string
  sn_account :: int
  sn_expires :: instant

record token_row =
  tk_id :: int
  tk_account :: int
  tk_name :: string
  tk_prefix :: string
  tk_hash :: string
  tk_revoked :: bool

record auth_db =
  tb_accounts :: "account list"
  tb_sessions :: "session_row list"
  tb_tokens :: "token_row list"
  sq_token :: int

definition GetAccountByEmail :: "string \<Rightarrow> auth_db \<Rightarrow> store_error + account" where
  "GetAccountByEmail email db =
     (case find (\<lambda>a. ac_email a = Some email) (tb_accounts db) of None \<Rightarrow> Inl ErrNotFound | Some a \<Rightarrow> Inr a)"

definition GetAccountByID :: "int \<Rightarrow> auth_db \<Rightarrow> store_error + account" where
  "GetAccountByID i db = (case find (\<lambda>a. ac_id a = i) (tb_accounts db) of None \<Rightarrow> Inl ErrNotFound | Some a \<Rightarrow> Inr a)"

definition SetAccountCredentials :: "int \<Rightarrow> string option \<Rightarrow> string \<Rightarrow> auth_db \<Rightarrow> store_error + auth_db" where
  "SetAccountCredentials i email h db =
     (if \<not> list_ex (\<lambda>a. ac_id a = i) (tb_accounts db) then Inl ErrNotFound
      else if email \<noteq> None \<and> list_ex (\<lambda>a. ac_id a \<noteq> i \<and> ac_email a = email) (tb_accounts db) then Inl UniqueViolation
      else Inr (db\<lparr>tb_accounts := map (\<lambda>a. if ac_id a = i
                then a\<lparr>ac_email := (case email of Some e \<Rightarrow> Some e | None \<Rightarrow> ac_email a), ac_hash := Some h\<rparr> else a)
              (tb_accounts db)\<rparr>))"

definition CreateSession :: "string \<Rightarrow> string \<Rightarrow> int \<Rightarrow> instant \<Rightarrow> auth_db \<Rightarrow> store_error + auth_db" where
  "CreateSession h csrf account expires db =
     (if \<not> list_ex (\<lambda>a. ac_id a = account) (tb_accounts db) then Inl ForeignKeyViolation
      else if list_ex (\<lambda>s. sn_hash s = h) (tb_sessions db) then Inl UniqueViolation
      else Inr (db\<lparr>tb_sessions := tb_sessions db @
                 [\<lparr>sn_hash = h, sn_csrf = csrf, sn_account = account, sn_expires = expires\<rparr>]\<rparr>))"

text \<open>The session joined with the role of its account, only while \<open>expires_at > now()\<close>.\<close>

definition GetSession :: "instant \<Rightarrow> string \<Rightarrow> auth_db \<Rightarrow> store_error + session_row \<times> string" where
  "GetSession now h db =
     (case find (\<lambda>s. sn_hash s = h \<and> sn_expires s > now) (tb_sessions db) of
        None \<Rightarrow> Inl ErrNotFound
      | Some s \<Rightarrow> (case GetAccountByID (sn_account s) db of Inl e \<Rightarrow> Inl ErrNotFound | Inr a \<Rightarrow> Inr (s, ac_role a)))"

definition RotateSession :: "string \<Rightarrow> string \<Rightarrow> string \<Rightarrow> instant \<Rightarrow> auth_db \<Rightarrow> store_error + auth_db" where
  "RotateSession old new csrf expires db =
     (if \<not> list_ex (\<lambda>s. sn_hash s = old) (tb_sessions db) then Inl ErrNotFound
      else if new \<noteq> old \<and> list_ex (\<lambda>s. sn_hash s = new) (tb_sessions db) then Inl UniqueViolation
      else Inr (db\<lparr>tb_sessions := map (\<lambda>s. if sn_hash s = old
                 then s\<lparr>sn_hash := new, sn_csrf := csrf, sn_expires := expires\<rparr> else s) (tb_sessions db)\<rparr>))"

definition DeleteSession :: "string \<Rightarrow> auth_db \<Rightarrow> auth_db" where
  "DeleteSession h db = db\<lparr>tb_sessions := filter (\<lambda>s. sn_hash s \<noteq> h) (tb_sessions db)\<rparr>"

definition DeleteAccountSessions :: "int \<Rightarrow> auth_db \<Rightarrow> auth_db" where
  "DeleteAccountSessions account db = db\<lparr>tb_sessions := filter (\<lambda>s. sn_account s \<noteq> account) (tb_sessions db)\<rparr>"

definition CreateAdminToken :: "int \<Rightarrow> string \<Rightarrow> string \<Rightarrow> string \<Rightarrow> auth_db \<Rightarrow> store_error + int \<times> auth_db" where
  "CreateAdminToken account name pre h db =
     (if \<not> list_ex (\<lambda>a. ac_id a = account) (tb_accounts db) then Inl ForeignKeyViolation
      else Inr (sq_token db,
             db\<lparr>tb_tokens := tb_tokens db @
                 [\<lparr>tk_id = sq_token db, tk_account = account, tk_name = name, tk_prefix = pre, tk_hash = h, tk_revoked = False\<rparr>],
               sq_token := sq_token db + 1\<rparr>))"

text \<open>The candidates with the role of their account.\<close>

definition ActiveAdminTokensByPrefix :: "string \<Rightarrow> auth_db \<Rightarrow> (token_row \<times> string) list" where
  "ActiveAdminTokensByPrefix pre db =
     concat (map (\<lambda>t. case GetAccountByID (tk_account t) db of Inl e \<Rightarrow> [] | Inr a \<Rightarrow> [(t, ac_role a)])
       (filter (\<lambda>t. tk_prefix t = pre \<and> \<not> tk_revoked t) (tb_tokens db)))"

definition ListAdminTokens :: "int \<Rightarrow> auth_db \<Rightarrow> token_row list" where
  "ListAdminTokens account db = rev (sort_key tk_id (filter (\<lambda>t. tk_account t = account) (tb_tokens db)))"

definition own_token :: "int \<Rightarrow> int \<Rightarrow> bool \<Rightarrow> token_row \<Rightarrow> bool" where
  "own_token account i revoked t \<longleftrightarrow> tk_id t = i \<and> tk_account t = account \<and> tk_revoked t = revoked"

definition RevokeAdminToken :: "int \<Rightarrow> int \<Rightarrow> auth_db \<Rightarrow> store_error + auth_db" where
  "RevokeAdminToken account i db =
     (if \<not> list_ex (own_token account i False) (tb_tokens db) then Inl ErrNotFound
      else Inr (db\<lparr>tb_tokens := map (\<lambda>t. if own_token account i False t then t\<lparr>tk_revoked := True\<rparr> else t) (tb_tokens db)\<rparr>))"

definition DeleteAdminToken :: "int \<Rightarrow> int \<Rightarrow> auth_db \<Rightarrow> store_error + auth_db" where
  "DeleteAdminToken account i db =
     (if \<not> list_ex (own_token account i True) (tb_tokens db) then Inl ErrNotFound
      else Inr (db\<lparr>tb_tokens := filter (\<lambda>t. \<not> own_token account i True t) (tb_tokens db)\<rparr>))"

subsection \<open>Who is calling\<close>

record auth_lib =
  au_hash :: "string \<Rightarrow> string"
  au_argon :: argon_lib

text \<open>What the authentication reads of a request; \<open>hr_cookie\<close> is the session cookie, \<open>hr_csrf\<close> the header.\<close>

record http_request =
  hr_method :: string
  hr_authorization :: string
  hr_cookie :: "string option"
  hr_csrf :: string
  hr_ip :: string

definition sessionTTL :: duration where
  "sessionTTL = 12 * hour"

definition resolve_token :: "auth_lib \<Rightarrow> string \<Rightarrow> auth_db \<Rightarrow> identity option" where
  "resolve_token A tok db =
     (if \<not> IsAdminToken tok then None
      else (case find (\<lambda>(t, role). subtleEqual (tk_hash t) (au_hash A tok)) (ActiveAdminTokensByPrefix (AdminPrefix tok) db) of
              None \<Rightarrow> None
            | Some (t, role) \<Rightarrow> Some \<lparr>id_account = tk_account t, id_role = role, id_method = ''token''\<rparr>))"

definition resolve_cookie :: "auth_lib \<Rightarrow> instant \<Rightarrow> string option \<Rightarrow> auth_db \<Rightarrow> (identity \<times> string) option" where
  "resolve_cookie A now cookie db =
     (case cookie of
        None \<Rightarrow> None
      | Some v \<Rightarrow>
          if v = '''' then None
          else (case GetSession now (au_hash A v) db of
                  Inl e \<Rightarrow> None
                | Inr (s, role) \<Rightarrow> Some (\<lparr>id_account = sn_account s, id_role = role, id_method = ''session''\<rparr>, sn_csrf s)))"

definition resolveIdentity :: "auth_lib \<Rightarrow> instant \<Rightarrow> http_request \<Rightarrow> auth_db \<Rightarrow> (identity \<times> string) option" where
  "resolveIdentity A now r db =
     (if has_prefix (hr_authorization r) ''Bearer ''
      then map_option (\<lambda>c. (c, '''')) (resolve_token A (trim_prefix (hr_authorization r) ''Bearer '') db)
      else resolve_cookie A now (hr_cookie r) db)"

definition isStateChanging :: "string \<Rightarrow> bool" where
  "isStateChanging m \<longleftrightarrow> m \<in> {''POST'', ''PUT'', ''PATCH'', ''DELETE''}"

definition requireAuth :: "auth_lib \<Rightarrow> instant \<Rightarrow> http_request \<Rightarrow> auth_db \<Rightarrow> answer + identity" where
  "requireAuth A now r db =
     (case resolveIdentity A now r db of
        None \<Rightarrow> Inl (fail 401 ''unauthorized'')
      | Some (c, csrf) \<Rightarrow>
          if id_method c = ''session'' \<and> isStateChanging (hr_method r) \<and>
             (hr_csrf r = '''' \<or> \<not> subtleEqual (au_hash A (hr_csrf r)) csrf)
          then Inl (fail 403 ''csrf token missing or invalid'')
          else Inr c)"

definition requireAdmin :: "identity \<Rightarrow> answer option" where
  "requireAdmin c = (if RequireAdmin c then None else Some (fail 403 ''forbidden''))"

subsection \<open>The handlers\<close>

datatype cookies = KeepCookies | SetCookies string string instant | ClearCookies

record auth_reply =
  ar_status :: int
  ar_cookies :: cookies
  ar_token :: "string option"

definition reply :: "int \<Rightarrow> auth_reply" where
  "reply s = \<lparr>ar_status = s, ar_cookies = KeepCookies, ar_token = None\<rparr>"

record auth_state =
  as_limiter :: limiter
  as_db :: auth_db

text \<open>A fresh session id and CSRF token.\<close>

type_synonym fresh = "(string \<times> string) option"

definition establishSession :: "auth_lib \<Rightarrow> instant \<Rightarrow> fresh \<Rightarrow> int \<Rightarrow> auth_db \<Rightarrow> (cookies \<times> auth_db) option" where
  "establishSession A now fresh account db =
     (case fresh of
        None \<Rightarrow> None
      | Some (i, csrf) \<Rightarrow>
          (case CreateSession (au_hash A i) (au_hash A csrf) account (now + sessionTTL) db of
             Inl e \<Rightarrow> None
           | Inr d \<Rightarrow> Some (SetCookies i csrf (now + sessionTTL), d)))"

definition login_email :: "string \<Rightarrow> string" where
  "login_email e = to_lower (trim_space e)"

definition valid_login :: "auth_lib \<Rightarrow> string \<times> string \<Rightarrow> auth_db \<Rightarrow> account option" where
  "valid_login A inp db =
     (case GetAccountByEmail (login_email (fst inp)) db of
        Inl e \<Rightarrow> None
      | Inr a \<Rightarrow> (case ac_hash a of
                   None \<Rightarrow> None
                 | Some h \<Rightarrow> if VerifyPassword (au_argon A) (snd inp) h then Some a else None))"

definition login ::
  "auth_lib \<Rightarrow> instant \<Rightarrow> http_request \<Rightarrow> (string \<times> string) option \<Rightarrow> fresh \<Rightarrow> auth_state \<Rightarrow> auth_reply \<times> auth_state" where
  "login A now r inp fresh st =
     (case inp of
        None \<Rightarrow> (reply 400, st)
      | Some i \<Rightarrow>
          (let key = hr_ip r @ ''|'' @ login_email (fst i) in
           if \<not> limiter_Allowed (as_limiter st) key now then (reply 429, st)
           else (case valid_login A i (as_db st) of
                   None \<Rightarrow> (reply 401, st\<lparr>as_limiter := snd (limiter_Fail (as_limiter st) key now)\<rparr>)
                 | Some a \<Rightarrow>
                     (let st = st\<lparr>as_limiter := limiter_Reset (as_limiter st) key\<rparr> in
                      case establishSession A now fresh (ac_id a) (as_db st) of
                        None \<Rightarrow> (reply 500, st)
                      | Some (ck, d) \<Rightarrow> ((reply 200)\<lparr>ar_cookies := ck\<rparr>, st\<lparr>as_db := d\<rparr>)))))"

definition logout :: "auth_lib \<Rightarrow> http_request \<Rightarrow> auth_db \<Rightarrow> auth_reply \<times> auth_db" where
  "logout A r db =
     ((reply 200)\<lparr>ar_cookies := ClearCookies\<rparr>,
      case hr_cookie r of None \<Rightarrow> db | Some v \<Rightarrow> if v = '''' then db else DeleteSession (au_hash A v) db)"

definition refresh :: "auth_lib \<Rightarrow> instant \<Rightarrow> http_request \<Rightarrow> fresh \<Rightarrow> auth_db \<Rightarrow> auth_reply \<times> auth_db" where
  "refresh A now r fresh db =
     (case hr_cookie r of
        None \<Rightarrow> (reply 401, db)
      | Some v \<Rightarrow>
          if v = '''' then (reply 401, db)
          else (case fresh of
                  None \<Rightarrow> (reply 500, db)
                | Some (i, csrf) \<Rightarrow>
                    (case RotateSession (au_hash A v) (au_hash A i) (au_hash A csrf) (now + sessionTTL) db of
                       Inl e \<Rightarrow> (reply 401, db)
                     | Inr d \<Rightarrow> ((reply 200)\<lparr>ar_cookies := SetCookies i csrf (now + sessionTTL)\<rparr>, d))))"

definition changePassword ::
  "auth_lib \<Rightarrow> instant \<Rightarrow> identity \<Rightarrow> (string \<times> string) option \<Rightarrow> string option \<Rightarrow> fresh \<Rightarrow> auth_db \<Rightarrow> auth_reply \<times> auth_db" where
  "changePassword A now c inp salt fresh db =
     (case inp of
        None \<Rightarrow> (reply 400, db)
      | Some (current, new) \<Rightarrow>
          if length new < 10 then (reply 400, db)
          else (case GetAccountByID (id_account c) db of
                  Inl e \<Rightarrow> (reply 500, db)
                | Inr a \<Rightarrow>
                    if (case ac_hash a of None \<Rightarrow> True | Some h \<Rightarrow> \<not> VerifyPassword (au_argon A) current h) then (reply 401, db)
                    else (case salt of
                            None \<Rightarrow> (reply 500, db)
                          | Some s \<Rightarrow>
                              (case SetAccountCredentials (ac_id a) None (HashPassword (au_argon A) s new) db of
                                 Inl e \<Rightarrow> (reply 500, db)
                               | Inr d \<Rightarrow>
                                   (let d = DeleteAccountSessions (ac_id a) d in
                                    case establishSession A now fresh (ac_id a) d of
                                      None \<Rightarrow> (reply 200, d)
                                    | Some (ck, d) \<Rightarrow> ((reply 200)\<lparr>ar_cookies := ck\<rparr>, d))))))"

definition createAdminToken :: "auth_lib \<Rightarrow> identity \<Rightarrow> string \<Rightarrow> string option \<Rightarrow> auth_db \<Rightarrow> auth_reply \<times> auth_db" where
  "createAdminToken A c name random db =
     (case random of
        None \<Rightarrow> (reply 500, db)
      | Some x \<Rightarrow>
          (let tok = NewAdminToken x in
           case CreateAdminToken (id_account c) (trim_space name) (AdminPrefix tok) (au_hash A tok) db of
             Inl e \<Rightarrow> (reply 500, db)
           | Inr (i, d) \<Rightarrow> ((reply 201)\<lparr>ar_token := Some tok\<rparr>, d)))"

definition revokeAdminToken :: "identity \<Rightarrow> string \<Rightarrow> auth_db \<Rightarrow> auth_reply \<times> auth_db" where
  "revokeAdminToken c path db =
     (case idParam ''id'' path of
        Inl a \<Rightarrow> (reply 400, db)
      | Inr i \<Rightarrow> (case RevokeAdminToken (id_account c) i db of
                   Inl e \<Rightarrow> (reply (if e = ErrNotFound then 404 else 500), db)
                 | Inr d \<Rightarrow> (reply 200, d)))"

definition deleteAdminToken :: "identity \<Rightarrow> string \<Rightarrow> auth_db \<Rightarrow> auth_reply \<times> auth_db" where
  "deleteAdminToken c path db =
     (case idParam ''id'' path of
        Inl a \<Rightarrow> (reply 400, db)
      | Inr i \<Rightarrow> (case DeleteAdminToken (id_account c) i db of
                   Inl e \<Rightarrow> (reply (if e = ErrNotFound then 404 else 500), db)
                 | Inr d \<Rightarrow> (reply 200, d)))"

subsection \<open>Runs\<close>

datatype auth_call =
    CallLogin "(string \<times> string) option" fresh
  | CallLogout
  | CallRefresh fresh
  | CallPassword "(string \<times> string) option" "string option" fresh
  | CallCreateToken string "string option"
  | CallRevokeToken string
  | CallDeleteToken string

primrec call_method :: "auth_call \<Rightarrow> string" where
  "call_method (CallLogin i f) = ''POST''"
| "call_method CallLogout = ''POST''"
| "call_method (CallRefresh f) = ''POST''"
| "call_method (CallPassword i s f) = ''POST''"
| "call_method (CallCreateToken n x) = ''POST''"
| "call_method (CallRevokeToken p) = ''DELETE''"
| "call_method (CallDeleteToken p) = ''DELETE''"

definition on_db :: "auth_state \<Rightarrow> auth_reply \<times> auth_db \<Rightarrow> auth_reply \<times> auth_state" where
  "on_db st q = (fst q, st\<lparr>as_db := snd q\<rparr>)"

text \<open>The routes behind \<open>requireAuth\<close>.\<close>

primrec authed_call :: "auth_lib \<Rightarrow> instant \<Rightarrow> http_request \<Rightarrow> identity \<Rightarrow> auth_call \<Rightarrow> auth_db \<Rightarrow> auth_reply \<times> auth_db" where
  "authed_call A now r c (CallLogin i f) db = (reply 404, db)"
| "authed_call A now r c CallLogout db = (reply 404, db)"
| "authed_call A now r c (CallRefresh f) db = refresh A now r f db"
| "authed_call A now r c (CallPassword i s f) db = changePassword A now c i s f db"
| "authed_call A now r c (CallCreateToken n x) db = createAdminToken A c n x db"
| "authed_call A now r c (CallRevokeToken p) db = revokeAdminToken c p db"
| "authed_call A now r c (CallDeleteToken p) db = deleteAdminToken c p db"

definition auth_step :: "auth_lib \<Rightarrow> instant \<times> http_request \<times> auth_call \<Rightarrow> auth_state \<Rightarrow> auth_reply \<times> auth_state" where
  "auth_step A e st =
     (case e of (now, r, call) \<Rightarrow>
        (case call of
           CallLogin i f \<Rightarrow> login A now r i f st
         | CallLogout \<Rightarrow> on_db st (logout A r (as_db st))
         | _ \<Rightarrow> (case requireAuth A now (r\<lparr>hr_method := call_method call\<rparr>) (as_db st) of
                  Inl a \<Rightarrow> (reply (fst a), st)
                | Inr c \<Rightarrow> on_db st (authed_call A now r c call (as_db st)))))"

primrec auth_run :: "auth_lib \<Rightarrow> auth_state \<Rightarrow> (instant \<times> http_request \<times> auth_call) list \<Rightarrow> auth_reply list \<times> auth_state" where
  "auth_run A st [] = ([], st)"
| "auth_run A st (e # es) =
     (let (q, st') = auth_step A e st; (qs, st'') = auth_run A st' es in (q # qs, st''))"

subsection \<open>Access begins with a password\<close>

text \<open>The accounts that hold a session or a token, and the accounts a step proves the password of.\<close>

definition holders :: "auth_db \<Rightarrow> int set" where
  "holders db = sn_account ` set (tb_sessions db) \<union> tk_account ` set (tb_tokens db)"

definition proves :: "auth_lib \<Rightarrow> instant \<times> http_request \<times> auth_call \<Rightarrow> auth_state \<Rightarrow> int list" where
  "proves A e st =
     (case e of (now, r, call) \<Rightarrow>
        (case call of
           CallLogin (Some i) f \<Rightarrow>
             (if limiter_Allowed (as_limiter st) (hr_ip r @ ''|'' @ login_email (fst i)) now
              then (case valid_login A i (as_db st) of None \<Rightarrow> [] | Some a \<Rightarrow> [ac_id a]) else [])
         | _ \<Rightarrow> []))"

primrec proven :: "auth_lib \<Rightarrow> auth_state \<Rightarrow> (instant \<times> http_request \<times> auth_call) list \<Rightarrow> int list" where
  "proven A st [] = []"
| "proven A st (e # es) = proves A e st @ proven A (snd (auth_step A e st)) es"

text \<open>What a step's reply hands out: a session, a token.\<close>

definition hands_session :: "auth_lib \<Rightarrow> instant \<Rightarrow> auth_reply \<Rightarrow> session_row \<Rightarrow> bool" where
  "hands_session A now q s \<longleftrightarrow>
     (\<exists>i csrf. ar_cookies q = SetCookies i csrf (now + sessionTTL) \<and> sn_hash s = au_hash A i \<and>
               sn_csrf s = au_hash A csrf \<and> sn_expires s = now + sessionTTL)"

definition hands_token :: "auth_lib \<Rightarrow> auth_reply \<Rightarrow> token_row \<Rightarrow> bool" where
  "hands_token A q t \<longleftrightarrow> (\<exists>tok. ar_token q = Some tok \<and> tk_hash t = au_hash A tok)"

lemma CreateSession_rows:
  "CreateSession h cs a x db = Inr d \<Longrightarrow>
   tb_sessions d = tb_sessions db @ [\<lparr>sn_hash = h, sn_csrf = cs, sn_account = a, sn_expires = x\<rparr>] \<and>
   tb_tokens d = tb_tokens db \<and> tb_accounts d = tb_accounts db"
  by (auto simp: CreateSession_def split: if_splits)

lemma establish_rows:
  assumes "establishSession A now f a db = Some (ck, d)"
  shows "\<exists>i csrf. f = Some (i, csrf) \<and> ck = SetCookies i csrf (now + sessionTTL) \<and> tb_tokens d = tb_tokens db \<and>
    tb_accounts d = tb_accounts db \<and>
    tb_sessions d = tb_sessions db @ [\<lparr>sn_hash = au_hash A i, sn_csrf = au_hash A csrf, sn_account = a, sn_expires = now + sessionTTL\<rparr>]"
  using assms by (auto simp: establishSession_def split: option.splits sum.splits dest: CreateSession_rows)

lemma resolve_holder:
  assumes "resolveIdentity A now r db = Some (c, csrf)" shows "id_account c \<in> holders db"
proof (cases "has_prefix (hr_authorization r) ''Bearer ''")
  case True
  then obtain t role where t: "find (\<lambda>(t, role). subtleEqual (tk_hash t) (au_hash A (trim_prefix (hr_authorization r) ''Bearer '')))
      (ActiveAdminTokensByPrefix (AdminPrefix (trim_prefix (hr_authorization r) ''Bearer '')) db) = Some (t, role)"
    and c: "id_account c = tk_account t"
    using assms by (auto simp: resolveIdentity_def resolve_token_def split: if_splits option.splits)
  have "t \<in> set (tb_tokens db)"
    using t by (auto simp: find_Some_iff ActiveAdminTokensByPrefix_def dest!: nth_mem split: sum.splits)
  then show ?thesis by (simp add: holders_def c)
next
  case False
  then show ?thesis using assms
    by (auto simp: resolveIdentity_def resolve_cookie_def GetSession_def holders_def find_Some_iff
        split: option.splits if_splits sum.splits)
qed

lemma requireAuth_resolves: "requireAuth A now r db = Inr c \<Longrightarrow> \<exists>h. resolveIdentity A now r db = Some (c, h)"
  by (auto simp: requireAuth_def split: option.splits if_splits)

text \<open>
  How a step on behalf of the accounts \<open>B\<close> changes the rows: a session stays or is handed out by the
  reply, and a token stays as it is, gets revoked, or is handed out.
\<close>

definition same_token :: "token_row \<Rightarrow> token_row \<Rightarrow> bool" where
  "same_token t t' \<longleftrightarrow> tk_hash t' = tk_hash t \<and> tk_account t' = tk_account t \<and> (tk_revoked t \<longrightarrow> tk_revoked t')"

definition grows :: "auth_lib \<Rightarrow> instant \<Rightarrow> auth_reply \<Rightarrow> int set \<Rightarrow> auth_db \<Rightarrow> auth_db \<Rightarrow> bool" where
  "grows A now q B db d \<longleftrightarrow>
     (\<forall>s \<in> set (tb_sessions d). s \<in> set (tb_sessions db) \<or>
        hands_session A now q s \<and> sn_account s \<in> B \<union> holders db) \<and>
     (\<forall>t \<in> set (tb_tokens d). (\<exists>t0 \<in> set (tb_tokens db). same_token t0 t) \<or>
        hands_token A q t \<and> tk_account t \<in> B)"

lemma same_token_refl [simp]: "same_token t t"
  by (simp add: same_token_def)

lemma token_kept [simp]: "t \<in> set ts \<Longrightarrow> \<exists>t0 \<in> set ts. same_token t0 t"
  by (rule bexI [of _ t]) simp_all



lemma token_lost: "\<forall>t0 \<in> set ts. \<not> same_token t0 t \<Longrightarrow> t \<notin> set ts"
  using token_kept by blast

lemma grows_refl [simp]: "grows A now q B db db"
  by (auto simp: grows_def)

lemma grows_shrunk:
  assumes "set (tb_sessions d) \<subseteq> set (tb_sessions db)" "tb_tokens d = tb_tokens db" shows "grows A now q B db d"
  using assms by (auto simp: grows_def)

lemma grows_mapped:
  assumes "tb_sessions d = tb_sessions db" "tb_tokens d = map f (tb_tokens db)" "\<And>t. same_token t (f t)"
  shows "grows A now q B db d"
  using assms by (auto simp: grows_def)

lemma revoked_rows:
  "tb_tokens d = map (\<lambda>t. if own_token a i False t then t\<lparr>tk_revoked := True\<rparr> else t) ts \<Longrightarrow> 
   tb_tokens d = map (\<lambda>t. t\<lparr>tk_revoked := own_token a i False t \<or> tk_revoked t\<rparr>) ts"
  by auto

lemma login_grows:
  assumes "login A now r i f st = (q, st')"
  shows "grows A now q (set (proves A (now, r, CallLogin i f) st)) (as_db st) (as_db st')"
proof (cases "as_db st' = as_db st")
  case False
  then obtain x a ck d where x: "i = Some x" "limiter_Allowed (as_limiter st) (hr_ip r @ ''|'' @ login_email (fst x)) now"
      "valid_login A x (as_db st) = Some a" "establishSession A now f (ac_id a) (as_db st) = Some (ck, d)"
      "as_db st' = d" "ar_cookies q = ck"
    using assms by (auto simp: login_def Let_def split: option.splits if_splits)
  show ?thesis using establish_rows [OF x(4)] x
    by (auto simp: grows_def proves_def hands_session_def)
qed simp

lemma logout_grows: "logout A r db = (q, d) \<Longrightarrow> grows A now q B db d"
  by (auto simp: logout_def DeleteSession_def intro!: grows_shrunk split: option.splits if_splits)

lemma refresh_grows:
  assumes "refresh A now r f db = (q, d)" shows "grows A now q B db d"
proof (cases "d = db")
  case False
  then obtain v i csrf where "RotateSession (au_hash A v) (au_hash A i) (au_hash A csrf) (now + sessionTTL) db = Inr d"
      "ar_cookies q = SetCookies i csrf (now + sessionTTL)"
    using assms by (auto simp: refresh_def split: option.splits if_splits sum.splits)
  then show ?thesis
    by (auto simp: RotateSession_def grows_def hands_session_def holders_def split: if_splits)
qed simp

lemma changePassword_grows:
  assumes "changePassword A now c i salt f db = (q, d)" shows "grows A now q {id_account c} db d"
proof (cases "d = db")
  case False
  then obtain a h d1 where a: "GetAccountByID (id_account c) db = Inr a" and d1: "SetAccountCredentials (ac_id a) None h db = Inr d1"
    and q: "(case establishSession A now f (ac_id a) (DeleteAccountSessions (ac_id a) d1) of
              None \<Rightarrow> (reply 200, DeleteAccountSessions (ac_id a) d1)
            | Some (ck, d) \<Rightarrow> ((reply 200)\<lparr>ar_cookies := ck\<rparr>, d)) = (q, d)"
    using assms by (auto simp: changePassword_def Let_def split: option.splits if_splits sum.splits prod.splits)
  have ac: "ac_id a = id_account c" using a by (auto simp: GetAccountByID_def find_Some_iff split: option.splits)
  have rows: "tb_sessions d1 = tb_sessions db" "tb_tokens d1 = tb_tokens db"
    using d1 by (auto simp: SetAccountCredentials_def split: if_splits)
  show ?thesis
  proof (cases "establishSession A now f (ac_id a) (DeleteAccountSessions (ac_id a) d1)")
    case None
    then show ?thesis using q rows by (auto simp: DeleteAccountSessions_def intro!: grows_shrunk)
  next
    case (Some p)
    obtain ck d2 where p: "p = (ck, d2)" by fastforce
    show ?thesis using q rows ac Some establish_rows [of A now f "ac_id a" "DeleteAccountSessions (ac_id a) d1" ck d2]
      by (auto simp: p DeleteAccountSessions_def grows_def hands_session_def)
  qed
qed simp

lemma token_calls_grow:
  "createAdminToken A c n x db = (q, d) \<Longrightarrow> grows A now q {id_account c} db d"
  "revokeAdminToken c p db = (q, d) \<Longrightarrow> grows A now q B db d"
  "deleteAdminToken c p db = (q, d) \<Longrightarrow> grows A now q B db d"
proof -
  show "createAdminToken A c n x db = (q, d) \<Longrightarrow> grows A now q {id_account c} db d"
    by (auto simp: createAdminToken_def CreateAdminToken_def Let_def grows_def hands_token_def
        split: option.splits sum.splits if_splits dest: token_lost)
  show "revokeAdminToken c p db = (q, d) \<Longrightarrow> grows A now q B db d"
    by (auto simp: revokeAdminToken_def RevokeAdminToken_def same_token_def intro!: grows_mapped [OF _ revoked_rows]
        split: sum.splits if_splits)
  show "deleteAdminToken c p db = (q, d) \<Longrightarrow> grows A now q B db d"
    by (auto simp: deleteAdminToken_def DeleteAdminToken_def grows_def
        split: sum.splits if_splits)
qed

lemma authed_grows:
  assumes "authed_call A now r c call db = (q, d)" shows "grows A now q {id_account c} db d"
  using assms by (cases call) (auto intro: refresh_grows changePassword_grows token_calls_grow)

lemma grows_mono: "grows A now q B db d \<Longrightarrow> B \<subseteq> C \<Longrightarrow> grows A now q C db d"
  unfolding grows_def by blast

lemma step_grows:
  assumes "auth_step A (now, r, call) st = (q, st')"
  shows "grows A now q (set (proves A (now, r, call) st) \<union> holders (as_db st)) (as_db st) (as_db st')"
proof -
  consider (login) i f where "call = CallLogin i f" | (logout) "call = CallLogout"
    | (authed) "\<nexists>i f. call = CallLogin i f" "call \<noteq> CallLogout"
    by blast
  then show ?thesis
  proof cases
    case login
    then have "grows A now q (set (proves A (now, r, call) st)) (as_db st) (as_db st')"
      using assms login_grows by (simp add: auth_step_def)
    then show ?thesis by (rule grows_mono) simp
  next
    case logout
    then show ?thesis using assms logout_grows [of A r "as_db st" q "as_db st'"]
      by (auto simp: auth_step_def on_db_def)
  next
    case authed
    let ?r = "r\<lparr>hr_method := call_method call\<rparr>"
    have step: "(case requireAuth A now ?r (as_db st) of
              Inl a \<Rightarrow> (reply (fst a), st) | Inr c \<Rightarrow> on_db st (authed_call A now r c call (as_db st))) = (q, st')"
      using assms authed by (cases call) (auto simp: auth_step_def)
    show ?thesis
    proof (cases "requireAuth A now ?r (as_db st)")
      case (Inl a)
      then show ?thesis using step by auto
    next
      case (Inr c)
      obtain q' d where a: "authed_call A now r c call (as_db st) = (q', d)" by fastforce
      have "grows A now q' (set (proves A (now, r, call) st) \<union> holders (as_db st)) (as_db st) d"
        using authed_grows [OF a] requireAuth_resolves [OF Inr] resolve_holder by (auto elim!: grows_mono)
      then show ?thesis using step Inr a by (auto simp: on_db_def)
    qed
  qed
qed

lemma step_holders:
  assumes "auth_step A (now, r, call) st = (q, st')"
  shows "holders (as_db st') \<subseteq> set (proves A (now, r, call) st) \<union> holders (as_db st)"
  using step_grows [OF assms] unfolding grows_def holders_def same_token_def by fastforce

lemma run_holders:
  "auth_run A st es = (qs, st') \<Longrightarrow> holders (as_db st') \<subseteq> set (proven A st es) \<union> holders (as_db st)"
proof (induction es arbitrary: st qs)
  case (Cons e es)
  obtain now r call q st1 where e: "e = (now, r, call)" "auth_step A e st = (q, st1)" by (metis prod_cases3 surj_pair)
  obtain qs1 where run: "auth_run A st1 es = (qs1, st')" using Cons.prems e(2) by (auto split: prod.splits)
  show ?case using Cons.IH [OF run] step_holders [of A now r call st q st1] e by auto
qed simp

text \<open>Which reply of a run handed out a row that was not there at the start.\<close>

lemma run_sessions:
  assumes "auth_run A st es = (qs, st')" "s \<in> set (tb_sessions (as_db st'))" "s \<notin> set (tb_sessions (as_db st))"
  shows "\<exists>e q. (e, q) \<in> set (zip es qs) \<and> hands_session A (fst e) q s"
  using assms
proof (induction es arbitrary: st qs)
  case (Cons e es)
  obtain now r call q st1 where e: "e = (now, r, call)" "auth_step A e st = (q, st1)" by (metis prod_cases3 surj_pair)
  obtain qs1 where run: "auth_run A st1 es = (qs1, st')" "qs = q # qs1"
    using Cons.prems(1) e(2) by (auto split: prod.splits)
  show ?case
  proof (cases "s \<in> set (tb_sessions (as_db st1))")
    case True
    then have "hands_session A now q s"
      using step_grows [of A now r call st q st1] e Cons.prems(3) by (auto simp: grows_def)
    then show ?thesis using run(2) e(1) by fastforce
  next
    case False
    show ?thesis using Cons.IH [OF run(1) Cons.prems(2) False] run(2) by auto
  qed
qed simp

lemma run_tokens:
  assumes "auth_run A st es = (qs, st')" "t \<in> set (tb_tokens (as_db st'))"
  shows "(\<exists>t0 \<in> set (tb_tokens (as_db st)). same_token t0 t) \<or> (\<exists>q \<in> set qs. hands_token A q t)"
  using assms
proof (induction es arbitrary: st qs)
  case (Cons e es)
  obtain now r call q st1 where e: "e = (now, r, call)" "auth_step A e st = (q, st1)" by (metis prod_cases3 surj_pair)
  obtain qs1 where run: "auth_run A st1 es = (qs1, st')" "qs = q # qs1"
    using Cons.prems(1) e(2) by (auto split: prod.splits)
  consider t1 where "t1 \<in> set (tb_tokens (as_db st1))" "same_token t1 t" | "\<exists>q \<in> set qs1. hands_token A q t"
    using Cons.IH [OF run(1) Cons.prems(2)] by blast
  then show ?case
  proof cases
    case 1
    then have "(\<exists>t0 \<in> set (tb_tokens (as_db st)). same_token t0 t1) \<or> hands_token A q t1"
      using step_grows [of A now r call st q st1] e by (auto simp: grows_def)
    then show ?thesis using 1(2) run(2) by (auto simp: same_token_def hands_token_def)
  qed (simp add: run(2))
qed (auto dest: token_lost)


text \<open>What an accepted request presented.\<close>

lemma token_candidates: "(t, role) \<in> set (ActiveAdminTokensByPrefix p db) \<Longrightarrow> t \<in> set (tb_tokens db) \<and> \<not> tk_revoked t"
  by (auto simp: ActiveAdminTokensByPrefix_def split: sum.splits)

lemma presented_token:
  assumes "requireAuth A now r db = Inr c" "has_prefix (hr_authorization r) ''Bearer ''"
  shows "\<exists>t \<in> set (tb_tokens db). \<not> tk_revoked t \<and> id_account c = tk_account t \<and> id_method c = ''token'' \<and>
    tk_hash t = au_hash A (trim_prefix (hr_authorization r) ''Bearer '')"
proof -
  let ?tok = "trim_prefix (hr_authorization r) ''Bearer ''"
  let ?P = "\<lambda>(t, role). subtleEqual (tk_hash t) (au_hash A ?tok)"
  obtain t role where "find ?P (ActiveAdminTokensByPrefix (AdminPrefix ?tok) db) = Some (t, role)"
      and c: "id_account c = tk_account t" "id_method c = ''token''"
    using assms by (auto simp: requireAuth_def resolveIdentity_def resolve_token_def split: if_splits option.splits)
  then have "(t, role) \<in> set (ActiveAdminTokensByPrefix (AdminPrefix ?tok) db)" "subtleEqual (tk_hash t) (au_hash A ?tok)"
    by (auto simp: find_Some_iff dest: nth_mem)
  then show ?thesis using token_candidates [of t role] c by (auto simp: subtleEqual_eq)
qed

lemma presented_session:
  assumes "requireAuth A now r db = Inr c" "\<not> has_prefix (hr_authorization r) ''Bearer ''"
  shows "\<exists>v. \<exists>s \<in> set (tb_sessions db). hr_cookie r = Some v \<and> sn_hash s = au_hash A v \<and> now < sn_expires s \<and>
    id_account c = sn_account s \<and> id_method c = ''session'' \<and>
    (isStateChanging (hr_method r) \<longrightarrow> sn_csrf s = au_hash A (hr_csrf r))"
proof -
  obtain csrf where id: "resolve_cookie A now (hr_cookie r) db = Some (c, csrf)"
      and guard: "id_method c = ''session'' \<Longrightarrow> isStateChanging (hr_method r) \<Longrightarrow> au_hash A (hr_csrf r) = csrf"
    using assms by (auto simp: requireAuth_def resolveIdentity_def subtleEqual_eq split: if_splits option.splits)
  from id obtain v s where "hr_cookie r = Some v"
      "find (\<lambda>s. sn_hash s = au_hash A v \<and> sn_expires s > now) (tb_sessions db) = Some s"
      "id_account c = sn_account s" "id_method c = ''session''" "csrf = sn_csrf s"
    by (auto simp: resolve_cookie_def GetSession_def split: option.splits if_splits sum.splits)
  then show ?thesis using guard by (auto simp: find_Some_iff intro!: bexI [of _ s])
qed


text \<open>
  C10: a request is let through only with a secret this API handed out. From a database with no session
  and no token, after any run of login, logout, refresh, password change and token calls, a request that
  \<open>requireAuth\<close> accepts acts for an account whose password some login of the run proved; with a bearer
  header, the bearer hashes like a token a reply showed; without one, its cookie hashes like a session id
  a reply set less than twelve hours before, and a state-changing request also carries a CSRF token that
  hashes like the one set with it.
\<close>

theorem only_issued_secrets_open:
  assumes "auth_run A st es = (qs, st')" "tb_sessions (as_db st) = []" "tb_tokens (as_db st) = []"
    and "requireAuth A now r (as_db st') = Inr c"
  shows "id_account c \<in> set (proven A st es) \<and>
    (if has_prefix (hr_authorization r) ''Bearer ''
     then id_method c = ''token'' \<and>
       (\<exists>q \<in> set qs. \<exists>tok. ar_token q = Some tok \<and>
          au_hash A (trim_prefix (hr_authorization r) ''Bearer '') = au_hash A tok)
     else id_method c = ''session'' \<and>
       (\<exists>(e, q) \<in> set (zip es qs). \<exists>v i csrf. hr_cookie r = Some v \<and>
          ar_cookies q = SetCookies i csrf (fst e + sessionTTL) \<and> au_hash A v = au_hash A i \<and>
          now < fst e + sessionTTL \<and>
          (isStateChanging (hr_method r) \<longrightarrow> au_hash A (hr_csrf r) = au_hash A csrf)))"
proof -
  have "id_account c \<in> holders (as_db st')"
    using requireAuth_resolves [OF assms(4)] resolve_holder by blast
  then have acc: "id_account c \<in> set (proven A st es)"
    using run_holders [OF assms(1)] assms(2,3) by (auto simp: holders_def)
  show ?thesis
  proof (cases "has_prefix (hr_authorization r) ''Bearer ''")
    case True
    obtain t where t: "t \<in> set (tb_tokens (as_db st'))" "id_method c = ''token''"
        "tk_hash t = au_hash A (trim_prefix (hr_authorization r) ''Bearer '')"
      using presented_token [OF assms(4) True] by blast
    then show ?thesis using run_tokens [OF assms(1) t(1)] assms(3) acc True by (auto simp: hands_token_def)
  next
    case False
    obtain v s where s: "s \<in> set (tb_sessions (as_db st'))" "hr_cookie r = Some v" "sn_hash s = au_hash A v"
        "now < sn_expires s" "id_method c = ''session''"
        "isStateChanging (hr_method r) \<longrightarrow> sn_csrf s = au_hash A (hr_csrf r)"
      using presented_session [OF assms(4) False] by blast
    then obtain e q where "(e, q) \<in> set (zip es qs)" "hands_session A (fst e) q s"
      using run_sessions [OF assms(1) s(1)] assms(2) by auto
    then show ?thesis using s acc False by (auto simp: hands_session_def intro!: bexI [of _ "(e, q)"])
  qed
qed

definition demo_auth :: auth_lib where
  "demo_auth = \<lparr>au_hash = (\<lambda>s. CHR ''h'' # s),
     au_argon = \<lparr>gl_idkey = (\<lambda>pw salt t m p n. pw), gl_b64 = toy_escape, gl_unb64 = Some \<circ> toy_unescape,
       gl_scan_version = (\<lambda>s. Some argon2_version), gl_scan_params = (\<lambda>s. Some (1, 1, 1))\<rparr>\<rparr>"

definition demo_account :: account where
  "demo_account = \<lparr>ac_id = 1, ac_name = ''ops'', ac_role = ''admin'', ac_email = Some ''a@x'',
     ac_hash = Some ''$argon2id$v$p$s$pw''\<rparr>"

definition demo_auth_state :: auth_state where
  "demo_auth_state = \<lparr>as_limiter = NewLoginLimiter 5 minute minute,
     as_db = \<lparr>tb_accounts = [demo_account], tb_sessions = [], tb_tokens = [], sq_token = 1\<rparr>\<rparr>"

definition demo_request :: "string option \<Rightarrow> string \<Rightarrow> http_request" where
  "demo_request ck csrf = \<lparr>hr_method = ''POST'', hr_authorization = '''', hr_cookie = ck, hr_csrf = csrf, hr_ip = ''ip''\<rparr>"

definition demo_calls :: "(instant \<times> http_request \<times> auth_call) list" where
  "demo_calls = [(0, demo_request None '''', CallLogin (Some (''A@x'', ''bad'')) (Some (''s1'', ''c1''))),
     (1, demo_request None '''', CallLogin (Some (''A@x'', ''pw'')) (Some (''s1'', ''c1''))),
     (2, demo_request (Some ''s1'') ''c1'', CallRefresh (Some (''s2'', ''c2''))),
     (3, demo_request (Some ''s1'') ''c1'', CallCreateToken ''ci'' (Some ''rnd'')),
     (4, demo_request (Some ''s2'') ''c2'', CallCreateToken ''ci'' (Some ''rnd''))]"

lemma demo_opens:
  "map ar_status (fst (auth_run demo_auth demo_auth_state demo_calls)) = [401, 200, 200, 401, 201] \<and>
   requireAuth demo_auth 9 (demo_request (Some ''s2'') ''c2'') (as_db (snd (auth_run demo_auth demo_auth_state demo_calls))) =
     Inr \<lparr>id_account = 1, id_role = ''admin'', id_method = ''session''\<rparr> \<and>
   tb_sessions (as_db demo_auth_state) = [] \<and> tb_tokens (as_db demo_auth_state) = []"
  by code_simp


lemma only_issued_secrets_open_witness:
  "(1::int) \<in> set (proven demo_auth demo_auth_state demo_calls) \<and>
   (\<exists>(e, q) \<in> set (zip demo_calls (fst (auth_run demo_auth demo_auth_state demo_calls))). \<exists>i csrf.
      ar_cookies q = SetCookies i csrf (fst e + sessionTTL) \<and> au_hash demo_auth ''s2'' = au_hash demo_auth i)"
proof -
  let ?st' = "snd (auth_run demo_auth demo_auth_state demo_calls)"
  have ok: "requireAuth demo_auth 9 (demo_request (Some ''s2'') ''c2'') (as_db ?st') =
      Inr \<lparr>id_account = 1, id_role = ''admin'', id_method = ''session''\<rparr>"
    and no: "tb_sessions (as_db demo_auth_state) = []" "tb_tokens (as_db demo_auth_state) = []"
    using demo_opens by simp_all
  have "auth_run demo_auth demo_auth_state demo_calls = (fst (auth_run demo_auth demo_auth_state demo_calls), ?st')" by simp
  note t = only_issued_secrets_open [OF this no ok]
  show ?thesis using t by (fastforce simp: demo_request_def has_prefix_def)
qed

subsection \<open>What ends access\<close>

lemma refresh_drops:
  assumes "refresh A now r f db = (q, d)" "ar_status q = 200" "hr_cookie r = Some v" "s \<in> set (tb_sessions d)"
    and "sn_hash s = au_hash A v"
  shows "hands_session A now q s"
  using assms
  by (auto simp: refresh_def RotateSession_def hands_session_def reply_def split: option.splits if_splits sum.splits)

lemma logout_drops:
  "logout A r db = (q, d) \<Longrightarrow> hr_cookie r = Some v \<Longrightarrow> v \<noteq> '''' \<Longrightarrow> s \<in> set (tb_sessions d) \<Longrightarrow> sn_hash s \<noteq> au_hash A v"
  by (auto simp: logout_def DeleteSession_def)

lemma password_drops:
  assumes "changePassword A now c i salt f db = (q, d)" "ar_status q = 200" "s \<in> set (tb_sessions d)"
    and "sn_account s = id_account c"
  shows "hands_session A now q s"
proof -
  obtain a d1 where a: "GetAccountByID (id_account c) db = Inr a"
    and q: "(case establishSession A now f (ac_id a) (DeleteAccountSessions (ac_id a) d1) of
              None \<Rightarrow> (reply 200, DeleteAccountSessions (ac_id a) d1)
            | Some (ck, d) \<Rightarrow> ((reply 200)\<lparr>ar_cookies := ck\<rparr>, d)) = (q, d)"
    using assms(1,2) by (auto simp: changePassword_def Let_def reply_def split: option.splits if_splits sum.splits prod.splits)
  have ac: "ac_id a = id_account c" using a by (auto simp: GetAccountByID_def find_Some_iff split: option.splits)
  show ?thesis
  proof (cases "establishSession A now f (ac_id a) (DeleteAccountSessions (ac_id a) d1)")
    case None
    then show ?thesis using q assms(3,4) ac by (auto simp: DeleteAccountSessions_def)
  next
    case (Some p)
    obtain ck d2 where p: "p = (ck, d2)" by fastforce
    show ?thesis using q ac assms(3,4) Some establish_rows [of A now f "ac_id a" "DeleteAccountSessions (ac_id a) d1" ck d2]
      by (auto simp: p DeleteAccountSessions_def hands_session_def)
  qed
qed


lemma no_row_rejected:
  assumes "\<forall>s \<in> set (tb_sessions db). sn_hash s \<noteq> au_hash A v" "hr_cookie r = Some v"
    and "\<not> has_prefix (hr_authorization r) ''Bearer ''"
  shows "requireAuth A now r db = Inl (fail 401 ''unauthorized'')"
proof -
  have "resolve_cookie A now (hr_cookie r) db = None"
    using assms(1,2) by (auto simp: resolve_cookie_def GetSession_def find_Some_iff split: option.splits)
  then show ?thesis using assms(3) by (simp add: requireAuth_def resolveIdentity_def)
qed

lemma step_refresh:
  assumes "auth_step A (t, r, CallRefresh f) st = (q, st1)" "ar_status q = 200"
  shows "refresh A t r f (as_db st) = (q, as_db st1)"
  using assms by (auto simp: auth_step_def on_db_def reply_def requireAuth_def fail_def split: sum.splits option.splits prod.splits if_splits)

text \<open>
  C37: a session ended by a logout, or replaced by a successful refresh, stays ended: after any further
  run, a request with that cookie is answered 401, as long as no reply sets a session id with the same
  hash.
\<close>

theorem ended_stays_ended:
  assumes "auth_step A (t, r, call) st = (q, st1)" "hr_cookie r = Some v" "v \<noteq> ''''"
    and "call = CallLogout \<or> (\<exists>f. call = CallRefresh f \<and> ar_status q = 200)"
    and "auth_run A st1 es = (qs, st')"
    and "\<forall>q' \<in> set (q # qs). \<forall>i csrf x. ar_cookies q' = SetCookies i csrf x \<longrightarrow> au_hash A i \<noteq> au_hash A v"
    and "hr_cookie r' = Some v" "\<not> has_prefix (hr_authorization r') ''Bearer ''"
  shows "requireAuth A now r' (as_db st') = Inl (fail 401 ''unauthorized'')"
proof (rule no_row_rejected [OF _ assms(7,8)], intro ballI notI)
  fix s assume s: "s \<in> set (tb_sessions (as_db st'))" "sn_hash s = au_hash A v"
  have fresh: "\<not> hands_session A u q' s" if "q' \<in> set (q # qs)" for u q'
    using assms(6) that s(2) by (auto simp: hands_session_def)
  have "s \<in> set (tb_sessions (as_db st1))"
    using run_sessions [OF assms(5) s(1)] fresh by (auto dest: set_zip_rightD)
  moreover have "sn_hash s \<noteq> au_hash A v" if "s \<in> set (tb_sessions (as_db st1))"
  proof (cases "call = CallLogout")
    case True
    then have "logout A r (as_db st) = (q, as_db st1)"
      using assms(1) by (auto simp: auth_step_def on_db_def prod_eq_iff)
    then show ?thesis using logout_drops assms(2,3) that by blast
  next
    case False
    then show ?thesis using assms(1,4) step_refresh refresh_drops [OF _ _ assms(2) that] fresh by fastforce
  qed
  ultimately show False using s(2) by blast
qed

definition demo_login :: auth_state where
  "demo_login = snd (auth_run demo_auth demo_auth_state (take 2 demo_calls))"

definition demo_refresh :: "auth_reply \<times> auth_state" where
  "demo_refresh = auth_step demo_auth (2, demo_request (Some ''s1'') ''c1'', CallRefresh (Some (''s2'', ''c2''))) demo_login"

definition demo_later :: "auth_reply list \<times> auth_state" where
  "demo_later = auth_run demo_auth (snd demo_refresh) (drop 3 demo_calls)"

lemma demo_cookies:
  "ar_status (fst demo_refresh) = 200 \<and>
   list_all (\<lambda>q. ar_cookies q \<in> {KeepCookies, SetCookies ''s2'' ''c2'' (2 + sessionTTL)}) (fst demo_refresh # fst demo_later)"
  by code_simp

lemma ended_stays_ended_witness:
  "requireAuth demo_auth 9 (demo_request (Some ''s1'') ''c1'') (as_db (snd demo_later)) = Inl (fail 401 ''unauthorized'')"
proof (rule ended_stays_ended [of demo_auth 2 "demo_request (Some ''s1'') ''c1''" "CallRefresh (Some (''s2'', ''c2''))"
      demo_login "fst demo_refresh" "snd demo_refresh" "''s1''" "drop 3 demo_calls" "fst demo_later"])
  show "CallRefresh (Some (''s2'', ''c2'')) = CallLogout \<or>
      (\<exists>f. CallRefresh (Some (''s2'', ''c2'')) = CallRefresh f \<and> ar_status (fst demo_refresh) = 200)"
    using demo_cookies by simp
  show "\<forall>q' \<in> set (fst demo_refresh # fst demo_later). \<forall>i csrf x. ar_cookies q' = SetCookies i csrf x \<longrightarrow>
      au_hash demo_auth i \<noteq> au_hash demo_auth ''s1''"
    using demo_cookies by (fastforce simp: list_all_iff demo_auth_def)
qed (simp_all add: demo_refresh_def demo_later_def demo_request_def has_prefix_def)

text \<open>
  changing the password closes the account's other sessions: after a successful change and any
  further run, a session that \<open>requireAuth\<close> accepts for the account is one that the change's own reply or a
  later reply set.
\<close>

theorem password_change_ends_sessions:
  assumes "requireAuth A t (r\<lparr>hr_method := ''POST''\<rparr>) (as_db st) = Inr c"
    and "auth_step A (t, r, CallPassword i salt f) st = (q, st1)" "ar_status q = 200"
    and "auth_run A st1 es = (qs, st')"
    and "requireAuth A now r' (as_db st') = Inr c'" "id_account c' = id_account c" "id_method c' = ''session''"
  shows "\<exists>(e, q') \<in> set (zip ((t, r, CallPassword i salt f) # es) (q # qs)). \<exists>v j csrf. hr_cookie r' = Some v \<and>
    ar_cookies q' = SetCookies j csrf (fst e + sessionTTL) \<and> au_hash A v = au_hash A j"
proof -
  have "\<not> has_prefix (hr_authorization r') ''Bearer ''"
    using presented_token [OF assms(5)] assms(7) by auto
  then obtain v s where s: "hr_cookie r' = Some v" "s \<in> set (tb_sessions (as_db st'))" "sn_hash s = au_hash A v"
      "id_account c' = sn_account s"
    using presented_session [OF assms(5)] by blast
  have step: "changePassword A t c i salt f (as_db st) = (q, as_db st1)"
    using assms(1,2) by (auto simp: auth_step_def on_db_def prod_eq_iff)
  have "\<exists>(e, q') \<in> set (zip ((t, r, CallPassword i salt f) # es) (q # qs)). hands_session A (fst e) q' s"
  proof (cases "s \<in> set (tb_sessions (as_db st1))")
    case True
    then show ?thesis using password_drops [OF step assms(3) True] s(4) assms(6) by simp
  next
    case False
    then show ?thesis using run_sessions [OF assms(4) s(2)] by fastforce
  qed
  then show ?thesis using s by (fastforce simp: hands_session_def)
qed


definition demo_change :: "auth_reply \<times> auth_state" where
  "demo_change = auth_step demo_auth (2, demo_request (Some ''s1'') ''c1'',
     CallPassword (Some (''pw'', ''correct horse'')) (Some ''salt'') (Some (''s3'', ''c3''))) demo_login"

lemma demo_login_db:
  "as_db demo_login = \<lparr>tb_accounts = [demo_account],
     tb_sessions = [\<lparr>sn_hash = ''hs1'', sn_csrf = ''hc1'', sn_account = 1, sn_expires = 1 + sessionTTL\<rparr>], tb_tokens = [], sq_token = 1\<rparr>"
  by code_simp

lemma demo_verify: "VerifyPassword (au_argon demo_auth) ''pw'' ''$argon2id$v$p$s$pw''"
  by code_simp

lemma demo_caller:
  "requireAuth demo_auth 2 ((demo_request (Some ''s1'') ''c1'')\<lparr>hr_method := ''POST''\<rparr>) (as_db demo_login) =
     Inr \<lparr>id_account = 1, id_role = ''admin'', id_method = ''session''\<rparr>"
  by code_simp

lemma demo_changed:
  "demo_change = ((reply 200)\<lparr>ar_cookies := SetCookies ''s3'' ''c3'' (2 + sessionTTL)\<rparr>,
     demo_login\<lparr>as_db := (as_db demo_login)\<lparr>
       tb_accounts := [demo_account\<lparr>ac_hash := Some (HashPassword (au_argon demo_auth) ''salt'' ''correct horse'')\<rparr>],
       tb_sessions := [\<lparr>sn_hash = ''hs3'', sn_csrf = ''hc3'', sn_account = 1, sn_expires = 2 + sessionTTL\<rparr>]\<rparr>\<rparr>)"
proof -
  have h: "au_hash demo_auth s = CHR ''h'' # s" for s by (simp add: demo_auth_def)
  have "demo_change = on_db demo_login (changePassword demo_auth 2 \<lparr>id_account = 1, id_role = ''admin'', id_method = ''session''\<rparr>
      (Some (''pw'', ''correct horse'')) (Some ''salt'') (Some (''s3'', ''c3'')) (as_db demo_login))"
    by (simp add: demo_change_def auth_step_def demo_caller)
  then show ?thesis
    by (simp add: on_db_def changePassword_def GetAccountByID_def h reply_def
      demo_login_db demo_verify SetAccountCredentials_def DeleteAccountSessions_def establishSession_def CreateSession_def
      demo_account_def Let_def)
qed

lemma demo_reentry:
  "requireAuth demo_auth 9 (demo_request (Some ''s3'') ''c3'') (as_db (snd demo_change)) =
     Inr \<lparr>id_account = 1, id_role = ''admin'', id_method = ''session''\<rparr>"
  by (simp add: demo_changed demo_login_db requireAuth_def resolveIdentity_def resolve_cookie_def GetSession_def GetAccountByID_def
      demo_request_def has_prefix_def demo_auth_def demo_account_def sessionTTL_def hour_def minute_def second_def subtleEqual_eq)

lemma password_change_ends_sessions_witness:
  "\<exists>(e, q') \<in> set (zip ((2::int, demo_request (Some ''s1'') ''c1'',
        CallPassword (Some (''pw'', ''correct horse'')) (Some ''salt'') (Some (''s3'', ''c3''))) # []) (fst demo_change # [])).
     \<exists>v j csrf. hr_cookie (demo_request (Some ''s3'') ''c3'') = Some v \<and>
       ar_cookies q' = SetCookies j csrf (fst e + sessionTTL) \<and> au_hash demo_auth v = au_hash demo_auth j"
  by (rule password_change_ends_sessions [OF demo_caller _ _ _ demo_reentry, of _ _ _ _ "snd demo_change"])
    (simp_all add: demo_change_def [symmetric], simp add: demo_changed reply_def)


text \<open>A revoked token stays rejected: no call of this API clears the mark, and a deletion drops the row.\<close>

lemma revoked_stays_rejected:
  assumes "RevokeAdminToken account i (as_db st) = Inr d"
    and only: "\<forall>t \<in> set (tb_tokens (as_db st)). tk_hash t = au_hash A tok \<longrightarrow> tk_id t = i \<and> tk_account t = account"
    and run: "auth_run A (st\<lparr>as_db := d\<rparr>) es = (qs, st')"
    and fresh: "\<forall>q \<in> set qs. \<forall>x. ar_token q = Some x \<longrightarrow> au_hash A x \<noteq> au_hash A tok"
    and r: "hr_authorization r = ''Bearer '' @ tok"
  shows "requireAuth A now r (as_db st') = Inl (fail 401 ''unauthorized'')"
proof (cases "requireAuth A now r (as_db st')")
  case (Inl a)
  have "id_method c \<noteq> ''session''" if "resolveIdentity A now r (as_db st') = Some (c, h)" for c h
    using that r by (auto simp: resolveIdentity_def resolve_token_def has_prefix_def split: if_splits option.splits)
  then show ?thesis using Inl by (auto simp: requireAuth_def split: option.splits if_splits)
next
  case (Inr c)
  have b: "has_prefix (hr_authorization r) ''Bearer ''" "trim_prefix (hr_authorization r) ''Bearer '' = tok"
    by (simp_all add: r has_prefix_def trim_prefix_def)
  obtain t where t: "t \<in> set (tb_tokens (as_db st'))" "\<not> tk_revoked t" "tk_hash t = au_hash A tok"
    using presented_token [OF Inr b(1)] b(2) by auto
  moreover have "\<not> hands_token A q t" if "q \<in> set qs" for q
    using fresh that t(3) by (auto simp: hands_token_def)
  ultimately obtain t0 where "t0 \<in> set (tb_tokens d)" "same_token t0 t"
    using run_tokens [OF run t(1)] by auto
  then have t0: "t0 \<in> set (tb_tokens d)" "\<not> tk_revoked t0" "tk_hash t0 = au_hash A tok"
    using t by (auto simp: same_token_def)
  have "t0 \<in> set (tb_tokens (as_db st))" "\<not> own_token account i False t0"
    using assms(1) t0(1,2) by (auto simp: RevokeAdminToken_def split: if_splits)
  then show ?thesis using only t0(2,3) by (simp add: own_token_def)
qed

text \<open>
  An expired session is not gone: \<open>RotateSession\<close> has no check of \<open>expires_at\<close>, and \<open>refresh\<close> rotates the
  session of the cookie, whoever the caller is. A request that authenticates with a bearer token and
  carries the cookie of an expired session of any account is answered with a live session of that account.
\<close>

lemma refresh_revives_expired_session:

  assumes "tb_sessions db = [s]" "sn_expires s \<le> now" "sn_hash s = au_hash A v" "v \<noteq> ''''"
    and "GetAccountByID (sn_account s) db = Inr a" "hr_cookie r = Some v" "i \<noteq> ''''"
  shows "resolve_cookie A now (Some v) db = None"
    and "resolve_cookie A now (Some i) (snd (refresh A now r (Some (i, csrf)) db)) =
           Some (\<lparr>id_account = sn_account s, id_role = ac_role a, id_method = ''session''\<rparr>, au_hash A csrf)"
proof -
  show "resolve_cookie A now (Some v) db = None" using assms(1,2) by (simp add: resolve_cookie_def GetSession_def)
  let ?s = "s\<lparr>sn_hash := au_hash A i, sn_csrf := au_hash A csrf, sn_expires := now + sessionTTL\<rparr>"
  have d: "snd (refresh A now r (Some (i, csrf)) db) = db\<lparr>tb_sessions := [?s]\<rparr>"
    using assms(1,4,6) by (auto simp: assms(3) refresh_def RotateSession_def)
  have "GetAccountByID (sn_account s) (db\<lparr>tb_sessions := [?s]\<rparr>) = Inr a"
    using assms(5) by (simp add: GetAccountByID_def)
  moreover have "sn_expires ?s > now" by (simp add: sessionTTL_def hour_def minute_def second_def)
  ultimately show "resolve_cookie A now (Some i) (snd (refresh A now r (Some (i, csrf)) db)) =
           Some (\<lparr>id_account = sn_account s, id_role = ac_role a, id_method = ''session''\<rparr>, au_hash A csrf)"
    using assms(7) by (simp add: d resolve_cookie_def GetSession_def)
qed

end
