(* ===== verification/CustomDomains.thy ===== *)
theory CustomDomains
  imports DeliveryApi AgentApi
begin

section \<open>Custom domains: verification, issuance, renewal\<close>

text \<open>
  \<open>brisk-control/internal/customdomains\<close> (\<open>verify.go\<close>, \<open>manager.go\<close>), the manager of the wildcard
  certificate (\<open>acme/manager.go\<close>) and the challenge store (\<open>acme/http01.go\<close>). A pass over a domain
  reads the database first and writes afterwards, so it is the list of the statements it will
  execute; other handlers may run between them. The resolver and the certificate authority are
  parameters, and one pass reads one clock.
\<close>

subsection \<open>DNS verification\<close>

text \<open>\<open>rv_cname\<close> and \<open>rv_host\<close> are \<open>LookupCNAME\<close> and \<open>LookupHost\<close>.\<close>

record resolver =
  rv_cname :: "string \<Rightarrow> string + string"
  rv_host :: "string \<Rightarrow> string + string list"

record verify_result =
  vr_ok :: bool
  vr_detail :: string

definition normalizeHost :: "string \<Rightarrow> string" where
  "normalizeHost h = trim_suffix (to_lower (trim_space h)) ''.''"

definition normalizeSet :: "string list \<Rightarrow> string list" where
  "normalizeSet xs = filter (\<lambda>s. s \<noteq> '''') (map normalizeHost xs)"

definition toSet :: "string list \<Rightarrow> string list" where
  "toSet xs = filter (\<lambda>s. s \<noteq> '''') (map trim_space xs)"

definition matched_ips :: "string list \<Rightarrow> string + string list \<Rightarrow> string list" where
  "matched_ips want found = (case found of Inl e \<Rightarrow> [] | Inr ips \<Rightarrow> filter (\<lambda>ip. ip \<in> set (toSet want)) ips)"

definition cname_matches :: "string list \<Rightarrow> string \<Rightarrow> string + string \<Rightarrow> bool" where
  "cname_matches want name answer =
     (case answer of Inl e \<Rightarrow> False
      | Inr c \<Rightarrow> (let cn = normalizeHost c in cn \<noteq> '''' \<and> cn \<noteq> name \<and> cn \<in> set (normalizeSet want)))"

definition unverified_detail :: "string \<Rightarrow> string + string \<Rightarrow> string + string list \<Rightarrow> string" where
  "unverified_detail name ca ha =
     (let cname = (case ca of Inl e \<Rightarrow> '''' | Inr c \<Rightarrow> c); ips = (case ha of Inl e \<Rightarrow> [] | Inr xs \<Rightarrow> xs) in
      case (ca, ha) of
        (Inl e, Inl f) \<Rightarrow> ''domain does not resolve yet ('' @ f @ '')''
      | _ \<Rightarrow>
          if cname \<noteq> '''' \<and> normalizeHost cname \<noteq> name
          then ''CNAME points to '' @ normalizeHost cname @
               '', not a Brisk hostname; create the CNAME to your Brisk CDN hostname''
          else if ips \<noteq> []
          then ''resolves to '' @ join '', '' ips @
               '', not a Brisk edge; point the domain (CNAME) at your Brisk CDN hostname''
          else ''no DNS records found yet; create the CNAME and allow time to propagate'')"

definition Verify :: "resolver \<Rightarrow> string \<Rightarrow> string list \<Rightarrow> string list \<Rightarrow> verify_result" where
  "Verify R domain names ips =
     (let d = normalizeHost domain; ca = rv_cname R d; ha = rv_host R d; m = matched_ips ips ha in
      if cname_matches names d ca
      then \<lparr>vr_ok = True, vr_detail = ''CNAME -> '' @ normalizeHost (projr ca) @ '' (Brisk)''\<rparr>
      else if m \<noteq> [] then \<lparr>vr_ok = True, vr_detail = ''resolves to Brisk edge(s) '' @ join '', '' m\<rparr>
      else \<lparr>vr_ok = False, vr_detail = unverified_detail d ca ha\<rparr>)"

subsection \<open>Backoff\<close>

primrec backoff_steps :: "duration \<Rightarrow> nat \<Rightarrow> duration \<Rightarrow> duration" where
  "backoff_steps cap 0 d = d"
| "backoff_steps cap (Suc n) d = (if d < cap then backoff_steps cap n (d * 2) else d)"

definition backoff :: "duration \<Rightarrow> duration \<Rightarrow> int \<Rightarrow> duration" where
  "backoff base cap n = (let d = backoff_steps cap (nat n) base in if d > cap then cap else d)"

definition renew_margin :: duration where
  "renew_margin = 30 * 24 * hour"

definition pendingBackoffBase :: duration where
  "pendingBackoffBase = 2 * minute"

definition pendingBackoffMax :: duration where
  "pendingBackoffMax = 15 * minute"

definition issueBackoffBase :: duration where
  "issueBackoffBase = 20 * minute"

definition issueBackoffMax :: duration where
  "issueBackoffMax = 12 * hour"

subsection \<open>The manager\<close>

text \<open>A parsed leaf certificate, and what the issuer returns.\<close>

record leaf_cert =
  lf_issuer :: string
  lf_serial :: string
  lf_not_after :: instant

record acme_bundle =
  bu_chain :: string
  bu_key :: string
  bu_leaf :: "leaf_cert option"

record mgr_env =
  me_dns :: resolver
  me_obtain :: "string \<Rightarrow> leaf_cert option \<Rightarrow> string + acme_bundle"
  me_parse :: "string \<Rightarrow> leaf_cert option"
  me_staging :: bool

definition cert_record :: "string \<Rightarrow> string \<Rightarrow> bool \<Rightarrow> acme_bundle \<Rightarrow> tls_cert" where
  "cert_record name domains staging b =
     \<lparr>tc_id = 0, tc_name = name, tc_domains = domains, tc_chain = bu_chain b, tc_key = bu_key b,
      tc_issuer = (case bu_leaf b of None \<Rightarrow> '''' | Some l \<Rightarrow> lf_issuer l),
      tc_serial = (case bu_leaf b of None \<Rightarrow> '''' | Some l \<Rightarrow> lf_serial l), tc_staging = staging\<rparr>"

definition certName :: "custom_domain \<Rightarrow> string" where
  "certName d = (if trim_space (cd_cert d) \<noteq> '''' then cd_cert d else cd_domain d)"

definition expectations :: "custom_domain \<Rightarrow> control_db \<Rightarrow> store_error + string list \<times> string list" where
  "expectations d db =
     (case GetZone (cd_zone d) db of
        Inl e \<Rightarrow> Inl e
      | Inr z \<Rightarrow> Inr ([sz_hostname z], filter (\<lambda>ip. ip \<noteq> '''') (map (trim_space \<circ> ss_ip) (ListServers db))))"

definition issue :: "mgr_env \<Rightarrow> string \<Rightarrow> leaf_cert option \<Rightarrow> string + tls_cert" where
  "issue E domain prev =
     (case me_obtain E domain prev of Inl e \<Rightarrow> Inl e | Inr b \<Rightarrow> Inr (cert_record domain domain (me_staging E) b))"

definition set_status :: "custom_domain \<Rightarrow> string \<Rightarrow> string \<Rightarrow> txn" where
  "set_status d status err = OnDomain (TSetCustomDomainStatus (cd_id d) status err)"

definition mark_failure :: "custom_domain \<Rightarrow> string \<Rightarrow> string \<Rightarrow> instant \<Rightarrow> txn" where
  "mark_failure d status err gate = OnDomain (TMarkCustomDomainFailure (cd_id d) status err gate)"

definition go_live :: "instant \<Rightarrow> custom_domain \<Rightarrow> tls_cert \<Rightarrow> txn list" where
  "go_live now d c =
     [OnDomain (TUpsertTLSCert c), OnDomain (TSetCustomDomainActive now (cd_id d) (cd_domain d)),
      OnZone (TBumpZone (cd_zone d))]"

definition verifyThenIssue :: "mgr_env \<Rightarrow> instant \<Rightarrow> custom_domain \<Rightarrow> control_db \<Rightarrow> txn list" where
  "verifyThenIssue E now d db =
     (case expectations d db of
        Inl e \<Rightarrow> []
      | Inr (names, ips) \<Rightarrow>
          set_status d ''verifying'' (cd_error d) #
          (let res = Verify (me_dns E) (cd_domain d) names ips in
           if \<not> vr_ok res
           then [mark_failure d ''pending_dns'' (vr_detail res)
                   (now + backoff pendingBackoffBase pendingBackoffMax (cd_attempts d))]
           else OnDomain (TMarkCustomDomainVerified now (cd_id d)) # set_status d ''issuing'' '''' #
             (case issue E (cd_domain d) None of
                Inl e \<Rightarrow> [mark_failure d ''failed'' (''issuance failed: '' @ e)
                           (now + backoff issueBackoffBase issueBackoffMax (cd_attempts d))]
              | Inr c \<Rightarrow> go_live now d c)))"

definition em_dash :: string where
  "em_dash = [char_of (0xE2 :: nat), char_of (0x80 :: nat), char_of (0x94 :: nat)]"

definition previous_leaf :: "mgr_env \<Rightarrow> tls_cert \<Rightarrow> leaf_cert option" where
  "previous_leaf E cur = (if \<not> tc_staging cur \<and> \<not> me_staging E then me_parse E (tc_chain cur) else None)"

definition maybeRenew :: "mgr_env \<Rightarrow> instant \<Rightarrow> custom_domain \<Rightarrow> control_db \<Rightarrow> txn list" where
  "maybeRenew E now d db =
     (case GetTLSCert (certName d) db of
        Inl e \<Rightarrow> verifyThenIssue E now d db
      | Inr cur \<Rightarrow>
          (let leaf = me_parse E (tc_chain cur); switched = tc_staging cur \<noteq> me_staging E in
           if (case leaf of None \<Rightarrow> False | Some l \<Rightarrow> lf_not_after l - now > renew_margin) \<and> \<not> switched then []
           else (case expectations d db of
                   Inl e \<Rightarrow> []
                 | Inr (names, ips) \<Rightarrow>
                     (let res = Verify (me_dns E) (cd_domain d) names ips;
                          gate = now + backoff issueBackoffBase issueBackoffMax (cd_attempts d) in
                      if \<not> vr_ok res
                      then [mark_failure d ''active''
                              (''renewal blocked '' @ em_dash @ '' DNS no longer points at Brisk: '' @ vr_detail res) gate]
                      else set_status d ''renewing'' '''' #
                        (case issue E (cd_domain d) (previous_leaf E cur) of
                           Inl e \<Rightarrow> [mark_failure d ''active'' (''renewal failed (old cert still serving): '' @ e) gate]
                         | Inr c \<Rightarrow> go_live now d c)))))"

definition process_domain :: "mgr_env \<Rightarrow> instant \<Rightarrow> custom_domain \<Rightarrow> control_db \<Rightarrow> txn list" where
  "process_domain E now d db =
     (if cd_status d = ''active'' \<or> cd_status d = ''renewing'' then maybeRenew E now d db
      else verifyThenIssue E now d db)"

text \<open>The scan works from the rows it listed at its start.\<close>

definition waits :: "instant \<Rightarrow> custom_domain \<Rightarrow> bool" where
  "waits now d \<longleftrightarrow> (case cd_next d of None \<Rightarrow> False | Some t \<Rightarrow> now < t)"

definition scan_domain :: "mgr_env \<Rightarrow> instant \<Rightarrow> control_db \<Rightarrow> custom_domain \<Rightarrow> control_db" where
  "scan_domain E now db d = (if waits now d then db else run_txns (process_domain E now d db) db)"

definition scan_domains :: "mgr_env \<Rightarrow> instant \<Rightarrow> control_db \<Rightarrow> control_db" where
  "scan_domains E now db = foldl (scan_domain E now) db (ListAllCustomDomains db)"

definition CheckNow :: "mgr_env \<Rightarrow> instant \<Rightarrow> int \<Rightarrow> control_db \<Rightarrow> (store_error + custom_domain) \<times> control_db" where
  "CheckNow E now i db =
     (case GetCustomDomain i db of
        Inl e \<Rightarrow> (Inl e, db)
      | Inr d \<Rightarrow> (let db' = run_txns (process_domain E now d db) db in (GetCustomDomain i db', db')))"

text \<open>\<open>mgr = None\<close>: custom-domain certificates are not configured.\<close>

definition verifyCustomDomain :: "mgr_env option \<Rightarrow> instant \<Rightarrow> identity \<Rightarrow> string \<Rightarrow> control_db \<Rightarrow> answer \<times> control_db" where
  "verifyCustomDomain mgr now c path db =
     (case scopeDomain c path db of
        Inl a \<Rightarrow> (a, db)
      | Inr (d, z) \<Rightarrow>
          (case mgr of
             None \<Rightarrow> (fail 503 ''custom-domain TLS not configured'', db)
           | Some E \<Rightarrow>
               (case CheckNow E now (cd_id d) db of
                  (Inl e, db') \<Rightarrow> (fail 500 ''error'', db')
                | (Inr r, db') \<Rightarrow> ((200, DomainsBody (sz_id z) [r]), db'))))"


subsection \<open>The wildcard certificate and the challenges\<close>

text \<open>
  \<open>acme.Manager\<close>: the certificate named \<open>am_name\<close>. Its \<open>Run\<close> waits twelve hours after a check that
  worked, and otherwise the current backoff, which it doubles.
\<close>

record cert_manager =
  am_name :: string
  am_domains :: "string list"
  am_staging :: bool
  am_obtain :: "string list \<Rightarrow> leaf_cert option \<Rightarrow> string + acme_bundle"
  am_parse :: "string \<Rightarrow> leaf_cert option"

definition needs_cert :: "cert_manager \<Rightarrow> instant \<Rightarrow> store_error + tls_cert \<Rightarrow> bool" where
  "needs_cert M now cur =
     (case cur of
        Inl e \<Rightarrow> e = ErrNotFound
      | Inr c \<Rightarrow> tc_staging c \<noteq> am_staging M \<or>
          (case am_parse M (tc_chain c) of None \<Rightarrow> True | Some l \<Rightarrow> lf_not_after l - now < renew_margin))"

definition replaced_leaf :: "cert_manager \<Rightarrow> store_error + tls_cert \<Rightarrow> leaf_cert option" where
  "replaced_leaf M cur =
     (case cur of Inl e \<Rightarrow> None
      | Inr c \<Rightarrow> if \<not> am_staging M \<and> \<not> tc_staging c then am_parse M (tc_chain c) else None)"

definition EnsureOnce :: "cert_manager \<Rightarrow> instant \<Rightarrow> control_db \<Rightarrow> (string + bool) \<times> control_db" where
  "EnsureOnce M now db =
     (let cur = GetTLSCert (am_name M) db in
      if \<not> needs_cert M now cur then (Inr False, db)
      else (case am_obtain M (am_domains M) (replaced_leaf M cur) of
              Inl e \<Rightarrow> (Inl e, db)
            | Inr b \<Rightarrow> (Inr True, UpsertTLSCert (cert_record (am_name M) (join '','' (am_domains M)) (am_staging M) b) db)))"

definition ensure_steady :: duration where
  "ensure_steady = 12 * hour"

definition ensure_min :: duration where
  "ensure_min = 5 * minute"

definition ensure_max :: duration where
  "ensure_max = 2 * hour"

text \<open>One turn of \<open>Run\<close>: the pause, the next backoff and the database.\<close>

definition ensure_turn :: "cert_manager \<Rightarrow> instant \<Rightarrow> duration \<Rightarrow> control_db \<Rightarrow> duration \<times> duration \<times> control_db" where
  "ensure_turn M now wait db =
     (case EnsureOnce M now db of
        (Inl e, db') \<Rightarrow> (wait, (if wait * 2 > ensure_max then ensure_max else wait * 2), db')
      | (Inr b, db') \<Rightarrow> (ensure_steady, ensure_min, db'))"

type_synonym challenges = "string \<rightharpoonup> string"

definition Present :: "string \<Rightarrow> string \<Rightarrow> challenges \<Rightarrow> challenges" where
  "Present token auth ch = ch(token \<mapsto> auth)"

definition CleanUp :: "string \<Rightarrow> challenges \<Rightarrow> challenges" where
  "CleanUp token ch = ch(token := None)"

subsection \<open>Backoff and verification\<close>

lemma backoff_steps_min: "0 < d \<Longrightarrow> min cap (backoff_steps cap n d) = min cap (d * 2 ^ n)"
proof (induction n arbitrary: d)
  case (Suc n)
  have "d * 1 \<le> d * 2 ^ Suc n" using Suc.prems by (intro mult_left_mono one_le_power) simp_all
  moreover have "min cap (backoff_steps cap n (d * 2)) = min cap (d * 2 ^ Suc n)"
    using Suc.IH [of "d * 2"] Suc.prems by (simp add: mult.assoc)
  ultimately show ?case by (auto simp: min_def split: if_splits)
qed simp

lemma backoff_closed: "0 < base \<Longrightarrow> backoff base cap n = min cap (base * 2 ^ nat n)"
  using backoff_steps_min [of base cap "nat n"] by (simp add: backoff_def Let_def min_def split: if_splits)

lemma backoff_ge: "0 < base \<Longrightarrow> base \<le> cap \<Longrightarrow> base \<le> backoff base cap n"
  by (simp add: backoff_closed)

lemma issue_backoff_ge: "issueBackoffBase \<le> backoff issueBackoffBase issueBackoffMax n"
  by (rule backoff_ge) (simp_all add: issueBackoffBase_def issueBackoffMax_def durations)

lemma Verify_iff:
  "vr_ok (Verify R domain names ips) \<longleftrightarrow>
     (\<exists>c. rv_cname R (normalizeHost domain) = Inr c \<and> normalizeHost c \<noteq> '''' \<and> normalizeHost c \<noteq> normalizeHost domain \<and>
        normalizeHost c \<in> set (normalizeSet names)) \<or>
     (\<exists>found. rv_host R (normalizeHost domain) = Inr found \<and> set found \<inter> set (toSet ips) \<noteq> {})"
  by (auto simp: Verify_def Let_def cname_matches_def matched_ips_def filter_empty_conv split: sum.splits)


subsection \<open>What a pass touches\<close>

text \<open>The statements a pass over a domain may execute.\<close>

definition about_domain :: "custom_domain \<Rightarrow> txn \<Rightarrow> bool" where
  "about_domain d t \<longleftrightarrow>
     (\<exists>s e. t = set_status d s e) \<or> (\<exists>s e g. t = mark_failure d s e g) \<or>
     (\<exists>now. t = OnDomain (TMarkCustomDomainVerified now (cd_id d))) \<or>
     (\<exists>now n. t = OnDomain (TSetCustomDomainActive now (cd_id d) n)) \<or>
     (\<exists>c. t = OnDomain (TUpsertTLSCert c) \<and> tc_name c = cd_domain d) \<or> (\<exists>z. t = OnZone (TBumpZone z))"

lemma about_simps [simp]:
  "about_domain d (set_status d s e)" "about_domain d (mark_failure d s e g)"
  "about_domain d (OnDomain (TMarkCustomDomainVerified now (cd_id d)))"
  "about_domain d (OnDomain (TSetCustomDomainActive now (cd_id d) n))"
  "about_domain d (OnDomain (TUpsertTLSCert c)) \<longleftrightarrow> tc_name c = cd_domain d" "about_domain d (OnZone (TBumpZone z))"
  by (auto simp: about_domain_def set_status_def mark_failure_def)

lemma issued_name: "issue E n p = Inr c \<Longrightarrow> tc_name c = n"
  by (auto simp: issue_def cert_record_def split: sum.splits)

lemma process_about: "list_all (about_domain d) (process_domain E now d db)"
proof -
  have "list_all (about_domain d) (verifyThenIssue E now d db)"
    by (auto simp: verifyThenIssue_def Let_def go_live_def issued_name split: sum.splits prod.splits)
  moreover have "list_all (about_domain d) (maybeRenew E now d db)" if "\<And>db. list_all (about_domain d) (verifyThenIssue E now d db)"
    using that by (auto simp: maybeRenew_def Let_def go_live_def issued_name split: sum.splits prod.splits)
  ultimately show ?thesis
    by (auto simp: process_domain_def maybeRenew_def Let_def go_live_def issued_name split: sum.splits prod.splits)
qed

definition certs_kept :: "string \<Rightarrow> control_db \<Rightarrow> control_db \<Rightarrow> bool" where
  "certs_kept name db db' \<longleftrightarrow>
     (\<forall>n c. GetTLSCert n db = Inr c \<longrightarrow> (\<exists>c'. GetTLSCert n db' = Inr c' \<and> (n = name \<or> c' = c)))"

definition zones_kept :: "control_db \<Rightarrow> control_db \<Rightarrow> bool" where
  "zones_kept db db' \<longleftrightarrow>
     (\<forall>k. case GetZone k db of
            Inl e \<Rightarrow> GetZone k db' = Inl e
          | Inr z \<Rightarrow> (\<exists>z'. GetZone k db' = Inr z' \<and> sz_hostname z' = sz_hostname z \<and> sz_version z \<le> sz_version z'))"

definition pass_effect :: "custom_domain \<Rightarrow> control_db \<Rightarrow> control_db \<Rightarrow> bool" where
  "pass_effect d db db' \<longleftrightarrow>
     (\<forall>j. j \<noteq> cd_id d \<longrightarrow> GetCustomDomain j db' = GetCustomDomain j db) \<and>
     map cd_id (tb_domains db') = map cd_id (tb_domains db) \<and> certs_kept (cd_domain d) db db' \<and>
     tb_servers db' = tb_servers db \<and> tb_assigned db' = tb_assigned db \<and> zones_kept db db'"

lemma certs_kept_refl [simp]: "certs_kept n db db"
  by (auto simp: certs_kept_def)

lemma certs_kept_trans: "certs_kept n a b \<Longrightarrow> certs_kept n b c \<Longrightarrow> certs_kept n a c"
  unfolding certs_kept_def by metis

lemma zones_kept_refl [simp]: "zones_kept db db"
  by (auto simp: zones_kept_def split: sum.splits)

lemma zones_kept_trans:
  assumes "zones_kept a b" "zones_kept b c" shows "zones_kept a c"
  unfolding zones_kept_def
proof
  fix k
  show "case GetZone k a of Inl e \<Rightarrow> GetZone k c = Inl e
      | Inr z \<Rightarrow> (\<exists>z'. GetZone k c = Inr z' \<and> sz_hostname z' = sz_hostname z \<and> sz_version z \<le> sz_version z')"
    using assms [unfolded zones_kept_def, rule_format, of k]
    by (cases "GetZone k a") (auto intro: order_trans split: sum.splits)
qed

lemma pass_effect_refl [simp]: "pass_effect d db db"
  by (simp add: pass_effect_def)

lemma pass_effect_trans: "pass_effect d a b \<Longrightarrow> pass_effect d b c \<Longrightarrow> pass_effect d a c"
  unfolding pass_effect_def using certs_kept_trans zones_kept_trans by auto

lemma find_map_row:
  assumes "\<And>x. key x = i \<Longrightarrow> key (f x) = i"
  shows "find (\<lambda>x. key x = j) (map (\<lambda>x. if key x = i then f x else x) xs) =
    map_option (\<lambda>x. if j = i then f x else x) (find (\<lambda>x. key x = j) xs)"
proof (induction xs)
  case (Cons x xs)
  then show ?case using assms [of x] by (cases "key x = i") auto
qed simp

lemma GetCustomDomain_set:
  assumes "\<And>x. cd_id (f x) = cd_id x"
  shows "GetCustomDomain j (set_domain i f db) = map_sum (\<lambda>e. e) (\<lambda>x. if j = i then f x else x) (GetCustomDomain j db)"
  by (simp add: GetCustomDomain_def set_domain_def find_map_row [of cd_id i f] assms split: option.splits)

lemma GetZone_bump:
  "GetZone k (BumpZoneConfigVersion i db) = map_sum (\<lambda>e. e) (\<lambda>z. if k = i then bump_zone z else z) (GetZone k db)"
  by (simp add: GetZone_def BumpZoneConfigVersion_def set_zone_def find_map_row [of sz_id i "\<lambda>z. bump_zone z"] bump_zone_def
      split: option.splits)

lemma GetTLSCert_upsert:
  "GetTLSCert n (UpsertTLSCert c db) =
     (if n = tc_name c then Inr (c\<lparr>tc_id := (case GetTLSCert n db of Inl e \<Rightarrow> sq_cert db | Inr x \<Rightarrow> tc_id x)\<rparr>) else GetTLSCert n db)"
proof -
  have new: "find (\<lambda>x. tc_name x = tc_name c) (tb_certs db) = None" if "\<not> list_ex (\<lambda>x. tc_name x = tc_name c) (tb_certs db)"
    using that by (auto simp: find_None_iff list_ex_iff)
  have old: "find (\<lambda>x. tc_name x = tc_name c) (tb_certs db) \<noteq> None" if "list_ex (\<lambda>x. tc_name x = tc_name c) (tb_certs db)"
    using that by (auto simp: find_None_iff list_ex_iff)
  have app: "find P (xs @ [y]) = (case find P xs of None \<Rightarrow> if P y then Some y else None | Some x \<Rightarrow> Some x)" for P xs and y :: tls_cert
    by (induction xs) auto
  show ?thesis
    using new old find_map_row [of tc_name "tc_name c" "\<lambda>x. c\<lparr>tc_id := tc_id x\<rparr>" n "tb_certs db"]
    by (auto simp: GetTLSCert_def UpsertTLSCert_def app split: option.splits)
qed


lemma pass_effect_set:
  assumes "\<And>x. cd_id (f x) = cd_id x" shows "pass_effect d db (set_domain (cd_id d) f db)"
proof -
  let ?d = "set_domain (cd_id d) f db"
  have "tb_certs ?d = tb_certs db" "tb_zones ?d = tb_zones db" "tb_servers ?d = tb_servers db" "tb_assigned ?d = tb_assigned db"
    by (simp_all add: set_domain_def)
  moreover have "map cd_id (tb_domains ?d) = map cd_id (tb_domains db)" by (simp add: set_domain_def assms)
  moreover have "GetCustomDomain j ?d = GetCustomDomain j db" if "j \<noteq> cd_id d" for j
    using that by (cases "GetCustomDomain j db") (simp_all add: GetCustomDomain_set assms)
  ultimately show ?thesis
    by (auto simp: pass_effect_def certs_kept_def zones_kept_def GetTLSCert_def GetZone_def split: sum.splits)
qed

lemma pass_effect_upsert:
  assumes "tc_name c = cd_domain d" shows "pass_effect d db (UpsertTLSCert c db)"
proof -
  have "tb_domains (UpsertTLSCert c db) = tb_domains db" "tb_zones (UpsertTLSCert c db) = tb_zones db"
    "tb_servers (UpsertTLSCert c db) = tb_servers db" "tb_assigned (UpsertTLSCert c db) = tb_assigned db"
    by (simp_all add: UpsertTLSCert_def)
  then show ?thesis
    by (auto simp: pass_effect_def certs_kept_def GetTLSCert_upsert assms zones_kept_def GetCustomDomain_def GetZone_def split: sum.splits)
qed

lemma pass_effect_bump: "pass_effect d db (BumpZoneConfigVersion i db)"
proof -
  have "tb_domains (BumpZoneConfigVersion i db) = tb_domains db" "tb_certs (BumpZoneConfigVersion i db) = tb_certs db"
    "tb_servers (BumpZoneConfigVersion i db) = tb_servers db" "tb_assigned (BumpZoneConfigVersion i db) = tb_assigned db"
    by (simp_all add: BumpZoneConfigVersion_def set_zone_def)
  moreover have "zones_kept db (BumpZoneConfigVersion i db)"
    by (auto simp: zones_kept_def GetZone_bump bump_zone_def split: sum.splits)
  ultimately show ?thesis
    by (simp add: pass_effect_def certs_kept_def GetTLSCert_def GetCustomDomain_def)
qed

lemma status_effect [simp]: "GetCustomDomain (cd_id d) db = Inr x \<Longrightarrow>
    run_txn (set_status d s e) db = set_domain (cd_id d) (\<lambda>d. d\<lparr>cd_status := s, cd_error := e\<rparr>) db"
  by (auto simp: run_txn_def set_status_def SetCustomDomainStatus_def GetCustomDomain_def find_Some_iff list_ex_iff split: option.splits)

lemma failure_effect [simp]: "run_txn (mark_failure d s e g) db =
    set_domain (cd_id d) (\<lambda>d. d\<lparr>cd_status := s, cd_error := e, cd_attempts := cd_attempts d + 1, cd_next := Some g\<rparr>) db"
  by (simp add: run_txn_def mark_failure_def MarkCustomDomainFailure_def)

lemma verified_effect [simp]: "run_txn (OnDomain (TMarkCustomDomainVerified now i)) db =
    set_domain i (\<lambda>d. d\<lparr>cd_verified := Some now, cd_attempts := 0, cd_error := '''', cd_next := None\<rparr>) db"
  by (simp add: run_txn_def MarkCustomDomainVerified_def)

lemma active_effect [simp]: "run_txn (OnDomain (TSetCustomDomainActive now i n)) db =
    set_domain i (\<lambda>d. d\<lparr>cd_status := ''active'', cd_cert := n, cd_error := '''', cd_attempts := 0,
                         cd_verified := Some now, cd_next := None\<rparr>) db"
  by (simp add: run_txn_def SetCustomDomainActive_def)

lemma upsert_effect [simp]: "run_txn (OnDomain (TUpsertTLSCert c)) db = UpsertTLSCert c db"
  by (simp add: run_txn_def)

lemma bump_effect [simp]: "run_txn (OnZone (TBumpZone i)) db = BumpZoneConfigVersion i db"
  by (simp add: run_txn_def)

lemma about_effect:
  assumes "about_domain d t" shows "pass_effect d db (run_txn t db)"
proof -
  have "pass_effect d db (run_txn (set_status d s e) db)" for s e
  proof (cases "list_ex (\<lambda>x. cd_id x = cd_id d) (tb_domains db)")
    case True
    then show ?thesis by (simp add: run_txn_def set_status_def SetCustomDomainStatus_def pass_effect_set)
  qed (simp add: run_txn_def set_status_def SetCustomDomainStatus_def)
  moreover have "pass_effect d db (run_txn (mark_failure d s e g) db)" for s e g
    by (simp add: pass_effect_set)
  ultimately show ?thesis
    using assms by (auto simp: about_domain_def pass_effect_upsert pass_effect_bump pass_effect_set)
qed

lemma pass_effect_run: "list_all (about_domain d) ts \<Longrightarrow> pass_effect d db (run_txns ts db)"
proof (induction ts arbitrary: db)
  case (Cons t ts)
  then show ?case using about_effect [of d t db] pass_effect_trans by fastforce
qed simp

lemma process_effect: "pass_effect d db (run_txns (process_domain E now d db0) db)"
  by (rule pass_effect_run [OF process_about])


subsection \<open>What a pass does to its own domain\<close>

lemma row_simps [simp]:
  "GetCustomDomain i (UpsertTLSCert c db) = GetCustomDomain i db"
  "GetCustomDomain i (BumpZoneConfigVersion k db) = GetCustomDomain i db"
  "GetTLSCert n (BumpZoneConfigVersion k db) = GetTLSCert n db"
  "GetTLSCert n (set_domain i f db) = GetTLSCert n db"
  "GetZone k (UpsertTLSCert c db) = GetZone k db"
  "GetZone k (set_domain i f db) = GetZone k db"
  by (simp_all add: GetCustomDomain_def GetTLSCert_def GetZone_def UpsertTLSCert_def BumpZoneConfigVersion_def
      set_zone_def set_domain_def)

text \<open>The row of the domain is live: active, under its own name, with a certificate of that name.\<close>

definition live :: "custom_domain \<Rightarrow> control_db \<Rightarrow> bool" where
  "live d db \<longleftrightarrow> (\<exists>d' c. GetCustomDomain (cd_id d) db = Inr d' \<and> cd_status d' = ''active'' \<and>
     cd_domain d' = cd_domain d \<and> cd_zone d' = cd_zone d \<and> GetTLSCert (certName d') db = Inr c)"

lemma goes_live:
  fixes now :: instant
  assumes "GetCustomDomain (cd_id d) db = Inr x" "cd_domain x = cd_domain d" "cd_zone x = cd_zone d" "tc_name c = cd_domain d"
  defines "db' \<equiv> run_txns (go_live now d c) db"
  shows "live d db'" "\<exists>c'. GetTLSCert (cd_domain d) db' = Inr c' \<and> tc_chain c' = tc_chain c"
    "GetZone (cd_zone d) db = Inr z \<Longrightarrow> GetZone (cd_zone d) db' = Inr (bump_zone z)"
  using assms(1-4) by (simp_all add: db'_def go_live_def live_def GetCustomDomain_set certName_def GetTLSCert_upsert GetZone_bump)

lemma verify_goes_live:
  fixes now :: instant
  assumes "GetCustomDomain (cd_id d) db = Inr x" "cd_domain x = cd_domain d" "cd_zone x = cd_zone d"
    and "expectations d db0 = Inr (names, ips)" "vr_ok (Verify (me_dns E) (cd_domain d) names ips)"
    and "me_obtain E (cd_domain d) None = Inr b"
  defines "db' \<equiv> run_txns (verifyThenIssue E now d db0) db"
  shows "live d db'" "\<exists>c'. GetTLSCert (cd_domain d) db' = Inr c' \<and> tc_chain c' = bu_chain b"
    "GetZone (cd_zone d) db = Inr z \<Longrightarrow> GetZone (cd_zone d) db' = Inr (bump_zone z)"
proof -
  let ?c = "cert_record (cd_domain d) (cd_domain d) (me_staging E) b"
  let ?steps = "[set_status d ''verifying'' (cd_error d), OnDomain (TMarkCustomDomainVerified now (cd_id d)), set_status d ''issuing'' '''']"
  have c: "tc_name ?c = cd_domain d" "tc_chain ?c = bu_chain b" by (simp_all add: cert_record_def)
  have db': "db' = run_txns (go_live now d ?c) (run_txns ?steps db)"
    using assms(4-6) by (simp add: db'_def verifyThenIssue_def Let_def issue_def)
  obtain y where y: "GetCustomDomain (cd_id d) (run_txns ?steps db) = Inr y" "cd_domain y = cd_domain d" "cd_zone y = cd_zone d"
    using assms(1-3) by (simp add: GetCustomDomain_set)
  have z: "GetZone k (run_txns ?steps db) = GetZone k db" for k
    using assms(1) by (simp add: GetCustomDomain_set)
  show "live d db'" "\<exists>c'. GetTLSCert (cd_domain d) db' = Inr c' \<and> tc_chain c' = bu_chain b"
    using goes_live(1,2) [OF y c(1), of now] by (simp_all add: db' c)
  show "GetZone (cd_zone d) db = Inr z \<Longrightarrow> GetZone (cd_zone d) db' = Inr (bump_zone z)"
    unfolding db' by (rule goes_live(3) [OF y c(1)]) (simp only: z)
qed

lemma renew_keeps_live:
  assumes row: "GetCustomDomain (cd_id d) db = Inr d" and active: "cd_status d = ''active''"
    and cert: "GetTLSCert (certName d) db = Inr c" and same: "GetTLSCert (certName d) db0 = Inr c0"
  shows "live d (run_txns (process_domain E now d db0) db)"
proof -
  have stays: "live d db" using row active cert by (auto simp: live_def)
  have failed: "live d (run_txns [mark_failure d ''active'' e g] db)" for e g
    using row cert by (simp add: live_def GetCustomDomain_set certName_def split: if_splits)
  have started: "run_txns (set_status d ''renewing'' '''' # ts) db =
      run_txns ts (set_domain (cd_id d) (\<lambda>d. d\<lparr>cd_status := ''renewing'', cd_error := ''''\<rparr>) db)" for ts
    using row by simp
  have renewing_failed: "live d (run_txns [set_status d ''renewing'' '''', mark_failure d ''active'' e g] db)" for e g
    using row cert unfolding started by (simp add: live_def GetCustomDomain_set certName_def split: if_splits)
  have renewed: "live d (run_txns (set_status d ''renewing'' '''' # go_live now d c1) db)" if "tc_name c1 = cd_domain d" for c1
    unfolding started by (rule goes_live(1) [where x = "d\<lparr>cd_status := ''renewing'', cd_error := ''''\<rparr>"])
      (use row that in \<open>simp_all add: GetCustomDomain_set\<close>)
  have "process_domain E now d db0 = [] \<or> (\<exists>e g. process_domain E now d db0 = [mark_failure d ''active'' e g]) \<or>
      (\<exists>e g. process_domain E now d db0 = [set_status d ''renewing'' '''', mark_failure d ''active'' e g]) \<or>
      (\<exists>c1. tc_name c1 = cd_domain d \<and> process_domain E now d db0 = set_status d ''renewing'' '''' # go_live now d c1)"
    using active same issued_name [of E "cd_domain d" "previous_leaf E c0"]
    by (auto simp: process_domain_def maybeRenew_def Let_def split: sum.splits prod.splits)
  then show ?thesis using stays failed renewing_failed renewed by (auto simp del: run_txns_Cons)
qed


subsection \<open>A scan\<close>

definition calm :: "control_db \<Rightarrow> control_db \<Rightarrow> bool" where
  "calm db db' \<longleftrightarrow> tb_servers db' = tb_servers db \<and> tb_assigned db' = tb_assigned db \<and> zones_kept db db' \<and>
     (\<forall>n c. GetTLSCert n db = Inr c \<longrightarrow> (\<exists>c'. GetTLSCert n db' = Inr c'))"

lemma calm_refl [simp]: "calm db db"
  by (simp add: calm_def)

lemma calm_trans: "calm a b \<Longrightarrow> calm b c \<Longrightarrow> calm a c"
  unfolding calm_def using zones_kept_trans by metis

lemma pass_calm: "pass_effect d db db' \<Longrightarrow> calm db db'"
  unfolding pass_effect_def calm_def certs_kept_def by metis

lemma scan_domain_effect: "pass_effect d db (scan_domain E now db d)"
  by (simp add: scan_domain_def process_effect)

lemma scan_others:
  "\<forall>d \<in> set ds. cd_id d \<noteq> i \<Longrightarrow>
   calm db (foldl (scan_domain E now) db ds) \<and> GetCustomDomain i (foldl (scan_domain E now) db ds) = GetCustomDomain i db"
proof (induction ds arbitrary: db)
  case (Cons d ds)
  have "calm db (scan_domain E now db d)" by (rule pass_calm [OF scan_domain_effect])
  moreover have "GetCustomDomain i (scan_domain E now db d) = GetCustomDomain i db"
    using scan_domain_effect [of d db E now] Cons.prems by (auto simp: pass_effect_def)
  moreover have "\<forall>d \<in> set ds. cd_id d \<noteq> i" using Cons.prems by simp
  ultimately show ?case using Cons.IH [of "scan_domain E now db d"] calm_trans by auto
qed simp

lemma calm_expectations: "calm db db' \<Longrightarrow> expectations d db' = expectations d db"
  by (auto simp: calm_def zones_kept_def expectations_def ListServers_def split: sum.splits
      dest!: spec [of _ "cd_zone d"])

lemma live_after: "live d db \<Longrightarrow> calm db db' \<Longrightarrow> GetCustomDomain (cd_id d) db' = GetCustomDomain (cd_id d) db \<Longrightarrow> live d db'"
  unfolding live_def calm_def by metis

text \<open>The scan around one domain: what runs before and after its own pass leaves its row alone.\<close>

lemma scan_split:
  assumes "wf_db db" "d \<in> set (tb_domains db)"
  obtains db1 where "calm db db1" "GetCustomDomain (cd_id d) db1 = Inr d"
    "calm (scan_domain E now db1 d) (scan_domains E now db)"
    "GetCustomDomain (cd_id d) (scan_domains E now db) = GetCustomDomain (cd_id d) (scan_domain E now db1 d)"
proof -
  have ids: "distinct (map cd_id (tb_domains db))" using assms(1) by (simp add: wf_db_def)
  then have "distinct (map cd_id (ListAllCustomDomains db))"
    using mset_eq_imp_distinct_iff [of "map cd_id (ListAllCustomDomains db)" "map cd_id (tb_domains db)"]
    by (simp add: ListAllCustomDomains_def)
  moreover obtain xs ys where split: "ListAllCustomDomains db = xs @ d # ys"
    using split_list [of d "ListAllCustomDomains db"] assms(2) by (auto simp: ListAllCustomDomains_def)
  ultimately have other: "\<forall>x \<in> set xs. cd_id x \<noteq> cd_id d" "\<forall>x \<in> set ys. cd_id x \<noteq> cd_id d"
    by (auto simp: image_iff)
  have row: "GetCustomDomain (cd_id d) db = Inr d"
    using assms(2) ids
    by (auto simp: GetCustomDomain_def find_None_iff find_Some_iff distinct_map split: option.splits dest: inj_onD)
  let ?db1 = "foldl (scan_domain E now) db xs"
  have "scan_domains E now db = foldl (scan_domain E now) (scan_domain E now ?db1 d) ys"
    by (simp add: scan_domains_def split)
  then show ?thesis
    using that [of ?db1] scan_others [OF other(1), of db E now] scan_others [OF other(2), of "scan_domain E now ?db1 d" E now] row
    by simp
qed

text \<open>
  C22: the renewal never takes a domain down: a custom domain that is active and has its certificate
  stored is active with a certificate stored after every scan, whatever the DNS says, whether the
  authority issues or refuses, and whatever the other domains do.
\<close>

theorem scan_keeps_serving:
  assumes "wf_db db" "d \<in> set (tb_domains db)" "cd_status d = ''active''" "GetTLSCert (certName d) db = Inr c"
  shows "\<exists>d' c'. GetCustomDomain (cd_id d) (scan_domains E now db) = Inr d' \<and> cd_status d' = ''active'' \<and>
    cd_domain d' = cd_domain d \<and> cd_zone d' = cd_zone d \<and> GetTLSCert (certName d') (scan_domains E now db) = Inr c'"
proof -
  obtain db1 where db1: "calm db db1" "GetCustomDomain (cd_id d) db1 = Inr d"
    "calm (scan_domain E now db1 d) (scan_domains E now db)"
    "GetCustomDomain (cd_id d) (scan_domains E now db) = GetCustomDomain (cd_id d) (scan_domain E now db1 d)"
    using scan_split [OF assms(1,2)] .
  obtain c1 where c1: "GetTLSCert (certName d) db1 = Inr c1" using db1(1) assms(4) by (auto simp: calm_def)
  have "live d (scan_domain E now db1 d)"
    using renew_keeps_live [OF db1(2) assms(3) c1 c1] db1(2) assms(3) c1 by (auto simp: scan_domain_def live_def)
  then have "live d (scan_domains E now db)" using live_after db1(3,4) by blast
  then show ?thesis by (auto simp: live_def)
qed


lemma expectations_zone: "expectations d db = Inr x \<Longrightarrow> \<exists>z. GetZone (cd_zone d) db = Inr z"
  by (auto simp: expectations_def split: sum.splits)

text \<open>
  C23: a domain that points at Brisk goes live within one scan: when the backoff gate of a domain that is
  not active has passed, its DNS leads to the zone's host name or to an edge, and the authority issues,
  then after the scan the domain is listed as active for every server its zone is assigned to, a
  certificate is stored under its name, and the version of its zone has grown, so the edges pull it.
\<close>

theorem pointed_domain_goes_live:
  assumes "wf_db db" "d \<in> set (tb_domains db)" "cd_status d \<notin> {''active'', ''renewing''}" "\<not> waits now d"
    and "expectations d db = Inr (names, ips)" "vr_ok (Verify (me_dns E) (cd_domain d) names ips)"
    and "me_obtain E (cd_domain d) None = Inr b"
  shows "\<exists>d' c z z'. cd_id d' = cd_id d \<and> cd_domain d' = cd_domain d \<and>
    (\<forall>server. (server, cd_zone d) \<in> set (tb_assigned db) \<longrightarrow>
       d' \<in> set (ListActiveCustomDomainsForServer key server (scan_domains E now db))) \<and>
    GetTLSCert (certName d') (scan_domains E now db) = Inr c \<and>
    GetZone (cd_zone d) db = Inr z \<and> GetZone (cd_zone d) (scan_domains E now db) = Inr z' \<and> sz_version z < sz_version z'"
proof -
  let ?db' = "scan_domains E now db"
  obtain db1 where db1: "calm db db1" "GetCustomDomain (cd_id d) db1 = Inr d"
    "calm (scan_domain E now db1 d) ?db'"
    "GetCustomDomain (cd_id d) ?db' = GetCustomDomain (cd_id d) (scan_domain E now db1 d)"
    using scan_split [OF assms(1,2)] .
  have e1: "expectations d db1 = Inr (names, ips)" using calm_expectations [OF db1(1)] assms(5) by simp
  obtain z z1 where z: "GetZone (cd_zone d) db = Inr z" "GetZone (cd_zone d) db1 = Inr z1" "sz_version z \<le> sz_version z1"
    using expectations_zone [OF assms(5)] db1(1)
    by (auto simp: calm_def zones_kept_def split: sum.splits dest!: spec [of _ "cd_zone d"])
  have pass: "scan_domain E now db1 d = run_txns (verifyThenIssue E now d db1) db1"
    using assms(3,4) by (simp add: scan_domain_def process_domain_def)
  have "live d (scan_domain E now db1 d)" "GetZone (cd_zone d) (scan_domain E now db1 d) = Inr (bump_zone z1)"
    unfolding pass using verify_goes_live [OF db1(2) refl refl e1 assms(6,7)] z(2) by blast+
  moreover from this(1) have "live d ?db'" using live_after db1(3,4) by blast
  ultimately obtain d' c z' where l: "GetCustomDomain (cd_id d) ?db' = Inr d'" "cd_status d' = ''active''" "cd_domain d' = cd_domain d"
      "cd_zone d' = cd_zone d" "GetTLSCert (certName d') ?db' = Inr c"
      "GetZone (cd_zone d) ?db' = Inr z'" "sz_version (bump_zone z1) \<le> sz_version z'"
    using db1(3) by (auto simp: live_def calm_def zones_kept_def split: sum.splits dest!: spec [of _ "cd_zone d"])
  have "d' \<in> set (tb_domains ?db')" "cd_id d' = cd_id d"
    using l(1) by (auto simp: GetCustomDomain_def find_Some_iff dest: nth_mem split: option.splits)
  moreover have "tb_assigned ?db' = tb_assigned db" using db1(1,3) scan_domain_effect [of d db1 E now]
    by (simp add: calm_def pass_effect_def)
  ultimately show ?thesis using l z by (intro exI [of _ d'] exI [of _ c] exI [of _ z] exI [of _ z'])
    (auto simp: ListActiveCustomDomainsForServer_def bump_zone_def)
qed


text \<open>
  the certificate authority is not asked before the DNS check passes: while the domain's DNS leads
  neither to the zone's host name nor to an edge, a pass is the same whatever the authority would answer,
  and it stores no certificate.
\<close>

theorem acme_only_after_dns:
  assumes "expectations d db = Inr (names, ips)" "\<not> vr_ok (Verify (me_dns E) (cd_domain d) names ips)"
  shows "process_domain (E\<lparr>me_obtain := f\<rparr>) now d db = process_domain E now d db \<and>
    (\<forall>c. OnDomain (TUpsertTLSCert c) \<notin> set (process_domain E now d db))"
  using assms
  by (auto simp: process_domain_def maybeRenew_def verifyThenIssue_def Let_def set_status_def mark_failure_def split: sum.splits)

lemma verify_fails:
  assumes "GetCustomDomain (cd_id d) db = Inr x" "expectations d db0 = Inr (names, ips)"
    and "vr_ok (Verify (me_dns E) (cd_domain d) names ips)" "me_obtain E (cd_domain d) None = Inl e"
  shows "\<exists>d'. GetCustomDomain (cd_id d) (run_txns (verifyThenIssue E now d db0) db) = Inr d' \<and> cd_status d' = ''failed'' \<and>
    cd_id d' = cd_id x \<and> cd_attempts d' = 1 \<and> cd_next d' = Some (now + backoff issueBackoffBase issueBackoffMax (cd_attempts d))"
  using assms by (simp add: verifyThenIssue_def Let_def issue_def GetCustomDomain_set)

lemma scan_waits:
  assumes "wf_db db" "GetCustomDomain i db = Inr d" "waits now d"
  shows "GetCustomDomain i (scan_domains E now db) = Inr d"
proof -
  have d: "d \<in> set (tb_domains db)" "cd_id d = i"
    using assms(2) by (auto simp: GetCustomDomain_def find_Some_iff dest: nth_mem split: option.splits)
  obtain db1 where "GetCustomDomain (cd_id d) db1 = Inr d"
    "GetCustomDomain (cd_id d) (scan_domains E now db) = GetCustomDomain (cd_id d) (scan_domain E now db1 d)"
    using scan_split [OF assms(1) d(1)] .
  then show ?thesis using assms(3) d(2) by (simp add: scan_domain_def)
qed

lemma scan_wf: "wf_db db \<Longrightarrow> wf_db (scan_domains E now db)"
proof -
  have "wf_db db \<Longrightarrow> wf_db (foldl (scan_domain E now) db ds)" for ds
    by (induction ds arbitrary: db) (simp_all add: scan_domain_def wf_run_txns)
  then show "wf_db db \<Longrightarrow> wf_db (scan_domains E now db)" by (simp add: scan_domains_def)
qed

text \<open>A run of scans, each with its environment and time.\<close>

definition rescan :: "(mgr_env \<times> instant) list \<Rightarrow> control_db \<Rightarrow> control_db" where
  "rescan ts db = foldl (\<lambda>db (E, now). scan_domains E now db) db ts"

text \<open>
  attempts on the certificate authority are spaced: when a scan tries to issue for a domain and the
  authority refuses, the domain is marked failed and no scan of the following twenty minutes touches its
  row again.
\<close>

theorem issue_attempts_spaced:
  assumes "wf_db db" "d \<in> set (tb_domains db)" "cd_status d \<notin> {''active'', ''renewing''}" "\<not> waits now d"
    and "expectations d db = Inr (names, ips)" "vr_ok (Verify (me_dns E) (cd_domain d) names ips)"
    and "me_obtain E (cd_domain d) None = Inl e"
    and "\<forall>(E', t) \<in> set scans. t < now + issueBackoffBase"
  shows "\<exists>d'. cd_status d' = ''failed'' \<and> GetCustomDomain (cd_id d) (scan_domains E now db) = Inr d' \<and>
    GetCustomDomain (cd_id d) (rescan scans (scan_domains E now db)) = Inr d'"
proof -
  obtain db1 where db1: "calm db db1" "GetCustomDomain (cd_id d) db1 = Inr d"
    "GetCustomDomain (cd_id d) (scan_domains E now db) = GetCustomDomain (cd_id d) (scan_domain E now db1 d)"
    using scan_split [OF assms(1,2)] .
  have e1: "expectations d db1 = Inr (names, ips)" using calm_expectations [OF db1(1)] assms(5) by simp
  obtain d' where d': "GetCustomDomain (cd_id d) (scan_domains E now db) = Inr d'" "cd_status d' = ''failed''"
      "cd_next d' = Some (now + backoff issueBackoffBase issueBackoffMax (cd_attempts d))"
    using verify_fails [OF db1(2) e1 assms(6,7), of now] db1(3) assms(3,4) by (auto simp: scan_domain_def process_domain_def)
  have wait: "waits t d'" if "t < now + issueBackoffBase" for t
    using that issue_backoff_ge [of "cd_attempts d"] by (simp add: waits_def d'(3))
  have "GetCustomDomain (cd_id d) (rescan scans db2) = Inr d'"
    if "wf_db db2" "GetCustomDomain (cd_id d) db2 = Inr d'" "\<forall>(E', t) \<in> set scans. t < now + issueBackoffBase" for db2
    using that
  proof (induction scans arbitrary: db2)
    case (Cons p ps)
    obtain E' t where p: "p = (E', t)" by fastforce
    have "GetCustomDomain (cd_id d) (scan_domains E' t db2) = Inr d'"
      using scan_waits [OF Cons.prems(1,2)] wait Cons.prems(3) by (simp add: p)
    then show ?case using Cons.IH [of "scan_domains E' t db2"] scan_wf [OF Cons.prems(1)] Cons.prems(3)
      by (simp add: rescan_def p)
  qed (simp add: rescan_def)
  then show ?thesis using d' scan_wf [OF assms(1)] assms(8) by blast
qed


subsection \<open>Witnesses\<close>

text \<open>\<open>www.c.com\<close> on the demonstration network: a CNAME to the zone's host name, and an authority that issues.\<close>

definition demo_domain_row :: custom_domain where
  "demo_domain_row = \<lparr>cd_id = 1, cd_zone = 1, cd_account = 1, cd_domain = ''www.c.com'', cd_status = ''pending_dns'',
     cd_method = ''cname'', cd_cert = ''www.c.com'', cd_error = '''', cd_attempts = 0, cd_verified = Some 0, cd_next = None\<rparr>"

definition demo_pending :: control_db where
  "demo_pending = run_txns [OnDomain (TSetCustomDomainStatus 1 ''pending_dns'' '''')] demo_network"

definition demo_mgr :: "(string + acme_bundle) \<Rightarrow> mgr_env" where
  "demo_mgr answer = \<lparr>me_dns = \<lparr>rv_cname = (\<lambda>n. Inr ''A.b.com.''), rv_host = (\<lambda>n. Inr [''192.0.2.1''])\<rparr>,
     me_obtain = (\<lambda>n p. answer), me_parse = (\<lambda>c. Some \<lparr>lf_issuer = ''CA'', lf_serial = c, lf_not_after = 0\<rparr>),
     me_staging = False\<rparr>"

definition demo_lost :: mgr_env where
  "demo_lost = (demo_mgr (Inl ''refused''))\<lparr>me_dns := \<lparr>rv_cname = (\<lambda>n. Inl ''nx''), rv_host = (\<lambda>n. Inl ''nx'')\<rparr>\<rparr>"

definition demo_bundle :: acme_bundle where
  "demo_bundle = \<lparr>bu_chain = ''NEW'', bu_key = ''K'', bu_leaf = Some \<lparr>lf_issuer = ''CA'', lf_serial = ''2'', lf_not_after = 9\<rparr>\<rparr>"

lemma wf_demo_pending: "wf_db demo_pending"
  unfolding demo_pending_def by (rule wf_run_txns [OF wf_demo])

lemma demo_pending_facts:
  "tb_domains demo_pending = [demo_domain_row] \<and> expectations demo_domain_row demo_pending = Inr ([''a.b.com''], [''192.0.2.1'']) \<and>
   tb_assigned demo_pending = [(1, 1)] \<and>
   vr_ok (Verify (me_dns (demo_mgr (Inl ''''))) ''www.c.com'' [''a.b.com''] [''192.0.2.1'']) \<and>
   \<not> vr_ok (Verify (me_dns demo_lost) ''www.c.com'' [''a.b.com''] [''192.0.2.1''])"
  by code_simp

lemma demo_mgr_verifies: "vr_ok (Verify (me_dns (demo_mgr x)) ''www.c.com'' [''a.b.com''] [''192.0.2.1''])"
  using demo_pending_facts by (simp add: demo_mgr_def)

lemma pointed_domain_goes_live_witness:
  "\<exists>d'. d' \<in> set (ListActiveCustomDomainsForServer (\<lambda>s. 0) 1 (scan_domains (demo_mgr (Inr demo_bundle)) 7 demo_pending)) \<and>
     cd_domain d' = ''www.c.com''"
proof -
  have d: "demo_domain_row \<in> set (tb_domains demo_pending)" "cd_status demo_domain_row \<notin> {''active'', ''renewing''}"
    "\<not> waits 7 demo_domain_row"
    and e: "expectations demo_domain_row demo_pending = Inr ([''a.b.com''], [''192.0.2.1''])"
    and v: "vr_ok (Verify (me_dns (demo_mgr (Inr demo_bundle))) (cd_domain demo_domain_row) [''a.b.com''] [''192.0.2.1''])"
    and o: "me_obtain (demo_mgr (Inr demo_bundle)) (cd_domain demo_domain_row) None = Inr demo_bundle"
    and a: "(1, cd_zone demo_domain_row) \<in> set (tb_assigned demo_pending)"
    using demo_pending_facts demo_mgr_verifies by (simp_all add: demo_domain_row_def waits_def demo_mgr_def)
  show ?thesis using pointed_domain_goes_live [OF wf_demo_pending d e v o, where key = "\<lambda>s. 0"] a
    by (auto simp: demo_domain_row_def)
qed

lemma issue_attempts_spaced_witness:
  "\<exists>d'. cd_status d' = ''failed'' \<and>
     GetCustomDomain 1 (rescan [(demo_mgr (Inr demo_bundle), 30), (demo_lost, 60)]
       (scan_domains (demo_mgr (Inl ''refused'')) 7 demo_pending)) = Inr d'"
proof -
  have d: "demo_domain_row \<in> set (tb_domains demo_pending)" "cd_status demo_domain_row \<notin> {''active'', ''renewing''}"
    "\<not> waits 7 demo_domain_row"
    and e: "expectations demo_domain_row demo_pending = Inr ([''a.b.com''], [''192.0.2.1''])"
    and v: "vr_ok (Verify (me_dns (demo_mgr (Inl ''refused''))) (cd_domain demo_domain_row) [''a.b.com''] [''192.0.2.1''])"
    and o: "me_obtain (demo_mgr (Inl ''refused'')) (cd_domain demo_domain_row) None = Inl ''refused''"
    and s: "\<forall>(E', t) \<in> set [(demo_mgr (Inr demo_bundle), 30), (demo_lost, 60)]. t < 7 + issueBackoffBase"
    using demo_pending_facts demo_mgr_verifies
    by (simp_all add: demo_domain_row_def waits_def demo_mgr_def issueBackoffBase_def durations)
  show ?thesis using issue_attempts_spaced [OF wf_demo_pending d e v o s] by (auto simp: demo_domain_row_def)
qed

lemma acme_only_after_dns_witness:
  "process_domain (demo_lost\<lparr>me_obtain := \<lambda>n p. Inr demo_bundle\<rparr>) 7 demo_domain_row demo_pending =
   process_domain demo_lost 7 demo_domain_row demo_pending"
proof -
  have "expectations demo_domain_row demo_pending = Inr ([''a.b.com''], [''192.0.2.1''])"
    "\<not> vr_ok (Verify (me_dns demo_lost) (cd_domain demo_domain_row) [''a.b.com''] [''192.0.2.1''])"
    using demo_pending_facts by (simp_all add: demo_domain_row_def)
  then show ?thesis using acme_only_after_dns by blast
qed

text \<open>The domain active with a stored certificate, its DNS gone.\<close>

definition demo_served :: control_db where
  "demo_served = run_txns [OnDomain (TUpsertTLSCert (demo_cert\<lparr>tc_name := ''www.c.com''\<rparr>))] demo_network"

lemma scan_keeps_serving_witness:
  "\<exists>d'. GetCustomDomain 1 (scan_domains demo_lost 7 demo_served) = Inr d' \<and> cd_status d' = ''active''"
proof -
  have d: "demo_domain_row\<lparr>cd_status := ''active''\<rparr> \<in> set (tb_domains demo_served)"
    and c: "GetTLSCert (certName (demo_domain_row\<lparr>cd_status := ''active''\<rparr>)) demo_served =
      Inr (demo_cert\<lparr>tc_id := 2, tc_name := ''www.c.com''\<rparr>)"
    by code_simp+
  have "wf_db demo_served" unfolding demo_served_def by (rule wf_run_txns [OF wf_demo])
  from scan_keeps_serving [OF this d _ c, of demo_lost 7] show ?thesis by (auto simp: demo_domain_row_def)
qed


subsection \<open>Where the code departs from its comments\<close>

text \<open>
  The renewal of an active domain begins by setting its status to \<open>renewing\<close>, and the edges are served
  the domains with status \<open>active\<close> only: until the authority has answered, a pull drops the vhost.
\<close>

lemma renewing_is_not_served:
  assumes "GetCustomDomain (cd_id d) db = Inr d" "wf_db db"
    and "d' \<in> set (ListActiveCustomDomainsForServer key server (run_txn (set_status d ''renewing'' '''') db))"
  shows "cd_id d' \<noteq> cd_id d"
  using assms(1,3) by (auto simp: ListActiveCustomDomainsForServer_def set_domain_def)

text \<open>A process that stops after storing the renewed certificate leaves the domain \<open>renewing\<close>, and no later pass changes that.\<close>

lemma renewing_stays:
  assumes "cd_status d = ''renewing''" "GetTLSCert (certName d) db = Inr c" "tc_staging c = me_staging E"
    and "me_parse E (tc_chain c) = Some l" "lf_not_after l - now > renew_margin"
  shows "process_domain E now d db = []"
  using assms by (simp add: process_domain_def maybeRenew_def)

text \<open>
  The verification resets the count of attempts before the issuance that may fail, so from its second
  refusal on the gate is forty minutes: the backoff never grows towards its maximum.
\<close>

lemma issue_backoff_never_grows:
  assumes "GetCustomDomain (cd_id d) db = Inr d" "cd_attempts d = 1" "expectations d db = Inr (names, ips)"
    and "vr_ok (Verify (me_dns E) (cd_domain d) names ips)" "me_obtain E (cd_domain d) None = Inl e"
  shows "\<exists>d'. GetCustomDomain (cd_id d) (run_txns (verifyThenIssue E now d db) db) = Inr d' \<and>
    cd_attempts d' = 1 \<and> cd_next d' = Some (now + 40 * minute)"
proof -
  have "backoff issueBackoffBase issueBackoffMax 1 = 40 * minute"
    by (simp add: backoff_def issueBackoffBase_def issueBackoffMax_def durations)
  then show ?thesis using verify_fails [OF assms(1,3-5), of now] assms(2) by auto
qed

text \<open>
  The check accepts any name that resolves to any edge: it does not ask whose name it is. A tenant who
  attaches a name another tenant points at Brisk gets it verified, and with it a certificate and a vhost.
\<close>

lemma verify_accepts_any_name_on_an_edge:
  assumes "rv_host R (normalizeHost name) = Inr found" "set found \<inter> set (toSet ips) \<noteq> {}"
  shows "vr_ok (Verify R name names ips)"
  using assms by (auto simp: Verify_iff)

subsection \<open>The wildcard certificate\<close>

text \<open>After a check that worked the stored certificate is one the next check leaves alone, if the authority's are fresh.\<close>

lemma EnsureOnce_settles:
  assumes "EnsureOnce M now db = (Inr b, db')"
    and "\<And>ds p b. am_obtain M ds p = Inr b \<Longrightarrow> \<exists>l. am_parse M (bu_chain b) = Some l \<and> lf_not_after l - now \<ge> renew_margin"
  shows "EnsureOnce M now db' = (Inr False, db')"
proof (cases "needs_cert M now (GetTLSCert (am_name M) db)")
  case False
  then show ?thesis using assms(1) by (auto simp: EnsureOnce_def Let_def)
next
  case True
  then obtain x where "am_obtain M (am_domains M) (replaced_leaf M (GetTLSCert (am_name M) db)) = Inr x"
    "db' = UpsertTLSCert (cert_record (am_name M) (join '','' (am_domains M)) (am_staging M) x) db"
    using assms(1) by (auto simp: EnsureOnce_def Let_def split: sum.splits)
  moreover from this(1) obtain l where "am_parse M (bu_chain x) = Some l" "lf_not_after l - now \<ge> renew_margin"
    using assms(2) by blast
  ultimately show ?thesis
    by (simp add: EnsureOnce_def needs_cert_def GetTLSCert_upsert cert_record_def)
qed

lemma ensure_backoff_bounded:
  assumes "ensure_turn M now wait db = (pause, next, db')" "ensure_min \<le> wait" "wait \<le> ensure_max"
  shows "ensure_min \<le> next \<and> next \<le> ensure_max \<and> (pause = wait \<or> pause = ensure_steady)"
  using assms by (auto simp: ensure_turn_def ensure_min_def ensure_max_def durations split: sum.splits prod.splits if_splits)

end
