(* ===== verification/Provision.thy ===== *)
theory Provision
  imports ZonesApi
begin

section \<open>Onboarding an edge over SSH\<close>

text \<open>
  \<open>brisk-control/internal/provision/provision.go\<close> with \<open>store/provision.go\<close>: the key pair of the control
  plane, the connection with its host-key check (trust on first use), the steps of an onboarding and
  the push of a rotated token. The SSH, SFTP, YAML and key libraries and the machine that answers are
  parameters: \<open>net ip port\<close> is what answers there, if anything. The effects are what left for that
  machine, in order; \<open>Offered\<close> is the user authentication, which the SSH library begins only after the
  host-key callback has accepted the machine's key.
\<close>

record ssh_creds =
  sc_user :: string
  sc_port :: int
  sc_password :: string
  sc_key :: string

datatype auth_method = ByPassword string | ByKey string

type_synonym yaml_map = "string \<rightharpoonup> string"

text \<open>
  \<open>sh_key\<close>: the host key as an authorized-keys line. The results of the remote calls are \<open>None\<close> for
  success. \<open>sh_bootstrap\<close>: the lines the bootstrap prints and its end, the timeout of eight minutes included.
\<close>

record ssh_host =
  sh_key :: string
  sh_accepts :: "string \<Rightarrow> auth_method list \<Rightarrow> bool"
  sh_run :: "string \<Rightarrow> string option"
  sh_copy :: "string option"
  sh_config :: yaml_map
  sh_write :: "yaml_map \<Rightarrow> string option"
  sh_bootstrap :: "string list \<times> string option"

datatype ssh_effect =
    Offered "auth_method list"
  | Ran string
  | CopiedAgent
  | WroteConfig yaml_map
  | Bootstrapped

text \<open>
  \<open>pv_parses\<close>: \<open>ssh.ParsePrivateKey\<close> accepts the PEM text. \<open>pv_new_key\<close>: the generated pair, \<open>None\<close> when
  the random source or the encoding fails.
\<close>

record prov_env =
  pv_url :: string
  pv_nats :: string
  pv_binary_size :: nat
  pv_parses :: "string \<Rightarrow> bool"
  pv_new_key :: "(string \<times> string) option"
  pv_net :: "string \<Rightarrow> int \<Rightarrow> ssh_host option"

record prov_world =
  pw_db :: control_db
  pw_private :: string
  pw_public :: string

definition agentRemotePath :: string where
  "agentRemotePath = ''/usr/local/bin/brisk-agent''"

definition agentConfigPath :: string where
  "agentConfigPath = ''/etc/brisk/agent.yaml''"

definition effPort :: "int \<Rightarrow> int" where
  "effPort p = (if p = 0 then 22 else p)"

definition GetCPIdentity :: "prov_world \<Rightarrow> string \<times> string" where
  "GetCPIdentity w = (pw_private w, pw_public w)"

definition SaveCPIdentity :: "string \<Rightarrow> string \<Rightarrow> prov_world \<Rightarrow> prov_world" where
  "SaveCPIdentity priv pub w = w\<lparr>pw_private := priv, pw_public := pub\<rparr>"

definition prov_log :: "int \<Rightarrow> string \<Rightarrow> string \<Rightarrow> prov_world \<Rightarrow> prov_world" where
  "prov_log i level msg w = w\<lparr>pw_db := AddProvisionLog i level msg (pw_db w)\<rparr>"

text \<open>The key pair is made and stored on first use; the public line and the private key.\<close>

definition ensureCPIdentity :: "prov_env \<Rightarrow> prov_world \<Rightarrow> prov_world \<times> (string + string \<times> string)" where
  "ensureCPIdentity E w =
     (let (priv, pub) = GetCPIdentity w;
          made = (if priv \<noteq> '''' then Inr (priv, pub, w)
                  else (case pv_new_key E of
                          None \<Rightarrow> Inl ''key generation failed''
                        | Some (k, p) \<Rightarrow> Inr (k, p, SaveCPIdentity k p w))) in
      case made of
        Inl e \<Rightarrow> (w, Inl e)
      | Inr (k, p, w') \<Rightarrow> if pv_parses E k then (w', Inr (p, k)) else (w', Inl ''ssh: no key found''))"

definition pinned_key :: "store_server \<Rightarrow> string" where
  "pinned_key srv = (case ss_host_key srv of None \<Rightarrow> '''' | Some k \<Rightarrow> trim_space k)"

text \<open>The host-key callback: refuse, accept, or accept and capture.\<close>

definition host_key_check :: "string \<Rightarrow> string \<Rightarrow> string option" where
  "host_key_check pinned line = (if pinned \<noteq> '''' then (if line \<noteq> pinned then None else Some '''') else Some line)"

definition auth_methods :: "prov_env \<Rightarrow> ssh_creds \<Rightarrow> string \<Rightarrow> auth_method list" where
  "auth_methods E c signer =
     (if sc_password c \<noteq> '''' then [ByPassword (sc_password c)] else []) @
     (if sc_key c \<noteq> '''' \<and> pv_parses E (sc_key c) then [ByKey (sc_key c)] else []) @ [ByKey signer]"

definition dial ::
  "prov_env \<Rightarrow> store_server \<Rightarrow> ssh_creds \<Rightarrow> string \<Rightarrow> ssh_effect list \<times> (string + ssh_host \<times> string)" where
  "dial E srv c signer =
     (case pv_net E (ss_ip srv) (effPort (sc_port c)) of
        None \<Rightarrow> ([], Inl ''connection refused'')
      | Some h \<Rightarrow>
          (case host_key_check (pinned_key srv) (trim_space (sh_key h)) of
             None \<Rightarrow> ([], Inl ''host key mismatch (possible MITM)'')
           | Some captured \<Rightarrow>
               (let methods = auth_methods E c signer in
                if sh_accepts h (sc_user c) methods then ([Offered methods], Inr (h, captured))
                else ([Offered methods], Inl ''unable to authenticate''))))"

text \<open>The configuration that is written: the file's own keys, these overwritten.\<close>

definition agent_yaml :: "prov_env \<Rightarrow> store_server \<Rightarrow> string \<Rightarrow> yaml_map \<Rightarrow> yaml_map" where
  "agent_yaml E srv tok m =
     (let m1 = (if m ''mode'' = None then m(''mode'' \<mapsto> ''production'') else m);
          m2 = m1(''edge_id'' \<mapsto> ss_edge srv, ''control_plane_url'' \<mapsto> pv_url E, ''agent_token'' \<mapsto> tok)
      in if pv_nats E \<noteq> '''' then m2(''nats_url'' \<mapsto> pv_nats E) else m2)"

definition writeAgentConfig :: "prov_env \<Rightarrow> ssh_host \<Rightarrow> store_server \<Rightarrow> string \<Rightarrow> ssh_effect list \<times> string option" where
  "writeAgentConfig E h srv tok =
     (let m = agent_yaml E srv tok (sh_config h) in ([WroteConfig m], sh_write h m))"

definition install_key_cmd :: "string \<Rightarrow> string" where
  "install_key_cmd key =
     ''mkdir -p ~/.ssh && chmod 700 ~/.ssh && touch ~/.ssh/authorized_keys && chmod 600 ~/.ssh/authorized_keys && grep -qxF '' @
     [CHR 39] @ key @ [CHR 39] @ '' ~/.ssh/authorized_keys || echo '' @ [CHR 39] @ key @ [CHR 39] @ '' >> ~/.ssh/authorized_keys''"

definition stop_agent_cmd :: string where
  "stop_agent_cmd = ''systemctl stop brisk-agent 2>/dev/null || true''"

definition restart_agent_cmd :: string where
  "restart_agent_cmd = ''systemctl restart brisk-agent 2>/dev/null || true''"

text \<open>The steps on a connected machine, each logged; the first failure ends them.\<close>

definition onboard ::
  "prov_env \<Rightarrow> ssh_host \<Rightarrow> store_server \<Rightarrow> string \<Rightarrow> string \<Rightarrow> prov_world \<Rightarrow> prov_world \<times> string option \<times> ssh_effect list" where
  "onboard E h srv pub tok w =
     (let i = ss_id srv; install = Ran (install_key_cmd pub); stop = Ran stop_agent_cmd in
      case sh_run h (install_key_cmd pub) of
        Some e \<Rightarrow> (prov_log i ''error'' (''install control-plane key: '' @ e) w, Some e, [install])
      | None \<Rightarrow>
          (let w1 = prov_log i ''info'' ''installed control-plane SSH key'' w in
           case sh_copy h of
             Some e \<Rightarrow> (prov_log i ''error'' (''copy agent binary: '' @ e) w1, Some e, [install, stop, CopiedAgent])
           | None \<Rightarrow>
               (let w2 = prov_log i ''info''
                           (''copied brisk-agent ('' @ show_nat (pv_binary_size E) @ '' bytes) to '' @ agentRemotePath) w1;
                    (wrote, err) = writeAgentConfig E h srv tok in
                case err of
                  Some e \<Rightarrow> (prov_log i ''error'' (''write agent.yaml: '' @ e) w2, Some e, [install, stop, CopiedAgent] @ wrote)
                | None \<Rightarrow>
                    (let w3 = prov_log i ''info'' ''running brisk-agent --bootstrap ...''
                                (prov_log i ''info''
                                  (''wrote '' @ agentConfigPath @ '' (control_plane_url + token; zones preserved)'') w2);
                         w4 = foldl (\<lambda>w line. prov_log i ''info'' line w) w3 (fst (sh_bootstrap h));
                         done' = [install, stop, CopiedAgent] @ wrote @ [Bootstrapped] in
                     case snd (sh_bootstrap h) of
                       Some e \<Rightarrow> (prov_log i ''error'' (''bootstrap failed: '' @ e) w4, Some e, done')
                     | None \<Rightarrow> (prov_log i ''info'' ''bootstrap complete; agent will heartbeat and flip status to online'' w4,
                                None, done')))))"

definition pin_host_key :: "int \<Rightarrow> string \<Rightarrow> prov_world \<Rightarrow> prov_world" where
  "pin_host_key i captured w =
     (if captured = '''' then w else w\<lparr>pw_db := SetServerHostKey i captured (pw_db w)\<rparr>)"

definition connected_msg :: "store_server \<Rightarrow> ssh_creds \<Rightarrow> string" where
  "connected_msg srv c = ''connected to '' @ ss_ip srv @ '':'' @ show_int (effPort (sc_port c)) @ '' as '' @ sc_user c"

definition Provision ::
  "prov_env \<Rightarrow> store_server \<Rightarrow> ssh_creds \<Rightarrow> string \<Rightarrow> prov_world \<Rightarrow> prov_world \<times> string option \<times> ssh_effect list" where
  "Provision E srv c tok w =
     (let i = ss_id srv in
      case ensureCPIdentity E w of
        (w1, Inl e) \<Rightarrow> (prov_log i ''error'' (''control-plane key: '' @ e) w1, Some e, [])
      | (w1, Inr (pub, signer)) \<Rightarrow>
          (case dial E srv c signer of
             (sent, Inl e) \<Rightarrow> (prov_log i ''error'' (''ssh dial failed: '' @ e) w1, Some e, sent)
           | (sent, Inr (h, captured)) \<Rightarrow>
               (let w2 = pin_host_key i captured (prov_log i ''info'' (connected_msg srv c) w1);
                    w3 = (if captured = '''' then w2 else prov_log i ''info'' ''pinned SSH host key (TOFU)'' w2)
                in case onboard E h srv pub tok w3 of (w', err, eff) \<Rightarrow> (w', err, sent @ eff))))"

definition ssh_user_of :: "store_server \<Rightarrow> string" where
  "ssh_user_of srv = (case ss_ssh_user srv of None \<Rightarrow> ''root'' | Some u \<Rightarrow> if u = '''' then ''root'' else u)"

definition UpdateToken ::
  "prov_env \<Rightarrow> store_server \<Rightarrow> string \<Rightarrow> prov_world \<Rightarrow> prov_world \<times> string option \<times> ssh_effect list" where
  "UpdateToken E srv tok w =
     (case ensureCPIdentity E w of
        (w1, Inl e) \<Rightarrow> (w1, Some e, [])
      | (w1, Inr (pub, signer)) \<Rightarrow>
          (case dial E srv \<lparr>sc_user = ssh_user_of srv, sc_port = ss_ssh_port srv, sc_password = '''', sc_key = ''''\<rparr> signer of
             (sent, Inl e) \<Rightarrow> (w1, Some e, sent)
           | (sent, Inr (h, captured)) \<Rightarrow>
               (let w2 = pin_host_key (ss_id srv) captured w1; (wrote, err) = writeAgentConfig E h srv tok in
                case err of
                  Some e \<Rightarrow> (w2, Some e, sent @ wrote)
                | None \<Rightarrow> (prov_log (ss_id srv) ''info'' ''rotated agent token; restarting agent'' w2,
                           sh_run h restart_agent_cmd, sent @ wrote @ [Ran restart_agent_cmd]))))"

subsection \<open>The jobs of the server handlers\<close>

datatype prov_job = Onboard ssh_creds string | PushToken string

text \<open>
  \<open>runProvision\<close> and the goroutine of \<open>rotateToken\<close>, on the row \<open>srv\<close> the handler read. A push that
  fails is logged by its caller.
\<close>

definition runProvision ::
  "prov_env \<Rightarrow> store_server \<Rightarrow> ssh_creds \<Rightarrow> string \<Rightarrow> prov_world \<Rightarrow> prov_world \<times> ssh_effect list" where
  "runProvision E srv c tok w =
     (case Provision E srv c tok w of
        (w', None, eff) \<Rightarrow> (w', eff)
      | (w', Some e, eff) \<Rightarrow> (w'\<lparr>pw_db := UpdateServerStatus (ss_id srv) ''offline'' (pw_db w')\<rparr>, eff))"

definition push_token :: "prov_env \<Rightarrow> store_server \<Rightarrow> string \<Rightarrow> prov_world \<Rightarrow> prov_world \<times> ssh_effect list" where
  "push_token E srv tok w =
     (case UpdateToken E srv tok w of
        (w', None, eff) \<Rightarrow> (w', eff)
      | (w', Some e, eff) \<Rightarrow> (prov_log (ss_id srv) ''error'' (''token push failed: '' @ e) w', eff))"

fun exec_job :: "prov_env \<Rightarrow> store_server \<Rightarrow> prov_job \<Rightarrow> prov_world \<Rightarrow> prov_world \<times> ssh_effect list" where
  "exec_job E srv (Onboard c tok) w = runProvision E srv c tok w"
| "exec_job E srv (PushToken tok) w = push_token E srv tok w"


text \<open>
  The handlers do not wait for their jobs: each reads the row of its server, hands it to a goroutine and
  answers, so jobs overlap with each other and with every other request. A run is a series of events: a
  handler reads the row of a server and queues a job with it; the \<open>n\<close>-th waiting job runs, against the
  network as it then is; or some other transaction commits. A job reads nothing of the server but the
  row it was handed. The trace is what each job sent.
\<close>

datatype prov_event = Requested int prov_job | JobRuns nat prov_env | Meanwhile txn

fun run_jobs ::
  "prov_event list \<Rightarrow> (store_server \<times> prov_job) list \<Rightarrow> prov_world \<Rightarrow> prov_world \<times> (prov_env \<times> store_server \<times> ssh_effect list) list" where
  "run_jobs [] waiting w = (w, [])"
| "run_jobs (Requested i job # es) waiting w =
     (case GetServer i (pw_db w) of
        Inl e \<Rightarrow> run_jobs es waiting w
      | Inr srv \<Rightarrow> run_jobs es (waiting @ [(srv, job)]) w)"
| "run_jobs (JobRuns n E # es) waiting w =
     (if n < length waiting then
        (case waiting ! n of
           (srv, job) \<Rightarrow>
             (case exec_job E srv job w of
                (w1, eff) \<Rightarrow> (case run_jobs es (take n waiting @ drop (n + 1) waiting) w1 of (w', tr) \<Rightarrow> (w', (E, srv, eff) # tr))))
      else run_jobs es waiting w)"
| "run_jobs (Meanwhile t # es) waiting w = run_jobs es waiting (w\<lparr>pw_db := run_txn t (pw_db w)\<rparr>)"

subsection \<open>What the jobs keep\<close>

text \<open>The row of server \<open>i\<close> has its key and address.\<close>

definition same_host :: "int \<Rightarrow> prov_world \<Rightarrow> prov_world \<Rightarrow> bool" where
  "same_host i w w' \<longleftrightarrow>
     map_option (\<lambda>s. (ss_host_key s, ss_ip s)) (find (\<lambda>s. ss_id s = i) (tb_servers (pw_db w'))) =
     map_option (\<lambda>s. (ss_host_key s, ss_ip s)) (find (\<lambda>s. ss_id s = i) (tb_servers (pw_db w)))"

lemma same_host_refl [simp]: "same_host i w w"
  by (simp add: same_host_def)

lemma same_host_trans: "same_host i w w1 \<Longrightarrow> same_host i w1 w2 \<Longrightarrow> same_host i w w2"
  by (simp add: same_host_def)

lemma same_host_log [simp]: "same_host i w (prov_log j level msg w)"
  by (simp add: same_host_def prov_log_def AddProvisionLog_def)

lemma same_host_status [simp]: "same_host i w (w\<lparr>pw_db := UpdateServerStatus j st (pw_db w)\<rparr>)"
proof -
  have "map_option (\<lambda>s. (ss_host_key s, ss_ip s)) (find (\<lambda>s. ss_id s = i) (map (\<lambda>s. if ss_id s = j then s\<lparr>ss_status := st\<rparr> else s) xs)) =
        map_option (\<lambda>s. (ss_host_key s, ss_ip s)) (find (\<lambda>s. ss_id s = i) xs)" for xs :: "store_server list"
    by (induction xs) auto
  then show ?thesis by (simp add: same_host_def UpdateServerStatus_def set_servers_def)
qed

lemma same_host_pin: "j \<noteq> i \<or> captured = '''' \<Longrightarrow> same_host i w (pin_host_key j captured w)"
proof -
  assume a: "j \<noteq> i \<or> captured = ''''"
  have "find (\<lambda>s. ss_id s = i) (map (\<lambda>s. if ss_id s = j then s\<lparr>ss_host_key := k\<rparr> else s) xs) = find (\<lambda>s. ss_id s = i) xs"
    if "j \<noteq> i" for k and xs :: "store_server list"
    using that by (induction xs) auto
  then show ?thesis using a by (auto simp: same_host_def pin_host_key_def SetServerHostKey_def set_servers_def)
qed

lemma same_host_identity: "ensureCPIdentity E w = (w', r) \<Longrightarrow> same_host i w w'"
  by (auto simp: ensureCPIdentity_def Let_def GetCPIdentity_def SaveCPIdentity_def same_host_def
      split: if_splits option.splits prod.splits)

lemma same_host_logged: "same_host i w w' \<Longrightarrow> same_host i w (prov_log j level msg w')"
  by (rule same_host_trans [OF _ same_host_log])

lemma same_host_lines: "same_host i w w' \<Longrightarrow> same_host i w (foldl (\<lambda>w line. prov_log j level line w) w' ls)"
  by (induction ls arbitrary: w') (simp_all add: same_host_logged)

lemma onboard_same_host: "onboard E h srv pub tok w = (w', e, eff) \<Longrightarrow> same_host i w w'"
  unfolding onboard_def
  by (auto simp: Let_def split: option.splits prod.splits
      intro!: same_host_lines same_host_logged)

text \<open>A connection tells nothing to a machine without the pinned key, and captures nothing then.\<close>

lemma dial_pinned:
  assumes "dial E srv c signer = (sent, r)" "pinned_key srv \<noteq> ''''"
  shows "sent \<noteq> [] \<or> r = Inr (h, captured) \<Longrightarrow>
           \<exists>h. pv_net E (ss_ip srv) (effPort (sc_port c)) = Some h \<and> trim_space (sh_key h) = pinned_key srv"
    and "r = Inr (h, captured) \<Longrightarrow> captured = ''''"
  using assms by (auto simp: dial_def host_key_check_def Let_def split: option.splits if_splits)

text \<open>The machine a job of \<open>srv\<close> may talk to.\<close>

definition holds_pin :: "prov_env \<Rightarrow> store_server \<Rightarrow> bool" where
  "holds_pin E srv \<longleftrightarrow> (\<exists>port h. pv_net E (ss_ip srv) port = Some h \<and> trim_space (sh_key h) = pinned_key srv)"

lemma Provision_pinned:
  assumes p: "Provision E srv c tok w = (w', e, eff)" and k: "pinned_key srv \<noteq> ''''"
  shows "same_host i w w' \<and> (eff \<noteq> [] \<longrightarrow> holds_pin E srv)"
proof -
  obtain w1 r where id: "ensureCPIdentity E w = (w1, r)" by (cases "ensureCPIdentity E w")
  note s1 = same_host_identity [OF id, of i]
  show ?thesis
  proof (cases r)
    case (Inl a)
    then show ?thesis using p id s1 by (auto simp: Provision_def Let_def intro: same_host_trans)
  next
    case (Inr ps)
    obtain pub signer where ps: "ps = (pub, signer)" by (cases ps)
    obtain sent d where d: "dial E srv c signer = (sent, d)" by (cases "dial E srv c signer")
    show ?thesis
    proof (cases d)
      case (Inl a)
      then show ?thesis using p id Inr ps d s1 dial_pinned(1) [OF d k]
        by (auto simp: Provision_def Let_def holds_pin_def intro: same_host_trans)
    next
      case r2: (Inr hc)
      obtain h captured where hc: "hc = (h, captured)" by (cases hc)
      have cap: "captured = ''''" using dial_pinned(2) [OF d k] r2 hc by simp
      obtain w2 e2 eff2 where o': "onboard E h srv pub tok (prov_log (ss_id srv) ''info'' (connected_msg srv c) w1) = (w2, e2, eff2)"
        by (metis prod_cases3)
      have "w' = w2" using p id Inr ps d r2 hc cap o' by (simp add: Provision_def Let_def pin_host_key_def)
      then have "same_host i w w'"
        using same_host_trans [OF same_host_trans [OF s1 same_host_log] onboard_same_host [OF o', of i]] by simp
      moreover have "holds_pin E srv" using dial_pinned(1) [OF d k] r2 hc unfolding holds_pin_def by blast
      ultimately show ?thesis by blast
    qed
  qed
qed

lemma UpdateToken_pinned:
  assumes p: "UpdateToken E srv tok w = (w', e, eff)" and k: "pinned_key srv \<noteq> ''''"
  shows "same_host i w w' \<and> (eff \<noteq> [] \<longrightarrow> holds_pin E srv)"
proof -
  let ?c = "\<lparr>sc_user = ssh_user_of srv, sc_port = ss_ssh_port srv, sc_password = '''', sc_key = ''''\<rparr>"
  obtain w1 r where id: "ensureCPIdentity E w = (w1, r)" by (cases "ensureCPIdentity E w")
  note s1 = same_host_identity [OF id, of i]
  show ?thesis
  proof (cases r)
    case (Inl a)
    then show ?thesis using p id s1 by (auto simp: UpdateToken_def)
  next
    case (Inr ps)
    obtain pub signer where ps: "ps = (pub, signer)" by (cases ps)
    obtain sent d where d: "dial E srv ?c signer = (sent, d)" by (cases "dial E srv ?c signer")
    show ?thesis
    proof (cases d)
      case (Inl a)
      then show ?thesis using p id Inr ps d s1 dial_pinned(1) [OF d k]
        by (auto simp: UpdateToken_def holds_pin_def)
    next
      case r2: (Inr hc)
      obtain h captured where hc: "hc = (h, captured)" by (cases hc)
      have cap: "captured = ''''" using dial_pinned(2) [OF d k] r2 hc by simp
      have "w' = w1 \<or> (\<exists>msg. w' = prov_log (ss_id srv) ''info'' msg w1)"
        using p id Inr ps d r2 hc cap
        by (auto simp: UpdateToken_def Let_def pin_host_key_def split: prod.splits option.splits)
      then have "same_host i w w'" using s1 by (auto intro: same_host_trans)
      moreover have "holds_pin E srv" using dial_pinned(1) [OF d k] r2 hc unfolding holds_pin_def by blast
      ultimately show ?thesis by blast
    qed
  qed
qed

lemma exec_job_pinned:
  assumes p: "exec_job E srv job w = (w', eff)" and k: "pinned_key srv \<noteq> ''''"
  shows "same_host i w w'" "eff \<noteq> [] \<Longrightarrow> holds_pin E srv"
proof -
  have "same_host i w w' \<and> (eff \<noteq> [] \<longrightarrow> holds_pin E srv)"
  proof (cases job)
    case (Onboard c tok)
    obtain w1 e f where 1: "Provision E srv c tok w = (w1, e, f)" by (metis prod_cases3)
    then show ?thesis using p Onboard Provision_pinned [OF 1 k, of i]
      by (cases e) (auto simp: runProvision_def intro: same_host_trans [OF _ same_host_status])
  next
    case (PushToken tok)
    obtain w1 e f where 1: "UpdateToken E srv tok w = (w1, e, f)" by (metis prod_cases3)
    then show ?thesis using p PushToken UpdateToken_pinned [OF 1 k, of i]
      by (cases e) (auto simp: push_token_def intro: same_host_trans [OF _ same_host_log])
  qed
  then show "same_host i w w'" "eff \<noteq> [] \<Longrightarrow> holds_pin E srv" by auto
qed


lemma exec_job_other:
  assumes p: "exec_job E srv job w = (w', eff)" and i: "ss_id srv \<noteq> i"
  shows "same_host i w w'"
proof -
  have pin: "same_host i w u \<Longrightarrow> same_host i w (pin_host_key (ss_id srv) captured u)" for captured u
    using i by (blast intro: same_host_trans same_host_pin)
  have st: "same_host i w u \<Longrightarrow> same_host i w (u\<lparr>pw_db := UpdateServerStatus j st (pw_db u)\<rparr>)" for u j st
    by (rule same_host_trans [OF _ same_host_status])
  have on: "same_host i w u \<Longrightarrow> onboard E h srv pub tok u = (u', e, f) \<Longrightarrow> same_host i w u'" for h pub tok u u' e f
    by (rule same_host_trans [OF _ onboard_same_host])
  show ?thesis
  proof (cases job)
    case (Onboard c tok)
    have P: "same_host i w u" if "Provision E srv c tok w = (u, e, f)" for u e f
      using that unfolding Provision_def Let_def
      by (auto split: prod.splits sum.splits if_splits intro: same_host_logged same_host_identity)
        (erule on [rotated], blast intro: pin same_host_logged same_host_identity)+
    obtain w1 e f where "Provision E srv c tok w = (w1, e, f)" by (metis prod_cases3)
    then show ?thesis using p Onboard P st by (cases e) (auto simp: runProvision_def)
  next
    case (PushToken tok)
    have P: "same_host i w u" if "UpdateToken E srv tok w = (u, e, f)" for u e f
      using that unfolding UpdateToken_def Let_def
      by (auto split: prod.splits sum.splits option.splits intro: pin same_host_logged same_host_identity)
    obtain w1 e f where "UpdateToken E srv tok w = (w1, e, f)" by (metis prod_cases3)
    then show ?thesis using p PushToken P same_host_logged by (cases e) (auto simp: push_token_def)
  qed
qed

text \<open>What other transactions leave of a server's key and address.\<close>

definition has_host :: "int \<Rightarrow> string option \<Rightarrow> string \<Rightarrow> control_db \<Rightarrow> bool" where
  "has_host i key ip db \<longleftrightarrow> (\<exists>srv. GetServer i db = Inr srv \<and> ss_host_key srv = key \<and> ss_ip srv = ip)"

text \<open>Every transaction but the pinning itself and the deletion of the server.\<close>

fun spares_host :: "int \<Rightarrow> txn \<Rightarrow> bool" where
  "spares_host i (OnServer (TDeleteServer j)) = (j \<noteq> i)"
| "spares_host i (OnServer (TSetServerHostKey j k)) = False"
| "spares_host i t = True"

lemma has_host_servers: "tb_servers db' = tb_servers db \<Longrightarrow> has_host i key ip db \<Longrightarrow> has_host i key ip db'"
  by (simp add: has_host_def GetServer_def)

lemma same_host_has: "same_host i w w' \<Longrightarrow> has_host i key ip (pw_db w) \<Longrightarrow> has_host i key ip (pw_db w')"
  by (auto simp: same_host_def has_host_def GetServer_def split: option.splits)

lemma has_host_set_servers:
  assumes "has_host i key ip db"
    and f: "\<And>s. ss_id (f s) = ss_id s" "\<And>s. ss_host_key (f s) = ss_host_key s" "\<And>s. ss_ip (f s) = ss_ip s"
  shows "has_host i key ip (set_servers P f db)"
proof -
  have "find (\<lambda>s. ss_id s = i) (map (\<lambda>s. if P s then f s else s) xs) =
      map_option (\<lambda>s. if P s then f s else s) (find (\<lambda>s. ss_id s = i) xs)" for xs
    using f(1) by (induction xs) auto
  then show ?thesis using assms(1) f(2,3)
    by (auto simp: has_host_def GetServer_def set_servers_def split: option.splits)
qed

lemma has_host_update_server:
  assumes "without_row (update_server j f db) = Inr db'" "has_host i key ip db"
    and "\<And>s. ss_id (f s) = ss_id s" "\<And>s. ss_host_key (f s) = ss_host_key s" "\<And>s. ss_ip (f s) = ss_ip s"
  shows "has_host i key ip db'"
  using assms has_host_set_servers [OF assms(2-5), of "\<lambda>s. ss_id s = j"] by (auto simp: update_server_def split: sum.splits)

lemma zone_txn_servers: "exec_zone_txn t d = Inr d' \<Longrightarrow> tb_servers d' = tb_servers d"
  by (cases t)
    (auto simp: CreateZone_def UpdateZone_def DeleteZone_def SetZoneShield_def SetZoneWAF_def SetZoneCacheSettings_def
      SetZoneHotlink_def SetZoneErrorPage_def SetZoneBlockedIPs_def SetZoneAccessFlags_def update_zone_def Let_def
      split: sum.splits if_splits)

lemma domain_txn_servers: "exec_domain_txn t d = Inr d' \<Longrightarrow> tb_servers d' = tb_servers d"
  by (cases t) (auto simp: domain_txn_defs detach_domain_def DeleteCustomDomain_def split: sum.splits option.splits if_splits)

lemma drain_row_host [simp]:
  "ss_id (drain_row now b r s) = ss_id s" "ss_host_key (drain_row now b r s) = ss_host_key s"
  "ss_ip (drain_row now b r s) = ss_ip s"
  by (simp_all add: drain_row_def)

lemma server_txn_host:
  assumes t: "exec_server_txn t d = Inr d'" and h: "has_host i key ip d" and s: "spares_host i (OnServer t)"
  shows "has_host i key ip d'"
proof (cases t)
  case (TCreateServer p)
  then obtain x where "tb_servers d' = tb_servers d @ [x]" using t by (auto simp: CreateServer_def Let_def split: if_splits)
  moreover have "find P xs = Some y \<Longrightarrow> find P (xs @ [x]) = Some y" for P y and xs :: "store_server list"
    by (induction xs) auto
  ultimately show ?thesis using h by (auto simp: has_host_def GetServer_def split: option.splits)
next
  case (TDeleteServer j)
  have "find (\<lambda>s. ss_id s = i) (filter (\<lambda>s. ss_id s \<noteq> j) xs) = find (\<lambda>s. ss_id s = i) xs" if "j \<noteq> i" for xs :: "store_server list"
    using that by (induction xs) auto
  then show ?thesis using t h s TDeleteServer
    by (auto simp: DeleteServer_def has_host_def GetServer_def split: if_splits)
qed (use t h s in \<open>auto simp: UpdateServerStatus_def store_SetServerHealth_def SetServerResources_def SetServerTech_def
    UpdateServerRouting_def UpdateServerHealthConfig_def SetServerDrain_def DrainRegion_def SetServerRole_def Let_def
    MarkServerOnline_def AddProvisionLog_def CreatePurgeJob_def MarkPurgeJobEdgeDone_def
    split: if_splits sum.splits option.splits
    intro: has_host_set_servers has_host_update_server has_host_servers\<close>)

lemma txn_host:
  assumes "has_host i key ip d" "spares_host i t"
  shows "has_host i key ip (run_txn t d)"
proof (cases "exec_txn t d")
  case (Inr d')
  have "has_host i key ip d'"
  proof (cases t)
    case (OnZone z)
    then show ?thesis using Inr has_host_servers [OF zone_txn_servers assms(1)] by simp
  next
    case (OnRow z)
    then show ?thesis using Inr has_host_servers [OF row_txn_frame(5) assms(1)] by simp
  next
    case (OnDomain z)
    then show ?thesis using Inr has_host_servers [OF domain_txn_servers assms(1)] by simp
  next
    case (OnServer z)
    then show ?thesis using Inr server_txn_host [OF _ assms(1)] assms(2) by simp
  qed
  then show ?thesis by (simp add: run_txn_def Inr)
qed (use assms in \<open>simp add: run_txn_def\<close>)

lemma GetServer_id: "GetServer i db = Inr srv \<Longrightarrow> ss_id srv = i"
  by (auto simp: GetServer_def find_Some_iff split: option.splits)

text \<open>The waiting jobs of server \<open>i\<close> hold the key and the address its row has.\<close>

definition up_to_date :: "int \<Rightarrow> string option \<Rightarrow> string \<Rightarrow> (store_server \<times> prov_job) list \<Rightarrow> bool" where
  "up_to_date i key ip waiting \<longleftrightarrow> list_all (\<lambda>(row, job). ss_id row = i \<longrightarrow> ss_host_key row = key \<and> ss_ip row = ip) waiting"

lemma up_to_date_nth:
  assumes "up_to_date i key ip waiting" "n < length waiting" "waiting ! n = (row, job)"
  shows "ss_id row = i \<Longrightarrow> ss_host_key row = key \<and> ss_ip row = ip"
    and "up_to_date i key ip (take n waiting @ drop (n + 1) waiting)"
proof -
  show "ss_id row = i \<Longrightarrow> ss_host_key row = key \<and> ss_ip row = ip"
    using assms by (auto simp: up_to_date_def list_all_length)
  show "up_to_date i key ip (take n waiting @ drop (n + 1) waiting)"
    using assms(1) by (auto simp: up_to_date_def list_all_iff dest: in_set_takeD in_set_dropD)
qed

lemma run_jobs_pinned:
  assumes "has_host i key ip (pw_db w)" "up_to_date i key ip waiting" "key \<noteq> None" "trim_space (the key) \<noteq> ''''"
    and "list_all (\<lambda>e. case e of Meanwhile t \<Rightarrow> spares_host i t | _ \<Rightarrow> True) es" "run_jobs es waiting w = (w', tr)"
  shows "has_host i key ip (pw_db w') \<and>
    (\<forall>(E, row, eff) \<in> set tr. ss_id row = i \<and> eff \<noteq> [] \<longrightarrow>
       (\<exists>port h. pv_net E ip port = Some h \<and> trim_space (sh_key h) = trim_space (the key)))"
  using assms
proof (induction es waiting w arbitrary: tr rule: run_jobs.induct)
  case (2 j job es waiting w)
  show ?case
  proof (cases "GetServer j (pw_db w)")
    case (Inl e)
    then show ?thesis using 2 by simp
  next
    case (Inr row)
    have "up_to_date i key ip (waiting @ [(row, job)])"
      using "2.prems"(1,2) Inr GetServer_id [OF Inr] by (auto simp: up_to_date_def has_host_def)
    then show ?thesis using 2 Inr by simp
  qed
next
  case (3 n E es waiting w)
  show ?case
  proof (cases "n < length waiting")
    case True
    obtain row job where q: "waiting ! n = (row, job)" by fastforce
    obtain w1 eff where job: "exec_job E row job w = (w1, eff)" by fastforce
    obtain w2 tr' where rest: "run_jobs es (take n waiting @ drop (n + 1) waiting) w1 = (w2, tr')" by fastforce
    have tr: "w2 = w'" "tr = (E, row, eff) # tr'" using "3.prems"(6) True q job rest by simp_all
    note u = up_to_date_nth [OF "3.prems"(2) True q]
    have k: "pinned_key row = trim_space (the key) \<and> ss_ip row = ip" if "ss_id row = i"
      using u(1) [OF that] "3.prems"(3) by (auto simp: pinned_key_def)
    have "same_host i w w1"
      using exec_job_pinned(1) [OF job] exec_job_other [OF job] k "3.prems"(4) by metis
    then have h: "has_host i key ip (pw_db w1)" using "3.prems"(1) by (rule same_host_has)
    have "\<exists>port h. pv_net E ip port = Some h \<and> trim_space (sh_key h) = trim_space (the key)"
      if "ss_id row = i" "eff \<noteq> []"
      using exec_job_pinned(2) [OF job] k [OF that(1)] "3.prems"(4) that(2) by (auto simp: holds_pin_def)
    moreover have "has_host i key ip (pw_db w') \<and> (\<forall>(E, row, eff) \<in> set tr'. ss_id row = i \<and> eff \<noteq> [] \<longrightarrow>
       (\<exists>port h. pv_net E ip port = Some h \<and> trim_space (sh_key h) = trim_space (the key)))"
      using "3.IH"(1) [OF True q [symmetric] job [symmetric] h u(2) "3.prems"(3,4)] "3.prems"(5) rest tr(1) by simp
    ultimately show ?thesis unfolding tr(2) by auto
  next
    case False
    then show ?thesis using 3 by simp
  qed
next
  case (4 t es waiting w)
  then show ?case using txn_host [OF "4.prems"(1)] by simp
qed simp

text \<open>
  C19: Trust on first use. Once the row of a server holds a host key, and no job is still waiting that
  was handed the row before, nothing changes the key but a deletion of the server: not any onboardings
  and token pushes, however they overlap with each other and with the other transactions of the control
  plane, whatever machines answer and whatever happens on them. And every job of that server that sends
  anything at all -- a password, a key offer, the agent, the token -- sends it to a machine that
  showed this key at the address of the server. A job that was handed the row before the pin trusts
  what it meets and replaces the key (\<open>stale_row_repins\<close>).
\<close>

theorem host_key_pinned:
  assumes "GetServer i (pw_db w) = Inr srv" "pinned_key srv \<noteq> ''''"
    and "\<forall>(row, job) \<in> set waiting. ss_id row = i \<longrightarrow> ss_host_key row = ss_host_key srv \<and> ss_ip row = ss_ip srv"
    and "\<forall>t. Meanwhile t \<in> set es \<longrightarrow> spares_host i t"
    and "run_jobs es waiting w = (w', tr)"
  shows "(\<exists>srv'. GetServer i (pw_db w') = Inr srv' \<and> ss_host_key srv' = ss_host_key srv) \<and>
         (\<forall>(E, row, eff) \<in> set tr. ss_id row = i \<and> eff \<noteq> [] \<longrightarrow>
            (\<exists>port h. pv_net E (ss_ip srv) port = Some h \<and> trim_space (sh_key h) = pinned_key srv))"
proof -
  obtain k where k: "ss_host_key srv = Some k" "pinned_key srv = trim_space k"
    using assms(2) by (cases "ss_host_key srv") (simp_all add: pinned_key_def)
  have "has_host i (Some k) (ss_ip srv) (pw_db w)" using assms(1) k by (simp add: has_host_def)
  moreover have "up_to_date i (Some k) (ss_ip srv) waiting" using assms(3) k by (auto simp: up_to_date_def list_all_iff)
  moreover have "list_all (\<lambda>e. case e of Meanwhile t \<Rightarrow> spares_host i t | _ \<Rightarrow> True) es"
    using assms(4) by (auto simp: list_all_iff split: prov_event.split)
  ultimately show ?thesis
    using run_jobs_pinned [of i "Some k" "ss_ip srv" w waiting es w' tr] assms(2,5) k by (auto simp: has_host_def)
qed

definition demo_host :: "string \<Rightarrow> ssh_host" where
  "demo_host key = \<lparr>sh_key = key, sh_accepts = (\<lambda>u ms. True), sh_run = (\<lambda>c. None), sh_copy = None, sh_config = Map.empty,
     sh_write = (\<lambda>m. None), sh_bootstrap = ([''ok''], None)\<rparr>"

definition demo_prov :: "string \<Rightarrow> prov_env" where
  "demo_prov key = \<lparr>pv_url = ''https://cp'', pv_nats = '''', pv_binary_size = 7, pv_parses = (\<lambda>k. k \<noteq> ''''),
     pv_new_key = Some (''PRIV'', ''PUB''), pv_net = (\<lambda>ip port. Some (demo_host key))\<rparr>"

definition demo_prov_world :: prov_world where
  "demo_prov_world = \<lparr>pw_db = run_txns [OnServer (TCreateServer (demo_server_params ''e1'')), OnServer (TSetServerHostKey 1 ''k1'')] AgentApi.empty_db,
     pw_private = '''', pw_public = ''''\<rparr>"

text \<open>Two pushes that overlap, one to the right machine, one to an impostor.\<close>

definition demo_pushes :: "prov_event list" where
  "demo_pushes = [Requested 1 (PushToken ''t''), Requested 1 (PushToken ''u''), Meanwhile (OnServer (TUpdateServerStatus 1 ''online'')),
     JobRuns 1 (demo_prov ''k1''), JobRuns 0 (demo_prov ''k2'')]"

lemma host_key_pinned_witness:
  "\<exists>srv. GetServer 1 (pw_db (fst (run_jobs demo_pushes [] demo_prov_world))) = Inr srv \<and> ss_host_key srv = Some ''k1''"
proof -
  have "case GetServer 1 (pw_db demo_prov_world) of Inl e \<Rightarrow> False | Inr srv \<Rightarrow> ss_host_key srv = Some ''k1''" by code_simp
  then have s: "\<exists>srv. GetServer 1 (pw_db demo_prov_world) = Inr srv \<and> ss_host_key srv = Some ''k1''"
    by (auto split: sum.splits)
  then obtain srv where srv: "GetServer 1 (pw_db demo_prov_world) = Inr srv" "ss_host_key srv = Some ''k1''" by blast
  have "trim_space ''k1'' \<noteq> ''''" by code_simp
  then have k: "pinned_key srv \<noteq> ''''" using srv(2) by (simp add: pinned_key_def)
  have m: "\<forall>t. Meanwhile t \<in> set demo_pushes \<longrightarrow> spares_host 1 t" by (simp add: demo_pushes_def)
  obtain w' tr where r: "run_jobs demo_pushes [] demo_prov_world = (w', tr)" by (cases "run_jobs demo_pushes [] demo_prov_world")
  from host_key_pinned [OF srv(1) k _ m r] srv(2) r show ?thesis by auto
qed

text \<open>
  The check reads the row its handler read, not the row of the moment: of two onboardings of a new
  server that overlap, the second trusts whatever machine it meets and replaces the pin of the first.
\<close>

lemma stale_row_repins:
  "map ss_host_key (tb_servers (pw_db (fst (run_jobs
     [Requested 1 (PushToken ''t''), Requested 1 (PushToken ''u''), JobRuns 0 (demo_prov ''k1''), JobRuns 0 (demo_prov ''k2'')] []
     (demo_prov_world\<lparr>pw_db := run_txns [OnServer (TCreateServer (demo_server_params ''e1''))] AgentApi.empty_db\<rparr>))))) = [Some ''k2'']"
  by code_simp

end
