(* ===== verification/Bunny.thy ===== *)
theory Bunny
  imports DnsModel
begin

section \<open>The Bunny client (internal/dns/bunny.go, and Client.Apply of reconcile.go)\<close>

text \<open>
  The DNS service itself is not part of the program. Its four calls are parameters, over a
  state type \<open>'s\<close> of the service, and the locale \<open>bunny_zone\<close> states the documented
  behaviour the reconciler relies on: record ids are unique; a write stores every field the
  JSON body carries (a field with \<open>omitempty\<close> is carried only when it is not zero, so an
  update merges); a delete removes the record with that id. Failed calls are unconstrained.
\<close>

text \<open>\<open>written r x\<close>: the stored record \<open>x\<close> agrees with the body \<open>r\<close> on every field sent.\<close>

definition written :: "dns_record \<Rightarrow> dns_record \<Rightarrow> bool" where
  "written r x \<longleftrightarrow>
     rec_type x = rec_type r \<and> rec_value x = rec_value r \<and> rec_name x = rec_name r \<and>
     rec_weight x = rec_weight r \<and> rec_disabled x = rec_disabled r \<and> rec_smart x = rec_smart r \<and>
     rec_latency_zone x = rec_latency_zone r \<and> rec_monitor_type x = rec_monitor_type r \<and>
     rec_lat x = rec_lat r \<and> rec_long x = rec_long r \<and>
     (rec_ttl r \<noteq> 0 \<longrightarrow> rec_ttl x = rec_ttl r) \<and>
     (rec_priority r \<noteq> 0 \<longrightarrow> rec_priority x = rec_priority r) \<and>
     (rec_comment r \<noteq> '''' \<longrightarrow> rec_comment x = rec_comment r) \<and>
     (rec_monitor_status r \<noteq> 0 \<longrightarrow> rec_monitor_status x = rec_monitor_status r)"

locale bunny_zone =
  fixes stored :: "'s \<Rightarrow> dns_record list"
    and ListRecords :: "'s \<Rightarrow> string + dns_record list"
    and AddRecord :: "'s \<Rightarrow> dns_record \<Rightarrow> 's \<times> (string + dns_record)"
    and UpdateRecord :: "'s \<Rightarrow> int \<Rightarrow> dns_record \<Rightarrow> 's \<times> string option"
    and DeleteRecord :: "'s \<Rightarrow> int \<Rightarrow> 's \<times> string option"
  assumes ids_unique: "inj_on rec_id (set (stored s))"
    and list_law: "ListRecords s = Inr rs \<Longrightarrow> rs = stored s"
    and add_law: "AddRecord s r = (s', Inr out) \<Longrightarrow>
       \<exists>x. set (stored s') = insert x (set (stored s)) \<and> written r x \<and>
           rec_id x \<notin> rec_id ` set (stored s) \<and> rec_id out = rec_id x"
    and update_law: "UpdateRecord s i r = (s', None) \<Longrightarrow>
       \<exists>x. set (stored s') = insert x {y \<in> set (stored s). rec_id y \<noteq> i} \<and> written r x \<and> rec_id x = i"
    and delete_law: "DeleteRecord s i = (s', None) \<Longrightarrow>
       set (stored s') = {y \<in> set (stored s). rec_id y \<noteq> i}"

text \<open>
  \<open>Client.Apply\<close>: one call per action, in order; the first error stops it. The result is the
  service's state, the applied actions (an added record's id filled in) and the error.
\<close>

fun Apply ::
  "('s \<Rightarrow> dns_record \<Rightarrow> 's \<times> (string + dns_record)) \<Rightarrow> ('s \<Rightarrow> int \<Rightarrow> dns_record \<Rightarrow> 's \<times> string option) \<Rightarrow>
   ('s \<Rightarrow> int \<Rightarrow> 's \<times> string option) \<Rightarrow> 's \<Rightarrow> plan \<Rightarrow> 's \<times> dns_action list \<times> string option" where
  "Apply add upd del s [] = (s, [], None)"
| "Apply add upd del s (a # as) =
     (let go_on = (\<lambda>s' a'. case Apply add upd del s' as of (s'', rest, e) \<Rightarrow> (s'', a' # rest, e)) in
      case act_kind a of
        Add \<Rightarrow> (case add s (act_record a) of
                 (s', Inl e) \<Rightarrow> (s', [], Some e)
               | (s', Inr out) \<Rightarrow> go_on s' (a\<lparr>act_rec_id := rec_id out\<rparr>))
      | Remove \<Rightarrow> (case del s (act_rec_id a) of
                 (s', Some e) \<Rightarrow> (s', [], Some e)
               | (s', None) \<Rightarrow> go_on s' a)
      | _ \<Rightarrow> (case upd s (act_rec_id a) (act_record a) of
                 (s', Some e) \<Rightarrow> (s', [], Some e)
               | (s', None) \<Rightarrow> go_on s' a))"

text \<open>The steps of a run without error, by the kind of its first action.\<close>

lemma Apply_Add:
  assumes "Apply add upd del s (a # as) = (s', dn, None)" and k: "act_kind a = Add"
  obtains s1 out dn' where "add s (act_record a) = (s1, Inr out)" "Apply add upd del s1 as = (s', dn', None)"
proof -
  obtain s1 r where 1: "add s (act_record a) = (s1, r)" by (cases "add s (act_record a)")
  obtain s2 dn' e where 2: "Apply add upd del s1 as = (s2, dn', e)" by (cases "Apply add upd del s1 as")
  show thesis using assms 1 2 that by (cases r) (simp_all add: Let_def)
qed

lemma Apply_Remove:
  assumes "Apply add upd del s (a # as) = (s', dn, None)" and k: "act_kind a = Remove"
  obtains s1 dn' where "del s (act_rec_id a) = (s1, None)" "Apply add upd del s1 as = (s', dn', None)"
proof -
  obtain s1 r where 1: "del s (act_rec_id a) = (s1, r)" by (cases "del s (act_rec_id a)")
  obtain s2 dn' e where 2: "Apply add upd del s1 as = (s2, dn', e)" by (cases "Apply add upd del s1 as")
  show thesis using assms 1 2 that by (cases r) (simp_all add: Let_def)
qed

lemma Apply_Update:
  assumes "Apply add upd del s (a # as) = (s', dn, None)" and k: "act_kind a \<noteq> Add" "act_kind a \<noteq> Remove"
  obtains s1 dn' where "upd s (act_rec_id a) (act_record a) = (s1, None)"
    "Apply add upd del s1 as = (s', dn', None)"
proof -
  obtain s1 r where 1: "upd s (act_rec_id a) (act_record a) = (s1, r)"
    by (cases "upd s (act_rec_id a) (act_record a)")
  obtain s2 dn' e where 2: "Apply add upd del s1 as = (s2, dn', e)" by (cases "Apply add upd del s1 as")
  show thesis using assms 1 2 that by (cases r; cases "act_kind a") (simp_all add: Let_def)
qed

subsection \<open>What a successful Apply leaves in the zone\<close>

definition touches :: "dns_action \<Rightarrow> bool" where
  "touches a \<longleftrightarrow> act_kind a \<noteq> Add"

definition touched_ids :: "dns_action list \<Rightarrow> int list" where
  "touched_ids as = map act_rec_id (filter touches as)"

definition zone_effect :: "dns_record set \<Rightarrow> dns_action list \<Rightarrow> dns_record set \<Rightarrow> bool" where
  "zone_effect S as S' \<longleftrightarrow>
     (\<forall>x \<in> S'. (x \<in> S \<and> rec_id x \<notin> set (touched_ids as)) \<or>
        (\<exists>a \<in> set as. act_kind a \<noteq> Remove \<and> written (act_record a) x)) \<and>
     (\<forall>x \<in> S. rec_id x \<notin> set (touched_ids as) \<longrightarrow> x \<in> S') \<and>
     (\<forall>a \<in> set as. act_kind a \<noteq> Remove \<longrightarrow> (\<exists>x \<in> S'. written (act_record a) x))"

lemma zone_effectD:
  assumes "zone_effect S as S'"
  shows "x \<in> S' \<Longrightarrow> (x \<in> S \<and> rec_id x \<notin> set (touched_ids as)) \<or>
           (\<exists>a \<in> set as. act_kind a \<noteq> Remove \<and> written (act_record a) x)"
    and "x \<in> S \<Longrightarrow> rec_id x \<notin> set (touched_ids as) \<Longrightarrow> x \<in> S'"
    and "a \<in> set as \<Longrightarrow> act_kind a \<noteq> Remove \<Longrightarrow> \<exists>x \<in> S'. written (act_record a) x"
  using assms unfolding zone_effect_def by blast+

lemma zone_effect_Nil: "zone_effect S [] S"
  by (simp add: zone_effect_def touched_ids_def)

text \<open>One action in front: its own effect, then the effect of the rest.\<close>

lemma zone_effectI:
  assumes "\<And>x. x \<in> S' \<Longrightarrow> (x \<in> S \<and> rec_id x \<notin> set (touched_ids as)) \<or>
             (\<exists>a \<in> set as. act_kind a \<noteq> Remove \<and> written (act_record a) x)"
    and "\<And>x. x \<in> S \<Longrightarrow> rec_id x \<notin> set (touched_ids as) \<Longrightarrow> x \<in> S'"
    and "\<And>a. a \<in> set as \<Longrightarrow> act_kind a \<noteq> Remove \<Longrightarrow> \<exists>x \<in> S'. written (act_record a) x"
  shows "zone_effect S as S'"
  using assms unfolding zone_effect_def by blast

lemma touched_ids_Cons:
  "touched_ids (a # as) = (if act_kind a = Add then touched_ids as else act_rec_id a # touched_ids as)"
  by (simp add: touched_ids_def touches_def)

lemma zone_effect_Add:
  assumes rest: "zone_effect S1 as S'" and k: "act_kind a = Add"
    and S1: "S1 = insert x S" "written (act_record a) x" and fresh: "rec_id x \<notin> set (touched_ids as)"
  shows "zone_effect S (a # as) S'"
proof (rule zone_effectI)
  have t: "touched_ids (a # as) = touched_ids as" using k by (simp add: touched_ids_Cons)
  fix y
  show "(y \<in> S \<and> rec_id y \<notin> set (touched_ids (a # as))) \<or>
      (\<exists>b \<in> set (a # as). act_kind b \<noteq> Remove \<and> written (act_record b) y)" if "y \<in> S'"
    using zone_effectD(1) [OF rest that] S1 k t by (metis action_kind.distinct(7) insertE list.set_intros)
  show "y \<in> S'" if "y \<in> S" "rec_id y \<notin> set (touched_ids (a # as))"
    using zone_effectD(2) [OF rest] that S1 t by simp
  fix b
  show "\<exists>y \<in> S'. written (act_record b) y" if "b \<in> set (a # as)" "act_kind b \<noteq> Remove"
  proof (cases "b = a")
    case True
    then show ?thesis using zone_effectD(2) [OF rest, of x] S1 fresh by blast
  next
    case False
    then show ?thesis using zone_effectD(3) [OF rest, of b] that by simp
  qed
qed

lemma zone_effect_Remove:
  assumes rest: "zone_effect S1 as S'" and k: "act_kind a = Remove"
    and S1: "S1 = {y \<in> S. rec_id y \<noteq> act_rec_id a}"
  shows "zone_effect S (a # as) S'"
proof (rule zone_effectI)
  have t: "touched_ids (a # as) = act_rec_id a # touched_ids as" using k by (simp add: touched_ids_Cons)
  fix y
  show "(y \<in> S \<and> rec_id y \<notin> set (touched_ids (a # as))) \<or>
      (\<exists>b \<in> set (a # as). act_kind b \<noteq> Remove \<and> written (act_record b) y)" if "y \<in> S'"
    using zone_effectD(1) [OF rest that] S1 t by auto
  show "y \<in> S'" if "y \<in> S" "rec_id y \<notin> set (touched_ids (a # as))"
    using zone_effectD(2) [OF rest] that S1 t by simp
  fix b
  show "\<exists>y \<in> S'. written (act_record b) y" if "b \<in> set (a # as)" "act_kind b \<noteq> Remove"
    using zone_effectD(3) [OF rest, of b] that k by auto
qed

lemma zone_effect_Update:
  assumes rest: "zone_effect S1 as S'" and k: "act_kind a \<noteq> Add" "act_kind a \<noteq> Remove"
    and S1: "S1 = insert x {y \<in> S. rec_id y \<noteq> act_rec_id a}" "written (act_record a) x"
      "rec_id x = act_rec_id a"
    and fresh: "rec_id x \<notin> set (touched_ids as)"
  shows "zone_effect S (a # as) S'"
proof (rule zone_effectI)
  have t: "touched_ids (a # as) = act_rec_id a # touched_ids as" using k by (simp add: touched_ids_Cons)
  fix y
  show "(y \<in> S \<and> rec_id y \<notin> set (touched_ids (a # as))) \<or>
      (\<exists>b \<in> set (a # as). act_kind b \<noteq> Remove \<and> written (act_record b) y)" if "y \<in> S'"
    using zone_effectD(1) [OF rest that] S1 t k by auto
  show "y \<in> S'" if "y \<in> S" "rec_id y \<notin> set (touched_ids (a # as))"
    using zone_effectD(2) [OF rest] that S1 t by simp
  fix b
  show "\<exists>y \<in> S'. written (act_record b) y" if "b \<in> set (a # as)" "act_kind b \<noteq> Remove"
  proof (cases "b = a")
    case True
    then show ?thesis using zone_effectD(2) [OF rest, of x] S1 fresh by blast
  next
    case False
    then show ?thesis using zone_effectD(3) [OF rest, of b] that by simp
  qed
qed

lemma touched_ids_rest:
  assumes k: "act_kind a \<noteq> Add" and d: "distinct (touched_ids (a # as))"
    and sub: "set (touched_ids (a # as)) \<subseteq> rec_id ` S"
    and keep: "{y \<in> S. rec_id y \<noteq> act_rec_id a} \<subseteq> S1"
  shows "distinct (touched_ids as)" and "act_rec_id a \<notin> set (touched_ids as)"
    and "set (touched_ids as) \<subseteq> rec_id ` S1"
proof -
  have t: "touched_ids (a # as) = act_rec_id a # touched_ids as" using k by (simp add: touched_ids_Cons)
  show 1: "distinct (touched_ids as)" "act_rec_id a \<notin> set (touched_ids as)" using d t by simp_all
  show "set (touched_ids as) \<subseteq> rec_id ` S1"
  proof
    fix i assume i: "i \<in> set (touched_ids as)"
    then have "i \<in> rec_id ` S" using sub t by simp blast
    then obtain y where y: "y \<in> S" "i = rec_id y" by blast
    have "rec_id y \<noteq> act_rec_id a" using i y(2) 1(2) by metis
    then show "i \<in> rec_id ` S1" using y keep by blast
  qed
qed

context bunny_zone begin

text \<open>
  Touched ids are distinct and existed, so a record an earlier action wrote is not rewritten
  later, and the zone afterwards is exactly what the actions say.
\<close>

lemma Apply_effect:
  assumes "Apply AddRecord UpdateRecord DeleteRecord s as = (s', dn, None)"
    and "distinct (touched_ids as)"
    and "set (touched_ids as) \<subseteq> rec_id ` set (stored s)"
  shows "zone_effect (set (stored s)) as (set (stored s'))"
  using assms
proof (induction as arbitrary: s dn)
  case Nil
  then show ?case by (simp add: zone_effect_Nil)
next
  case (Cons a as)
  show ?case
  proof (cases "act_kind a = Add")
    case True
    obtain s1 out dn' where add: "AddRecord s (act_record a) = (s1, Inr out)"
      and rest: "Apply AddRecord UpdateRecord DeleteRecord s1 as = (s', dn', None)"
      by (rule Apply_Add [OF Cons.prems(1) True])
    from add_law [OF add] obtain x where
      x: "set (stored s1) = insert x (set (stored s))" "written (act_record a) x"
         "rec_id x \<notin> rec_id ` set (stored s)" by blast
    have t: "touched_ids (a # as) = touched_ids as"
      using True by (simp add: touched_ids_def touches_def)
    have fresh: "rec_id x \<notin> set (touched_ids as)" using x(3) Cons.prems(3) t by auto
    have "distinct (touched_ids as)" "set (touched_ids as) \<subseteq> rec_id ` set (stored s1)"
      using Cons.prems(2,3) t x(1) by auto
    from zone_effect_Add [OF Cons.IH [OF rest this] True x(1,2) fresh] show ?thesis .
  next
    case False
    show ?thesis
    proof (cases "act_kind a = Remove")
      case True
      obtain s1 dn' where del: "DeleteRecord s (act_rec_id a) = (s1, None)"
        and rest: "Apply AddRecord UpdateRecord DeleteRecord s1 as = (s', dn', None)"
        by (rule Apply_Remove [OF Cons.prems(1) True])
      note d = touched_ids_rest [OF False Cons.prems(2,3), of "set (stored s1)"]
      have keep: "{y \<in> set (stored s). rec_id y \<noteq> act_rec_id a} \<subseteq> set (stored s1)"
        using delete_law [OF del] by blast
      from zone_effect_Remove [OF Cons.IH [OF rest d(1,3) [OF keep]] True delete_law [OF del]] show ?thesis .
    next
      case upd: False
      obtain s1 dn' where u: "UpdateRecord s (act_rec_id a) (act_record a) = (s1, None)"
        and rest: "Apply AddRecord UpdateRecord DeleteRecord s1 as = (s', dn', None)"
        by (rule Apply_Update [OF Cons.prems(1) False upd])
      from update_law [OF u] obtain x where
        x: "set (stored s1) = insert x {y \<in> set (stored s). rec_id y \<noteq> act_rec_id a}"
           "written (act_record a) x" "rec_id x = act_rec_id a" by blast
      note d = touched_ids_rest [OF False Cons.prems(2,3), of "set (stored s1)"]
      have keep: "{y \<in> set (stored s). rec_id y \<noteq> act_rec_id a} \<subseteq> set (stored s1)" using x(1) by blast
      have "rec_id x \<notin> set (touched_ids as)" using d(2) [OF keep] x(3) by simp
      from zone_effect_Update [OF Cons.IH [OF rest d(1,3) [OF keep]] False upd x this] show ?thesis .
    qed
  qed
qed

end

subsection \<open>A zone that keeps the documented laws\<close>

text \<open>
  The partial merge the comment on \<open>Record\<close> documents, over a list of slots: record \<open>i\<close> is in
  slot \<open>i\<close>, a deleted slot is never used again. It is the instance the laws are checked on and
  the service the concrete runs use.
\<close>

type_synonym mem_zone = "dns_record option list"

definition mergeRecord :: "dns_record \<Rightarrow> dns_record \<Rightarrow> dns_record" where
  "mergeRecord old r = r\<lparr>
     rec_ttl := (if rec_ttl r = 0 then rec_ttl old else rec_ttl r),
     rec_priority := (if rec_priority r = 0 then rec_priority old else rec_priority r),
     rec_comment := (if rec_comment r = '''' then rec_comment old else rec_comment r),
     rec_monitor_status := (if rec_monitor_status r = 0 then rec_monitor_status old else rec_monitor_status r)\<rparr>"

fun slots :: "int \<Rightarrow> mem_zone \<Rightarrow> dns_record list" where
  "slots i [] = []"
| "slots i (None # z) = slots (i + 1) z"
| "slots i (Some r # z) = r\<lparr>rec_id := i\<rparr> # slots (i + 1) z"

definition mem_stored :: "mem_zone \<Rightarrow> dns_record list" where
  "mem_stored z = slots 0 z"

definition mem_slot :: "mem_zone \<Rightarrow> int \<Rightarrow> dns_record option" where
  "mem_slot z i = (if 0 \<le> i \<and> i < int (length z) then z ! nat i else None)"

definition mem_list :: "mem_zone \<Rightarrow> string + dns_record list" where
  "mem_list z = Inr (mem_stored z)"

definition mem_add :: "mem_zone \<Rightarrow> dns_record \<Rightarrow> mem_zone \<times> (string + dns_record)" where
  "mem_add z r = (z @ [Some r], Inr (r\<lparr>rec_id := int (length z)\<rparr>))"

definition mem_update :: "mem_zone \<Rightarrow> int \<Rightarrow> dns_record \<Rightarrow> mem_zone \<times> string option" where
  "mem_update z i r =
     (case mem_slot z i of None \<Rightarrow> (z, Some ''404'')
      | Some old \<Rightarrow> (z[nat i := Some (mergeRecord old r)], None))"

definition mem_delete :: "mem_zone \<Rightarrow> int \<Rightarrow> mem_zone \<times> string option" where
  "mem_delete z i =
     (case mem_slot z i of None \<Rightarrow> (z, Some ''404'') | Some _ \<Rightarrow> (z[nat i := None], None))"

lemmas mem_ops = mem_list_def mem_add_def mem_update_def mem_delete_def mem_slot_def mem_stored_def

lemma slots_mem:
  "x \<in> set (slots j z) \<longleftrightarrow> (\<exists>k < length z. \<exists>r. z ! k = Some r \<and> x = r\<lparr>rec_id := j + int k\<rparr>)"
proof (induction j z rule: slots.induct)
  case (3 i r z)
  then show ?case by (simp add: Ex_less_Suc2 algebra_simps)
next
  case (2 i z)
  then show ?case by (simp add: Ex_less_Suc2 algebra_simps)
qed simp

lemma stored_iff:
  "x \<in> set (mem_stored z) \<longleftrightarrow> (\<exists>k < length z. \<exists>r. z ! k = Some r \<and> x = r\<lparr>rec_id := int k\<rparr>)"
  by (simp add: mem_stored_def slots_mem)

lemma slots_append: "slots i (z @ [Some r]) = slots i z @ [r\<lparr>rec_id := i + int (length z)\<rparr>]"
  by (induction i z rule: slots.induct) (simp_all add: algebra_simps)

lemma stored_append:
  "set (mem_stored (z @ [Some r])) = insert (r\<lparr>rec_id := int (length z)\<rparr>) (set (mem_stored z))"
  by (simp add: mem_stored_def slots_append)

lemma stored_set_slot:
  assumes "k < length z"
  shows "set (mem_stored (z[k := v])) =
     (case v of None \<Rightarrow> {} | Some r \<Rightarrow> {r\<lparr>rec_id := int k\<rparr>}) \<union> {y \<in> set (mem_stored z). rec_id y \<noteq> int k}"
proof (rule set_eqI)
  fix x
  show "x \<in> set (mem_stored (z[k := v])) \<longleftrightarrow>
     x \<in> (case v of None \<Rightarrow> {} | Some r \<Rightarrow> {r\<lparr>rec_id := int k\<rparr>}) \<union> {y \<in> set (mem_stored z). rec_id y \<noteq> int k}"
    using assms by (auto simp: stored_iff nth_list_update split: option.splits if_splits)
qed

interpretation mem: bunny_zone mem_stored mem_list mem_add mem_update mem_delete
proof
  fix s s' :: mem_zone and i r out rs
  show "inj_on rec_id (set (mem_stored s))"
    by (auto simp: inj_on_def stored_iff)
  show "mem_list s = Inr rs \<Longrightarrow> rs = mem_stored s"
    by (simp add: mem_list_def)
  show "\<exists>x. set (mem_stored s') = insert x (set (mem_stored s)) \<and> written r x \<and>
      rec_id x \<notin> rec_id ` set (mem_stored s) \<and> rec_id out = rec_id x" if "mem_add s r = (s', Inr out)"
  proof (intro exI [of _ out] conjI)
    have eq: "s' = s @ [Some r]" "out = r\<lparr>rec_id := int (length s)\<rparr>"
      using that by (simp_all add: mem_add_def)
    show "set (mem_stored s') = insert out (set (mem_stored s))" by (simp add: eq stored_append)
    show "written r out" by (simp add: eq written_def)
    show "rec_id out \<notin> rec_id ` set (mem_stored s)" by (auto simp: eq stored_iff)
  qed simp
  show "\<exists>x. set (mem_stored s') = insert x {y \<in> set (mem_stored s). rec_id y \<noteq> i} \<and> written r x \<and> rec_id x = i"
    if "mem_update s i r = (s', None)"
  proof -
    from that obtain old where i: "0 \<le> i" "i < int (length s)" and old: "s ! nat i = Some old"
      and s': "s' = s[nat i := Some (mergeRecord old r)]"
      by (auto simp: mem_update_def mem_slot_def split: option.splits if_splits)
    let ?x = "(mergeRecord old r)\<lparr>rec_id := i\<rparr>"
    have "set (mem_stored s') = insert ?x {y \<in> set (mem_stored s). rec_id y \<noteq> i}"
      using i stored_set_slot [of "nat i" s "Some (mergeRecord old r)"] by (simp add: s')
    moreover have "written r ?x" by (simp add: written_def mergeRecord_def)
    ultimately show ?thesis by (intro exI [of _ ?x]) simp
  qed
  show "set (mem_stored s') = {y \<in> set (mem_stored s). rec_id y \<noteq> i}" if "mem_delete s i = (s', None)"
    using that stored_set_slot [of "nat i" s None]
    by (auto simp: mem_delete_def mem_slot_def split: option.splits if_splits)
qed

subsection \<open>Calls that report an error\<close>

text \<open>
  A frame for a run of actions that may stop at any error: when they write no record of the class \<open>Q\<close>
  and touch only ids in \<open>Z\<close>, which no record of \<open>Q\<close> has, the records of \<open>Q\<close> are what they were.
\<close>

definition framed :: "(dns_record \<Rightarrow> bool) \<Rightarrow> int set \<Rightarrow> dns_action list \<Rightarrow> bool" where
  "framed Q Z as \<longleftrightarrow> (\<forall>a \<in> set as. (act_kind a \<noteq> Remove \<longrightarrow> (\<forall>x. written (act_record a) x \<longrightarrow> \<not> Q x)) \<and>
     (touches a \<longrightarrow> act_rec_id a \<in> Z))"

definition apart :: "('s \<Rightarrow> dns_record list) \<Rightarrow> (dns_record \<Rightarrow> bool) \<Rightarrow> int set \<Rightarrow> 's \<Rightarrow> bool" where
  "apart stored Q Z s \<longleftrightarrow> (\<forall>y \<in> set (stored s). Q y \<longrightarrow> rec_id y \<notin> Z)"

definition same_on :: "('s \<Rightarrow> dns_record list) \<Rightarrow> (dns_record \<Rightarrow> bool) \<Rightarrow> 's \<Rightarrow> 's \<Rightarrow> bool" where
  "same_on stored Q s s' \<longleftrightarrow> (\<forall>x. Q x \<longrightarrow> x \<in> set (stored s') \<longleftrightarrow> x \<in> set (stored s))"

lemma same_on_apart: "same_on stored Q s s' \<Longrightarrow> apart stored Q Z s \<Longrightarrow> apart stored Q Z s'"
  unfolding same_on_def apart_def by blast

lemma same_on_trans: "same_on stored Q s s1 \<Longrightarrow> same_on stored Q s1 s2 \<Longrightarrow> same_on stored Q s s2"
  unfolding same_on_def by blast

lemma same_on_refl [simp]: "same_on stored Q s s"
  unfolding same_on_def by blast

text \<open>
  A call that ends in an error, a lost answer or a time-out for instance, did nothing or what it was
  asked to do.
\<close>

locale lossy_zone = bunny_zone +
  assumes add_fail: "AddRecord s r = (s', Inl e) \<Longrightarrow> set (stored s') = set (stored s) \<or>
       (\<exists>x. set (stored s') = insert x (set (stored s)) \<and> written r x \<and> rec_id x \<notin> rec_id ` set (stored s))"
    and update_fail: "UpdateRecord s i r = (s', Some e) \<Longrightarrow> set (stored s') = set (stored s) \<or>
       (\<exists>x. set (stored s') = insert x {y \<in> set (stored s). rec_id y \<noteq> i} \<and> written r x \<and> rec_id x = i)"
    and delete_fail: "DeleteRecord s i = (s', Some e) \<Longrightarrow> set (stored s') = set (stored s) \<or>
       set (stored s') = {y \<in> set (stored s). rec_id y \<noteq> i}"
begin

lemma add_any:
  assumes "AddRecord s r = (s', res)"
  obtains "set (stored s') = set (stored s)"
  | x where "set (stored s') = insert x (set (stored s))" "written r x"
  using assms add_law [of s r s'] add_fail [of s r s'] by (cases res) blast+

lemma update_any:
  assumes "UpdateRecord s i r = (s', res)"
  obtains "set (stored s') = set (stored s)"
  | x where "set (stored s') = insert x {y \<in> set (stored s). rec_id y \<noteq> i}" "written r x"
  using assms update_law [of s i r s'] update_fail [of s i r s'] by (cases res) blast+

lemma delete_any:
  assumes "DeleteRecord s i = (s', res)"
  obtains "set (stored s') = set (stored s)"
  | "set (stored s') = {y \<in> set (stored s). rec_id y \<noteq> i}"
  using assms delete_law [of s i s'] delete_fail [of s i s'] by (cases res) blast+

lemma action_same_on:
  assumes f: "framed Q Z (a # as)" and ap: "apart stored Q Z s"
  shows "act_kind a = Add \<Longrightarrow> AddRecord s (act_record a) = (s', res) \<Longrightarrow> same_on stored Q s s'"
    and "act_kind a = Remove \<Longrightarrow> DeleteRecord s (act_rec_id a) = (s', res') \<Longrightarrow> same_on stored Q s s'"
    and "act_kind a \<noteq> Add \<Longrightarrow> act_kind a \<noteq> Remove \<Longrightarrow>
      UpdateRecord s (act_rec_id a) (act_record a) = (s', res') \<Longrightarrow> same_on stored Q s s'"
proof -
  have w: "\<not> Q x" if "act_kind a \<noteq> Remove" "written (act_record a) x" for x using f that by (simp add: framed_def)
  have z: "act_rec_id a \<in> Z" if "act_kind a \<noteq> Add" using f that by (simp add: framed_def touches_def)
  have keep: "x \<in> {y \<in> set (stored s). rec_id y \<noteq> act_rec_id a} \<longleftrightarrow> x \<in> set (stored s)" if "Q x" "act_kind a \<noteq> Add" for x
    using ap z [OF that(2)] that(1) unfolding apart_def by auto
  show "same_on stored Q s s'" if "act_kind a = Add" "AddRecord s (act_record a) = (s', res)"
    using that(2) by (rule add_any) (use w that(1) in \<open>auto simp: same_on_def\<close>)
  show "same_on stored Q s s'" if "act_kind a = Remove" "DeleteRecord s (act_rec_id a) = (s', res')"
    using that(2) by (rule delete_any) (use keep that(1) in \<open>auto simp: same_on_def\<close>)
  show "same_on stored Q s s'" if "act_kind a \<noteq> Add" "act_kind a \<noteq> Remove"
      "UpdateRecord s (act_rec_id a) (act_record a) = (s', res')"
    using that(3) by (rule update_any) (use keep w that(1,2) in \<open>auto simp: same_on_def\<close>)
qed

lemma Apply_same_on:
  assumes "framed Q Z as" "apart stored Q Z s"
  shows "same_on stored Q s (fst (Apply AddRecord UpdateRecord DeleteRecord s as))"
  using assms
proof (induction as arbitrary: s)
  case (Cons a as)
  have rest: "framed Q Z as" using Cons.prems(1) by (simp add: framed_def)
  note same = action_same_on [OF Cons.prems]
  have go: "same_on stored Q s (fst (Apply AddRecord UpdateRecord DeleteRecord s1 as))" if "same_on stored Q s s1" for s1
    by (rule same_on_trans [OF that Cons.IH [OF rest same_on_apart [OF that Cons.prems(2)]]])
  consider "act_kind a = Add" | "act_kind a = Remove" | "act_kind a \<noteq> Add" "act_kind a \<noteq> Remove" by blast
  then show ?case
  proof cases
    case 1
    obtain s1 r where c: "AddRecord s (act_record a) = (s1, r)" by fastforce
    obtain s2 dn e where 2: "Apply AddRecord UpdateRecord DeleteRecord s1 as = (s2, dn, e)" by (rule prod_cases3)
    show ?thesis using same(1) [OF 1 c] go [of s1] by (cases r) (simp_all add: 1 2 c Let_def)
  next
    case 2
    obtain s1 r where c: "DeleteRecord s (act_rec_id a) = (s1, r)" by fastforce
    obtain s2 dn e where 3: "Apply AddRecord UpdateRecord DeleteRecord s1 as = (s2, dn, e)" by (rule prod_cases3)
    show ?thesis using same(2) [OF 2 c] go [of s1] by (cases r) (simp_all add: 2 3 c Let_def)
  next
    case 3
    obtain s1 r where c: "UpdateRecord s (act_rec_id a) (act_record a) = (s1, r)" by fastforce
    obtain s2 dn e where 4: "Apply AddRecord UpdateRecord DeleteRecord s1 as = (s2, dn, e)" by (rule prod_cases3)
    show ?thesis using same(3) [OF 3 c] go [of s1] 3
      by (cases r; cases "act_kind a") (simp_all add: 4 c Let_def)
  qed
qed (simp add: same_on_refl)

end

interpretation lossy_mem: lossy_zone mem_stored mem_list mem_add mem_update mem_delete
  by unfold_locales (auto simp: mem_add_def mem_update_def mem_delete_def split: option.splits)

subsection \<open>Requests, retries and the idempotent writes\<close>

text \<open>
  \<open>Client.do\<close>: attempt \<open>n\<close> (from 1) of the request meets the outcome \<open>http n\<close>. \<open>decode\<close>
  is the JSON decoder of the response body (\<open>Some\<close> an error), used when the caller wants an
  output and the body is not blank. The result is the error, if any, and the attempts made.
\<close>

datatype outcome = NetworkError string | Response int string

datatype api_error = Network string | APIError int string | DecodeError string

definition maxAttempts :: nat where
  "maxAttempts = 4"

fun do_loop :: "(nat \<Rightarrow> outcome) \<Rightarrow> (string \<Rightarrow> string option) \<Rightarrow> bool \<Rightarrow> nat \<Rightarrow> nat \<Rightarrow> api_error option \<Rightarrow>
    api_error option \<times> nat" where
  "do_loop http decode wants 0 attempt lastErr = (lastErr, attempt - 1)"
| "do_loop http decode wants (Suc k) attempt lastErr =
     (case http attempt of
        NetworkError e \<Rightarrow> do_loop http decode wants k (attempt + 1) (Some (Network e))
      | Response status body \<Rightarrow>
          (if 200 \<le> status \<and> status < 300 then
             (if wants \<and> trim_space body \<noteq> ''''
              then (map_option DecodeError (decode body), attempt) else (None, attempt))
           else if status = 429 \<or> status \<ge> 500 then
             (if attempt < maxAttempts
              then do_loop http decode wants k (attempt + 1) (Some (APIError status body))
              else (Some (APIError status body), attempt))
           else (Some (APIError status body), attempt)))"

definition bunny_do :: "(nat \<Rightarrow> outcome) \<Rightarrow> (string \<Rightarrow> string option) \<Rightarrow> bool \<Rightarrow> api_error option \<times> nat" where
  "bunny_do http decode wants = do_loop http decode wants maxAttempts 1 None"

text \<open>The pause before the next attempt; \<open>jitter\<close> is the random part, below 250 ms.\<close>

definition backoff_delay :: "nat \<Rightarrow> duration \<Rightarrow> duration" where
  "backoff_delay attempt jitter =
     (let base = 2 ^ (attempt - 1) * (300 * 1000000);
          base = (if base > 5 * second then 5 * second else base)
      in base + jitter)"

definition sleep_time :: "duration \<Rightarrow> string \<Rightarrow> duration" where
  "sleep_time d retryAfter =
     (if retryAfter \<noteq> '''' then
        (case parse_int (trim_space retryAfter) of
           Some secs \<Rightarrow> (if secs * second > d then secs * second else d)
         | None \<Rightarrow> d)
      else d)"

definition retryable :: "outcome \<Rightarrow> bool" where
  "retryable r = (case r of NetworkError _ \<Rightarrow> True | Response st _ \<Rightarrow> st = 429 \<or> st \<ge> 500)"

definition resolveZone :: "(nat \<Rightarrow> string + ((int \<times> string) list \<times> bool)) \<Rightarrow> string \<Rightarrow> string + int" where
  "resolveZone pages name =
     (let step = (\<lambda>page rest.
        (case pages page of
           Inl e \<Rightarrow> Inl e
         | Inr (items, hasMore) \<Rightarrow>
             (case find (\<lambda>z. equal_fold (snd z) name) items of
                Some z \<Rightarrow> Inr (fst z)
              | None \<Rightarrow> (if \<not> hasMore then Inl ''not found'' else rest))))
      in foldr step [1..<51] (Inl ''not found''))"

definition FindRecord :: "string + dns_record list \<Rightarrow> int \<Rightarrow> string \<Rightarrow> string \<Rightarrow> string + dns_record option" where
  "FindRecord listing typ name val =
     (case listing of
        Inl e \<Rightarrow> Inl e
      | Inr recs \<Rightarrow> Inr (find (\<lambda>r. rec_type r = typ \<and> equal_fold (rec_name r) name \<and> rec_value r = val) recs))"

definition EnsureRecord ::
  "('s \<Rightarrow> string + dns_record list) \<Rightarrow> ('s \<Rightarrow> dns_record \<Rightarrow> 's \<times> (string + dns_record)) \<Rightarrow>
   's \<Rightarrow> dns_record \<Rightarrow> 's \<times> (string + dns_record \<times> bool)" where
  "EnsureRecord listing add s r =
     (case FindRecord (listing s) (rec_type r) (rec_name r) (rec_value r) of
        Inl e \<Rightarrow> (s, Inl e)
      | Inr (Some existing) \<Rightarrow> (s, Inr (existing, False))
      | Inr None \<Rightarrow>
          (case add s r of
             (s', Inl e) \<Rightarrow> (s', Inl e)
           | (s', Inr created) \<Rightarrow> (s', Inr (created, True))))"

definition EnsureWildcardCNAME ::
  "('s \<Rightarrow> string + dns_record list) \<Rightarrow> ('s \<Rightarrow> dns_record \<Rightarrow> 's \<times> (string + dns_record)) \<Rightarrow>
   string \<Rightarrow> 's \<Rightarrow> string \<Rightarrow> int \<Rightarrow> 's \<times> (string + bool)" where
  "EnsureWildcardCNAME listing add zoneName s routing ttl =
     (let routing = trim_space routing in
      if routing = '''' \<or> routing = ''@'' then (s, Inr False)
      else if zoneName = '''' then (s, Inl ''zone name unresolved'')
      else
        (let name = ''*.'' @ routing in
         case listing s of
           Inl e \<Rightarrow> (s, Inl e)
         | Inr recs \<Rightarrow>
             (if list_ex (\<lambda>r. rec_type r = TypeCNAME \<and> equal_fold (rec_name r) name) recs
              then (s, Inr False)
              else
                (case add s (zero_record\<lparr>rec_type := TypeCNAME, rec_name := name,
                               rec_value := routing @ ''.'' @ zoneName, rec_ttl := ttl,
                               rec_comment := CommentPrefix @ ''wildcard:'' @ routing\<rparr>) of
                   (s', Inl e) \<Rightarrow> (s', Inl e)
                 | (s', Inr created) \<Rightarrow> (s', Inr True)))))"

definition succeeds :: "(string \<Rightarrow> string option) \<Rightarrow> bool \<Rightarrow> outcome \<Rightarrow> bool" where
  "succeeds decode wants r =
     (case r of NetworkError _ \<Rightarrow> False
      | Response st body \<Rightarrow> 200 \<le> st \<and> st < 300 \<and> (wants \<and> trim_space body \<noteq> [] \<longrightarrow> decode body = None))"

lemma first_success_step:
  "(\<exists>j. n \<le> j \<and> j < n + Suc k \<and> (\<forall>i. n \<le> i \<and> i < j \<longrightarrow> R i) \<and> S j) \<longleftrightarrow>
     S n \<or> (R n \<and> (\<exists>j. Suc n \<le> j \<and> j < Suc n + k \<and> (\<forall>i. Suc n \<le> i \<and> i < j \<longrightarrow> R i) \<and> S j))"
  (is "?l \<longleftrightarrow> ?r")
proof
  assume ?l
  then obtain j where j: "n \<le> j" "j < n + Suc k" "\<forall>i. n \<le> i \<and> i < j \<longrightarrow> R i" "S j" by blast
  show ?r using j by (cases "j = n") (auto intro!: exI [of _ j])
next
  assume ?r
  then show ?l
  proof
    assume "S n" then show ?l by (intro exI [of _ n]) auto
  next
    assume "R n \<and> (\<exists>j. Suc n \<le> j \<and> j < Suc n + k \<and> (\<forall>i. Suc n \<le> i \<and> i < j \<longrightarrow> R i) \<and> S j)"
    then obtain j where j: "R n" "Suc n \<le> j" "j < Suc n + k" "\<forall>i. Suc n \<le> i \<and> i < j \<longrightarrow> R i" "S j" by blast
    have "\<forall>i. n \<le> i \<and> i < j \<longrightarrow> R i" using j(1,4) by (metis Suc_leI le_neq_implies_less)
    with j show ?l by (intro exI [of _ j]) simp
  qed
qed

lemma do_loop_ok:
  assumes "n + k = maxAttempts + 1" and "k > 0 \<or> le \<noteq> None"
  shows "fst (do_loop http decode wants k n le) = None \<longleftrightarrow>
     (\<exists>j. n \<le> j \<and> j < n + k \<and> (\<forall>i. n \<le> i \<and> i < j \<longrightarrow> retryable (http i)) \<and> succeeds decode wants (http j))"
  using assms
proof (induction k arbitrary: n le)
  case (Suc k)
  have IH: "fst (do_loop http decode wants k (Suc n) (Some e)) = None \<longleftrightarrow>
     (\<exists>j. Suc n \<le> j \<and> j < Suc n + k \<and> (\<forall>i. Suc n \<le> i \<and> i < j \<longrightarrow> retryable (http i)) \<and>
        succeeds decode wants (http j))" for e
    using Suc.IH [of "Suc n" "Some e"] Suc.prems(1) by simp
  show ?case
  proof (cases "http n")
    case (NetworkError e)
    then show ?thesis unfolding first_success_step using IH by (simp add: retryable_def succeeds_def)
  next
    case (Response st body)
    then show ?thesis unfolding first_success_step using IH Suc.prems(1)
      by (auto simp: retryable_def succeeds_def)
  qed
qed auto

lemma do_loop_attempts:
  "n + k = maxAttempts + 1 \<Longrightarrow> n \<ge> 1 \<Longrightarrow> snd (do_loop http decode wants k n le) \<le> maxAttempts"
proof (induction k arbitrary: n le)
  case (Suc k)
  then show ?case by (auto simp: split: outcome.splits)
qed simp

subsection \<open>Properties\<close>

text \<open>
  The retry loop. A request ends without an error exactly when one of its at most four
  attempts is answered with a 2xx whose body (when the caller wants one) decodes, every
  attempt before it having failed in a retryable way (network error, 429, 5xx).
\<close>

theorem bunny_do_ok:
  "(fst (bunny_do http decode wants) = None \<longleftrightarrow>
     (\<exists>j. 1 \<le> j \<and> j \<le> 4 \<and> (\<forall>i. 1 \<le> i \<and> i < j \<longrightarrow> retryable (http i)) \<and> succeeds decode wants (http j))) \<and>
   snd (bunny_do http decode wants) \<le> 4"
proof
  have "1 + maxAttempts = maxAttempts + 1" "maxAttempts > 0" by (simp_all add: maxAttempts_def)
  then have "fst (bunny_do http decode wants) = None \<longleftrightarrow>
     (\<exists>j. 1 \<le> j \<and> j < 1 + maxAttempts \<and> (\<forall>i. 1 \<le> i \<and> i < j \<longrightarrow> retryable (http i)) \<and> succeeds decode wants (http j))"
    unfolding bunny_do_def by (intro do_loop_ok) auto
  moreover have "j < 1 + maxAttempts \<longleftrightarrow> j \<le> 4" for j by (auto simp: maxAttempts_def)
  ultimately show "fst (bunny_do http decode wants) = None \<longleftrightarrow>
     (\<exists>j. 1 \<le> j \<and> j \<le> 4 \<and> (\<forall>i. 1 \<le> i \<and> i < j \<longrightarrow> retryable (http i)) \<and> succeeds decode wants (http j))"
    by simp
  show "snd (bunny_do http decode wants) \<le> 4"
    using do_loop_attempts [of 1 maxAttempts] by (simp add: bunny_do_def maxAttempts_def)
qed

lemma bunny_do_ok_witness:
  "fst (bunny_do (\<lambda>n. if n = 1 then NetworkError ''reset'' else if n = 2 then Response 503 [] else Response 200 ''{}'')
     (\<lambda>_. None) True) = None"
  by (rule iffD2 [OF conjunct1 [OF bunny_do_ok]], rule exI [of _ 3])
     (auto simp: succeeds_def retryable_def)

text \<open>
  \<open>EnsureRecord\<close> is idempotent. After it succeeded, calling it again for the same record
  writes nothing and returns an existing record with the wanted type, name and value.
\<close>

theorem EnsureRecord_idempotent:
  assumes zone: "bunny_zone stored listing add upd del"
    and first: "EnsureRecord listing add s r = (s', Inr (out, created))"
    and rs: "listing s' = Inr rs"
  shows "\<exists>x. EnsureRecord listing add s' r = (s', Inr (x, False)) \<and>
     rec_type x = rec_type r \<and> equal_fold (rec_name x) (rec_name r) \<and> rec_value x = rec_value r"
proof -
  let ?P = "\<lambda>x. rec_type x = rec_type r \<and> equal_fold (rec_name x) (rec_name r) \<and> rec_value x = rec_value r"
  have rs': "rs = stored s'" by (rule bunny_zone.list_law [OF zone rs])
  have "\<exists>x \<in> set rs. ?P x"
  proof (cases created)
    case False
    with first obtain l where l: "listing s = Inr l" "find ?P l = Some out" "s' = s"
      by (auto simp: EnsureRecord_def FindRecord_def split: sum.splits option.splits prod.splits)
    then show ?thesis using rs by (auto simp: find_Some_iff)
  next
    case True
    have "add s r = (s', Inr out)"
      using first True by (simp add: EnsureRecord_def split: sum.splits option.splits prod.splits)
    from bunny_zone.add_law [OF zone this] obtain x where "x \<in> set (stored s')" "written r x" by blast
    then show ?thesis unfolding rs' by (intro bexI [of _ x]) (auto simp: written_def equal_fold_def)
  qed
  then obtain x where x: "find ?P rs = Some x" by (cases "find ?P rs") (auto simp: find_None_iff)
  then have "?P x" by (auto simp: find_Some_iff)
  then show ?thesis using rs x by (simp add: EnsureRecord_def FindRecord_def)
qed

definition demo_a :: dns_record where
  "demo_a = zero_record\<lparr>rec_name := ''CDN'', rec_value := ''1.1.1.1''\<rparr>"

lemma EnsureRecord_idempotent_witness:
  "\<exists>x. EnsureRecord mem_list mem_add [Some demo_a] demo_a = ([Some demo_a], Inr (x, False)) \<and>
     rec_type x = rec_type demo_a \<and> equal_fold (rec_name x) (rec_name demo_a) \<and> rec_value x = rec_value demo_a"
proof -
  have "EnsureRecord mem_list mem_add [] demo_a = ([Some demo_a], Inr (demo_a, True))"
    by code_simp
  from EnsureRecord_idempotent [OF mem.bunny_zone_axioms this] show ?thesis
    by (simp add: mem_list_def)
qed

end
