(* ===== verification/DnsLock.thy ===== *)
theory DnsLock
  imports ZonesApi Bunny
begin

section \<open>The deletion lock and the DNS record handlers\<close>

text \<open>
  \<open>store/dns.go\<close> (the settings row), \<open>api/dns_lock.go\<close>, the record handlers of \<open>api/dns.go\<close> and
  \<open>removeServerDNS\<close> of \<open>api/dns_reconcile.go\<close>. A handler runs at one instant, which is the clock of
  the database and of the process. The Bunny calls are parameters over a service state \<open>'s\<close>, as in
  \<open>Bunny\<close>; so is \<open>da_ip4\<close>, \<open>net.ParseIP\<close> followed by \<open>To4\<close> and \<open>String\<close>.
\<close>

subsection \<open>The settings row\<close>

record dns_settings =
  ds_locked :: bool
  ds_requested :: "instant option"
  ds_delay :: int
  ds_updated :: instant

text \<open>The row the migration inserts.\<close>

definition default_dns_settings :: "instant \<Rightarrow> dns_settings" where
  "default_dns_settings now = \<lparr>ds_locked = True, ds_requested = None, ds_delay = 900, ds_updated = now\<rparr>"

definition UnlockAvailableAt :: "dns_settings \<Rightarrow> instant option" where
  "UnlockAvailableAt s = map_option (\<lambda>t. t + ds_delay s * second) (ds_requested s)"

definition IsUnlocked :: "dns_settings \<Rightarrow> instant \<Rightarrow> bool" where
  "IsUnlocked s now =
     (if \<not> ds_locked s then True
      else (case UnlockAvailableAt s of None \<Rightarrow> False | Some t \<Rightarrow> \<not> now < t))"

definition lock_state :: "dns_settings \<Rightarrow> instant \<Rightarrow> string" where
  "lock_state s now =
     (if IsUnlocked s now then ''unlocked'' else if ds_requested s \<noteq> None then ''pending'' else ''locked'')"

definition RequestDNSUnlock :: "instant \<Rightarrow> dns_settings \<Rightarrow> dns_settings" where
  "RequestDNSUnlock now s =
     s\<lparr>ds_requested := (case ds_requested s of None \<Rightarrow> Some now | Some t \<Rightarrow> Some t), ds_locked := True, ds_updated := now\<rparr>"

definition LockDNS :: "instant \<Rightarrow> dns_settings \<Rightarrow> dns_settings" where
  "LockDNS now s = s\<lparr>ds_locked := True, ds_requested := None, ds_updated := now\<rparr>"

definition CancelDNSUnlock :: "instant \<Rightarrow> dns_settings \<Rightarrow> dns_settings" where
  "CancelDNSUnlock = LockDNS"

definition SetDNSUnlockDelay :: "instant \<Rightarrow> int \<Rightarrow> dns_settings \<Rightarrow> dns_settings" where
  "SetDNSUnlockDelay now secs s = s\<lparr>ds_delay := secs, ds_updated := now\<rparr>"

subsection \<open>Requests and answers\<close>

record lock_response =
  lr_locked :: bool
  lr_state :: string
  lr_delay :: int
  lr_updated :: instant
  lr_pending :: "(instant \<times> instant \<times> int) option"

definition lockResponse :: "dns_settings \<Rightarrow> instant \<Rightarrow> lock_response" where
  "lockResponse s now =
     \<lparr>lr_locked = ds_locked s, lr_state = lock_state s now, lr_delay = ds_delay s, lr_updated = ds_updated s,
      lr_pending = (case ds_requested s of
                      None \<Rightarrow> None
                    | Some t \<Rightarrow> (let available = t + ds_delay s * second; remaining = (available - now) div second
                               in Some (t, available, if remaining < 0 then 0 else remaining)))\<rparr>"

record add_record =
  ar_name :: string
  ar_value :: string
  ar_ttl :: int
  ar_weight :: int
  ar_comment :: string

datatype dns_request =
    DLockStatus
  | DRequestUnlock
  | DCancelUnlock
  | DRelock
  | DSetDelay "int option"
  | DListRecords
  | DAddRecord "add_record option"
  | DDeleteRecord string
  | DServerDeleted string

datatype dns_answer =
    DLock lock_response
  | DLocked lock_response
  | DRecords "dns_record list"
  | DEnsured bool dns_record
  | DFailed string
  | DNothing

record 's dns_ops =
  do_list :: "'s \<Rightarrow> string + dns_record list"
  do_add :: "'s \<Rightarrow> dns_record \<Rightarrow> 's \<times> (string + dns_record)"
  do_del :: "'s \<Rightarrow> int \<Rightarrow> 's \<times> string option"

record 's dns_api =
  da_dns :: "'s dns_ops option"
  da_ip4 :: "string \<Rightarrow> string option"

type_synonym 's dns_reply = "(int \<times> dns_answer) \<times> dns_settings \<times> 's"

subsection \<open>The handlers of the lock\<close>

definition dnsLockStatus :: "instant \<Rightarrow> dns_settings \<times> 's \<Rightarrow> 's dns_reply" where
  "dnsLockStatus now w = ((200, DLock (lockResponse (fst w) now)), w)"

definition answer_lock :: "instant \<Rightarrow> dns_settings \<Rightarrow> 's \<Rightarrow> 's dns_reply" where
  "answer_lock now st s = ((200, DLock (lockResponse st now)), st, s)"

definition dnsRequestUnlock :: "instant \<Rightarrow> dns_settings \<times> 's \<Rightarrow> 's dns_reply" where
  "dnsRequestUnlock now w = answer_lock now (RequestDNSUnlock now (fst w)) (snd w)"

definition dnsCancelUnlock :: "instant \<Rightarrow> dns_settings \<times> 's \<Rightarrow> 's dns_reply" where
  "dnsCancelUnlock now w = answer_lock now (CancelDNSUnlock now (fst w)) (snd w)"

definition dnsRelock :: "instant \<Rightarrow> dns_settings \<times> 's \<Rightarrow> 's dns_reply" where
  "dnsRelock now w = answer_lock now (LockDNS now (fst w)) (snd w)"

text \<open>\<open>None\<close>: a body that does not parse. The validator wants 10 to 86400 seconds.\<close>

definition dnsSetDelay :: "instant \<Rightarrow> int option \<Rightarrow> dns_settings \<times> 's \<Rightarrow> 's dns_reply" where
  "dnsSetDelay now inp w =
     (case inp of
        None \<Rightarrow> ((400, DFailed ''invalid JSON body''), w)
      | Some secs \<Rightarrow> (if secs < 10 \<or> secs > 86400 then ((400, DFailed ''validation failed''), w)
                      else answer_lock now (SetDNSUnlockDelay now secs (fst w)) (snd w)))"

text \<open>\<open>None\<close> lets the caller go on.\<close>

definition requireDNSUnlocked :: "instant \<Rightarrow> dns_settings \<Rightarrow> (int \<times> dns_answer) option" where
  "requireDNSUnlocked now s = (if IsUnlocked s now then None else Some (423, DLocked (lockResponse s now)))"

subsection \<open>The handlers of the records\<close>

definition ensureBriskTag :: "string \<Rightarrow> string" where
  "ensureBriskTag comment =
     (let c = trim_space comment in
      if c = '''' then CommentPrefix @ ''manual''
      else if \<not> has_prefix c CommentPrefix then CommentPrefix @ c
      else c)"

definition dnsListRecords :: "'s dns_api \<Rightarrow> dns_settings \<times> 's \<Rightarrow> 's dns_reply" where
  "dnsListRecords a w =
     (case da_dns a of
        None \<Rightarrow> ((503, DFailed ''DNS not configured''), w)
      | Some c \<Rightarrow> (case do_list c (snd w) of
                   Inl e \<Rightarrow> ((502, DFailed e), w)
                 | Inr rs \<Rightarrow> ((200, DRecords rs), w)))"

definition dnsAddRecord :: "'s dns_api \<Rightarrow> add_record option \<Rightarrow> dns_settings \<times> 's \<Rightarrow> 's dns_reply" where
  "dnsAddRecord a inp w =
     (case da_dns a of
        None \<Rightarrow> ((503, DFailed ''DNS not configured''), w)
      | Some c \<Rightarrow>
          (case inp of
             None \<Rightarrow> ((400, DFailed ''invalid JSON body''), w)
           | Some r \<Rightarrow>
               if ar_value r = '''' then ((400, DFailed ''validation failed''), w)
               else (case da_ip4 a (trim_space (ar_value r)) of
                       None \<Rightarrow> ((400, DFailed ''value must be a valid IPv4 address (A record)''), w)
                     | Some ip \<Rightarrow>
                         (let ttl = (if ar_ttl r \<le> 0 then 60 else ar_ttl r);
                              rec = zero_record\<lparr>rec_type := TypeA, rec_name := trim_space (ar_name r), rec_value := ip,
                                      rec_ttl := ttl, rec_weight := ar_weight r, rec_comment := ensureBriskTag (ar_comment r)\<rparr> in
                          case EnsureRecord (do_list c) (do_add c) (snd w) rec of
                            (s', Inl e) \<Rightarrow> ((502, DFailed e), fst w, s')
                          | (s', Inr (out, created)) \<Rightarrow>
                              ((if created then 201 else 200, DEnsured created out), fst w, s')))))"

definition dnsDeleteRecord :: "'s dns_api \<Rightarrow> instant \<Rightarrow> string \<Rightarrow> dns_settings \<times> 's \<Rightarrow> 's dns_reply" where
  "dnsDeleteRecord a now path w =
     (case da_dns a of
        None \<Rightarrow> ((503, DFailed ''DNS not configured''), w)
      | Some c \<Rightarrow>
          (case requireDNSUnlocked now (fst w) of
             Some refusal \<Rightarrow> (refusal, w)
           | None \<Rightarrow>
               (case parse_int path of
                  None \<Rightarrow> ((400, DFailed ''invalid id''), w)
                | Some i \<Rightarrow>
                    (case do_list c (snd w) of
                       Inl e \<Rightarrow> ((502, DFailed e), w)
                     | Inr recs \<Rightarrow>
                         (case find (\<lambda>r. rec_id r = i) recs of
                            None \<Rightarrow> ((404, DFailed ''record not found in zone''), w)
                          | Some target \<Rightarrow>
                              if \<not> IsBriskManaged target then ((403, DFailed ''refusing to delete''), w)
                              else (case do_del c (snd w) i of
                                      (s', Some e) \<Rightarrow> ((502, DFailed e), fst w, s')
                                    | (s', None) \<Rightarrow> ((204, DNothing), fst w, s')))))))"

text \<open>
  The record of a deleted server: every record with its tag, the lock not asked; the first failed
  call ends it. The removed records are the audit rows.
\<close>

fun remove_tagged :: "('s \<Rightarrow> int \<Rightarrow> 's \<times> string option) \<Rightarrow> string \<Rightarrow> dns_record list \<Rightarrow> 's \<Rightarrow> 's \<times> dns_record list" where
  "remove_tagged del tag [] s = (s, [])"
| "remove_tagged del tag (r # rs) s =
     (if rec_comment r \<noteq> tag then remove_tagged del tag rs s
      else (case del s (rec_id r) of
              (s', Some e) \<Rightarrow> (s', [])
            | (s', None) \<Rightarrow> (case remove_tagged del tag rs s' of (s'', audits) \<Rightarrow> (s'', r # audits))))"

definition removeServerDNS :: "'s dns_api \<Rightarrow> string \<Rightarrow> 's \<Rightarrow> 's \<times> dns_record list" where
  "removeServerDNS a edge s =
     (case da_dns a of
        None \<Rightarrow> (s, [])
      | Some c \<Rightarrow> (if edge = '''' then (s, [])
                   else (case do_list c s of
                           Inl e \<Rightarrow> (s, [])
                         | Inr recs \<Rightarrow> remove_tagged (do_del c) (ServerTag edge) recs s)))"

fun serve_dns :: "'s dns_api \<Rightarrow> instant \<Rightarrow> dns_request \<Rightarrow> dns_settings \<times> 's \<Rightarrow> 's dns_reply" where
  "serve_dns a now DLockStatus w = dnsLockStatus now w"
| "serve_dns a now DRequestUnlock w = dnsRequestUnlock now w"
| "serve_dns a now DCancelUnlock w = dnsCancelUnlock now w"
| "serve_dns a now DRelock w = dnsRelock now w"
| "serve_dns a now (DSetDelay inp) w = dnsSetDelay now inp w"
| "serve_dns a now DListRecords w = dnsListRecords a w"
| "serve_dns a now (DAddRecord inp) w = dnsAddRecord a inp w"
| "serve_dns a now (DDeleteRecord path) w = dnsDeleteRecord a now path w"
| "serve_dns a now (DServerDeleted edge) w = ((204, DNothing), fst w, fst (removeServerDNS a edge (snd w)))"

text \<open>
  A deleted server's records go with it: \<open>removeServerDNS\<close>, as \<open>DELETE /servers/{id}\<close> calls it, is the
  other request that deletes records. The syncer changes the service too, at any time: an event is a
  request together with what happened to the service before it.
\<close>

type_synonym 's dns_event = "instant \<times> ('s \<Rightarrow> 's) \<times> dns_request"

definition run_dns :: "'s dns_api \<Rightarrow> 's dns_event list \<Rightarrow> dns_settings \<times> 's \<Rightarrow> dns_settings \<times> 's" where
  "run_dns a evs w = foldl (\<lambda>(st, s) (now, syncer, req). snd (serve_dns a now req (st, syncer s))) w evs"

subsection \<open>What the lock promises\<close>

lemmas lock_handlers =
  dnsLockStatus_def dnsRequestUnlock_def dnsCancelUnlock_def dnsRelock_def dnsSetDelay_def answer_lock_def
  RequestDNSUnlock_def CancelDNSUnlock_def LockDNS_def SetDNSUnlockDelay_def

text \<open>What one request does to the settings; the record handlers leave them.\<close>

fun settings_after :: "instant \<Rightarrow> dns_request \<Rightarrow> dns_settings \<Rightarrow> dns_settings" where
  "settings_after now DRequestUnlock s = RequestDNSUnlock now s"
| "settings_after now DCancelUnlock s = LockDNS now s"
| "settings_after now DRelock s = LockDNS now s"
| "settings_after now (DSetDelay (Some n)) s = (if 10 \<le> n \<and> n \<le> 86400 then SetDNSUnlockDelay now n s else s)"
| "settings_after now _ s = s"

lemma serve_dns_settings: "fst (snd (serve_dns a now req w)) = settings_after now req (fst w)"
proof (cases req)
  case (DSetDelay inp)
  then show ?thesis by (cases inp) (auto simp: lock_handlers)
qed (auto simp: lock_handlers dnsListRecords_def dnsAddRecord_def dnsDeleteRecord_def Let_def
       split: option.splits sum.splits prod.splits)

lemma run_dns_snoc: "fst (run_dns a (evs @ [(t, f, req)]) w) = settings_after t req (fst (run_dns a evs w))"
  by (simp add: run_dns_def serve_dns_settings split: prod.split)

text \<open>The request that started the pending unlock, with nothing after it that locks.\<close>

definition requests :: "'s dns_event list \<Rightarrow> (instant \<times> dns_request) list" where
  "requests evs = map (\<lambda>(t, f, req). (t, req)) evs"

definition unlock_requested :: "(instant \<times> dns_request) list \<Rightarrow> instant \<Rightarrow> bool" where
  "unlock_requested evs t \<longleftrightarrow>
     (\<exists>before rest. evs = before @ (t, DRequestUnlock) # rest \<and>
        (\<forall>(u, req) \<in> set rest. req \<noteq> DCancelUnlock \<and> req \<noteq> DRelock))"

definition lock_traced :: "(instant \<times> dns_request) list \<Rightarrow> dns_settings \<Rightarrow> bool" where
  "lock_traced evs s \<longleftrightarrow> ds_locked s \<and> 10 \<le> ds_delay s \<and>
     (case ds_requested s of None \<Rightarrow> True | Some t \<Rightarrow> unlock_requested evs t)"

lemma unlock_requested_snoc:
  "unlock_requested evs t \<Longrightarrow> req \<noteq> DCancelUnlock \<Longrightarrow> req \<noteq> DRelock \<Longrightarrow> unlock_requested (evs @ [(u, req)]) t"
  unfolding unlock_requested_def by fastforce

lemma unlock_requested_now: "unlock_requested (evs @ [(t, DRequestUnlock)]) t"
  unfolding unlock_requested_def by fastforce

lemma settings_after_traced:
  assumes "lock_traced evs s"
  shows "lock_traced (evs @ [(t, req)]) (settings_after t req s)"
proof (cases "req = DCancelUnlock \<or> req = DRelock")
  case True
  then show ?thesis using assms by (auto simp: lock_traced_def LockDNS_def)
next
  case False
  then show ?thesis using assms
    by (cases "(t, req, s)" rule: settings_after.cases)
       (auto simp: lock_traced_def RequestDNSUnlock_def SetDNSUnlockDelay_def unlock_requested_now
          intro: unlock_requested_snoc split: option.splits)
qed

lemma run_traced:
  assumes "lock_traced [] (fst w)"
  shows "lock_traced (requests evs) (fst (run_dns a evs w))"
proof (induction evs rule: rev_induct)
  case Nil
  show ?case using assms by (simp add: run_dns_def requests_def)
next
  case (snoc x evs)
  obtain t f req where x: "x = (t, f, req)" by (rule prod_cases3)
  have r: "requests (evs @ [(t, f, req)]) = requests evs @ [(t, req)]" by (simp add: requests_def)
  show ?case unfolding x run_dns_snoc r by (rule settings_after_traced [OF snoc.IH])
qed

definition keeps_delay :: "(instant \<times> dns_request) list \<Rightarrow> bool" where
  "keeps_delay rs \<longleftrightarrow> list_all (\<lambda>(t, req). case req of DSetDelay n \<Rightarrow> False | _ \<Rightarrow> True) rs"

lemma run_keeps_delay:
  assumes "keeps_delay (requests evs)"
  shows "ds_delay (fst (run_dns a evs w)) = ds_delay (fst w)"
  using assms
proof (induction evs rule: rev_induct)
  case (snoc x evs)
  obtain t f req where x: "x = (t, f, req)" by (rule prod_cases3)
  have "\<forall>n. req \<noteq> DSetDelay n" and rest: "keeps_delay (requests evs)"
    using snoc.prems by (auto simp: x requests_def keeps_delay_def)
  then have "ds_delay (settings_after t req s) = ds_delay s" for s
    by (cases "(t, req, s)" rule: settings_after.cases) (auto simp: RequestDNSUnlock_def LockDNS_def)
  then show ?case using snoc.IH [OF rest] unfolding x run_dns_snoc by simp
qed (simp add: run_dns_def)

lemma find_mem: "find P xs = Some x \<Longrightarrow> x \<in> set xs \<and> P x"
  by (auto simp: find_Some_iff)

text \<open>What a call of the record handlers takes away, whatever it answers.\<close>

lemma deleted_record:
  assumes zone: "lossy_zone stored (do_list c) (do_add c) upd (do_del c)" and c: "da_dns a = Some c"
    and step: "dnsDeleteRecord a now path (st, s) = (ans, st', s')"
    and x: "x \<in> set (stored s)" "x \<notin> set (stored s')"
  shows "IsUnlocked st now \<and> IsBriskManaged x \<and> parse_int path = Some (rec_id x) \<and> set (stored s') = set (stored s) - {x}"
proof -
  note d = dnsDeleteRecord_def requireDNSUnlocked_def
  have ne: "s' \<noteq> s" using x by blast
  have u: "IsUnlocked st now" using step c ne by (cases "IsUnlocked st now") (simp_all add: d)
  obtain i where i: "parse_int path = Some i" using step c u ne by (cases "parse_int path") (simp_all add: d)
  obtain recs where recs: "do_list c s = Inr recs" using step c u i ne by (cases "do_list c s") (simp_all add: d)
  obtain r where r: "find (\<lambda>r. rec_id r = i) recs = Some r"
    using step c u i recs ne by (cases "find (\<lambda>r. rec_id r = i) recs") (simp_all add: d)
  have b: "IsBriskManaged r" using step c u i recs r ne by (cases "IsBriskManaged r") (simp_all add: d)
  obtain s1 e where e: "do_del c s i = (s1, e)" by (cases "do_del c s i")
  have s1: "s' = s1" using step c u i recs r b e by (cases e; simp add: d)
  have bz: "bunny_zone stored (do_list c) (do_add c) upd (do_del c)" using zone by (simp add: lossy_zone_def)
  have rs: "recs = stored s" by (rule bunny_zone.list_law [OF bz recs])
  have S: "set (stored s') = {y \<in> set (stored s). rec_id y \<noteq> i}"
    using e by (rule lossy_zone.delete_any [OF zone]) (use x s1 in simp_all)
  have m: "r \<in> set (stored s)" "rec_id r = i" using find_mem [OF r] rs by simp_all
  have "x = r" using bunny_zone.ids_unique [OF bz, of s] x m S by (auto dest: inj_onD)
  moreover have "{y \<in> set (stored s). rec_id y \<noteq> i} = set (stored s) - {r}"
    using bunny_zone.ids_unique [OF bz, of s] m by (auto dest: inj_onD)
  ultimately show ?thesis using u b i m S by simp
qed

lemma remove_tagged_keeps:
  assumes zone: "lossy_zone stored lst add upd del"
    and "x \<in> set (stored s)" "\<And>r. r \<in> set rs \<Longrightarrow> rec_comment r = tag \<Longrightarrow> rec_id r \<noteq> rec_id x"
  shows "x \<in> set (stored (fst (remove_tagged del tag rs s)))"
  using assms(2,3)
proof (induction rs arbitrary: s)
  case (Cons r rs)
  show ?case
  proof (cases "rec_comment r = tag")
    case True
    obtain s1 e where d: "del s (rec_id r) = (s1, e)" by fastforce
    have "x \<in> set (stored s1)"
      using d by (rule lossy_zone.delete_any [OF zone]) (use Cons.prems True in force)+
    moreover have "x \<in> set (stored (fst (remove_tagged del tag rs s1)))"
      using Cons.IH [OF calculation] Cons.prems(2) by simp
    ultimately show ?thesis using True d by (auto split: option.split prod.split)
  qed (use Cons in simp)
qed simp

lemma server_deletion:
  assumes zone: "lossy_zone stored (do_list c) (do_add c) upd (do_del c)" and c: "da_dns a = Some c"
    and x: "x \<in> set (stored s)" "x \<notin> set (stored (fst (removeServerDNS a edge s)))"
  shows "edge \<noteq> '''' \<and> rec_comment x = ServerTag edge"
proof (rule ccontr)
  assume n: "\<not> (edge \<noteq> '''' \<and> rec_comment x = ServerTag edge)"
  have bz: "bunny_zone stored (do_list c) (do_add c) upd (do_del c)" using zone by (simp add: lossy_zone_def)
  have "x \<in> set (stored (fst (remove_tagged (do_del c) (ServerTag edge) recs s)))"
    if "do_list c s = Inr recs" "edge \<noteq> ''''" for recs
    using bunny_zone.ids_unique [OF bz, of s] x(1) n that bunny_zone.list_law [OF bz that(1)]
    by (intro remove_tagged_keeps [OF zone]) (auto dest: inj_onD)
  then show False using x c by (auto simp: removeServerDNS_def split: sum.splits if_splits)
qed

lemma added_record:
  assumes zone: "lossy_zone stored (do_list c) (do_add c) upd (do_del c)" and c: "da_dns a = Some c"
    and step: "dnsAddRecord a inp (st, s) = (ans, st', s')" and x: "x \<in> set (stored s)"
  shows "x \<in> set (stored s')"
proof -
  have "s' = s \<or> (\<exists>r res. EnsureRecord (do_list c) (do_add c) s r = (s', res))"
    using step c unfolding dnsAddRecord_def by (auto simp: Let_def split: option.splits sum.splits if_splits prod.splits)
  moreover have "x \<in> set (stored s')" if e: "EnsureRecord (do_list c) (do_add c) s r = (s', res)" for r res
  proof -
    have "s' = s \<or> (\<exists>out. do_add c s r = (s', out))"
      using e by (auto simp: EnsureRecord_def Let_def split: sum.splits option.splits prod.splits if_splits)
    moreover have "x \<in> set (stored s')" if "do_add c s r = (s', out)" for out
      using that by (rule lossy_zone.add_any [OF zone]) (use x in simp_all)
    ultimately show ?thesis using x by blast
  qed
  ultimately show ?thesis using x by blast
qed


definition demo_dns :: "dns_record option list dns_ops" where
  "demo_dns = \<lparr>do_list = mem_list, do_add = mem_add, do_del = mem_delete\<rparr>"

definition demo_dns_api :: "dns_record option list dns_api" where
  "demo_dns_api = \<lparr>da_dns = Some demo_dns, da_ip4 = (\<lambda>s. Some s)\<rparr>"

definition demo_zone_records :: "dns_record option list" where
  "demo_zone_records = [Some zero_record, Some (zero_record\<lparr>rec_name := ''cdn'', rec_value := ''1.1.1.1'', rec_comment := ''brisk:manual''\<rparr>)]"

definition demo_unlock :: "dns_record option list dns_event list" where
  "demo_unlock = [(0, (\<lambda>s. s), DRelock), (second, (\<lambda>s. s), DRequestUnlock), (2 * second, (\<lambda>s. s), DLockStatus)]"


text \<open>
  The delay of a pending unlock can be cut down to ten seconds after it was requested, and the
  unlock, once available, never ends by itself.
\<close>

lemma delay_cut_short:
  assumes "ds_requested st = Some t" "t + 10 * second \<le> now"
  shows "IsUnlocked (SetDNSUnlockDelay now 10 st) now"
  using assms by (simp add: IsUnlocked_def UnlockAvailableAt_def SetDNSUnlockDelay_def)

lemma unlocked_until_relocked:
  assumes "IsUnlocked st t" "t \<le> now"
  shows "IsUnlocked st now"
  using assms by (auto simp: IsUnlocked_def split: option.splits if_splits)

text \<open>A request for an unlock locks a row that was open, though the comment calls it a no-op then.\<close>

lemma request_locks_an_open_row:
  assumes "\<not> ds_locked st" "ds_requested st = None" "0 < ds_delay st"
  shows "IsUnlocked st now \<and> \<not> IsUnlocked (RequestDNSUnlock now st) now"
  using assms by (simp add: IsUnlocked_def UnlockAvailableAt_def RequestDNSUnlock_def second_def)

text \<open>Deleting a server takes exactly the records with its tag, when no call fails.\<close>

lemma remove_tagged_stored:
  assumes zone: "bunny_zone stored lst add upd del" and ok: "\<And>u i. snd (del u i) = None"
  shows "set (stored (fst (remove_tagged del tag rs s))) =
    {y \<in> set (stored s). \<forall>x \<in> set rs. rec_comment x = tag \<longrightarrow> rec_id y \<noteq> rec_id x}"
proof (induction rs arbitrary: s)
  case (Cons x rs)
  obtain s1 where d: "del s (rec_id x) = (s1, None)" using ok [of s "rec_id x"] by (cases "del s (rec_id x)") simp
  have "set (stored s1) = {y \<in> set (stored s). rec_id y \<noteq> rec_id x}" by (rule bunny_zone.delete_law [OF zone d])
  moreover have "fst (remove_tagged del tag (x # rs) s) =
      fst (remove_tagged del tag rs (if rec_comment x = tag then s1 else s))"
    using d by (simp split: prod.splits)
  ultimately show ?case using Cons.IH by auto
qed simp

lemma removeServerDNS_exact:
  assumes zone: "bunny_zone stored (do_list c) add upd (do_del c)" and ok: "\<And>u i. snd (do_del c u i) = None"
    and c: "da_dns a = Some c" "edge \<noteq> ''''" "do_list c s = Inr recs"
  shows "set (stored (fst (removeServerDNS a edge s))) = {y \<in> set (stored s). rec_comment y \<noteq> ServerTag edge}"
proof -
  have recs: "recs = stored s" by (rule bunny_zone.list_law [OF zone c(3)])
  have "fst (removeServerDNS a edge s) = fst (remove_tagged (do_del c) (ServerTag edge) (stored s) s)"
    using c recs by (simp add: removeServerDNS_def)
  then show ?thesis
    using remove_tagged_stored [OF zone ok] bunny_zone.ids_unique [OF zone, of s] by (auto simp: inj_on_def)
qed

end
