(* ===== verification/Rotation.thy ===== *)
theory Rotation
  imports DnsModel
begin

section \<open>Health-aware rotation (internal/dns/reconcile.go: RotationDecision)\<close>

text \<open>
  Which edges are in DNS rotation, with the precedence drain, then health, then heartbeat,
  and the two guards against emptying the zone. The result is a Go map, filled in the order
  of the endpoints, so a later endpoint with the same id would overwrite an earlier one.
\<close>

definition Online :: "endpoint \<Rightarrow> instant \<Rightarrow> duration \<Rightarrow> bool" where
  "Online e now stale =
     (if \<not> equal_fold (ep_status e) ''online'' then False
      else (case ep_last_seen e of None \<Rightarrow> False | Some t \<Rightarrow> now - t \<le> stale))"

definition Unhealthy :: "endpoint \<Rightarrow> bool" where
  "Unhealthy e = equal_fold (ep_health e) ''unhealthy''"

record decision =
  dec_in :: bool
  dec_reason :: string

text \<open>The counting loop: (non-drained, of these online, of these healthy).\<close>

fun rotation_counts :: "endpoint list \<Rightarrow> instant \<Rightarrow> duration \<Rightarrow> nat \<times> nat \<times> nat" where
  "rotation_counts [] now stale = (0, 0, 0)"
| "rotation_counts (ep # eps) now stale =
     (let (n, onl, healthy) = rotation_counts eps now stale in
      if ep_drained ep then (n, onl, healthy)
      else if Online ep now stale then
        (if \<not> Unhealthy ep then (n + 1, onl + 1, healthy + 1) else (n + 1, onl + 1, healthy))
      else (n + 1, onl, healthy))"

definition decide :: "bool \<Rightarrow> bool \<Rightarrow> bool \<Rightarrow> endpoint \<Rightarrow> decision" where
  "decide allDown allOffline online ep =
     (if ep_drained ep then \<lparr>dec_in = False, dec_reason = ''drained''\<rparr>
      else if Unhealthy ep then
        (if online \<and> allDown then \<lparr>dec_in = True, dec_reason = ''in_rotation''\<rparr>
         else \<lparr>dec_in = False, dec_reason = ''unhealthy''\<rparr>)
      else if \<not> online then
        (if allOffline then \<lparr>dec_in = True, dec_reason = ''in_rotation''\<rparr>
         else \<lparr>dec_in = False, dec_reason = ''offline''\<rparr>)
      else \<lparr>dec_in = True, dec_reason = ''in_rotation''\<rparr>)"

definition RotationDecision :: "endpoint list \<Rightarrow> instant \<Rightarrow> duration \<Rightarrow> (string \<rightharpoonup> decision)" where
  "RotationDecision eps now stale =
     (let (nonDrained, onlineCount, healthyOnline) = rotation_counts eps now stale;
          allDown = (onlineCount > 0 \<and> healthyOnline = 0);
          allOffline = (nonDrained > 0 \<and> onlineCount = 0)
      in foldl (\<lambda>out ep. out(ep_edge_id ep \<mapsto> decide allDown allOffline (Online ep now stale) ep))
           Map.empty eps)"

definition RotationState :: "endpoint list \<Rightarrow> instant \<Rightarrow> duration \<Rightarrow> (string \<rightharpoonup> bool)" where
  "RotationState eps now stale = (\<lambda>i. map_option dec_in (RotationDecision eps now stale i))"

text \<open>Reading the Go map: a missing key is \<open>false\<close>.\<close>

definition in_rotation :: "(string \<rightharpoonup> bool) \<Rightarrow> string \<Rightarrow> bool" where
  "in_rotation m i = (case m i of None \<Rightarrow> False | Some b \<Rightarrow> b)"

subsection \<open>The counts and the decision of one edge\<close>

definition pool :: "endpoint list \<Rightarrow> endpoint list" where
  "pool eps = filter (\<lambda>e. \<not> ep_drained e) eps"

lemma rotation_counts_eq:
  "rotation_counts eps now stale =
     (length (pool eps),
      length (filter (\<lambda>e. Online e now stale) (pool eps)),
      length (filter (\<lambda>e. Online e now stale \<and> \<not> Unhealthy e) (pool eps)))"
  by (induction eps) (auto simp: pool_def)

definition all_down :: "endpoint list \<Rightarrow> instant \<Rightarrow> duration \<Rightarrow> bool" where
  "all_down eps now stale \<longleftrightarrow>
     (\<exists>e \<in> set (pool eps). Online e now stale) \<and>
     (\<forall>e \<in> set (pool eps). Online e now stale \<longrightarrow> Unhealthy e)"

definition all_offline :: "endpoint list \<Rightarrow> instant \<Rightarrow> duration \<Rightarrow> bool" where
  "all_offline eps now stale \<longleftrightarrow>
     pool eps \<noteq> [] \<and> (\<forall>e \<in> set (pool eps). \<not> Online e now stale)"

lemma RotationDecision_alt:
  "RotationDecision eps now stale =
     foldl (\<lambda>out ep. out(ep_edge_id ep \<mapsto>
        decide (all_down eps now stale) (all_offline eps now stale) (Online ep now stale) ep))
      Map.empty eps"
proof -
  have "(length (filter (\<lambda>e. Online e now stale) (pool eps)) > 0 \<and>
         length (filter (\<lambda>e. Online e now stale \<and> \<not> Unhealthy e) (pool eps)) = 0)
        = all_down eps now stale"
    by (auto simp: all_down_def filter_empty_conv)
  moreover have "(length (pool eps) > 0 \<and> length (filter (\<lambda>e. Online e now stale) (pool eps)) = 0)
        = all_offline eps now stale"
    by (auto simp: all_offline_def filter_empty_conv)
  ultimately show ?thesis
    by (simp add: RotationDecision_def rotation_counts_eq)
qed

lemma RotationDecision_mem:
  assumes "distinct (map ep_edge_id eps)" and "ep \<in> set eps"
  shows "RotationDecision eps now stale (ep_edge_id ep) =
     Some (decide (all_down eps now stale) (all_offline eps now stale) (Online ep now stale) ep)"
  unfolding RotationDecision_alt by (rule foldl_upd_mem [OF assms])

lemma RotationDecision_unknown:
  "i \<notin> ep_edge_id ` set eps \<Longrightarrow> RotationDecision eps now stale i = None"
  unfolding RotationDecision_alt by (simp add: foldl_upd_other)

lemma in_rotation_mem:
  assumes "distinct (map ep_edge_id eps)" and "ep \<in> set eps"
  shows "in_rotation (RotationState eps now stale) (ep_edge_id ep) \<longleftrightarrow>
     dec_in (decide (all_down eps now stale) (all_offline eps now stale) (Online ep now stale) ep)"
  by (simp add: in_rotation_def RotationState_def RotationDecision_mem [OF assms])

lemma dec_in_decide:
  "dec_in (decide ad ao onl ep) \<longleftrightarrow>
     \<not> ep_drained ep \<and> (if Unhealthy ep then onl \<and> ad else onl \<or> ao)"
  by (auto simp: decide_def)

subsection \<open>Properties\<close>

text \<open>
  An edge that is not drained, beats in time and is not marked unhealthy is in rotation,
  whatever the state of the other edges.
\<close>

theorem serving_edge_in_rotation:
  assumes "distinct (map ep_edge_id eps)" "ep \<in> set eps"
    and "\<not> ep_drained ep" "Online ep now stale" "\<not> Unhealthy ep"
  shows "in_rotation (RotationState eps now stale) (ep_edge_id ep)"
  using assms by (simp add: in_rotation_mem dec_in_decide)

definition demo_edge :: endpoint where
  "demo_edge = \<lparr>ep_edge_id = ''e1'', ep_region = [], ep_ip = ''1.1.1.1'', ep_status = ''Online'',
     ep_last_seen = Some 5, ep_weight = 0, ep_override = [], ep_capacity = 0, ep_by_capacity = False,
     ep_load_factor = 0, ep_health = ''unknown'', ep_drained = False\<rparr>"

lemma serving_edge_in_rotation_witness:
  "in_rotation (RotationState [demo_edge] 60 60) (ep_edge_id demo_edge)"
proof -
  have "distinct (map ep_edge_id [demo_edge])" "demo_edge \<in> set [demo_edge]" by simp_all
  moreover have "\<not> ep_drained demo_edge" "Online demo_edge 60 60" "\<not> Unhealthy demo_edge" by code_simp+
  ultimately show ?thesis by (rule serving_edge_in_rotation)
qed

lemma usable_in_rotation:
  assumes d: "distinct (map ep_edge_id eps)" and ep: "ep \<in> set eps" "\<not> ep_drained ep" "Online ep now stale \<or> \<not> Unhealthy ep"
  shows "\<exists>ep \<in> set eps. in_rotation (RotationState eps now stale) (ep_edge_id ep)"
proof (cases "\<exists>e \<in> set (pool eps). Online e now stale")
  case True
  then obtain e where e: "e \<in> set (pool eps)" "Online e now stale" by blast
  show ?thesis
  proof (cases "all_down eps now stale")
    case True
    with e d show ?thesis
      by (intro bexI [of _ e]) (auto simp: in_rotation_mem dec_in_decide pool_def)
  next
    case False
    with e obtain h where "h \<in> set (pool eps)" "Online h now stale" "\<not> Unhealthy h"
      by (auto simp: all_down_def)
    with d show ?thesis
      by (intro bexI [of _ h]) (auto simp: in_rotation_mem dec_in_decide pool_def)
  qed
next
  case False
  with ep have "all_offline eps now stale" "\<not> Unhealthy ep"
    by (auto simp: all_offline_def pool_def filter_empty_conv)
  with ep d show ?thesis
    by (intro bexI [of _ ep]) (auto simp: in_rotation_mem dec_in_decide)
qed

lemma in_rotation_usable:
  assumes "distinct (map ep_edge_id eps)" "ep \<in> set eps" "in_rotation (RotationState eps now stale) (ep_edge_id ep)"
  shows "\<not> ep_drained ep \<and> (Online ep now stale \<or> \<not> Unhealthy ep)"
  using assms by (auto simp: in_rotation_mem dec_in_decide split: if_splits)

text \<open>
  C14: The blackhole guards, as one equivalence: some edge is in rotation exactly when some edge
  that is not drained is online or is not marked unhealthy. So the guards do not cover a fleet
  in which every edge is offline and unhealthy at once (see the findings).
\<close>

theorem rotation_nonempty_iff:
  assumes d: "distinct (map ep_edge_id eps)"
  shows "(\<exists>ep \<in> set eps. in_rotation (RotationState eps now stale) (ep_edge_id ep)) \<longleftrightarrow>
         (\<exists>ep \<in> set eps. \<not> ep_drained ep \<and> (Online ep now stale \<or> \<not> Unhealthy ep))"
  using in_rotation_usable [OF d] usable_in_rotation [OF d] by meson

definition down_edge :: "string \<Rightarrow> string \<Rightarrow> bool \<Rightarrow> endpoint" where
  "down_edge i health drained = \<lparr>ep_edge_id = i, ep_region = [], ep_ip = ''1.1.1.1'', ep_status = ''offline'',
     ep_last_seen = None, ep_weight = 0, ep_override = [], ep_capacity = 0, ep_by_capacity = False,
     ep_load_factor = 0, ep_health = health, ep_drained = drained\<rparr>"

lemma rotation_nonempty_iff_witness:
  "\<not> (\<exists>ep \<in> set [down_edge ''a'' ''unhealthy'' False, down_edge ''b'' ''healthy'' True].
       in_rotation (RotationState [down_edge ''a'' ''unhealthy'' False, down_edge ''b'' ''healthy'' True] 0 60) (ep_edge_id ep))"
proof -
  have "distinct (map ep_edge_id [down_edge ''a'' ''unhealthy'' False, down_edge ''b'' ''healthy'' True])"
    "\<not> (\<exists>ep \<in> set [down_edge ''a'' ''unhealthy'' False, down_edge ''b'' ''healthy'' True].
        \<not> ep_drained ep \<and> (Online ep 0 60 \<or> \<not> Unhealthy ep))"
    by code_simp+
  then show ?thesis by (subst rotation_nonempty_iff)
qed

text \<open>
  The exact gap of the guards: a fleet that is offline and unhealthy everywhere has every
  record disabled, although nobody drained an edge.
\<close>

lemma guard_gap:
  "RotationState [down_edge ''a'' ''unhealthy'' False, down_edge ''b'' ''unhealthy'' False] 0 60 ''a'' = Some False"
  "RotationState [down_edge ''a'' ''unhealthy'' False, down_edge ''b'' ''unhealthy'' False] 0 60 ''b'' = Some False"
  by code_simp+

end
