(* ===== verification/Reconcile.thy ===== *)
theory Reconcile
  imports Bunny Regions Rotation
begin

section \<open>The reconciler's plans (internal/dns/reconcile.go: Diff; zonesync.go: DiffZone, OrphanZonePlan)\<close>

text \<open>
  \<open>Diff\<close> converges the records tagged for an edge, \<open>DiffZone\<close> those tagged for an edge of a
  tenant zone. Both index the records that are theirs by edge id, walk the wanted edges
  comparing each with its record, and remove what is left of the index. The walk is one
  function here (\<open>converge_loop\<close>), run with an empty index of relics for a tenant zone, which
  adopts none; the locale \<open>reconciler\<close> holds what the two have in common and the convergence
  proof, and is interpreted on both. A Go map is an association list without repeated keys; the
  order in which the code iterates over it is the parameter \<open>ord\<close>.
\<close>

type_synonym record_index = "(string \<times> dns_record) list"

subsection \<open>Indexing and comparing\<close>

fun index_records ::
  "(dns_record \<Rightarrow> string option) \<Rightarrow> (dns_record \<Rightarrow> string option) \<Rightarrow> record_index \<Rightarrow> record_index \<Rightarrow>
   dns_record list \<Rightarrow> record_index \<times> record_index" where
  "index_records tag relic M U [] = (M, U)"
| "index_records tag relic M U (r # rs) =
     (case tag r of
        Some i \<Rightarrow> index_records tag relic (AList.update i r M) U rs
      | None \<Rightarrow>
          (case relic r of
             Some v \<Rightarrow> index_records tag relic M (AList.update v r U) rs
           | None \<Rightarrow> index_records tag relic M U rs))"

definition smartChanged :: "dns_record \<Rightarrow> dns_record \<Rightarrow> bool" where
  "smartChanged existing desired \<longleftrightarrow>
     rec_smart existing \<noteq> rec_smart desired \<or>
     rec_latency_zone existing \<noteq> rec_latency_zone desired \<or>
     rec_weight existing \<noteq> rec_weight desired \<or>
     rec_monitor_type existing \<noteq> rec_monitor_type desired \<or>
     \<not> floatEq (rec_lat existing) (rec_lat desired) \<or>
     \<not> floatEq (rec_long existing) (rec_long desired)"

definition contentChanged :: "dns_record \<Rightarrow> dns_record \<Rightarrow> bool" where
  "contentChanged existing desired \<longleftrightarrow>
     rec_value existing \<noteq> rec_value desired \<or> rec_name existing \<noteq> rec_name desired \<or>
     rec_ttl existing \<noteq> rec_ttl desired \<or> rec_comment existing \<noteq> rec_comment desired \<or>
     smartChanged existing desired"

definition disabledChanged :: "dns_record \<Rightarrow> dns_record \<Rightarrow> bool" where
  "disabledChanged existing desired \<longleftrightarrow> rec_disabled existing \<noteq> rec_disabled desired"

definition addAction :: "dns_record \<Rightarrow> string \<Rightarrow> dns_action" where
  "addAction desired e =
     \<lparr>act_kind = Add, act_edge = e, act_rec_id = 0, act_record = desired,
      act_name = rec_name desired, act_value = rec_value desired\<rparr>"

definition writeAction :: "bool \<Rightarrow> dns_record \<Rightarrow> dns_record \<Rightarrow> string \<Rightarrow> dns_action option" where
  "writeAction adopted existing desired e =
     (if \<not> adopted \<and> \<not> contentChanged existing desired \<and> \<not> disabledChanged existing desired then None
      else
        (let kind = (if \<not> adopted \<and> \<not> contentChanged existing desired \<and> disabledChanged existing desired
                     then (if rec_disabled desired then Disable else Enable) else Update)
         in Some \<lparr>act_kind = kind, act_edge = e, act_rec_id = rec_id existing,
                  act_record = desired\<lparr>rec_id := rec_id existing\<rparr>,
                  act_name = rec_name desired, act_value = rec_value desired\<rparr>))"

definition removeAction :: "string \<times> dns_record \<Rightarrow> dns_action" where
  "removeAction p =
     \<lparr>act_kind = Remove, act_edge = fst p, act_rec_id = rec_id (snd p), act_record = zero_record,
      act_name = rec_name (snd p), act_value = rec_value (snd p)\<rparr>"

definition opt_cons :: "'a option \<Rightarrow> 'a list \<Rightarrow> 'a list" where
  "opt_cons x xs = (case x of None \<Rightarrow> xs | Some y \<Rightarrow> y # xs)"

fun converge_loop ::
  "('e \<Rightarrow> string) \<Rightarrow> ('e \<Rightarrow> dns_record) \<Rightarrow> record_index \<Rightarrow> record_index \<Rightarrow> 'e list \<Rightarrow> record_index \<times> plan" where
  "converge_loop key desired M U [] = (M, [])"
| "converge_loop key desired M U (e # es) =
     (let d = desired e; k = key e in
      case map_of M k of
        Some existing \<Rightarrow>
          (let (M', as) = converge_loop key desired (AList.delete k M) U es
           in (M', opt_cons (writeAction False existing d k) as))
      | None \<Rightarrow>
          (case map_of U (rec_value d) of
             Some relic \<Rightarrow>
               (let (M', as) = converge_loop key desired (AList.delete k M) (AList.delete (rec_value d) U) es
                in (M', opt_cons (writeAction True relic d k) as))
           | None \<Rightarrow>
               (let (M', as) = converge_loop key desired M U es
                in (M', addAction d k # as))))"

definition converge_plan ::
  "(dns_record \<Rightarrow> string option) \<Rightarrow> (dns_record \<Rightarrow> string option) \<Rightarrow> (record_index \<Rightarrow> record_index) \<Rightarrow>
   ('e \<Rightarrow> string) \<Rightarrow> ('e \<Rightarrow> dns_record) \<Rightarrow> 'e list \<Rightarrow> dns_record list \<Rightarrow> plan" where
  "converge_plan tag relic ord key desired es records =
     (let (M, U) = index_records tag relic [] [] records;
          (M', as) = converge_loop key desired M U es
      in as @ map removeAction (ord M'))"

subsection \<open>Diff\<close>

definition desiredRecord ::
  "(string \<rightharpoonup> region_loc) \<Rightarrow> diff_opts \<Rightarrow> endpoint list \<Rightarrow> string \<Rightarrow> string \<Rightarrow> endpoint \<Rightarrow> dns_record" where
  "desiredRecord m opts eps name comment ep =
     (let (srt, lat, long, latZone) = smartFieldsFor m ep (opt_mode opts) in
      zero_record\<lparr>rec_type := TypeA, rec_name := name, rec_value := ep_ip ep, rec_ttl := opt_ttl opts,
        rec_disabled := \<not> in_rotation (RotationState eps (opt_now opts) (opt_stale opts)) (ep_edge_id ep),
        rec_comment := comment, rec_weight := effectiveWeight ep (maxCapacity eps),
        rec_smart := srt, rec_latency_zone := latZone, rec_lat := lat, rec_long := long,
        rec_monitor_type := opt_monitor opts\<rparr>)"

definition server_tag_of :: "dns_record \<Rightarrow> string option" where
  "server_tag_of r = (let i = edgeIDFromComment (rec_comment r) in if i \<noteq> '''' then Some i else None)"

definition relic_of :: "string \<Rightarrow> dns_record \<Rightarrow> string option" where
  "relic_of name r =
     (if rec_type r = TypeA \<and> equal_fold (rec_name r) name \<and> rec_value r \<noteq> ''''
      then Some (rec_value r) else None)"

definition placeable :: "endpoint \<Rightarrow> bool" where
  "placeable ep \<longleftrightarrow> \<not> (ep_edge_id ep = '''' \<or> ep_ip ep = '''')"

definition Diff ::
  "(string \<rightharpoonup> region_loc) \<Rightarrow> (record_index \<Rightarrow> record_index) \<Rightarrow> endpoint list \<Rightarrow> dns_record list \<Rightarrow> diff_opts \<Rightarrow> plan" where
  "Diff m ord eps records opts =
     converge_plan server_tag_of (relic_of (opt_name opts)) ord ep_edge_id
       (\<lambda>ep. desiredRecord m opts eps (opt_name opts) (ServerTag (ep_edge_id ep)) ep)
       (filter placeable eps) records"

subsection \<open>DiffZone and the orphan sweep\<close>

record zone_routing =
  zr_id :: int
  zr_name :: string
  zr_assigned :: "string list"

definition zone_tag_of :: "zone_routing \<Rightarrow> dns_record \<Rightarrow> string option" where
  "zone_tag_of zr r =
     (if rec_type r \<noteq> TypeA \<or> \<not> equal_fold (rec_name r) (zr_name zr) then None
      else edgeIDFromZoneComment (rec_comment r) (zr_id zr))"

definition ep_by_id :: "endpoint list \<Rightarrow> (string \<rightharpoonup> endpoint)" where
  "ep_by_id eps = foldl (\<lambda>m ep. m(ep_edge_id ep \<mapsto> ep)) Map.empty (filter (\<lambda>ep. ep_edge_id ep \<noteq> '''') eps)"

definition zone_members :: "zone_routing \<Rightarrow> endpoint list \<Rightarrow> (string \<times> endpoint) list" where
  "zone_members zr eps =
     List.map_filter (\<lambda>i. case ep_by_id eps i of None \<Rightarrow> None
        | Some ep \<Rightarrow> if ep_ip ep = '''' then None else Some (i, ep)) (zr_assigned zr)"

definition DiffZone ::
  "(string \<rightharpoonup> region_loc) \<Rightarrow> (record_index \<Rightarrow> record_index) \<Rightarrow> zone_routing \<Rightarrow> endpoint list \<Rightarrow>
   dns_record list \<Rightarrow> diff_opts \<Rightarrow> plan" where
  "DiffZone m ord zr eps records opts =
     converge_plan (zone_tag_of zr) (\<lambda>_. None) ord fst
       (\<lambda>(i, ep). desiredRecord m opts eps (zr_name zr) (zoneEdgeTag (zr_id zr) i) ep)
       (zone_members zr eps) records"

definition OrphanZonePlan :: "dns_record list \<Rightarrow> (int \<Rightarrow> bool) \<Rightarrow> plan" where
  "OrphanZonePlan records active =
     map (\<lambda>r. removeAction ('''', r))
       (filter (\<lambda>r. case zoneIDFromComment (rec_comment r) of None \<Rightarrow> False | Some z \<Rightarrow> \<not> active z) records)"

subsection \<open>The index\<close>

definition index_ok ::
  "(dns_record \<Rightarrow> string option) \<Rightarrow> (dns_record \<Rightarrow> string option) \<Rightarrow> dns_record set \<Rightarrow>
   record_index \<Rightarrow> record_index \<Rightarrow> bool" where
  "index_ok tag relic S M U \<longleftrightarrow>
     distinct (map fst M) \<and> distinct (map fst U) \<and>
     (\<forall>p \<in> set M. snd p \<in> S \<and> tag (snd p) = Some (fst p)) \<and>
     (\<forall>p \<in> set U. snd p \<in> S \<and> tag (snd p) = None \<and> relic (snd p) = Some (fst p))"

lemma index_records_ok:
  assumes "index_records tag relic M U rs = (M', U')" and "index_ok tag relic S M U"
    and "set rs \<subseteq> S"
  shows "index_ok tag relic S M' U'"
  using assms
proof (induction tag relic M U rs rule: index_records.induct)
  case (2 tag relic M U r rs)
  show ?case
  proof (cases "tag r")
    case (Some i)
    have "index_ok tag relic S (AList.update i r M) U"
      using "2.prems"(2,3) Some unfolding index_ok_def
      by (auto simp: distinct_update dest!: update_mem)
    then show ?thesis using 2 Some by simp
  next
    case None
    show ?thesis
    proof (cases "relic r")
      case v: (Some v)
      have "index_ok tag relic S M (AList.update v r U)"
        using "2.prems"(2,3) None v unfolding index_ok_def
        by (auto simp: distinct_update dest!: update_mem)
      then show ?thesis using 2 None v by simp
    qed (use 2 None in simp)
  qed
qed simp

text \<open>Every tagged record's tag is a key, and no key is lost.\<close>

lemma index_records_keys:
  "fst ` set (fst (index_records tag relic M U rs)) = fst ` set M \<union> {i. \<exists>r \<in> set rs. tag r = Some i}"
proof (induction tag relic M U rs rule: index_records.induct)
  case (2 tag relic M U r rs)
  then show ?case by (auto simp: dom_update split: option.splits)
qed simp

lemma index_ok_ids:
  assumes ok: "index_ok tag relic S M U" and inj: "inj_on rec_id S"
  shows "distinct (map (rec_id \<circ> snd) (M @ U))"
proof -
  have M: "distinct M" and U: "distinct U"
    using ok unfolding index_ok_def by (simp_all add: distinct_map)
  have dis: "set M \<inter> set U = {}" using ok unfolding index_ok_def by fastforce
  have fst_eq: "fst p = (case tag (snd p) of Some k \<Rightarrow> k | None \<Rightarrow> the (relic (snd p)))" if "p \<in> set (M @ U)" for p
    using ok that unfolding index_ok_def by (auto split: option.splits)
  have "inj_on (rec_id \<circ> snd) (set (M @ U))"
  proof (rule inj_onI)
    fix p q assume p: "p \<in> set (M @ U)" and q: "q \<in> set (M @ U)" and eq: "(rec_id \<circ> snd) p = (rec_id \<circ> snd) q"
    have "snd p \<in> S" "snd q \<in> S" using ok p q unfolding index_ok_def by auto
    then have snd: "snd p = snd q" using inj eq by (auto dest: inj_onD)
    then have "fst p = fst q" by (simp only: fst_eq [OF p] fst_eq [OF q] snd)
    then show "p = q" using snd by (rule prod_eqI)
  qed
  moreover have "distinct (M @ U)" using M U dis by simp
  ultimately show ?thesis unfolding distinct_map by blast
qed

lemma AList_delete_filter: "AList.delete k al = filter (\<lambda>p. fst p \<noteq> k) al"
  by (induction al) auto

subsection \<open>The walk\<close>

lemma loop_cases:
  assumes "converge_loop key des M U (e # es) = (M', as)"
  obtains (hit) r as' where "map_of M (key e) = Some r"
      "converge_loop key des (AList.delete (key e) M) U es = (M', as')"
      "as = opt_cons (writeAction False r (des e) (key e)) as'"
    | (relic) r as' where "map_of M (key e) = None" "map_of U (rec_value (des e)) = Some r"
      "converge_loop key des (AList.delete (key e) M) (AList.delete (rec_value (des e)) U) es = (M', as')"
      "as = opt_cons (writeAction True r (des e) (key e)) as'"
    | (new) as' where "map_of M (key e) = None" "map_of U (rec_value (des e)) = None"
      "converge_loop key des M U es = (M', as')" "as = addAction (des e) (key e) # as'"
  using assms that by (simp add: Let_def split: option.splits prod.splits)

text \<open>The record an edge's write would leave untouched: nothing the diff compares differs.\<close>

definition same_record :: "dns_record \<Rightarrow> dns_record \<Rightarrow> bool" where
  "same_record x d \<longleftrightarrow> \<not> contentChanged x d \<and> \<not> disabledChanged x d"

lemma writeAction_None: "writeAction adopted r d k = None \<longleftrightarrow> \<not> adopted \<and> same_record r d"
  by (auto simp: writeAction_def same_record_def Let_def)

lemma writeAction_Some:
  assumes "writeAction adopted r d k = Some a"
  shows "act_kind a \<noteq> Add" "act_kind a \<noteq> Remove" "act_rec_id a = rec_id r"
    and "act_record a = d\<lparr>rec_id := rec_id r\<rparr>" "act_edge a = k"
  using assms by (auto simp: writeAction_def Let_def split: if_splits)

lemma opt_cons_write:
  "touched_ids (opt_cons (writeAction b r d k) as) =
     (if \<not> b \<and> same_record r d then touched_ids as else rec_id r # touched_ids as)"
proof (cases "writeAction b r d k")
  case None
  then show ?thesis using writeAction_None [of b r d k] by (simp add: opt_cons_def)
next
  case (Some a)
  then have n: "\<not> (\<not> b \<and> same_record r d)" by (metis option.distinct(1) writeAction_None)
  show ?thesis unfolding if_not_P [OF n] using writeAction_Some [OF Some] Some
    by (simp add: opt_cons_def touched_ids_Cons)
qed

lemma loop_managed:
  "converge_loop key des M U es = (M', as) \<Longrightarrow> M' = filter (\<lambda>p. fst p \<notin> key ` set es) M"
proof (induction es arbitrary: M U M' as)
  case (Cons e es)
  from Cons.prems show ?case
  proof (cases rule: loop_cases)
    case (hit r as')
    show ?thesis using Cons.IH [OF hit(2)] by (auto simp: AList_delete_filter intro: filter_cong)
  next
    case (relic r as')
    show ?thesis using Cons.IH [OF relic(3)] by (auto simp: AList_delete_filter intro: filter_cong)
  next
    case (new as')
    have "\<forall>p \<in> set M. fst p \<noteq> key e" using new(1) by (metis imageI map_of_eq_None_iff)
    then show ?thesis using Cons.IH [OF new(3)] by (auto intro!: filter_cong)
  qed
qed simp

text \<open>
  The touched record ids are ids of records the walk took out of an index, each once.
\<close>

lemma ids_shrink:
  assumes d: "distinct (map (rec_id \<circ> snd) (M @ U))"
  shows "distinct (map (rec_id \<circ> snd) (AList.delete k M @ U))"
    and "distinct (map (rec_id \<circ> snd) (AList.delete k M @ AList.delete v U))"
  using d by (auto simp: AList_delete_filter distinct_map_filter)

lemma loop_touched:
  assumes "converge_loop key des M U es = (M', as)" and "distinct (map (rec_id \<circ> snd) (M @ U))"
  shows "distinct (touched_ids as) \<and>
     set (touched_ids as) \<subseteq> (rec_id \<circ> snd) ` ({p \<in> set M. fst p \<in> key ` set es} \<union> set U)"
  using assms
proof (induction es arbitrary: M U M' as)
  case (Cons e es)
  let ?id = "rec_id \<circ> snd"
  from Cons.prems(1) show ?case
  proof (cases rule: loop_cases)
    case (hit r as')
    have p: "(key e, r) \<in> set M" using hit(1) by (rule map_of_SomeD)
    note IH = Cons.IH [OF hit(2) ids_shrink(1) [OF Cons.prems(2)]]
    let ?R = "{p \<in> set (AList.delete (key e) M). fst p \<in> key ` set es} \<union> set U"
    have "inj_on ?id (set (M @ U))" using Cons.prems(2) by (simp only: distinct_map)
    moreover have "?R \<subseteq> set (M @ U)" "(key e, r) \<notin> ?R \<or> (key e, r) \<in> set U"
      by (auto simp: AList_delete_filter)
    moreover have "(key e, r) \<notin> set U" using Cons.prems(2) p by (auto simp: image_iff)
    ultimately have "?id (key e, r) \<notin> ?id ` ?R" using p
      by (metis (no_types, lifting) Un_iff inj_on_image_mem_iff set_append)
    then have new: "rec_id r \<notin> set (touched_ids as')" using IH by auto
    have "?R \<subseteq> {p \<in> set M. fst p \<in> key ` set (e # es)} \<union> set U" by (auto simp: AList_delete_filter)
    then have "set (touched_ids as') \<subseteq> ?id ` ({p \<in> set M. fst p \<in> key ` set (e # es)} \<union> set U)"
      using IH by blast
    moreover have "rec_id r \<in> ?id ` ({p \<in> set M. fst p \<in> key ` set (e # es)} \<union> set U)" using p by force
    ultimately show ?thesis using IH new by (simp add: opt_cons_write hit(3))
  next
    case (relic r as')
    have p: "(rec_value (des e), r) \<in> set U" using relic(2) by (rule map_of_SomeD)
    note IH = Cons.IH [OF relic(3) ids_shrink(2) [OF Cons.prems(2)]]
    let ?R = "{p \<in> set (AList.delete (key e) M). fst p \<in> key ` set es} \<union> set (AList.delete (rec_value (des e)) U)"
    have "inj_on ?id (set (M @ U))" using Cons.prems(2) by (simp only: distinct_map)
    moreover have "?R \<subseteq> set (M @ U)" "(rec_value (des e), r) \<notin> ?R \<or> (rec_value (des e), r) \<in> set M"
      by (auto simp: AList_delete_filter)
    moreover have "(rec_value (des e), r) \<notin> set M" using Cons.prems(2) p by (auto simp: image_iff)
    ultimately have "?id (rec_value (des e), r) \<notin> ?id ` ?R" using p
      by (metis (no_types, lifting) Un_iff inj_on_image_mem_iff set_append)
    then have new: "rec_id r \<notin> set (touched_ids as')" using IH by auto
    have "?R \<subseteq> {p \<in> set M. fst p \<in> key ` set (e # es)} \<union> set U" by (auto simp: AList_delete_filter)
    then have "set (touched_ids as') \<subseteq> ?id ` ({p \<in> set M. fst p \<in> key ` set (e # es)} \<union> set U)"
      using IH by blast
    moreover have "rec_id r \<in> ?id ` ({p \<in> set M. fst p \<in> key ` set (e # es)} \<union> set U)" using p by force
    ultimately show ?thesis using IH new by (simp add: opt_cons_write relic(4))
  next
    case (new as')
    note IH = Cons.IH [OF new(3) Cons.prems(2)]
    have t: "touched_ids as = touched_ids as'" using new(4) by (simp add: touched_ids_Cons addAction_def)
    have sub: "{p \<in> set M. fst p \<in> key ` set es} \<union> set U \<subseteq> {p \<in> set M. fst p \<in> key ` set (e # es)} \<union> set U"
      by auto
    show ?thesis unfolding t
      using conjunct1 [OF IH] order_trans [OF conjunct2 [OF IH] image_mono [OF sub]] by (rule conjI)
  qed
qed (simp add: touched_ids_def)

text \<open>A relic is touched only when it points at the address of a wanted edge.\<close>

lemma loop_used:
  assumes "converge_loop key des M U es = (M', as)" and "i \<in> set (touched_ids as)"
  shows "(\<exists>p \<in> set M. rec_id (snd p) = i) \<or>
     (\<exists>p \<in> set U. rec_id (snd p) = i \<and> (\<exists>e \<in> set es. fst p = rec_value (des e)))"
  using assms
proof (induction es arbitrary: M U M' as)
  case (Cons e es)
  from Cons.prems(1) show ?case
  proof (cases rule: loop_cases)
    case (hit r as')
    have "(key e, r) \<in> set M" using hit(1) by (rule map_of_SomeD)
    moreover have "i = rec_id r \<or> i \<in> set (touched_ids as')"
      using Cons.prems(2) hit(3) by (auto simp: opt_cons_write split: if_splits)
    ultimately show ?thesis using Cons.IH [OF hit(2)] by (force simp: AList_delete_filter)
  next
    case (relic r as')
    have "(rec_value (des e), r) \<in> set U" using relic(2) by (rule map_of_SomeD)
    moreover have "i = rec_id r \<or> i \<in> set (touched_ids as')"
      using Cons.prems(2) relic(4) by (auto simp: opt_cons_write split: if_splits)
    ultimately show ?thesis using Cons.IH [OF relic(3)] by (force simp: AList_delete_filter)
  next
    case (new as')
    then have "i \<in> set (touched_ids as')" using Cons.prems(2) by (simp add: touched_ids_Cons addAction_def)
    then show ?thesis using Cons.IH [OF new(3)] by auto
  qed
qed (simp add: touched_ids_def)

text \<open>Every action of the walk writes a wanted record; a wanted record is written or was there.\<close>

definition writes :: "('e \<Rightarrow> dns_record) \<Rightarrow> 'e \<Rightarrow> dns_action \<Rightarrow> bool" where
  "writes des e a \<longleftrightarrow> act_kind a \<noteq> Remove \<and> (\<exists>i. act_record a = (des e)\<lparr>rec_id := i\<rparr>)"

lemma writes_add [simp]: "writes des e (addAction (des e) k)"
  by (auto simp: writes_def addAction_def intro!: exI [of _ "rec_id (des e)"])

lemma writes_write: "writeAction b r (des e) k = Some a \<Longrightarrow> writes des e a"
  using writeAction_Some [of b r "des e" k a] by (auto simp: writes_def)

lemma set_opt_cons: "set (opt_cons x xs) = (case x of None \<Rightarrow> set xs | Some y \<Rightarrow> insert y (set xs))"
  by (simp add: opt_cons_def split: option.splits)

lemma loop_shape:
  "converge_loop key des M U es = (M', as) \<Longrightarrow> a \<in> set as \<Longrightarrow> \<exists>e \<in> set es. writes des e a"
proof (induction es arbitrary: M U M' as)
  case (Cons e es)
  from Cons.prems(1) show ?case
  proof (cases rule: loop_cases)
    case (hit r as')
    then show ?thesis using Cons.IH [OF hit(2)] Cons.prems(2)
      by (auto simp: set_opt_cons dest: writes_write split: option.splits)
  next
    case (relic r as')
    then show ?thesis using Cons.IH [OF relic(3)] Cons.prems(2)
      by (auto simp: set_opt_cons dest: writes_write split: option.splits)
  next
    case (new as')
    then show ?thesis using Cons.IH [OF new(3)] Cons.prems(2) by auto
  qed
qed simp

lemma touched_opt_cons: "set (touched_ids as) \<subseteq> set (touched_ids (opt_cons x as))"
  by (cases x) (auto simp: opt_cons_def touched_ids_Cons)

lemma loop_old:
  assumes "converge_loop key des M U es = (M', as)" and "distinct (map fst M)" "distinct (map key es)"
    and "e \<in> set es" and "(key e, r) \<in> set M"
  shows "same_record r (des e) \<or> rec_id r \<in> set (touched_ids as)"
  using assms
proof (induction es arbitrary: M U M' as)
  case (Cons f es)
  have del: "distinct (map fst (AList.delete k M))" for k
    using Cons.prems(2) by (simp add: AList_delete_filter distinct_map_filter)
  have keep: "(key e, r) \<in> set (AList.delete (key f) M)" "e \<in> set es" if "e \<noteq> f"
    using that Cons.prems(3,4,5) by (force simp: AList_delete_filter image_iff)+
  have here: "map_of M (key e) = Some r" using Cons.prems(2,5) by simp
  have keys: "distinct (map key es)" using Cons.prems(3) by simp
  from Cons.prems(1) show ?case
  proof (cases rule: loop_cases)
    case (hit x as')
    show ?thesis
    proof (cases "e = f")
      case True
      then show ?thesis using hit here by (auto simp: opt_cons_write)
    next
      case False
      then show ?thesis
        using Cons.IH [OF hit(2) del keys keep(2,1)] touched_opt_cons hit(3) by blast
    qed
  next
    case (relic x as')
    then have "e \<noteq> f" using here by auto
    then show ?thesis using Cons.IH [OF relic(3) del keys keep(2,1)] touched_opt_cons relic(4) by blast
  next
    case (new as')
    then have "e \<noteq> f" using here by auto
    moreover have "touched_ids as = touched_ids as'" using new(4) by (simp add: touched_ids_Cons addAction_def)
    ultimately show ?thesis using Cons.IH [OF new(3) Cons.prems(2) keys keep(2)] Cons.prems(5) by simp
  qed
qed simp

lemma ids_eq:
  assumes "distinct (map (rec_id \<circ> snd) (M @ U))" and "p \<in> set M \<union> set U" "q \<in> set M \<union> set U"
    and "rec_id (snd p) = rec_id (snd q)"
  shows "p = q"
proof -
  have "inj_on (rec_id \<circ> snd) (set M \<union> set U)" using assms(1) by (simp only: distinct_map set_append)
  then show ?thesis by (rule inj_onD) (use assms in simp_all)
qed

lemma ids_disjoint:
  assumes "distinct (map (rec_id \<circ> snd) (M @ U))" and "p \<in> set M" "q \<in> set U"
  shows "rec_id (snd p) \<noteq> rec_id (snd q)"
  using assms by (auto simp: image_iff)

lemma loop_wanted:
  assumes "converge_loop key des M U es = (M', as)" and "distinct (map (rec_id \<circ> snd) (M @ U))"
    and "e \<in> set es"
  shows "(\<exists>a \<in> set as. writes des e a) \<or>
     (\<exists>r. (key e, r) \<in> set M \<and> rec_id r \<notin> set (touched_ids as))"
  using assms
proof (induction es arbitrary: M U M' as)
  case (Cons f es)
  from Cons.prems(1) show ?case
  proof (cases rule: loop_cases)
    case (hit r as')
    let ?D = "AList.delete (key f) M"
    have r: "(key f, r) \<in> set M" using hit(1) by (rule map_of_SomeD)
    note ids = ids_shrink(1) [OF Cons.prems(2)]
    have fresh: "rec_id r \<notin> set (touched_ids as')"
    proof
      assume "rec_id r \<in> set (touched_ids as')"
      then obtain p where p: "p \<in> set ?D \<union> set U" "rec_id (snd p) = rec_id r"
        using loop_touched [OF hit(2) ids] by fastforce
      then have "p = (key f, r)"
        using ids_eq [OF Cons.prems(2), of p "(key f, r)"] r by (auto simp: AList_delete_filter)
      then show False using p(1) ids_disjoint [OF Cons.prems(2) r, of p] by (auto simp: AList_delete_filter)
    qed
    have "(\<exists>a \<in> set as. writes des f a) \<or> touched_ids as = touched_ids as'"
      using hit(3) writes_write [of False r des f "key f"]
      by (cases "writeAction False r (des f) (key f)") (auto simp: opt_cons_def)
    moreover have "?thesis" if "e \<in> set es"
    proof -
      have "rec_id x \<noteq> rec_id r" if "(key e, x) \<in> set ?D" for x
        using that ids_eq [OF Cons.prems(2), of "(key e, x)" "(key f, r)"] r by (auto simp: AList_delete_filter)
      then show ?thesis using Cons.IH [OF hit(2) ids that] hit(3)
        by (auto simp: set_opt_cons opt_cons_write AList_delete_filter split: option.splits)
    qed
    ultimately show ?thesis using Cons.prems(3) fresh r by auto
  next
    case (relic r as')
    have r: "(rec_value (des f), r) \<in> set U" using relic(2) by (rule map_of_SomeD)
    have "\<exists>a \<in> set as. writes des f a"
      using relic(4) writes_write [of True r des f "key f"] writeAction_None [of True r "des f" "key f"]
      by (cases "writeAction True r (des f) (key f)") (auto simp: opt_cons_def)
    moreover have "?thesis" if "e \<in> set es"
    proof -
      have "rec_id x \<noteq> rec_id r" if "(key e, x) \<in> set M" for x
        using ids_disjoint [OF Cons.prems(2) that r] by simp
      then show ?thesis using Cons.IH [OF relic(3) ids_shrink(2) [OF Cons.prems(2)] that] relic(4)
        by (auto simp: set_opt_cons opt_cons_write AList_delete_filter split: option.splits)
    qed
    ultimately show ?thesis using Cons.prems(3) by auto
  next
    case (new as')
    have "touched_ids as = touched_ids as'" using new(4) by (simp add: touched_ids_Cons addAction_def)
    then show ?thesis using Cons.IH [OF new(3) Cons.prems(2)] Cons.prems(3) new(4) by auto
  qed
qed simp

lemma loop_nil:
  assumes "\<forall>e \<in> set es. \<exists>r. map_of M (key e) = Some r \<and> same_record r (des e)"
    and "distinct (map key es)"
  shows "snd (converge_loop key des M U es) = []"
  using assms
proof (induction es arbitrary: M)
  case (Cons e es)
  obtain M' as where run: "converge_loop key des M U (e # es) = (M', as)"
    by (cases "converge_loop key des M U (e # es)")
  from Cons.prems(1) obtain r where r: "map_of M (key e) = Some r" "same_record r (des e)" by auto
  have "\<forall>f \<in> set es. \<exists>r. map_of (AList.delete (key e) M) (key f) = Some r \<and> same_record r (des f)"
    using Cons.prems by (auto simp: delete_conv' image_iff)
  then have IH: "snd (converge_loop key des (AList.delete (key e) M) U es) = []"
    using Cons.IH Cons.prems(2) by simp
  from run show ?case
  proof (cases rule: loop_cases)
    case (hit x as')
    then have "x = r" "as' = []" using r(1) IH by auto
    then show ?thesis using run hit(3) r(2) writeAction_None [of False r "des e" "key e"]
      by (simp add: opt_cons_def)
  qed (use r in simp_all)
qed simp

lemma touched_removes: "touched_ids (map removeAction ps) = map (rec_id \<circ> snd) ps"
  by (induction ps) (simp_all add: touched_ids_def touches_def removeAction_def)

lemma touched_append: "touched_ids (xs @ ys) = touched_ids xs @ touched_ids ys"
  by (simp add: touched_ids_def)

subsection \<open>One proof for both reconciles\<close>

text \<open>
  What \<open>Diff\<close> and \<open>DiffZone\<close> promise each other's machinery: wanted edges have distinct keys,
  a record written for an edge carries the tag of that edge, and every field the diff
  compares is really written (a zero TTL or an empty comment would be left out of the body).
\<close>

locale reconciler =
  fixes good :: "'o \<Rightarrow> bool"
    and tag :: "'o \<Rightarrow> dns_record \<Rightarrow> string option"
    and relic :: "'o \<Rightarrow> dns_record \<Rightarrow> string option"
    and key :: "'e \<Rightarrow> string"
    and desired :: "'o \<Rightarrow> 'e \<Rightarrow> dns_record"
    and items :: "'o \<Rightarrow> 'e list"
  assumes keys_distinct: "good o' \<Longrightarrow> distinct (map key (items o'))"
    and desired_tag: "good o' \<Longrightarrow> e \<in> set (items o') \<Longrightarrow> written ((desired o' e)\<lparr>rec_id := i\<rparr>) x \<Longrightarrow>
       tag o' x = Some (key e)"
    and desired_full: "good o' \<Longrightarrow> e \<in> set (items o') \<Longrightarrow>
       rec_ttl (desired o' e) \<noteq> 0 \<and> rec_comment (desired o' e) \<noteq> ''''"
begin

abbreviation plan_of :: "(record_index \<Rightarrow> record_index) \<Rightarrow> 'o \<Rightarrow> dns_record list \<Rightarrow> plan" where
  "plan_of ord o' rs \<equiv> converge_plan (tag o') (relic o') ord key (desired o') (items o') rs"

lemma plan_cases:
  assumes "reorders ord"
  obtains M U M' as where
    "index_ok (tag o') (relic o') (set rs) M U"
    "fst ` set M = {i. \<exists>r \<in> set rs. tag o' r = Some i}"
    "converge_loop key (desired o') M U (items o') = (M', as)"
    "M' = filter (\<lambda>p. fst p \<notin> key ` set (items o')) M"
    "plan_of ord o' rs = as @ map removeAction (ord M')"
    "set (ord M') = set M'"
proof -
  obtain M U where MU: "index_records (tag o') (relic o') [] [] rs = (M, U)"
    by (cases "index_records (tag o') (relic o') [] [] rs")
  obtain M' as where run: "converge_loop key (desired o') M U (items o') = (M', as)"
    by (cases "converge_loop key (desired o') M U (items o')")
  show thesis
  proof (rule that)
    show "index_ok (tag o') (relic o') (set rs) M U"
      using index_records_ok [OF MU, of "set rs"] by (simp add: index_ok_def)
    show "fst ` set M = {i. \<exists>r \<in> set rs. tag o' r = Some i}"
      using index_records_keys [of "tag o'" "relic o'" "[]" "[]" rs] by (simp add: MU)
    show "M' = filter (\<lambda>p. fst p \<notin> key ` set (items o')) M" by (rule loop_managed [OF run])
    show "plan_of ord o' rs = as @ map removeAction (ord M')"
      by (simp add: converge_plan_def MU run)
    show "set (ord M') = set M'" using assms by (rule reorders_set)
  qed (rule run)
qed

lemma plan_empty_if:
  assumes ord: "reorders ord" and good: "good o'"
    and wanted: "\<And>e. e \<in> set (items o') \<Longrightarrow> \<exists>x \<in> set rs. tag o' x = Some (key e)"
    and same: "\<And>x k. x \<in> set rs \<Longrightarrow> tag o' x = Some k \<Longrightarrow>
       \<exists>e \<in> set (items o'). key e = k \<and> same_record x (desired o' e)"
  shows "plan_of ord o' rs = []"
proof -
  obtain M U M' as where ok: "index_ok (tag o') (relic o') (set rs) M U"
    and keys: "fst ` set M = {i. \<exists>r \<in> set rs. tag o' r = Some i}"
    and run: "converge_loop key (desired o') M U (items o') = (M', as)"
    and M': "M' = filter (\<lambda>p. fst p \<notin> key ` set (items o')) M"
    and plan: "plan_of ord o' rs = as @ map removeAction (ord M')"
    and ordM: "set (ord M') = set M'"
    by (rule plan_cases [OF ord])
  have inj: "e = f" if "e \<in> set (items o')" "f \<in> set (items o')" "key e = key f" for e f
    using keys_distinct [OF good] that by (auto simp: distinct_map dest: inj_onD)
  have "\<exists>r. map_of M (key e) = Some r \<and> same_record r (desired o' e)" if e: "e \<in> set (items o')" for e
  proof -
    have "key e \<in> fst ` set M" using wanted [OF e] keys by auto
    then obtain r where r: "map_of M (key e) = Some r" by (metis map_of_eq_None_iff not_Some_eq)
    then have "(key e, r) \<in> set M" by (rule map_of_SomeD)
    then have "r \<in> set rs" "tag o' r = Some (key e)" using ok unfolding index_ok_def by auto
    with same obtain f where "f \<in> set (items o')" "key f = key e" "same_record r (desired o' f)" by blast
    with inj e r show ?thesis by metis
  qed
  then have "as = []" using loop_nil [of "items o'" M key "desired o'" U] keys_distinct [OF good] run by simp
  moreover have "M' = []"
  proof -
    have "fst p \<in> key ` set (items o')" if "p \<in> set M" for p
    proof -
      have "fst p \<in> fst ` set M" using that by simp
      then obtain r where "r \<in> set rs" "tag o' r = Some (fst p)" unfolding keys by blast
      from same [OF this] show ?thesis by (metis imageI)
    qed
    then show ?thesis unfolding M' by (simp add: filter_empty_conv)
  qed
  moreover have "ord [] = []" using ord by (rule reorders_Nil)
  ultimately show ?thesis using plan by simp
qed

lemma plan_touches:
  assumes ord: "reorders ord" and inj: "inj_on rec_id (set rs)"
  shows "distinct (touched_ids (plan_of ord o' rs))"
    and "i \<in> set (touched_ids (plan_of ord o' rs)) \<Longrightarrow>
           \<exists>r \<in> set rs. rec_id r = i \<and> (tag o' r \<noteq> None \<or>
             (\<exists>e \<in> set (items o'). relic o' r = Some (rec_value (desired o' e))))"
proof -
  obtain M U M' as where ok: "index_ok (tag o') (relic o') (set rs) M U"
    and keys: "fst ` set M = {i. \<exists>r \<in> set rs. tag o' r = Some i}"
    and run: "converge_loop key (desired o') M U (items o') = (M', as)"
    and M': "M' = filter (\<lambda>p. fst p \<notin> key ` set (items o')) M"
    and plan: "plan_of ord o' rs = as @ map removeAction (ord M')"
    and ordM: "set (ord M') = set M'"
    by (rule plan_cases [OF ord])
  let ?id = "rec_id \<circ> snd"
  let ?T = "{p \<in> set M. fst p \<in> key ` set (items o')} \<union> set U"
  note ids = index_ok_ids [OF ok inj]
  note T = loop_touched [OF run ids]
  have eq: "touched_ids (plan_of ord o' rs) = touched_ids as @ map ?id (ord M')"
    unfolding plan by (simp add: touched_append touched_removes)
  have sub: "?T \<union> set M' \<subseteq> set (M @ U)" "?T \<inter> set M' \<subseteq> set M \<inter> set U" unfolding M' by auto
  have "set M \<inter> set U = {}" using ids by (metis distinct_append map_append distinct_map)
  then have "?id ` ?T \<inter> ?id ` set M' = {}"
    using sub ids unfolding distinct_map by (metis (no_types, lifting) Int_empty_right inf.absorb_iff2 inj_on_image_Int le_sup_iff image_empty subset_empty)
  moreover have "distinct (map ?id (ord M'))"
    using ids by (simp add: reorders_distinct [OF ord] M' distinct_map_filter)
  ultimately show "distinct (touched_ids (plan_of ord o' rs))"
    unfolding eq using T ordM by auto
  assume "i \<in> set (touched_ids (plan_of ord o' rs))"
  then have "i \<in> set (touched_ids as) \<or> i \<in> ?id ` set M'" unfolding eq using ordM by auto
  then have "(\<exists>p \<in> set M. rec_id (snd p) = i) \<or>
      (\<exists>p \<in> set U. rec_id (snd p) = i \<and> (\<exists>e \<in> set (items o'). fst p = rec_value (desired o' e)))"
    using loop_used [OF run] unfolding M' by fastforce
  then show "\<exists>r \<in> set rs. rec_id r = i \<and> (tag o' r \<noteq> None \<or>
      (\<exists>e \<in> set (items o'). relic o' r = Some (rec_value (desired o' e))))"
    using ok unfolding index_ok_def by (metis option.distinct(1))
qed

lemma plan_writes:
  assumes "reorders ord" "a \<in> set (plan_of ord o' rs)" "act_kind a \<noteq> Remove"
  obtains e i where "e \<in> set (items o')" "act_record a = (desired o' e)\<lparr>rec_id := i\<rparr>"
proof -
  obtain M U M' as where run: "converge_loop key (desired o') M U (items o') = (M', as)"
    and plan: "plan_of ord o' rs = as @ map removeAction (ord M')"
    by (rule plan_cases [OF assms(1)])
  have "a \<in> set as" using assms(2,3) unfolding plan by (auto simp: removeAction_def)
  from loop_shape [OF run this] that show thesis by (auto simp: writes_def)
qed

text \<open>After the plan has been carried out every wanted edge has its record, and every tagged record is as wanted.\<close>

lemma settled:
  assumes ord: "reorders ord" and good: "good o'" and inj: "inj_on rec_id (set rs)"
    and tags: "\<And>x y. x \<in> set rs \<Longrightarrow> y \<in> set rs \<Longrightarrow> tag o' x = tag o' y \<Longrightarrow> tag o' x \<noteq> None \<Longrightarrow> x = y"
    and more: "set rs \<subseteq> S1" "\<And>x. x \<in> S1 \<Longrightarrow> x \<notin> set rs \<Longrightarrow> tag o' x = None"
    and eff: "zone_effect S1 (plan_of ord o' rs) (set rs')"
  shows "e \<in> set (items o') \<Longrightarrow> \<exists>x \<in> set rs'. tag o' x = Some (key e)"
    and "x \<in> set rs' \<Longrightarrow> tag o' x = Some k \<Longrightarrow> \<exists>e \<in> set (items o'). key e = k \<and> same_record x (desired o' e)"
proof -
  obtain M U M' as where ok: "index_ok (tag o') (relic o') (set rs) M U"
    and keys: "fst ` set M = {i. \<exists>r \<in> set rs. tag o' r = Some i}"
    and run: "converge_loop key (desired o') M U (items o') = (M', as)"
    and M': "M' = filter (\<lambda>p. fst p \<notin> key ` set (items o')) M"
    and plan: "plan_of ord o' rs = as @ map removeAction (ord M')"
    and ordM: "set (ord M') = set M'"
    by (rule plan_cases [OF ord])
  have fstM: "distinct (map fst M)" using ok by (simp add: index_ok_def)
  have entry: "(k, x) \<in> set M" if "x \<in> set rs" "tag o' x = Some k" for x k
  proof -
    have "k \<in> fst ` set M" using that keys by auto
    then obtain y where y: "(k, y) \<in> set M" by auto
    then have "y \<in> set rs" "tag o' y = Some k" using ok unfolding index_ok_def by auto
    then show ?thesis using tags [of x y] that y by simp
  qed
  have removed: "rec_id x \<in> set (touched_ids (plan_of ord o' rs))"
    if "(k, x) \<in> set M'" for k x
    using that ordM unfolding plan by (force simp: touched_append touched_removes)
  have written_same: "\<exists>e \<in> set (items o'). tag o' x = Some (key e) \<and> same_record x (desired o' e)"
    if a: "a \<in> set (plan_of ord o' rs)" "act_kind a \<noteq> Remove" "written (act_record a) x" for a x
  proof -
    have "a \<in> set as" using a unfolding plan by (auto simp: removeAction_def)
    from loop_shape [OF run this] obtain e i where e: "e \<in> set (items o')"
      and r: "act_record a = (desired o' e)\<lparr>rec_id := i\<rparr>" by (auto simp: writes_def)
    have "same_record x (desired o' e)"
      using a(3) desired_full [OF good e] unfolding r
      by (simp add: same_record_def contentChanged_def smartChanged_def disabledChanged_def written_def)
    then show ?thesis using desired_tag [OF good e a(3) [unfolded r]] e by blast
  qed
  show "\<exists>x \<in> set rs'. tag o' x = Some (key e)" if e: "e \<in> set (items o')"
  proof -
    note ids = index_ok_ids [OF ok inj]
    from loop_wanted [OF run ids e] show "\<exists>x \<in> set rs'. tag o' x = Some (key e)"
    proof (elim disjE bexE exE conjE)
      fix a assume a: "a \<in> set as" "writes (desired o') e a"
      then obtain i where i: "act_kind a \<noteq> Remove" "act_record a = (desired o' e)\<lparr>rec_id := i\<rparr>"
        by (auto simp: writes_def)
      have "a \<in> set (plan_of ord o' rs)" using a plan by simp
      from zone_effectD(3) [OF eff this i(1)] obtain x where "x \<in> set rs'" "written (act_record a) x" by blast
      then show ?thesis using desired_tag [OF good e] i(2) by auto
    next
      fix r assume r: "(key e, r) \<in> set M" "rec_id r \<notin> set (touched_ids as)"
      have rs: "r \<in> set rs" "tag o' r = Some (key e)" using r ok unfolding index_ok_def by auto
      have "rec_id r \<noteq> rec_id (snd p)" if "p \<in> set M'" for p
        using that ids_eq [OF ids, of "(key e, r)" p] r(1) e unfolding M' by auto
      then have "rec_id r \<notin> set (touched_ids (plan_of ord o' rs))"
        using r(2) ordM unfolding plan by (auto simp: touched_append touched_removes)
      from zone_effectD(2) [OF eff subsetD [OF more(1) rs(1)] this] rs(2) show ?thesis by blast
    qed
  qed
  show "\<exists>e \<in> set (items o'). key e = k \<and> same_record x (desired o' e)" if x: "x \<in> set rs'" "tag o' x = Some k"
  proof -
    show "\<exists>e \<in> set (items o'). key e = k \<and> same_record x (desired o' e)"
    proof (cases "\<exists>a \<in> set (plan_of ord o' rs). act_kind a \<noteq> Remove \<and> written (act_record a) x")
      case True
      then show ?thesis using written_same x(2) by fastforce
    next
      case False
      then have old1: "x \<in> S1" "rec_id x \<notin> set (touched_ids (plan_of ord o' rs))"
        using zone_effectD(1) [OF eff x(1)] by blast+
      have old: "x \<in> set rs" "rec_id x \<notin> set (touched_ids (plan_of ord o' rs))"
        using more(2) [OF old1(1)] x(2) old1(2) by auto
      from entry [OF old(1) x(2)] have kx: "(k, x) \<in> set M" .
      have "(k, x) \<notin> set M'" using removed old(2) by blast
      then obtain e where e: "e \<in> set (items o')" "key e = k" using kx unfolding M' by auto
      have "set (touched_ids as) \<subseteq> set (touched_ids (plan_of ord o' rs))"
        unfolding plan by (auto simp: touched_append)
      then have "same_record x (desired o' e)"
        using loop_old [OF run fstM keys_distinct [OF good] e(1)] kx e(2) old(2) by blast
      with e show ?thesis by blast
    qed
  qed
qed

text \<open>
  Then there is nothing left to plan, also when records without a tag were added to the zone before
  or whatever became of such records afterwards.
\<close>

lemma converges_tagged:
  assumes ord: "reorders ord" "reorders ord'" and good: "good o'" and inj: "inj_on rec_id (set rs)"
    and tags: "\<And>x y. x \<in> set rs \<Longrightarrow> y \<in> set rs \<Longrightarrow> tag o' x = tag o' y \<Longrightarrow> tag o' x \<noteq> None \<Longrightarrow> x = y"
    and more: "set rs \<subseteq> S1" "\<And>x. x \<in> S1 \<Longrightarrow> x \<notin> set rs \<Longrightarrow> tag o' x = None"
    and eff: "zone_effect S1 (plan_of ord o' rs) (set rs')"
    and after: "\<And>x. tag o' x \<noteq> None \<Longrightarrow> x \<in> set rs'' \<longleftrightarrow> x \<in> set rs'"
  shows "plan_of ord' o' rs'' = []"
proof (rule plan_empty_if [OF ord(2) good])
  show "\<exists>x \<in> set rs''. tag o' x = Some (key e)" if "e \<in> set (items o')" for e
  proof -
    have "\<exists>x \<in> set rs'. tag o' x = Some (key e)"
      by (rule settled(1) [OF ord(1) good inj _ more(1) _ eff that]) (use tags more(2) in blast)+
    then show ?thesis using after by (metis option.distinct(1))
  qed
  show "\<exists>e \<in> set (items o'). key e = k \<and> same_record x (desired o' e)" if "x \<in> set rs''" "tag o' x = Some k" for x k
  proof -
    have "x \<in> set rs'" using after [of x] that by simp
    then show ?thesis
      by (intro settled(2) [OF ord(1) good inj _ more(1) _ eff _ that(2)]) (use tags more(2) in blast)+
  qed
qed

lemma converges:
  assumes ord: "reorders ord" "reorders ord'" and good: "good o'" and inj: "inj_on rec_id (set rs)"
    and tags: "\<And>x y. x \<in> set rs \<Longrightarrow> y \<in> set rs \<Longrightarrow> tag o' x = tag o' y \<Longrightarrow> tag o' x \<noteq> None \<Longrightarrow> x = y"
    and more: "set rs \<subseteq> S1" "\<And>x. x \<in> S1 \<Longrightarrow> x \<notin> set rs \<Longrightarrow> tag o' x = None"
    and eff: "zone_effect S1 (plan_of ord o' rs) (set rs')"
  shows "plan_of ord' o' rs' = []"
  by (rule converges_tagged [OF ord good inj _ more eff refl]) (use tags in blast)

end

subsection \<open>The two instances\<close>

type_synonym diff_ctx = "(string \<rightharpoonup> region_loc) \<times> diff_opts \<times> endpoint list"

definition srv_good :: "diff_ctx \<Rightarrow> bool" where
  "srv_good c \<longleftrightarrow> opt_ttl (fst (snd c)) \<noteq> 0 \<and> distinct (map ep_edge_id (filter placeable (snd (snd c))))"

definition srv_desired :: "diff_ctx \<Rightarrow> endpoint \<Rightarrow> dns_record" where
  "srv_desired c ep =
     desiredRecord (fst c) (fst (snd c)) (snd (snd c)) (opt_name (fst (snd c))) (ServerTag (ep_edge_id ep)) ep"

interpretation srv: reconciler srv_good "\<lambda>_. server_tag_of" "\<lambda>c. relic_of (opt_name (fst (snd c)))"
    ep_edge_id srv_desired "\<lambda>c. filter placeable (snd (snd c))"
proof
  fix c e i x
  assume g: "srv_good c"
  then show "distinct (map ep_edge_id (filter placeable (snd (snd c))))" by (simp add: srv_good_def)
  assume e: "e \<in> set (filter placeable (snd (snd c)))"
  have comment: "rec_comment (srv_desired c e) = ServerTag (ep_edge_id e)"
    by (simp add: srv_desired_def desiredRecord_def split: prod.split)
  have tag: "ServerTag (ep_edge_id e) \<noteq> ''''" by (simp add: ServerTag_def serverTag_def)
  show "rec_ttl (srv_desired c e) \<noteq> 0 \<and> rec_comment (srv_desired c e) \<noteq> ''''"
    using g tag by (simp add: comment srv_good_def) (simp add: srv_desired_def desiredRecord_def split: prod.split)
  show "server_tag_of x = Some (ep_edge_id e)" if "written ((srv_desired c e)\<lparr>rec_id := i\<rparr>) x"
    using that e tag by (simp add: written_def comment server_tag_of_def Let_def placeable_def)
qed

lemma Diff_plan: "Diff m ord eps rs opts = srv.plan_of ord (m, opts, eps) rs"
proof -
  have "srv_desired (m, opts, eps) =
      (\<lambda>ep. desiredRecord m opts eps (opt_name opts) (ServerTag (ep_edge_id ep)) ep)"
    by (rule ext) (simp add: srv_desired_def)
  then show ?thesis by (simp add: Diff_def)
qed

type_synonym zone_ctx = "(string \<rightharpoonup> region_loc) \<times> diff_opts \<times> endpoint list \<times> zone_routing"

definition zone_good :: "zone_ctx \<Rightarrow> bool" where
  "zone_good c = (case c of (m, opts, eps, zr) \<Rightarrow> opt_ttl opts \<noteq> 0 \<and> distinct (zr_assigned zr))"

definition zone_desired :: "zone_ctx \<Rightarrow> string \<times> endpoint \<Rightarrow> dns_record" where
  "zone_desired c p = (case c of (m, opts, eps, zr) \<Rightarrow>
     desiredRecord m opts eps (zr_name zr) (zoneEdgeTag (zr_id zr) (fst p)) (snd p))"

definition zone_items :: "zone_ctx \<Rightarrow> (string \<times> endpoint) list" where
  "zone_items c = (case c of (m, opts, eps, zr) \<Rightarrow> zone_members zr eps)"

definition zone_tag :: "zone_ctx \<Rightarrow> dns_record \<Rightarrow> string option" where
  "zone_tag c = (case c of (m, opts, eps, zr) \<Rightarrow> zone_tag_of zr)"

lemma zone_members_distinct: "distinct (zr_assigned zr) \<Longrightarrow> distinct (map fst (zone_members zr eps))"
proof -
  have "distinct xs \<Longrightarrow> distinct (map fst (List.map_filter (\<lambda>i. case ep_by_id eps i of None \<Rightarrow> None
        | Some ep \<Rightarrow> if ep_ip ep = '''' then None else Some (i, ep)) xs))" for xs
    by (induction xs) (auto simp: List.map_filter_simps map_filter_def split: option.splits if_splits)
  then show "distinct (zr_assigned zr) \<Longrightarrow> ?thesis" by (simp add: zone_members_def)
qed

interpretation tenant: reconciler zone_good zone_tag "\<lambda>_ _. None" fst zone_desired zone_items
proof
  fix c :: zone_ctx and e i x
  obtain m opts eps zr where c: "c = (m, opts, eps, zr)" by (cases c)
  assume g: "zone_good c"
  then show "distinct (map fst (zone_items c))"
    by (simp add: c zone_good_def zone_items_def zone_members_distinct)
  have full: "rec_comment (zone_desired c e) = zoneEdgeTag (zr_id zr) (fst e)"
    "rec_type (zone_desired c e) = TypeA" "rec_name (zone_desired c e) = zr_name zr"
    "rec_ttl (zone_desired c e) = opt_ttl opts"
    by (simp_all add: c zone_desired_def desiredRecord_def split: prod.split)
  show "rec_ttl (zone_desired c e) \<noteq> 0 \<and> rec_comment (zone_desired c e) \<noteq> ''''"
    using g by (simp add: full) (simp add: c zone_good_def zoneEdgeTag_def)
  show "zone_tag c x = Some (fst e)" if "written ((zone_desired c e)\<lparr>rec_id := i\<rparr>) x"
  proof -
    have "zoneEdgeTag (zr_id zr) (fst e) \<noteq> ''''" by (simp add: zoneEdgeTag_def)
    then have "rec_type x = TypeA" "rec_name x = zr_name zr" "rec_comment x = zoneEdgeTag (zr_id zr) (fst e)"
      using that by (simp_all add: written_def full)
    then show ?thesis by (simp add: c zone_tag_def zone_tag_of_def equal_fold_def)
  qed
qed

lemma DiffZone_plan: "DiffZone m ord zr eps rs opts = tenant.plan_of ord (m, opts, eps, zr) rs"
proof -
  have "zone_desired (m, opts, eps, zr) =
      (\<lambda>(i, ep). desiredRecord m opts eps (zr_name zr) (zoneEdgeTag (zr_id zr) i) ep)"
    by (rule ext) (simp add: zone_desired_def split: prod.split)
  then show ?thesis by (simp add: DiffZone_def zone_items_def zone_tag_def)
qed

subsection \<open>Properties\<close>

text \<open>
  C7: Convergence. Whatever the zone service does beyond its documented behaviour, and in
  whatever order Go ranges over the map of leftovers, carrying out the plan of \<open>Diff\<close> without
  an error leaves a zone for which \<open>Diff\<close> plans nothing: every placeable edge has its record,
  every other tagged record is gone. The TTL must not be 0 (a zero is left out of the request
  body) and no two records may carry the same tag (see the finding on duplicates).
\<close>

theorem Diff_converges:
  assumes zone: "bunny_zone stored listing add upd del"
    and ord: "reorders ord" "reorders ord'"
    and "opt_ttl opts \<noteq> 0" "distinct (map ep_edge_id (filter placeable eps))"
    and tags: "\<forall>x \<in> set (stored s). \<forall>y \<in> set (stored s).
       server_tag_of x = server_tag_of y \<and> server_tag_of x \<noteq> None \<longrightarrow> x = y"
    and rs: "listing s = Inr rs"
    and run: "Apply add upd del s (Diff m ord eps rs opts) = (s', dn, None)"
  shows "Diff m ord' eps (stored s') opts = []"
proof -
  have rs: "rs = stored s" and ids: "inj_on rec_id (set rs)"
    using bunny_zone.list_law [OF zone rs] bunny_zone.ids_unique [OF zone, of s] by simp_all
  have good: "srv_good (m, opts, eps)" using assms(4,5) by (simp add: srv_good_def)
  note plan = srv.plan_touches [OF ord(1) ids, where o' = "(m, opts, eps)", folded Diff_plan]
  have "zone_effect (set rs) (Diff m ord eps rs opts) (set (stored s'))"
    unfolding rs by (rule bunny_zone.Apply_effect [OF zone run [unfolded rs]]) (use plan in \<open>auto simp: rs\<close>)
  then show ?thesis
    unfolding Diff_plan
    by (intro srv.converges [OF ord good ids _ order_refl]) (use tags in \<open>auto simp: rs\<close>)
qed

definition demo_ep :: "string \<Rightarrow> string \<Rightarrow> endpoint" where
  "demo_ep i ip = \<lparr>ep_edge_id = i, ep_region = '''', ep_ip = ip, ep_status = ''online'', ep_last_seen = Some 0,
     ep_weight = 100, ep_override = '''', ep_capacity = 0, ep_by_capacity = False, ep_load_factor = 1,
     ep_health = '''', ep_drained = False\<rparr>"

definition demo_opts :: diff_opts where
  "demo_opts = \<lparr>opt_name = ''cdn'', opt_ttl = 30, opt_stale = minute, opt_mode = '''', opt_monitor = 0, opt_now = second\<rparr>"

text \<open>An edge without a record, an edge whose record has an old address, and an orphan.\<close>

definition demo_zone :: mem_zone where
  "demo_zone =
     [Some (zero_record\<lparr>rec_name := ''cdn'', rec_value := ''9.9.9.9'', rec_comment := ServerTag ''e1''\<rparr>),
      Some (zero_record\<lparr>rec_name := ''cdn'', rec_value := ''8.8.8.8'', rec_comment := ServerTag ''gone''\<rparr>),
      Some (zero_record\<lparr>rec_name := ''www'', rec_value := ''7.7.7.7''\<rparr>)]"

definition demo_plan :: plan where
  "demo_plan = Diff Map.empty (\<lambda>xs. xs) [demo_ep ''e1'' ''1.1.1.1'', demo_ep ''e2'' ''2.2.2.2'']
     (mem_stored demo_zone) demo_opts"

lemma demo_plan_eval: "map (\<lambda>a. (act_kind a, act_edge a)) demo_plan = [(Update, ''e1''), (Add, ''e2''), (Remove, ''gone'')]"
  by code_simp

lemma Diff_converges_witness:
  "Diff Map.empty rev [demo_ep ''e1'' ''1.1.1.1'', demo_ep ''e2'' ''2.2.2.2'']
     (mem_stored (fst (Apply mem_add mem_update mem_delete demo_zone demo_plan))) demo_opts = []"
proof -
  have run: "Apply mem_add mem_update mem_delete demo_zone demo_plan =
      (fst (Apply mem_add mem_update mem_delete demo_zone demo_plan),
       fst (snd (Apply mem_add mem_update mem_delete demo_zone demo_plan)), None)"
    by code_simp
  have tags: "\<forall>x \<in> set (mem_stored demo_zone). \<forall>y \<in> set (mem_stored demo_zone).
       server_tag_of x = server_tag_of y \<and> server_tag_of x \<noteq> None \<longrightarrow> x = y"
    by code_simp
  show ?thesis unfolding demo_plan_def
    by (rule Diff_converges [OF mem.bunny_zone_axioms reorders_id _ _ _ tags _ run [unfolded demo_plan_def]])
       (simp_all add: reorders_def mem_list_def demo_opts_def demo_ep_def)
qed

text \<open>
  C27: The same for the per-zone record sets: once the plan of \<open>DiffZone\<close> for a tenant zone has
  been carried out, \<open>DiffZone\<close> plans nothing for it: one record per assigned edge with an
  address, none for the others.
\<close>

theorem DiffZone_converges:
  assumes zone: "bunny_zone stored listing add upd del"
    and ord: "reorders ord" "reorders ord'"
    and "opt_ttl opts \<noteq> 0" "distinct (zr_assigned zr)"
    and tags: "\<forall>x \<in> set (stored s). \<forall>y \<in> set (stored s).
       zone_tag_of zr x = zone_tag_of zr y \<and> zone_tag_of zr x \<noteq> None \<longrightarrow> x = y"
    and rs: "listing s = Inr rs"
    and run: "Apply add upd del s (DiffZone m ord zr eps rs opts) = (s', dn, None)"
  shows "DiffZone m ord' zr eps (stored s') opts = []"
proof -
  have rs: "rs = stored s" and ids: "inj_on rec_id (set rs)"
    using bunny_zone.list_law [OF zone rs] bunny_zone.ids_unique [OF zone, of s] by simp_all
  have good: "zone_good (m, opts, eps, zr)" using assms(4,5) by (simp add: zone_good_def)
  note plan = tenant.plan_touches [OF ord(1) ids, where o' = "(m, opts, eps, zr)", folded DiffZone_plan]
  have "zone_effect (set rs) (DiffZone m ord zr eps rs opts) (set (stored s'))"
    unfolding rs by (rule bunny_zone.Apply_effect [OF zone run [unfolded rs]]) (use plan in \<open>auto simp: rs\<close>)
  then show ?thesis
    unfolding DiffZone_plan
    by (intro tenant.converges [OF ord good ids _ order_refl]) (use tags in \<open>auto simp: rs zone_tag_def\<close>)
qed

definition demo_zr :: zone_routing where
  "demo_zr = \<lparr>zr_id = 7, zr_name = ''t.cdn'', zr_assigned = [''e1'', ''e2'', ''e9'']\<rparr>"

definition demo_tenant :: mem_zone where
  "demo_tenant =
     [Some (zero_record\<lparr>rec_name := ''T.cdn'', rec_value := ''1.1.1.1'', rec_comment := ''brisk:zone:7''\<rparr>),
      Some (zero_record\<lparr>rec_name := ''t.cdn'', rec_value := ''1.1.1.1'', rec_comment := zoneEdgeTag 7 ''e1''\<rparr>)]"

lemma DiffZone_converges_witness:
  "DiffZone Map.empty rev demo_zr [demo_ep ''e1'' ''1.1.1.1'', demo_ep ''e2'' ''2.2.2.2'']
     (mem_stored (fst (Apply mem_add mem_update mem_delete demo_tenant
        (DiffZone Map.empty (\<lambda>xs. xs) demo_zr [demo_ep ''e1'' ''1.1.1.1'', demo_ep ''e2'' ''2.2.2.2'']
           (mem_stored demo_tenant) demo_opts)))) demo_opts = []"
proof -
  let ?plan = "DiffZone Map.empty (\<lambda>xs. xs) demo_zr [demo_ep ''e1'' ''1.1.1.1'', demo_ep ''e2'' ''2.2.2.2'']
     (mem_stored demo_tenant) demo_opts"
  have run: "Apply mem_add mem_update mem_delete demo_tenant ?plan =
      (fst (Apply mem_add mem_update mem_delete demo_tenant ?plan),
       fst (snd (Apply mem_add mem_update mem_delete demo_tenant ?plan)), None)"
    by code_simp
  have tags: "\<forall>x \<in> set (mem_stored demo_tenant). \<forall>y \<in> set (mem_stored demo_tenant).
       zone_tag_of demo_zr x = zone_tag_of demo_zr y \<and> zone_tag_of demo_zr x \<noteq> None \<longrightarrow> x = y"
    by code_simp
  show ?thesis
    by (rule DiffZone_converges [OF mem.bunny_zone_axioms reorders_id _ _ _ tags _ run])
       (simp_all add: reorders_def mem_list_def demo_opts_def demo_zr_def)
qed

text \<open>
  C11: Manual records are safe. A record that carries no server tag, and is not an A record of
  the routing name pointing at a placeable edge's own address (the adopted relics), is still
  in the zone, unchanged, after any run of the plan that ends without an error.
\<close>

theorem Diff_keeps_foreign:
  assumes zone: "bunny_zone stored listing add upd del" and ord: "reorders ord"
    and rs: "listing s = Inr rs"
    and run: "Apply add upd del s (Diff m ord eps rs opts) = (s', dn, None)"
    and x: "x \<in> set (stored s)" "server_tag_of x = None"
    and foreign: "rec_type x \<noteq> TypeA \<or> \<not> equal_fold (rec_name x) (opt_name opts) \<or>
       rec_value x \<notin> ep_ip ` set (filter placeable eps)"
  shows "x \<in> set (stored s')"
proof -
  have rs: "rs = stored s" and ids: "inj_on rec_id (set rs)"
    using bunny_zone.list_law [OF zone rs] bunny_zone.ids_unique [OF zone, of s] by simp_all
  note plan = srv.plan_touches [OF ord ids, where o' = "(m, opts, eps)", folded Diff_plan]
  have eff: "zone_effect (set rs) (Diff m ord eps rs opts) (set (stored s'))"
    unfolding rs by (rule bunny_zone.Apply_effect [OF zone run [unfolded rs]]) (use plan in \<open>auto simp: rs\<close>)
  have val: "rec_value (srv_desired c e) = ep_ip e" for c e
    by (simp add: srv_desired_def desiredRecord_def split: prod.split)
  have "rec_id x \<notin> set (touched_ids (Diff m ord eps rs opts))"
  proof
    assume "rec_id x \<in> set (touched_ids (Diff m ord eps rs opts))"
    from plan(2) [OF this] obtain r where r: "r \<in> set rs" "rec_id r = rec_id x"
      "server_tag_of r \<noteq> None \<or> (\<exists>e \<in> set (filter placeable eps). relic_of (opt_name opts) r = Some (ep_ip e))"
      by (auto simp: val)
    have "r = x" using ids r(1,2) x(1) by (auto simp: rs dest: inj_onD)
    then show False using r(3) x(2) foreign by (auto simp: relic_of_def split: if_splits)
  qed
  then show ?thesis using zone_effectD(2) [OF eff] x(1) by (simp add: rs)
qed

lemma Diff_keeps_foreign_witness:
  "zero_record\<lparr>rec_id := 2, rec_name := ''www'', rec_value := ''7.7.7.7''\<rparr> \<in>
     set (mem_stored (fst (Apply mem_add mem_update mem_delete demo_zone demo_plan)))"
proof -
  have run: "Apply mem_add mem_update mem_delete demo_zone demo_plan =
      (fst (Apply mem_add mem_update mem_delete demo_zone demo_plan),
       fst (snd (Apply mem_add mem_update mem_delete demo_zone demo_plan)), None)"
    by code_simp
  have x: "zero_record\<lparr>rec_id := 2, rec_name := ''www'', rec_value := ''7.7.7.7''\<rparr> \<in> set (mem_stored demo_zone)"
    "server_tag_of (zero_record\<lparr>rec_id := 2, rec_name := ''www'', rec_value := ''7.7.7.7''\<rparr>) = None"
    "\<not> equal_fold (rec_name (zero_record\<lparr>rec_id := 2, rec_name := ''www'', rec_value := ''7.7.7.7''\<rparr>)) (opt_name demo_opts)"
    by code_simp+
  show ?thesis unfolding demo_plan_def
    by (rule Diff_keeps_foreign [OF mem.bunny_zone_axioms reorders_id _ run [unfolded demo_plan_def] x(1,2)])
       (use x(3) in \<open>simp_all add: mem_list_def\<close>)
qed

text \<open>
  Why the hypotheses are there. Two records with the tag of one edge: the index keeps the last
  one, so the plan is empty and the other record stays for ever, unmanaged. A TTL of 0: the
  update never carries it, so every run plans the same update again.
\<close>

definition good_a :: dns_record where
  "good_a = zero_record\<lparr>rec_name := ''cdn'', rec_value := ''1.1.1.1'', rec_ttl := 30, rec_weight := 100,
     rec_comment := ServerTag ''e1''\<rparr>"

lemma duplicate_survives:
  "Diff Map.empty (\<lambda>xs. xs) [demo_ep ''e1'' ''1.1.1.1'']
     [good_a\<lparr>rec_id := 1, rec_value := ''6.6.6.6''\<rparr>, good_a\<lparr>rec_id := 2\<rparr>] demo_opts = []"
  by code_simp

lemma ttl_zero_diverges:
  "let p = Diff Map.empty (\<lambda>xs. xs) [demo_ep ''e1'' ''1.1.1.1''] (mem_stored [Some good_a]) (demo_opts\<lparr>opt_ttl := 0\<rparr>);
       z = fst (Apply mem_add mem_update mem_delete [Some good_a] p)
   in map act_kind p = [Update] \<and> z = [Some good_a]"
  by code_simp

end
