(* ===== verification/Syncer.thy ===== *)
theory Syncer
  imports Reconcile
begin

section \<open>The syncer (internal/dns/syncer.go)\<close>

text \<open>
  One reconcile as the background loop and the API run it: the apex record set, the wildcard
  CNAME, then the per-zone sets and the orphan sweep. The DNS service is the state \<open>'s\<close> with
  its four calls; \<open>endpoints\<close> and \<open>zones\<close> are what the callbacks return; the audit trail is
  the list of audited batches. The mutex makes a run atomic, so a run is one function.
\<close>

record sync_opts =
  so_name :: string
  so_ttl :: int
  so_stale :: duration
  so_periodic :: duration
  so_debounce :: duration
  so_mode :: string
  so_monitor :: int

definition NewSyncer :: "sync_opts \<Rightarrow> sync_opts" where
  "NewSyncer o' = o'\<lparr>
     so_debounce := (if so_debounce o' \<le> 0 then 3 * second else so_debounce o'),
     so_periodic := (if so_periodic o' \<le> 0 then 2 * minute else so_periodic o'),
     so_stale := (if so_stale o' \<le> 0 then 60 * second else so_stale o')\<rparr>"

definition NetworkMode :: "sync_opts option \<Rightarrow> string" where
  "NetworkMode s = (case s of None \<Rightarrow> ModeGeographic
     | Some o' \<Rightarrow> if so_mode o' = '''' then ModeGeographic else so_mode o')"

definition StaleAfterDur :: "sync_opts option \<Rightarrow> duration" where
  "StaleAfterDur s = (case s of None \<Rightarrow> 60 * second | Some o' \<Rightarrow> so_stale o')"

text \<open>The trigger channel holds one reason.\<close>

definition Trigger :: "string option \<Rightarrow> string \<Rightarrow> string option" where
  "Trigger queue reason = (case queue of None \<Rightarrow> Some reason | Some r \<Rightarrow> Some r)"

definition diff_opts_of :: "sync_opts \<Rightarrow> instant \<Rightarrow> diff_opts" where
  "diff_opts_of o' now = \<lparr>opt_name = so_name o', opt_ttl = so_ttl o', opt_stale = so_stale o',
     opt_mode = NetworkMode (Some o'), opt_monitor = so_monitor o', opt_now = now\<rparr>"

type_synonym audit_log = "(dns_action list \<times> string) list"

record 's dns_service =
  svc_list :: "'s \<Rightarrow> string + dns_record list"
  svc_add :: "'s \<Rightarrow> dns_record \<Rightarrow> 's \<times> (string + dns_record)"
  svc_update :: "'s \<Rightarrow> int \<Rightarrow> dns_record \<Rightarrow> 's \<times> string option"
  svc_delete :: "'s \<Rightarrow> int \<Rightarrow> 's \<times> string option"

text \<open>Apply a plan that is not empty and audit what was applied.\<close>

definition apply_audited ::
  "'s dns_service \<Rightarrow> plan \<Rightarrow> string \<Rightarrow> 's \<Rightarrow> 's \<times> audit_log \<times> string option" where
  "apply_audited svc p reason s =
     (if plan_empty p then (s, [], None)
      else (case Apply (svc_add svc) (svc_update svc) (svc_delete svc) s p of
              (s', applied, e) \<Rightarrow> (s', (if length applied > 0 then [(applied, reason)] else []), e)))"

fun zones_loop ::
  "'s dns_service \<Rightarrow> (string \<rightharpoonup> region_loc) \<Rightarrow> (record_index \<Rightarrow> record_index) \<Rightarrow> diff_opts \<Rightarrow> endpoint list \<Rightarrow>
   dns_record list \<Rightarrow> string \<Rightarrow> zone_routing list \<Rightarrow> 's \<Rightarrow> 's \<times> audit_log" where
  "zones_loop svc m ord opts eps records reason [] s = (s, [])"
| "zones_loop svc m ord opts eps records reason (zr # zrs) s =
     (let p = DiffZone m ord zr eps records opts;
          (s1, log, e) = apply_audited svc p (reason @ '':zone:'' @ show_int (zr_id zr)) s;
          (s2, log') = zones_loop svc m ord opts eps records reason zrs s1
      in (s2, log @ log'))"

definition reconcileZones ::
  "'s dns_service \<Rightarrow> (string \<rightharpoonup> region_loc) \<Rightarrow> (record_index \<Rightarrow> record_index) \<Rightarrow> sync_opts \<Rightarrow> instant \<Rightarrow>
   (string + zone_routing list) \<Rightarrow> endpoint list \<Rightarrow> string \<Rightarrow> 's \<Rightarrow> 's \<times> audit_log" where
  "reconcileZones svc m ord opts now zones eps reason s =
     (case zones of
        Inl e \<Rightarrow> (s, [])
      | Inr zrs \<Rightarrow>
          (case svc_list svc s of
             Inl e \<Rightarrow> (s, [])
           | Inr records \<Rightarrow>
               (let (s1, log) = zones_loop svc m ord (diff_opts_of opts now) eps records reason zrs s;
                    (s2, log', e) = apply_audited svc
                       (OrphanZonePlan records (\<lambda>z. z \<in> zr_id ` set zrs)) (reason @ '':zone-orphan'') s1
                in (s2, log @ log'))))"

definition Reconcile ::
  "'s dns_service \<Rightarrow> string \<Rightarrow> (string \<rightharpoonup> region_loc) \<Rightarrow> (record_index \<Rightarrow> record_index) \<Rightarrow> sync_opts \<Rightarrow> instant \<Rightarrow>
   (string + endpoint list) \<Rightarrow> (string + zone_routing list) option \<Rightarrow> bool \<Rightarrow> string \<Rightarrow> 's \<Rightarrow>
   's \<times> audit_log \<times> plan \<times> string option" where
  "Reconcile svc zoneName m ord opts now endpoints zones dryRun reason s =
     (case svc_list svc s of
        Inl e \<Rightarrow> (s, [], [], Some e)
      | Inr records \<Rightarrow>
          (case endpoints of
             Inl e \<Rightarrow> (s, [], [], Some e)
           | Inr eps \<Rightarrow>
               (let p = Diff m ord eps records (diff_opts_of opts now) in
                if dryRun then (s, [], p, None)
                else
                  (let (s1, w) = EnsureWildcardCNAME (svc_list svc) (svc_add svc) zoneName s (so_name opts) (so_ttl opts);
                       (s2, log, e) = apply_audited svc p reason s1;
                       (s3, log') = (case zones of None \<Rightarrow> (s2, [])
                          | Some zs \<Rightarrow> reconcileZones svc m ord opts now zs eps reason s2)
                   in (s3, log @ log', p, e)))))"

text \<open>
  \<open>Run\<close>: the events of the background loop. A trigger only restarts the debounce timer and
  remembers its reason; the timer and the ticker start a reconcile, whose reason is returned.
\<close>

datatype sync_event = Triggered string | DebounceFired | Tick

fun run_step :: "string \<Rightarrow> sync_event \<Rightarrow> string \<times> string option" where
  "run_step reason (Triggered r) = (r, None)"
| "run_step reason DebounceFired = (''event'', Some reason)"
| "run_step reason Tick = (reason, Some ''periodic'')"

subsection \<open>Properties\<close>

text \<open>
  The wildcard step, whether it succeeds or not: at most one record more, which is no server's.
\<close>

lemma EnsureWildcard_effect:
  assumes zone: "lossy_zone stored listing add upd del"
    and run: "EnsureWildcardCNAME listing add zn s routing ttl = (s1, res)"
  shows "set (stored s1) = set (stored s) \<or>
    (\<exists>x. set (stored s1) = insert x (set (stored s)) \<and> server_tag_of x = None)"
proof (cases "s1 = s")
  case False
  let ?r = "trim_space routing"
  let ?w = "zero_record\<lparr>rec_type := TypeCNAME, rec_name := ''*.'' @ ?r, rec_value := ?r @ ''.'' @ zn,
      rec_ttl := ttl, rec_comment := CommentPrefix @ ''wildcard:'' @ ?r\<rparr>"
  from run False obtain out where "add s ?w = (s1, out)"
    by (auto simp: EnsureWildcardCNAME_def Let_def split: if_splits sum.splits prod.splits)
  then show ?thesis
  proof (rule lossy_zone.add_any [OF zone])
    fix x assume x: "set (stored s1) = insert x (set (stored s))" "written ?w x"
    have c: "rec_comment x = CommentPrefix @ ''wildcard:'' @ ?r" using x(2) by (simp add: written_def CommentPrefix_def)
    have "server_tag_of x = None"
      by (simp add: server_tag_of_def edgeIDFromComment_def c serverTag_def CommentPrefix_def has_prefix_def)
    then show ?thesis using x(1) by blast
  qed simp
qed simp

text \<open>The per-zone part leaves the records of the servers alone, at whatever call it stops.\<close>

definition server_tagged :: "dns_record \<Rightarrow> bool" where
  "server_tagged r \<longleftrightarrow> server_tag_of r \<noteq> None"

definition untagged_ids :: "dns_record list \<Rightarrow> int set" where
  "untagged_ids rs = rec_id ` {r \<in> set rs. \<not> server_tagged r}"

lemma untagged_apart: "inj_on rec_id (set (stored s)) \<Longrightarrow> apart stored server_tagged (untagged_ids (stored s)) s"
  by (auto simp: apart_def untagged_ids_def dest: inj_onD)

lemma zone_prefix_untagged: "has_prefix (rec_comment r) (CommentPrefix @ ''zone:'') \<Longrightarrow> \<not> server_tagged r"
  by (elim has_prefixE)
    (simp add: server_tagged_def server_tag_of_def edgeIDFromComment_def serverTag_def CommentPrefix_def has_prefix_def)

lemma zone_tag_untagged: "zone_tag_of zr r = Some e \<Longrightarrow> \<not> server_tagged r"
proof -
  assume "zone_tag_of zr r = Some e"
  then have "edgeIDFromZoneComment (rec_comment r) (zr_id zr) = Some e" by (auto simp: zone_tag_of_def split: if_splits)
  then obtain t where "rec_comment r = zoneTag (zr_id zr) @ t"
    by (auto simp: edgeIDFromZoneComment_def Let_def elim: has_prefixE split: if_splits)
  then show ?thesis by (intro zone_prefix_untagged) (simp add: zoneTag_def has_prefix_def)
qed

lemma DiffZone_framed:
  assumes ord: "reorders ord" and ids: "inj_on rec_id (set rs)"
  shows "framed server_tagged (untagged_ids rs) (DiffZone m ord zr eps rs opts)"
  unfolding framed_def
proof (intro ballI conjI impI allI)
  let ?c = "(m, opts, eps, zr)"
  fix a assume a: "a \<in> set (DiffZone m ord zr eps rs opts)"
  show "\<not> server_tagged x" if w: "act_kind a \<noteq> Remove" "written (act_record a) x" for x
  proof -
    obtain e i where "act_record a = (zone_desired ?c e)\<lparr>rec_id := i\<rparr>"
      by (rule tenant.plan_writes [OF ord a [unfolded DiffZone_plan] w(1)])
    then have "rec_comment (act_record a) = zoneEdgeTag (zr_id zr) (fst e)"
      by (simp add: zone_desired_def desiredRecord_def split: prod.split)
    then have "rec_comment x = zoneEdgeTag (zr_id zr) (fst e)"
      using w(2) by (simp add: written_def zoneEdgeTag_def zoneTag_def CommentPrefix_def)
    then show ?thesis by (intro zone_prefix_untagged) (simp add: zoneEdgeTag_def zoneTag_def has_prefix_def)
  qed
  show "act_rec_id a \<in> untagged_ids rs" if "touches a"
  proof -
    have "act_rec_id a \<in> set (touched_ids (DiffZone m ord zr eps rs opts))" using a that by (simp add: touched_ids_def)
    then obtain r where "r \<in> set rs" "rec_id r = act_rec_id a" "zone_tag ?c r \<noteq> None"
      using tenant.plan_touches(2) [OF ord ids, of "act_rec_id a" ?c] unfolding DiffZone_plan by auto
    then show ?thesis using zone_tag_untagged by (force simp: untagged_ids_def zone_tag_def)
  qed
qed

lemma Orphan_framed: "framed server_tagged (untagged_ids rs) (OrphanZonePlan rs active)"
proof -
  have "\<not> server_tagged r" if "zoneIDFromComment (rec_comment r) = Some z" for r z
    using that by (intro zone_prefix_untagged) (auto simp: zoneIDFromComment_def Let_def split: if_splits)
  then show ?thesis
    by (auto simp: framed_def OrphanZonePlan_def removeAction_def untagged_ids_def split: option.splits)
qed

lemma apply_audited_same:
  assumes zone: "lossy_zone stored (svc_list svc) (svc_add svc) (svc_update svc) (svc_delete svc)"
    and "framed Q Z p" "apart stored Q Z s"
  shows "same_on stored Q s (fst (apply_audited svc p reason s))"
proof -
  obtain s' applied e where a: "Apply (svc_add svc) (svc_update svc) (svc_delete svc) s p = (s', applied, e)" by (rule prod_cases3)
  show ?thesis using lossy_zone.Apply_same_on [OF zone assms(2,3)] by (simp add: apply_audited_def a)
qed

lemma zones_loop_same:
  assumes zone: "lossy_zone stored (svc_list svc) (svc_add svc) (svc_update svc) (svc_delete svc)"
    and ord: "reorders ord" and ids: "inj_on rec_id (set rs)" and ap: "apart stored server_tagged (untagged_ids rs) s"
  shows "same_on stored server_tagged s (fst (zones_loop svc m ord opts eps rs reason zrs s))"
  using ap
proof (induction zrs arbitrary: s)
  case (Cons zr zrs)
  let ?a = "apply_audited svc (DiffZone m ord zr eps rs opts) (reason @ '':zone:'' @ show_int (zr_id zr)) s"
  obtain s1 log e where a: "?a = (s1, log, e)" by (rule prod_cases3)
  have 1: "same_on stored server_tagged s (fst ?a)"
    by (rule apply_audited_same [OF zone DiffZone_framed [OF ord ids] Cons.prems])
  have "same_on stored server_tagged (fst ?a) (fst (zones_loop svc m ord opts eps rs reason zrs (fst ?a)))"
    by (rule Cons.IH [OF same_on_apart [OF 1 Cons.prems]])
  with 1 have "same_on stored server_tagged s (fst (zones_loop svc m ord opts eps rs reason zrs (fst ?a)))"
    by (rule same_on_trans)
  then show ?case using a by (auto simp: Let_def split: prod.split)
qed simp

lemma reconcileZones_same:
  assumes zone: "lossy_zone stored (svc_list svc) (svc_add svc) (svc_update svc) (svc_delete svc)" and ord: "reorders ord"
  shows "same_on stored server_tagged s (fst (reconcileZones svc m ord opts now zones eps reason s))"
proof (cases zones)
  case (Inl e)
  then show ?thesis by (simp add: reconcileZones_def)
next
  case zs: (Inr zrs)
  have bz: "bunny_zone stored (svc_list svc) (svc_add svc) (svc_update svc) (svc_delete svc)" using zone by (simp add: lossy_zone_def)
  show ?thesis
  proof (cases "svc_list svc s")
    case (Inl e)
    then show ?thesis by (simp add: reconcileZones_def zs)
  next
    case (Inr rs)
    have rs: "rs = stored s" by (rule bunny_zone.list_law [OF bz Inr])
    have ids: "inj_on rec_id (set rs)" using bunny_zone.ids_unique [OF bz] rs by simp
    have ap: "apart stored server_tagged (untagged_ids rs) s" unfolding rs using bunny_zone.ids_unique [OF bz] by (rule untagged_apart)
    obtain s1 log where l: "zones_loop svc m ord (diff_opts_of opts now) eps rs reason zrs s = (s1, log)" by fastforce
    have 1: "same_on stored server_tagged s s1"
      using zones_loop_same [OF zone ord ids ap, of m "diff_opts_of opts now" eps reason zrs] l by simp
    have "same_on stored server_tagged s1
        (fst (apply_audited svc (OrphanZonePlan rs (\<lambda>z. z \<in> zr_id ` set zrs)) (reason @ '':zone-orphan'') s1))"
      by (rule apply_audited_same [OF zone Orphan_framed same_on_apart [OF 1 ap]])
    with 1 show ?thesis by (auto simp: reconcileZones_def zs Inr l split: prod.splits intro: same_on_trans)
  qed
qed

text \<open>
  A dry run changes nothing: the service, and so the zone, is as before, nothing is
  audited, and the plan is what a real run at that moment would carry out.
\<close>

theorem dry_run_pure:
  "fst (Reconcile svc zn m ord opts now endpoints zones True reason s) = s \<and>
   fst (snd (Reconcile svc zn m ord opts now endpoints zones True reason s)) = [] \<and>
   fst (snd (snd (Reconcile svc zn m ord opts now endpoints zones True reason s))) =
   fst (snd (snd (Reconcile svc zn m ord opts now endpoints zones False reason s)))"
  by (auto simp: Reconcile_def Let_def split: sum.splits prod.splits)

text \<open>
  C33: A reconciled apex set stays reconciled. After a real run that could carry out its plan for the
  apex record set, the next run on the same edges at the same time finds nothing to do for that set:
  neither the wildcard step before it nor the record sets of the tenants' zones and the orphan sweep
  after it disturb it, whether their own calls succeed or fail. A call that reports an error is taken
  to have done nothing or what it was asked to do.
\<close>

theorem Reconcile_idempotent:
  assumes zone: "lossy_zone stored (svc_list svc) (svc_add svc) (svc_update svc) (svc_delete svc)"
    and ord: "reorders ord" "reorders ord'"
    and good: "so_ttl opts \<noteq> 0" "distinct (map ep_edge_id (filter placeable eps))"
    and tags: "\<forall>x \<in> set (stored s). \<forall>y \<in> set (stored s).
       server_tag_of x = server_tag_of y \<and> server_tag_of x \<noteq> None \<longrightarrow> x = y"
    and first: "Reconcile svc zn m ord opts now (Inr eps) zones False reason s = (s', aud, p, None)"
  shows "fst (snd (snd (Reconcile svc zn m ord' opts now (Inr eps) zones' dry reason' s'))) = []"
proof (cases "svc_list svc s'")
  case (Inl e)
  then show ?thesis by (simp add: Reconcile_def)
next
  case (Inr rs')
  have bz: "bunny_zone stored (svc_list svc) (svc_add svc) (svc_update svc) (svc_delete svc)" using zone by (simp add: lossy_zone_def)
  have rs': "rs' = stored s'" by (rule bunny_zone.list_law [OF bz Inr])
  let ?o = "diff_opts_of opts now"
  obtain rs where l: "svc_list svc s = Inr rs" using first by (auto simp: Reconcile_def split: sum.splits)
  have rs: "rs = stored s" by (rule bunny_zone.list_law [OF bz l])
  obtain s1 w where w: "EnsureWildcardCNAME (svc_list svc) (svc_add svc) zn s (so_name opts) (so_ttl opts) = (s1, w)" by fastforce
  let ?p = "Diff m ord eps rs ?o"
  obtain s2 log e where ap: "apply_audited svc ?p reason s1 = (s2, log, e)" by (rule prod_cases3)
  have e: "e = None" and s': "s' = (case zones of None \<Rightarrow> s2 | Some zs \<Rightarrow> fst (reconcileZones svc m ord opts now zs eps reason s2))"
    using first l w ap by (auto simp: Reconcile_def Let_def split: prod.splits option.splits)
  obtain dn where run: "Apply (svc_add svc) (svc_update svc) (svc_delete svc) s1 ?p = (s2, dn, None)"
    using ap e by (cases "?p = []") (auto simp: apply_audited_def plan_empty_def split: prod.splits)
  have ids: "inj_on rec_id (set rs)" using bunny_zone.ids_unique [OF bz] rs by simp
  have sub: "set rs \<subseteq> set (stored s1)" "\<And>x. x \<in> set (stored s1) \<Longrightarrow> x \<notin> set rs \<Longrightarrow> server_tag_of x = None"
    using EnsureWildcard_effect [OF zone w] rs by auto
  have g: "srv_good (m, ?o, eps)" using good by (simp add: srv_good_def diff_opts_of_def)
  note plan = srv.plan_touches [OF ord(1) ids, where o' = "(m, ?o, eps)", folded Diff_plan]
  have "set (touched_ids ?p) \<subseteq> rec_id ` set (stored s1)" using plan(2) sub(1) by blast
  then have eff: "zone_effect (set (stored s1)) ?p (set (stored s2))"
    by (rule bunny_zone.Apply_effect [OF bz run plan(1)])
  have "same_on stored server_tagged s2 s'"
    using reconcileZones_same [OF zone ord(1)] by (simp add: s' split: option.split)
  then have after: "\<And>x. server_tag_of x \<noteq> None \<Longrightarrow> x \<in> set rs' \<longleftrightarrow> x \<in> set (stored s2)"
    unfolding same_on_def server_tagged_def rs' by blast
  have "Diff m ord' eps rs' ?o = []"
    unfolding Diff_plan
    by (rule srv.converges_tagged [OF ord g ids _ sub eff [unfolded Diff_plan] after]) (use tags in \<open>auto simp: rs\<close>)
  then show ?thesis using Inr by (simp add: Reconcile_def Let_def split: prod.splits)
qed

definition demo_service :: "mem_zone dns_service" where
  "demo_service = \<lparr>svc_list = mem_list, svc_add = mem_add, svc_update = mem_update, svc_delete = mem_delete\<rparr>"

definition demo_sync :: sync_opts where
  "demo_sync = NewSyncer \<lparr>so_name = ''cdn'', so_ttl = 30, so_stale = 0, so_periodic = 0, so_debounce = 0,
     so_mode = '''', so_monitor = 0\<rparr>"

text \<open>A run with one tenant zone beside the apex set.\<close>

definition demo_run :: "mem_zone \<times> audit_log \<times> plan \<times> string option" where
  "demo_run = Reconcile demo_service ''a.com'' Map.empty (\<lambda>xs. xs) demo_sync second
     (Inr [demo_ep ''e1'' ''1.1.1.1'', demo_ep ''e2'' ''2.2.2.2'']) (Some (Inr [demo_zr])) False ''test'' demo_zone"

lemma Reconcile_idempotent_witness:
  "fst (snd (snd (Reconcile demo_service ''a.com'' Map.empty rev demo_sync second
     (Inr [demo_ep ''e1'' ''1.1.1.1'', demo_ep ''e2'' ''2.2.2.2'']) None False ''again'' (fst demo_run)))) = []"
proof -
  have first: "demo_run = (fst demo_run, fst (snd demo_run), fst (snd (snd demo_run)), None)"
    by code_simp
  have tags: "\<forall>x \<in> set (mem_stored demo_zone). \<forall>y \<in> set (mem_stored demo_zone).
       server_tag_of x = server_tag_of y \<and> server_tag_of x \<noteq> None \<longrightarrow> x = y"
    by code_simp
  have zone: "lossy_zone mem_stored (svc_list demo_service) (svc_add demo_service)
      (svc_update demo_service) (svc_delete demo_service)"
    by (simp add: demo_service_def lossy_mem.lossy_zone_axioms)
  have rev: "reorders rev" by (simp add: reorders_def)
  show ?thesis
    by (rule Reconcile_idempotent [OF zone reorders_id rev _ _ tags trans [OF demo_run_def [symmetric] first]])
       (simp_all add: demo_sync_def NewSyncer_def demo_ep_def)
qed

lemma demo_run_adds_zone_records:
  "length (filter (\<lambda>r. zone_tag_of demo_zr r \<noteq> None) (mem_stored (fst demo_run))) = 2"
  by code_simp

end
