(* ===== verification/Health.thy ===== *)
theory Health
  imports Prelude "HOL-Library.Word" "HOL-Library.List_Lexorder"
begin

section \<open>The edge health checker (internal/health/checker.go)\<close>

text \<open>
  The checker's state maps an edge id to its target, verdict, streak counters and probe
  times; the mutex and the single loop make every operation below atomic. \<open>time.Now()\<close> and
  the probe's outcome are arguments; the calls of the transition callback are returned, in
  order, as a list. The FNV-1a hash of the stagger is computed on 32-bit words.
\<close>

unbundle bit_operations_syntax

record health_config =
  hc_enabled :: bool
  hc_interval :: duration
  hc_timeout :: duration
  hc_fail :: int
  hc_rise :: int
  hc_path :: string
  hc_scheme :: string
  hc_port :: int

definition health_withDefaults :: "health_config \<Rightarrow> health_config" where
  "health_withDefaults c0 =
     (let c1 = (if hc_interval c0 \<le> 0 then c0\<lparr>hc_interval := 10 * second\<rparr> else c0);
          c2 = (if hc_timeout c1 \<le> 0 \<or> hc_timeout c1 \<ge> hc_interval c1 then
                  (let t = hc_interval c1 div 3 in c1\<lparr>hc_timeout := (if t \<le> 0 then 3 * second else t)\<rparr>)
                else c1);
          c3 = (if hc_fail c2 \<le> 0 then c2\<lparr>hc_fail := 2\<rparr> else c2);
          c4 = (if hc_rise c3 \<le> 0 then c3\<lparr>hc_rise := 3\<rparr> else c3);
          c5 = (if hc_path c4 = '''' then c4\<lparr>hc_path := ''/healthz''\<rparr> else c4)
      in (if hc_scheme c5 = '''' then c5\<lparr>hc_scheme := ''https''\<rparr> else c5))"

record health_target =
  ht_server :: int
  ht_edge :: string
  ht_host :: string
  ht_persisted :: string
  ht_enabled :: bool
  ht_interval :: int
  ht_fail :: int
  ht_rise :: int

record edge_state =
  es_target :: health_target
  es_current :: string
  es_fails :: int
  es_oks :: int
  es_last_probe :: instant
  es_last_latency :: duration
  es_last_err :: string
  es_inflight :: bool
  es_next_due :: instant

record checker =
  ck_cfg :: health_config
  ck_state :: "string \<rightharpoonup> edge_state"
  ck_last_reload :: instant

definition new_checker :: "health_config \<Rightarrow> checker option" where
  "new_checker cfg = (if \<not> hc_enabled cfg then None
     else Some \<lparr>ck_cfg = health_withDefaults cfg, ck_state = Map.empty, ck_last_reload = 0\<rparr>)"

definition normState :: "string \<Rightarrow> string" where
  "normState s = (let t = to_lower (trim_space s) in
     if t = ''healthy'' then ''healthy'' else if t = ''unhealthy'' then ''unhealthy'' else ''unknown'')"

definition trimErr :: "string \<Rightarrow> string" where
  "trimErr s = (let t = trim_space s in if length t > 200 then take 200 t else t)"

subsection \<open>Per-edge configuration\<close>

definition probe_interval :: "health_config \<Rightarrow> health_target \<Rightarrow> duration" where
  "probe_interval cfg t = (if ht_interval t > 0 then ht_interval t * second else hc_interval cfg)"

definition failThreshold :: "health_config \<Rightarrow> health_target \<Rightarrow> int" where
  "failThreshold cfg t = (if ht_fail t > 0 then ht_fail t else hc_fail cfg)"

definition riseThreshold :: "health_config \<Rightarrow> health_target \<Rightarrow> int" where
  "riseThreshold cfg t = (if ht_rise t > 0 then ht_rise t else hc_rise cfg)"

definition fnv32a :: "string \<Rightarrow> 32 word" where
  "fnv32a s = foldl (\<lambda>h c. (h XOR of_nat (of_char c)) * 16777619) 2166136261 s"

definition stagger :: "health_config \<Rightarrow> health_target \<Rightarrow> duration" where
  "stagger cfg t =
     (let secs = (word_of_int (probe_interval cfg t div second) :: 32 word) + 1
      in uint (fnv32a (ht_edge t) mod secs) * second)"

definition probe_url :: "health_config \<Rightarrow> string \<Rightarrow> string" where
  "probe_url cfg host =
     (let hostport = (if hc_port cfg \<noteq> 0
            then (if contains_str host '':'' then ''['' @ host @ '']'' else host) @ '':'' @ show_int (hc_port cfg)
            else host);
          path = (if \<not> has_prefix (hc_path cfg) ''/'' then ''/'' @ hc_path cfg else hc_path cfg)
      in hc_scheme cfg @ ''://'' @ hostport @ path)"

text \<open>The outcome of the probe's request: it cannot be built, it fails, or it is answered.\<close>

datatype probe_outcome = BuildError string | RequestError string | Answered int

definition probe_verdict :: "probe_outcome \<Rightarrow> bool \<times> string" where
  "probe_verdict r = (case r of
       BuildError e \<Rightarrow> (False, ''build request: '' @ e)
     | RequestError e \<Rightarrow> (False, trimErr e)
     | Answered st \<Rightarrow> if st \<ge> 500 then (False, ''status '' @ show_int st) else (True, ''''))"

subsection \<open>The operations of the loop\<close>

definition reload_one :: "health_config \<Rightarrow> instant \<Rightarrow> (string \<rightharpoonup> edge_state) \<Rightarrow> health_target \<Rightarrow> (string \<rightharpoonup> edge_state)" where
  "reload_one cfg now st t =
     (case st (ht_edge t) of
        None \<Rightarrow> st(ht_edge t \<mapsto> \<lparr>es_target = t, es_current = normState (ht_persisted t), es_fails = 0, es_oks = 0,
            es_last_probe = 0, es_last_latency = 0, es_last_err = '''', es_inflight = False,
            es_next_due = now + stagger cfg t\<rparr>)
      | Some es \<Rightarrow> st(ht_edge t \<mapsto> es\<lparr>es_target := t\<rparr>))"

definition reload_targets :: "string + health_target list \<Rightarrow> instant \<Rightarrow> checker \<Rightarrow> checker" where
  "reload_targets targets now c =
     (case targets of
        Inl e \<Rightarrow> c
      | Inr ts \<Rightarrow>
          (let st = foldl (reload_one (ck_cfg c) now) (ck_state c) ts
           in c\<lparr>ck_last_reload := now, ck_state := st |` (ht_edge ` set ts)\<rparr>))"

definition is_due :: "instant \<Rightarrow> edge_state \<Rightarrow> bool" where
  "is_due now es \<longleftrightarrow> ht_enabled (es_target es) \<and> \<not> (es_inflight es \<or> now < es_next_due es)"

text \<open>All due edges are marked in flight at once; \<open>ids\<close> is the order of the map range.\<close>

definition scheduleDue :: "instant \<Rightarrow> string list \<Rightarrow> checker \<Rightarrow> checker \<times> health_target list" where
  "scheduleDue now ids c =
     (c\<lparr>ck_state := (\<lambda>i. case ck_state c i of None \<Rightarrow> None
          | Some es \<Rightarrow> Some (if is_due now es
              then es\<lparr>es_inflight := True, es_next_due := now + probe_interval (ck_cfg c) (es_target es)\<rparr> else es))\<rparr>,
      List.map_filter (\<lambda>i. case ck_state c i of None \<Rightarrow> None
          | Some es \<Rightarrow> if is_due now es then Some (es_target es) else None) ids)"

record probe_result =
  pr_edge :: string
  pr_ok :: bool
  pr_latency :: duration
  pr_err :: string
  pr_at :: instant

definition count_result :: "health_config \<Rightarrow> bool \<Rightarrow> edge_state \<Rightarrow> edge_state \<times> bool option" where
  "count_result cfg ok es =
     (if ok then
        (let es = es\<lparr>es_oks := es_oks es + 1, es_fails := 0\<rparr> in
         if es_current es \<noteq> ''healthy'' \<and> es_oks es \<ge> riseThreshold cfg (es_target es)
         then (es\<lparr>es_current := ''healthy''\<rparr>, Some True) else (es, None))
      else
        (let es = es\<lparr>es_fails := es_fails es + 1, es_oks := 0\<rparr> in
         if es_current es \<noteq> ''unhealthy'' \<and> es_fails es \<ge> failThreshold cfg (es_target es)
         then (es\<lparr>es_current := ''unhealthy''\<rparr>, Some False) else (es, None)))"

definition handleResult :: "probe_result \<Rightarrow> checker \<Rightarrow> checker \<times> (health_target \<times> bool) list" where
  "handleResult res c =
     (case ck_state c (pr_edge res) of
        None \<Rightarrow> (c, [])
      | Some es \<Rightarrow>
          (let es = es\<lparr>es_inflight := False, es_last_probe := pr_at res, es_last_latency := pr_latency res,
                      es_last_err := pr_err res\<rparr>;
               (es, transition) = count_result (ck_cfg c) (pr_ok res) es
           in (c\<lparr>ck_state := (ck_state c)(pr_edge res \<mapsto> es)\<rparr>,
               (case transition of None \<Rightarrow> [] | Some v \<Rightarrow> [(es_target es, v)]))))"

record health_status =
  hs_server :: int
  hs_edge :: string
  hs_host :: string
  hs_state :: string
  hs_healthy :: bool
  hs_fails :: int
  hs_oks :: int
  hs_probing :: bool
  hs_enabled :: bool
  hs_interval :: int
  hs_fail :: int
  hs_rise :: int

definition health_snapshot :: "checker option \<Rightarrow> string list \<Rightarrow> health_status list" where
  "health_snapshot c ids = (case c of None \<Rightarrow> []
     | Some c \<Rightarrow> sort_key hs_edge (List.map_filter (\<lambda>i. case ck_state c i of None \<Rightarrow> None
          | Some es \<Rightarrow> Some \<lparr>hs_server = ht_server (es_target es), hs_edge = ht_edge (es_target es),
              hs_host = ht_host (es_target es), hs_state = es_current es, hs_healthy = (es_current es = ''healthy''),
              hs_fails = es_fails es, hs_oks = es_oks es, hs_probing = es_inflight es,
              hs_enabled = ht_enabled (es_target es),
              hs_interval = probe_interval (ck_cfg c) (es_target es) div second,
              hs_fail = failThreshold (ck_cfg c) (es_target es),
              hs_rise = riseThreshold (ck_cfg c) (es_target es)\<rparr>) ids))"

text \<open>
  The loop: every second it reloads when the last reload is 5 s old and then schedules; a
  result is handled when it arrives.
\<close>

datatype health_event =
    TickEvent instant "string + health_target list" "string list"
  | ResultEvent probe_result

fun health_step :: "health_event \<Rightarrow> checker \<Rightarrow> checker \<times> health_target list \<times> (health_target \<times> bool) list" where
  "health_step (TickEvent now targets ids) c =
     (let c1 = (if now - ck_last_reload c \<ge> 5 * second then reload_targets targets now c else c);
          (c2, due) = scheduleDue now ids c1
      in (c2, due, []))"
| "health_step (ResultEvent res) c = (let (c1, trans) = handleResult res c in (c1, [], trans))"

inductive health_reach :: "health_config \<Rightarrow> checker \<Rightarrow> bool" for cfg where
  start: "new_checker cfg = Some c \<Longrightarrow> health_reach cfg c"
| seed: "health_reach cfg c \<Longrightarrow> health_reach cfg (reload_targets ts now c)"
| step: "health_reach cfg c \<Longrightarrow> health_reach cfg (fst (health_step ev c))"

subsection \<open>The streak counters\<close>

text \<open>
  The specification of a verdict, on the history of probe outcomes, newest first: the last
  point at which a streak was long enough decides, otherwise the seed does.
\<close>

definition streak :: "bool \<Rightarrow> bool list \<Rightarrow> nat" where
  "streak v h = length (takeWhile (\<lambda>b. b = v) h)"

fun verdict_of :: "nat \<Rightarrow> nat \<Rightarrow> string \<Rightarrow> bool list \<Rightarrow> string" where
  "verdict_of f r seed [] = seed"
| "verdict_of f r seed (b # h) =
     (if r \<le> streak True (b # h) then ''healthy''
      else if f \<le> streak False (b # h) then ''unhealthy''
      else verdict_of f r seed h)"

definition feed :: "health_config \<Rightarrow> edge_state \<Rightarrow> bool list \<Rightarrow> edge_state" where
  "feed cfg es bs = foldl (\<lambda>es b. fst (count_result cfg b es)) es bs"

lemma streak_Nil [simp]: "streak v [] = 0"
  by (simp add: streak_def)

lemma streak_Cons [simp]: "streak v (b # h) = (if b = v then Suc (streak v h) else 0)"
  by (simp add: streak_def)

lemma count_result_target [simp]: "es_target (fst (count_result cfg b es)) = es_target es"
  by (simp add: count_result_def Let_def)

lemma feed_target [simp]: "es_target (feed cfg es bs) = es_target es"
  unfolding feed_def by (induction bs arbitrary: es) simp_all

lemma feed_spec:
  assumes f: "failThreshold cfg (es_target es) = int f" "0 < f"
    and r: "riseThreshold cfg (es_target es) = int r" "0 < r"
    and z: "es_fails es = 0" "es_oks es = 0"
  shows "es_current (feed cfg es bs) = verdict_of f r (es_current es) (rev bs) \<and>
     es_oks (feed cfg es bs) = int (streak True (rev bs)) \<and>
     es_fails (feed cfg es bs) = int (streak False (rev bs))"
proof (induction bs rule: rev_induct)
  case Nil
  then show ?case using z by (simp add: feed_def)
next
  case (snoc b bs)
  let ?e = "feed cfg es bs"
  have step: "feed cfg es (bs @ [b]) = fst (count_result cfg b ?e)" by (simp add: feed_def)
  have th: "failThreshold cfg (es_target ?e) = int f" "riseThreshold cfg (es_target ?e) = int r"
    using f r by simp_all
  show ?case
  proof (cases b)
    case True
    then show ?thesis unfolding step using snoc.IH th f(2) r(2)
      by (auto simp: count_result_def Let_def)
  next
    case False
    then show ?thesis unfolding step using snoc.IH th f(2) r(2)
      by (auto simp: count_result_def Let_def)
  qed
qed

subsection \<open>Reachable states\<close>

definition edge_ok :: "string \<Rightarrow> edge_state \<Rightarrow> bool" where
  "edge_ok i es \<longleftrightarrow> ht_edge (es_target es) = i \<and>
     es_current es \<in> {''healthy'', ''unhealthy'', ''unknown''} \<and>
     0 \<le> es_fails es \<and> 0 \<le> es_oks es \<and> (es_fails es = 0 \<or> es_oks es = 0)"

definition checker_ok :: "checker \<Rightarrow> bool" where
  "checker_ok c \<longleftrightarrow> (\<forall>i es. ck_state c i = Some es \<longrightarrow> edge_ok i es)"

definition cfg_ok :: "health_config \<Rightarrow> bool" where
  "cfg_ok cfg \<longleftrightarrow> 0 < hc_interval cfg \<and> 0 < hc_timeout cfg \<and> 0 < hc_fail cfg \<and> 0 < hc_rise cfg \<and>
     hc_path cfg \<noteq> '''' \<and> hc_scheme cfg \<noteq> ''''"

lemma health_withDefaults_ok: "cfg_ok (health_withDefaults cfg)"
  by (auto simp: health_withDefaults_def cfg_ok_def Let_def)

lemma thresholds_pos:
  assumes "cfg_ok cfg"
  shows "0 < failThreshold cfg t" "0 < riseThreshold cfg t" "0 < probe_interval cfg t"
  using assms by (auto simp: cfg_ok_def failThreshold_def riseThreshold_def probe_interval_def)

lemma normState_cases: "normState s \<in> {''healthy'', ''unhealthy'', ''unknown''}"
  by (simp add: normState_def Let_def)

lemma reload_one_ok:
  assumes all: "\<forall>i es. st i = Some es \<longrightarrow> edge_ok i es" and r: "reload_one cfg now st t i = Some es"
  shows "edge_ok i es"
proof (cases "i = ht_edge t")
  case True
  show ?thesis
  proof (cases "st i")
    case None
    then show ?thesis using r True normState_cases [of "ht_persisted t"]
      by (auto simp: reload_one_def edge_ok_def)
  next
    case (Some x)
    then have "edge_ok i x" using all by blast
    then show ?thesis using r True Some by (auto simp: reload_one_def edge_ok_def)
  qed
next
  case False
  then have "st i = Some es" using r by (simp add: reload_one_def split: option.splits)
  then show ?thesis using all by blast
qed

lemma reload_fold_ok:
  "\<forall>i es. st i = Some es \<longrightarrow> edge_ok i es \<Longrightarrow>
   \<forall>i es. foldl (reload_one cfg now) st ts i = Some es \<longrightarrow> edge_ok i es"
proof (induction ts arbitrary: st)
  case (Cons t ts)
  have "\<forall>i es. reload_one cfg now st t i = Some es \<longrightarrow> edge_ok i es"
    using reload_one_ok [OF Cons.prems] by blast
  from Cons.IH [OF this] show ?case by simp
qed simp

lemma reload_ok:
  assumes "checker_ok c"
  shows "checker_ok (reload_targets ts now c)"
proof (cases ts)
  case (Inr xs)
  from reload_fold_ok [OF assms [unfolded checker_ok_def], of "ck_cfg c" now xs] show ?thesis
    unfolding checker_ok_def by (simp add: reload_targets_def Inr restrict_map_def)
qed (use assms in \<open>simp add: reload_targets_def\<close>)

lemma edge_ok_probe [simp]: "edge_ok i (es\<lparr>es_inflight := b, es_next_due := d\<rparr>) = edge_ok i es"
  by (simp add: edge_ok_def)

lemma schedule_ok:
  assumes "checker_ok c"
  shows "checker_ok (fst (scheduleDue now ids c))"
  unfolding checker_ok_def
proof (intro allI impI)
  fix i es' assume "ck_state (fst (scheduleDue now ids c)) i = Some es'"
  then obtain es where es: "ck_state c i = Some es"
    and "es' = (if is_due now es then es\<lparr>es_inflight := True,
        es_next_due := now + probe_interval (ck_cfg c) (es_target es)\<rparr> else es)"
    by (auto simp: scheduleDue_def split: option.splits)
  moreover have "edge_ok i es" using assms es by (simp add: checker_ok_def)
  ultimately show "edge_ok i es'" by (simp split: if_splits)
qed

lemma count_result_ok: "edge_ok i es \<Longrightarrow> edge_ok i (fst (count_result cfg b es))"
  by (auto simp: edge_ok_def count_result_def Let_def)

lemma handle_ok: "checker_ok c \<Longrightarrow> checker_ok (fst (handleResult res c))"
proof -
  assume ok: "checker_ok c"
  have "edge_ok (pr_edge res) (fst (count_result (ck_cfg c) (pr_ok res)
      (es\<lparr>es_inflight := False, es_last_probe := p, es_last_latency := l, es_last_err := e\<rparr>)))"
    if "ck_state c (pr_edge res) = Some es" for es p l e
    by (rule count_result_ok) (use ok that in \<open>auto simp: checker_ok_def edge_ok_def\<close>)
  then show ?thesis using ok
    by (auto simp: handleResult_def checker_ok_def case_prod_beta' Let_def split: option.splits if_splits)
qed

lemma cfg_const [simp]:
  "ck_cfg (reload_targets ts now c) = ck_cfg c"
  "ck_cfg (fst (scheduleDue now ids c)) = ck_cfg c"
  "ck_cfg (fst (handleResult res c)) = ck_cfg c"
  by (simp_all add: reload_targets_def scheduleDue_def handleResult_def Let_def case_prod_beta' split: sum.split option.split)

lemma health_step_fst:
  "fst (health_step ev c) = (case ev of
     TickEvent now ts ids \<Rightarrow> fst (scheduleDue now ids (if now - ck_last_reload c \<ge> 5 * second then reload_targets ts now c else c))
   | ResultEvent res \<Rightarrow> fst (handleResult res c))"
  by (cases ev) (simp_all add: Let_def case_prod_beta')

lemma reach_ok: "health_reach cfg c \<Longrightarrow> checker_ok c \<and> ck_cfg c = health_withDefaults cfg"
proof (induction rule: health_reach.induct)
  case (start c)
  then show ?case by (auto simp: new_checker_def checker_ok_def split: if_splits)
next
  case (seed c ts now)
  then show ?case by (simp add: reload_ok)
next
  case (step c ev)
  then show ?case unfolding health_step_fst
    by (cases ev) (simp_all add: handle_ok schedule_ok reload_ok)
qed

subsection \<open>Properties\<close>

text \<open>
  C15: Fail fast, recover carefully. From a newly seeded edge, the verdict after any sequence
  of probe results is the one its history demands: healthy since the last streak of
  \<open>riseThreshold\<close> successes, unhealthy since the last streak of \<open>failThreshold\<close> failures,
  the seed if neither occurred; the counters are exactly the current streaks.
\<close>

theorem verdict_refines_history:
  assumes "es_fails es = 0" "es_oks es = 0"
  shows "let cfg = health_withDefaults cfg0; t = es_target es in
    es_current (feed cfg es bs) =
      verdict_of (nat (failThreshold cfg t)) (nat (riseThreshold cfg t)) (es_current es) (rev bs) \<and>
    es_oks (feed cfg es bs) = int (streak True (rev bs)) \<and> es_fails (feed cfg es bs) = int (streak False (rev bs))"
proof -
  note pos = thresholds_pos [OF health_withDefaults_ok [of cfg0], of "es_target es"]
  show ?thesis unfolding Let_def
    by (rule feed_spec) (use pos assms in simp_all)
qed

definition demo_target :: health_target where
  "demo_target = \<lparr>ht_server = 1, ht_edge = ''e1'', ht_host = ''e1.a.com'', ht_persisted = ''Healthy '',
     ht_enabled = True, ht_interval = 0, ht_fail = 0, ht_rise = 0\<rparr>"

definition demo_cfg :: health_config where
  "demo_cfg = \<lparr>hc_enabled = True, hc_interval = 0, hc_timeout = 0, hc_fail = 0, hc_rise = 0,
     hc_path = '''', hc_scheme = '''', hc_port = 0\<rparr>"

definition demo_es :: edge_state where
  "demo_es = \<lparr>es_target = demo_target, es_current = ''healthy'', es_fails = 0, es_oks = 0, es_last_probe = 0,
     es_last_latency = 0, es_last_err = '''', es_inflight = False, es_next_due = 0\<rparr>"

lemma verdict_refines_history_witness:
  "es_current (feed (health_withDefaults demo_cfg) demo_es [False, True, False, False, True, True]) = ''unhealthy''"
  using verdict_refines_history [of demo_es demo_cfg "[False, True, False, False, True, True]"]
  by (simp add: Let_def demo_es_def failThreshold_def riseThreshold_def demo_target_def demo_cfg_def
      health_withDefaults_def second_def)

text \<open>
  Reachable checkers are well formed: every entry is under its own edge id, holds one of
  the three verdicts and at most one running streak; and the callback is called by a step
  exactly when it flips the verdict of that edge, with the new verdict, so the persisted
  health and DNS are never written twice for one state.
\<close>

theorem transition_iff_change:
  assumes "health_reach cfg c"
  shows "checker_ok c \<and>
    (\<forall>res es es'. ck_state c (pr_edge res) = Some es \<and> ck_state (fst (handleResult res c)) (pr_edge res) = Some es' \<longrightarrow>
       snd (handleResult res c) = (if es_current es' = es_current es then [] else [(es_target es, es_current es' = ''healthy'')]))"
  using reach_ok [OF assms]
  by (auto simp: handleResult_def count_result_def Let_def)

definition demo_checker :: checker where
  "demo_checker = reload_targets (Inr [demo_target]) 0 \<lparr>ck_cfg = health_withDefaults demo_cfg, ck_state = Map.empty, ck_last_reload = 0\<rparr>"

lemma transition_iff_change_witness: "checker_ok demo_checker"
proof -
  have "health_reach demo_cfg demo_checker"
    unfolding demo_checker_def
    by (intro health_reach.seed health_reach.start) (simp add: new_checker_def demo_cfg_def)
  from transition_iff_change [OF this] show ?thesis by blast
qed

lemma reload_one_other: "i \<noteq> ht_edge t \<Longrightarrow> reload_one cfg now st t i = st i"
  by (simp add: reload_one_def split: option.split)

lemma reload_fold_other: "i \<notin> ht_edge ` set ts \<Longrightarrow> foldl (reload_one cfg now) st ts i = st i"
  by (induction ts arbitrary: st) (simp_all add: reload_one_other)

lemma reload_fold_mem:
  "distinct (map ht_edge ts) \<Longrightarrow> t \<in> set ts \<Longrightarrow>
   foldl (reload_one cfg now) st ts (ht_edge t) = reload_one cfg now st t (ht_edge t)"
proof (induction ts arbitrary: st)
  case (Cons u ts)
  show ?case
  proof (cases "t = u")
    case True
    then show ?thesis using Cons.prems(1) by (simp add: reload_fold_other)
  next
    case False
    then have t: "t \<in> set ts" "ht_edge t \<noteq> ht_edge u" using Cons.prems by (auto simp: image_iff)
    have "reload_one cfg now (reload_one cfg now st u) t (ht_edge t) = reload_one cfg now st t (ht_edge t)"
      using reload_one_other [OF t(2), of cfg now st] by (simp add: reload_one_def [of _ _ _ t] split: option.split)
    then show ?thesis using Cons.IH [OF _ t(1)] Cons.prems(1) by simp
  qed
qed simp

text \<open>
  Restart resilience. A reload fires no transition (it has no callback to call): it keeps
  verdict and streaks of the edges it knows, seeds new ones from the database with empty
  streaks and no probe in flight, and drops the others.
\<close>

theorem reload_keeps_verdicts:
  assumes d: "distinct (map ht_edge ts)"
  shows "let c' = reload_targets (Inr ts) now c in
    dom (ck_state c') = ht_edge ` set ts \<and>
    (\<forall>t \<in> set ts. \<exists>es'. ck_state c' (ht_edge t) = Some es' \<and> es_target es' = t \<and>
       (case ck_state c (ht_edge t) of
          Some es \<Rightarrow> es' = es\<lparr>es_target := t\<rparr>
        | None \<Rightarrow> es_current es' = normState (ht_persisted t) \<and> es_fails es' = 0 \<and> es_oks es' = 0 \<and>
            \<not> es_inflight es' \<and> es_next_due es' = now + stagger (ck_cfg c) t))"
proof -
  have at: "ck_state (reload_targets (Inr ts) now c) (ht_edge t) = reload_one (ck_cfg c) now (ck_state c) t (ht_edge t)"
    if "t \<in> set ts" for t
    using that by (simp add: reload_targets_def reload_fold_mem [OF d])
  have "dom (ck_state (reload_targets (Inr ts) now c)) = ht_edge ` set ts"
  proof (intro equalityI subsetI)
    fix i assume "i \<in> ht_edge ` set ts"
    then obtain t where t: "t \<in> set ts" "i = ht_edge t" by blast
    have "reload_one (ck_cfg c) now (ck_state c) t (ht_edge t) \<noteq> None"
      by (simp add: reload_one_def split: option.split)
    then show "i \<in> dom (ck_state (reload_targets (Inr ts) now c))" using at [OF t(1)] t(2) by auto
  qed (auto simp: reload_targets_def restrict_map_def split: if_splits)
  moreover have "\<exists>es'. ck_state (reload_targets (Inr ts) now c) (ht_edge t) = Some es' \<and> es_target es' = t \<and>
       (case ck_state c (ht_edge t) of
          Some es \<Rightarrow> es' = es\<lparr>es_target := t\<rparr>
        | None \<Rightarrow> es_current es' = normState (ht_persisted t) \<and> es_fails es' = 0 \<and> es_oks es' = 0 \<and>
            \<not> es_inflight es' \<and> es_next_due es' = now + stagger (ck_cfg c) t)" if "t \<in> set ts" for t
    unfolding at [OF that] by (simp add: reload_one_def split: option.split)
  ultimately show ?thesis by (simp add: Let_def)
qed

lemma reload_keeps_verdicts_witness:
  "dom (ck_state (reload_targets (Inr [demo_target]) 7 demo_checker)) = {''e1''}"
  using reload_keeps_verdicts [of "[demo_target]" 7 demo_checker]
  by (simp add: Let_def demo_target_def)

text \<open>
  The stagger stays within the probe interval: the first probe of an edge is due at most
  one interval after it was seen (for intervals whose seconds fit 32 bits).
\<close>

theorem stagger_bounds:
  assumes "0 < probe_interval cfg t" "probe_interval cfg t div second < 2 ^ 32 - 1"
  shows "0 \<le> stagger cfg t \<and> stagger cfg t \<le> probe_interval cfg t"
proof -
  let ?n = "probe_interval cfg t div second"
  let ?secs = "(word_of_int ?n :: 32 word) + 1"
  have n: "0 \<le> ?n" using assms(1) by (simp add: second_def)
  have u: "uint ?secs = ?n + 1"
    using n assms(2) by (simp add: uint_word_ariths uint_word_of_int)
  have "uint (fnv32a (ht_edge t) mod ?secs) = uint (fnv32a (ht_edge t)) mod (?n + 1)"
    unfolding uint_mod u ..
  then have h: "0 \<le> uint (fnv32a (ht_edge t) mod ?secs)" "uint (fnv32a (ht_edge t) mod ?secs) \<le> ?n"
    using n pos_mod_bound [of "?n + 1" "uint (fnv32a (ht_edge t))"] by simp_all
  have "?n * second \<le> probe_interval cfg t"
    by (metis div_mult_mod_eq le_add_same_cancel1 pos_mod_sign second_pos)
  moreover have "uint (fnv32a (ht_edge t) mod ?secs) * second \<le> ?n * second"
    by (rule mult_right_mono [OF h(2)]) (simp add: second_def)
  moreover have "0 \<le> uint (fnv32a (ht_edge t) mod ?secs) * second"
    using h(1) by (simp add: second_def)
  ultimately show ?thesis unfolding stagger_def Let_def by linarith
qed

lemma stagger_bounds_witness:
  "0 \<le> stagger (health_withDefaults demo_cfg) demo_target \<and>
   stagger (health_withDefaults demo_cfg) demo_target \<le> probe_interval (health_withDefaults demo_cfg) demo_target"
  by (rule stagger_bounds) (simp_all add: probe_interval_def demo_target_def demo_cfg_def health_withDefaults_def second_def)

lemma scheduled:
  assumes "checker_ok c" "t \<in> set (snd (scheduleDue now ids c))"
  obtains es where "ck_state c (ht_edge t) = Some es" "es_target es = t" "is_due now es"
  using assms that
  by (auto simp: scheduleDue_def List.map_filter_def checker_ok_def edge_ok_def split: option.splits if_splits)

text \<open>
  Probes of an edge never pile up: only enabled edges whose time has come are launched, and
  until the result of a launched probe has been handled no later tick launches another one
  for that edge, however short its interval is.
\<close>

theorem no_double_probe:
  assumes ok: "checker_ok c" and t: "t \<in> set (snd (scheduleDue now ids c))"
    and u: "u \<in> set (snd (scheduleDue now' ids' (fst (scheduleDue now ids c))))"
  shows "ht_enabled t \<and> ht_edge u \<noteq> ht_edge t"
proof -
  from scheduled [OF ok t] obtain es where es: "ck_state c (ht_edge t) = Some es" "es_target es = t" "is_due now es" .
  from scheduled [OF schedule_ok [OF ok] u] obtain es' where
    es': "ck_state (fst (scheduleDue now ids c)) (ht_edge u) = Some es'" "is_due now' es'" .
  have "ht_edge u \<noteq> ht_edge t"
  proof
    assume "ht_edge u = ht_edge t"
    then have "es_inflight es'" using es es'(1) by (auto simp: scheduleDue_def)
    then show False using es'(2) by (simp add: is_due_def)
  qed
  then show ?thesis using es(2,3) by (simp add: is_due_def)
qed

definition demo_pair :: checker where
  "demo_pair = \<lparr>ck_cfg = health_withDefaults demo_cfg,
     ck_state = [''e1'' \<mapsto> demo_es, ''e2'' \<mapsto> demo_es\<lparr>es_target := demo_target\<lparr>ht_edge := ''e2''\<rparr>, es_next_due := 5\<rparr>],
     ck_last_reload = 0\<rparr>"

lemma no_double_probe_witness:
  "ht_enabled demo_target \<and> ht_edge (demo_target\<lparr>ht_edge := ''e2''\<rparr>) \<noteq> ht_edge demo_target"
proof -
  have ok: "checker_ok demo_pair"
    by (auto simp: checker_ok_def edge_ok_def demo_pair_def demo_es_def demo_target_def)
  have t: "demo_target \<in> set (snd (scheduleDue 0 [''e1'', ''e2''] demo_pair))"
    by (simp add: scheduleDue_def List.map_filter_simps is_due_def demo_pair_def demo_es_def demo_target_def)
  have u: "demo_target\<lparr>ht_edge := ''e2''\<rparr> \<in>
      set (snd (scheduleDue second [''e1'', ''e2''] (fst (scheduleDue 0 [''e1'', ''e2''] demo_pair))))"
    by (simp add: scheduleDue_def List.map_filter_simps is_due_def demo_pair_def demo_es_def demo_target_def second_def)
  show ?thesis by (rule no_double_probe [OF ok t u])
qed

end
