(* ===== verification/Rollout.thy ===== *)
theory Rollout
  imports Prelude "HOL-Library.List_Lexorder"
begin

section \<open>Agent rollouts (store/rollouts.go, rollout/engine.go, api/rollouts.go)\<close>

text \<open>
  The engine is written against the interface \<open>EngineStore\<close>; here its six operations are the
  fields of a record over a state type \<open>'s\<close> and their contract is a locale, which the model
  of the SQL store instantiates. Every operation may fail; then it changes nothing.
\<close>

record rollout =
  ro_id :: int
  ro_version :: string
  ro_pops :: "string list"
  ro_soak :: int
  ro_status :: string
  ro_scheduled :: "instant option"
  ro_reason :: string
  ro_created_by :: string
  ro_started :: "instant option"
  ro_finished :: "instant option"

record rollout_target =
  rt_rollout :: int
  rt_edge :: string
  rt_from :: string
  rt_to :: string
  rt_state :: string
  rt_reason :: string
  rt_soak_until :: "instant option"
  rt_updated :: instant

definition in_flight :: "rollout_target \<Rightarrow> bool" where
  "in_flight t \<longleftrightarrow> rt_state t = ''in_progress'' \<or> rt_state t = ''soaking''"

definition is_active :: "string \<Rightarrow> bool" where
  "is_active st \<longleftrightarrow> st = ''scheduled'' \<or> st = ''running'' \<or> st = ''paused''"

subsection \<open>The engine\<close>

record 's engine_store =
  eng_active :: "'s \<Rightarrow> string + rollout option"
  eng_list :: "'s \<Rightarrow> int \<Rightarrow> string + rollout_target list"
  eng_open :: "'s \<Rightarrow> instant \<Rightarrow> int \<Rightarrow> string \<Rightarrow> string \<Rightarrow> 's \<times> string option"
  eng_soak :: "'s \<Rightarrow> instant \<Rightarrow> int \<Rightarrow> string \<Rightarrow> instant \<Rightarrow> 's \<times> string option"
  eng_finish :: "'s \<Rightarrow> instant \<Rightarrow> int \<Rightarrow> string \<Rightarrow> string \<Rightarrow> string \<Rightarrow> 's \<times> string option"
  eng_status :: "'s \<Rightarrow> instant \<Rightarrow> int \<Rightarrow> string \<Rightarrow> string \<Rightarrow> 's \<times> string option"

record live_edge =
  le_online :: bool
  le_version :: string
  le_healthy :: bool

definition grace :: duration where
  "grace = 120 * second"

definition stuck_reason :: string where
  "stuck_reason = ''edge did not report a healthy new version within the soak window''"

definition advance ::
  "'s engine_store \<Rightarrow> (string \<Rightarrow> live_edge) \<Rightarrow> instant \<Rightarrow> 's \<Rightarrow> rollout \<Rightarrow> rollout_target \<Rightarrow> 's \<times> string option" where
  "advance st edge now s r t =
     (let es = edge (rt_edge t);
          soak = ro_soak r * second;
          healthyOnNew = (le_online es \<and> le_version es = rt_to t \<and> le_healthy es)
      in if healthyOnNew then
           (if rt_state t = ''in_progress'' \<or> rt_soak_until t = None
            then eng_soak st s now (ro_id r) (rt_edge t) (now + soak)
            else if \<not> now < the (rt_soak_until t)
            then eng_finish st s now (ro_id r) (rt_edge t) ''done'' ''''
            else (s, None))
         else if now > rt_updated t + (soak + grace) then
           (case eng_finish st s now (ro_id r) (rt_edge t) ''failed'' stuck_reason of
              (s', Some e) \<Rightarrow> (s', Some e)
            | (s', None) \<Rightarrow> eng_status st s' now (ro_id r) ''failed'' stuck_reason)
         else (s, None))"

definition EngineTick ::
  "'s engine_store \<Rightarrow> (string \<Rightarrow> live_edge) \<Rightarrow> instant \<Rightarrow> 's \<Rightarrow> 's \<times> string option" where
  "EngineTick st edge now s =
     (case eng_active st s of
        Inl e \<Rightarrow> (s, Some e)
      | Inr None \<Rightarrow> (s, None)
      | Inr (Some r) \<Rightarrow>
          (if ro_status r = ''paused'' then (s, None)
           else if ro_status r = ''scheduled'' then
             (case ro_scheduled r of
                Some due \<Rightarrow> if \<not> now < due then eng_status st s now (ro_id r) ''running'' '''' else (s, None)
              | None \<Rightarrow> (s, None))
           else
             (case eng_list st s (ro_id r) of
                Inl e \<Rightarrow> (s, Some e)
              | Inr targets \<Rightarrow>
                  (case find in_flight targets of
                     Some t \<Rightarrow> advance st edge now s r t
                   | None \<Rightarrow>
                       (case find (\<lambda>t. rt_state t = ''queued'') targets of
                          Some t \<Rightarrow>
                            (let es = edge (rt_edge t) in
                             if \<not> le_online es
                             then eng_finish st s now (ro_id r) (rt_edge t) ''skipped'' ''edge offline at its turn''
                             else eng_open st s now (ro_id r) (rt_edge t) (le_version es))
                        | None \<Rightarrow> eng_status st s now (ro_id r) ''done'' '''')))))"

subsection \<open>The SQL store\<close>

text \<open>
  The tables \<open>rollouts\<close> (ids ascending) and \<open>rollout_targets\<close>, the statements of the store on
  them, and the partial unique index that admits one active rollout. A call that \<open>fails\<close> is a
  database error.
\<close>

record rollout_db =
  db_rollouts :: "rollout list"
  db_targets :: "rollout_target list"
  db_audit :: "(string \<times> string \<times> string) list"
  db_fails :: "string \<Rightarrow> bool"

definition active_rows :: "rollout_db \<Rightarrow> rollout list" where
  "active_rows s = filter (\<lambda>r. is_active (ro_status r)) (db_rollouts s)"

definition GetRollout :: "rollout_db \<Rightarrow> int \<Rightarrow> rollout option" where
  "GetRollout s i = (if db_fails s ''GetRollout'' then None else find (\<lambda>r. ro_id r = i) (db_rollouts s))"

definition ActiveRollout :: "rollout_db \<Rightarrow> string + rollout option" where
  "ActiveRollout s = (if db_fails s ''ActiveRollout'' then Inl ''db'' else
     Inr (if active_rows s = [] then None else Some (last (active_rows s))))"

definition ListTargets :: "rollout_db \<Rightarrow> int \<Rightarrow> string + rollout_target list" where
  "ListTargets s i = (if db_fails s ''ListTargets'' then Inl ''db''
     else Inr (sort_key rt_edge (filter (\<lambda>t. rt_rollout t = i) (db_targets s))))"

definition set_target :: "int \<Rightarrow> string \<Rightarrow> (rollout_target \<Rightarrow> rollout_target) \<Rightarrow> rollout_db \<Rightarrow> rollout_db" where
  "set_target i e f s =
     s\<lparr>db_targets := map (\<lambda>t. if rt_rollout t = i \<and> rt_edge t = e then f t else t) (db_targets s)\<rparr>"

definition OpenTarget :: "rollout_db \<Rightarrow> instant \<Rightarrow> int \<Rightarrow> string \<Rightarrow> string \<Rightarrow> rollout_db \<times> string option" where
  "OpenTarget s now i e v = (if db_fails s ''OpenTarget'' then (s, Some ''db'')
     else (set_target i e (\<lambda>t. t\<lparr>rt_state := ''in_progress'', rt_from := v, rt_soak_until := None, rt_updated := now\<rparr>) s, None))"

definition StartSoak :: "rollout_db \<Rightarrow> instant \<Rightarrow> int \<Rightarrow> string \<Rightarrow> instant \<Rightarrow> rollout_db \<times> string option" where
  "StartSoak s now i e till = (if db_fails s ''StartSoak'' then (s, Some ''db'')
     else (set_target i e (\<lambda>t. t\<lparr>rt_state := ''soaking'', rt_soak_until := Some till, rt_updated := now\<rparr>) s, None))"

definition FinishTarget :: "rollout_db \<Rightarrow> instant \<Rightarrow> int \<Rightarrow> string \<Rightarrow> string \<Rightarrow> string \<Rightarrow> rollout_db \<times> string option" where
  "FinishTarget s now i e st reason = (if db_fails s ''FinishTarget'' then (s, Some ''db'')
     else (set_target i e (\<lambda>t. t\<lparr>rt_state := st, rt_reason := reason, rt_updated := now\<rparr>) s, None))"

definition SetRolloutStatus :: "rollout_db \<Rightarrow> instant \<Rightarrow> int \<Rightarrow> string \<Rightarrow> string \<Rightarrow> rollout_db \<times> string option" where
  "SetRolloutStatus s now i st reason =
     (if db_fails s ''SetRolloutStatus'' then (s, Some ''db'')
      else if is_active st \<and> (\<exists>r \<in> set (active_rows s). ro_id r \<noteq> i) then (s, Some ''one_active_rollout'')
      else
        (let terminal = (st = ''done'' \<or> st = ''failed'' \<or> st = ''cancelled'') in
         (s\<lparr>db_rollouts := map (\<lambda>r. if ro_id r = i then r\<lparr>ro_status := st,
              ro_reason := (if reason = '''' then ro_reason r else reason),
              ro_started := (case ro_started r of Some t \<Rightarrow> Some t
                             | None \<Rightarrow> if st = ''running'' then Some now else None),
              ro_finished := (if terminal then Some now else ro_finished r)\<rparr> else r) (db_rollouts s)\<rparr>, None)))"

definition CreateRollout ::
  "rollout_db \<Rightarrow> instant \<Rightarrow> string \<Rightarrow> string list \<Rightarrow> int \<Rightarrow> instant option \<Rightarrow> string \<Rightarrow> (string \<Rightarrow> string) \<Rightarrow>
   rollout_db \<times> (string + int)" where
  "CreateRollout s now version pops soak0 scheduled by from =
     (let soak = (if soak0 \<le> 0 then 90 else soak0);
          st = (if scheduled \<noteq> None then ''scheduled'' else ''running'');
          started = (if scheduled \<noteq> None then None else Some now);
          i = int (length (db_rollouts s)) + 1
      in if db_fails s ''CreateRollout'' then (s, Inl ''db'')
         else if active_rows s \<noteq> [] then (s, Inl ''one_active_rollout'')
         else if \<not> distinct pops then (s, Inl ''rollout_targets_pkey'')
         else
           (s\<lparr>db_rollouts := db_rollouts s @ [\<lparr>ro_id = i, ro_version = version, ro_pops = pops, ro_soak = soak,
                ro_status = st, ro_scheduled = scheduled, ro_reason = '''', ro_created_by = by,
                ro_started = started, ro_finished = None\<rparr>],
              db_targets := db_targets s @ map (\<lambda>e. \<lparr>rt_rollout = i, rt_edge = e, rt_from = from e, rt_to = version,
                rt_state = ''queued'', rt_reason = '''', rt_soak_until = None, rt_updated = now\<rparr>) pops\<rparr>,
            Inr i))"

definition WriteAudit :: "rollout_db \<Rightarrow> string \<Rightarrow> string \<Rightarrow> string \<Rightarrow> rollout_db" where
  "WriteAudit s actor action subject =
     (if db_fails s ''WriteAudit'' then s else s\<lparr>db_audit := db_audit s @ [(actor, action, subject)]\<rparr>)"

definition sql_store :: "rollout_db engine_store" where
  "sql_store = \<lparr>eng_active = ActiveRollout, eng_list = ListTargets, eng_open = OpenTarget, eng_soak = StartSoak,
     eng_finish = FinishTarget, eng_status = SetRolloutStatus\<rparr>"

subsection \<open>The API handlers\<close>

text \<open>The result of a handler is the HTTP status; \<open>releases\<close> tells which versions exist.\<close>

definition startRollout ::
  "(string \<Rightarrow> bool) \<Rightarrow> (string \<Rightarrow> string) \<Rightarrow> instant \<Rightarrow> string \<Rightarrow> string \<Rightarrow> string list \<Rightarrow> int \<Rightarrow> instant option \<Rightarrow>
   rollout_db \<Rightarrow> rollout_db \<times> int" where
  "startRollout releases from now actor version pops soak scheduled s =
     (if version = '''' \<or> pops = [] then (s, 400)
      else if \<not> releases version then (s, 400)
      else if (case ActiveRollout s of Inr (Some r) \<Rightarrow> True | _ \<Rightarrow> False) then (s, 409)
      else (case CreateRollout s now version pops soak scheduled '''' from of
              (s', Inl e) \<Rightarrow> (s', 409)
            | (s', Inr i) \<Rightarrow> (WriteAudit s' actor ''rollout.start'' version, 201)))"

definition setRolloutStatus ::
  "instant \<Rightarrow> string \<Rightarrow> int \<Rightarrow> string \<Rightarrow> string \<Rightarrow> rollout_db \<Rightarrow> rollout_db \<times> int" where
  "setRolloutStatus now actor i to requireFrom s =
     (case GetRollout s i of
        None \<Rightarrow> (s, 404)
      | Some r \<Rightarrow>
          (if requireFrom \<noteq> '''' \<and> ro_status r \<noteq> requireFrom then (s, 409)
           else (case SetRolloutStatus s now i to '''' of
                   (s', Some e) \<Rightarrow> (s', 500)
                 | (s', None) \<Rightarrow> (WriteAudit s' actor (''rollout.'' @ to) (show_int i), 200))))"

definition pauseRollout :: "instant \<Rightarrow> string \<Rightarrow> int \<Rightarrow> rollout_db \<Rightarrow> rollout_db \<times> int" where
  "pauseRollout now actor i = setRolloutStatus now actor i ''paused'' ''running''"

definition resumeRollout :: "instant \<Rightarrow> string \<Rightarrow> int \<Rightarrow> rollout_db \<Rightarrow> rollout_db \<times> int" where
  "resumeRollout now actor i = setRolloutStatus now actor i ''running'' ''paused''"

definition cancelRollout :: "instant \<Rightarrow> string \<Rightarrow> int \<Rightarrow> rollout_db \<Rightarrow> rollout_db \<times> int" where
  "cancelRollout now actor i = setRolloutStatus now actor i ''cancelled'' ''''"

definition rollback_version :: "string \<Rightarrow> string + rollout_target list \<Rightarrow> string" where
  "rollback_version asked targets =
     (if asked \<noteq> '''' then asked
      else (case targets of Inl e \<Rightarrow> ''''
            | Inr ts \<Rightarrow> (case find (\<lambda>t. rt_from t \<noteq> '''') ts of Some t \<Rightarrow> rt_from t | None \<Rightarrow> '''')))"

definition rollbackRollout ::
  "(string \<Rightarrow> bool) \<Rightarrow> (string \<Rightarrow> string) \<Rightarrow> instant \<Rightarrow> string \<Rightarrow> int \<Rightarrow> string \<Rightarrow> rollout_db \<Rightarrow> rollout_db \<times> int" where
  "rollbackRollout releases from now actor i asked s =
     (case GetRollout s i of
        None \<Rightarrow> (s, 404)
      | Some r \<Rightarrow>
          (let to = rollback_version asked (ListTargets s i) in
           if to = '''' then (s, 400)
           else if \<not> releases to then (s, 400)
           else
             (let s1 = (if ro_status r = ''running'' \<or> ro_status r = ''paused'' \<or> ro_status r = ''scheduled''
                        then fst (SetRolloutStatus s now i ''cancelled'' ''rolled back'') else s)
              in case CreateRollout s1 now to (ro_pops r) (ro_soak r) None '''' from of
                   (s2, Inl e) \<Rightarrow> (s2, 409)
                 | (s2, Inr j) \<Rightarrow> (WriteAudit s2 actor ''rollout.rollback'' to, 201))))"

text \<open>What an edge is told to run: \<open>None\<close> is its current version.\<close>

definition agentRelease :: "(string \<Rightarrow> 'm option) \<Rightarrow> rollout_db \<Rightarrow> string \<Rightarrow> (string \<times> 'm) option" where
  "agentRelease meta s e =
     (case ActiveRollout s of
        Inr (Some r) \<Rightarrow>
          (if ro_status r \<noteq> ''running'' then None
           else (case ListTargets s (ro_id r) of
                   Inl _ \<Rightarrow> None
                 | Inr ts \<Rightarrow>
                     (case find (\<lambda>t. rt_edge t = e \<and> in_flight t) ts of
                        None \<Rightarrow> None
                      | Some t \<Rightarrow> (case meta (rt_to t) of None \<Rightarrow> None | Some m \<Rightarrow> Some (rt_to t, m)))))
      | _ \<Rightarrow> None)"

subsection \<open>The contract of the store and what the engine makes of it\<close>

text \<open>
  The engine sees the store through the state of each (rollout, edge) pair. The contract: a
  listing shows exactly these states; a write sets the state of one pair and a status change
  none; a failed call changes nothing.
\<close>

definition set_pair :: "(int \<Rightarrow> string \<Rightarrow> string option) \<Rightarrow> int \<Rightarrow> string \<Rightarrow> string \<Rightarrow> (int \<Rightarrow> string \<Rightarrow> string option)" where
  "set_pair ts i e x = (\<lambda>j f. if j = i \<and> f = e then map_option (\<lambda>_. x) (ts j f) else ts j f)"

locale rollout_store =
  fixes st :: "'s engine_store"
    and wf :: "'s \<Rightarrow> bool"
    and tstate :: "'s \<Rightarrow> int \<Rightarrow> string \<Rightarrow> string option"
  assumes list_law: "wf s \<Longrightarrow> eng_list st s i = Inr ts \<Longrightarrow>
      (tstate s i e = Some x) \<longleftrightarrow> (\<exists>t \<in> set ts. rt_edge t = e \<and> rt_state t = x)"
    and open_law: "wf s \<Longrightarrow> eng_open st s now i e v = (s', err) \<Longrightarrow>
      wf s' \<and> tstate s' = (if err = None then set_pair (tstate s) i e ''in_progress'' else tstate s)"
    and soak_law: "wf s \<Longrightarrow> eng_soak st s now i e till = (s', err) \<Longrightarrow>
      wf s' \<and> tstate s' = (if err = None then set_pair (tstate s) i e ''soaking'' else tstate s)"
    and finish_law: "wf s \<Longrightarrow> eng_finish st s now i e x reason = (s', err) \<Longrightarrow>
      wf s' \<and> tstate s' = (if err = None then set_pair (tstate s) i e x else tstate s)"
    and status_law: "wf s \<Longrightarrow> eng_status st s now i x reason = (s', err) \<Longrightarrow> wf s' \<and> tstate s' = tstate s"
begin

definition flying :: "'s \<Rightarrow> int \<Rightarrow> string \<Rightarrow> bool" where
  "flying s i e \<longleftrightarrow> tstate s i e = Some ''in_progress'' \<or> tstate s i e = Some ''soaking''"

definition one_wave :: "'s \<Rightarrow> bool" where
  "one_wave s \<longleftrightarrow> (\<forall>i e f. flying s i e \<and> flying s i f \<longrightarrow> e = f)"

lemma flying_listed:
  assumes "wf s" "eng_list st s i = Inr ts"
  shows "flying s i e \<longleftrightarrow> (\<exists>t \<in> set ts. rt_edge t = e \<and> in_flight t)"
  using list_law [OF assms] by (auto simp: flying_def in_flight_def)

lemma one_wave_set:
  assumes "one_wave s" "tstate s' = set_pair (tstate s) i e x" and "\<And>f. flying s i f \<Longrightarrow> f = e"
  shows "one_wave s'"
  using assms by (fastforce simp: one_wave_def flying_def set_pair_def split: if_splits)

lemma one_wave_same: "one_wave s \<Longrightarrow> tstate s' = tstate s \<Longrightarrow> one_wave s'"
  by (simp add: one_wave_def flying_def)

lemma one_wave_write:
  assumes "one_wave s" "tstate s' = (if err = None then set_pair (tstate s) i e x else tstate s)"
    and "\<And>f. flying s i f \<Longrightarrow> f = e"
  shows "one_wave s'"
  using assms one_wave_set [of s s' i e x] one_wave_same [of s s'] by (auto split: if_splits)

lemma finish_one_wave:
  assumes "wf s" "one_wave s" "\<And>f. flying s i f \<Longrightarrow> f = e"
  shows "wf (fst (eng_finish st s now i e x y)) \<and> one_wave (fst (eng_finish st s now i e x y))"
proof -
  obtain s' err where r: "eng_finish st s now i e x y = (s', err)" by (rule prod.exhaust)
  note l = finish_law [OF assms(1) r]
  show ?thesis using conjunct1 [OF l] one_wave_write [OF assms(2) conjunct2 [OF l] assms(3)] by (simp add: r)
qed

lemma open_one_wave:
  assumes "wf s" "one_wave s" "\<And>f. flying s i f \<Longrightarrow> f = e"
  shows "wf (fst (eng_open st s now i e v)) \<and> one_wave (fst (eng_open st s now i e v))"
proof -
  obtain s' err where r: "eng_open st s now i e v = (s', err)" by (rule prod.exhaust)
  note l = open_law [OF assms(1) r]
  show ?thesis using conjunct1 [OF l] one_wave_write [OF assms(2) conjunct2 [OF l] assms(3)] by (simp add: r)
qed

lemma status_one_wave:
  assumes "wf s" "one_wave s"
  shows "wf (fst (eng_status st s now i x y)) \<and> one_wave (fst (eng_status st s now i x y))"
proof -
  obtain s' err where r: "eng_status st s now i x y = (s', err)" by (rule prod.exhaust)
  show ?thesis using status_law [OF assms(1) r] one_wave_same [OF assms(2)] by (simp add: r)
qed

lemma advance_one_wave:
  assumes w: "wf s" "one_wave s" and only: "\<And>f. flying s (ro_id r) f \<Longrightarrow> f = rt_edge t"
  shows "wf (fst (advance st edge now s r t)) \<and> one_wave (fst (advance st edge now s r t))"
proof -
  obtain s1 e1 where soak: "eng_soak st s now (ro_id r) (rt_edge t) (now + ro_soak r * second) = (s1, e1)"
    by (rule prod.exhaust)
  obtain s2 e2 where fin: "eng_finish st s now (ro_id r) (rt_edge t) ''done'' '''' = (s2, e2)"
    by (rule prod.exhaust)
  obtain s3 e3 where fail: "eng_finish st s now (ro_id r) (rt_edge t) ''failed'' stuck_reason = (s3, e3)"
    by (rule prod.exhaust)
  obtain s4 e4 where stat: "eng_status st s3 now (ro_id r) ''failed'' stuck_reason = (s4, e4)"
    by (rule prod.exhaust)
  have 1: "wf s1 \<and> one_wave s1" using soak_law [OF w(1) soak] one_wave_write [OF w(2) _ only] by blast
  have 2: "wf s2 \<and> one_wave s2" using finish_law [OF w(1) fin] one_wave_write [OF w(2) _ only] by blast
  have 3: "wf s3 \<and> one_wave s3" using finish_law [OF w(1) fail] one_wave_write [OF w(2) _ only] by blast
  have 4: "wf s4 \<and> one_wave s4" using status_law [of s3, OF _ stat] one_wave_same [of s3 s4] 3 by blast
  show ?thesis
    using w 1 2 3 4 by (auto simp: advance_def Let_def soak fin fail stat split: option.split)
qed

lemma tick_one_wave:
  assumes w: "wf s" "one_wave s"
  shows "wf (fst (EngineTick st edge now s)) \<and> one_wave (fst (EngineTick st edge now s))"
proof (cases "eng_active st s")
  case (Inr a)
  show ?thesis
  proof (cases a)
    case (Some r)
    note status = status_one_wave [OF w]
    show ?thesis
    proof (cases "ro_status r = ''paused'' \<or> ro_status r = ''scheduled''")
      case True
      then show ?thesis using w status by (auto simp: EngineTick_def Inr Some split: option.split)
    next
      case False
      show ?thesis
      proof (cases "eng_list st s (ro_id r)")
        case (Inl e)
        then show ?thesis using w False by (simp add: EngineTick_def Inr Some)
      next
        case ts: (Inr ts)
        note fl = flying_listed [OF w(1) ts]
        show ?thesis
        proof (cases "find in_flight ts")
          case t: (Some t)
          then have "t \<in> set ts" "in_flight t" by (auto simp: find_Some_iff)
          then have "flying s (ro_id r) (rt_edge t)" using fl by blast
          then have only: "\<And>f. flying s (ro_id r) f \<Longrightarrow> f = rt_edge t" using w(2) unfolding one_wave_def by blast
          show ?thesis using advance_one_wave [OF w only] False by (simp add: EngineTick_def Inr Some ts t)
        next
          case None
          then have none: "\<And>f e. flying s (ro_id r) f \<Longrightarrow> f = e" using fl by (auto simp: find_None_iff)
          note fin = finish_one_wave [OF w none]
          note opn = open_one_wave [OF w none]
          show ?thesis using status fin opn False
            by (auto simp: EngineTick_def Inr Some ts None Let_def split: option.split)
        qed
      qed
    qed
  qed (use w Inr in \<open>simp add: EngineTick_def\<close>)
qed (use w in \<open>simp add: EngineTick_def\<close>)

end

subsection \<open>The SQL store keeps the contract\<close>

definition key_of :: "rollout_target \<Rightarrow> int \<times> string" where
  "key_of t = (rt_rollout t, rt_edge t)"

definition db_state :: "rollout_db \<Rightarrow> int \<Rightarrow> string \<Rightarrow> string option" where
  "db_state s i e = map_option rt_state (find (\<lambda>t. key_of t = (i, e)) (db_targets s))"

definition db_wf :: "rollout_db \<Rightarrow> bool" where
  "db_wf s \<longleftrightarrow> distinct (map key_of (db_targets s)) \<and>
     map ro_id (db_rollouts s) = map int [1..<length (db_rollouts s) + 1] \<and>
     length (active_rows s) \<le> 1 \<and>
     (\<forall>k \<in> set (map key_of (db_targets s)). fst k \<le> int (length (db_rollouts s)))"

lemma find_keyed:
  assumes "distinct (map g xs)" "t \<in> set xs"
  shows "find (\<lambda>u. g u = g t) xs = Some t"
  using assms by (induction xs) (auto simp: image_iff)

lemma db_state_Some:
  assumes "distinct (map key_of (db_targets s))"
  shows "db_state s i e = Some x \<longleftrightarrow> (\<exists>t \<in> set (db_targets s). key_of t = (i, e) \<and> rt_state t = x)"
proof
  assume "db_state s i e = Some x"
  then obtain t where "find (\<lambda>t. key_of t = (i, e)) (db_targets s) = Some t" "rt_state t = x"
    by (auto simp: db_state_def)
  then show "\<exists>t \<in> set (db_targets s). key_of t = (i, e) \<and> rt_state t = x" by (auto simp: find_Some_iff)
next
  assume "\<exists>t \<in> set (db_targets s). key_of t = (i, e) \<and> rt_state t = x"
  then obtain t where t: "t \<in> set (db_targets s)" "key_of t = (i, e)" "rt_state t = x" by blast
  show "db_state s i e = Some x" using find_keyed [OF assms t(1)] t(2,3) by (simp add: db_state_def)
qed

text \<open>An update of one row, whatever else of the row it changes.\<close>

definition row_update :: "string \<Rightarrow> (rollout_target \<Rightarrow> rollout_target) \<Rightarrow> bool" where
  "row_update x f \<longleftrightarrow> (\<forall>t. key_of (f t) = key_of t \<and> rt_state (f t) = x)"

lemma set_target_rows:
  assumes "row_update x f"
  shows "map key_of (db_targets (set_target i e f s)) = map key_of (db_targets s)"
    and "db_state (set_target i e f s) = set_pair (db_state s) i e x"
proof -
  let ?g = "\<lambda>t. if rt_rollout t = i \<and> rt_edge t = e then f t else t"
  have k: "key_of (?g t) = key_of t" for t using assms by (simp add: row_update_def)
  show "map key_of (db_targets (set_target i e f s)) = map key_of (db_targets s)"
    using k by (simp add: set_target_def)
  have "find (\<lambda>t. key_of t = (j, h)) (map ?g xs) = map_option ?g (find (\<lambda>t. key_of t = (j, h)) xs)" for j h xs
    using k by (induction xs) auto
  moreover have "rt_state (?g t) = (if key_of t = (i, e) then x else rt_state t)" for t
    using assms by (simp add: row_update_def key_of_def)
  ultimately show "db_state (set_target i e f s) = set_pair (db_state s) i e x"
    by (intro ext) (auto simp: db_state_def set_pair_def set_target_def option.map_comp find_Some_iff
        intro!: option.map_cong)
qed

lemma set_target_wf: "row_update x f \<Longrightarrow> db_wf (set_target i e f s) = db_wf s"
proof -
  assume f: "row_update x f"
  let ?s' = "set_target i e f s"
  have rows: "db_rollouts ?s' = db_rollouts s" "active_rows ?s' = active_rows s"
    by (simp_all add: set_target_def active_rows_def)
  show ?thesis unfolding db_wf_def rows set_target_rows(1) [OF f] ..
qed

lemma list_targets_law:
  assumes w: "db_wf s" and l: "ListTargets s i = Inr ts"
  shows "db_state s i e = Some x \<longleftrightarrow> (\<exists>t \<in> set ts. rt_edge t = e \<and> rt_state t = x)"
proof -
  have "set ts = {t \<in> set (db_targets s). rt_rollout t = i}"
    using l by (auto simp: ListTargets_def split: if_splits)
  then show ?thesis using w by (auto simp: db_state_Some db_wf_def key_of_def)
qed

lemma one_active_update:
  assumes d: "distinct (map ro_id rs)" and one: "length (filter (\<lambda>r. is_active (ro_status r)) rs) \<le> 1"
    and f: "\<And>r :: rollout. ro_id (f r) = ro_id r" "\<And>r. ro_status (f r) = (if ro_id r = i then x else ro_status r)"
    and free: "is_active x \<longrightarrow> (\<forall>r \<in> set rs. is_active (ro_status r) \<longrightarrow> ro_id r = i)"
  shows "length (filter (\<lambda>r. is_active (ro_status r)) (map f rs)) \<le> 1"
proof -
  have eq: "length (filter (\<lambda>r. is_active (ro_status r)) (map f rs)) =
      length (map ro_id (filter (\<lambda>r. is_active (ro_status (f r))) rs))"
    by (simp add: filter_map comp_def)
  show ?thesis
  proof (cases "is_active x")
    case True
    have "set (map ro_id (filter (\<lambda>r. is_active (ro_status (f r))) rs)) \<subseteq> {i}"
    proof
      fix j assume "j \<in> set (map ro_id (filter (\<lambda>r. is_active (ro_status (f r))) rs))"
      then obtain r where r: "r \<in> set rs" "is_active (ro_status (f r))" "j = ro_id r" by auto
      show "j \<in> {i}"
      proof (cases "ro_id r = i")
        case False
        then have "is_active (ro_status r)" using r(2) f(2) [of r] by simp
        then show ?thesis using free True r(1,3) by blast
      qed (use r(3) in simp)
    qed
    then show ?thesis unfolding eq by (rule distinct_singleton [OF distinct_map_filter [OF d]])
  next
    case False
    have "length (filter (\<lambda>r. is_active (ro_status (f r))) ys) \<le> length (filter (\<lambda>r. is_active (ro_status r)) ys)" for ys
      using False f(2) by (induction ys) auto
    from le_trans [OF this one] show ?thesis unfolding eq by simp
  qed
qed

lemma set_status_rows:
  assumes "\<not> db_fails s ''SetRolloutStatus''" "\<not> (is_active x \<and> (\<exists>r \<in> set (active_rows s). ro_id r \<noteq> i))"
  obtains f :: "rollout \<Rightarrow> rollout" where "\<And>r. ro_id (f r) = ro_id r"
    "\<And>r. ro_status (f r) = (if ro_id r = i then x else ro_status r)"
    "fst (SetRolloutStatus s now i x reason) = s\<lparr>db_rollouts := map f (db_rollouts s)\<rparr>"
proof -
  define f :: "rollout \<Rightarrow> rollout" where "f = (\<lambda>r. if ro_id r = i then r\<lparr>ro_status := x,
              ro_reason := (if reason = '''' then ro_reason r else reason),
              ro_started := (case ro_started r of Some t \<Rightarrow> Some t
                             | None \<Rightarrow> if x = ''running'' then Some now else None),
              ro_finished := (if x = ''done'' \<or> x = ''failed'' \<or> x = ''cancelled'' then Some now else ro_finished r)\<rparr> else r)"
  have "SetRolloutStatus s now i x reason = (s\<lparr>db_rollouts := map f (db_rollouts s)\<rparr>, None)"
    unfolding SetRolloutStatus_def Let_def f_def if_not_P [OF assms(1)] if_not_P [OF assms(2)] ..
  then show thesis by (intro that [of f]) (simp_all add: f_def)
qed

lemma status_wf:
  assumes w: "db_wf s" and r: "SetRolloutStatus s now i x reason = (s', err)"
  shows "db_wf s' \<and> db_state s' = db_state s"
proof (cases "db_fails s ''SetRolloutStatus'' \<or> (is_active x \<and> (\<exists>r \<in> set (active_rows s). ro_id r \<noteq> i))")
  case True
  then have "s' = s" using r by (auto simp: SetRolloutStatus_def split: if_splits)
  then show ?thesis using w by simp
next
  case False
  obtain f where f: "\<And>r. ro_id (f r) = ro_id r" "\<And>r. ro_status (f r) = (if ro_id r = i then x else ro_status r)"
    and "fst (SetRolloutStatus s now i x reason) = s\<lparr>db_rollouts := map f (db_rollouts s)\<rparr>"
    using set_status_rows [of s x i now reason] False by blast
  then have s': "s' = s\<lparr>db_rollouts := map f (db_rollouts s)\<rparr>" using r by simp
  have ids: "map ro_id (db_rollouts s) = map int [1..<length (db_rollouts s) + 1]" using w unfolding db_wf_def by blast
  have d: "distinct (map ro_id (db_rollouts s))" unfolding ids by (simp add: distinct_map)
  have one: "length (filter (\<lambda>r. is_active (ro_status r)) (db_rollouts s)) \<le> 1"
    using w unfolding db_wf_def active_rows_def by blast
  have free: "is_active x \<longrightarrow> (\<forall>r \<in> set (db_rollouts s). is_active (ro_status r) \<longrightarrow> ro_id r = i)"
    using False by (auto simp: active_rows_def)
  have same: "db_targets s' = db_targets s" "db_rollouts s' = map f (db_rollouts s)"
    "active_rows s' = filter (\<lambda>r. is_active (ro_status r)) (map f (db_rollouts s))"
    by (simp_all add: s' active_rows_def)
  have "map ro_id (map f (db_rollouts s)) = map ro_id (db_rollouts s)" using f(1) by simp
  then have "db_wf s'"
    using w one_active_update [OF d one f free] unfolding db_wf_def same length_map by simp
  moreover have "db_state s' = db_state s" by (intro ext) (simp add: db_state_def same)
  ultimately show ?thesis ..
qed

interpretation sql: rollout_store sql_store db_wf db_state
proof
  fix s s' :: rollout_db and i :: int and e x v reason :: string and ts and now till :: instant and err :: "string option"
  assume w: "db_wf s"
  show "(db_state s i e = Some x) = (\<exists>t \<in> set ts. rt_edge t = e \<and> rt_state t = x)"
    if "eng_list sql_store s i = Inr ts"
    by (rule list_targets_law [OF w]) (use that in \<open>simp add: sql_store_def\<close>)
  have upd: "db_wf s' \<and> db_state s' = (if err = None then set_pair (db_state s) i e y else db_state s)"
    if "(s', err) = (if b then (s, Some d) else (set_target i e f s, None))" "row_update y f" for b d f y
    using that set_target_wf [OF that(2)] set_target_rows(2) [OF that(2)] w by (auto split: if_splits)
  show "db_wf s' \<and> db_state s' = (if err = None then set_pair (db_state s) i e ''in_progress'' else db_state s)"
    if "eng_open sql_store s now i e v = (s', err)"
    by (rule upd [OF that [unfolded sql_store_def engine_store.simps OpenTarget_def, symmetric]])
       (simp add: row_update_def key_of_def)
  show "db_wf s' \<and> db_state s' = (if err = None then set_pair (db_state s) i e ''soaking'' else db_state s)"
    if "eng_soak sql_store s now i e till = (s', err)"
    by (rule upd [OF that [unfolded sql_store_def engine_store.simps StartSoak_def, symmetric]])
       (simp add: row_update_def key_of_def)
  show "db_wf s' \<and> db_state s' = (if err = None then set_pair (db_state s) i e x else db_state s)"
    if "eng_finish sql_store s now i e x reason = (s', err)"
    by (rule upd [OF that [unfolded sql_store_def engine_store.simps FinishTarget_def, symmetric]])
       (simp add: row_update_def key_of_def)
  show "db_wf s' \<and> db_state s' = db_state s" if "eng_status sql_store s now i x reason = (s', err)"
    by (rule status_wf [OF w]) (use that in \<open>simp add: sql_store_def\<close>)
qed

subsection \<open>Reachable databases\<close>

definition empty_db :: rollout_db where
  "empty_db = \<lparr>db_rollouts = [], db_targets = [], db_audit = [], db_fails = (\<lambda>_. False)\<rparr>"

inductive rollout_reach :: "rollout_db \<Rightarrow> bool" where
  init: "rollout_reach empty_db"
| faults: "rollout_reach s \<Longrightarrow> rollout_reach (s\<lparr>db_fails := f\<rparr>)"
| start: "rollout_reach s \<Longrightarrow> rollout_reach (fst (startRollout rel from now actor v pops soak sched s))"
| pause: "rollout_reach s \<Longrightarrow> rollout_reach (fst (pauseRollout now actor i s))"
| resume: "rollout_reach s \<Longrightarrow> rollout_reach (fst (resumeRollout now actor i s))"
| cancel: "rollout_reach s \<Longrightarrow> rollout_reach (fst (cancelRollout now actor i s))"
| rollback: "rollout_reach s \<Longrightarrow> rollout_reach (fst (rollbackRollout rel from now actor i v s))"
| tick: "rollout_reach s \<Longrightarrow> rollout_reach (fst (EngineTick sql_store edge now s))"

definition db_ok :: "rollout_db \<Rightarrow> bool" where
  "db_ok s \<longleftrightarrow> db_wf s \<and> sql.one_wave s"

lemma db_ok_same:
  assumes "db_ok s" "db_targets s' = db_targets s" "db_rollouts s' = db_rollouts s"
  shows "db_ok s'"
proof -
  have "db_state s' = db_state s" by (intro ext) (simp add: db_state_def assms)
  moreover have "db_wf s' = db_wf s" by (simp add: db_wf_def active_rows_def assms)
  ultimately show ?thesis using assms(1) sql.one_wave_same [of s s'] by (simp add: db_ok_def)
qed

lemma audit_ok: "db_ok s \<Longrightarrow> db_ok (WriteAudit s a b c)"
  by (erule db_ok_same) (simp_all add: WriteAudit_def)

lemma set_status_ok: "db_ok s \<Longrightarrow> db_ok (fst (SetRolloutStatus s now i x reason))"
  using sql.status_one_wave [of s now i x reason] by (simp add: db_ok_def sql_store_def)

lemma handler_ok: "db_ok s \<Longrightarrow> db_ok (fst (setRolloutStatus now actor i to from s))"
  using set_status_ok [of s now i to "''''"] audit_ok
  by (auto simp: setRolloutStatus_def split: option.split prod.split)

lemma create_ok:
  assumes ok: "db_ok s"
  shows "db_ok (fst (CreateRollout s now v pops soak sched by from))"
proof (cases "db_fails s ''CreateRollout'' \<or> active_rows s \<noteq> [] \<or> \<not> distinct pops")
  case True
  then show ?thesis using ok by (auto simp: CreateRollout_def Let_def)
next
  case False
  let ?n = "int (length (db_rollouts s)) + 1"
  obtain s' where s': "s' = fst (CreateRollout s now v pops soak sched by from)" by blast
  obtain r where r: "db_rollouts s' = db_rollouts s @ [r]" "ro_id r = ?n"
    using False by (auto simp: s' CreateRollout_def Let_def)
  define f where "f = (\<lambda>e. \<lparr>rt_rollout = ?n, rt_edge = e, rt_from = from e, rt_to = v,
      rt_state = ''queued'', rt_reason = '''', rt_soak_until = None, rt_updated = now\<rparr>)"
  have f: "db_targets s' = db_targets s @ map f pops" "\<And>e. key_of (f e) = (?n, e)" "\<And>e. rt_state (f e) = ''queued''"
    using False by (auto simp: s' CreateRollout_def Let_def key_of_def f_def)
  have w: "distinct (map key_of (db_targets s))" "map ro_id (db_rollouts s) = map int [1..<length (db_rollouts s) + 1]"
    "\<forall>k \<in> set (map key_of (db_targets s)). fst k \<le> int (length (db_rollouts s))"
    and one: "sql.one_wave s" using ok unfolding db_ok_def db_wf_def by blast+
  have keys: "map key_of (db_targets s') = map key_of (db_targets s) @ map (\<lambda>e. (?n, e)) pops"
    unfolding f by (simp add: f(2))
  have dis: "distinct (map key_of (db_targets s'))"
  proof -
    have "(?n, e) \<notin> set (map key_of (db_targets s))" for e using w(3) by fastforce
    moreover have "distinct (map (\<lambda>e. (?n, e)) pops)" using False by (simp add: distinct_map inj_on_def)
    ultimately show ?thesis unfolding keys distinct_append using w(1) by auto
  qed
  have "db_wf s'"
    unfolding db_wf_def
  proof (intro conjI)
    show "map ro_id (db_rollouts s') = map int [1..<length (db_rollouts s') + 1]"
      unfolding r(1) using w(2) r(2) by simp
    have "active_rows s' = filter (\<lambda>r. is_active (ro_status r)) [r]"
      using False r(1) by (simp add: active_rows_def)
    then show "length (active_rows s') \<le> 1" by simp
    show "\<forall>k \<in> set (map key_of (db_targets s')). fst k \<le> int (length (db_rollouts s'))"
      unfolding keys using w(3) r(1) by auto
  qed (rule dis)
  moreover have "sql.one_wave s'"
  proof -
    have "sql.flying s i e" if "sql.flying s' i e" for i e
    proof -
      from that obtain t where "t \<in> set (db_targets s')" "key_of t = (i, e)" "in_flight t"
        by (auto simp: sql.flying_def db_state_Some [OF dis] in_flight_def)
      then have "t \<in> set (db_targets s)" "key_of t = (i, e)" "in_flight t"
        using f(3) by (auto simp: f(1) in_flight_def)
      then show ?thesis by (auto simp: sql.flying_def db_state_Some [OF w(1)] in_flight_def)
    qed
    then show ?thesis using one unfolding sql.one_wave_def by blast
  qed
  ultimately show ?thesis by (simp add: db_ok_def s')
qed

lemma start_ok: "db_ok s \<Longrightarrow> db_ok (fst (startRollout rel from now actor v pops soak sched s))"
  using create_ok [of s now v pops soak sched "''''" "from"] audit_ok
  by (auto simp: startRollout_def split: prod.split sum.split)

lemma rollback_ok:
  assumes ok: "db_ok s"
  shows "db_ok (fst (rollbackRollout rel from now actor i v s))"
proof -
  have "db_ok (fst (case CreateRollout s1 now v (ro_pops r) (ro_soak r) None '''' from of
        (s2, Inl e) \<Rightarrow> (s2, 409) | (s2, Inr j) \<Rightarrow> (WriteAudit s2 actor x v, 201 :: int)))"
    if "db_ok s1" for s1 r v x
    using create_ok [OF that, of now v "ro_pops r" "ro_soak r" None "''''" "from"] audit_ok
    by (auto split: prod.split sum.split)
  then show ?thesis using ok set_status_ok [OF ok]
    by (auto simp: rollbackRollout_def Let_def split: option.split)
qed

lemma reach_db_ok: "rollout_reach s \<Longrightarrow> db_ok s"
proof (induction rule: rollout_reach.induct)
  case init
  then show ?case by (simp add: db_ok_def db_wf_def empty_db_def active_rows_def sql.one_wave_def sql.flying_def db_state_def)
next
  case (faults s f)
  from faults.IH show ?case by (rule db_ok_same) simp_all
next
  case (tick s edge now)
  then show ?case using sql.tick_one_wave by (simp add: db_ok_def)
qed (simp_all add: start_ok handler_ok rollback_ok pauseRollout_def resumeRollout_def cancelRollout_def)

subsection \<open>Progress\<close>

text \<open>
  The work a rollout has left: each target's steps to a terminal state. A tick that comes
  later than a soak and the grace period after the last write always takes a step.
\<close>

definition steps_left :: "string \<Rightarrow> nat" where
  "steps_left st = (if st = ''queued'' then 3 else if st = ''in_progress'' then 2 else if st = ''soaking'' then 1 else 0)"

definition work :: "rollout_db \<Rightarrow> int \<Rightarrow> nat" where
  "work s i = sum_list (map (\<lambda>t. if rt_rollout t = i then steps_left (rt_state t) else 0) (db_targets s))"

definition calm :: "rollout_db \<Rightarrow> rollout \<Rightarrow> instant \<Rightarrow> bool" where
  "calm s r now \<longleftrightarrow> (\<forall>t \<in> set (db_targets s). rt_rollout t = ro_id r \<longrightarrow>
     rt_updated t + (ro_soak r * second + grace) < now \<and>
     (rt_state t = ''soaking'' \<longrightarrow> (\<exists>u. rt_soak_until t = Some u \<and> u \<le> now)))"

text \<open>What a write to the row of \<open>t\<close> does to work and calm.\<close>

lemma set_target_work:
  assumes d: "distinct (map key_of (db_targets s))" and t: "t \<in> set (db_targets s)" "rt_rollout t = i" "rt_edge t = e"
    and f: "row_update x f" and less: "steps_left x < steps_left (rt_state t)"
  shows "work (set_target i e f s) i < work s i"
proof -
  have "sum_list (map (\<lambda>t. if rt_rollout t = i then steps_left (rt_state t) else 0)
          (map (\<lambda>t. if rt_rollout t = i \<and> rt_edge t = e then f t else t) xs)) <
        sum_list (map (\<lambda>t. if rt_rollout t = i then steps_left (rt_state t) else 0) xs)"
    if "distinct (map key_of xs)" "t \<in> set xs" for xs
    using that
  proof (induction xs)
    case (Cons y ys)
    have fr: "rt_rollout (f u) = rt_rollout u" "rt_state (f u) = x" for u using f by (simp_all add: row_update_def key_of_def)
    show ?case
    proof (cases "y = t")
      case True
      have "map (\<lambda>t. if rt_rollout t = i \<and> rt_edge t = e then f t else t) ys = ys"
      proof (rule map_idI)
        fix u assume "u \<in> set ys"
        then have "key_of u \<noteq> key_of t" using Cons.prems(1) True by (metis distinct.simps(2) image_eqI list.set_map list.simps(9))
        then show "(if rt_rollout u = i \<and> rt_edge u = e then f u else u) = u" using t(2,3) by (auto simp: key_of_def)
      qed
      then show ?thesis using True t(2,3) fr less by simp
    next
      case False
      then have "t \<in> set ys" using Cons.prems(2) by simp
      moreover have "\<not> (rt_rollout y = i \<and> rt_edge y = e)"
        using Cons.prems(1) calculation t(2,3) by (force simp: key_of_def)
      ultimately show ?thesis using Cons by auto
    qed
  qed simp
  from this [OF d t(1)] show ?thesis by (simp add: work_def set_target_def)
qed

lemma set_target_calm:
  assumes c: "calm s r now" and soak: "0 \<le> ro_soak r" and later: "now + (ro_soak r * second + grace) < now'"
    and f: "row_update x f" "\<And>t. rt_updated (f t) = now"
      "x = ''soaking'' \<Longrightarrow> \<forall>t. rt_soak_until (f t) = Some (now + ro_soak r * second)"
  shows "calm (set_target i e f s) r now'"
  unfolding calm_def
proof (intro ballI impI)
  fix t' assume t': "t' \<in> set (db_targets (set_target i e f s))" "rt_rollout t' = ro_id r"
  have g: "0 \<le> grace" "0 \<le> ro_soak r * second" using soak by (simp_all add: grace_def second_def)
  obtain t where t: "t \<in> set (db_targets s)" "t' = (if rt_rollout t = i \<and> rt_edge t = e then f t else t)"
    using t'(1) by (auto simp: set_target_def)
  have fr: "rt_rollout (f t) = rt_rollout t" "rt_state (f t) = x" using f(1) by (simp_all add: row_update_def key_of_def)
  show "rt_updated t' + (ro_soak r * second + grace) < now' \<and>
      (rt_state t' = ''soaking'' \<longrightarrow> (\<exists>u. rt_soak_until t' = Some u \<and> u \<le> now'))"
  proof (cases "rt_rollout t = i \<and> rt_edge t = e")
    case True
    then show ?thesis using t(2) f(2,3) fr later g by auto
  next
    case False
    then have "t' = t" "rt_rollout t = ro_id r" using t(2) t'(2) by auto
    then show ?thesis using c t(1) later g unfolding calm_def by fastforce
  qed
qed

definition ended :: "rollout_db \<Rightarrow> int \<Rightarrow> bool" where
  "ended s i \<longleftrightarrow> (\<exists>r \<in> set (db_rollouts s). ro_id r = i \<and> (ro_status r = ''done'' \<or> ro_status r = ''failed''))"

definition running_now :: "rollout_db \<Rightarrow> rollout \<Rightarrow> bool" where
  "running_now s r \<longleftrightarrow> db_wf s \<and> db_fails s = (\<lambda>_. False) \<and> active_rows s = [r] \<and> ro_status r = ''running'' \<and> 0 \<le> ro_soak r"

lemma set_status_ended:
  assumes "running_now s r" "x = ''done'' \<or> x = ''failed''"
  shows "ended (fst (SetRolloutStatus s now (ro_id r) x reason)) (ro_id r)"
proof -
  have "r \<in> set (active_rows s)" using assms(1) by (simp add: running_now_def)
  then have r: "r \<in> set (db_rollouts s)" by (simp add: active_rows_def)
  have go: "\<not> db_fails s ''SetRolloutStatus''" "\<not> is_active x" using assms by (auto simp: running_now_def is_active_def)
  obtain f where f: "\<And>r. ro_id (f r) = ro_id r" "\<And>k. ro_status (f k) = (if ro_id k = ro_id r then x else ro_status k)"
    and eq: "fst (SetRolloutStatus s now (ro_id r) x reason) = s\<lparr>db_rollouts := map f (db_rollouts s)\<rparr>"
    using set_status_rows [of s x "ro_id r" now reason] go by blast
  show ?thesis unfolding ended_def eq by (rule bexI [of _ "f r"]) (use r f assms(2) in simp_all)
qed

lemma running_set_target: "running_now s r \<Longrightarrow> row_update x f \<Longrightarrow> running_now (set_target i e f s) r"
  by (simp add: running_now_def set_target_wf) (simp add: set_target_def active_rows_def)

lemma tick_progress:
  assumes run: "running_now s r" and c: "calm s r now" and later: "now + (ro_soak r * second + grace) < now'"
  shows "let s' = fst (EngineTick sql_store edge now s) in
     ended s' (ro_id r) \<or> (running_now s' r \<and> calm s' r now' \<and> work s' (ro_id r) < work s (ro_id r))"
proof -
  let ?i = "ro_id r"
  have w: "distinct (map key_of (db_targets s))" and ok: "db_fails s = (\<lambda>_. False)" and soak: "0 \<le> ro_soak r"
    using run by (auto simp: running_now_def db_wf_def)
  have act: "ActiveRollout s = Inr (Some r)" using run by (simp add: running_now_def ActiveRollout_def)
  define ts where "ts = sort_key rt_edge (filter (\<lambda>t. rt_rollout t = ?i) (db_targets s))"
  have l: "ListTargets s ?i = Inr ts" by (simp add: ListTargets_def ok ts_def)
  have mem: "t \<in> set (db_targets s)" "rt_rollout t = ?i" if "t \<in> set ts" for t
    using that by (auto simp: ts_def)
  have step: "running_now (set_target ?i (rt_edge t) f s) r \<and> calm (set_target ?i (rt_edge t) f s) r now' \<and>
      work (set_target ?i (rt_edge t) f s) ?i < work s ?i"
    if "t \<in> set ts" "row_update x f" "\<And>t. rt_updated (f t) = now"
      "x = ''soaking'' \<Longrightarrow> \<forall>t. rt_soak_until (f t) = Some (now + ro_soak r * second)"
      "steps_left x < steps_left (rt_state t)" for t x f
    using running_set_target [OF run that(2)] set_target_calm [OF c soak later that(2,3,4)]
      set_target_work [OF w mem [OF that(1)] refl that(2,5)] by blast
  have status: "ro_status r = ''running''" using run by (simp add: running_now_def)
  show ?thesis
  proof (cases "find in_flight ts")
    case (Some t)
    then have t: "t \<in> set ts" "in_flight t" by (auto simp: find_Some_iff)
    have tick: "EngineTick sql_store edge now s = advance sql_store edge now s r t"
      by (simp add: EngineTick_def sql_store_def act status l Some)
    let ?h = "le_online (edge (rt_edge t)) \<and> le_version (edge (rt_edge t)) = rt_to t \<and> le_healthy (edge (rt_edge t))"
    have tc: "rt_updated t + (ro_soak r * second + grace) < now"
      "rt_state t = ''soaking'' \<Longrightarrow> \<exists>u. rt_soak_until t = Some u \<and> u \<le> now"
      using c mem [OF t(1)] by (auto simp: calm_def)
    show ?thesis
    proof (cases ?h)
      case True
      show ?thesis
      proof (cases "rt_state t = ''in_progress''")
        case True
        have "advance sql_store edge now s r t =
            (set_target ?i (rt_edge t) (\<lambda>t. t\<lparr>rt_state := ''soaking'', rt_soak_until := Some (now + ro_soak r * second), rt_updated := now\<rparr>) s, None)"
          using \<open>?h\<close> True ok by (simp add: advance_def Let_def sql_store_def StartSoak_def)
        moreover have "row_update ''soaking'' (\<lambda>t. t\<lparr>rt_state := ''soaking'', rt_soak_until := Some (now + ro_soak r * second), rt_updated := now\<rparr>)"
          by (simp add: row_update_def key_of_def)
        ultimately show ?thesis using step [OF t(1), of "''soaking''"] True unfolding tick by (simp add: Let_def steps_left_def)
      next
        case False
        then have s: "rt_state t = ''soaking''" using t(2) by (simp add: in_flight_def)
        from tc(2) [OF s] obtain u where u: "rt_soak_until t = Some u" "u \<le> now" by blast
        have "advance sql_store edge now s r t =
            (set_target ?i (rt_edge t) (\<lambda>t. t\<lparr>rt_state := ''done'', rt_reason := '''', rt_updated := now\<rparr>) s, None)"
          using \<open>?h\<close> s u ok by (simp add: advance_def Let_def sql_store_def FinishTarget_def)
        moreover have "row_update ''done'' (\<lambda>t. t\<lparr>rt_state := ''done'', rt_reason := '''', rt_updated := now\<rparr>)"
          by (simp add: row_update_def key_of_def)
        ultimately show ?thesis using step [OF t(1), of "''done''"] s unfolding tick by (simp add: Let_def steps_left_def)
      qed
    next
      case False
      let ?s1 = "set_target ?i (rt_edge t) (\<lambda>t. t\<lparr>rt_state := ''failed'', rt_reason := stuck_reason, rt_updated := now\<rparr>) s"
      have "advance sql_store edge now s r t = SetRolloutStatus ?s1 now ?i ''failed'' stuck_reason"
        using False tc(1) ok by (auto simp: advance_def Let_def sql_store_def FinishTarget_def)
      moreover have "running_now ?s1 r"
        by (rule running_set_target [OF run, of "''failed''"]) (simp add: row_update_def key_of_def)
      ultimately show ?thesis using set_status_ended [of ?s1 r "''failed''"] unfolding tick by (simp add: Let_def)
    qed
  next
    case none: None
    show ?thesis
    proof (cases "find (\<lambda>t. rt_state t = ''queued'') ts")
      case (Some t)
      then have t: "t \<in> set ts" "rt_state t = ''queued''" by (auto simp: find_Some_iff)
      show ?thesis
      proof (cases "le_online (edge (rt_edge t))")
        case True
        let ?f = "\<lambda>u. u\<lparr>rt_state := ''in_progress'', rt_from := le_version (edge (rt_edge t)), rt_soak_until := None, rt_updated := now\<rparr>"
        have "EngineTick sql_store edge now s = (set_target ?i (rt_edge t) ?f s, None)"
          using True ok by (simp add: EngineTick_def sql_store_def act status l none Some Let_def OpenTarget_def)
        moreover have "row_update ''in_progress'' ?f" by (simp add: row_update_def key_of_def)
        ultimately show ?thesis using step [OF t(1), of "''in_progress''" ?f] t(2) by (simp add: Let_def steps_left_def)
      next
        case False
        let ?f = "\<lambda>u. u\<lparr>rt_state := ''skipped'', rt_reason := ''edge offline at its turn'', rt_updated := now\<rparr>"
        have "EngineTick sql_store edge now s = (set_target ?i (rt_edge t) ?f s, None)"
          using False ok by (simp add: EngineTick_def sql_store_def act status l none Some Let_def FinishTarget_def)
        moreover have "row_update ''skipped'' ?f" by (simp add: row_update_def key_of_def)
        ultimately show ?thesis using step [OF t(1), of "''skipped''" ?f] t(2) by (simp add: Let_def steps_left_def)
      qed
    next
      case None
      then have "EngineTick sql_store edge now s = SetRolloutStatus s now ?i ''done'' ''''"
        by (simp add: EngineTick_def sql_store_def act status l none)
      then show ?thesis using set_status_ended [OF run, of "''done''"] by (simp add: Let_def)
    qed
  qed
qed

subsection \<open>Properties\<close>

lemma release_flying:
  assumes "db_wf s" "agentRelease meta s e = Some v"
  obtains r where "active_rows s = [r]" "sql.flying s (ro_id r) e"
proof -
  from assms(2) obtain r ts t where r: "ActiveRollout s = Inr (Some r)" and ts: "ListTargets s (ro_id r) = Inr ts"
    and t: "find (\<lambda>t. rt_edge t = e \<and> in_flight t) ts = Some t"
    by (auto simp: agentRelease_def split: sum.splits option.splits if_splits)
  have "t \<in> set ts" "rt_edge t = e" "in_flight t" using t by (auto simp: find_Some_iff)
  moreover have "eng_list sql_store s (ro_id r) = Inr ts" using ts by (simp add: sql_store_def)
  ultimately have "sql.flying s (ro_id r) e" using sql.flying_listed [OF assms(1)] by blast
  moreover have "active_rows s = [r]"
    using r assms(1) by (cases "active_rows s") (auto simp: ActiveRollout_def db_wf_def split: if_splits)
  ultimately show thesis using that by blast
qed

text \<open>
  C4: One wave at a time. In every state the API calls, the engine's ticks and database errors
  can produce, at most one rollout is active, each rollout has at most one target in flight, so the
  active ones together have at most one, and no two different edges are told to run a new version. A
  rollout that is cancelled keeps its target in flight (\<open>cancelled_target_stays\<close>), so the claim is not
  made of the targets of different rollouts, ended ones included.
\<close>

theorem one_wave_at_a_time:
  assumes "rollout_reach s"
  shows "length (active_rows s) \<le> 1 \<and>
    (\<forall>t u. t \<in> set (db_targets s) \<and> u \<in> set (db_targets s) \<and> rt_rollout t = rt_rollout u \<and> in_flight t \<and> in_flight u \<longrightarrow> t = u) \<and>
    (\<forall>t u. t \<in> set (db_targets s) \<and> u \<in> set (db_targets s) \<and> in_flight t \<and> in_flight u \<and>
       {rt_rollout t, rt_rollout u} \<subseteq> ro_id ` set (active_rows s) \<longrightarrow> t = u) \<and>
    (\<forall>e f. agentRelease meta s e \<noteq> None \<and> agentRelease meta s f \<noteq> None \<longrightarrow> e = f)"
proof (intro conjI allI impI)
  have w: "db_wf s" and one: "sql.one_wave s" using reach_db_ok [OF assms] by (simp_all add: db_ok_def)
  then have d: "distinct (map key_of (db_targets s))" by (simp add: db_wf_def)
  show "length (active_rows s) \<le> 1" using w by (simp add: db_wf_def)
  have same: "t = u" if "t \<in> set (db_targets s) \<and> u \<in> set (db_targets s) \<and> rt_rollout t = rt_rollout u \<and> in_flight t \<and> in_flight u" for t u
  proof -
    have fl: "sql.flying s (rt_rollout t) (rt_edge t)" "sql.flying s (rt_rollout t) (rt_edge u)"
      using that db_state_Some [OF d] by (auto simp: sql.flying_def in_flight_def key_of_def)
    then have "rt_edge t = rt_edge u" using one unfolding sql.one_wave_def by blast
    then have "key_of t = key_of u" using that by (simp add: key_of_def)
    then show ?thesis using d that by (auto simp: distinct_map dest: inj_onD)
  qed
  then show "t = u" if "t \<in> set (db_targets s) \<and> u \<in> set (db_targets s) \<and> rt_rollout t = rt_rollout u \<and> in_flight t \<and> in_flight u" for t u
    using that by blast
  show "t = u" if "t \<in> set (db_targets s) \<and> u \<in> set (db_targets s) \<and> in_flight t \<and> in_flight u \<and>
      {rt_rollout t, rt_rollout u} \<subseteq> ro_id ` set (active_rows s)" for t u
  proof -
    have "length (active_rows s) \<le> 1" using w by (simp add: db_wf_def)
    then have "rt_rollout t = rt_rollout u" using that by (cases "active_rows s") auto
    then show ?thesis using same that by blast
  qed
  show "e = f" if "agentRelease meta s e \<noteq> None \<and> agentRelease meta s f \<noteq> None" for e f
  proof -
    from that obtain x y where "agentRelease meta s e = Some x" "agentRelease meta s f = Some y" by blast
    then obtain r q where "active_rows s = [r]" "sql.flying s (ro_id r) e" "active_rows s = [q]" "sql.flying s (ro_id q) f"
      using release_flying [OF w] by metis
    then show ?thesis using one unfolding sql.one_wave_def by auto
  qed
qed

definition demo_db :: rollout_db where
  "demo_db = fst (startRollout (\<lambda>_. True) (\<lambda>_. ''1.0'') 0 ''7'' ''1.1'' [''fra'', ''blr''] 60 None empty_db)"

definition good_edge :: "string \<Rightarrow> live_edge" where
  "good_edge e = \<lparr>le_online = True, le_version = ''1.1'', le_healthy = True\<rparr>"

lemma one_wave_at_a_time_witness:
  "agentRelease (\<lambda>_. Some ()) (fst (EngineTick sql_store good_edge 1 demo_db)) ''blr'' = Some (''1.1'', ()) \<and>
   agentRelease (\<lambda>_. Some ()) (fst (EngineTick sql_store good_edge 1 demo_db)) ''fra'' = None"
proof -
  let ?s = "fst (EngineTick sql_store good_edge 1 demo_db)"
  have "rollout_reach ?s" unfolding demo_db_def by (intro rollout_reach.tick rollout_reach.start rollout_reach.init)
  note one = one_wave_at_a_time [OF this, of "\<lambda>_. Some ()"]
  have blr: "agentRelease (\<lambda>_. Some ()) ?s ''blr'' = Some (''1.1'', ())" by code_simp
  have "agentRelease (\<lambda>_. Some ()) ?s ''fra'' = None"
  proof (rule ccontr)
    assume "agentRelease (\<lambda>_. Some ()) ?s ''fra'' \<noteq> None"
    then have "''blr'' = ''fra''" using one blr by (metis option.distinct(1))
    then show False by simp
  qed
  with blr show ?thesis ..
qed

text \<open>
  Ticks as they come: each at its time, with the edges it sees and the database calls that fail.
  \<open>chances d since ts\<close> counts, from \<open>since\<close> on, ticks without a failing call that are more than \<open>d\<close>
  after the one counted before.
\<close>

type_synonym engine_tick = "instant \<times> (string \<Rightarrow> live_edge) \<times> (string \<Rightarrow> bool)"

fun run_ticks :: "engine_tick list \<Rightarrow> rollout_db \<Rightarrow> rollout_db" where
  "run_ticks [] s = s"
| "run_ticks ((now, edge, fails) # ts) s = run_ticks ts (fst (EngineTick sql_store edge now (s\<lparr>db_fails := fails\<rparr>)))"

fun chances :: "duration \<Rightarrow> instant \<Rightarrow> engine_tick list \<Rightarrow> nat" where
  "chances d since [] = 0"
| "chances d since ((now, edge, fails) # ts) =
     (if fails = (\<lambda>_. False) \<and> since + d < now then Suc (chances d now ts) else chances d since ts)"

definition underway :: "rollout_db \<Rightarrow> rollout \<Rightarrow> bool" where
  "underway s r \<longleftrightarrow> db_wf s \<and> active_rows s = [r] \<and> ro_status r = ''running'' \<and> 0 \<le> ro_soak r"

text \<open>No target of the rollout was written after \<open>t\<close>, and a soak has its end.\<close>

definition quiet :: "rollout_db \<Rightarrow> rollout \<Rightarrow> instant \<Rightarrow> bool" where
  "quiet s r t \<longleftrightarrow> (\<forall>g \<in> set (db_targets s). rt_rollout g = ro_id r \<longrightarrow> rt_updated g \<le> t \<and>
     (rt_state g = ''soaking'' \<longrightarrow> (\<exists>u. rt_soak_until g = Some u \<and> u \<le> t + ro_soak r * second)))"

lemma quiet_mono: "quiet s r t \<Longrightarrow> t \<le> t' \<Longrightarrow> quiet s r t'"
  unfolding quiet_def by fastforce

lemma quiet_calm:
  assumes "quiet s r since" "since + (ro_soak r * second + grace) < now"
  shows "calm s r now"
  unfolding calm_def
proof (intro ballI impI)
  fix g assume "g \<in> set (db_targets s)" "rt_rollout g = ro_id r"
  with assms(1) have q: "rt_updated g \<le> since"
    "rt_state g = ''soaking'' \<longrightarrow> (\<exists>u. rt_soak_until g = Some u \<and> u \<le> since + ro_soak r * second)"
    unfolding quiet_def by blast+
  have "0 \<le> grace" by (simp add: grace_def second_def)
  then show "rt_updated g + (ro_soak r * second + grace) < now \<and>
      (rt_state g = ''soaking'' \<longrightarrow> (\<exists>u. rt_soak_until g = Some u \<and> u \<le> now))"
    using q assms(2) by fastforce
qed

lemma underway_faults: "underway (s\<lparr>db_fails := f\<rparr>) r = underway s r" "quiet (s\<lparr>db_fails := f\<rparr>) r t = quiet s r t"
  "work (s\<lparr>db_fails := f\<rparr>) i = work s i" "ended (s\<lparr>db_fails := f\<rparr>) i = ended s i"
  by (simp_all add: underway_def quiet_def work_def ended_def db_wf_def active_rows_def)

text \<open>A write that takes a target a step further.\<close>

definition step_write :: "rollout_db \<Rightarrow> rollout \<Rightarrow> instant \<Rightarrow> rollout_db \<Rightarrow> bool" where
  "step_write s r now s' \<longleftrightarrow> (\<exists>g \<in> set (db_targets s). rt_rollout g = ro_id r \<and>
     (\<exists>x f. row_update x f \<and> steps_left x < steps_left (rt_state g) \<and> (\<forall>t. rt_updated (f t) = now) \<and>
        (x = ''soaking'' \<longrightarrow> (\<forall>t. rt_soak_until (f t) = Some (now + ro_soak r * second))) \<and>
        s' = set_target (ro_id r) (rt_edge g) f s))"

lemma step_writeI:
  assumes "g \<in> set (db_targets s)" "rt_rollout g = ro_id r" "row_update x f" "steps_left x < steps_left (rt_state g)"
    and "\<And>t. rt_updated (f t) = now" "x = ''soaking'' \<Longrightarrow> \<forall>t. rt_soak_until (f t) = Some (now + ro_soak r * second)"
  shows "step_write s r now (set_target (ro_id r) (rt_edge g) f s)"
  using assms unfolding step_write_def by blast

lemma step_write_keeps:
  assumes w: "step_write s r now s'" and u: "underway s r" and q: "quiet s r m" "m \<le> now"
  shows "underway s' r" "quiet s' r now" "work s' (ro_id r) < work s (ro_id r)"
proof -
  from w obtain g x f where g: "g \<in> set (db_targets s)" "rt_rollout g = ro_id r" and f: "row_update x f"
    and less: "steps_left x < steps_left (rt_state g)" and now: "\<And>t. rt_updated (f t) = now"
    and soak: "x = ''soaking'' \<Longrightarrow> \<forall>t. rt_soak_until (f t) = Some (now + ro_soak r * second)"
    and s': "s' = set_target (ro_id r) (rt_edge g) f s" unfolding step_write_def by blast
  have d: "distinct (map key_of (db_targets s))" using u by (simp add: underway_def db_wf_def)
  show "underway s' r" using u set_target_wf [OF f] unfolding underway_def s'
    by (simp add: set_target_def active_rows_def)
  show "work s' (ro_id r) < work s (ro_id r)" unfolding s' by (rule set_target_work [OF d g refl f less])
  show "quiet s' r now"
    unfolding quiet_def
  proof (intro ballI impI)
    fix t' assume t': "t' \<in> set (db_targets s')" "rt_rollout t' = ro_id r"
    then obtain t where t: "t \<in> set (db_targets s)" "t' = (if rt_rollout t = ro_id r \<and> rt_edge t = rt_edge g then f t else t)"
      by (auto simp: s' set_target_def)
    have fr: "rt_rollout (f t) = rt_rollout t" "rt_state (f t) = x" using f by (simp_all add: row_update_def key_of_def)
    have "quiet s r now" by (rule quiet_mono [OF q])
    then show "rt_updated t' \<le> now \<and> (rt_state t' = ''soaking'' \<longrightarrow> (\<exists>u. rt_soak_until t' = Some u \<and> u \<le> now + ro_soak r * second))"
      using t t' fr now soak unfolding quiet_def by (auto split: if_splits)
  qed
qed

lemma status_write:
  assumes u: "underway s r" and x: "x = ''done'' \<or> x = ''failed''"
  shows "fst (SetRolloutStatus s now (ro_id r) x reason) = s \<or> ended (fst (SetRolloutStatus s now (ro_id r) x reason)) (ro_id r)"
proof (cases "db_fails s ''SetRolloutStatus''")
  case False
  have "r \<in> set (active_rows s)" using u by (simp add: underway_def)
  then have r: "r \<in> set (db_rollouts s)" by (simp add: active_rows_def)
  have "\<not> is_active x" using x by (auto simp: is_active_def)
  then obtain f where f: "\<And>r. ro_id (f r) = ro_id r" "\<And>k. ro_status (f k) = (if ro_id k = ro_id r then x else ro_status k)"
    and eq: "fst (SetRolloutStatus s now (ro_id r) x reason) = s\<lparr>db_rollouts := map f (db_rollouts s)\<rparr>"
    using set_status_rows [of s x "ro_id r" now reason] False by blast
  have "ended (fst (SetRolloutStatus s now (ro_id r) x reason)) (ro_id r)"
    unfolding ended_def eq by (rule bexI [of _ "f r"]) (use r f x in simp_all)
  then show ?thesis ..
qed (simp add: SetRolloutStatus_def)

text \<open>A tick at any time with any calls failing: the rollout ends, nothing moves, or one target takes a step.\<close>

definition tick_moves :: "rollout_db \<Rightarrow> rollout \<Rightarrow> instant \<Rightarrow> rollout_db \<Rightarrow> bool" where
  "tick_moves s r now s' \<longleftrightarrow> s' = s \<or> step_write s r now s' \<or> ended s' (ro_id r)"

lemma advance_moves:
  assumes u: "underway s r" and q: "quiet s r m" "m \<le> now"
    and g: "g \<in> set (db_targets s)" "rt_rollout g = ro_id r" "in_flight g"
  shows "tick_moves s r now (fst (advance sql_store edge now s r g))"
proof -
  note st = advance_def Let_def sql_store_def
  have fin: "fst (FinishTarget s now (ro_id r) (rt_edge g) x reason) = s \<or>
      step_write s r now (fst (FinishTarget s now (ro_id r) (rt_edge g) x reason))" if "x = ''done'' \<or> x = ''failed''" for x reason
  proof (cases "db_fails s ''FinishTarget''")
    case False
    then show ?thesis using g that unfolding FinishTarget_def
      by (auto intro!: step_writeI [of g s r x] simp: row_update_def key_of_def in_flight_def steps_left_def)
  qed (simp add: FinishTarget_def)
  show ?thesis
  proof (cases "le_online (edge (rt_edge g)) \<and> le_version (edge (rt_edge g)) = rt_to g \<and> le_healthy (edge (rt_edge g))")
    case True
    show ?thesis
    proof (cases "rt_state g = ''in_progress''")
      case ip: True
      have "fst (StartSoak s now (ro_id r) (rt_edge g) (now + ro_soak r * second)) = s \<or>
          step_write s r now (fst (StartSoak s now (ro_id r) (rt_edge g) (now + ro_soak r * second)))"
      proof (cases "db_fails s ''StartSoak''")
        case False
        then show ?thesis using g ip unfolding StartSoak_def
          by (auto intro!: step_writeI [of g s r "''soaking''"] simp: row_update_def key_of_def steps_left_def)
      qed (simp add: StartSoak_def)
      then show ?thesis using True ip by (auto simp: st tick_moves_def)
    next
      case False
      then have "rt_state g = ''soaking''" using g(3) by (simp add: in_flight_def)
      then have "rt_soak_until g \<noteq> None" using q(1) g unfolding quiet_def by fastforce
      then show ?thesis using True False fin [of "''done''" "''''"] by (auto simp: st tick_moves_def)
    qed
  next
    case sick: False
    show ?thesis
    proof (cases "now > rt_updated g + (ro_soak r * second + grace)")
      case True
      obtain s1 e where f: "FinishTarget s now (ro_id r) (rt_edge g) ''failed'' stuck_reason = (s1, e)" by fastforce
      note s1 = fin [of "''failed''" stuck_reason, unfolded f]
      show ?thesis
      proof (cases e)
        case None
        have "s1 = s \<or> underway s1 r" using s1 step_write_keeps(1) [OF _ u q] by auto
        then have "underway s1 r" using u by auto
        from status_write [OF this, of "''failed''" now stuck_reason] s1 show ?thesis
          using sick True f None by (auto simp: st tick_moves_def)
      next
        case (Some x)
        then show ?thesis using sick True f s1 by (auto simp: st tick_moves_def)
      qed
    next
      case False
      then show ?thesis using sick by (auto simp: st tick_moves_def)
    qed
  qed
qed

lemma tick_outcome:
  assumes u: "underway s r" and q: "quiet s r m" "m \<le> now"
  shows "tick_moves s r now (fst (EngineTick sql_store edge now s))"
proof (cases "db_fails s ''ActiveRollout'' \<or> db_fails s ''ListTargets''")
  case True
  then show ?thesis using u
    by (auto simp: EngineTick_def sql_store_def tick_moves_def ActiveRollout_def ListTargets_def underway_def)
next
  case False
  define ts where "ts = sort_key rt_edge (filter (\<lambda>t. rt_rollout t = ro_id r) (db_targets s))"
  have act: "ActiveRollout s = Inr (Some r)" and status: "ro_status r = ''running''"
    using u False by (simp_all add: underway_def ActiveRollout_def)
  have l: "ListTargets s (ro_id r) = Inr ts" using False by (simp add: ListTargets_def ts_def)
  have mem: "t \<in> set (db_targets s)" "rt_rollout t = ro_id r" if "t \<in> set ts" for t using that by (auto simp: ts_def)
  show ?thesis
  proof (cases "find in_flight ts")
    case (Some g)
    then have "g \<in> set ts" "in_flight g" by (auto simp: find_Some_iff)
    then show ?thesis using advance_moves [OF u q mem, of g edge]
      by (simp add: EngineTick_def sql_store_def act status l Some)
  next
    case none: None
    show ?thesis
    proof (cases "find (\<lambda>t. rt_state t = ''queued'') ts")
      case (Some g)
      then have g: "g \<in> set ts" "rt_state g = ''queued''" by (auto simp: find_Some_iff)
      have "fst (FinishTarget s now (ro_id r) (rt_edge g) ''skipped'' x) = s \<or>
          step_write s r now (fst (FinishTarget s now (ro_id r) (rt_edge g) ''skipped'' x))" for x
        using mem [OF g(1)] g(2) unfolding FinishTarget_def
        by (auto intro!: step_writeI [of g s r "''skipped''"] simp: row_update_def key_of_def steps_left_def)
      moreover have "fst (OpenTarget s now (ro_id r) (rt_edge g) v) = s \<or>
          step_write s r now (fst (OpenTarget s now (ro_id r) (rt_edge g) v))" for v
        using mem [OF g(1)] g(2) unfolding OpenTarget_def
        by (auto intro!: step_writeI [of g s r "''in_progress''"] simp: row_update_def key_of_def steps_left_def)
      ultimately show ?thesis
        by (auto simp: EngineTick_def sql_store_def act status l none Some Let_def tick_moves_def)
    next
      case None
      then show ?thesis using status_write [OF u, of "''done''" now "''''"]
        by (auto simp: EngineTick_def sql_store_def act status l none tick_moves_def)
    qed
  qed
qed

text \<open>What one tick leaves: the rollout ended, or underway with no more work than before.\<close>

lemma tick_keeps:
  assumes u: "underway s r" and q: "quiet s r m" "m \<le> now"
  shows "ended (fst (EngineTick sql_store edge now s)) (ro_id r) \<or> fst (EngineTick sql_store edge now s) = s \<or>
    underway (fst (EngineTick sql_store edge now s)) r \<and> quiet (fst (EngineTick sql_store edge now s)) r now \<and>
    work (fst (EngineTick sql_store edge now s)) (ro_id r) < work s (ro_id r)"
  using tick_outcome [OF u q, of edge] step_write_keeps [OF _ u q] unfolding tick_moves_def by blast

lemma chance_taken:
  assumes u: "underway s r" and q: "quiet s r since" and later: "since + (ro_soak r * second + grace) < now"
  shows "ended (fst (EngineTick sql_store edge now (s\<lparr>db_fails := \<lambda>_. False\<rparr>))) (ro_id r) \<or>
    work (fst (EngineTick sql_store edge now (s\<lparr>db_fails := \<lambda>_. False\<rparr>))) (ro_id r) < work s (ro_id r)"
proof -
  let ?s = "s\<lparr>db_fails := \<lambda>_. False\<rparr>"
  have run: "running_now ?s r" using u by (simp add: running_now_def underway_def db_wf_def active_rows_def)
  have calm: "calm ?s r now" using quiet_calm [OF _ later] q by (simp add: underway_faults)
  have "now + (ro_soak r * second + grace) < now + (ro_soak r * second + grace) + 1" by simp
  from tick_progress [OF run calm this, of edge] show ?thesis by (auto simp: Let_def underway_faults)
qed

text \<open>The rollout has ended somewhere along the ticks.\<close>

fun ends_in :: "int \<Rightarrow> engine_tick list \<Rightarrow> rollout_db \<Rightarrow> bool" where
  "ends_in i [] s = ended s i"
| "ends_in i (t # ts) s = (ended s i \<or> ends_in i ts (run_ticks [t] s))"

lemma ends_in_take: "ends_in i ts s \<longleftrightarrow> (\<exists>k \<le> length ts. ended (run_ticks (take k ts) s) i)"
proof (induction ts arbitrary: s)
  case (Cons t ts)
  obtain now edge fails where t: "t = (now, edge, fails)" by (cases t)
  have "(\<exists>k \<le> length (t # ts). ended (run_ticks (take k (t # ts)) s) i) \<longleftrightarrow>
      ended s i \<or> (\<exists>k \<le> length ts. ended (run_ticks (take (Suc k) (t # ts)) s) i)"
    by (metis (no_types, lifting) Suc_le_mono length_Cons not0_implies_Suc run_ticks.simps(1) take0 zero_le)
  then show ?case using Cons.IH by (simp add: t)
qed simp

lemma ends_in_now: "ended s i \<Longrightarrow> ends_in i ts s"
  by (cases ts) simp_all

lemma chances_end:
  assumes "underway s r" "quiet s r m" "since \<le> m" "sorted (map fst ts)" "\<forall>t \<in> set ts. m \<le> fst t"
    and "work s (ro_id r) + (if quiet s r since then 1 else 2) \<le> chances (ro_soak r * second + grace) since ts"
  shows "ends_in (ro_id r) ts s"
  using assms
proof (induction ts arbitrary: s m since)
  case (Cons t ts)
  obtain now edge fails where t: "t = (now, edge, fails)" by (cases t)
  let ?d = "ro_soak r * second + grace" and ?s = "s\<lparr>db_fails := fails\<rparr>"
  let ?s' = "fst (EngineTick sql_store edge now ?s)"
  have now: "m \<le> now" "sorted (map fst ts)" "\<forall>t \<in> set ts. now \<le> fst t" using Cons.prems(4,5) by (auto simp: t)
  have u: "underway ?s r" "quiet ?s r m" using Cons.prems(1,2) by (simp_all add: underway_faults)
  have run: "ends_in (ro_id r) (t # ts) s \<longleftrightarrow> ended s (ro_id r) \<or> ends_in (ro_id r) ts ?s'" by (simp add: t)
  show ?case
  proof (cases "ended ?s' (ro_id r)")
    case True
    then show ?thesis unfolding run by (simp add: ends_in_now)
  next
    case alive: False
    have ws: "work ?s (ro_id r) = work s (ro_id r)" by (simp add: underway_faults)
    note tick_keeps [OF u now(1), of edge]
    then have k: "underway ?s' r" "quiet ?s' r now" "?s' = ?s \<or> work ?s' (ro_id r) < work s (ro_id r)"
      using alive u quiet_mono [OF u(2) now(1)] ws by metis+
    have le: "work ?s' (ro_id r) \<le> work s (ro_id r)" using k(3) ws by (metis less_imp_le order_refl)
    show ?thesis
    proof (cases "fails = (\<lambda>_. False) \<and> since + ?d < now")
      case True
      have "work ?s' (ro_id r) < work s (ro_id r)" if "quiet s r since"
        using chance_taken [OF Cons.prems(1) that, of now edge] True alive by simp
      then have "work ?s' (ro_id r) + 1 \<le> chances ?d now ts"
        using Cons.prems(6) True le by (auto simp: t split: if_splits)
      then show ?thesis using Cons.IH [OF k(1,2) order_refl now(2,3)] k(2) unfolding run by simp
    next
      case False
      then have c: "chances ?d since (t # ts) = chances ?d since ts" unfolding t chances.simps(2) by (rule if_not_P)
      have q: "quiet ?s' r since \<longleftrightarrow> quiet s r since" if "?s' = ?s" unfolding that by (simp add: underway_faults)
      have "work ?s' (ro_id r) + (if quiet ?s' r since then 1 else 2) \<le> chances ?d since ts"
      proof (cases "?s' = ?s")
        case True
        then show ?thesis using Cons.prems(6) q [OF True] unfolding c by (simp add: underway_faults)
      next
        case False
        then show ?thesis using Cons.prems(6) k(3) unfolding c by (auto split: if_splits)
      qed
      then have "ends_in (ro_id r) ts ?s'" by (rule Cons.IH [OF k(1,2) order_trans [OF Cons.prems(3) now(1)] now(2,3)])
      then show ?thesis unfolding run ..
    qed
  qed
qed (auto split: if_splits)


text \<open>Seven ticks an hour apart with good edges, and one in between that loses its write.\<close>

definition demo_ticks :: "engine_tick list" where
  "demo_ticks = (1, good_edge, \<lambda>_. True) # map (\<lambda>i. (int i * hour, good_edge, \<lambda>_. False)) [1..<8]"


text \<open>
  What modelling showed, on concrete runs. The targets are deployed in the order of their
  edge ids, not in the order asked for (\<open>fra\<close> first). A database error between the two
  writes that fail a rollout lets it go on with the next edge. A target that is unhealthy in
  the middle of its soak still finishes. A rollout that is done can be cancelled, and a pause
  whose check ran before the engine wrote \<open>done\<close> makes it active again.
\<close>

lemma order_is_alphabetical:
  "map rt_edge (filter in_flight (db_targets (fst (EngineTick sql_store good_edge 1 demo_db)))) = [''blr'']"
  by code_simp

definition bad_edge :: "string \<Rightarrow> live_edge" where
  "bad_edge e = \<lparr>le_online = True, le_version = ''1.0'', le_healthy = True\<rparr>"

lemma halt_is_not_atomic:
  "let s1 = fst (EngineTick sql_store bad_edge 1 demo_db);
       s2 = fst (EngineTick sql_store bad_edge hour (s1\<lparr>db_fails := (\<lambda>x. x = ''SetRolloutStatus'')\<rparr>));
       s3 = fst (EngineTick sql_store bad_edge hour (s2\<lparr>db_fails := (\<lambda>_. False)\<rparr>))
   in map (\<lambda>t. (rt_edge t, rt_state t)) (db_targets s3) = [(''fra'', ''in_progress''), (''blr'', ''failed'')]"
  by code_simp

lemma soak_is_not_continuous:
  "let s1 = fst (EngineTick sql_store good_edge 1 demo_db);
       s2 = fst (EngineTick sql_store good_edge 2 s1);
       s3 = fst (EngineTick sql_store bad_edge (30 * second) s2);
       s4 = fst (EngineTick sql_store good_edge (61 * second) s3)
   in map (\<lambda>t. (rt_edge t, rt_state t)) (db_targets s4) = [(''fra'', ''queued''), (''blr'', ''done'')]"
  by code_simp

lemma cancel_reopens_history:
  "let s1 = demo_db\<lparr>db_rollouts := map (\<lambda>r. r\<lparr>ro_status := ''done''\<rparr>) (db_rollouts demo_db)\<rparr>;
       s2 = fst (cancelRollout 5 ''7'' 1 s1)
   in map ro_status (db_rollouts s2) = [''cancelled'']"
  by code_simp

lemma cancelled_target_stays:
  "let s1 = fst (EngineTick sql_store good_edge 1 demo_db);
       s2 = fst (startRollout (\<lambda>_. True) (\<lambda>_. ''1.0'') 3 ''7'' ''1.2'' [''fra''] 60 None (fst (cancelRollout 2 ''7'' 1 s1)));
       s3 = fst (EngineTick sql_store good_edge 4 s2)
   in map (\<lambda>t. (rt_rollout t, rt_edge t)) (filter in_flight (db_targets s3)) = [(1, ''blr''), (2, ''fra'')]"
  by code_simp

lemma pause_race:
  "let s1 = demo_db\<lparr>db_rollouts := map (\<lambda>r. r\<lparr>ro_status := ''done''\<rparr>) (db_rollouts demo_db)\<rparr>;
       s2 = fst (SetRolloutStatus s1 5 1 ''paused'' '''')
   in active_rows s1 = [] \<and> map ro_status (active_rows s2) = [''paused'']"
  by code_simp

end
