(* ===== verification/Fleet.thy ===== *)
theory Fleet
  imports ZonesApi Syncer Health Rollout
begin

section \<open>The fleet: how servers enter DNS, health checks and rollouts, and the admin handlers\<close>

text \<open>
  The callbacks of \<open>cmd/brisk-control/main.go\<close> that turn the servers table into the endpoints of the
  syncer, the zone sets, the load samples, the probe targets and the edge states of the rollout engine;
  the handlers of \<open>api/drain.go\<close>, \<open>api/serverzones.go\<close>, \<open>api/dns_routing.go\<close>, \<open>api/health_checks.go\<close>
  and \<open>api/dns_reconcile.go\<close> that change them. A handler returns its status, the new database and
  the audit rows and reconcile requests it made, in order. \<open>zr_id\<close> of a rule row is hidden by the
  one of a zone's record set.
\<close>

subsection \<open>The callbacks of the control plane\<close>

definition pure_shield :: "store_server \<Rightarrow> bool" where
  "pure_shield s \<longleftrightarrow> equal_fold (ss_role s) ''shield'' \<and> \<not> ss_public s"

definition fleet_endpoint :: "(string \<Rightarrow> real) \<Rightarrow> store_server \<Rightarrow> endpoint" where
  "fleet_endpoint factor s =
     \<lparr>ep_edge_id = ss_edge s, ep_region = ss_region s, ep_ip = ss_ip s, ep_status = ss_status s,
      ep_last_seen = ss_last_seen s, ep_weight = ss_weight s, ep_override = ss_override s,
      ep_capacity = (case ss_capacity s of None \<Rightarrow> 0 | Some c \<Rightarrow> c), ep_by_capacity = ss_by_capacity s,
      ep_load_factor = factor (ss_edge s), ep_health = ss_health s, ep_drained = ss_drained s\<rparr>"

definition fleet_endpoints :: "(string \<Rightarrow> real) \<Rightarrow> control_db \<Rightarrow> endpoint list" where
  "fleet_endpoints factor db = map (fleet_endpoint factor) (filter (\<lambda>s. \<not> pure_shield s) (ListServers db))"

text \<open>The record set of a tenant zone: only hosts one or more labels below the routing name.\<close>

definition zone_set :: "string \<Rightarrow> string \<Rightarrow> control_db \<Rightarrow> store_zone \<Rightarrow> zone_routing option" where
  "zone_set zone_name routing db z =
     (let host = to_lower (trim_suffix (trim_space (sz_hostname z)) ''.''); suffix = ''.'' @ zone_name in
      if \<not> has_suffix host suffix then None
      else (let rel = trim_suffix host suffix in
            if rel = routing \<or> \<not> has_suffix rel (''.'' @ routing) then None
            else Some \<lparr>zone_routing.zr_id = sz_id z, zr_name = rel,
                       zr_assigned = map ss_edge (filter (\<lambda>s. \<not> pure_shield s) (ListZoneServers (sz_id z) db))\<rparr>))"

definition zone_routings :: "string \<Rightarrow> string \<Rightarrow> control_db \<Rightarrow> zone_routing list" where
  "zone_routings dns_zone record db =
     (let zone_name = to_lower (trim_space dns_zone); routing = to_lower (trim_space record) in
      if zone_name = '''' \<or> routing = '''' \<or> routing = ''@'' then []
      else List.map_filter (zone_set zone_name routing db) (ListActiveZones db))"

text \<open>\<open>live i\<close>: the latest sample of a server, its bandwidth and CPU per cent.\<close>

definition load_pressure :: "(int \<Rightarrow> (real \<times> real option) option) \<Rightarrow> store_server \<Rightarrow> (string \<times> real) option" where
  "load_pressure live s =
     (if \<not> equal_fold (ss_status s) ''online'' then None
      else (case ss_capacity s of
              None \<Rightarrow> None
            | Some c \<Rightarrow>
                if c \<le> 0 then None
                else (case live (ss_id s) of
                        None \<Rightarrow> None
                      | Some (bw, cpu) \<Rightarrow>
                          (let bw_util = bw / (of_int c * 1000000);
                               cpu_util = (case cpu of None \<Rightarrow> 0 | Some p \<Rightarrow> p / 100)
                           in Some (ss_edge s, if cpu_util > bw_util then cpu_util else bw_util)))))"

definition load_pressures :: "(int \<Rightarrow> (real \<times> real option) option) \<Rightarrow> control_db \<Rightarrow> (string \<times> real) list" where
  "load_pressures live db = List.map_filter (load_pressure live) (ListServers db)"

definition probe_host :: "store_server \<Rightarrow> string" where
  "probe_host s = (case ss_hostname s of None \<Rightarrow> ss_ip s | Some h \<Rightarrow> if h = '''' then ss_ip s else h)"

definition probe_targets :: "control_db \<Rightarrow> health_target list" where
  "probe_targets db =
     map (\<lambda>s. \<lparr>ht_server = ss_id s, ht_edge = ss_edge s, ht_host = probe_host s, ht_persisted = ss_health s,
               ht_enabled = ss_health_on s, ht_interval = ss_interval s, ht_fail = ss_fail s, ht_rise = ss_rise s\<rparr>)
       (filter (\<lambda>s. equal_fold (ss_status s) ''online'') (ListServers db))"

definition live_edge_of :: "control_db \<Rightarrow> string \<Rightarrow> live_edge" where
  "live_edge_of db edge =
     (case find (\<lambda>s. ss_edge s = edge) (ListServers db) of
        None \<Rightarrow> \<lparr>le_online = False, le_version = '''', le_healthy = False\<rparr>
      | Some s \<Rightarrow> \<lparr>le_online = (equal_fold (ss_status s) ''online'' \<and> \<not> ss_drained s), le_version = ss_agent s,
                   le_healthy = (\<not> equal_fold (ss_health s) ''unhealthy'')\<rparr>)"

subsection \<open>Effects\<close>

datatype fleet_effect =
    Audit string string string string string
  | ReconcileNow string
  | ReconcileSoon string

type_synonym fleet_reply = "int \<times> control_db \<times> fleet_effect list"

text \<open>\<open>fc_sync\<close>: the options of the syncer, \<open>None\<close> when DNS is off.\<close>

record fleet_cfg =
  fc_sync :: "sync_opts option"
  fc_record :: string

definition staleAfter :: "fleet_cfg \<Rightarrow> duration" where
  "staleAfter g = (case fc_sync g of None \<Rightarrow> 60 * second | Some o' \<Rightarrow> StaleAfterDur (Some o'))"

definition reconcileNow :: "fleet_cfg \<Rightarrow> string \<Rightarrow> fleet_effect list" where
  "reconcileNow g reason = (if fc_sync g = None then [] else [ReconcileNow reason])"

definition triggerDNSReconcile :: "fleet_cfg \<Rightarrow> string \<Rightarrow> fleet_effect list" where
  "triggerDNSReconcile g reason = (if fc_sync g = None then [] else [ReconcileSoon reason])"

definition auditDrain :: "fleet_cfg \<Rightarrow> store_server \<Rightarrow> string \<Rightarrow> string \<Rightarrow> fleet_effect" where
  "auditDrain g s action reason =
     Audit action (ss_edge s) (fc_record g) (ss_ip s) (if reason = '''' then action else reason)"

subsection \<open>Draining\<close>

text \<open>\<open>endpointsFor\<close>: every server, with the drained flag replaced where \<open>drains\<close> says so.\<close>

definition endpointsFor :: "(int \<rightharpoonup> bool) \<Rightarrow> store_server list \<Rightarrow> endpoint list" where
  "endpointsFor drains servers =
     map (\<lambda>s. \<lparr>ep_edge_id = ss_edge s, ep_region = ss_region s, ep_ip = ss_ip s, ep_status = ss_status s,
               ep_last_seen = ss_last_seen s, ep_weight = 0, ep_override = '''', ep_capacity = 0, ep_by_capacity = False,
               ep_load_factor = 0, ep_health = ss_health s,
               ep_drained = (case drains (ss_id s) of Some b \<Rightarrow> b | None \<Rightarrow> ss_drained s)\<rparr>) servers"

definition inRotationCount :: "instant \<Rightarrow> duration \<Rightarrow> (int \<rightharpoonup> bool) \<Rightarrow> store_server list \<Rightarrow> nat" where
  "inRotationCount now stale drains servers =
     (let dec = RotationDecision (endpointsFor drains servers) now stale
      in length (filter (\<lambda>i. case dec i of None \<Rightarrow> False | Some d \<Rightarrow> dec_in d) (remdups (map ss_edge servers))))"

definition drainServer :: "fleet_cfg \<Rightarrow> instant \<Rightarrow> string \<Rightarrow> string \<Rightarrow> bool \<Rightarrow> control_db \<Rightarrow> fleet_reply" where
  "drainServer g now path reason force db =
     (case idParam ''id'' path of
        Inl a \<Rightarrow> (fst a, db, [])
      | Inr i \<Rightarrow>
          (case GetServer i db of
             Inl e \<Rightarrow> (if e = ErrNotFound then 404 else 500, db, [])
           | Inr s \<Rightarrow>
               (let servers = ListServers db;
                    before = inRotationCount now (staleAfter g) Map.empty servers;
                    after = inRotationCount now (staleAfter g) [i \<mapsto> True] servers in
                if before > 0 \<and> after = 0 \<and> \<not> force then (409, db, [])
                else (case SetServerDrain now i True (trim_space reason) db of
                        Inl e \<Rightarrow> (500, db, [])
                      | Inr (s, d) \<Rightarrow> (200, d, auditDrain g s ''drain'' (trim_space reason) # reconcileNow g ''drain'')))))"

definition undrainServer :: "fleet_cfg \<Rightarrow> instant \<Rightarrow> string \<Rightarrow> control_db \<Rightarrow> fleet_reply" where
  "undrainServer g now path db =
     (case idParam ''id'' path of
        Inl a \<Rightarrow> (fst a, db, [])
      | Inr i \<Rightarrow> (case SetServerDrain now i False '''' db of
                   Inl e \<Rightarrow> (if e = ErrNotFound then 404 else 500, db, [])
                 | Inr (s, d) \<Rightarrow> (200, d, auditDrain g s ''undrain'' ''resume'' # reconcileNow g ''undrain'')))"

definition in_region :: "string \<Rightarrow> store_server \<Rightarrow> bool" where
  "in_region region s \<longleftrightarrow> equal_fold (ss_region s) region"

definition drainRegion :: "fleet_cfg \<Rightarrow> instant \<Rightarrow> string \<Rightarrow> string \<Rightarrow> bool \<Rightarrow> control_db \<Rightarrow> fleet_reply" where
  "drainRegion g now param reason force db =
     (let region = trim_space param in
      if region = '''' then (400, db, [])
      else (let servers = ListServers db; hit = filter (in_region region) servers;
                before = inRotationCount now (staleAfter g) Map.empty servers;
                after = inRotationCount now (staleAfter g) (\<lambda>i. if i \<in> set (map ss_id hit) then Some True else None) servers in
            if hit = [] then (404, db, [])
            else if before > 0 \<and> after = 0 \<and> \<not> force then (409, db, [])
            else (case DrainRegion now region True (trim_space reason) db of
                    (affected, d) \<Rightarrow>
                      (200, d, map (\<lambda>s. auditDrain g s ''drain'' (''region:'' @ region)) affected @ reconcileNow g ''region_drain''))))"

definition undrainRegion :: "fleet_cfg \<Rightarrow> instant \<Rightarrow> string \<Rightarrow> control_db \<Rightarrow> fleet_reply" where
  "undrainRegion g now param db =
     (let region = trim_space param in
      if region = '''' then (400, db, [])
      else (case DrainRegion now region False '''' db of
              (affected, d) \<Rightarrow>
                if affected = [] then (404, d, [])
                else (200, d, map (\<lambda>s. auditDrain g s ''undrain'' (''region:'' @ region)) affected @ reconcileNow g ''region_undrain'')))"


definition serverRotation :: "fleet_cfg \<Rightarrow> instant \<Rightarrow> string \<Rightarrow> control_db \<Rightarrow> int \<times> decision option" where
  "serverRotation g now path db =
     (case idParam ''id'' path of
        Inl a \<Rightarrow> (fst a, None)
      | Inr i \<Rightarrow>
          (case GetServer i db of
             Inl e \<Rightarrow> (if e = ErrNotFound then 404 else 500, None)
           | Inr s \<Rightarrow> (200, Some (case RotationDecision (endpointsFor Map.empty (ListServers db)) now (staleAfter g) (ss_edge s) of
                                  None \<Rightarrow> \<lparr>dec_in = False, dec_reason = ''''\<rparr> | Some d \<Rightarrow> d))))"

subsection \<open>Status, routing, health and assignment\<close>

definition setServerStatus :: "fleet_cfg \<Rightarrow> string \<Rightarrow> string option \<Rightarrow> control_db \<Rightarrow> fleet_reply" where
  "setServerStatus g path inp db =
     (case idParam ''id'' path of
        Inl a \<Rightarrow> (fst a, db, [])
      | Inr i \<Rightarrow>
          (case inp of
             None \<Rightarrow> (400, db, [])
           | Some s0 \<Rightarrow>
               if s0 \<notin> {''online'', ''offline'', ''disabled'', ''drained'', ''active''} then (400, db, [])
               else (let st = (if to_lower s0 = ''active'' then ''online'' else to_lower s0)
                     in (200, UpdateServerStatus i st db, triggerDNSReconcile g ''status_change''))))"

record routing_input =
  ri_weight :: "int option"
  ri_override :: string
  ri_capacity :: "int option"
  ri_by_capacity :: "bool option"

definition setServerRouting :: "fleet_cfg \<Rightarrow> string \<Rightarrow> routing_input option \<Rightarrow> control_db \<Rightarrow> fleet_reply" where
  "setServerRouting g path inp db =
     (case idParam ''id'' path of
        Inl a \<Rightarrow> (fst a, db, [])
      | Inr i \<Rightarrow>
          (case inp of
             None \<Rightarrow> (400, db, [])
           | Some r \<Rightarrow>
               (let weight = (case ri_weight r of None \<Rightarrow> 100 | Some w \<Rightarrow> w);
                    mode = to_lower (trim_space (ri_override r)) in
                if weight < 0 \<or> weight > 100 then (400, db, [])
                else if mode \<notin> {'''', ModeGeographic, ModeLatency} then (400, db, [])
                else if (case ri_capacity r of None \<Rightarrow> False | Some c \<Rightarrow> c < 0) then (400, db, [])
                else (case UpdateServerRouting i weight mode (ri_capacity r) (ri_by_capacity r) db of
                        Inl e \<Rightarrow> (if e = ErrNotFound then 404 else 500, db, [])
                      | Inr (s, d) \<Rightarrow> (200, d, triggerDNSReconcile g ''routing_change'')))))"

record health_input =
  hi_enabled :: "bool option"
  hi_interval :: "int option"
  hi_fail :: "int option"
  hi_rise :: "int option"

definition setServerHealthConfig :: "string \<Rightarrow> health_input option \<Rightarrow> control_db \<Rightarrow> fleet_reply" where
  "setServerHealthConfig path inp db =
     (case idParam ''id'' path of
        Inl a \<Rightarrow> (fst a, db, [])
      | Inr i \<Rightarrow>
          (case GetServer i db of
             Inl e \<Rightarrow> (if e = ErrNotFound then 404 else 500, db, [])
           | Inr cur \<Rightarrow>
               (case inp of
                  None \<Rightarrow> (400, db, [])
                | Some h \<Rightarrow>
                    (let on = coalesce (hi_enabled h) (ss_health_on cur);
                         interval = coalesce (hi_interval h) (ss_interval cur);
                         fl = coalesce (hi_fail h) (ss_fail cur);
                         rise = coalesce (hi_rise h) (ss_rise cur) in
                     if interval < 0 \<or> interval > 300 then (400, db, [])
                     else if fl < 0 \<or> fl > 10 \<or> rise < 0 \<or> rise > 10 then (400, db, [])
                     else (case UpdateServerHealthConfig i on interval fl rise db of
                             Inl e \<Rightarrow> (500, db, [])
                           | Inr (s, d) \<Rightarrow> (200, d, []))))))"

text \<open>The persisted verdict of a probe transition, and the reconcile with its reason.\<close>

definition on_transition :: "fleet_cfg \<Rightarrow> instant \<Rightarrow> health_target \<Rightarrow> bool \<Rightarrow> control_db \<Rightarrow> control_db \<times> fleet_effect list" where
  "on_transition g now t healthy db =
     (let (st, reason) = (if healthy then (''healthy'', ''health_recovered'') else (''unhealthy'', ''health_unhealthy''))
      in (store_SetServerHealth now (ht_server t) st db, reconcileNow g reason))"

definition assignZone :: "fleet_cfg \<Rightarrow> string \<Rightarrow> int option \<Rightarrow> control_db \<Rightarrow> fleet_reply" where
  "assignZone g path zone db =
     (case idParam ''id'' path of
        Inl a \<Rightarrow> (fst a, db, [])
      | Inr i \<Rightarrow>
          (case zone of
             None \<Rightarrow> (400, db, [])
           | Some z \<Rightarrow>
               if z = 0 then (400, db, [])
               else (case AssignZone i z db of
                       Inl e \<Rightarrow> (if e = ErrNotFound then 404 else 500, db, [])
                     | Inr d \<Rightarrow> (201, BumpZoneConfigVersion z d, triggerDNSReconcile g ''zone_assign''))))"

definition unassignZone :: "fleet_cfg \<Rightarrow> string \<Rightarrow> string \<Rightarrow> control_db \<Rightarrow> fleet_reply" where
  "unassignZone g path zpath db =
     (case idParam ''id'' path of
        Inl a \<Rightarrow> (fst a, db, [])
      | Inr i \<Rightarrow>
          (case idParam ''zoneId'' zpath of
             Inl a \<Rightarrow> (fst a, db, [])
           | Inr z \<Rightarrow>
               (case UnassignZone i z db of
                  Inl e \<Rightarrow> (if e = ErrNotFound then 404 else 500, db, [])
                | Inr d \<Rightarrow> (204, BumpZoneConfigVersion z d, triggerDNSReconcile g ''zone_unassign''))))"

subsection \<open>The guard of a drain\<close>

definition edges_distinct :: "control_db \<Rightarrow> bool" where
  "edges_distinct db \<longleftrightarrow> distinct (map ss_edge (tb_servers db)) \<and> distinct (map ss_id (tb_servers db))"

lemma Online_cong:
  "ep_status e = ep_status f \<Longrightarrow> ep_last_seen e = ep_last_seen f \<Longrightarrow> Online e now stale = Online f now stale"
  by (simp add: Online_def)

definition usable_server :: "instant \<Rightarrow> duration \<Rightarrow> store_server \<Rightarrow> bool" where
  "usable_server now stale s \<longleftrightarrow> \<not> ss_drained s \<and>
     (Online (fleet_endpoint (\<lambda>i. 0) s) now stale \<or> \<not> Unhealthy (fleet_endpoint (\<lambda>i. 0) s))"

lemma fleet_in_rotation_iff:
  assumes "edges_distinct db"
  shows "(\<exists>ep \<in> set (fleet_endpoints factor db). in_rotation (RotationState (fleet_endpoints factor db) now stale) (ep_edge_id ep)) \<longleftrightarrow>
    (\<exists>s \<in> set (tb_servers db). \<not> pure_shield s \<and> usable_server now stale s)"
proof -
  have ids: "map ep_edge_id (fleet_endpoints factor db) = map ss_edge (filter (\<lambda>s. \<not> pure_shield s) (ListServers db))"
    by (simp add: fleet_endpoints_def fleet_endpoint_def)
  have "mset (map ss_edge (ListServers db)) = mset (map ss_edge (tb_servers db))" by (simp add: ListServers_def)
  then have "distinct (map ss_edge (ListServers db))"
    using assms mset_eq_imp_distinct_iff unfolding edges_distinct_def by blast
  then have d: "distinct (map ep_edge_id (fleet_endpoints factor db))"
    unfolding ids by (rule distinct_map_filter)
  have u: "\<not> ep_drained (fleet_endpoint factor s) \<and> (Online (fleet_endpoint factor s) now stale \<or> \<not> Unhealthy (fleet_endpoint factor s))
      \<longleftrightarrow> usable_server now stale s" for s
    by (simp add: usable_server_def fleet_endpoint_def Online_def Unhealthy_def)
  have "(\<exists>ep \<in> set (fleet_endpoints factor db). in_rotation (RotationState (fleet_endpoints factor db) now stale) (ep_edge_id ep)) \<longleftrightarrow>
      (\<exists>ep \<in> set (fleet_endpoints factor db). \<not> ep_drained ep \<and> (Online ep now stale \<or> \<not> Unhealthy ep))"
    using usable_in_rotation [OF d] in_rotation_usable [OF d] by meson
  also have "\<dots> \<longleftrightarrow> (\<exists>s \<in> set (tb_servers db). \<not> pure_shield s \<and> usable_server now stale s)"
    by (simp add: fleet_endpoints_def ListServers_def u) blast
  finally show ?thesis .
qed


lemma endpointsFor_fleet:
  "endpointsFor drains servers =
     map (\<lambda>s. (fleet_endpoint (\<lambda>i. 0) s)\<lparr>ep_weight := 0, ep_override := '''', ep_capacity := 0, ep_by_capacity := False,
            ep_drained := (case drains (ss_id s) of Some b \<Rightarrow> b | None \<Rightarrow> ss_drained s)\<rparr>) servers"
  by (simp add: endpointsFor_def fleet_endpoint_def)

text \<open>The count of the guard is positive exactly when some server of the list is usable once the flags of \<open>drains\<close> are set.\<close>

lemma inRotationCount_pos:
  assumes d: "distinct (map ss_edge servers)"
  shows "inRotationCount now stale drains servers > 0 \<longleftrightarrow>
    (\<exists>s \<in> set servers. usable_server now stale (s\<lparr>ss_drained := (case drains (ss_id s) of Some b \<Rightarrow> b | None \<Rightarrow> ss_drained s)\<rparr>))"
proof -
  let ?eps = "endpointsFor drains servers"
  have ids: "map ep_edge_id ?eps = map ss_edge servers" by (simp add: endpointsFor_def)
  have d': "distinct (map ep_edge_id ?eps)" unfolding ids by (rule d)
  have "inRotationCount now stale drains servers > 0 \<longleftrightarrow>
      (\<exists>i \<in> set (map ss_edge servers). in_rotation (RotationState ?eps now stale) i)"
    by (auto simp: inRotationCount_def Let_def filter_empty_conv in_rotation_def RotationState_def split: option.splits)
  also have "\<dots> \<longleftrightarrow> (\<exists>i \<in> set (map ep_edge_id ?eps). in_rotation (RotationState ?eps now stale) i)" unfolding ids ..
  also have "\<dots> \<longleftrightarrow> (\<exists>ep \<in> set ?eps. in_rotation (RotationState ?eps now stale) (ep_edge_id ep))" by simp
  also have "\<dots> \<longleftrightarrow> (\<exists>ep \<in> set ?eps. \<not> ep_drained ep \<and> (Online ep now stale \<or> \<not> Unhealthy ep))"
    using usable_in_rotation [OF d'] in_rotation_usable [OF d'] by meson
  also have "\<dots> \<longleftrightarrow> (\<exists>s \<in> set servers. usable_server now stale (s\<lparr>ss_drained := (case drains (ss_id s) of Some b \<Rightarrow> b | None \<Rightarrow> ss_drained s)\<rparr>))"
    by (simp add: endpointsFor_def usable_server_def fleet_endpoint_def Online_def Unhealthy_def)
  finally show ?thesis .
qed

lemma usable_server_drained [simp]: "ss_drained s \<Longrightarrow> \<not> usable_server now stale s"
  by (simp add: usable_server_def)

lemma upper_iff_lower_char: "upper_char c = upper_char d \<longleftrightarrow> lower_char c = lower_char d"
proof -
  have u: "(of_char (upper_char c) :: nat) = (if 97 \<le> (of_char c :: nat) \<and> of_char c \<le> (122 :: nat) then of_char c - 32 else of_char c)" for c
    by (auto simp: upper_char_def Let_def)
  have l: "(of_char (lower_char c) :: nat) = (if 65 \<le> (of_char c :: nat) \<and> of_char c \<le> (90 :: nat) then of_char c + 32 else of_char c)" for c
    by (auto simp: lower_char_def Let_def)
  have e: "x = y \<longleftrightarrow> (of_char x :: nat) = of_char y" for x y :: char by simp
  have "((if 97 \<le> n \<and> n \<le> 122 then n - 32 else n) = (if 97 \<le> m \<and> m \<le> 122 then m - 32 else m)) \<longleftrightarrow>
        ((if 65 \<le> n \<and> n \<le> 90 then n + 32 else n) = (if 65 \<le> m \<and> m \<le> 90 then m + 32 else m))" for n m :: nat
    by (auto split: if_splits)
  then show ?thesis unfolding e [of "upper_char c"] e [of "lower_char c"] u l .
qed

lemma to_upper_iff: "to_upper s = to_upper t \<longleftrightarrow> to_lower s = to_lower t"
  unfolding to_upper_def to_lower_def
  by (auto simp: list_eq_iff_nth_eq map_eq_conv upper_iff_lower_char)

text \<open>One step for both handlers: the servers \<open>P\<close> are drained, and the guard saw their ids.\<close>

lemma drain_guard:
  assumes e: "edges_distinct db" and np: "\<forall>s \<in> set (tb_servers db). \<not> pure_shield s"
    and b: "inRotationCount now stale Map.empty (ListServers db) > 0 \<longrightarrow> inRotationCount now stale drains (ListServers db) > 0"
    and drains: "\<And>s. s \<in> set (tb_servers db) \<Longrightarrow> drains (ss_id s) = (if P s then Some True else None)"
    and r: "\<exists>ep \<in> set (fleet_endpoints factor db). in_rotation (RotationState (fleet_endpoints factor db) now stale) (ep_edge_id ep)"
    and f: "\<And>s. ss_edge (f s) = ss_edge s" "\<And>s. ss_id (f s) = ss_id s"
    and db': "db' = set_servers P f db"
  shows "\<exists>ep \<in> set (fleet_endpoints factor db'). in_rotation (RotationState (fleet_endpoints factor db') now stale) (ep_edge_id ep)"
proof -
  have "mset (map ss_edge (ListServers db)) = mset (map ss_edge (tb_servers db))" by (simp add: ListServers_def)
  then have d: "distinct (map ss_edge (ListServers db))"
    using e mset_eq_imp_distinct_iff unfolding edges_distinct_def by blast
  have "\<exists>s \<in> set (tb_servers db). usable_server now stale s"
    using r fleet_in_rotation_iff [OF e] by blast
  then have "inRotationCount now stale Map.empty (ListServers db) > 0"
    unfolding inRotationCount_pos [OF d] by (auto simp: ListServers_def)
  with b have "inRotationCount now stale drains (ListServers db) > 0" by blast
  then obtain s where s: "s \<in> set (tb_servers db)"
      "usable_server now stale (s\<lparr>ss_drained := (case drains (ss_id s) of Some b \<Rightarrow> b | None \<Rightarrow> ss_drained s)\<rparr>)"
    unfolding inRotationCount_pos [OF d] by (auto simp: ListServers_def)
  then have nP: "\<not> P s" using drains [OF s(1)] by (auto split: if_splits)
  then have "drains (ss_id s) = None" using drains [OF s(1)] by simp
  with s(2) have us: "usable_server now stale s" by simp
  have mem: "s \<in> set (tb_servers db')" using s(1) nP unfolding db' set_servers_def by force
  have "map ss_edge (tb_servers db') = map ss_edge (tb_servers db)" "map ss_id (tb_servers db') = map ss_id (tb_servers db)"
    unfolding db' set_servers_def by (simp_all add: f)
  then have "edges_distinct db'" using e unfolding edges_distinct_def by simp
  from fleet_in_rotation_iff [OF this] mem us np s(1) show ?thesis by blast
qed

lemma drain_row_keeps [simp]: "ss_edge (drain_row now b r s) = ss_edge s" "ss_id (drain_row now b r s) = ss_id s"
  by (simp_all add: drain_row_def)

text \<open>
  C12: A drain of a server or of a region that was not forced never empties DNS: when some edge of
  the fleet is in rotation, one still is right after the answer 200, by the syncer's own decision
  on the new database, at the moment the guard read. The fleet must have no pure shields: the guard
  counts them although the syncer never publishes them (see the findings).
\<close>

theorem drain_keeps_rotation:
  assumes "edges_distinct db" "\<forall>s \<in> set (tb_servers db). \<not> pure_shield s"
    and "\<exists>ep \<in> set (fleet_endpoints factor db).
           in_rotation (RotationState (fleet_endpoints factor db) now (staleAfter g)) (ep_edge_id ep)"
    and "drainServer g now path reason False db = (200, db', eff) \<or> drainRegion g now param reason False db = (200, db', eff)"
  shows "\<exists>ep \<in> set (fleet_endpoints factor db').
           in_rotation (RotationState (fleet_endpoints factor db') now (staleAfter g)) (ep_edge_id ep)"
  using assms(4)
proof
  assume "drainServer g now path reason False db = (200, db', eff)"
  then obtain i s where
      g': "inRotationCount now (staleAfter g) Map.empty (ListServers db) > 0 \<longrightarrow>
           inRotationCount now (staleAfter g) [i \<mapsto> True] (ListServers db) > 0"
    and d: "SetServerDrain now i True (trim_space reason) db = Inr (s, db')"
    by (auto simp: drainServer_def Let_def idParam_def fail_def split: sum.splits if_splits option.splits)
  from d have db': "db' = set_servers (\<lambda>s. ss_id s = i) (drain_row now True (trim_space reason)) db"
    by (auto simp: SetServerDrain_def update_server_def split: sum.splits)
  show ?thesis by (rule drain_guard [OF assms(1,2) g' _ assms(3) _ _ db']) auto
next
  assume r: "drainRegion g now param reason False db = (200, db', eff)"
  let ?hit = "filter (in_region (trim_space param)) (ListServers db)"
  let ?drains = "\<lambda>i. if i \<in> set (map ss_id ?hit) then Some True else None"
  have g': "inRotationCount now (staleAfter g) Map.empty (ListServers db) > 0 \<longrightarrow>
            inRotationCount now (staleAfter g) ?drains (ListServers db) > 0"
    and db': "db' = set_servers (\<lambda>s. to_upper (ss_region s) = to_upper (trim_space param)) (drain_row now True (trim_space reason)) db"
    using r by (auto simp: drainRegion_def DrainRegion_def Let_def split: if_splits)
  have inj: "s = t" if "s \<in> set (tb_servers db)" "t \<in> set (tb_servers db)" "ss_id s = ss_id t" for s t
    using that assms(1) unfolding edges_distinct_def distinct_map inj_on_def by blast
  have "?drains (ss_id s) = (if to_upper (ss_region s) = to_upper (trim_space param) then Some True else None)"
    if "s \<in> set (tb_servers db)" for s
    using that inj by (auto simp: in_region_def equal_fold_def to_upper_iff ListServers_def)
  from drain_guard [OF assms(1,2) g' this assms(3) _ _ db'] show ?thesis by auto
qed


definition demo_pair :: control_db where
  "demo_pair = run_txns
     [OnServer (TCreateServer (demo_server_params ''e1'')), OnServer (TCreateServer (demo_server_params ''e2''))] AgentApi.empty_db"

definition demo_fleet :: fleet_cfg where
  "demo_fleet = \<lparr>fc_sync = None, fc_record = ''cdn''\<rparr>"

lemma drain_keeps_rotation_witness:
  "\<exists>db' eff. drainServer demo_fleet 0 ''1'' '''' False demo_pair = (200, db', eff) \<and>
     (\<exists>ep \<in> set (fleet_endpoints (\<lambda>i. 1) db').
        in_rotation (RotationState (fleet_endpoints (\<lambda>i. 1) db') 0 (staleAfter demo_fleet)) (ep_edge_id ep))"
proof -
  have d: "edges_distinct demo_pair" "\<forall>s \<in> set (tb_servers demo_pair). \<not> pure_shield s" by code_simp+
  have "\<exists>s \<in> set (tb_servers demo_pair). \<not> pure_shield s \<and> usable_server 0 (staleAfter demo_fleet) s" by code_simp
  then have r: "\<exists>ep \<in> set (fleet_endpoints (\<lambda>i. 1) demo_pair).
      in_rotation (RotationState (fleet_endpoints (\<lambda>i. 1) demo_pair) 0 (staleAfter demo_fleet)) (ep_edge_id ep)"
    by (simp only: fleet_in_rotation_iff [OF d(1)])
  have "fst (drainServer demo_fleet 0 ''1'' '''' False demo_pair) = 200" by code_simp
  then obtain db' eff where a: "drainServer demo_fleet 0 ''1'' '''' False demo_pair = (200, db', eff)"
    by (metis prod.collapse)
  from drain_keeps_rotation [OF d r disjI1, OF a] a show ?thesis by blast
qed

text \<open>
  The guard of a drain counts pure shields, which the syncer never publishes: with one shield
  behind it, the last public edge can be drained without force.
\<close>

definition demo_shielded :: control_db where
  "demo_shielded = set_servers (\<lambda>s. ss_id s = 2) (\<lambda>s. s\<lparr>ss_role := ''shield'', ss_public := False\<rparr>) demo_pair"

lemma drain_counts_shields:
  "fst (drainServer demo_fleet 0 ''1'' '''' False demo_shielded) = 200"
  "\<exists>ep \<in> set (fleet_endpoints (\<lambda>i. 1) demo_shielded).
     in_rotation (RotationState (fleet_endpoints (\<lambda>i. 1) demo_shielded) 0 (staleAfter demo_fleet)) (ep_edge_id ep)"
  "\<not> (\<exists>ep \<in> set (fleet_endpoints (\<lambda>i. 1) (fst (snd (drainServer demo_fleet 0 ''1'' '''' False demo_shielded)))).
     in_rotation (RotationState (fleet_endpoints (\<lambda>i. 1) (fst (snd (drainServer demo_fleet 0 ''1'' '''' False demo_shielded)))) 0
       (staleAfter demo_fleet)) (ep_edge_id ep))"
proof -
  let ?db' = "fst (snd (drainServer demo_fleet 0 ''1'' '''' False demo_shielded))"
  have d: "edges_distinct demo_shielded" "edges_distinct ?db'" by code_simp+
  show "fst (drainServer demo_fleet 0 ''1'' '''' False demo_shielded) = 200" by code_simp
  show "\<exists>ep \<in> set (fleet_endpoints (\<lambda>i. 1) demo_shielded).
     in_rotation (RotationState (fleet_endpoints (\<lambda>i. 1) demo_shielded) 0 (staleAfter demo_fleet)) (ep_edge_id ep)"
    unfolding fleet_in_rotation_iff [OF d(1)] by code_simp
  show "\<not> (\<exists>ep \<in> set (fleet_endpoints (\<lambda>i. 1) ?db').
     in_rotation (RotationState (fleet_endpoints (\<lambda>i. 1) ?db') 0 (staleAfter demo_fleet)) (ep_edge_id ep))"
    unfolding fleet_in_rotation_iff [OF d(2)] by code_simp
qed

text \<open>
  The rollout engine's view of an edge reads the status column and never the heartbeat: an edge
  that stopped reporting stays online, with the version it last reported.
\<close>

lemma rollout_ignores_heartbeat:
  "live_edge_of (db\<lparr>tb_servers := map (\<lambda>s. s\<lparr>ss_last_seen := t\<rparr>) (tb_servers db)\<rparr>) edge = live_edge_of db edge"
proof -
  have 1: "sort_key ss_id (map (\<lambda>s. s\<lparr>ss_last_seen := t\<rparr>) xs) = map (\<lambda>s. s\<lparr>ss_last_seen := t\<rparr>) (sort_key ss_id xs)" for xs
  proof (rule properties_for_sort_key)
    have "filter (\<lambda>y. k = ss_id y) (sort_key ss_id xs) = filter (\<lambda>y. k = ss_id y) xs" for k
      using sort_key_stable [of ss_id k xs] by (simp add: eq_commute)
    then show "filter (\<lambda>y. ss_id x = ss_id y) (map (\<lambda>s. s\<lparr>ss_last_seen := t\<rparr>) (sort_key ss_id xs)) =
        filter (\<lambda>y. ss_id x = ss_id y) (map (\<lambda>s. s\<lparr>ss_last_seen := t\<rparr>) xs)" for x
      by (simp add: filter_map o_def)
  qed (auto simp: o_def)
  have "find (\<lambda>s. ss_edge s = edge) (map (\<lambda>s. s\<lparr>ss_last_seen := t\<rparr>) xs) =
      map_option (\<lambda>s. s\<lparr>ss_last_seen := t\<rparr>) (find (\<lambda>s. ss_edge s = edge) xs)" for xs :: "store_server list"
    by (induction xs) auto
  then show ?thesis by (simp add: live_edge_of_def ListServers_def 1 split: option.splits)
qed

text \<open>Setting the status of a server that does not exist answers 200 and changes nothing.\<close>

lemma unknown_server_status:
  assumes "parse_int path = Some i" "GetServer i db = Inl ErrNotFound"
  shows "setServerStatus g path (Some ''disabled'') db = (200, db, triggerDNSReconcile g ''status_change'')"
proof -
  have "\<forall>s \<in> set (tb_servers db). ss_id s \<noteq> i" using assms(2)
    by (auto simp: GetServer_def find_None_iff split: option.splits)
  then have "map (\<lambda>s. if ss_id s = i then s\<lparr>ss_status := x\<rparr> else s) (tb_servers db) = tb_servers db" for x
    by (simp add: map_idI)
  moreover have "to_lower ''disabled'' = ''disabled''" by code_simp
  ultimately show ?thesis using assms(1)
    by (simp add: setServerStatus_def idParam_def UpdateServerStatus_def set_servers_def)
qed

end
