(* ===== verification/ServersApi.thy ===== *)
theory ServersApi
  imports Provision DnsLock Fleet "HOL-Library.Word"
begin

section \<open>Servers and the tokens of their agents\<close>

text \<open>
  \<open>api/servers.go\<close> over \<open>agent_tokens\<close> (\<open>store/tokens.go\<close>), the shape of a token (\<open>internal/token\<close>) and
  the check of an agent request (\<open>internal/auth\<close>). SHA-256 in hex and the IP validator are parameters;
  random text is an input of the step that draws it, \<open>None\<close> when the source fails. A handler returns
  its status, the row and token of its answer, and the jobs and effects it started.
\<close>

subsection \<open>Tokens\<close>

definition PrefixLen :: nat where
  "PrefixLen = 14"

definition Generate :: "string option \<Rightarrow> string option" where
  "Generate raw = map_option (\<lambda>r. ''brisk_'' @ r) raw"

definition token_Prefix :: "string \<Rightarrow> string" where
  "token_Prefix tok = (if length tok < PrefixLen then tok else take PrefixLen tok)"

definition token_Verify :: "(string \<Rightarrow> string) \<Rightarrow> string \<Rightarrow> string \<Rightarrow> bool" where
  "token_Verify hash tok stored = (hash tok = stored)"

record agent_token =
  at_id :: int
  at_server :: int
  at_prefix :: string
  at_hash :: string
  at_revoked :: bool

record edge_world =
  ew_db :: control_db
  ew_tokens :: "agent_token list"
  ew_next :: int

definition CreateAgentToken :: "int \<Rightarrow> string \<Rightarrow> string \<Rightarrow> edge_world \<Rightarrow> store_error + edge_world" where
  "CreateAgentToken server pre h w =
     (if \<not> server_exists server (ew_db w) then Inl ForeignKeyViolation
      else Inr (w\<lparr>ew_tokens := ew_tokens w @
                 [\<lparr>at_id = ew_next w, at_server = server, at_prefix = pre, at_hash = h, at_revoked = False\<rparr>],
               ew_next := ew_next w + 1\<rparr>))"

text \<open>\<open>ORDER BY id DESC LIMIT 1\<close>.\<close>

definition ActiveTokenByPrefix :: "string \<Rightarrow> edge_world \<Rightarrow> store_error + agent_token" where
  "ActiveTokenByPrefix pre w =
     (case rev (sort_key at_id (filter (\<lambda>t. at_prefix t = pre \<and> \<not> at_revoked t) (ew_tokens w))) of
        [] \<Rightarrow> Inl ErrNotFound
      | t # ts \<Rightarrow> Inr t)"

definition RevokeServerTokens :: "int \<Rightarrow> edge_world \<Rightarrow> edge_world" where
  "RevokeServerTokens server w =
     w\<lparr>ew_tokens := map (\<lambda>t. if at_server t = server \<and> \<not> at_revoked t then t\<lparr>at_revoked := True\<rparr> else t) (ew_tokens w)\<rparr>"

text \<open>The foreign key of \<open>agent_tokens\<close> cascades.\<close>

definition world_DeleteServer :: "int \<Rightarrow> edge_world \<Rightarrow> store_error + edge_world" where
  "world_DeleteServer i w =
     (case DeleteServer i (ew_db w) of
        Inl e \<Rightarrow> Inl e
      | Inr db \<Rightarrow> Inr (w\<lparr>ew_db := db, ew_tokens := filter (\<lambda>t. at_server t \<noteq> i) (ew_tokens w)\<rparr>))"

definition Authenticate :: "(string \<Rightarrow> string) \<Rightarrow> string \<Rightarrow> edge_world \<Rightarrow> int option" where
  "Authenticate hash header w =
     (case cut_prefix header ''Bearer '' of
        None \<Rightarrow> None
      | Some tok \<Rightarrow>
          if tok = '''' then None
          else (case ActiveTokenByPrefix (token_Prefix tok) w of
                  Inl e \<Rightarrow> None
                | Inr t \<Rightarrow> if token_Verify hash tok (at_hash t) then Some (at_server t) else None))"

text \<open>\<open>Middleware\<close>: the status of a refusal, or the server for the handler.\<close>

definition auth_Middleware :: "(string \<Rightarrow> string) \<Rightarrow> string \<Rightarrow> edge_world \<Rightarrow> int + int" where
  "auth_Middleware hash header w = (case Authenticate hash header w of None \<Rightarrow> Inl 401 | Some i \<Rightarrow> Inr i)"

definition issueToken :: "(string \<Rightarrow> string) \<Rightarrow> int \<Rightarrow> string option \<Rightarrow> edge_world \<Rightarrow> edge_world \<times> string option" where
  "issueToken hash server raw w =
     (let w1 = RevokeServerTokens server w in
      case Generate raw of
        None \<Rightarrow> (w1, None)
      | Some tok \<Rightarrow> (case CreateAgentToken server (token_Prefix tok) (hash tok) w1 of
                      Inl e \<Rightarrow> (w1, None)
                    | Inr w2 \<Rightarrow> (w2, Some tok)))"

subsection \<open>The handlers\<close>

record create_server_input =
  si_name :: string
  si_region :: string
  si_ip :: string
  si_edge :: string
  si_hostname :: "string option"
  si_capacity :: "int option"
  si_by_capacity :: bool
  si_user :: string
  si_port :: int
  si_password :: string
  si_private_key :: string

record servers_env =
  sv_hash :: "string \<Rightarrow> string"
  sv_valid_ip :: "string \<Rightarrow> bool"
  sv_fleet :: fleet_cfg

datatype server_job = SpawnJob store_server prov_job | RemoveDNS string string | FleetEffect fleet_effect

record server_reply =
  sr_status :: int
  sr_row :: "store_server option"
  sr_token :: "string option"
  sr_jobs :: "server_job list"

definition refuse :: "int \<Rightarrow> server_reply" where
  "refuse status = \<lparr>sr_status = status, sr_row = None, sr_token = None, sr_jobs = []\<rparr>"

text \<open>Four hexadecimal digits of two random bytes, after the region in capitals.\<close>

definition edge_char :: "char \<Rightarrow> char" where
  "edge_char c = (if is_upper c \<or> is_digit c \<or> c = CHR ''-'' then c else CHR ''-'')"

definition generateEdgeID :: "string \<Rightarrow> string \<Rightarrow> string" where
  "generateEdgeID region hex =
     (let r = map edge_char (to_upper (trim_space region))
      in ''Brisk-'' @ (if r = '''' then ''EDGE'' else r) @ ''-'' @ hex)"

definition deref :: "string option \<Rightarrow> string \<Rightarrow> string" where
  "deref p dflt = (case p of None \<Rightarrow> dflt | Some s \<Rightarrow> if s \<noteq> '''' then s else dflt)"

definition int32 :: "int \<Rightarrow> int" where
  "int32 n = sint (word_of_int n :: 32 word)"

definition valid_server_input :: "servers_env \<Rightarrow> create_server_input \<Rightarrow> bool" where
  "valid_server_input E s \<longleftrightarrow> si_name s \<noteq> '''' \<and> si_region s \<noteq> '''' \<and> si_ip s \<noteq> '''' \<and> sv_valid_ip E (si_ip s) \<and> si_user s \<noteq> ''''"

definition mustGet :: "int \<Rightarrow> edge_world \<Rightarrow> store_server option" where
  "mustGet i w = (case GetServer i (ew_db w) of Inl e \<Rightarrow> None | Inr s \<Rightarrow> Some s)"

definition server_params :: "create_server_input \<Rightarrow> string \<Rightarrow> create_server_params" where
  "server_params s hex =
     \<lparr>cp_name = si_name s, cp_region = si_region s, cp_ip = si_ip s, cp_hostname = si_hostname s,
      cp_edge = (if si_edge s = '''' then generateEdgeID (si_region s) hex else si_edge s),
      cp_capacity = si_capacity s, cp_by_capacity = si_by_capacity s,
      cp_ssh_user = Some (si_user s), cp_ssh_port = int32 (si_port s)\<rparr>"

definition createServer ::
  "servers_env \<Rightarrow> create_server_input option \<Rightarrow> string option \<Rightarrow> string \<Rightarrow> edge_world \<Rightarrow> server_reply \<times> edge_world" where
  "createServer E inp raw hex w =
     (case inp of
        None \<Rightarrow> (refuse 400, w)
      | Some s \<Rightarrow>
          if \<not> valid_server_input E s then (refuse 400, w)
          else if si_password s = '''' \<and> si_private_key s = '''' then (refuse 400, w)
          else (case CreateServer (server_params s hex) (ew_db w) of
                  Inl e \<Rightarrow> (refuse (if e = UniqueViolation then 409 else 500), w)
                | Inr (srv, db) \<Rightarrow>
                    (case issueToken (sv_hash E) (ss_id srv) raw (w\<lparr>ew_db := db\<rparr>) of
                       (w1, None) \<Rightarrow> (refuse 500, w1)
                     | (w1, Some tok) \<Rightarrow>
                         (let creds = \<lparr>sc_user = si_user s, sc_port = si_port s, sc_password = si_password s, sc_key = si_private_key s\<rparr>;
                              w2 = w1\<lparr>ew_db := UpdateServerStatus (ss_id srv) ''provisioning'' (ew_db w1)\<rparr>
                          in (\<lparr>sr_status = 201, sr_row = mustGet (ss_id srv) w2, sr_token = Some tok,
                               sr_jobs = [SpawnJob srv (Onboard creds tok)]\<rparr>, w2)))))"

definition getServer :: "string \<Rightarrow> edge_world \<Rightarrow> server_reply \<times> edge_world" where
  "getServer path w =
     (case idParam ''id'' path of
        Inl a \<Rightarrow> (refuse (fst a), w)
      | Inr i \<Rightarrow> (case GetServer i (ew_db w) of
                   Inl e \<Rightarrow> (refuse (if e = ErrNotFound then 404 else 500), w)
                 | Inr s \<Rightarrow> (\<lparr>sr_status = 200, sr_row = Some s, sr_token = None, sr_jobs = []\<rparr>, w)))"

definition deleteServer :: "servers_env \<Rightarrow> string \<Rightarrow> edge_world \<Rightarrow> server_reply \<times> edge_world" where
  "deleteServer E path w =
     (case idParam ''id'' path of
        Inl a \<Rightarrow> (refuse (fst a), w)
      | Inr i \<Rightarrow>
          (let edge = (case GetServer i (ew_db w) of Inl e \<Rightarrow> '''' | Inr s \<Rightarrow> ss_edge s) in
           case world_DeleteServer i w of
             Inl e \<Rightarrow> (refuse (if e = ErrNotFound then 404 else 500), w)
           | Inr w' \<Rightarrow> (\<lparr>sr_status = 204, sr_row = None, sr_token = None,
                        sr_jobs = RemoveDNS edge ''server_delete'' #
                          map FleetEffect (triggerDNSReconcile (sv_fleet E) ''server_delete'')\<rparr>, w')))"

definition reprovision :: "servers_env \<Rightarrow> string \<Rightarrow> string option \<Rightarrow> edge_world \<Rightarrow> server_reply \<times> edge_world" where
  "reprovision E path raw w =
     (case idParam ''id'' path of
        Inl a \<Rightarrow> (refuse (fst a), w)
      | Inr i \<Rightarrow>
          (case GetServer i (ew_db w) of
             Inl e \<Rightarrow> (refuse (if e = ErrNotFound then 404 else 500), w)
           | Inr srv \<Rightarrow>
               (case issueToken (sv_hash E) (ss_id srv) raw w of
                  (w1, None) \<Rightarrow> (refuse 500, w1)
                | (w1, Some tok) \<Rightarrow>
                    (let creds = \<lparr>sc_user = deref (ss_ssh_user srv) ''root'', sc_port = ss_ssh_port srv,
                                  sc_password = '''', sc_key = ''''\<rparr>
                     in (\<lparr>sr_status = 202, sr_row = None, sr_token = Some tok, sr_jobs = [SpawnJob srv (Onboard creds tok)]\<rparr>,
                         w1\<lparr>ew_db := UpdateServerStatus (ss_id srv) ''provisioning'' (ew_db w1)\<rparr>)))))"

definition rotateToken :: "servers_env \<Rightarrow> string \<Rightarrow> string option \<Rightarrow> edge_world \<Rightarrow> server_reply \<times> edge_world" where
  "rotateToken E path raw w =
     (case idParam ''id'' path of
        Inl a \<Rightarrow> (refuse (fst a), w)
      | Inr i \<Rightarrow>
          (case GetServer i (ew_db w) of
             Inl e \<Rightarrow> (refuse (if e = ErrNotFound then 404 else 500), w)
           | Inr srv \<Rightarrow>
               (let w1 = RevokeServerTokens (ss_id srv) w in
                case Generate raw of
                  None \<Rightarrow> (refuse 500, w1)
                | Some tok \<Rightarrow>
                    (case CreateAgentToken (ss_id srv) (token_Prefix tok) (sv_hash E tok) w1 of
                       Inl e \<Rightarrow> (refuse 500, w1)
                     | Inr w2 \<Rightarrow> (\<lparr>sr_status = 200, sr_row = None, sr_token = Some tok,
                                  sr_jobs = [SpawnJob srv (PushToken tok)]\<rparr>, w2)))))"

datatype server_request =
    SCreate "create_server_input option" "string option" string
  | SGet string
  | SDelete string
  | SReprovision string "string option"
  | SRotate string "string option"

fun serve_server :: "servers_env \<Rightarrow> server_request \<Rightarrow> edge_world \<Rightarrow> server_reply \<times> edge_world" where
  "serve_server E (SCreate inp raw hex) w = createServer E inp raw hex w"
| "serve_server E (SGet path) w = getServer path w"
| "serve_server E (SDelete path) w = deleteServer E path w"
| "serve_server E (SReprovision path raw) w = reprovision E path raw w"
| "serve_server E (SRotate path raw) w = rotateToken E path raw w"


subsection \<open>Which tokens open the agent API\<close>

text \<open>The token each server was given last, read off the requests and their answers.\<close>

fun granted :: "server_request \<Rightarrow> server_reply \<Rightarrow> (int \<rightharpoonup> string) \<Rightarrow> (int \<rightharpoonup> string)" where
  "granted (SCreate inp raw hex) r m = (case sr_row r of None \<Rightarrow> m | Some s \<Rightarrow> m(ss_id s := sr_token r))"
| "granted (SGet path) r m = m"
| "granted (SDelete path) r m =
     (case parse_int path of None \<Rightarrow> m | Some i \<Rightarrow> if sr_status r = 204 then m(i := None) else m)"
| "granted (SReprovision path raw) r m =
     (case parse_int path of None \<Rightarrow> m | Some i \<Rightarrow> if sr_status r = 404 then m else m(i := sr_token r))"
| "granted (SRotate path raw) r m =
     (case parse_int path of None \<Rightarrow> m | Some i \<Rightarrow> if sr_status r = 404 then m else m(i := sr_token r))"

fun run_servers :: "servers_env \<Rightarrow> server_request list \<Rightarrow> (int \<rightharpoonup> string) \<times> edge_world \<Rightarrow> (int \<rightharpoonup> string) \<times> edge_world" where
  "run_servers E [] mw = mw"
| "run_servers E (q # qs) mw =
     (case serve_server E q (snd mw) of (r, w') \<Rightarrow> run_servers E qs (granted q r (fst mw), w'))"

text \<open>The active rows are those of the granted tokens, and belong to servers that exist.\<close>

definition token_row_of :: "(string \<Rightarrow> string) \<Rightarrow> string \<Rightarrow> agent_token \<Rightarrow> bool" where
  "token_row_of hash tok t \<longleftrightarrow> tok \<noteq> '''' \<and> at_prefix t = token_Prefix tok \<and> at_hash t = hash tok"

definition server_ids :: "edge_world \<Rightarrow> int set" where
  "server_ids w = ss_id ` set (tb_servers (ew_db w))"

definition tokens_match :: "(string \<Rightarrow> string) \<Rightarrow> (int \<rightharpoonup> string) \<Rightarrow> edge_world \<Rightarrow> bool" where
  "tokens_match hash m w \<longleftrightarrow>
     (\<forall>t \<in> set (ew_tokens w). \<not> at_revoked t \<longrightarrow> (\<exists>tok. m (at_server t) = Some tok \<and> token_row_of hash tok t)) \<and>
     (\<forall>i tok. m i = Some tok \<longrightarrow> (\<exists>t \<in> set (ew_tokens w). \<not> at_revoked t \<and> at_server t = i)) \<and>
     (\<forall>t \<in> set (ew_tokens w). at_server t \<in> server_ids w) \<and>
     (\<forall>i \<in> server_ids w. i < sq_server (ew_db w))"

lemma tokens_matchD:
  assumes "tokens_match hash m w"
  shows "t \<in> set (ew_tokens w) \<Longrightarrow> \<not> at_revoked t \<Longrightarrow> \<exists>tok. m (at_server t) = Some tok \<and> token_row_of hash tok t"
    and "m i = Some tok \<Longrightarrow> \<exists>t \<in> set (ew_tokens w). \<not> at_revoked t \<and> at_server t = i"
    and "t \<in> set (ew_tokens w) \<Longrightarrow> at_server t \<in> server_ids w"
    and "i \<in> server_ids w \<Longrightarrow> i < sq_server (ew_db w)"
  using assms unfolding tokens_match_def by blast+

lemma server_exists_ids: "server_exists i (ew_db w) \<longleftrightarrow> i \<in> server_ids w"
  by (auto simp: server_exists_def server_ids_def list_ex_iff)

lemma GetServer_ids: "i \<in> server_ids w \<longleftrightarrow> (\<exists>s. GetServer i (ew_db w) = Inr s \<and> ss_id s = i)"
  by (auto simp: server_ids_def GetServer_def find_None_iff dest: find_mem split: option.splits)

lemma revoke_match:
  assumes "tokens_match hash m w"
  shows "tokens_match hash (m(i := None)) (RevokeServerTokens i w)"
  using assms unfolding tokens_match_def RevokeServerTokens_def server_ids_def by (auto 0 4 simp: token_row_of_def)

lemma create_match:
  assumes m: "tokens_match hash m w" and i: "m i = None" and tok: "tok \<noteq> ''''" and c: "CreateAgentToken i (token_Prefix tok) (hash tok) w = Inr w'"
  shows "tokens_match hash (m(i \<mapsto> tok)) w'"
proof -
  have w': "i \<in> server_ids w" "ew_db w' = ew_db w" "server_ids w' = server_ids w"
      "ew_tokens w' = ew_tokens w @ [\<lparr>at_id = ew_next w, at_server = i, at_prefix = token_Prefix tok, at_hash = hash tok, at_revoked = False\<rparr>]"
    using c by (auto simp: CreateAgentToken_def server_exists_ids server_ids_def split: if_splits)
  have "at_server t \<noteq> i" if "t \<in> set (ew_tokens w)" "\<not> at_revoked t" for t
    using tokens_matchD(1) [OF m that] i by auto
  then show ?thesis using m w' tok unfolding tokens_match_def by (auto 0 4 simp: token_row_of_def)
qed

lemma issue_match:
  assumes m: "tokens_match hash m w" and i: "issueToken hash i raw w = (w', r)"
  shows "tokens_match hash (m(i := r)) w'" "ew_db w' = ew_db w"
proof -
  note rm = revoke_match [OF m, of i]
  have d: "ew_db (RevokeServerTokens i w) = ew_db w" by (simp add: RevokeServerTokens_def)
  have c: "tokens_match hash (m(i \<mapsto> tok)) w1" if "CreateAgentToken i (token_Prefix tok) (hash tok) (RevokeServerTokens i w) = Inr w1"
      "tok \<noteq> ''''" for tok w1
    using create_match [OF rm _ that(2,1)] by simp
  show "tokens_match hash (m(i := r)) w'"
  proof (cases "Generate raw")
    case None
    then show ?thesis using i rm by (auto simp: issueToken_def Let_def)
  next
    case (Some tok)
    show ?thesis
    proof (cases "CreateAgentToken i (token_Prefix tok) (hash tok) (RevokeServerTokens i w)")
      case (Inl e)
      then show ?thesis using i rm by (simp add: issueToken_def Let_def Some)
    next
      case (Inr w1)
      then have "w1 = w'" "r = Some tok" using i by (simp_all add: issueToken_def Let_def Some)
      then show ?thesis using c [OF Inr] Some by (auto simp: Generate_def)
    qed
  qed
  show "ew_db w' = ew_db w"
    using i d by (auto simp: issueToken_def Let_def CreateAgentToken_def split: option.splits sum.splits if_splits)
qed

lemma server_ids_status [simp]: "server_ids (w\<lparr>ew_db := UpdateServerStatus i st (ew_db w)\<rparr>) = server_ids w"
proof -
  have "ss_id \<circ> (\<lambda>s :: store_server. if ss_id s = i then s\<lparr>ss_status := st\<rparr> else s) = ss_id" by auto
  then have "map ss_id (map (\<lambda>s. if ss_id s = i then s\<lparr>ss_status := st\<rparr> else s) xs) = map ss_id xs" for xs :: "store_server list"
    by (simp only: map_map)
  from arg_cong [OF this, of set] show ?thesis
    by (simp only: server_ids_def UpdateServerStatus_def set_servers_def set_map) simp
qed

lemma status_match:
  "tokens_match hash m w \<Longrightarrow> tokens_match hash m (w\<lparr>ew_db := UpdateServerStatus i st (ew_db w)\<rparr>)"
  by (simp add: tokens_match_def UpdateServerStatus_def set_servers_def)
    (simp flip: UpdateServerStatus_def set_servers_def)

lemma delete_match:
  assumes "tokens_match hash m w" "world_DeleteServer i w = Inr w'"
  shows "tokens_match hash (m(i := None)) w'"
  using assms
  by (auto 0 3 simp: tokens_match_def world_DeleteServer_def DeleteServer_def server_ids_def split: sum.splits if_splits)

text \<open>A new server has a fresh id, without a token.\<close>

lemma new_server_match:
  assumes m: "tokens_match hash m w" and c: "CreateServer p (ew_db w) = Inr (srv, db)"
  shows "tokens_match hash m (w\<lparr>ew_db := db\<rparr>)" "m (ss_id srv) = None" "\<exists>s. GetServer (ss_id srv) db = Inr s"
proof -
  have db: "ss_id srv = sq_server (ew_db w)" "tb_servers db = tb_servers (ew_db w) @ [srv]" "sq_server db = sq_server (ew_db w) + 1"
    using c by (auto simp: CreateServer_def Let_def split: if_splits)
  show "\<exists>s. GetServer (ss_id srv) db = Inr s"
    by (auto simp: GetServer_def db(2) find_None_iff split: option.splits)
  show "tokens_match hash m (w\<lparr>ew_db := db\<rparr>)"
    using m db unfolding tokens_match_def server_ids_def by (auto 0 3)
  have "ss_id srv \<notin> server_ids w" using tokens_matchD(4) [OF m, of "ss_id srv"] db(1) by auto
  then show "m (ss_id srv) = None"
    using tokens_matchD(2,3) [OF m] by (metis not_None_eq)
qed

lemma create_server_match:
  assumes m: "tokens_match (sv_hash E) m w" and r: "createServer E inp raw hex w = (r, w')"
  shows "tokens_match (sv_hash E) (granted (SCreate inp raw hex) r m) w'"
proof (cases "sr_status r = 400 \<or> sr_status r = 409")
  case True
  then show ?thesis using m r
    by (auto simp: createServer_def refuse_def Let_def split: option.splits if_splits sum.splits prod.splits)
next
  case False
  then obtain s where s: "inp = Some s" "valid_server_input E s" "\<not> (si_password s = '''' \<and> si_private_key s = '''')"
    using r by (auto simp: createServer_def refuse_def split: option.splits if_splits)
  let ?p = "server_params s hex"
  have r': "createServer E inp raw hex w =
      (case CreateServer ?p (ew_db w) of
         Inl e \<Rightarrow> (refuse (if e = UniqueViolation then 409 else 500), w)
       | Inr (srv, db) \<Rightarrow>
           (case issueToken (sv_hash E) (ss_id srv) raw (w\<lparr>ew_db := db\<rparr>) of
              (w1, None) \<Rightarrow> (refuse 500, w1)
            | (w1, Some tok) \<Rightarrow>
                (\<lparr>sr_status = 201, sr_row = mustGet (ss_id srv) (w1\<lparr>ew_db := UpdateServerStatus (ss_id srv) ''provisioning'' (ew_db w1)\<rparr>),
                  sr_token = Some tok,
                  sr_jobs = [SpawnJob srv (Onboard \<lparr>sc_user = si_user s, sc_port = si_port s, sc_password = si_password s, sc_key = si_private_key s\<rparr> tok)]\<rparr>,
                 w1\<lparr>ew_db := UpdateServerStatus (ss_id srv) ''provisioning'' (ew_db w1)\<rparr>)))"
    unfolding createServer_def Let_def using s by auto
  show ?thesis
  proof (cases "CreateServer ?p (ew_db w)")
    case (Inl e)
    then show ?thesis using m r unfolding r' by (auto simp: refuse_def)
  next
    case (Inr sd)
    obtain srv db where sd: "sd = (srv, db)" by (cases sd)
    note new = new_server_match [OF m Inr [unfolded sd]]
    obtain w1 t where i: "issueToken (sv_hash E) (ss_id srv) raw (w\<lparr>ew_db := db\<rparr>) = (w1, t)"
      by (cases "issueToken (sv_hash E) (ss_id srv) raw (w\<lparr>ew_db := db\<rparr>)")
    note iss = issue_match [OF new(1) i]
    show ?thesis
    proof (cases t)
      case None
      have "m(ss_id srv := None) = m" using new(2) by auto
      then show ?thesis using r iss(1) Inr sd i None unfolding r' by (auto simp: refuse_def)
    next
      case (Some tok)
      let ?w2 = "w1\<lparr>ew_db := UpdateServerStatus (ss_id srv) ''provisioning'' (ew_db w1)\<rparr>"
      have rw: "w' = ?w2" "sr_row r = mustGet (ss_id srv) ?w2" "sr_token r = Some tok"
        using r Inr sd i Some unfolding r' by auto
      have "ss_id srv \<in> server_ids w1" using new(3) iss(2) GetServer_id by (auto simp: GetServer_ids)
      then have "ss_id srv \<in> server_ids ?w2" by simp
      then obtain x where x: "mustGet (ss_id srv) ?w2 = Some x" "ss_id x = ss_id srv"
        unfolding GetServer_ids mustGet_def by force
      show ?thesis using status_match [OF iss(1)] Some rw x by simp
    qed
  qed
qed

lemma rotate_is_issue:
  "rotateToken E path raw w =
     (case parse_int path of
        None \<Rightarrow> (refuse 400, w)
      | Some i \<Rightarrow> (case GetServer i (ew_db w) of
                    Inl e \<Rightarrow> (refuse (if e = ErrNotFound then 404 else 500), w)
                  | Inr srv \<Rightarrow> (case issueToken (sv_hash E) i raw w of
                                (w1, None) \<Rightarrow> (refuse 500, w1)
                              | (w1, Some tok) \<Rightarrow> (\<lparr>sr_status = 200, sr_row = None, sr_token = Some tok,
                                                   sr_jobs = [SpawnJob srv (PushToken tok)]\<rparr>, w1))))"
  by (auto simp: rotateToken_def idParam_def fail_def issueToken_def Let_def dest: GetServer_id
      split: option.splits sum.splits)

lemma serve_match:
  assumes m: "tokens_match (sv_hash E) m w" and r: "serve_server E q w = (r, w')"
  shows "tokens_match (sv_hash E) (granted q r m) w'"
proof (cases q)
  case (SCreate inp raw hex)
  then show ?thesis using create_server_match [OF m] r by simp
next
  case (SGet path)
  then show ?thesis using m r by (auto simp: getServer_def split: sum.splits)
next
  case (SDelete path)
  then show ?thesis using m r delete_match [OF m]
    by (auto simp: deleteServer_def idParam_def refuse_def fail_def Let_def world_DeleteServer_def DeleteServer_def
        split: sum.splits option.splits if_splits)
next
  case (SReprovision path raw)
  then show ?thesis using m r issue_match(1) [OF m]
    by (auto simp: reprovision_def idParam_def refuse_def fail_def Let_def GetServer_def find_Some_iff
        intro: status_match split: sum.splits option.splits prod.splits)
next
  case (SRotate path raw)
  then show ?thesis using m r issue_match(1) [OF m]
    by (auto simp: rotate_is_issue refuse_def GetServer_def split: sum.splits option.splits prod.splits)
qed


lemma cut_prefix_some: "cut_prefix s p = Some t \<Longrightarrow> s = p @ t"
  by (auto simp: cut_prefix_def has_prefix_def split: if_splits) (metis append_eq_conv_conj prefix_def)

lemma run_match:
  assumes "tokens_match (sv_hash E) (fst mw) (snd mw)"
  shows "tokens_match (sv_hash E) (fst (run_servers E qs mw)) (snd (run_servers E qs mw))"
  using assms by (induction E qs mw rule: run_servers.induct) (auto dest: serve_match split: prod.splits)

lemma ActiveTokenByPrefix_mem:
  "ActiveTokenByPrefix pre w = Inr t \<Longrightarrow> t \<in> set (ew_tokens w) \<and> \<not> at_revoked t \<and> at_prefix t = pre"
proof -
  assume a: "ActiveTokenByPrefix pre w = Inr t"
  let ?ts = "rev (sort_key at_id (filter (\<lambda>t. at_prefix t = pre \<and> \<not> at_revoked t) (ew_tokens w)))"
  from a have "t \<in> set ?ts" by (cases ?ts) (simp_all add: ActiveTokenByPrefix_def)
  then show ?thesis by simp
qed

lemma ActiveTokenByPrefix_some:
  "t \<in> set (ew_tokens w) \<Longrightarrow> \<not> at_revoked t \<Longrightarrow> \<exists>u. ActiveTokenByPrefix (at_prefix t) w = Inr u"
proof -
  assume a: "t \<in> set (ew_tokens w)" "\<not> at_revoked t"
  let ?ts = "rev (sort_key at_id (filter (\<lambda>u. at_prefix u = at_prefix t \<and> \<not> at_revoked u) (ew_tokens w)))"
  have "t \<in> set ?ts" using a by simp
  then show ?thesis by (cases ?ts) (simp_all add: ActiveTokenByPrefix_def)
qed

text \<open>
  C8: The agent API opens with the current tokens and with nothing else. From a database without
  tokens, after any run of creations, deletions, onboardings and rotations: a request is taken as
  server \<open>i\<close> only with a bearer that hashes like the token \<open>i\<close> was granted last, and the server still
  exists -- so a rotated token and the token of a deleted server are refused. And the last token
  opens, unless another server's current token shares its first fourteen characters.
\<close>

theorem current_token_opens:
  assumes "ew_tokens w = []" "\<forall>i \<in> server_ids w. i < sq_server (ew_db w)"
    and "run_servers E qs (Map.empty, w) = (m, w')"
  shows "(Authenticate (sv_hash E) header w' = Some i \<longrightarrow>
            (\<exists>bearer tok. header = ''Bearer '' @ bearer \<and> m i = Some tok \<and> sv_hash E bearer = sv_hash E tok \<and>
               i \<in> server_ids w')) \<and>
         (m i = Some tok \<longrightarrow> (\<forall>j t. m j = Some t \<and> token_Prefix t = token_Prefix tok \<longrightarrow> j = i) \<longrightarrow>
            Authenticate (sv_hash E) (''Bearer '' @ tok) w' = Some i)"
proof -
  have "tokens_match (sv_hash E) Map.empty w" using assms(1,2) by (simp add: tokens_match_def)
  then have m: "tokens_match (sv_hash E) m w'" using run_match [of E "(Map.empty, w)" qs] assms(3) by simp
  have "\<exists>bearer tok. header = ''Bearer '' @ bearer \<and> m i = Some tok \<and> sv_hash E bearer = sv_hash E tok \<and> i \<in> server_ids w'"
    if a: "Authenticate (sv_hash E) header w' = Some i"
  proof -
    obtain bearer t where b: "header = ''Bearer '' @ bearer" "ActiveTokenByPrefix (token_Prefix bearer) w' = Inr t"
        "sv_hash E bearer = at_hash t" "at_server t = i"
      using a by (auto simp: Authenticate_def token_Verify_def dest: cut_prefix_some split: option.splits if_splits sum.splits)
    note t = ActiveTokenByPrefix_mem [OF b(2)]
    then obtain tok where "m i = Some tok" "token_row_of (sv_hash E) tok t" using tokens_matchD(1) [OF m] b(4) by blast
    moreover have "i \<in> server_ids w'" using tokens_matchD(3) [OF m] t b(4) by blast
    ultimately show ?thesis using b by (auto simp: token_row_of_def)
  qed
  moreover have "Authenticate (sv_hash E) (''Bearer '' @ tok) w' = Some i"
    if g: "m i = Some tok" "\<forall>j t. m j = Some t \<and> token_Prefix t = token_Prefix tok \<longrightarrow> j = i"
  proof -
    obtain t where t: "t \<in> set (ew_tokens w')" "\<not> at_revoked t" "at_server t = i" using tokens_matchD(2) [OF m g(1)] by blast
    then have "token_row_of (sv_hash E) tok t" using tokens_matchD(1) [OF m t(1,2)] g(1) by simp
    then have tp: "at_prefix t = token_Prefix tok" "tok \<noteq> ''''" by (simp_all add: token_row_of_def)
    obtain u where u: "ActiveTokenByPrefix (token_Prefix tok) w' = Inr u"
      using ActiveTokenByPrefix_some [OF t(1,2)] tp by auto
    note um = ActiveTokenByPrefix_mem [OF u]
    then obtain tok' where tok': "m (at_server u) = Some tok'" "token_row_of (sv_hash E) tok' u"
      using tokens_matchD(1) [OF m] by blast
    then have "at_server u = i" using g(2) um by (auto simp: token_row_of_def)
    then show ?thesis using u tok' g(1) tp
      by (auto simp: Authenticate_def cut_prefix_def has_prefix_def token_Verify_def token_row_of_def)
  qed
  ultimately show ?thesis by blast
qed

definition demo_servers :: servers_env where
  "demo_servers = \<lparr>sv_hash = rev, sv_valid_ip = (\<lambda>s. True), sv_fleet = demo_fleet\<rparr>"

definition demo_new_server :: create_server_input where
  "demo_new_server = \<lparr>si_name = ''n'', si_region = ''fra'', si_ip = ''1.1.1.1'', si_edge = '''', si_hostname = None, si_capacity = None,
     si_by_capacity = False, si_user = ''root'', si_port = 22, si_password = ''pw'', si_private_key = ''''\<rparr>"

definition demo_edges :: edge_world where
  "demo_edges = \<lparr>ew_db = AgentApi.empty_db, ew_tokens = [], ew_next = 1\<rparr>"

text \<open>A server is created and its token rotated: the first token is refused.\<close>

definition demo_rotation :: "server_request list" where
  "demo_rotation = [SCreate (Some demo_new_server) (Some ''AAAAAAAAAA'') ''3f9a'', SRotate ''1'' (Some ''BBBBBBBBBB'')]"

lemma current_token_opens_witness:
  "\<exists>m w'. run_servers demo_servers demo_rotation (Map.empty, demo_edges) = (m, w') \<and>
     Authenticate rev ''Bearer brisk_BBBBBBBBBB'' w' = Some 1 \<and> Authenticate rev ''Bearer brisk_AAAAAAAAAA'' w' = None"
proof -
  obtain m w' where r: "run_servers demo_servers demo_rotation (Map.empty, demo_edges) = (m, w')"
    by (cases "run_servers demo_servers demo_rotation (Map.empty, demo_edges)")
  have e: "ew_tokens demo_edges = []" "\<forall>i \<in> server_ids demo_edges. i < sq_server (ew_db demo_edges)" by code_simp+
  have h: "sv_hash demo_servers = rev" by (simp add: demo_servers_def)
  let ?q1 = "SCreate (Some demo_new_server) (Some ''AAAAAAAAAA'') ''3f9a''" and ?q2 = "SRotate ''1'' (Some ''BBBBBBBBBB'')"
  obtain r1 w1 where 1: "serve_server demo_servers ?q1 demo_edges = (r1, w1)" by (cases "serve_server demo_servers ?q1 demo_edges")
  obtain r2 w2 where 2: "serve_server demo_servers ?q2 w1 = (r2, w2)" by (cases "serve_server demo_servers ?q2 w1")
  have "map_option ss_id (sr_row (fst (serve_server demo_servers ?q1 demo_edges))) = Some 1"
    "sr_status (fst (serve_server demo_servers ?q2 (snd (serve_server demo_servers ?q1 demo_edges)))) = 200"
    "sr_token (fst (serve_server demo_servers ?q2 (snd (serve_server demo_servers ?q1 demo_edges)))) = Some ''brisk_BBBBBBBBBB''"
    "parse_int ''1'' = Some 1" by code_simp+
  then have m: "m = [1 \<mapsto> ''brisk_BBBBBBBBBB'']"
    using r 1 2 by (auto simp: demo_rotation_def simp del: serve_server.simps)
  note t = current_token_opens [OF e r, unfolded h]
  have "Authenticate rev ''Bearer brisk_BBBBBBBBBB'' w' = Some 1"
    using conjunct2 [OF t, of 1 "''brisk_BBBBBBBBBB''"] by (simp add: m)
  moreover have "Authenticate rev ''Bearer brisk_AAAAAAAAAA'' w' = None"
  proof (cases "Authenticate rev ''Bearer brisk_AAAAAAAAAA'' w'")
    case (Some i)
    then show ?thesis using conjunct1 [OF t, of "''Bearer brisk_AAAAAAAAAA''" i] by (auto simp: m split: if_splits)
  qed
  ultimately show ?thesis using r by blast
qed


text \<open>
  Revoking and inserting are two statements: a new token that cannot be stored leaves the server
  without any, and its agent locked out, behind the answer 500.
\<close>

lemma failed_issue_locks_out:
  assumes "tokens_match hash m w" "issueToken hash i raw w = (w', None)"
  shows "Authenticate hash header w' \<noteq> Some i"
proof
  assume a: "Authenticate hash header w' = Some i"
  note m = issue_match(1) [OF assms]
  from a obtain tok where "ActiveTokenByPrefix (token_Prefix tok) w' \<in> range Inr"
      "\<exists>t. ActiveTokenByPrefix (token_Prefix tok) w' = Inr t \<and> at_server t = i"
    by (auto simp: Authenticate_def split: option.splits if_splits sum.splits)
  then obtain t where t: "ActiveTokenByPrefix (token_Prefix tok) w' = Inr t" "at_server t = i" by blast
  then have "\<exists>tok'. (m(i := None)) i = Some tok'"
    using ActiveTokenByPrefix_mem [OF t(1)] tokens_matchD(1) [OF m] by blast
  then show False by simp
qed

end
