(* ===== verification/SelfUpdate.thy ===== *)
theory SelfUpdate
  imports Prelude "HOL-Library.Word"
begin

section \<open>Signed releases and the agent's update of itself\<close>

text \<open>
  The release store of the control plane (\<open>internal/signing\<close>, \<open>api/releases.go\<close>, \<open>store/releases.go\<close>) and
  \<open>brisk-agent/selfupdate\<close> with the steps of \<open>releaseLoop\<close> and of the start in \<open>brisk-agent/main.go\<close>.
  SHA-256, ed25519 and base64 are parameters, and so is the result of every file operation: it works,
  or fails and leaves the file as it was or with some other content.
\<close>

unbundle bit_operations_syntax

subsection \<open>Signatures\<close>

text \<open>\<open>sg_verify key digest signature\<close> is \<open>ed25519.Verify\<close>, \<open>sg_sha\<close> the 32 raw bytes of SHA-256.\<close>

record sign_lib =
  sg_sha :: "string \<Rightarrow> string"
  sg_unb64 :: "string \<Rightarrow> string option"
  sg_verify :: "string \<Rightarrow> string \<Rightarrow> string \<Rightarrow> bool"

definition PublicKeySize :: nat where
  "PublicKeySize = 32"

definition signing_Verify :: "sign_lib \<Rightarrow> string \<Rightarrow> string \<Rightarrow> string \<Rightarrow> bool" where
  "signing_Verify L pub digest sig =
     (case sg_unb64 L sig of
        None \<Rightarrow> False
      | Some s \<Rightarrow> if length pub \<noteq> PublicKeySize then False else sg_verify L pub digest s)"

definition VerifyAny :: "sign_lib \<Rightarrow> string list \<Rightarrow> string \<Rightarrow> string \<Rightarrow> bool" where
  "VerifyAny L trusted digest sig = list_ex (\<lambda>k. signing_Verify L k digest sig) trusted"

text \<open>The configured keys that are base64 of 32 bytes; the control plane trims its own first.\<close>

definition trustedKeys :: "sign_lib \<Rightarrow> string list \<Rightarrow> string list" where
  "trustedKeys L ks =
     List.map_filter (\<lambda>s. case sg_unb64 L s of None \<Rightarrow> None | Some raw \<Rightarrow> if length raw = PublicKeySize then Some raw else None) ks"

definition trustedPubKeys :: "sign_lib \<Rightarrow> string list \<Rightarrow> string list" where
  "trustedPubKeys L ks = trustedKeys L (map trim_space ks)"

definition hex_digit :: "nat \<Rightarrow> char" where
  "hex_digit n = ''0123456789abcdef'' ! n"

definition hexLower :: "string \<Rightarrow> string" where
  "hexLower bs = concat (map (\<lambda>c. let n = of_char c :: nat in [hex_digit (n div 16), hex_digit (n mod 16)]) bs)"

definition VerifyBinary :: "sign_lib \<Rightarrow> string list \<Rightarrow> string \<Rightarrow> string \<Rightarrow> string \<Rightarrow> bool" where
  "VerifyBinary L keys data sha sig =
     (let digest = sg_sha L data in
      if hexLower digest \<noteq> sha then False
      else (case sg_unb64 L sig of
              None \<Rightarrow> False
            | Some s \<Rightarrow> list_ex (\<lambda>k. sg_verify L k digest s) (trustedKeys L keys)))"

subsection \<open>The release store\<close>

record release =
  rl_version :: string
  rl_bin :: string
  rl_sha :: string
  rl_sig :: string
  rl_signed_by :: string
  rl_notes :: string
  rl_created :: int

text \<open>\<open>rl_created\<close> counts insertions: newest first is descending. The version is the primary key.\<close>

definition InsertRelease :: "release \<Rightarrow> release list \<Rightarrow> release list option" where
  "InsertRelease r rs = (if list_ex (\<lambda>x. rl_version x = rl_version r) rs then None else Some (r # rs))"

definition GetReleaseMeta :: "string \<Rightarrow> release list \<Rightarrow> release option" where
  "GetReleaseMeta v rs = find (\<lambda>r. rl_version r = v) rs"

definition GetReleaseBinary :: "string \<Rightarrow> release list \<Rightarrow> (string \<times> string) option" where
  "GetReleaseBinary v rs = map_option (\<lambda>r. (rl_bin r, rl_sha r)) (GetReleaseMeta v rs)"

definition LatestRelease :: "release list \<Rightarrow> release option" where
  "LatestRelease rs = (case rs of [] \<Rightarrow> None | r # _ \<Rightarrow> Some r)"

definition DeleteRelease :: "string \<Rightarrow> release list \<Rightarrow> release list" where
  "DeleteRelease v rs = filter (\<lambda>r. rl_version r \<noteq> v) rs"

text \<open>The list is newest first: the versions that are not protected keep their first \<open>keep\<close>.\<close>

definition PruneReleases :: "nat \<Rightarrow> string list \<Rightarrow> release list \<Rightarrow> release list" where
  "PruneReleases keep protect rs =
     (let old = drop keep (filter (\<lambda>r. rl_version r \<notin> set protect) rs)
      in filter (\<lambda>r. rl_version r \<notin> rl_version ` set old) rs)"

record upload_input =
  ui_version :: string
  ui_sha :: string
  ui_sig :: string
  ui_signed_by :: string
  ui_notes :: string
  ui_b64 :: string

definition uploadRelease ::
  "sign_lib \<Rightarrow> string list \<Rightarrow> int \<Rightarrow> upload_input option \<Rightarrow> release list \<Rightarrow> int \<times> release list" where
  "uploadRelease L pubkeys now inp rs =
     (case inp of
        None \<Rightarrow> (400, rs)
      | Some u \<Rightarrow>
          if ui_version u = '''' then (400, rs)
          else (case sg_unb64 L (ui_b64 u) of
                  None \<Rightarrow> (400, rs)
                | Some bin \<Rightarrow>
                    if bin = '''' then (400, rs)
                    else (let sum = sg_sha L bin; trusted = trustedPubKeys L pubkeys in
                          if hexLower sum \<noteq> ui_sha u then (400, rs)
                          else if trusted = [] then (503, rs)
                          else if \<not> VerifyAny L trusted sum (ui_sig u) then (400, rs)
                          else (case InsertRelease
                                  \<lparr>rl_version = ui_version u, rl_bin = bin, rl_sha = ui_sha u, rl_sig = ui_sig u,
                                   rl_signed_by = (if ui_signed_by u = '''' then ''k1'' else ui_signed_by u),
                                   rl_notes = ui_notes u, rl_created = now\<rparr> rs of
                                  None \<Rightarrow> (409, rs)
                                | Some rs' \<Rightarrow> (201, rs')))))"

definition deleteRelease :: "string \<Rightarrow> release list \<Rightarrow> int \<times> release list" where
  "deleteRelease v rs = (200, DeleteRelease v rs)"

definition getReleaseBinary :: "string \<Rightarrow> release list \<Rightarrow> int \<times> (string \<times> string) option" where
  "getReleaseBinary v rs = (case GetReleaseBinary v rs of None \<Rightarrow> (404, None) | Some b \<Rightarrow> (200, Some b))"

subsection \<open>The files of the agent\<close>

record agent_files =
  fs_binary :: "string option"
  fs_prev :: "string option"
  fs_new :: "string option"
  fs_marker :: "string option"

datatype io_step =
    WriteNew | ReadBinary | WritePrev | WriteMarker | SwapIn
  | ReadMarker | ReadPrev | Restore | RemoveMarker | BumpMarker

text \<open>\<open>Fails (Some c)\<close>: the operation failed and the file it writes now holds \<open>c\<close>.\<close>

datatype io_result = Works | Fails "string option"

type_synonym io = "io_step \<Rightarrow> io_result"

definition put :: "io_result \<Rightarrow> string \<Rightarrow> string option \<Rightarrow> string option" where
  "put r data old = (case r of Works \<Rightarrow> Some data | Fails None \<Rightarrow> old | Fails (Some c) \<Rightarrow> Some c)"

text \<open>\<open>Apply\<close>: stage, keep the current binary, drop the marker, swap. \<open>True\<close>: the caller restarts.\<close>

definition update_Apply :: "io \<Rightarrow> string \<Rightarrow> string \<Rightarrow> agent_files \<Rightarrow> bool \<times> agent_files" where
  "update_Apply io data target f =
     (let f1 = f\<lparr>fs_new := put (io WriteNew) data (fs_new f)\<rparr> in
      if io WriteNew \<noteq> Works then (False, f1)
      else (case (io ReadBinary, fs_binary f1) of
              (Works, Some cur) \<Rightarrow>
                (let f2 = f1\<lparr>fs_prev := put (io WritePrev) cur (fs_prev f1)\<rparr> in
                 if io WritePrev \<noteq> Works then (False, f2)
                 else (let f3 = f2\<lparr>fs_marker := put (io WriteMarker) (target @ [CHR 0x0A] @ ''0'') (fs_marker f2)\<rparr> in
                       if io WriteMarker \<noteq> Works then (False, f3)
                       else if io SwapIn \<noteq> Works then (False, f3)
                       else (True, f3\<lparr>fs_binary := fs_new f3, fs_new := None\<rparr>)))
            | _ \<Rightarrow> (False, f1)))"

text \<open>\<open>Sscanf\<close> with a word, a newline and a number: what is missing stays empty or zero.\<close>

definition scan_marker :: "string \<Rightarrow> string \<times> int" where
  "scan_marker s =
     (let v = takeWhile (\<lambda>c. \<not> is_space c) s; rest = drop (length v) s in
      case rest of
        [] \<Rightarrow> (v, 0)
      | c # ds \<Rightarrow> if c = CHR 0x0A then (v, case parse_int (takeWhile is_digit ds) of None \<Rightarrow> 0 | Some n \<Rightarrow> n) else (v, 0))"

definition SelfCheckOnStart :: "io \<Rightarrow> int \<Rightarrow> bool \<Rightarrow> agent_files \<Rightarrow> bool \<times> agent_files" where
  "SelfCheckOnStart io maxRestarts healthy f =
     (case (io ReadMarker, fs_marker f) of
        (Works, Some data) \<Rightarrow>
          (let (version, n) = scan_marker data;
               unmarked = (if io RemoveMarker = Works then f\<lparr>fs_marker := None\<rparr> else f) in
           if healthy then (False, unmarked)
           else if n + 1 \<ge> maxRestarts
           then (let f1 = (case (io ReadPrev, fs_prev f) of
                             (Works, Some prev) \<Rightarrow> f\<lparr>fs_binary := put (io Restore) prev (fs_binary f)\<rparr>
                           | _ \<Rightarrow> f)
                 in (True, if io RemoveMarker = Works then f1\<lparr>fs_marker := None\<rparr> else f1))
           else (False, f\<lparr>fs_marker := put (io BumpMarker) (version @ [CHR 0x0A] @ show_int (n + 1)) (fs_marker f)\<rparr>))
      | _ \<Rightarrow> (False, f))"

subsection \<open>The agent process\<close>

record release_info =
  ri_target :: string
  ri_sha :: string
  ri_sig :: string

record agent_cfg =
  ag_lib :: sign_lib
  ag_keys :: "string list"

text \<open>
  The process runs the binary it was started from, and reports its version. \<open>Start\<close> is systemd starting
  what lies on the disk, after a boot, a crash or an exit; \<open>Poll\<close> is one tick of the release loop, with
  the answer and the download it gets.
\<close>

record agent_state =
  as_files :: agent_files
  as_running :: "string option"

datatype agent_event =
    Start io bool
  | Poll io "release_info option" "string option"

definition maxRestarts :: int where
  "maxRestarts = 3"

definition agent_start :: "io \<Rightarrow> bool \<Rightarrow> agent_state \<Rightarrow> agent_state" where
  "agent_start io healthy s =
     (let (rolledBack, f) = SelfCheckOnStart io maxRestarts healthy (as_files s)
      in \<lparr>as_files = f, as_running = (if rolledBack then None else fs_binary (as_files s))\<rparr>)"

text \<open>\<open>version\<close>: what the running binary reports.\<close>

definition release_tick ::
  "agent_cfg \<Rightarrow> (string \<Rightarrow> string) \<Rightarrow> io \<Rightarrow> release_info option \<Rightarrow> string option \<Rightarrow> agent_state \<Rightarrow> agent_state" where
  "release_tick cfg version io answer download s =
     (case (as_running s, answer) of
        (Some running, Some ri) \<Rightarrow>
          if ri_target ri = '''' \<or> ri_target ri = version running then s
          else (case download of
                  None \<Rightarrow> s
                | Some data \<Rightarrow>
                    if \<not> VerifyBinary (ag_lib cfg) (ag_keys cfg) data (ri_sha ri) (ri_sig ri) then s
                    else (let (swapped, f) = update_Apply io data (ri_target ri) (as_files s)
                          in \<lparr>as_files = f, as_running = (if swapped then None else Some running)\<rparr>))
      | _ \<Rightarrow> s)"

fun agent_step :: "agent_cfg \<Rightarrow> (string \<Rightarrow> string) \<Rightarrow> agent_event \<Rightarrow> agent_state \<Rightarrow> agent_state" where
  "agent_step cfg version (Start io healthy) s = agent_start io healthy s"
| "agent_step cfg version (Poll io answer download) s = release_tick cfg version io answer download s"

definition agent_run :: "agent_cfg \<Rightarrow> (string \<Rightarrow> string) \<Rightarrow> agent_event list \<Rightarrow> agent_state \<Rightarrow> agent_state" where
  "agent_run cfg version evs s = foldl (\<lambda>s e. agent_step cfg version e s) s evs"


subsection \<open>What may run\<close>

text \<open>The binary the edge was set up with, or one whose digest some trusted key signed.\<close>

definition may_run :: "agent_cfg \<Rightarrow> string \<Rightarrow> string \<Rightarrow> bool" where
  "may_run cfg init d \<longleftrightarrow> d = init \<or>
     (\<exists>sha sig. VerifyBinary (ag_lib cfg) (ag_keys cfg) d sha sig)"

lemma VerifyBinary_signed:
  "VerifyBinary L keys d sha sig \<longleftrightarrow>
     hexLower (sg_sha L d) = sha \<and>
     (\<exists>s k. sg_unb64 L sig = Some s \<and> k \<in> set (trustedKeys L keys) \<and> sg_verify L k (sg_sha L d) s)"
  by (auto simp: VerifyBinary_def Let_def list_ex_iff split: option.splits)

definition all_allowed :: "agent_cfg \<Rightarrow> string \<Rightarrow> agent_state \<Rightarrow> bool" where
  "all_allowed cfg init s \<longleftrightarrow>
     (\<forall>d. as_running s = Some d \<or> fs_binary (as_files s) = Some d \<longrightarrow> may_run cfg init d)"

text \<open>
  Linux does not open a running program for writing (ETXTBSY, before it truncates anything), and the
  check at the start runs in the program whose file a rollback writes: that write fails and leaves the
  file alone. Every other operation may fail and leave its file torn.
\<close>

fun text_busy :: "agent_event \<Rightarrow> bool" where
  "text_busy (Start io healthy) \<longleftrightarrow> io Restore = Fails None"
| "text_busy (Poll io answer download) \<longleftrightarrow> True"

lemma apply_allowed:
  assumes "update_Apply io data target f = (b, f')" "fs_binary f' = Some d"
  shows "d = data \<or> fs_binary f = Some d"
  using assms unfolding update_Apply_def
  by (auto simp: Let_def put_def split: if_splits io_result.splits option.splits)

lemma check_allowed:
  assumes "SelfCheckOnStart io m healthy f = (b, f')" "io Restore = Fails None"
  shows "fs_binary f' = fs_binary f"
  using assms unfolding SelfCheckOnStart_def
  by (auto simp: Let_def put_def split: if_splits io_result.splits option.splits prod.splits)

lemma step_allowed:
  assumes a: "all_allowed cfg init s" and u: "text_busy e"
  shows "all_allowed cfg init (agent_step cfg version e s)"
proof (cases e)
  case (Start io healthy)
  obtain b f where c: "SelfCheckOnStart io maxRestarts healthy (as_files s) = (b, f)"
    by (cases "SelfCheckOnStart io maxRestarts healthy (as_files s)")
  show ?thesis using a u Start c check_allowed [OF c]
    by (auto simp: all_allowed_def agent_start_def split: if_splits)
next
  case (Poll io answer download)
  show ?thesis
  proof (cases "agent_step cfg version e s = s")
    case True
    then show ?thesis using a by simp
  next
    case False
    then obtain running ri data where r: "as_running s = Some running" "answer = Some ri" "download = Some data"
        "VerifyBinary (ag_lib cfg) (ag_keys cfg) data (ri_sha ri) (ri_sig ri)"
        "\<not> (ri_target ri = '''' \<or> ri_target ri = version running)"
      unfolding Poll by (auto simp: release_tick_def split: option.splits if_splits)
    obtain b f where c: "update_Apply io data (ri_target ri) (as_files s) = (b, f)"
      by (cases "update_Apply io data (ri_target ri) (as_files s)")
    have "may_run cfg init data" using r(4) by (auto simp: may_run_def)
    then show ?thesis using a r apply_allowed [OF c] c unfolding Poll
      by (auto simp: all_allowed_def release_tick_def split: if_splits)
  qed
qed

text \<open>
  C9: Only signed code runs. Through any run of starts and update ticks on Linux, whatever the control
  plane answers, whatever it lets the agent download, and wherever an operation on the staged binary,
  the backup or the marker fails, torn writes and crashes between two operations included, the process
  and the binary on the disk are the binary of the set-up or bytes whose SHA-256 one of the compiled-in
  keys has signed. It rests on Linux refusing to write over the running program; where a rollback can
  write, a torn backup comes to run unchecked (\<open>torn_backup_runs\<close>).
\<close>

theorem only_signed_code_runs:
  assumes "fs_binary (as_files s) = Some init" "as_running s \<in> {None, Some init}"
    and "\<forall>e \<in> set evs. text_busy e"
    and "as_running (agent_run cfg version evs s) = Some d \<or> fs_binary (as_files (agent_run cfg version evs s)) = Some d"
  shows "d = init \<or>
    (\<exists>sig x k. sg_unb64 (ag_lib cfg) sig = Some x \<and> k \<in> set (trustedKeys (ag_lib cfg) (ag_keys cfg)) \<and>
       sg_verify (ag_lib cfg) k (sg_sha (ag_lib cfg) d) x)"
proof -
  have "all_allowed cfg init s" using assms(1,2) by (auto simp: all_allowed_def may_run_def)
  then have "all_allowed cfg init (agent_run cfg version evs s)"
    using assms(3) unfolding agent_run_def by (induction evs arbitrary: s) (simp_all add: step_allowed)
  then show ?thesis using assms(4) by (auto simp: all_allowed_def may_run_def VerifyBinary_signed)
qed

definition demo_sign :: sign_lib where
  "demo_sign = \<lparr>sg_sha = (\<lambda>d. take 2 d), sg_unb64 = (\<lambda>s. Some s), sg_verify = (\<lambda>k d s. s = d)\<rparr>"

definition demo_agent :: agent_cfg where
  "demo_agent = \<lparr>ag_lib = demo_sign, ag_keys = [''kkkkkkkkkkkkkkkkkkkkkkkkkkkkkkkk'']\<rparr>"

definition demo_agent_start :: agent_state where
  "demo_agent_start = \<lparr>as_files = \<lparr>fs_binary = Some ''OLD'', fs_prev = None, fs_new = None, fs_marker = None\<rparr>, as_running = Some ''OLD''\<rparr>"

text \<open>
  A forged update is refused, a signed one is installed and started; the next one tears its backup.
\<close>

definition busy_io :: io where
  "busy_io st = (if st = Restore then Fails None else Works)"

definition torn_io :: io where
  "torn_io st = (if st = WritePrev then Fails (Some ''N'') else Works)"

definition demo_update :: "agent_event list" where
  "demo_update =
     [Poll busy_io (Some \<lparr>ri_target = ''2'', ri_sha = ''4556'', ri_sig = ''xx''\<rparr>) (Some ''EVIL''),
      Poll busy_io (Some \<lparr>ri_target = ''2'', ri_sha = ''4e45'', ri_sig = ''NE''\<rparr>) (Some ''NEW''),
      Start busy_io False,
      Poll torn_io (Some \<lparr>ri_target = ''3'', ri_sha = ''4e4f'', ri_sig = ''NO''\<rparr>) (Some ''NOW''),
      Start busy_io False, Start busy_io False, Start busy_io True]"

lemma only_signed_code_runs_witness:
  "as_running (agent_run demo_agent (\<lambda>b. b) demo_update demo_agent_start) = Some ''NEW'' \<and>
   (\<exists>k \<in> set (trustedKeys demo_sign (ag_keys demo_agent)). sg_verify demo_sign k (sg_sha demo_sign ''NEW'') ''NE'')"
proof -
  have s: "fs_binary (as_files demo_agent_start) = Some ''OLD''"
      "as_running demo_agent_start \<in> {None, Some ''OLD''}" "\<forall>e \<in> set demo_update. text_busy e"
    by code_simp+
  have r: "as_running (agent_run demo_agent (\<lambda>b. b) demo_update demo_agent_start) = Some ''NEW''" by code_simp
  from only_signed_code_runs [OF s disjI1, OF r] r show ?thesis
    by (auto simp: demo_agent_def demo_sign_def)
qed

text \<open>
  \<open>WriteFile\<close> truncates the backup before it writes it. When the operations of a rollback work, a
  backup torn in an update that failed during a trial is what the third start puts in place, unchecked.
\<close>

lemma torn_backup_runs:
  "as_running (agent_run demo_agent (\<lambda>b. b)
     [Poll (\<lambda>s. Works) (Some \<lparr>ri_target = ''2'', ri_sha = ''4e45'', ri_sig = ''NE''\<rparr>) (Some ''NEW''),
      Start (\<lambda>s. Works) False,
      Poll torn_io (Some \<lparr>ri_target = ''3'', ri_sha = ''4e4f'', ri_sig = ''NO''\<rparr>) (Some ''NOW''),
      Start (\<lambda>s. Works) False, Start (\<lambda>s. Works) False, Start (\<lambda>s. Works) False] demo_agent_start) = Some ''N''"
  by code_simp

subsection \<open>The trial of a new binary\<close>

lemma takeWhile_word: "\<forall>c \<in> set v. \<not> is_space c \<Longrightarrow> takeWhile (\<lambda>c. \<not> is_space c) (v @ CHR 0x0A # r) = v"
  by (simp add: takeWhile_append2 is_space_def)

lemma scan_marker_count:
  assumes "\<forall>c \<in> set v. \<not> is_space c"
  shows "scan_marker (v @ CHR 0x0A # ''0'') = (v, 0)" "scan_marker (v @ CHR 0x0A # ''1'') = (v, 1)"
    "scan_marker (v @ CHR 0x0A # ''2'') = (v, 2)"
proof -
  have "parse_int (takeWhile is_digit ''0'') = Some 0" "parse_int (takeWhile is_digit ''1'') = Some 1"
    "parse_int (takeWhile is_digit ''2'') = Some 2" by code_simp+
  then show "scan_marker (v @ CHR 0x0A # ''0'') = (v, 0)" "scan_marker (v @ CHR 0x0A # ''1'') = (v, 1)"
    "scan_marker (v @ CHR 0x0A # ''2'') = (v, 2)"
    using takeWhile_word [OF assms] by (simp_all add: scan_marker_def Let_def)
qed

text \<open>The files right after a swap.\<close>

lemma apply_works:
  assumes "update_Apply io data target f = (True, f')"
  obtains cur where "fs_binary f = Some cur" "f' = \<lparr>fs_binary = Some data, fs_prev = Some cur, fs_new = None,
    fs_marker = Some (target @ CHR 0x0A # ''0'')\<rparr>"
  using assms unfolding update_Apply_def
  by (cases f) (auto simp: Let_def put_def split: if_splits io_result.splits option.splits)

text \<open>
  C39: The trial of a new binary ends. Take three starts in a row after a swap, with the marker readable
  and writable and whatever becomes of the write over the binary. One that finds the edge healthy
  commits the new binary for good; if none does, the third gives up its process, removes the marker and
  leaves on the disk what that write left: the old binary if it worked, the new one if, as on Linux, it
  was refused, so that there the trial ends without a rollback.
\<close>

theorem trial_ends_in_three_starts:
  assumes "update_Apply io data target f = (True, f')" "\<forall>c \<in> set target. \<not> is_space c"
    and "\<And>st. st \<noteq> Restore \<Longrightarrow> w st = Works" and "fs_binary f = Some old"
    and "s = agent_run cfg version [Start w h1, Start w h2, Start w h3] \<lparr>as_files = f', as_running = None\<rparr>"
  shows "fs_marker (as_files s) = None \<and> as_running s = (if h1 \<or> h2 \<or> h3 then Some data else None) \<and>
    fs_binary (as_files s) =
      (if h1 \<or> h2 \<or> h3 then Some data
       else case w Restore of Works \<Rightarrow> Some old | Fails None \<Rightarrow> Some data | Fails (Some torn) \<Rightarrow> Some torn)"
proof -
  have f': "f' = \<lparr>fs_binary = Some data, fs_prev = Some old, fs_new = None, fs_marker = Some (target @ CHR 0x0A # ''0'')\<rparr>"
    using apply_works [OF assms(1)] assms(4) by force
  have d: "show_int 1 = ''1''" "show_int 2 = ''2''" by code_simp+
  note c = scan_marker_count [OF assms(2)]
  show ?thesis
    unfolding assms(5) f'
    by (cases h1; cases h2; cases h3)
      (simp_all add: agent_run_def agent_start_def SelfCheckOnStart_def assms(3) c d Let_def maxRestarts_def put_def
        split: io_result.split option.split)
qed

lemma trial_ends_in_three_starts_witness:
  "\<exists>f'. update_Apply (\<lambda>s. Works) ''NEW'' ''0.4.0'' (as_files demo_agent_start) = (True, f') \<and>
     fs_binary (as_files (agent_run demo_agent (\<lambda>b. b) [Start busy_io False, Start busy_io False, Start busy_io False]
        \<lparr>as_files = f', as_running = None\<rparr>)) = Some ''NEW'' \<and>
     fs_binary (as_files (agent_run demo_agent (\<lambda>b. b) [Start (\<lambda>s. Works) False, Start (\<lambda>s. Works) False, Start (\<lambda>s. Works) False]
        \<lparr>as_files = f', as_running = None\<rparr>)) = Some ''OLD''"
proof -
  obtain f' where a: "update_Apply (\<lambda>s. Works) ''NEW'' ''0.4.0'' (as_files demo_agent_start) = (True, f')"
    by (cases "update_Apply (\<lambda>s. Works) ''NEW'' ''0.4.0'' (as_files demo_agent_start)")
      (auto simp: update_Apply_def demo_agent_start_def put_def Let_def)
  have v: "\<forall>c \<in> set ''0.4.0''. \<not> is_space c" by code_simp
  have o': "fs_binary (as_files demo_agent_start) = Some ''OLD''" by (simp add: demo_agent_start_def)
  have w: "busy_io st = Works" if "st \<noteq> Restore" for st using that by (simp add: busy_io_def)
  note trial = trial_ends_in_three_starts [where cfg = demo_agent and version = "\<lambda>b. b" and ?h1.0 = False and ?h2.0 = False and ?h3.0 = False]
  from trial [where w = busy_io, OF a v w o' refl] trial [where w = "\<lambda>s. Works", OF a v refl o' refl] a
  show ?thesis by (auto simp: busy_io_def)
qed

text \<open>On Linux the refused binary stays for good, without a marker: a case of the theorem, stated of itself.\<close>

lemma rollback_fails_when_busy:
  assumes "update_Apply io data target f = (True, f')" "\<forall>c \<in> set target. \<not> is_space c"
    and "s = agent_run cfg version [Start busy_io False, Start busy_io False, Start busy_io False] \<lparr>as_files = f', as_running = None\<rparr>"
  shows "fs_binary (as_files s) = Some data \<and> fs_marker (as_files s) = None"
proof -
  obtain old where f': "f' = \<lparr>fs_binary = Some data, fs_prev = Some old, fs_new = None, fs_marker = Some (target @ CHR 0x0A # ''0'')\<rparr>"
    using apply_works [OF assms(1)] by metis
  have d: "show_int 1 = ''1''" "show_int 2 = ''2''" by code_simp+
  note c = scan_marker_count [OF assms(2)]
  show ?thesis
    unfolding assms(3) f'
    by (simp add: agent_run_def agent_start_def SelfCheckOnStart_def busy_io_def c d Let_def maxRestarts_def put_def)
qed

text \<open>A start that finds the edge unhealthy goes on running the new binary: nothing starts it again.\<close>

lemma unhealthy_start_goes_on:
  assumes "fs_marker (as_files s) = Some m" "snd (scan_marker m) + 1 < maxRestarts"
  shows "as_running (agent_start io False s) = fs_binary (as_files s)"
  using assms by (auto simp: agent_start_def SelfCheckOnStart_def Let_def split: prod.splits io_result.splits)

text \<open>The signature covers the bytes and not the version: any signed binary installs under any version.\<close>

lemma version_is_not_signed:
  assumes "VerifyBinary (ag_lib cfg) (ag_keys cfg) data sha sig" "as_running s = Some running" "v \<noteq> ''''" "v \<noteq> version running"
  shows "release_tick cfg version io (Some \<lparr>ri_target = v, ri_sha = sha, ri_sig = sig\<rparr>) (Some data) s =
    (case update_Apply io data v (as_files s) of (swapped, f) \<Rightarrow> \<lparr>as_files = f, as_running = (if swapped then None else Some running)\<rparr>)"
  using assms by (simp add: release_tick_def)


subsection \<open>The store holds what agents install\<close>

datatype release_op = RUpload int "upload_input option" | RDelete string | RPrune nat "string list"

fun release_step :: "sign_lib \<Rightarrow> string list \<Rightarrow> release_op \<Rightarrow> release list \<Rightarrow> release list" where
  "release_step L pubkeys (RUpload now inp) rs = snd (uploadRelease L pubkeys now inp rs)"
| "release_step L pubkeys (RDelete v) rs = snd (deleteRelease v rs)"
| "release_step L pubkeys (RPrune keep protect) rs = PruneReleases keep protect rs"

definition installable :: "sign_lib \<Rightarrow> string list \<Rightarrow> release \<Rightarrow> bool" where
  "installable L keys r \<longleftrightarrow> rl_version r \<noteq> '''' \<and> VerifyBinary L keys (rl_bin r) (rl_sha r) (rl_sig r)"

lemma upload_installable:
  assumes keys: "set (trustedPubKeys L pubkeys) \<subseteq> set (trustedKeys L keys)"
    and r: "r \<in> set (snd (uploadRelease L pubkeys now inp rs))"
  shows "r \<in> set rs \<or> installable L keys r"
  using r keys
  by (auto simp: uploadRelease_def InsertRelease_def installable_def VerifyBinary_signed VerifyAny_def signing_Verify_def
      list_ex_iff Let_def split: option.splits if_splits) blast+

lemma step_versions:
  "distinct (map rl_version rs) \<Longrightarrow> distinct (map rl_version (release_step L pubkeys op' rs))"
  by (cases op')
    (auto simp: uploadRelease_def InsertRelease_def deleteRelease_def DeleteRelease_def PruneReleases_def Let_def list_ex_iff
      distinct_map_filter split: option.splits if_splits)

text \<open>
  C40: The release store after any run of uploads, deletions and retention runs: each version names one
  binary, and every agent that trusts the keys of the control plane would install it.
\<close>

theorem stored_releases_install:
  assumes "set (trustedPubKeys L pubkeys) \<subseteq> set (trustedKeys L keys)"
    and "rs = foldl (\<lambda>rs op'. release_step L pubkeys op' rs) [] ops"
  shows "distinct (map rl_version rs) \<and>
    (\<forall>v bin sha. GetReleaseBinary v rs = Some (bin, sha) \<longrightarrow>
       (\<exists>r. GetReleaseMeta v rs = Some r \<and> VerifyBinary L keys bin (rl_sha r) (rl_sig r) \<and> sha = hexLower (sg_sha L bin)))"
proof -
  have "distinct (map rl_version rs) \<and> (\<forall>r \<in> set rs. installable L keys r)"
    unfolding assms(2)
  proof (induction ops rule: rev_induct)
    case (snoc op' ops)
    let ?rs = "foldl (\<lambda>rs op'. release_step L pubkeys op' rs) [] ops"
    have "installable L keys r" if "r \<in> set (release_step L pubkeys op' ?rs)" for r
      using that snoc.IH
      by (cases op') (auto dest: upload_installable [OF assms(1)] simp: deleteRelease_def DeleteRelease_def PruneReleases_def Let_def)
    then show ?case using snoc step_versions by auto
  qed simp
  then show ?thesis
    by (auto simp: GetReleaseBinary_def GetReleaseMeta_def installable_def VerifyBinary_signed find_Some_iff)
qed

definition demo_upload :: "release_op list" where
  "demo_upload =
     [RUpload 1 (Some \<lparr>ui_version = ''2'', ui_sha = ''4e45'', ui_sig = ''NE'', ui_signed_by = '''', ui_notes = '''', ui_b64 = ''NEW''\<rparr>),
      RUpload 2 (Some \<lparr>ui_version = ''3'', ui_sha = ''4e45'', ui_sig = ''XX'', ui_signed_by = '''', ui_notes = '''', ui_b64 = ''NEW''\<rparr>)]"

lemma stored_releases_install_witness:
  "\<exists>r. GetReleaseMeta ''2'' (foldl (\<lambda>rs op'. release_step demo_sign (ag_keys demo_agent) op' rs) [] demo_upload) = Some r \<and>
     VerifyBinary demo_sign (ag_keys demo_agent) ''NEW'' (rl_sha r) (rl_sig r)"
proof -
  let ?rs = "foldl (\<lambda>rs op'. release_step demo_sign (ag_keys demo_agent) op' rs) [] demo_upload"
  have k: "set (trustedPubKeys demo_sign (ag_keys demo_agent)) \<subseteq> set (trustedKeys demo_sign (ag_keys demo_agent))" by code_simp
  have "GetReleaseBinary ''2'' ?rs = Some (''NEW'', ''4e45'')" by code_simp
  with stored_releases_install [OF k refl] show ?thesis by blast
qed

text \<open>Retention never drops a protected version, nor one of the \<open>keep\<close> newest others.\<close>

lemma prune_keeps:
  assumes "distinct (map rl_version rs)" "r \<in> set rs"
    and "rl_version r \<in> set protect \<or> r \<in> set (take keep (filter (\<lambda>r. rl_version r \<notin> set protect) rs))"
  shows "r \<in> set (PruneReleases keep protect rs)"
proof -
  let ?free = "filter (\<lambda>r. rl_version r \<notin> set protect) rs"
  have "distinct (map rl_version ?free)" using assms(1) by (rule distinct_map_filter)
  then have "distinct (map rl_version (take keep ?free) @ map rl_version (drop keep ?free))"
    by (simp only: map_append [symmetric] append_take_drop_id)
  then have "rl_version r \<notin> rl_version ` set (drop keep ?free)"
    using assms(3) by (auto dest: in_set_dropD)
  then show ?thesis using assms(2) by (simp add: PruneReleases_def Let_def)
qed

end
