(* ===== verification/AgentPurge.thy ===== *)
theory AgentPurge
  imports ZonesApi
begin

section \<open>Purging the cache of an edge\<close>

text \<open>
  \<open>brisk-agent/purge/purge.go\<close> and the message handler of \<open>consumer.go\<close>: a purge deletes the cache files
  of nginx whose stored key starts with a host of the message and its target. A file is what the walk
  over the cache directory meets: its path, its bytes (\<open>None\<close> when it cannot be opened) and whether
  removing it works. Connecting to JetStream and its redelivery are the library's.
\<close>

record cache_file =
  cf_path :: string
  cf_data :: "string option"
  cf_removable :: bool

definition keyHeaderScan :: nat where
  "keyHeaderScan = 2048"

definition key_marker :: string where
  "key_marker = CHR 0x0A # ''KEY: ''"

definition readCacheKey :: "string option \<Rightarrow> string option" where
  "readCacheKey contents =
     (case contents of
        None \<Rightarrow> None
      | Some bytes \<Rightarrow>
          (let data = take keyHeaderScan bytes in
           if data = '''' then None
           else (case index_str key_marker data of
                   None \<Rightarrow> None
                 | Some idx \<Rightarrow>
                     (let rest = drop (idx + length key_marker) data in
                      case index_byte (CHR 0x0A) rest of None \<Rightarrow> None | Some e \<Rightarrow> Some (take e rest)))))"

definition purge_path :: "purge_message \<Rightarrow> string" where
  "purge_path m =
     (let target = (if pm_type m = ''zone'' \<or> pm_target m = '''' then ''/'' else pm_target m);
          target = (if \<not> has_prefix target ''/'' then ''/'' @ target else target)
      in trim_suffix target ''*'')"

definition purge_prefixes :: "purge_message \<Rightarrow> string list" where
  "purge_prefixes m = map (\<lambda>h. h @ purge_path m) (filter (\<lambda>h. h \<noteq> '''') (pm_hosts m))"

definition purge_match :: "purge_message \<Rightarrow> cache_file \<Rightarrow> bool" where
  "purge_match m f =
     (if contains_str (cf_path f) ''/temp/'' then False
      else if pm_type m = ''all'' then True
      else (case readCacheKey (cf_data f) of
              None \<Rightarrow> False
            | Some key \<Rightarrow> list_ex (\<lambda>p. has_prefix key p) (purge_prefixes m)))"

text \<open>The files that are left and the number deleted. The walk never fails.\<close>

definition file_Purge :: "purge_message \<Rightarrow> cache_file list \<Rightarrow> cache_file list \<times> nat" where
  "file_Purge m files =
     (if pm_type m \<noteq> ''all'' \<and> purge_prefixes m = [] then (files, 0)
      else (let gone = (\<lambda>f. purge_match m f \<and> cf_removable f)
            in (filter (\<lambda>f. \<not> gone f) files, length (filter gone files))))"

text \<open>
  One delivery: \<open>msg\<close> is the decoded payload, \<open>acked\<close> tells whether the acknowledgement reaches
  JetStream. The last component is the job reported to the control plane.
\<close>

datatype delivery = Terminated | NotAcked | Acked

definition purge_handle :: "purge_message option \<Rightarrow> bool \<Rightarrow> bool \<Rightarrow> cache_file list \<Rightarrow> cache_file list \<times> delivery \<times> int option" where
  "purge_handle msg acked reports files =
     (case msg of
        None \<Rightarrow> (files, Terminated, None)
      | Some m \<Rightarrow>
          (let files' = fst (file_Purge m files) in
           if \<not> acked then (files', NotAcked, None)
           else (files', Acked, if reports \<and> pm_job m > 0 then Some (pm_job m) else None)))"

subsection \<open>Which files a purge takes\<close>

lemma prefix_split:
  assumes h: "CHR ''/'' \<notin> set h" "CHR ''/'' \<notin> set h'" and p: "has_prefix p ''/''" "has_prefix t ''/''"
  shows "has_prefix (h @ p) (h' @ t) \<longleftrightarrow> h = h' \<and> has_prefix p t"
proof
  assume a: "has_prefix (h @ p) (h' @ t)"
  then obtain r where r: "h @ p = h' @ t @ r" unfolding has_prefix_def by (metis append_assoc append_take_drop_id)
  obtain p' t' where pt: "p = CHR ''/'' # p'" "t = CHR ''/'' # t'"
    using p by (cases p; cases t) (auto simp: has_prefix_def)
  have "takeWhile (\<lambda>c. c \<noteq> CHR ''/'') (h @ p) = h" using h(1) pt by (subst takeWhile_append2) auto
  moreover have "takeWhile (\<lambda>c. c \<noteq> CHR ''/'') (h' @ t @ r) = h'" using h(2) pt by (subst takeWhile_append2) auto
  ultimately have "h = h'" using r by simp
  with r show "h = h' \<and> has_prefix p t" by (simp add: has_prefix_def)
qed (auto simp: has_prefix_def)

lemma purge_path_absolute: "has_prefix (purge_path m) ''/''"
proof -
  have trim: "has_prefix (trim_suffix t ''*'') ''/''" if t: "has_prefix t ''/''" for t
  proof -
    obtain r where r: "t = CHR ''/'' # r" using t by (cases t) (auto simp: has_prefix_def)
    then show ?thesis by (cases r) (auto simp: trim_suffix_def has_suffix_def has_prefix_def)
  qed
  show ?thesis unfolding purge_path_def Let_def by (rule trim) (auto simp: has_prefix_def)
qed

lemma file_Purge_mem:
  "f \<in> set (fst (file_Purge m files)) \<longleftrightarrow> f \<in> set files \<and> \<not> (purge_match m f \<and> cf_removable f)"
  by (auto simp: file_Purge_def Let_def purge_match_def split: option.splits)

lemma purge_exact:
  assumes "pm_type m \<noteq> ''all''" "\<forall>h \<in> set (pm_hosts m). CHR ''/'' \<notin> set h"
    and "f \<in> set files" "\<not> contains_str (cf_path f) ''/temp/''"
    and "readCacheKey (cf_data f) = Some (host @ path)" "CHR ''/'' \<notin> set host" "host \<noteq> ''''" "has_prefix path ''/''"
  shows "f \<notin> set (fst (file_Purge m files)) \<longleftrightarrow>
    host \<in> set (pm_hosts m) \<and> has_prefix path (purge_path m) \<and> cf_removable f"
proof -
  have "list_ex (has_prefix (host @ path)) (purge_prefixes m) \<longleftrightarrow> host \<in> set (pm_hosts m) \<and> has_prefix path (purge_path m)"
    using assms(2,6,7) prefix_split [OF assms(6) _ assms(8) purge_path_absolute]
    by (auto simp: purge_prefixes_def list_ex_iff)
  then show ?thesis using assms(1,3,4,5) by (auto simp: file_Purge_mem purge_match_def)
qed

text \<open>
  C21: A purge of a zone takes exactly its objects. Let a cache file hold an object under the key nginx
  gives it, a host followed by an absolute path and whatever the key carries behind. After the purge of
  type url, prefix or zone the file is gone when its host is one of the message, the path starts with
  the target -- so every slice of a video goes with it -- and it can be removed; else it stays, and in
  particular every object of another host stays.
\<close>

theorem purge_takes_its_zone:
  assumes "pm_type m \<noteq> ''all''" "\<forall>h \<in> set (pm_hosts m). CHR ''/'' \<notin> set h"
    and "f \<in> set files" "\<not> contains_str (cf_path f) ''/temp/''"
    and "readCacheKey (cf_data f) = Some (host @ path)" "CHR ''/'' \<notin> set host" "host \<noteq> ''''" "has_prefix path ''/''"
  shows "f \<notin> set (fst (file_Purge m files)) \<longleftrightarrow>
    host \<in> set (pm_hosts m) \<and> has_prefix path (purge_path m) \<and> cf_removable f"
  by (rule purge_exact [OF assms])

text \<open>A cache file as nginx writes it.\<close>

definition demo_cached :: "string \<Rightarrow> cache_file" where
  "demo_cached key = \<lparr>cf_path = ''/var/cache/brisk/a/b'', cf_data = Some (''HDR'' @ key_marker @ key @ CHR 0x0A # ''HTTP/1.1 200''), cf_removable = True\<rparr>"

definition demo_purge :: purge_message where
  "demo_purge = \<lparr>pm_type = ''url'', pm_hosts = [''a.b.com''], pm_target = ''/v.mp4'', pm_job = 1, pm_zone = 1\<rparr>"

definition demo_cache :: "cache_file list" where
  "demo_cache = map demo_cached [''a.b.com/v.mp4bytes=0-1'', ''c.com/v.mp4'']"

lemma purge_takes_its_zone_witness:
  "demo_cached ''a.b.com/v.mp4bytes=0-1'' \<notin> set (fst (file_Purge demo_purge demo_cache)) \<and>
   demo_cached ''c.com/v.mp4'' \<in> set (fst (file_Purge demo_purge demo_cache))"
proof -
  have m: "pm_type demo_purge \<noteq> ''all''" "\<forall>h \<in> set (pm_hosts demo_purge). CHR ''/'' \<notin> set h" by code_simp+
  have f: "demo_cached ''a.b.com/v.mp4bytes=0-1'' \<in> set demo_cache" "demo_cached ''c.com/v.mp4'' \<in> set demo_cache" by (simp_all add: demo_cache_def)
  have t: "\<not> contains_str (cf_path (demo_cached k)) ''/temp/''" for k unfolding demo_cached_def by code_simp
  have k: "readCacheKey (cf_data (demo_cached ''a.b.com/v.mp4bytes=0-1'')) = Some (''a.b.com'' @ ''/v.mp4bytes=0-1'')"
    "readCacheKey (cf_data (demo_cached ''c.com/v.mp4'')) = Some (''c.com'' @ ''/v.mp4'')" by code_simp+
  have h: "CHR ''/'' \<notin> set ''a.b.com''" "CHR ''/'' \<notin> set ''c.com''" by simp_all
  have p: "has_prefix ''/v.mp4bytes=0-1'' ''/''" "has_prefix ''/v.mp4'' ''/''" by code_simp+
  have d: "''a.b.com'' \<in> set (pm_hosts demo_purge)" "has_prefix ''/v.mp4bytes=0-1'' (purge_path demo_purge)"
    "''c.com'' \<notin> set (pm_hosts demo_purge)" by code_simp+
  have r: "cf_removable (demo_cached k)" for k by (simp add: demo_cached_def)
  show ?thesis
    using purge_takes_its_zone [OF m f(1) t k(1) h(1) _ p(1)] purge_takes_its_zone [OF m f(2) t k(2) h(2) _ p(2)] d r by auto
qed


subsection \<open>What a purge misses\<close>

lemma publish_messages:
  "publishToServers p servers m db = (sent, db') \<Longrightarrow> x \<in> set sent \<Longrightarrow> snd x = m"
proof -
  have "set (fst (foldl (publish_one p m) od servers)) \<subseteq> set (fst od) \<union> {x. snd x = m}" for od
  proof (induction servers arbitrary: od)
    case (Cons s ss)
    have "set (fst (publish_one p m od s)) \<subseteq> set (fst od) \<union> {x. snd x = m}"
      by (auto simp: publish_one_def Let_def)
    then show ?case using Cons [of "publish_one p m od s"] by auto
  qed simp
  from this [of "([], db)"] show "publishToServers p servers m db = (sent, db') \<Longrightarrow> x \<in> set sent \<Longrightarrow> snd x = m"
    by (auto simp: publishToServers_def)
qed

lemma purgeZone_message:
  assumes "purgeZone (Some p) parse now c path (Some inp) db = ((202, body), sent, db')" "x \<in> set sent"
  shows "\<exists>i z. GetZone i db = Inr z \<and> pm_zone (snd x) = i \<and> pm_hosts (snd x) = zoneHosts z \<and> pm_type (snd x) = fst inp \<and>
    fst inp \<in> set purge_types"
  using assms
  by (auto simp: purgeZone_def decode_def scopeZone_def fail_def Let_def dest: publish_messages
      split: sum.splits option.splits prod.splits if_splits)

text \<open>
  A purge names the host name of the zone and the old custom-domain column; the domains attached to the
  zone since, which edges serve and cache under their own name, are not purged.
\<close>

lemma custom_domains_survive:
  assumes "purgeZone (Some p) parse now c path (Some inp) db = ((202, body), sent, db')" "x \<in> set sent"
    and "GetZone (pm_zone (snd x)) db = Inr z" "d \<notin> set (zoneHosts z)" "d \<noteq> ''''"
    and "\<forall>h \<in> insert d (set (zoneHosts z)). CHR ''/'' \<notin> set h"
    and "f \<in> set files" "\<not> contains_str (cf_path f) ''/temp/''" "readCacheKey (cf_data f) = Some (d @ uri)" "has_prefix uri ''/''"
  shows "f \<in> set (fst (file_Purge (snd x) files))"
proof -
  from purgeZone_message [OF assms(1,2)] assms(3)
  have m: "pm_hosts (snd x) = zoneHosts z" "pm_type (snd x) \<noteq> ''all''" by (auto simp: purge_types_def)
  have "f \<notin> set (fst (file_Purge (snd x) files)) \<longleftrightarrow>
      d \<in> set (pm_hosts (snd x)) \<and> has_prefix uri (purge_path (snd x)) \<and> cf_removable f"
    using assms(5-10) m by (intro purge_exact) auto
  then show ?thesis using assms(4) m by simp
qed

text \<open>Two edge ids that differ in a character JetStream reserves share a subject and a durable consumer.\<close>

lemma edges_share_a_subject: "EdgeSubject ''fra.1'' = EdgeSubject ''fra_1''"
  by code_simp

text \<open>A file that cannot be removed stays, and the purge is acknowledged and counted all the same.\<close>

lemma stale_file_acknowledged:
  assumes "f \<in> set files" "\<not> cf_removable f"
  shows "f \<in> set (fst (purge_handle (Some m) True True files)) \<and> fst (snd (purge_handle (Some m) True True files)) = Acked"
  using assms by (simp add: purge_handle_def file_Purge_mem)

end
