(* ===== verification/Ingest.thy ===== *)
theory Ingest
  imports Fleet
begin

section \<open>What the edges report, and who reads it\<close>

text \<open>
  The agent endpoints that store what an edge reports -- heartbeats (\<open>api/agent.go\<close>), metric samples
  (\<open>api/stats.go\<close>, \<open>store/stats.go\<close>), access-log entries (\<open>api/logs.go\<close>, \<open>store/logs.go\<close>) and firewall
  events (\<open>api/waf.go\<close>, \<open>store/waf.go\<close>) -- and the queries on them. The three time-series tables are
  lists in insertion order; the order in which the database visits the rows is the parameter \<open>scan\<close>.
  A \<open>COPY\<close> stores the whole batch or, when it \<open>fails\<close>, nothing; the retention policies that drop
  old rows are the database's. \<open>None\<close> for a body is one that does not decode; \<open>None\<close> for a time is
  Go's zero time. The parsers of addresses and of RFC 3339 times are parameters, \<open>float64\<close> is real.
\<close>

subsection \<open>Heartbeats\<close>

record heartbeat_input =
  hb_edge :: string
  hb_agent :: string
  hb_nginx :: string
  hb_os :: string
  hb_kernel :: string
  hb_go :: string

text \<open>\<open>caller\<close> is the server of the bearer token. A body that does not decode reads as blanks.\<close>

definition heartbeat :: "fleet_cfg \<Rightarrow> instant \<Rightarrow> int option \<Rightarrow> heartbeat_input \<Rightarrow> control_db \<Rightarrow> fleet_reply" where
  "heartbeat g now caller b db =
     (case caller of
        None \<Rightarrow> (401, db, [])
      | Some i \<Rightarrow>
          (let d = SetServerTech i (hb_nginx b) (hb_agent b) (hb_os b) (hb_kernel b) (hb_go b) db in
           case MarkServerOnline now i d of
             Inl e \<Rightarrow> (500, d, [])
           | Inr (transitioned, d') \<Rightarrow>
               if transitioned then (200, autoAssignAllZonesToServer i d', triggerDNSReconcile g ''heartbeat'')
               else (200, d', [])))"

subsection \<open>The served hosts of a server\<close>

definition host_entry :: "(string \<rightharpoonup> int) \<Rightarrow> store_zone \<Rightarrow> (string \<rightharpoonup> int)" where
  "host_entry m z =
     (let m' = m(sz_hostname z \<mapsto> sz_id z) in
      case sz_custom z of Some d \<Rightarrow> if d \<noteq> '''' then m'(d \<mapsto> sz_id z) else m' | None \<Rightarrow> m')"

definition hostToID :: "int \<Rightarrow> control_db \<Rightarrow> (string \<rightharpoonup> int)" where
  "hostToID server db = foldl host_entry Map.empty (map fst (ListServerZones server db))"

definition edge_of :: "int \<Rightarrow> control_db \<Rightarrow> string" where
  "edge_of server db = (case GetServer server db of Inr s \<Rightarrow> ss_edge s | Inl e \<Rightarrow> '''')"

subsection \<open>Rows\<close>

record ingest_sample =
  is_time :: "instant option"
  is_zone :: string
  is_requests :: int
  is_hits :: int
  is_misses :: int
  is_bytes :: int
  is_bps :: int
  is_cpu :: "real option"
  is_ram :: "real option"
  is_disk :: "real option"
  is_ram_total :: "int option"
  is_disk_total :: "int option"

record stat_row =
  st_time :: instant
  st_server :: int
  st_zone :: "int option"
  st_requests :: int
  st_hits :: int
  st_misses :: int
  st_bytes :: int
  st_bps :: int
  st_cpu :: "real option"
  st_ram :: "real option"
  st_disk :: "real option"

record ingest_log =
  il_ts :: "instant option"
  il_zone :: string
  il_ip :: string
  il_country :: string
  il_method :: string
  il_path :: string
  il_status :: int
  il_bytes :: int
  il_cache :: string
  il_rtime :: real
  il_utime :: real
  il_referer :: string
  il_agent :: string
  il_request :: string

record log_row =
  lr_ts :: instant
  lr_server :: int
  lr_edge :: string
  lr_zone :: "int option"
  lr_ip :: "string option"
  lr_country :: "string option"
  lr_method :: "string option"
  lr_host :: "string option"
  lr_path :: "string option"
  lr_status :: int
  lr_bytes :: int
  lr_cache :: "string option"
  lr_rtime :: real
  lr_utime :: real
  lr_referer :: "string option"
  lr_agent :: "string option"
  lr_request :: "string option"

record ingest_event =
  ie_ts :: "instant option"
  ie_zone :: string
  ie_ip :: string
  ie_country :: string
  ie_rule :: string
  ie_rule_type :: string
  ie_action :: string
  ie_mode :: string
  ie_path :: string
  ie_method :: string
  ie_agent :: string
  ie_message :: string

record event_row =
  er_ts :: instant
  er_zone :: "int option"
  er_server :: int
  er_edge :: string
  er_ip :: "string option"
  er_country :: "string option"
  er_rule :: "string option"
  er_rule_type :: "string option"
  er_action :: "string option"
  er_mode :: "string option"
  er_path :: "string option"
  er_method :: "string option"
  er_agent :: "string option"
  er_message :: "string option"

record telemetry =
  te_stats :: "stat_row list"
  te_logs :: "log_row list"
  te_events :: "event_row list"

text \<open>The libraries and the moment: \<open>tz_addr\<close> is \<open>netip.ParseAddr\<close> with \<open>host()\<close> of the stored address.\<close>

record tele_env =
  tz_addr :: "string \<Rightarrow> string option"
  tz_time :: "string \<Rightarrow> instant option"
  tz_now :: instant
  tz_fails :: bool

definition nullIfEmpty :: "string \<Rightarrow> string option" where
  "nullIfEmpty s = (if s = '''' then None else Some s)"

definition nonNeg :: "int \<Rightarrow> int" where
  "nonNeg v = (if v < 0 then 0 else v)"

text \<open>\<open>if ts.IsZero() { ts = now }\<close>\<close>

definition ts_or :: "instant \<Rightarrow> instant option \<Rightarrow> instant" where
  "ts_or now ts = (case ts of None \<Rightarrow> now | Some t \<Rightarrow> t)"

subsection \<open>Ingest\<close>

text \<open>The answers of the three endpoints.\<close>

datatype ingest_answer = Unauthorized | BadBody | NothingStored | StoreFailed | Inserted nat

text \<open>A sample of an unknown host is skipped; the blank host is the summary of the server.\<close>

definition stat_of :: "tele_env \<Rightarrow> int \<Rightarrow> (string \<rightharpoonup> int) \<Rightarrow> ingest_sample \<Rightarrow> stat_row option" where
  "stat_of v server hosts s =
     (let row = (\<lambda>zone. \<lparr>st_time = ts_or (tz_now v) (is_time s), st_server = server, st_zone = zone,
                        st_requests = nonNeg (is_requests s), st_hits = nonNeg (is_hits s),
                        st_misses = nonNeg (is_misses s), st_bytes = nonNeg (is_bytes s),
                        st_bps = nonNeg (is_bps s), st_cpu = is_cpu s, st_ram = is_ram s, st_disk = is_disk s\<rparr>)
      in if is_zone s = '''' then Some (row None)
         else (case hosts (is_zone s) of Some i \<Rightarrow> Some (row (Some i)) | None \<Rightarrow> None))"

text \<open>The first server-level sample with totals updates the server's row.\<close>

definition store_resources :: "int \<Rightarrow> ingest_sample list \<Rightarrow> control_db \<Rightarrow> control_db" where
  "store_resources server batch db =
     (case find (\<lambda>s. is_zone s = '''' \<and> (is_ram_total s \<noteq> None \<or> is_disk_total s \<noteq> None)) batch of
        None \<Rightarrow> db
      | Some s \<Rightarrow> SetServerResources server (is_ram_total s) (is_disk_total s) db)"

definition statsIngest ::
  "tele_env \<Rightarrow> int option \<Rightarrow> ingest_sample list option \<Rightarrow> control_db \<times> telemetry \<Rightarrow> ingest_answer \<times> control_db \<times> telemetry" where
  "statsIngest v caller body st =
     (case caller of
        None \<Rightarrow> (Unauthorized, st)
      | Some server \<Rightarrow>
          (case body of
             None \<Rightarrow> (BadBody, st)
           | Some batch \<Rightarrow>
               if batch = [] then (NothingStored, st)
               else (let rows = List.map_filter (stat_of v server (hostToID server (fst st))) batch in
                     if rows = [] then (NothingStored, st)
                     else if tz_fails v then (StoreFailed, st)
                     else (Inserted (length rows), store_resources server batch (fst st),
                           (snd st)\<lparr>te_stats := te_stats (snd st) @ rows\<rparr>))))"

text \<open>A log entry of an unknown host is kept without a zone.\<close>

definition log_of :: "tele_env \<Rightarrow> int \<Rightarrow> string \<Rightarrow> (string \<rightharpoonup> int) \<Rightarrow> ingest_log \<Rightarrow> log_row" where
  "log_of v server edge hosts e =
     \<lparr>lr_ts = ts_or (tz_now v) (il_ts e), lr_server = server, lr_edge = edge,
      lr_zone = (if il_zone e = '''' then None else hosts (il_zone e)),
      lr_ip = tz_addr v (trim_space (il_ip e)), lr_country = nullIfEmpty (il_country e),
      lr_method = nullIfEmpty (il_method e), lr_host = nullIfEmpty (il_zone e), lr_path = nullIfEmpty (il_path e),
      lr_status = il_status e, lr_bytes = il_bytes e, lr_cache = nullIfEmpty (il_cache e),
      lr_rtime = il_rtime e, lr_utime = il_utime e, lr_referer = nullIfEmpty (il_referer e),
      lr_agent = nullIfEmpty (il_agent e), lr_request = nullIfEmpty (il_request e)\<rparr>"

definition logsIngest ::
  "tele_env \<Rightarrow> int option \<Rightarrow> ingest_log list option \<Rightarrow> control_db \<times> telemetry \<Rightarrow> ingest_answer \<times> control_db \<times> telemetry" where
  "logsIngest v caller body st =
     (case caller of
        None \<Rightarrow> (Unauthorized, st)
      | Some server \<Rightarrow>
          (case body of
             None \<Rightarrow> (BadBody, st)
           | Some batch \<Rightarrow>
               if batch = [] then (NothingStored, st)
               else if tz_fails v then (StoreFailed, st)
               else (let rows = map (log_of v server (edge_of server (fst st)) (hostToID server (fst st))) batch
                     in (Inserted (length rows), fst st, (snd st)\<lparr>te_logs := te_logs (snd st) @ rows\<rparr>))))"

definition event_of :: "tele_env \<Rightarrow> int \<Rightarrow> string \<Rightarrow> (string \<rightharpoonup> int) \<Rightarrow> ingest_event \<Rightarrow> event_row option" where
  "event_of v server edge hosts e =
     (let row = (\<lambda>zone. \<lparr>er_ts = ts_or (tz_now v) (ie_ts e), er_zone = zone, er_server = server, er_edge = edge,
                        er_ip = tz_addr v (trim_space (ie_ip e)), er_country = nullIfEmpty (ie_country e),
                        er_rule = nullIfEmpty (ie_rule e), er_rule_type = nullIfEmpty (ie_rule_type e),
                        er_action = nullIfEmpty (ie_action e), er_mode = nullIfEmpty (ie_mode e),
                        er_path = nullIfEmpty (ie_path e), er_method = nullIfEmpty (ie_method e),
                        er_agent = nullIfEmpty (ie_agent e), er_message = nullIfEmpty (ie_message e)\<rparr>)
      in if ie_zone e = '''' then Some (row None)
         else (case hosts (ie_zone e) of Some i \<Rightarrow> Some (row (Some i)) | None \<Rightarrow> None))"

definition securityEventsIngest ::
  "tele_env \<Rightarrow> int option \<Rightarrow> ingest_event list option \<Rightarrow> control_db \<times> telemetry \<Rightarrow> ingest_answer \<times> control_db \<times> telemetry" where
  "securityEventsIngest v caller body st =
     (case caller of
        None \<Rightarrow> (Unauthorized, st)
      | Some server \<Rightarrow>
          (case body of
             None \<Rightarrow> (BadBody, st)
           | Some batch \<Rightarrow>
               if batch = [] then (NothingStored, st)
               else (let rows = List.map_filter (event_of v server (edge_of server (fst st)) (hostToID server (fst st))) batch in
                     if rows = [] then (NothingStored, st)
                     else if tz_fails v then (StoreFailed, st)
                     else (Inserted (length rows), fst st, (snd st)\<lparr>te_events := te_events (snd st) @ rows\<rparr>))))"


subsection \<open>Queries\<close>

text \<open>
  The \<open>LIKE\<close> of the database, on bytes: \<open>%\<close> matches any run, \<open>_\<close> one character, a backslash takes
  the next character as it is.
\<close>

fun sql_like :: "string \<Rightarrow> string \<Rightarrow> bool" where
  "sql_like [] s = (s = [])"
| "sql_like (p # ps) s =
     (if p = CHR ''%'' then sql_like ps s \<or> (case s of [] \<Rightarrow> False | c # s' \<Rightarrow> sql_like (p # ps) s')
      else if p = CHR 0x5C then
        (case (ps, s) of (q # ps', c # s') \<Rightarrow> c = q \<and> sql_like ps' s' | _ \<Rightarrow> False)
      else (case s of [] \<Rightarrow> False | c # s' \<Rightarrow> (p = CHR ''_'' \<or> c = p) \<and> sql_like ps s'))"

record log_filter =
  lf_zones :: "int list"
  lf_from :: instant
  lf_to :: instant
  lf_status :: int
  lf_cache :: string
  lf_path :: string
  lf_ip :: string
  lf_country :: string
  lf_limit :: int

definition log_where :: "log_filter \<Rightarrow> log_row \<Rightarrow> bool" where
  "log_where f r \<longleftrightarrow>
     lf_from f \<le> lr_ts r \<and> lr_ts r \<le> lf_to f \<and>
     (lf_zones f \<noteq> [] \<longrightarrow> (case lr_zone r of Some z \<Rightarrow> z \<in> set (lf_zones f) | None \<Rightarrow> False))"

definition status_matches :: "int \<Rightarrow> int \<Rightarrow> bool" where
  "status_matches want s =
     (if want \<ge> 100 then s = want
      else if want \<ge> 2 \<and> want \<le> 5 then want * 100 \<le> s \<and> s \<le> want * 100 + 99
      else True)"

definition log_matches :: "log_filter \<Rightarrow> log_row \<Rightarrow> bool" where
  "log_matches f r \<longleftrightarrow>
     log_where f r \<and> status_matches (lf_status f) (lr_status r) \<and>
     (lf_cache f \<noteq> '''' \<longrightarrow> lr_cache r = Some (lf_cache f)) \<and>
     (lf_ip f \<noteq> '''' \<longrightarrow> lr_ip r = Some (lf_ip f)) \<and>
     (lf_country f \<noteq> '''' \<longrightarrow> lr_country r = Some (lf_country f)) \<and>
     (lf_path f \<noteq> '''' \<longrightarrow> (case lr_path r of Some p \<Rightarrow> sql_like (''%'' @ lf_path f @ ''%'') p | None \<Rightarrow> False))"

text \<open>\<open>limit\<close> of the two queries: out of range means the default.\<close>

definition query_limit :: "int \<Rightarrow> nat" where
  "query_limit n = nat (if n \<le> 0 \<or> n > 1000 then 200 else n)"

text \<open>\<open>ORDER BY ts DESC LIMIT n\<close> over the rows as the database visits them.\<close>

definition newest :: "nat \<Rightarrow> ('r \<Rightarrow> instant) \<Rightarrow> 'r list \<Rightarrow> 'r list" where
  "newest n ts rows = take n (sort_key (\<lambda>r. - ts r) rows)"

definition QueryRequestLogs :: "(log_row list \<Rightarrow> log_row list) \<Rightarrow> log_filter \<Rightarrow> log_row list \<Rightarrow> log_row list" where
  "QueryRequestLogs scan f rows = newest (query_limit (lf_limit f)) lr_ts (filter (log_matches f) (scan rows))"

record event_filter =
  ef_zones :: "int list"
  ef_from :: instant
  ef_to :: instant
  ef_action :: string
  ef_limit :: int

definition event_matches :: "event_filter \<Rightarrow> event_row \<Rightarrow> bool" where
  "event_matches f r \<longleftrightarrow>
     ef_from f \<le> er_ts r \<and> er_ts r \<le> ef_to f \<and>
     (ef_zones f \<noteq> [] \<longrightarrow> (case er_zone r of Some z \<Rightarrow> z \<in> set (ef_zones f) | None \<Rightarrow> False)) \<and>
     (ef_action f \<noteq> '''' \<longrightarrow> er_action r = Some (ef_action f))"

definition QuerySecurityEvents :: "(event_row list \<Rightarrow> event_row list) \<Rightarrow> event_filter \<Rightarrow> event_row list \<Rightarrow> event_row list" where
  "QuerySecurityEvents scan f rows = newest (query_limit (ef_limit f)) er_ts (filter (event_matches f) (scan rows))"

subsection \<open>Reading the query string\<close>

text \<open>\<open>q\<close> is \<open>Query().Get\<close>: the first value of a parameter, blank when there is none.\<close>

type_synonym url_query = "string \<Rightarrow> string"

definition time_param :: "tele_env \<Rightarrow> string \<Rightarrow> instant \<Rightarrow> instant" where
  "time_param v s d = (if s = '''' then d else case tz_time v s of Some t \<Rightarrow> t | None \<Rightarrow> d)"

definition eventWindow :: "tele_env \<Rightarrow> url_query \<Rightarrow> instant \<times> instant" where
  "eventWindow v q = (time_param v (q ''from'') (tz_now v - 24 * hour), time_param v (q ''to'') (tz_now v))"

text \<open>The loops over decimal digits, on 64 bits: 0 for anything else here, an error in \<open>parseInt64\<close>.\<close>

definition digit_step :: "int \<Rightarrow> char \<Rightarrow> int" where
  "digit_step n c = wrap64 (wrap64 (n * 10) + of_char c - 48)"

fun digits_or_zero :: "int \<Rightarrow> string \<Rightarrow> int" where
  "digits_or_zero n [] = n"
| "digits_or_zero n (c # s) = (if \<not> is_digit c then 0 else digits_or_zero (digit_step n c) s)"

fun parse_digits64 :: "int \<Rightarrow> string \<Rightarrow> int option" where
  "parse_digits64 n [] = Some n"
| "parse_digits64 n (c # s) = (if \<not> is_digit c then None else parse_digits64 (digit_step n c) s)"

definition parseInt64 :: "string \<Rightarrow> string \<Rightarrow> answer + int" where
  "parseInt64 s name =
     (if s = '''' then Inl (fail 400 (name @ '' is required''))
      else (case parse_digits64 0 s of None \<Rightarrow> Inl (fail 400 (''invalid '' @ name)) | Some n \<Rightarrow> Inr n))"

definition logFilterFromQuery :: "tele_env \<Rightarrow> url_query \<Rightarrow> log_filter" where
  "logFilterFromQuery v q =
     \<lparr>lf_zones = [], lf_from = fst (eventWindow v q), lf_to = snd (eventWindow v q),
      lf_status = digits_or_zero 0 (q ''status''), lf_cache = q ''cache'', lf_path = q ''path'',
      lf_ip = q ''ip'', lf_country = q ''country'', lf_limit = digits_or_zero 0 (q ''limit'')\<rparr>"

text \<open>\<open>f.ZoneIDs\<close> of an admin's query, from the optional \<open>zone_id\<close>.\<close>

definition zone_filter :: "url_query \<Rightarrow> answer + int list" where
  "zone_filter q =
     (if q ''zone_id'' = '''' then Inr []
      else (case parseInt64 (q ''zone_id'') ''zone_id'' of Inl a \<Rightarrow> Inl a | Inr i \<Rightarrow> Inr [i]))"

subsection \<open>The query endpoints\<close>

text \<open>The prologue of a zone's endpoints: the id in the path, then the zone, which the caller may access.\<close>

definition zone_of_path :: "identity \<Rightarrow> string \<Rightarrow> control_db \<Rightarrow> answer + store_zone" where
  "zone_of_path c path db = (case idParam ''id'' path of Inl a \<Rightarrow> Inl a | Inr i \<Rightarrow> scopeZone c i db)"

definition listZoneLogs ::
  "tele_env \<Rightarrow> (log_row list \<Rightarrow> log_row list) \<Rightarrow> identity \<Rightarrow> string \<Rightarrow> url_query \<Rightarrow> control_db \<times> telemetry \<Rightarrow> answer + log_row list" where
  "listZoneLogs v scan c path q st =
     (case zone_of_path c path (fst st) of
        Inl a \<Rightarrow> Inl a
      | Inr z \<Rightarrow> Inr (QueryRequestLogs scan ((logFilterFromQuery v q)\<lparr>lf_zones := [sz_id z]\<rparr>) (te_logs (snd st))))"

definition adminLogs :: "tele_env \<Rightarrow> (log_row list \<Rightarrow> log_row list) \<Rightarrow> url_query \<Rightarrow> telemetry \<Rightarrow> answer + log_row list" where
  "adminLogs v scan q te =
     (case zone_filter q of
        Inl a \<Rightarrow> Inl a
      | Inr zs \<Rightarrow> Inr (QueryRequestLogs scan ((logFilterFromQuery v q)\<lparr>lf_zones := zs\<rparr>) (te_logs te)))"

definition listZoneSecurityEvents ::
  "tele_env \<Rightarrow> (event_row list \<Rightarrow> event_row list) \<Rightarrow> identity \<Rightarrow> string \<Rightarrow> url_query \<Rightarrow> control_db \<times> telemetry \<Rightarrow> answer + event_row list" where
  "listZoneSecurityEvents v scan c path q st =
     (case zone_of_path c path (fst st) of
        Inl a \<Rightarrow> Inl a
      | Inr z \<Rightarrow> (let (f, t) = eventWindow v q in
                 Inr (QuerySecurityEvents scan \<lparr>ef_zones = [sz_id z], ef_from = f, ef_to = t, ef_action = q ''action'',
                                               ef_limit = 0\<rparr> (te_events (snd st)))))"

definition adminSecurityEvents ::
  "tele_env \<Rightarrow> (event_row list \<Rightarrow> event_row list) \<Rightarrow> url_query \<Rightarrow> telemetry \<Rightarrow> answer + event_row list" where
  "adminSecurityEvents v scan q te =
     (case zone_filter q of
        Inl a \<Rightarrow> Inl a
      | Inr zs \<Rightarrow> (let (f, t) = eventWindow v q in
                  Inr (QuerySecurityEvents scan \<lparr>ef_zones = zs, ef_from = f, ef_to = t, ef_action = q ''action'',
                                                ef_limit = 0\<rparr> (te_events te))))"

subsection \<open>Aggregates\<close>

definition ratio :: "int \<Rightarrow> int \<Rightarrow> real" where
  "ratio hits misses = (let n = hits + misses in if n \<le> 0 then 0 else of_int hits / of_int n)"

record cache_breakdown =
  cb_hit :: int
  cb_miss :: int
  cb_bypass :: int
  cb_other :: int
  cb_hit_bytes :: int
  cb_total_bytes :: int
  cb_offload_req :: real
  cb_offload_bytes :: real

text \<open>\<open>percentile_cont\<close>: linear interpolation between the two nearest ranks; 0 for no rows.\<close>

definition percentile_cont :: "real \<Rightarrow> real list \<Rightarrow> real" where
  "percentile_cont p xs =
     (if xs = [] then 0
      else (let s = sort xs; pos = p * real (length xs - 1); lo = nat \<lfloor>pos\<rfloor>; hi = nat \<lceil>pos\<rceil>
            in s ! lo + (pos - real lo) * (s ! hi - s ! lo)))"

record latency_stats =
  ly_p50 :: real
  ly_p95 :: real
  ly_p99 :: real
  ly_avg :: real

record log_analytics =
  la_total :: int
  la_classes :: "(string \<times> int) list"
  la_cache :: cache_breakdown
  la_latency :: latency_stats
  la_paths :: "(string \<times> int \<times> int) list"
  la_countries :: "(string \<times> int) list"

definition count_where :: "('r \<Rightarrow> bool) \<Rightarrow> 'r list \<Rightarrow> int" where
  "count_where P rows = int (length (filter P rows))"

text \<open>\<open>GROUP BY ... ORDER BY count(*) DESC LIMIT n\<close>, the groups in the order the database makes them.\<close>

definition top_groups :: "nat \<Rightarrow> ('r \<Rightarrow> 'k) \<Rightarrow> 'r list \<Rightarrow> ('k \<times> 'r list) list" where
  "top_groups n key rows =
     take n (sort_key (\<lambda>g. - int (length (snd g))) (map (\<lambda>k. (k, filter (\<lambda>r. key r = k) rows)) (remdups (map key rows))))"

definition fetched_statuses :: "string list" where
  "fetched_statuses = [''MISS'', ''EXPIRED'', ''STALE'', ''REVALIDATED'', ''UPDATING'']"

definition cache_breakdown_of :: "log_row list \<Rightarrow> cache_breakdown" where
  "cache_breakdown_of rows =
     (let hit = count_where (\<lambda>r. lr_cache r = Some ''HIT'') rows;
          miss = count_where (\<lambda>r. case lr_cache r of Some s \<Rightarrow> s \<in> set fetched_statuses | None \<Rightarrow> False) rows;
          bypass = count_where (\<lambda>r. lr_cache r = Some ''BYPASS'') rows;
          other = int (length rows) - hit - miss - bypass;
          hit_bytes = sum_list (map lr_bytes (filter (\<lambda>r. lr_cache r = Some ''HIT'') rows));
          bytes = sum_list (map lr_bytes rows)
      in \<lparr>cb_hit = hit, cb_miss = miss, cb_bypass = bypass, cb_other = (if other < 0 then 0 else other),
          cb_hit_bytes = hit_bytes, cb_total_bytes = bytes,
          cb_offload_req = (if hit + miss > 0 then of_int hit / of_int (hit + miss) else 0),
          cb_offload_bytes = (if bytes > 0 then of_int hit_bytes / of_int bytes else 0)\<rparr>)"

definition status_class :: "int \<Rightarrow> log_row list \<Rightarrow> int" where
  "status_class k rows = count_where (\<lambda>r. k * 100 \<le> lr_status r \<and> lr_status r \<le> k * 100 + 99) rows"

definition LogAnalytics :: "(log_row list \<Rightarrow> log_row list) \<Rightarrow> log_filter \<Rightarrow> log_row list \<Rightarrow> log_analytics" where
  "LogAnalytics scan f table =
     (let rows = filter (log_where f) (scan table); times = map lr_rtime rows in
      \<lparr>la_total = int (length rows),
       la_classes = [(''2xx'', status_class 2 rows), (''3xx'', status_class 3 rows), (''4xx'', status_class 4 rows),
                     (''5xx'', status_class 5 rows)],
       la_cache = cache_breakdown_of rows,
       la_latency = \<lparr>ly_p50 = percentile_cont (1 / 2) times, ly_p95 = percentile_cont (95 / 100) times,
                     ly_p99 = percentile_cont (99 / 100) times,
                     ly_avg = (if times = [] then 0 else sum_list times / real (length times))\<rparr>,
       la_paths = map (\<lambda>(p, rs). (coalesce p '''', int (length rs), sum_list (map lr_bytes rs)))
                    (top_groups 20 lr_path (filter (\<lambda>r. lr_path r \<noteq> None \<and> lr_path r \<noteq> Some '''') rows)),
       la_countries = map (\<lambda>(c, rs). (coalesce c '''', int (length rs)))
                        (top_groups 20 lr_country (filter (\<lambda>r. lr_country r \<noteq> None \<and> lr_country r \<noteq> Some '''') rows))\<rparr>)"

definition zoneLogsAnalytics ::
  "tele_env \<Rightarrow> (log_row list \<Rightarrow> log_row list) \<Rightarrow> identity \<Rightarrow> string \<Rightarrow> url_query \<Rightarrow> control_db \<times> telemetry \<Rightarrow> answer + log_analytics" where
  "zoneLogsAnalytics v scan c path q st =
     (case zone_of_path c path (fst st) of
        Inl a \<Rightarrow> Inl a
      | Inr z \<Rightarrow> (let (f, t) = eventWindow v q in
                 Inr (LogAnalytics scan \<lparr>lf_zones = [sz_id z], lf_from = f, lf_to = t, lf_status = 0, lf_cache = '''',
                        lf_path = '''', lf_ip = '''', lf_country = '''', lf_limit = 0\<rparr> (te_logs (snd st)))))"

definition adminLogsAnalytics ::
  "tele_env \<Rightarrow> (log_row list \<Rightarrow> log_row list) \<Rightarrow> url_query \<Rightarrow> telemetry \<Rightarrow> answer + log_analytics" where
  "adminLogsAnalytics v scan q te =
     (case zone_filter q of
        Inl a \<Rightarrow> Inl a
      | Inr zs \<Rightarrow> (let (f, t) = eventWindow v q in
                  Inr (LogAnalytics scan \<lparr>lf_zones = zs, lf_from = f, lf_to = t, lf_status = 0, lf_cache = '''',
                         lf_path = '''', lf_ip = '''', lf_country = '''', lf_limit = 0\<rparr> (te_logs te))))"


text \<open>The firewall summary of the administrators. \<open>se.zone_id\<close> is joined with the zone's name, if it still exists.\<close>

record event_summary =
  ey_block :: int
  ey_log :: int
  ey_zones :: "(string \<times> int) list"
  ey_ips :: "(string \<times> int) list"

definition enforced :: "event_row \<Rightarrow> bool" where
  "enforced r \<longleftrightarrow> er_action r = Some ''block'' \<or> er_action r = Some ''challenge''"

definition zone_label :: "control_db \<Rightarrow> int option \<Rightarrow> string" where
  "zone_label db z =
     (case z of None \<Rightarrow> ''''
      | Some i \<Rightarrow> (case GetZone i db of Inr z \<Rightarrow> sz_name z | Inl e \<Rightarrow> ''zone '' @ show_int i))"

definition SecurityEventSummary ::
  "(event_row list \<Rightarrow> event_row list) \<Rightarrow> instant \<Rightarrow> instant \<Rightarrow> control_db \<times> telemetry \<Rightarrow> event_summary" where
  "SecurityEventSummary scan from' to' st =
     (let rows = filter (\<lambda>r. from' \<le> er_ts r \<and> er_ts r \<le> to') (scan (te_events (snd st))) in
      \<lparr>ey_block = count_where enforced rows,
       ey_log = count_where (\<lambda>r. er_action r = Some ''detect'' \<or> er_action r = Some ''log'') rows,
       ey_zones = map (\<lambda>(z, rs). (zone_label (fst st) z, int (length rs)))
                    (top_groups 10 er_zone (filter (\<lambda>r. enforced r \<and> er_zone r \<noteq> None) rows)),
       ey_ips = map (\<lambda>(a, rs). (coalesce a '''', int (length rs)))
                  (top_groups 10 er_ip (filter (\<lambda>r. enforced r \<and> er_ip r \<noteq> None) rows))\<rparr>)"

definition adminSecuritySummary ::
  "tele_env \<Rightarrow> (event_row list \<Rightarrow> event_row list) \<Rightarrow> url_query \<Rightarrow> control_db \<times> telemetry \<Rightarrow> event_summary" where
  "adminSecuritySummary v scan q st = (let (f, t) = eventWindow v q in SecurityEventSummary scan f t st)"

subsection \<open>Metrics\<close>

definition summary_row :: "instant \<Rightarrow> stat_row \<Rightarrow> bool" where
  "summary_row now r \<longleftrightarrow> st_zone r = None \<and> st_time r > now - 60 * second"

definition total_of :: "(stat_row \<Rightarrow> int) \<Rightarrow> stat_row list \<Rightarrow> int" where
  "total_of f rows = sum_list (map f rows)"

record overview =
  ov_online :: int
  ov_rps :: real
  ov_bps :: real
  ov_ratio :: real

definition Overview :: "instant \<Rightarrow> control_db \<times> telemetry \<Rightarrow> overview" where
  "Overview now st =
     (let rows = filter (summary_row now) (te_stats (snd st)) in
      \<lparr>ov_online = count_where (\<lambda>s. ss_status s = ''online'') (tb_servers (fst st)),
       ov_rps = of_int (total_of st_requests rows) / 60,
       ov_bps = of_int (total_of st_bytes rows) * 8 / 60,
       ov_ratio = ratio (total_of st_hits rows) (total_of st_misses rows)\<rparr>)"

record server_live =
  sl_server :: int
  sl_cpu :: "real option"
  sl_ram :: "real option"
  sl_disk :: "real option"
  sl_rps :: real
  sl_bps :: real
  sl_ratio :: real
  sl_last :: "instant option"
  sl_ram_total :: "int option"
  sl_disk_total :: "int option"

text \<open>No sample at all is not an error: the fields stay empty and the rates are 0.\<close>

definition ServerLive :: "(stat_row list \<Rightarrow> stat_row list) \<Rightarrow> instant \<Rightarrow> int \<Rightarrow> control_db \<times> telemetry \<Rightarrow> server_live" where
  "ServerLive scan now server st =
     (let mine = filter (\<lambda>r. st_server r = server \<and> st_zone r = None) (scan (te_stats (snd st)));
          recent = filter (summary_row now) mine;
          last = (case newest 1 st_time mine of [] \<Rightarrow> None | r # _ \<Rightarrow> Some r);
          row = (case GetServer server (fst st) of Inr s \<Rightarrow> Some s | Inl e \<Rightarrow> None)
      in \<lparr>sl_server = server, sl_cpu = Option.bind last st_cpu, sl_ram = Option.bind last st_ram,
          sl_disk = Option.bind last st_disk, sl_rps = of_int (total_of st_requests recent) / 60,
          sl_bps = of_int (total_of st_bytes recent) * 8 / 60,
          sl_ratio = ratio (total_of st_hits recent) (total_of st_misses recent),
          sl_last = map_option st_time last, sl_ram_total = Option.bind row ss_ram,
          sl_disk_total = Option.bind row ss_disk\<rparr>)"

record series_point =
  sp_time :: instant
  sp_requests :: int
  sp_hits :: int
  sp_misses :: int
  sp_bytes :: int
  sp_bps :: "real option"
  sp_cpu :: "real option"
  sp_ram :: "real option"
  sp_disk :: "real option"
  sp_ratio :: real

text \<open>
  \<open>minutes\<close> is the continuous aggregate \<open>stats_1m\<close> the database keeps of the table; the average it
  holds as the bandwidth is taken to be a whole number, so that its rows are those of the table.
\<close>

definition series_table :: "(stat_row list \<Rightarrow> stat_row list) \<Rightarrow> string \<Rightarrow> stat_row list \<Rightarrow> stat_row list" where
  "series_table minutes resolution table = (if resolution = ''1m'' then minutes table else table)"

definition row_point :: "stat_row \<Rightarrow> series_point" where
  "row_point r =
     \<lparr>sp_time = st_time r, sp_requests = st_requests r, sp_hits = st_hits r, sp_misses = st_misses r,
      sp_bytes = st_bytes r, sp_bps = Some (of_int (st_bps r)), sp_cpu = st_cpu r, sp_ram = st_ram r,
      sp_disk = st_disk r, sp_ratio = ratio (st_hits r) (st_misses r)\<rparr>"

definition StatsSeries ::
  "(stat_row list \<Rightarrow> stat_row list) \<Rightarrow> int \<Rightarrow> int option \<Rightarrow> instant \<Rightarrow> instant \<Rightarrow> string \<Rightarrow> stat_row list \<Rightarrow> series_point list" where
  "StatsSeries minutes server zone from' to' resolution table =
     map row_point (sort_key st_time (filter
       (\<lambda>r. st_server r = server \<and> from' \<le> st_time r \<and> st_time r \<le> to' \<and> st_zone r = zone)
       (series_table minutes resolution table)))"

text \<open>\<open>avg\<close> and \<open>sum\<close> skip nulls; over no value they are null.\<close>

definition sql_avg :: "real option list \<Rightarrow> real option" where
  "sql_avg xs = (let ys = List.map_filter (\<lambda>x. x) xs in if ys = [] then None else Some (sum_list ys / real (length ys)))"

definition bucket_point :: "stat_row list \<Rightarrow> instant \<Rightarrow> series_point" where
  "bucket_point rows t =
     (let rs = filter (\<lambda>r. st_time r = t) rows in
      \<lparr>sp_time = t, sp_requests = total_of st_requests rs, sp_hits = total_of st_hits rs,
       sp_misses = total_of st_misses rs, sp_bytes = total_of st_bytes rs,
       sp_bps = Some (of_int (total_of st_bps rs)), sp_cpu = sql_avg (map st_cpu rs), sp_ram = sql_avg (map st_ram rs),
       sp_disk = sql_avg (map st_disk rs), sp_ratio = ratio (total_of st_hits rs) (total_of st_misses rs)\<rparr>)"

definition NetworkSeries ::
  "(stat_row list \<Rightarrow> stat_row list) \<Rightarrow> instant \<Rightarrow> instant \<Rightarrow> string \<Rightarrow> stat_row list \<Rightarrow> series_point list" where
  "NetworkSeries minutes from' to' resolution table =
     (let rows = filter (\<lambda>r. from' \<le> st_time r \<and> st_time r \<le> to' \<and> st_zone r = None) (series_table minutes resolution table)
      in map (bucket_point rows) (sort (remdups (map st_time rows))))"

text \<open>The window of the two graph endpoints is an hour; any resolution but \<open>1m\<close> is raw.\<close>

definition series_window :: "tele_env \<Rightarrow> url_query \<Rightarrow> instant \<times> instant" where
  "series_window v q = (time_param v (q ''from'') (tz_now v - 1 * hour), time_param v (q ''to'') (tz_now v))"

definition resolution_of :: "url_query \<Rightarrow> string" where
  "resolution_of q = (if q ''resolution'' \<noteq> ''1m'' then ''raw'' else q ''resolution'')"

definition statsSeries ::
  "tele_env \<Rightarrow> (stat_row list \<Rightarrow> stat_row list) \<Rightarrow> url_query \<Rightarrow> telemetry \<Rightarrow> answer + series_point list" where
  "statsSeries v minutes q te =
     (case parseInt64 (q ''server_id'') ''server_id'' of
        Inl a \<Rightarrow> Inl a
      | Inr server \<Rightarrow>
          (case (if q ''zone_id'' = '''' then Inr None
                 else case parseInt64 (q ''zone_id'') ''zone_id'' of Inl a \<Rightarrow> Inl a | Inr z \<Rightarrow> Inr (Some z)) of
             Inl a \<Rightarrow> Inl a
           | Inr zone \<Rightarrow>
               (let (f, t) = series_window v q
                in Inr (StatsSeries minutes server zone f t (resolution_of q) (te_stats te)))))"

definition networkStats ::
  "tele_env \<Rightarrow> (stat_row list \<Rightarrow> stat_row list) \<Rightarrow> url_query \<Rightarrow> telemetry \<Rightarrow> series_point list" where
  "networkStats v minutes q te =
     (let (f, t) = series_window v q in NetworkSeries minutes f t (resolution_of q) (te_stats te))"

definition serverLive ::
  "tele_env \<Rightarrow> (stat_row list \<Rightarrow> stat_row list) \<Rightarrow> string \<Rightarrow> control_db \<times> telemetry \<Rightarrow> answer + server_live" where
  "serverLive v scan path st =
     (case idParam ''id'' path of Inl a \<Rightarrow> Inl a | Inr i \<Rightarrow> Inr (ServerLive scan (tz_now v) i st))"


subsection \<open>What the queries return\<close>

lemma sort_key_desc: "sorted_wrt (\<lambda>a b. ts b \<le> ts a) (sort_key (\<lambda>r. - ts r :: int) xs)"
  using sorted_sort_key [of "\<lambda>r. - ts r" xs] by (simp add: sorted_wrt_map)

lemma newest_desc: "sorted_wrt (\<lambda>a b. ts b \<le> ts a) (newest n ts xs)"
  using sorted_wrt_take [OF sort_key_desc] by (simp add: newest_def)

text \<open>The rows kept, the rows left out, and that the cut is by time.\<close>

lemma newest_cut:
  "\<exists>rest. mset (newest n ts xs) + mset rest = mset xs \<and>
     (rest \<noteq> [] \<longrightarrow> length (newest n ts xs) = n) \<and>
     (\<forall>r \<in> set rest. \<forall>a \<in> set (newest n ts xs). ts r \<le> ts a)"
proof (intro exI conjI ballI impI)
  let ?s = "sort_key (\<lambda>r. - ts r) xs"
  show "mset (newest n ts xs) + mset (drop n ?s) = mset xs"
    unfolding newest_def by (metis append_take_drop_id mset_append mset_sort)
  show "length (newest n ts xs) = n" if "drop n ?s \<noteq> []" using that by (simp add: newest_def)
  fix r a assume "r \<in> set (drop n ?s)" "a \<in> set (newest n ts xs)"
  moreover have "sorted_wrt (\<lambda>a b. ts b \<le> ts a) (take n ?s @ drop n ?s)" using sort_key_desc by simp
  ultimately show "ts r \<le> ts a" unfolding sorted_wrt_append newest_def by blast
qed

lemma query_limit_bounds: "0 < query_limit n \<and> query_limit n \<le> 1000"
  by (auto simp: query_limit_def)

lemma length_newest: "length (newest n ts xs) \<le> n"
  by (simp add: newest_def)

lemma newest_mem: "r \<in> set (newest n ts xs) \<Longrightarrow> r \<in> set xs"
  unfolding newest_def by (auto dest: in_set_takeD)

text \<open>
  A log query answers with the newest matching rows. Whatever order the database visits the table
  in, the rows come newest first, every one matches the filter, there are at most as many as the
  limit (200 when more than 1000 were asked for), and nothing else matches unless the limit is reached; then what
  is left out is no newer than any row of the answer. No row is shown twice that is stored once.
\<close>

theorem log_query_newest:
  assumes "mset (scan rows) = mset rows"
  shows "sorted_wrt (\<lambda>a b. lr_ts b \<le> lr_ts a) (QueryRequestLogs scan f rows) \<and>
    (\<forall>r \<in> set (QueryRequestLogs scan f rows). log_matches f r) \<and>
    length (QueryRequestLogs scan f rows) \<le> query_limit (lf_limit f) \<and> query_limit (lf_limit f) \<le> 1000 \<and>
    (\<exists>rest. mset (QueryRequestLogs scan f rows) + mset rest = mset (filter (log_matches f) rows) \<and>
       (rest \<noteq> [] \<longrightarrow> length (QueryRequestLogs scan f rows) = query_limit (lf_limit f)) \<and>
       (\<forall>r \<in> set rest. \<forall>a \<in> set (QueryRequestLogs scan f rows). lr_ts r \<le> lr_ts a))"
proof -
  have "mset (filter (log_matches f) (scan rows)) = mset (filter (log_matches f) rows)"
    using assms by simp
  then have cut: "\<exists>rest. mset (QueryRequestLogs scan f rows) + mset rest = mset (filter (log_matches f) rows) \<and>
       (rest \<noteq> [] \<longrightarrow> length (QueryRequestLogs scan f rows) = query_limit (lf_limit f)) \<and>
       (\<forall>r \<in> set rest. \<forall>a \<in> set (QueryRequestLogs scan f rows). lr_ts r \<le> lr_ts a)"
    unfolding QueryRequestLogs_def
    using newest_cut [of "query_limit (lf_limit f)" lr_ts "filter (log_matches f) (scan rows)"] by simp
  have all: "log_matches f r" if "r \<in> set (QueryRequestLogs scan f rows)" for r
    using newest_mem [OF that [unfolded QueryRequestLogs_def]] by simp
  have sorted: "sorted_wrt (\<lambda>a b. lr_ts b \<le> lr_ts a) (QueryRequestLogs scan f rows)"
    and short: "length (QueryRequestLogs scan f rows) \<le> query_limit (lf_limit f)"
    unfolding QueryRequestLogs_def by (rule newest_desc, rule length_newest)
  show ?thesis by (intro conjI ballI sorted all short cut query_limit_bounds [THEN conjunct2])
qed


subsection \<open>Ratios\<close>

lemma count_le: "count_where P rows \<le> int (length rows)"
  by (simp add: count_where_def)

lemma count_nonneg: "0 \<le> count_where P rows"
  by (simp add: count_where_def)

lemma count_disjoint:
  assumes "\<And>r. P r \<Longrightarrow> \<not> Q r"
  shows "count_where P rows + count_where Q rows = count_where (\<lambda>r. P r \<or> Q r) rows"
  by (induction rows) (use assms in \<open>auto simp: count_where_def\<close>)

lemma fraction_bounds: "0 \<le> a \<Longrightarrow> a \<le> b \<Longrightarrow> 0 \<le> (of_int a / of_int b :: real) \<and> of_int a / of_int b \<le> (1 :: real)"
  by (cases "b = 0") (auto simp: divide_le_eq)

lemma ratio_bounds: "0 \<le> h \<Longrightarrow> 0 \<le> m \<Longrightarrow> 0 \<le> ratio h m \<and> ratio h m \<le> 1"
  using fraction_bounds [of h "h + m"] by (simp add: ratio_def Let_def)

lemma breakdown_counts:
  "cb_hit (cache_breakdown_of rows) + cb_miss (cache_breakdown_of rows) + cb_bypass (cache_breakdown_of rows) +
     cb_other (cache_breakdown_of rows) = int (length rows)"
  "0 \<le> cb_hit (cache_breakdown_of rows)" "0 \<le> cb_miss (cache_breakdown_of rows)"
  "0 \<le> cb_bypass (cache_breakdown_of rows)" "0 \<le> cb_other (cache_breakdown_of rows)"
proof -
  let ?hit = "\<lambda>r. lr_cache r = Some ''HIT''"
  let ?miss = "\<lambda>r. case lr_cache r of Some s \<Rightarrow> s \<in> set fetched_statuses | None \<Rightarrow> False"
  let ?bypass = "\<lambda>r. lr_cache r = Some ''BYPASS''"
  have hm: "count_where ?hit rows + count_where ?miss rows = count_where (\<lambda>r. ?hit r \<or> ?miss r) rows"
    by (rule count_disjoint) (simp add: fetched_statuses_def)
  have "count_where (\<lambda>r. ?hit r \<or> ?miss r) rows + count_where ?bypass rows =
      count_where (\<lambda>r. (?hit r \<or> ?miss r) \<or> ?bypass r) rows"
    by (rule count_disjoint) (auto simp: fetched_statuses_def)
  then have le: "count_where ?hit rows + count_where ?miss rows + count_where ?bypass rows \<le> int (length rows)"
    unfolding hm by (simp only: count_le)
  then show "cb_hit (cache_breakdown_of rows) + cb_miss (cache_breakdown_of rows) + cb_bypass (cache_breakdown_of rows) +
     cb_other (cache_breakdown_of rows) = int (length rows)"
    by (simp add: cache_breakdown_of_def Let_def)
  show "0 \<le> cb_hit (cache_breakdown_of rows)" "0 \<le> cb_miss (cache_breakdown_of rows)"
    "0 \<le> cb_bypass (cache_breakdown_of rows)" "0 \<le> cb_other (cache_breakdown_of rows)"
    using le by (simp_all add: cache_breakdown_of_def Let_def count_nonneg)
qed


text \<open>
  The traffic breakdown of a window adds up. Hits, origin fetches, bypasses and the rest make the
  total, the status classes count at most the total, and the offload by requests is a share between
  0 and 1; so is the offload by bytes when no entry reports a negative size.
\<close>

lemma analytics_add_up:
  "let a = LogAnalytics scan f table in
    cb_hit (la_cache a) + cb_miss (la_cache a) + cb_bypass (la_cache a) + cb_other (la_cache a) = la_total a \<and>
    sum_list (map snd (la_classes a)) \<le> la_total a \<and>
    0 \<le> cb_offload_req (la_cache a) \<and> cb_offload_req (la_cache a) \<le> 1 \<and>
    ((\<forall>r \<in> set (scan table). 0 \<le> lr_bytes r) \<longrightarrow>
       0 \<le> cb_offload_bytes (la_cache a) \<and> cb_offload_bytes (la_cache a) \<le> 1)"
proof -
  define a rows where "a = LogAnalytics scan f table" and "rows = filter (log_where f) (scan table)"
  have cache: "la_cache a = cache_breakdown_of rows" and n: "la_total a = int (length rows)"
    and classes: "sum_list (map snd (la_classes a)) =
      status_class 2 rows + status_class 3 rows + status_class 4 rows + status_class 5 rows"
    by (simp_all add: a_def rows_def LogAnalytics_def Let_def)
  have "status_class 2 rows + status_class 3 rows + status_class 4 rows + status_class 5 rows \<le> int (length rows)"
    by (induction rows) (auto simp: status_class_def count_where_def)
  moreover have "0 \<le> cb_offload_req (cache_breakdown_of rows) \<and> cb_offload_req (cache_breakdown_of rows) \<le> 1"
    using breakdown_counts(2,3) [of rows] fraction_bounds [of "cb_hit (cache_breakdown_of rows)"
        "cb_hit (cache_breakdown_of rows) + cb_miss (cache_breakdown_of rows)"]
    by (simp add: cache_breakdown_of_def Let_def)
  moreover have "0 \<le> cb_offload_bytes (cache_breakdown_of rows) \<and> cb_offload_bytes (cache_breakdown_of rows) \<le> 1"
    if "\<forall>r \<in> set (scan table). 0 \<le> lr_bytes r"
  proof -
    have "\<forall>r \<in> set rows. 0 \<le> lr_bytes r" using that by (auto simp: rows_def)
    then have "0 \<le> sum_list (map lr_bytes (filter (\<lambda>r. lr_cache r = Some ''HIT'') rows)) \<and>
        sum_list (map lr_bytes (filter (\<lambda>r. lr_cache r = Some ''HIT'') rows)) \<le> sum_list (map lr_bytes rows)"
      by (induction rows) auto
    then show ?thesis using fraction_bounds by (auto simp: cache_breakdown_of_def Let_def)
  qed
  ultimately show ?thesis
    unfolding Let_def a_def [symmetric] cache n classes using breakdown_counts(1) by simp
qed

text \<open>A host name in a path filter is read as written, unless it holds a wildcard.\<close>

lemma like_any: "sql_like ''%'' s"
  by (induction s) simp_all

lemma like_literal:
  assumes "\<forall>c \<in> set p. c \<noteq> CHR ''%'' \<and> c \<noteq> CHR ''_'' \<and> c \<noteq> CHR 0x5C"
  shows "sql_like (p @ ''%'') s \<longleftrightarrow> has_prefix s p"
  using assms
proof (induction p arbitrary: s)
  case (Cons x p)
  then show ?case by (cases s) (auto simp: has_prefix_def)
next
  case Nil
  have "has_prefix s []" by (simp add: has_prefix_def)
  then show ?case by (simp only: append_Nil like_any)
qed

lemma like_substring:
  assumes "\<forall>c \<in> set p. c \<noteq> CHR ''%'' \<and> c \<noteq> CHR ''_'' \<and> c \<noteq> CHR 0x5C"
  shows "sql_like (''%'' @ p @ ''%'') s \<longleftrightarrow> contains_str s p"
proof (induction s)
  case Nil
  then show ?case using like_literal [OF assms, of "[]"] by (auto simp: contains_str_def has_prefix_def)
next
  case (Cons c s)
  then show ?case using like_literal [OF assms, of "c # s"] by (auto simp: contains_str_def)
qed

lemma path_filter_is_a_pattern: "sql_like (''%'' @ ''/a_b'' @ ''%'') ''/axb'' \<and> \<not> contains_str ''/axb'' ''/a_b''"
  by code_simp


subsection \<open>Where a row comes from\<close>

datatype report =
    ReportStats int "ingest_sample list"
  | ReportLogs int "ingest_log list"
  | ReportEvents int "ingest_event list"
  | ControlTxn txn

definition absorb :: "control_db \<times> telemetry \<Rightarrow> tele_env \<times> report \<Rightarrow> control_db \<times> telemetry" where
  "absorb st x =
     (case snd x of
        ReportStats s b \<Rightarrow> snd (statsIngest (fst x) (Some s) (Some b) st)
      | ReportLogs s b \<Rightarrow> snd (logsIngest (fst x) (Some s) (Some b) st)
      | ReportEvents s b \<Rightarrow> snd (securityEventsIngest (fst x) (Some s) (Some b) st)
      | ControlTxn t \<Rightarrow> (run_txns [t] (fst st), snd st))"

definition no_reports :: telemetry where
  "no_reports = \<lparr>te_stats = [], te_logs = [], te_events = []\<rparr>"

definition collected :: "control_db \<Rightarrow> (tele_env \<times> report) list \<Rightarrow> control_db \<times> telemetry" where
  "collected db xs = foldl absorb (db, no_reports) xs"

text \<open>\<open>served_as db s h i\<close>: zone \<open>i\<close> is assigned to server \<open>s\<close> and \<open>h\<close> is its host name or its custom domain.\<close>

definition served_as :: "control_db \<Rightarrow> int \<Rightarrow> string \<Rightarrow> int \<Rightarrow> bool" where
  "served_as db s h i \<longleftrightarrow>
     list_ex (\<lambda>z. sz_id z = i \<and> (s, i) \<in> set (tb_assigned db) \<and> (h = sz_hostname z \<or> sz_custom z = Some h)) (tb_zones db)"

lemma hostToID_served:
  assumes "hostToID s db h = Some i"
  shows "served_as db s h i"
proof -
  have "foldl host_entry m zs h = Some i \<Longrightarrow>
      m h = Some i \<or> (\<exists>z \<in> set zs. sz_id z = i \<and> (h = sz_hostname z \<or> sz_custom z = Some h))" for m and zs :: "store_zone list"
  proof (induction zs arbitrary: m)
    case (Cons z zs)
    then consider "host_entry m z h = Some i" | "\<exists>z \<in> set zs. sz_id z = i \<and> (h = sz_hostname z \<or> sz_custom z = Some h)"
      by fastforce
    then show ?case
      by cases (auto simp: host_entry_def Let_def split: option.splits if_splits)
  qed simp
  from this [of Map.empty] show ?thesis using assms
    by (fastforce simp: hostToID_def served_as_def list_ex_iff ListServerZones_def server_zone_rows_def comp_def)
qed

text \<open>A table that only grows by what each step adds: every row was added by some step.\<close>

lemma collected_from:
  assumes "\<And>st x. rows (absorb st x) = rows st @ added st x" and "rows (db, no_reports) = []"
    and "r \<in> set (rows (collected db xs))"
  shows "\<exists>pre x post. xs = pre @ x # post \<and> r \<in> set (added (collected db pre) x)"
  using assms(3)
proof (induction xs rule: rev_induct)
  case (snoc x xs)
  then have "r \<in> set (rows (collected db xs)) \<or> r \<in> set (added (collected db xs) x)"
    by (simp add: collected_def assms(1))
  then show ?case
  proof
    assume "r \<in> set (rows (collected db xs))"
    then obtain pre y post where "xs = pre @ y # post" "r \<in> set (added (collected db pre) y)" using snoc.IH by blast
    then show ?thesis by (intro exI [of _ pre] exI [of _ y] exI [of _ "post @ [x]"]) simp
  qed (intro exI [of _ xs] exI [of _ x] exI [of _ "[]"], simp)
qed (simp add: collected_def assms(2))

definition logs_added :: "control_db \<times> telemetry \<Rightarrow> tele_env \<times> report \<Rightarrow> log_row list" where
  "logs_added st x =
     (case x of
        (v, ReportLogs s b) \<Rightarrow> if tz_fails v then [] else map (log_of v s (edge_of s (fst st)) (hostToID s (fst st))) b
      | _ \<Rightarrow> [])"

definition events_added :: "control_db \<times> telemetry \<Rightarrow> tele_env \<times> report \<Rightarrow> event_row list" where
  "events_added st x =
     (case x of
        (v, ReportEvents s b) \<Rightarrow>
          if tz_fails v then [] else List.map_filter (event_of v s (edge_of s (fst st)) (hostToID s (fst st))) b
      | _ \<Rightarrow> [])"

lemma absorb_logs: "te_logs (snd (absorb st x)) = te_logs (snd st) @ logs_added st x"
  by (cases x; cases "snd x")
    (auto simp: absorb_def logs_added_def statsIngest_def logsIngest_def securityEventsIngest_def Let_def)

lemma absorb_events: "te_events (snd (absorb st x)) = te_events (snd st) @ events_added st x"
  by (cases x; cases "snd x")
    (auto simp: absorb_def events_added_def statsIngest_def logsIngest_def securityEventsIngest_def Let_def)

lemma log_from:
  assumes "r \<in> set (te_logs (snd (collected db xs)))" "lr_zone r = Some i"
  shows "\<exists>pre v s b post e. xs = pre @ (v, ReportLogs s b) # post \<and> e \<in> set b \<and>
           served_as (fst (collected db pre)) s (il_zone e) i \<and>
           r = log_of v s (edge_of s (fst (collected db pre))) (hostToID s (fst (collected db pre))) e"
proof -
  obtain pre x post where x: "xs = pre @ x # post" "r \<in> set (logs_added (collected db pre) x)"
    using collected_from [of "\<lambda>st. te_logs (snd st)" logs_added db r xs] absorb_logs assms(1) by (auto simp: no_reports_def)
  then obtain v s b e where e: "x = (v, ReportLogs s b)" "e \<in> set b"
      "r = log_of v s (edge_of s (fst (collected db pre))) (hostToID s (fst (collected db pre))) e"
    by (auto simp: logs_added_def split: prod.splits report.splits if_splits)
  then have "hostToID s (fst (collected db pre)) (il_zone e) = Some i"
    using assms(2) by (auto simp: log_of_def split: if_splits)
  with x e hostToID_served show ?thesis by blast
qed

lemma event_from:
  assumes "r \<in> set (te_events (snd (collected db xs)))" "er_zone r = Some i"
  shows "\<exists>pre v s b post e. xs = pre @ (v, ReportEvents s b) # post \<and> e \<in> set b \<and>
           served_as (fst (collected db pre)) s (ie_zone e) i \<and>
           Some r = event_of v s (edge_of s (fst (collected db pre))) (hostToID s (fst (collected db pre))) e"
proof -
  obtain pre x post where x: "xs = pre @ x # post" "r \<in> set (events_added (collected db pre) x)"
    using collected_from [of "\<lambda>st. te_events (snd st)" events_added db r xs] absorb_events assms(1) by (auto simp: no_reports_def)
  then obtain v s b e where e: "x = (v, ReportEvents s b)" "e \<in> set b"
      "event_of v s (edge_of s (fst (collected db pre))) (hostToID s (fst (collected db pre))) e = Some r"
    by (auto simp: events_added_def List.map_filter_def split: prod.splits report.splits if_splits)
  then have "hostToID s (fst (collected db pre)) (ie_zone e) = Some i"
    using assms(2) by (auto simp: event_of_def Let_def split: if_splits option.splits)
  with x e hostToID_served show ?thesis by (metis (no_types))
qed


lemma scopeZone_passes:
  assumes "zone_of_path c path db = Inr z"
  shows "z \<in> set (tb_zones db) \<and> CanAccessAccount c (sz_account z)"
  using assms by (auto simp: zone_of_path_def scopeZone_def GetZone_def Authorize_def find_Some_iff
      split: sum.splits option.splits if_splits)

lemma zone_log_row:
  assumes "listZoneLogs v scan c path q st = Inr logs" "r \<in> set logs" "\<And>rows. set (scan rows) \<subseteq> set rows"
  shows "\<exists>z. z \<in> set (tb_zones (fst st)) \<and> CanAccessAccount c (sz_account z) \<and>
    r \<in> set (te_logs (snd st)) \<and> lr_zone r = Some (sz_id z)"
proof -
  obtain z where z: "zone_of_path c path (fst st) = Inr z"
      "logs = QueryRequestLogs scan ((logFilterFromQuery v q)\<lparr>lf_zones := [sz_id z]\<rparr>) (te_logs (snd st))"
    using assms(1) by (auto simp: listZoneLogs_def split: sum.splits)
  have "r \<in> set (filter (log_matches ((logFilterFromQuery v q)\<lparr>lf_zones := [sz_id z]\<rparr>)) (scan (te_logs (snd st))))"
    using newest_mem assms(2) unfolding z(2) QueryRequestLogs_def by fast
  then have "r \<in> set (te_logs (snd st)) \<and> lr_zone r = Some (sz_id z)"
    using assms(3) by (auto simp: log_matches_def log_where_def split: option.splits)
  with scopeZone_passes [OF z(1)] show ?thesis by blast
qed

text \<open>
  C20: What a tenant reads in the log of a zone is what edges reported for it. After any run of reports
  and of changes to the control plane's tables, every row a caller is shown belongs to a zone the
  caller may access, and it is an entry that some server shipped, under a host name of that zone
  -- its CDN host name or its custom domain at that moment -- while the zone was assigned to that server,
  stored with the server's edge id and the fields as shipped. The row is never invented, never
  taken from an entry of another host, and never one of a server that did not serve the zone.
\<close>

theorem zone_log_was_reported:
  assumes "listZoneLogs v scan c path q (collected db xs) = Inr logs" and "r \<in> set logs"
    and "\<And>rows. set (scan rows) \<subseteq> set rows"
  shows "\<exists>z pre v' s b post e. z \<in> set (tb_zones (fst (collected db xs))) \<and> CanAccessAccount c (sz_account z) \<and>
    xs = pre @ (v', ReportLogs s b) # post \<and> e \<in> set b \<and>
    served_as (fst (collected db pre)) s (il_zone e) (sz_id z) \<and>
    r = log_of v' s (edge_of s (fst (collected db pre))) (hostToID s (fst (collected db pre))) e"
proof -
  obtain z where z: "z \<in> set (tb_zones (fst (collected db xs)))" "CanAccessAccount c (sz_account z)"
      "r \<in> set (te_logs (snd (collected db xs)))" "lr_zone r = Some (sz_id z)"
    using zone_log_row [OF assms] by blast
  from log_from [OF z(3,4)] z(1,2) show ?thesis by blast
qed

definition demo_entry :: "string \<Rightarrow> ingest_log" where
  "demo_entry h =
     \<lparr>il_ts = Some 5, il_zone = h, il_ip = ''192.0.2.7'', il_country = ''IN'', il_method = ''GET'', il_path = ''/a'',
      il_status = 200, il_bytes = 10, il_cache = ''HIT'', il_rtime = 0, il_utime = 0, il_referer = '''', il_agent = '''',
      il_request = ''r1''\<rparr>"

definition demo_tele :: tele_env where
  "demo_tele = \<lparr>tz_addr = Some, tz_time = (\<lambda>_. None), tz_now = 9, tz_fails = False\<rparr>"

definition demo_reports :: "(tele_env \<times> report) list" where
  "demo_reports = [(demo_tele, ReportLogs 1 [demo_entry ''a.b.com'', demo_entry ''www.c.com''])]"

definition demo_reader :: identity where
  "demo_reader = \<lparr>id_account = 1, id_role = ''customer'', id_method = ''session''\<rparr>"

lemma zone_log_was_reported_witness:
  "\<exists>r. listZoneLogs demo_tele (\<lambda>rows. rows) demo_reader ''1'' (\<lambda>_. '''') (collected demo_network demo_reports) = Inr [r] \<and>
     lr_zone r = Some 1 \<and> lr_edge r = ''e1'' \<and>
     (\<exists>z :: store_zone. served_as demo_network 1 ''a.b.com'' (sz_id z))"
proof -
  let ?r = "log_of demo_tele 1 ''e1'' [''a.b.com'' \<mapsto> 1] (demo_entry ''a.b.com'')"
  have l: "listZoneLogs demo_tele (\<lambda>rows. rows) demo_reader ''1'' (\<lambda>_. '''') (collected demo_network demo_reports) = Inr [?r]"
    by code_simp
  from zone_log_was_reported [OF l, of ?r, OF list.set_intros(1) subset_refl]
  obtain z :: store_zone and pre v' s b post e where w: "demo_reports = pre @ (v', ReportLogs s b) # post" "e \<in> set b"
      "served_as (fst (collected demo_network pre)) s (il_zone e) (sz_id z)"
      "?r = log_of v' s (edge_of s (fst (collected demo_network pre))) (hostToID s (fst (collected demo_network pre))) e"
    by blast
  then have "pre = []" "s = 1" by (auto simp: demo_reports_def Cons_eq_append_conv)
  moreover have "il_zone e = ''a.b.com''" using arg_cong [OF w(4), of lr_host]
    by (simp add: log_of_def nullIfEmpty_def demo_entry_def split: if_splits)
  ultimately have "served_as demo_network 1 ''a.b.com'' (sz_id z)" using w(3) by (simp add: collected_def)
  then show ?thesis using l by (auto simp: log_of_def demo_entry_def)
qed


text \<open>The firewall log of a zone likewise: a row a caller is shown was shipped for that zone.\<close>

lemma zone_events_were_reported:
  assumes "listZoneSecurityEvents v scan c path q (collected db xs) = Inr evs" and "r \<in> set evs"
    and "\<And>rows. set (scan rows) \<subseteq> set rows"
  shows "\<exists>z pre v' s b post e. z \<in> set (tb_zones (fst (collected db xs))) \<and> CanAccessAccount c (sz_account z) \<and>
    xs = pre @ (v', ReportEvents s b) # post \<and> e \<in> set b \<and>
    served_as (fst (collected db pre)) s (ie_zone e) (sz_id z)"
proof -
  obtain z where z: "zone_of_path c path (fst (collected db xs)) = Inr z"
      "evs = QuerySecurityEvents scan \<lparr>ef_zones = [sz_id z], ef_from = fst (eventWindow v q), ef_to = snd (eventWindow v q),
                ef_action = q ''action'', ef_limit = 0\<rparr> (te_events (snd (collected db xs)))"
    using assms(1) by (auto simp: listZoneSecurityEvents_def eventWindow_def split: sum.splits)
  have "r \<in> set (filter (event_matches \<lparr>ef_zones = [sz_id z], ef_from = fst (eventWindow v q), ef_to = snd (eventWindow v q),
                ef_action = q ''action'', ef_limit = 0\<rparr>) (scan (te_events (snd (collected db xs)))))"
    using newest_mem assms(2) unfolding z(2) QuerySecurityEvents_def by fast
  then have "r \<in> set (te_events (snd (collected db xs))) \<and> er_zone r = Some (sz_id z)"
    using assms(3) by (auto simp: event_matches_def split: option.splits)
  with event_from [of r db xs "sz_id z"] scopeZone_passes [OF z(1)] show ?thesis by blast
qed

lemma log_query_newest_witness:
  "QueryRequestLogs rev \<lparr>lf_zones = [1], lf_from = 0, lf_to = 9, lf_status = 2, lf_cache = ''HIT'', lf_path = ''/'',
     lf_ip = '''', lf_country = '''', lf_limit = 1\<rparr>
     (te_logs (snd (collected demo_network (demo_reports @ demo_reports)))) =
   [log_of demo_tele 1 ''e1'' [''a.b.com'' \<mapsto> 1] (demo_entry ''a.b.com'')] \<and>
   length (QueryRequestLogs rev \<lparr>lf_zones = [1], lf_from = 0, lf_to = 9, lf_status = 2, lf_cache = ''HIT'', lf_path = ''/'',
     lf_ip = '''', lf_country = '''', lf_limit = 1\<rparr>
     (te_logs (snd (collected demo_network (demo_reports @ demo_reports))))) \<le> query_limit 1"
proof
  let ?f = "\<lparr>lf_zones = [1], lf_from = 0, lf_to = 9, lf_status = 2, lf_cache = ''HIT'', lf_path = ''/'',
     lf_ip = '''', lf_country = '''', lf_limit = 1\<rparr>"
  let ?t = "te_logs (snd (collected demo_network (demo_reports @ demo_reports)))"
  show "QueryRequestLogs rev ?f ?t = [log_of demo_tele 1 ''e1'' [''a.b.com'' \<mapsto> 1] (demo_entry ''a.b.com'')]"
    by code_simp
  show "length (QueryRequestLogs rev ?f ?t) \<le> query_limit 1"
    using log_query_newest [of rev ?t ?f] by simp
qed

lemma analytics_add_up_witness:
  "\<forall>r \<in> set (te_logs (snd (collected demo_network demo_reports))). 0 \<le> lr_bytes r"
  "cb_offload_bytes (la_cache (LogAnalytics (\<lambda>rows. rows) (logFilterFromQuery demo_tele (\<lambda>_. ''''))
     (te_logs (snd (collected demo_network demo_reports))))) \<le> 1"
proof -
  show pos: "\<forall>r \<in> set (te_logs (snd (collected demo_network demo_reports))). 0 \<le> lr_bytes r" by code_simp
  then show "cb_offload_bytes (la_cache (LogAnalytics (\<lambda>rows. rows) (logFilterFromQuery demo_tele (\<lambda>_. ''''))
     (te_logs (snd (collected demo_network demo_reports))))) \<le> 1"
    using analytics_add_up [of "\<lambda>rows. rows" "logFilterFromQuery demo_tele (\<lambda>_. '''')"
        "te_logs (snd (collected demo_network demo_reports))"] by (simp add: Let_def)
qed

subsection \<open>What the telemetry misses and mistakes\<close>

text \<open>
  Only the host name and the old \<open>custom_domain\<close> column of a zone are known to the ingest: the served
  domains of the \<open>custom_domains\<close> table, which the edges report under their own names, are not. Their
  metrics and firewall events are dropped, and their log entries belong to no zone.
\<close>

lemma attached_domain_unattributed:
  "''www.c.com'' \<in> set (map az_hostname (demo_agent_zones demo_network))"
  "hostToID 1 demo_network ''www.c.com'' = None"
  "map lr_zone (te_logs (snd (collected demo_network demo_reports))) = [Some 1, None]"
  by code_simp+

text \<open>
  A tenant that enters another tenant's host name as the custom domain of a zone of its own, made
  later, is shown the other's access log: the later zone overwrites the host's entry.
\<close>

definition demo_claim :: control_db where
  "demo_claim = run_txns
     [OnServer (TCreateServer (demo_server_params ''e1'')), OnZone (TCreateZone (demo_zone_params ''a.b.com'')),
      OnZone (TCreateZone ((demo_zone_params ''z.b.com'')\<lparr>cz_custom := Some ''a.b.com''\<rparr>)),
      OnDomain (TAssignZone 1 1), OnDomain (TAssignZone 1 2)] AgentApi.empty_db"

lemma claimed_host_takes_logs: "hostToID 1 demo_claim ''a.b.com'' = Some 2"
  by code_simp

text \<open>A batch shipped again after a lost answer is stored again.\<close>

lemma retry_doubles:
  "length (te_logs (snd (collected demo_network (demo_reports @ demo_reports)))) =
     2 * length (te_logs (snd (collected demo_network demo_reports)))"
  by code_simp

text \<open>An id beyond 64 bits wraps around to another one; a limit beyond 1000 falls to 200.\<close>

lemma zone_id_wraps: "parseInt64 ''18446744073709551617'' ''zone_id'' = Inr 1"
  by (simp add: parseInt64_def digit_step_def wrap64_def go_str Let_def)

lemma large_limit_shrinks: "query_limit 1000 = 1000 \<and> query_limit 1001 = 200"
  by (simp add: query_limit_def)

text \<open>
  A server that never reported, or stopped reporting, has a live view like any other: no error, a
  rate of 0 and the CPU load of its last sample, however old. The load controller reads it as an edge
  without traffic, where it means to leave an edge without a recent sample alone.
\<close>

definition live_load :: "(stat_row list \<Rightarrow> stat_row list) \<Rightarrow> instant \<Rightarrow> control_db \<times> telemetry \<Rightarrow> int \<Rightarrow> (real \<times> real option) option" where
  "live_load scan now st i = (let l = ServerLive scan now i st in Some (sl_bps l, sl_cpu l))"

lemma silent_edge_is_idle:
  assumes "equal_fold (ss_status s) ''online''" "ss_capacity s = Some c" "0 < c"
    and "\<And>rows. set (scan rows) \<subseteq> set rows"
    and "\<forall>r \<in> set (te_stats (snd st)). st_server r = ss_id s \<longrightarrow> st_time r \<le> now - 60 * second \<and> st_cpu r = None"
  shows "load_pressure (live_load scan now st) s = Some (ss_edge s, 0)"
proof -
  have none: "st_time r \<le> now - 60 * second \<and> st_cpu r = None"
    if "r \<in> set (filter (\<lambda>r. st_server r = ss_id s \<and> st_zone r = None) (scan (te_stats (snd st))))" for r
    using that assms(4,5) by auto
  then have recent: "filter (summary_row now) (filter (\<lambda>r. st_server r = ss_id s \<and> st_zone r = None) (scan (te_stats (snd st)))) = []"
    by (force simp: filter_empty_conv summary_row_def)
  have "sl_bps (ServerLive scan now (ss_id s) st) = 0"
    unfolding ServerLive_def Let_def recent by (simp add: total_of_def)
  moreover have "sl_cpu (ServerLive scan now (ss_id s) st) = None"
  proof (cases "newest (Suc 0) st_time (filter (\<lambda>r. st_server r = ss_id s \<and> st_zone r = None) (scan (te_stats (snd st))))")
    case (Cons r rs)
    then have "st_cpu r = None" using none newest_mem [of r "Suc 0" st_time] by (metis list.set_intros(1))
    then show ?thesis by (simp add: ServerLive_def Let_def Cons)
  qed (simp add: ServerLive_def Let_def)
  ultimately show ?thesis using assms(1-3) by (simp add: load_pressure_def live_load_def Let_def)
qed

text \<open>The window of the live rates has no upper end: a sample dated ahead counts until its time has passed.\<close>

lemma clock_ahead_counts: "st_zone r = None \<Longrightarrow> now \<le> st_time r \<Longrightarrow> summary_row now r"
  using second_pos unfolding summary_row_def by linarith

text \<open>On the raw table the network series sums over nothing when no two samples share a time stamp.\<close>

lemma raw_series_merges_nothing:
  assumes "distinct (map st_time rows)" "r \<in> set rows"
  shows "filter (\<lambda>x. st_time x = st_time r) rows = [r]"
  using assms by (induction rows) (auto simp: filter_empty_conv image_iff)

end
