(* ===== verification/ControlStart.thy ===== *)
theory ControlStart
  imports Sessions Fleet LoadSteer CustomDomains SelfUpdate
begin

section \<open>Starting the control plane\<close>

text \<open>
  \<open>brisk-control/internal/config/config.go\<close> and the parts of \<open>cmd/brisk-control/main.go\<close> that turn the
  environment into the options of the background loops: the first admin, the syncer, load steering,
  health checks, the managed certificates and the retention of releases. The environment is a
  function, blank where a variable is unset. \<open>strconv.ParseFloat\<close> is the parameter \<open>pf\<close>, on finite
  numbers. Opening the database, NATS and the listener is left out.
\<close>

subsection \<open>The environment\<close>

type_synonym environment = "string \<Rightarrow> string"

definition envOr :: "environment \<Rightarrow> string \<Rightarrow> string \<Rightarrow> string" where
  "envOr env k d = (if env k \<noteq> '''' then env k else d)"

definition envIntOr :: "environment \<Rightarrow> string \<Rightarrow> int \<Rightarrow> int" where
  "envIntOr env k d = (if env k \<noteq> '''' then (case parse_int (env k) of Some n \<Rightarrow> n | None \<Rightarrow> d) else d)"

definition envBoolOr :: "environment \<Rightarrow> string \<Rightarrow> bool \<Rightarrow> bool" where
  "envBoolOr env k d =
     (let v = to_lower (trim_space (env k)) in
      if v \<in> {''1'', ''true'', ''yes'', ''on''} then True
      else if v \<in> {''0'', ''false'', ''no'', ''off''} then False
      else d)"

definition envFloatOr :: "(string \<Rightarrow> real option) \<Rightarrow> environment \<Rightarrow> string \<Rightarrow> real \<Rightarrow> real" where
  "envFloatOr pf env k d = (if env k \<noteq> '''' then (case pf (trim_space (env k)) of Some x \<Rightarrow> x | None \<Rightarrow> d) else d)"

definition splitCSV :: "string \<Rightarrow> string list" where
  "splitCSV v =
     (if trim_space v = '''' then []
      else filter (\<lambda>p. p \<noteq> '''') (map trim_space (split_on (CHR '','') v)))"

text \<open>\<open>domains[0]\<close> exists: the caller checks that there is a domain.\<close>

definition deriveCertName :: "string list \<Rightarrow> string" where
  "deriveCertName domains =
     (case find (\<lambda>d. \<not> has_prefix d ''*.'') domains of
        Some d \<Rightarrow> d
      | None \<Rightarrow> trim_prefix (hd domains) ''*.'')"

subsection \<open>The configuration\<close>

record control_config =
  cc_database :: string
  cc_listen :: string
  cc_log_level :: string
  cc_env :: string
  cc_agent_url :: string
  cc_nats :: string
  cc_agent_nats :: string
  cc_bunny_key :: string
  cc_bunny_zone_id :: string
  cc_bunny_zone :: string
  cc_record :: string
  cc_ttl :: int
  cc_mode :: string
  cc_monitor :: bool
  cc_monitor_type :: string
  cc_shield :: int
  cc_steer :: bool
  cc_steer_interval :: int
  cc_steer_low :: real
  cc_steer_high :: real
  cc_steer_min :: real
  cc_health :: bool
  cc_health_interval :: int
  cc_health_timeout :: int
  cc_health_fail :: int
  cc_health_rise :: int
  cc_health_path :: string
  cc_health_scheme :: string
  cc_health_port :: int
  cc_tls :: bool
  cc_tls_email :: string
  cc_tls_staging :: bool
  cc_tls_domains :: "string list"
  cc_tls_name :: string
  cc_tls_dir :: string
  cc_custom_staging :: bool
  cc_cookie_secure :: bool
  cc_origin :: string
  cc_admin_email :: string
  cc_admin_password :: string
  cc_pubkeys :: "string list"
  cc_rollout :: bool

definition read_env :: "(string \<Rightarrow> real option) \<Rightarrow> environment \<Rightarrow> control_config" where
  "read_env pf env =
     \<lparr>cc_database = env ''DATABASE_URL'', cc_listen = envOr env ''LISTEN_ADDR'' '':8080'',
      cc_log_level = envOr env ''LOG_LEVEL'' ''info'', cc_env = envOr env ''ENV'' ''dev'',
      cc_agent_url = env ''AGENT_CONTROL_PLANE_URL'', cc_nats = env ''NATS_URL'', cc_agent_nats = env ''AGENT_NATS_URL'',
      cc_bunny_key = env ''BUNNY_API_KEY'', cc_bunny_zone_id = env ''BUNNY_DNS_ZONE_ID'',
      cc_bunny_zone = env ''BUNNY_DNS_ZONE'', cc_record = envOr env ''BRISK_CDN_RECORD'' ''cdn'',
      cc_ttl = envIntOr env ''BRISK_DNS_TTL'' 60, cc_mode = envOr env ''BRISK_DNS_ROUTING_MODE'' ''geographic'',
      cc_monitor = envBoolOr env ''BRISK_DNS_MONITOR'' False,
      cc_monitor_type = envOr env ''BRISK_DNS_MONITOR_TYPE'' ''ping'',
      cc_shield = envIntOr env ''BRISK_DEFAULT_SHIELD_SERVER_ID'' 0,
      cc_steer = envBoolOr env ''BRISK_LOAD_STEER_ENABLED'' False,
      cc_steer_interval = envIntOr env ''BRISK_LOAD_STEER_INTERVAL'' 45,
      cc_steer_low = envFloatOr pf env ''BRISK_LOAD_STEER_LOW'' (55 / 100),
      cc_steer_high = envFloatOr pf env ''BRISK_LOAD_STEER_HIGH'' (90 / 100),
      cc_steer_min = envFloatOr pf env ''BRISK_LOAD_STEER_MIN_FACTOR'' (30 / 100),
      cc_health = envBoolOr env ''BRISK_HEALTH_ENABLED'' True,
      cc_health_interval = envIntOr env ''BRISK_HEALTH_INTERVAL'' 10,
      cc_health_timeout = envIntOr env ''BRISK_HEALTH_TIMEOUT'' 3,
      cc_health_fail = envIntOr env ''BRISK_HEALTH_FAIL_THRESHOLD'' 2,
      cc_health_rise = envIntOr env ''BRISK_HEALTH_RISE_THRESHOLD'' 3,
      cc_health_path = envOr env ''BRISK_HEALTH_PATH'' ''/healthz'',
      cc_health_scheme = envOr env ''BRISK_HEALTH_SCHEME'' ''https'',
      cc_health_port = envIntOr env ''BRISK_HEALTH_PORT'' 0,
      cc_tls = envBoolOr env ''BRISK_TLS_MANAGED'' False, cc_tls_email = env ''BRISK_TLS_EMAIL'',
      cc_tls_staging = envBoolOr env ''BRISK_TLS_STAGING'' True,
      cc_tls_domains = splitCSV (env ''BRISK_TLS_DOMAINS''), cc_tls_name = env ''BRISK_TLS_CERT_NAME'',
      cc_tls_dir = envOr env ''BRISK_TLS_ACME_DIR'' ''/var/lib/brisk-control/acme'',
      cc_custom_staging = envBoolOr env ''BRISK_CUSTOM_TLS_STAGING'' True,
      cc_cookie_secure = envBoolOr env ''BRISK_COOKIE_SECURE'' False, cc_origin = env ''BRISK_DASHBOARD_ORIGIN'',
      cc_admin_email = env ''BRISK_ADMIN_EMAIL'', cc_admin_password = env ''BRISK_ADMIN_PASSWORD'',
      cc_pubkeys = splitCSV (env ''BRISK_AGENT_PUBKEYS''), cc_rollout = envBoolOr env ''BRISK_ROLLOUT_ENABLED'' True\<rparr>"

definition Load :: "(string \<Rightarrow> real option) \<Rightarrow> environment \<Rightarrow> string + control_config" where
  "Load pf env =
     (let c0 = read_env pf env in
      if cc_database c0 = '''' then Inl ''DATABASE_URL is required''
      else (let c1 = (if cc_tls_name c0 = '''' \<and> cc_tls_domains c0 \<noteq> []
                      then c0\<lparr>cc_tls_name := deriveCertName (cc_tls_domains c0)\<rparr> else c0);
                c2 = (if cc_ttl c1 < 10 then c1\<lparr>cc_ttl := 10\<rparr> else c1);
                c3 = (if cc_ttl c2 > 120 then c2\<lparr>cc_ttl := 120\<rparr> else c2)
            in Inr c3))"

definition DashboardOrigins :: "control_config \<Rightarrow> string list" where
  "DashboardOrigins c = (let os = splitCSV (cc_origin c) in if os \<noteq> [] then os else [''http://localhost:5173''])"

datatype slog_level = LevelDebug | LevelInfo | LevelWarn | LevelError

definition SlogLevel :: "control_config \<Rightarrow> slog_level" where
  "SlogLevel c =
     (if cc_log_level c = ''debug'' then LevelDebug
      else if cc_log_level c = ''warn'' then LevelWarn
      else if cc_log_level c = ''error'' then LevelError
      else LevelInfo)"

subsection \<open>What main starts\<close>

text \<open>A Go duration has 64 bits: a number of seconds that is too large wraps around.\<close>

definition seconds_of :: "int \<Rightarrow> duration" where
  "seconds_of n = wrap64 (n * second)"

definition sync_options :: "control_config \<Rightarrow> sync_opts" where
  "sync_options c = NewSyncer
     \<lparr>so_name = cc_record c, so_ttl = cc_ttl c, so_stale = 60 * second, so_periodic = 2 * minute, so_debounce = 3 * second,
      so_mode = NormalizeMode (cc_mode c),
      so_monitor = (if cc_monitor c then MonitorTypeFromString (cc_monitor_type c) else MonitorNone)\<rparr>"

text \<open>\<open>dns\<close>: the Bunny client was built, so there is a syncer.\<close>

definition load_options :: "bool \<Rightarrow> control_config \<Rightarrow> load_opts option" where
  "load_options dns c =
     (if cc_steer c \<and> dns
      then Some (withDefaults
             \<lparr>lo_interval = seconds_of (cc_steer_interval c), lo_alpha = 0, lo_low = cc_steer_low c,
              lo_high = cc_steer_high c, lo_min = cc_steer_min c, lo_deadband = 0\<rparr>)
      else None)"

definition health_options :: "control_config \<Rightarrow> health_config option" where
  "health_options c =
     (if cc_health c
      then Some (health_withDefaults
             \<lparr>hc_enabled = True, hc_interval = seconds_of (cc_health_interval c),
              hc_timeout = seconds_of (cc_health_timeout c), hc_fail = cc_health_fail c, hc_rise = cc_health_rise c,
              hc_path = cc_health_path c, hc_scheme = cc_health_scheme c, hc_port = cc_health_port c\<rparr>)
      else None)"

text \<open>The managed certificates: store key, names and directory of each manager. \<open>zone\<close> is \<open>ZoneName()\<close>, if there is DNS.\<close>

definition tls_managers :: "string option \<Rightarrow> control_config \<Rightarrow> (string \<times> string list \<times> bool) list" where
  "tls_managers zone c =
     (if \<not> cc_tls c then []
      else if cc_bunny_key c = '''' \<or> cc_tls_email c = '''' \<or> cc_tls_domains c = [] then []
      else (cc_tls_name c, cc_tls_domains c, cc_tls_staging c) #
        (case zone of
           None \<Rightarrow> []
         | Some z \<Rightarrow>
             if cc_record c = '''' \<or> cc_record c = ''@'' \<or> trim_space z = '''' then []
             else [(cc_record c @ ''.'' @ trim_space z, [''*.'' @ cc_record c @ ''.'' @ trim_space z], cc_tls_staging c)]))"

text \<open>
  The first admin. \<open>salt\<close> is what the random source gives, \<open>None\<close> when it fails; \<open>None\<close> as the
  result is a start that exits.
\<close>

definition admin_bootstrap :: "argon_lib \<Rightarrow> string option \<Rightarrow> control_config \<Rightarrow> auth_db \<Rightarrow> auth_db option" where
  "admin_bootstrap L salt c db =
     (if cc_admin_email c \<noteq> '''' \<and> cc_admin_password c \<noteq> '''' then
        (case GetAccountByID 1 db of
           Inl e \<Rightarrow> None
         | Inr acc \<Rightarrow>
             if (case ac_hash acc of Some h \<Rightarrow> h \<noteq> '''' | None \<Rightarrow> False) then Some db
             else (case salt of
                     None \<Rightarrow> None
                   | Some s \<Rightarrow>
                       (case SetAccountCredentials 1 (Some (to_lower (trim_space (cc_admin_email c))))
                               (HashPassword L s (cc_admin_password c)) db of
                          Inl e \<Rightarrow> None
                        | Inr db' \<Rightarrow> Some db')))
      else Some db)"

text \<open>
  One run of the hourly retention; \<open>servers\<close> is \<open>None\<close> when the list cannot be read. The versions
  form a set in the code, so their order is of no effect.
\<close>

definition protect_versions :: "store_server list option \<Rightarrow> string list" where
  "protect_versions servers =
     (case servers of None \<Rightarrow> [] | Some ss \<Rightarrow> remdups (filter (\<lambda>v. v \<noteq> '''') (map ss_agent ss)))"

definition prune_run :: "store_server list option \<Rightarrow> release list \<Rightarrow> release list" where
  "prune_run servers rs = PruneReleases 10 (protect_versions servers) rs"


subsection \<open>The options are sound, whatever the environment\<close>

text \<open>
  Every loop starts with options its theorems ask for: a time to live between 10 and 120 seconds, which
  is what convergence needs (a zero would be rewritten for ever), positive periods, and load and
  health settings in range -- after the wrap-around of an absurd number of seconds, too.
\<close>

lemma started_options_sound:
  assumes "Load pf env = Inr c"
  shows "cc_database c \<noteq> ''''"
    and "10 \<le> opt_ttl (diff_opts_of (sync_options c) now) \<and> opt_ttl (diff_opts_of (sync_options c) now) \<le> 120"
    and "0 < so_debounce (sync_options c) \<and> 0 < so_periodic (sync_options c) \<and> 0 < so_stale (sync_options c)"
    and "load_options dns c = Some l \<Longrightarrow> opts_ok l"
    and "health_options c = Some h \<Longrightarrow> cfg_ok h"
  using assms by (auto simp: Load_def Let_def sync_options_def NewSyncer_def diff_opts_of_def load_options_def
      health_options_def withDefaults_ok health_withDefaults_ok durations split: if_splits)

text \<open>The routing mode the syncer runs with is one of the two it knows.\<close>

lemma started_mode: "so_mode (sync_options c) \<in> {ModeGeographic, ModeLatency}"
  by (simp add: sync_options_def NewSyncer_def NormalizeMode_def)

lemma split_on_no_sep: "p \<in> set (split_on c s) \<Longrightarrow> c \<notin> set p"
  by (induction s arbitrary: p) (auto split: list.splits if_splits)

text \<open>A list in the environment reads as its trimmed, non-blank parts; none of them holds a comma.\<close>

lemma trim_space_sub: "set (trim_space s) \<subseteq> set s"
  unfolding trim_space_def by (metis (no_types) dual_order.trans set_dropWhileD set_rev subsetI)

lemma splitCSV_parts:
  assumes "p \<in> set (splitCSV v)"
  shows "p \<noteq> '''' \<and> CHR '','' \<notin> set p"
proof -
  obtain q where q: "q \<in> set (split_on (CHR '','') v)" "p = trim_space q" "p \<noteq> ''''"
    using assms by (auto simp: splitCSV_def split: if_splits)
  then show ?thesis using split_on_no_sep [OF q(1)] trim_space_sub [of q] by auto
qed

subsection \<open>The first admin\<close>

lemma find_credentials:
  assumes "find (\<lambda>a. ac_id a = i) as = Some acc"
  shows "find (\<lambda>a. ac_id a = i) (map (\<lambda>a. if ac_id a = i then a\<lparr>account.ac_email := Some e, ac_hash := Some h\<rparr> else a) as) =
    Some (acc\<lparr>account.ac_email := Some e, ac_hash := Some h\<rparr>)"
  using assms by (induction as) (auto split: if_splits)

lemma HashPassword_nonempty: "HashPassword L s pw \<noteq> ''''"
  by (simp add: HashPassword_def Let_def)

text \<open>
  The environment's password is used once: it opens a fresh account, and from then on neither it nor
  another start's password changes the account, whatever the environment says by then.
\<close>

lemma admin_bootstrap_once:
  assumes argon: "argon_sound L" and set': "cc_admin_email c \<noteq> ''''" "cc_admin_password c \<noteq> ''''"
    and run: "admin_bootstrap L salt c db = Some db'"
  shows "\<exists>acc h. GetAccountByID 1 db' = Inr acc \<and> ac_hash acc = Some h \<and>
    (db' = db \<or> VerifyPassword L (cc_admin_password c) h \<and>
                account.ac_email acc = Some (to_lower (trim_space (cc_admin_email c)))) \<and>
    (\<forall>salt' c'. admin_bootstrap L salt' c' db' = Some db')"
proof -
  obtain acc where acc: "find (\<lambda>a. ac_id a = 1) (tb_accounts db) = Some acc"
    using run set' by (auto simp: admin_bootstrap_def GetAccountByID_def split: option.splits if_splits)
  have again: "admin_bootstrap L salt' c' d = Some d"
    if "GetAccountByID 1 d = Inr a" "ac_hash a = Some h" "h \<noteq> ''''" for salt' c' d a h
    using that by (simp add: admin_bootstrap_def)
  show ?thesis
  proof (cases "\<exists>h. ac_hash acc = Some h \<and> h \<noteq> ''''")
    case True
    then obtain h where h: "ac_hash acc = Some h" "h \<noteq> ''''" by blast
    have g: "GetAccountByID 1 db = Inr acc" using acc by (simp add: GetAccountByID_def)
    have "db' = db" using run again [OF g h] by simp
    then show ?thesis using g h again [OF g h] by blast
  next
    case False
    then obtain s where s: "salt = Some s"
      and w: "SetAccountCredentials 1 (Some (to_lower (trim_space (cc_admin_email c))))
                (HashPassword L s (cc_admin_password c)) db = Inr db'"
      using run set' acc by (auto simp: admin_bootstrap_def GetAccountByID_def split: option.splits if_splits sum.splits)
    let ?acc = "acc\<lparr>account.ac_email := Some (to_lower (trim_space (cc_admin_email c))),
      ac_hash := Some (HashPassword L s (cc_admin_password c))\<rparr>"
    have rows: "tb_accounts db' = map (\<lambda>a. if ac_id a = 1
        then a\<lparr>account.ac_email := Some (to_lower (trim_space (cc_admin_email c))),
               ac_hash := Some (HashPassword L s (cc_admin_password c))\<rparr> else a) (tb_accounts db)"
      using w by (auto simp: SetAccountCredentials_def split: if_splits)
    have g: "GetAccountByID 1 db' = Inr ?acc"
      by (simp only: GetAccountByID_def rows find_credentials [OF acc] option.case)
    have "VerifyPassword L (cc_admin_password c) (HashPassword L s (cc_admin_password c))"
      using password_roundtrip [OF argon] by simp
    then show ?thesis using g again [OF g _ HashPassword_nonempty]
      by (intro exI [of _ ?acc] exI [of _ "HashPassword L s (cc_admin_password c)"]) simp
  qed
qed

subsection \<open>Certificates and releases\<close>

text \<open>
  Without an apex among the domains the store key of the configured certificate is derived from its first
  wildcard, and may be the key of the tenants' certificate: then two managers share one row, and the
  second to look finds a valid certificate -- \<open>EnsureOnce\<close> does not compare the names -- and never asks for its own.
\<close>

lemma managers_share_a_row:
  "map fst (tls_managers (Some ''b.com'')
     ((read_env (\<lambda>_. None) (\<lambda>_. ''''))\<lparr>cc_tls := True, cc_bunny_key := ''k'', cc_tls_email := ''e'',
        cc_tls_domains := [''*.cdn.b.com'', ''*.b.com''], cc_tls_name := deriveCertName [''*.cdn.b.com'', ''*.b.com'']\<rparr>)) =
   [''cdn.b.com'', ''cdn.b.com'']"
  by code_simp

text \<open>When the servers cannot be listed nothing is protected, so a version that edges still run may be deleted.\<close>

lemma prune_unprotected:
  "prune_run None rs = PruneReleases 10 [] rs"
  "s \<in> set ss \<Longrightarrow> ss_agent s \<noteq> '''' \<Longrightarrow> ss_agent s \<in> set (protect_versions (Some ss))"
  by (auto simp: prune_run_def protect_versions_def)

text \<open>The comment of the setting says 30 to 120 seconds.\<close>

lemma ttl_floor_is_ten:
  "(case Load (\<lambda>_. None) (\<lambda>k. if k = ''DATABASE_URL'' then ''postgres://'' else if k = ''BRISK_DNS_TTL'' then ''12'' else '''') of
      Inr c \<Rightarrow> cc_ttl c = 12 | Inl e \<Rightarrow> False)"
  by code_simp

end
