(* ===== verification/EdgeSetup.thy ===== *)
theory EdgeSetup
  imports NginxApply
begin

section \<open>Setting up an edge\<close>

text \<open>
  \<open>brisk-agent/bootstrap/bootstrap.go\<close>: the idempotent install of \<open>brisk-agent --bootstrap\<close>. The machine
  is its disk; a shell command is a parameter that maps the disk to a new one and an exit status, so
  the scripts are written out as the code builds them and what they do is the shell's. \<open>%q\<close> puts a path between
  double quotes (the paths here hold nothing to escape). Reads of an existing file succeed; log lines are left out.
\<close>

record box_ops =
  bo_sh :: "string \<Rightarrow> files \<Rightarrow> files \<times> bool"
  bo_nginx :: "files \<Rightarrow> string option"
  bo_uname :: "string option"
  bo_io :: io_oracle
  bo_mkdir :: "string \<Rightarrow> bool"
  bo_self :: "(string \<times> string) option"
  bo_systemctl :: bool
  bo_license :: string
  bo_marshal :: "agent_config \<Rightarrow> string option"
  bo_load :: "files \<Rightarrow> string \<Rightarrow> agent_config option"
  bo_apply :: "agent_config \<Rightarrow> files \<Rightarrow> files \<times> bool"

text \<open>
  \<open>bo_nginx\<close> is the output of \<open>nginx -v\<close>, \<open>bo_self\<close> the path of the running binary and where its links lead,
  \<open>bo_apply\<close> is \<open>ApplyWithTLS\<close> with a fresh manager (theory \<open>NginxApply\<close>) as it acts on the disk.
\<close>

datatype boot_error =
    NoNginxVersion | ShellFailed string | MkdirError string | StampError string | SysctlError | NoSelf | CopyError
  | ConfigError | ApplyError | UnitError

type_synonym boot_result = "files \<times> boot_error option"

definition and_then :: "boot_result \<Rightarrow> (files \<Rightarrow> boot_result) \<Rightarrow> boot_result" where
  "and_then r k = (case snd r of Some e \<Rightarrow> r | None \<Rightarrow> k (fst r))"

definition quoted :: "string \<Rightarrow> string" where
  "quoted s = [CHR 0x22] @ s @ [CHR 0x22]"

definition boot_sh :: "box_ops \<Rightarrow> string \<Rightarrow> string \<Rightarrow> files \<Rightarrow> boot_result" where
  "boot_sh b desc script d = (let (d', ok) = bo_sh b script d in (d', if ok then None else Some (ShellFailed desc)))"

fun run_steps :: "box_ops \<Rightarrow> string \<Rightarrow> string list \<Rightarrow> files \<Rightarrow> boot_result" where
  "run_steps b desc [] d = (d, None)"
| "run_steps b desc (s # ss) d = and_then (boot_sh b desc s d) (run_steps b desc ss)"

definition boot_mkdir :: "box_ops \<Rightarrow> string \<Rightarrow> files \<Rightarrow> boot_result" where
  "boot_mkdir b p d = (d, if bo_mkdir b p then None else Some (MkdirError p))"

definition boot_write :: "box_ops \<Rightarrow> boot_error \<Rightarrow> string \<Rightarrow> string \<Rightarrow> files \<Rightarrow> boot_result" where
  "boot_write b e p text d = (let (d', ok) = write_file (bo_io b) p text d in (d', if ok then None else Some e))"

subsection \<open>What is installed\<close>

text \<open>The leftmost match of \<open>\d+\.\d+\.\d+\<close>.\<close>

definition version_at :: "string \<Rightarrow> string option" where
  "version_at s =
     (let a = takeWhile is_digit s; r = dropWhile is_digit s;
          a' = takeWhile is_digit (drop 1 r); r' = dropWhile is_digit (drop 1 r);
          a'' = takeWhile is_digit (drop 1 r')
      in if a \<noteq> [] \<and> take 1 r = ''.'' \<and> a' \<noteq> [] \<and> take 1 r' = ''.'' \<and> a'' \<noteq> []
         then Some (a @ ''.'' @ a' @ ''.'' @ a'') else None)"

fun find_version :: "string \<Rightarrow> string option" where
  "find_version [] = None"
| "find_version (c # s) = (case version_at (c # s) of Some v \<Rightarrow> Some v | None \<Rightarrow> find_version s)"

definition DetectNginxVersion :: "box_ops \<Rightarrow> files \<Rightarrow> string option" where
  "DetectNginxVersion b d = Option.bind (bo_nginx b d) find_version"

definition trim_quotes :: "string \<Rightarrow> string" where
  "trim_quotes s = rev (dropWhile (\<lambda>c. c = CHR 0x22) (rev (dropWhile (\<lambda>c. c = CHR 0x22) s)))"

definition DetectOSPretty :: "files \<Rightarrow> string option" where
  "DetectOSPretty d =
     Option.bind (d ''/etc/os-release'')
       (\<lambda>text. map_option trim_quotes
          (case List.map_filter (\<lambda>line. cut_prefix (trim_space line) ''PRETTY_NAME='') (split_on (CHR 0x0A) text) of
             [] \<Rightarrow> None | v # _ \<Rightarrow> Some v))"

definition DetectKernel :: "box_ops \<Rightarrow> string option" where
  "DetectKernel b = map_option trim_space (bo_uname b)"

definition upToDate :: "string \<Rightarrow> string \<Rightarrow> string \<Rightarrow> files \<Rightarrow> bool" where
  "upToDate so stamp ver d \<longleftrightarrow>
     d so \<noteq> None \<and> (case d stamp of None \<Rightarrow> False | Some t \<Rightarrow> trim_space t = ver)"

subsection \<open>nginx and its modules\<close>

definition ModulesDir :: string where "ModulesDir = ''/etc/nginx/modules''"
definition SrcDir :: string where "SrcDir = ''/usr/local/src''"
definition luaJITDir :: string where "luaJITDir = ''/usr/local/luajit''"
definition BriskLuaDir :: string where "BriskLuaDir = ''/usr/local/brisk-lua''"
definition GeoIPDir :: string where "GeoIPDir = ''/etc/brisk/geoip''"
definition GeoIPDBPath :: string where "GeoIPDBPath = GeoIPDir @ ''/GeoLite2-Country.mmdb''"

definition add_repo_script :: string where
  "add_repo_script = join [CHR 0x0A]
     [''set -e'',
      ''export DEBIAN_FRONTEND=noninteractive'',
      ''apt-get update'',
      ''apt-get install -y --no-install-recommends ca-certificates curl gnupg'',
      ''install -d /usr/share/keyrings'',
      ''rm -f /usr/share/keyrings/nginx-archive-keyring.gpg'',
      ''curl -fsSL https://nginx.org/keys/nginx_signing.key | gpg --dearmor -o /usr/share/keyrings/nginx-archive-keyring.gpg'',
      ''. /etc/os-release'',
      ''echo '' @ [CHR 0x22] @
        ''deb [signed-by=/usr/share/keyrings/nginx-archive-keyring.gpg] http://nginx.org/packages/ubuntu ${VERSION_CODENAME} nginx'' @
        [CHR 0x22] @ '' > /etc/apt/sources.list.d/nginx.list'',
      ''apt-get update'',
      ''apt-get install -y -o Dpkg::Options::=--force-confdef -o Dpkg::Options::=--force-confold nginx'']"

definition fallback_script :: string where
  "fallback_script =
      ''rm -f /etc/apt/sources.list.d/nginx.list; export DEBIAN_FRONTEND=noninteractive; apt-get update && apt-get install -y -o Dpkg::Options::=--force-confdef -o Dpkg::Options::=--force-confold nginx''"

definition deps_script :: string where
  "deps_script =
      ''export DEBIAN_FRONTEND=noninteractive; apt-get update && apt-get install -y --no-install-recommends build-essential cmake wget tar git ca-certificates libpcre2-dev zlib1g-dev libssl-dev''"

definition installNginx :: "box_ops \<Rightarrow> files \<Rightarrow> boot_result" where
  "installNginx b d =
     and_then
       (if DetectNginxVersion b d \<noteq> None then (d, None)
        else (let r = boot_sh b ''add nginx.org repo + install'' add_repo_script d in
              if snd r = None then r else boot_sh b ''install distro nginx'' fallback_script (fst r)))
       (boot_sh b ''install build deps'' deps_script)"

definition nginx_src :: "string \<Rightarrow> string" where
  "nginx_src ver = SrcDir @ ''/nginx-'' @ ver"

definition fetchNginxSource :: "box_ops \<Rightarrow> string \<Rightarrow> files \<Rightarrow> boot_result" where
  "fetchNginxSource b ver d =
     and_then (boot_mkdir b SrcDir d)
       (boot_sh b (''fetch nginx source '' @ ver)
          (''cd '' @ SrcDir @ '' && [ -d '' @ quoted (nginx_src ver) @
      '' ] || { wget -q https://nginx.org/download/nginx-'' @ ver @ ''.tar.gz && tar xzf nginx-'' @
      ver @ ''.tar.gz; }''))"

record module_spec =
  ms_name :: string
  ms_repo :: string
  ms_dir :: string
  ms_flags :: string
  ms_pre :: string
  ms_glob :: string
  ms_stamp :: string
  ms_check :: string

text \<open>\<open>ms_flags\<close>: the flags of \<open>git clone\<close> in the format \<open>clone\<close> of the specification.\<close>

definition module_steps :: "module_spec \<Rightarrow> string \<Rightarrow> string list" where
  "module_steps s ver =
     (let dir = SrcDir @ ''/'' @ ms_dir s; src = nginx_src ver in
      [''[ -d '' @ quoted dir @ '' ] || git clone '' @ ms_flags s @ '' '' @ ms_repo s @ '' '' @
      quoted dir] @
      (if ms_pre s \<noteq> '''' then [ms_pre s] else []) @
      [''cd '' @ quoted src @ '' && ./configure --with-compat --add-dynamic-module='' @ quoted dir,
       ''cd '' @ quoted src @ '' && make modules'',
       ''cp '' @ src @ ''/objs/'' @ ms_glob s @ '' '' @ quoted ModulesDir @ ''/''])"

definition ensureModule :: "box_ops \<Rightarrow> module_spec \<Rightarrow> files \<Rightarrow> boot_result" where
  "ensureModule b s d =
     (case DetectNginxVersion b d of
        None \<Rightarrow> (d, Some NoNginxVersion)
      | Some ver \<Rightarrow>
          if upToDate (ms_check s) (ModulesDir @ ''/'' @ ms_stamp s) ver d then (d, None)
          else and_then (fetchNginxSource b ver d)
                 (\<lambda>d. and_then (boot_mkdir b ModulesDir d)
                   (\<lambda>d. and_then (run_steps b (ms_name s @ '' build'') (module_steps s ver) d)
                     (boot_write b (StampError (ms_name s)) (ModulesDir @ ''/'' @ ms_stamp s) (ver @ [CHR 0x0A])))))"

definition headers_more :: module_spec where
  "headers_more =
     \<lparr>ms_name = ''headers-more'', ms_repo = ''https://github.com/openresty/headers-more-nginx-module.git'',
      ms_dir = ''headers-more-nginx-module'', ms_flags = ''--depth=1'', ms_pre = '''',
      ms_glob = ''ngx_http_headers_more_filter_module.so'', ms_stamp = ''.brisk-headers-more.version'',
      ms_check = ModulesDir @ ''/ngx_http_headers_more_filter_module.so''\<rparr>"

definition EnsureHeadersMore :: "box_ops \<Rightarrow> files \<Rightarrow> boot_result" where
  "EnsureHeadersMore b = ensureModule b headers_more"

definition brotli :: module_spec where
  "brotli =
     \<lparr>ms_name = ''ngx_brotli'', ms_repo = ''https://github.com/google/ngx_brotli.git'', ms_dir = ''ngx_brotli'',
      ms_flags = ''--depth=1 --recurse-submodules'',
      ms_pre = ''cd '' @ quoted (SrcDir @ ''/ngx_brotli/deps/brotli'') @
      '' && mkdir -p out && cd out && cmake -DCMAKE_BUILD_TYPE=Release -DBUILD_SHARED_LIBS=OFF -DCMAKE_C_FLAGS=-fPIC .. && cmake --build . --config Release -j'' @
      [CHR 0x22] @ ''$(nproc)'' @ [CHR 0x22],
      ms_glob = ''ngx_http_brotli_*.so'', ms_stamp = ''.brisk-brotli.version'',
      ms_check = ModulesDir @ ''/ngx_http_brotli_filter_module.so''\<rparr>"

definition EnsureBrotli :: "box_ops \<Rightarrow> files \<Rightarrow> boot_result" where
  "EnsureBrotli b = ensureModule b brotli"

definition LuaSO :: string where "LuaSO = ''ngx_http_lua_module.so''"

text \<open>\<open>clone_step\<close>: a repository is cloned unless its directory exists.\<close>

definition clone_step :: "string \<Rightarrow> string \<Rightarrow> string" where
  "clone_step dir repo =
      ''[ -d '' @ quoted dir @ '' ] || git clone --depth=1 https://github.com/'' @ repo @ ''.git '' @
      quoted dir"

definition lua_steps :: "string \<Rightarrow> string list" where
  "lua_steps ver =
     (let luajit = SrcDir @ ''/luajit2''; ndk = SrcDir @ ''/ngx_devel_kit''; luaMod = SrcDir @ ''/lua-nginx-module'';
          restyCore = SrcDir @ ''/lua-resty-core''; restyLru = SrcDir @ ''/lua-resty-lrucache''; src = nginx_src ver in
      [clone_step luajit ''openresty/luajit2'',
       ''[ -f '' @ quoted luaJITDir @ ''/lib/libluajit-5.1.so.2 ] || { make -C '' @ quoted luajit @
      '' -j'' @ [CHR 0x22] @ ''$(nproc)'' @ [CHR 0x22] @ '' && make -C '' @ quoted luajit @
      '' install PREFIX='' @ quoted luaJITDir @ ''; }'',
       clone_step ndk ''vision5/ngx_devel_kit'',
       clone_step luaMod ''openresty/lua-nginx-module'',
       clone_step restyCore ''openresty/lua-resty-core'',
       clone_step restyLru ''openresty/lua-resty-lrucache'',
       ''cd '' @ quoted src @ '' && LUAJIT_LIB='' @ quoted luaJITDir @ ''/lib LUAJIT_INC='' @
      quoted luaJITDir @ ''/include/luajit-2.1 ./configure --with-compat --add-dynamic-module='' @
      quoted ndk @ '' --add-dynamic-module='' @ quoted luaMod,
       ''cd '' @ quoted src @ '' && make modules'',
       ''cp '' @ quoted src @ ''/objs/ndk_http_module.so '' @ quoted src @ ''/objs/'' @ LuaSO @ '' '' @
      quoted ModulesDir @ ''/'',
       ''mkdir -p '' @ quoted BriskLuaDir @ '' && cp -r '' @ quoted restyCore @ ''/lib/. '' @
      quoted BriskLuaDir @ ''/ && cp -r '' @ quoted restyLru @ ''/lib/. '' @ quoted BriskLuaDir @ ''/'',
       ''echo '' @ quoted luaJITDir @ ''/lib > /etc/ld.so.conf.d/brisk-luajit.conf && ldconfig''])"

definition EnsureLua :: "box_ops \<Rightarrow> files \<Rightarrow> boot_result" where
  "EnsureLua b d =
     (case DetectNginxVersion b d of
        None \<Rightarrow> (d, Some NoNginxVersion)
      | Some ver \<Rightarrow>
          if upToDate (ModulesDir @ ''/'' @ LuaSO) (ModulesDir @ ''/.brisk-lua.version'') ver d then (d, None)
          else and_then (fetchNginxSource b ver d)
                 (\<lambda>d. and_then (boot_mkdir b ModulesDir d)
                   (\<lambda>d. and_then (run_steps b ''lua build'' (lua_steps ver) d)
                     (boot_write b (StampError ''lua'') (ModulesDir @ ''/.brisk-lua.version'') (ver @ [CHR 0x0A])))))"

definition geoip_module :: module_spec where
  "geoip_module =
     \<lparr>ms_name = ''ngx_http_geoip2'', ms_repo = ''https://github.com/leev/ngx_http_geoip2_module.git'',
      ms_dir = ''ngx_http_geoip2_module'', ms_flags = ''--depth=1'',
      ms_pre = ''export DEBIAN_FRONTEND=noninteractive; apt-get update && apt-get install -y --no-install-recommends libmaxminddb-dev libmaxminddb0'',
      ms_glob = ''ngx_http_geoip2_module.so'', ms_stamp = ''.brisk-geoip2.version'',
      ms_check = ModulesDir @ ''/ngx_http_geoip2_module.so''\<rparr>"

definition geoip_download :: "string \<Rightarrow> string" where
  "geoip_download key =
      ''set -e; tmp=$(mktemp -d); curl -fsSL -o '' @ [CHR 0x22] @ ''$tmp/db.tgz'' @ [CHR 0x22] @
      '' '' @ [CHR 0x22] @
      ''https://download.maxmind.com/app/geoip_download?edition_id=GeoLite2-Country&license_key='' @
      key @ ''&suffix=tar.gz'' @ [CHR 0x22] @ ''; tar -xzf '' @ [CHR 0x22] @ ''$tmp/db.tgz'' @
      [CHR 0x22] @ '' -C '' @ [CHR 0x22] @ ''$tmp'' @ [CHR 0x22] @ ''; f=$(find '' @ [CHR 0x22] @
      ''$tmp'' @ [CHR 0x22] @ '' -name '' @ [CHR 0x27] @ ''GeoLite2-Country.mmdb'' @ [CHR 0x27] @
      '' | head -n1); install -m 0644 '' @ [CHR 0x22] @ ''$f'' @ [CHR 0x22] @ '' '' @
      quoted GeoIPDBPath @ ''; rm -rf '' @ [CHR 0x22] @ ''$tmp'' @ [CHR 0x22]"

text \<open>A failed download of the database is logged and not an error.\<close>

definition EnsureGeoIP :: "box_ops \<Rightarrow> files \<Rightarrow> boot_result" where
  "EnsureGeoIP b d =
     and_then (ensureModule b geoip_module d)
       (\<lambda>d. and_then (boot_mkdir b GeoIPDir d)
         (\<lambda>d. if d GeoIPDBPath \<noteq> None then (d, None)
              else if bo_license b = '''' then (d, None)
              else (fst (boot_sh b ''geoip db download'' (geoip_download (bo_license b)) d), None)))"

subsection \<open>Tuning, directories, binary\<close>

definition sysctlContent :: string where
  "sysctlContent = join [CHR 0x0A]
     [''# Brisk edge tuning '' @ [CHR 0xE2, CHR 0x80, CHR 0x94] @
        '' managed by brisk-agent bootstrap.'',
      ''# congestion control (Google BBR) + fair queueing'',
      ''net.core.default_qdisc            = fq'',
      ''net.ipv4.tcp_congestion_control   = bbr'',
      ''# big autotuning buffers for 10 Gbps / high-bandwidth paths'',
      ''net.core.rmem_max                 = 33554432'',
      ''net.core.wmem_max                 = 33554432'',
      ''net.ipv4.tcp_rmem                 = 4096 131072 33554432'',
      ''net.ipv4.tcp_wmem                 = 4096 131072 33554432'',
      ''# queues / backlogs for bursty connection storms'',
      ''net.core.somaxconn                = 65535'',
      ''net.ipv4.tcp_max_syn_backlog      = 65536'',
      ''net.core.netdev_max_backlog       = 250000'',
      ''# connection churn + fast open'',
      ''net.ipv4.tcp_fastopen             = 3'',
      ''net.ipv4.tcp_fin_timeout          = 15'',
      ''net.ipv4.tcp_tw_reuse             = 1'',
      ''net.ipv4.ip_local_port_range      = 1024 65000'',
      ''net.ipv4.tcp_slow_start_after_idle= 0'',
      ''fs.file-max                       = 2000000''] @ [CHR 0x0A]"

text \<open>Applying the settings may fail (inside a container); that is only logged.\<close>

definition WriteSysctl :: "box_ops \<Rightarrow> files \<Rightarrow> boot_result" where
  "WriteSysctl b d =
     and_then (boot_write b SysctlError ''/etc/sysctl.d/99-brisk.conf'' sysctlContent d)
       (\<lambda>d. (fst (boot_sh b ''apply sysctl'' ''sysctl --system >/dev/null 2>&1'' d), None))"

fun make_dirs :: "box_ops \<Rightarrow> string list \<Rightarrow> files \<Rightarrow> boot_result" where
  "make_dirs b [] d = (d, None)"
| "make_dirs b (p # ps) d = and_then (boot_mkdir b p d) (make_dirs b ps)"

definition createDirs :: "box_ops \<Rightarrow> files \<Rightarrow> boot_result" where
  "createDirs b = make_dirs b [''/var/cache/brisk'', ''/etc/brisk/tls'', ''/var/log/nginx'', ''/etc/brisk'', ''/var/www/brisk-acme'']"

definition AgentBinPath :: string where "AgentBinPath = ''/usr/local/bin/brisk-agent''"

definition box_copyFile :: "box_ops \<Rightarrow> string \<Rightarrow> string \<Rightarrow> files \<Rightarrow> boot_result" where
  "box_copyFile b src dst d = (case d src of None \<Rightarrow> (d, Some CopyError) | Some data \<Rightarrow> boot_write b CopyError dst data d)"

definition installBinary :: "box_ops \<Rightarrow> files \<Rightarrow> boot_result" where
  "installBinary b d =
     (case bo_self b of
        None \<Rightarrow> (d, Some NoSelf)
      | Some (self, resolved) \<Rightarrow>
          if resolved = AgentBinPath then (d, None) else box_copyFile b self AgentBinPath d)"

subsection \<open>Configuration, start, services\<close>

text \<open>The placeholder that is written when there is no configuration; fields it does not set are zero.\<close>

definition placeholder_zone :: agent_zone where
  "placeholder_zone =
     \<lparr>zn_domain = ''localhost'', zn_origin = ''http://127.0.0.1:8080'', zn_host_header = '''', zn_tls = ''selfsigned'',
      zn_shield = '''', zn_cert = '''', zn_key = '''', zn_serial = '''', zn_video = False, zn_profile = '''',
      zn_playlist_ttl = '''', zn_segment_ttl = '''', zn_cors = '''', zn_min_uses = 0, zn_waf = None, zn_rules = [],
      zn_transforms = [], zn_cache = None, zn_hotlink = None, zn_ssl_verify = False, zn_follow = False,
      zn_forward_host = False, zn_error_html = '''', zn_blocked_ips = '''', zn_block_root = False, zn_block_post = False\<rparr>"

definition placeholder_config :: agent_config where
  "placeholder_config =
     \<lparr>ac_edge_id = ''EDGE-01'', ac_mode = ''local'', ac_url = '''', ac_token = '''', ac_token_file = '''', ac_poll = '''',
      ac_stats = '''', ac_nats = '''', ac_cache_file = '''', ac_cache_dir = ''/var/cache/brisk'', ac_cache_max = '''',
      ac_tls_mode = ''selfsigned'', ac_email = '''', ac_staging = False, ac_tickets = None, ac_brotli = 0,
      ac_resolver = '''', ac_waf_listen = '''', ac_pull_secret = '''', ac_pull_header = '''', ac_protect = False,
      ac_max_conn = 0, ac_req_rate = 0, ac_req_burst = 0, ac_zones = [placeholder_zone]\<rparr>"

text \<open>\<open>filepath.Dir\<close> of a clean path.\<close>

definition parent_dir :: "string \<Rightarrow> string" where
  "parent_dir p = (case last_index_byte (CHR ''/'') p of None \<Rightarrow> ''.'' | Some i \<Rightarrow> if i = 0 then ''/'' else take i p)"

definition config_Save :: "box_ops \<Rightarrow> agent_config \<Rightarrow> string \<Rightarrow> files \<Rightarrow> boot_result" where
  "config_Save b c path d =
     (case bo_marshal b c of
        None \<Rightarrow> (d, Some ConfigError)
      | Some raw \<Rightarrow> and_then (boot_mkdir b (parent_dir path) d) (boot_write b ConfigError path raw))"

definition ensureConfig :: "box_ops \<Rightarrow> string \<Rightarrow> files \<Rightarrow> files \<times> (boot_error + agent_config)" where
  "ensureConfig b path d =
     (let r = (if d path = None then config_Save b placeholder_config path d else (d, None)) in
      (fst r, case snd r of Some e \<Rightarrow> Inl e
              | None \<Rightarrow> (case bo_load b (fst r) path of None \<Rightarrow> Inl ConfigError | Some c \<Rightarrow> Inr c)))"

definition generateAndStart :: "box_ops \<Rightarrow> agent_config \<Rightarrow> files \<Rightarrow> boot_result" where
  "generateAndStart b c d = (let (d', ok) = bo_apply b c d in (d', if ok then None else Some ApplyError))"

definition systemdUnit :: string where
  "systemdUnit = join [CHR 0x0A]
     [''[Unit]'',
      ''Description=Brisk Edge Agent'',
      ''After=network-online.target nginx.service'',
      ''Wants=network-online.target'',
      '''',
      ''[Service]'',
      ''Type=simple'',
      ''ExecStart=/usr/local/bin/brisk-agent --config /etc/brisk/agent.yaml'',
      ''Restart=always'',
      ''RestartSec=3'',
      ''LimitNOFILE=1000000'',
      '''',
      ''[Install]'',
      ''WantedBy=multi-user.target''] @ [CHR 0x0A]"

text \<open>Without systemd nothing is installed; that nginx cannot be enabled is only logged.\<close>

definition installSystemd :: "box_ops \<Rightarrow> files \<Rightarrow> boot_result" where
  "installSystemd b d =
     (if \<not> (bo_systemctl b \<and> d ''/run/systemd/system'' \<noteq> None) then (d, None)
      else and_then (boot_write b UnitError ''/etc/systemd/system/brisk-agent.service'' systemdUnit d)
             (\<lambda>d. and_then (boot_sh b ''systemctl daemon-reload'' ''systemctl daemon-reload'' d)
               (\<lambda>d. boot_sh b ''enable brisk-agent'' ''systemctl enable --now brisk-agent''
                      (fst (boot_sh b ''enable nginx'' ''systemctl enable --now nginx'' d)))))"

definition bootstrap_Run :: "box_ops \<Rightarrow> string \<Rightarrow> files \<Rightarrow> boot_result" where
  "bootstrap_Run b path d =
     and_then (installNginx b d) (\<lambda>d.
     and_then (EnsureHeadersMore b d) (\<lambda>d.
     and_then (EnsureBrotli b d) (\<lambda>d.
     and_then (EnsureLua b d) (\<lambda>d.
     and_then (EnsureGeoIP b d) (\<lambda>d.
     and_then (WriteSysctl b d) (\<lambda>d.
     and_then (createDirs b d) (\<lambda>d.
     and_then (installBinary b d) (\<lambda>d.
       (case ensureConfig b path d of
          (d, Inl e) \<Rightarrow> (d, Some e)
        | (d, Inr c) \<Rightarrow> and_then (generateAndStart b c d) (installSystemd b))))))))))"

subsection \<open>The version found is one nginx printed\<close>

lemma version_at_some:
  assumes "version_at s = Some v"
  shows "\<exists>rest. s = v @ rest" and "v \<noteq> ''''" and "\<forall>c \<in> set v. is_digit c \<or> c = CHR ''.''"
proof -
  let ?a = "takeWhile is_digit s" and ?r = "dropWhile is_digit s"
  let ?a' = "takeWhile is_digit (drop 1 ?r)" and ?r' = "dropWhile is_digit (drop 1 ?r)"
  let ?a'' = "takeWhile is_digit (drop 1 ?r')" and ?r'' = "dropWhile is_digit (drop 1 ?r')"
  have v: "v = ?a @ ''.'' @ ?a' @ ''.'' @ ?a''" "take 1 ?r = ''.''" "take 1 ?r' = ''.''" "?a \<noteq> []"
    using assms by (auto simp: version_at_def Let_def split: if_splits)
  have "?r = ''.'' @ drop 1 ?r" "?r' = ''.'' @ drop 1 ?r'" using v(2,3) by (metis append_take_drop_id)+
  then have "s = v @ ?r''" unfolding v(1) by (metis append.assoc takeWhile_dropWhile_id)
  then show "\<exists>rest. s = v @ rest" by blast
  show "v \<noteq> ''''" using v by simp
  show "\<forall>c \<in> set v. is_digit c \<or> c = CHR ''.''" unfolding v(1) by (auto dest: set_takeWhileD)
qed

lemma find_version_some:
  assumes "find_version s = Some v"
  shows "(\<exists>pre post. s = pre @ v @ post) \<and> v \<noteq> '''' \<and> (\<forall>c \<in> set v. is_digit c \<or> c = CHR ''.'')"
  using assms
proof (induction s)
  case (Cons c s)
  show ?case
  proof (cases "version_at (c # s)")
    case None
    then obtain pre post where "s = pre @ v @ post" "v \<noteq> ''''" "\<forall>c \<in> set v. is_digit c \<or> c = CHR ''.''"
      using Cons by auto
    then show ?thesis by (intro conjI exI [of _ "c # pre"] exI [of _ post]) simp_all
  next
    case (Some w)
    then have "w = v" using Cons.prems by simp
    with Some show ?thesis using version_at_some [of "c # s" v] by (metis append_Nil)
  qed
qed simp

lemma find_version_nginx: "find_version (''nginx version: nginx/1.30.2'' @ [CHR 0x0A]) = Some ''1.30.2''"
  by code_simp

lemma digit_not_space: "is_digit c \<Longrightarrow> \<not> is_space c"
  by (simp add: is_digit_def is_space_def Let_def)

lemma dropWhile_none: "\<forall>c \<in> set s. \<not> P c \<Longrightarrow> dropWhile P s = s"
  by (cases s) auto

lemma stamp_reads_back:
  assumes "find_version s = Some v"
  shows "trim_space (v @ [CHR 0x0A]) = v"
proof -
  have clean: "\<forall>c \<in> set v. \<not> is_space c"
  proof
    fix c assume "c \<in> set v"
    then have "is_digit c \<or> c = CHR ''.''" using find_version_some [OF assms] by blast
    then show "\<not> is_space c" by (elim disjE) (rule digit_not_space, assumption, simp add: is_space_def)
  qed
  obtain c w where v: "v = c # w" using find_version_some [OF assms] by (cases v) blast+
  have "dropWhile is_space (v @ [CHR 0x0A]) = v @ [CHR 0x0A]" using clean v by simp
  moreover have "dropWhile is_space (rev (v @ [CHR 0x0A])) = rev v"
    using clean dropWhile_none [of "rev v" is_space] by (simp add: is_space_def)
  ultimately show ?thesis by (simp only: trim_space_def rev_rev_ident)
qed

subsection \<open>Running it again\<close>

lemma boot_write_ok: "boot_write b e p text d = (d', None) \<Longrightarrow> d' = d(p \<mapsto> text)"
  by (auto simp: boot_write_def write_file_def split: io.splits)

lemma and_then_ok: "and_then r k = (d', None) \<longleftrightarrow> snd r = None \<and> k (fst r) = (d', None)"
  by (cases r) (auto simp: and_then_def split: option.splits)

text \<open>
  A module that was built is not built again: as long as nginx keeps its version and the module file is
  there, another run does nothing, on a box where every command and every write fails as much as on
  one where all work.
\<close>

lemma module_built_once:
  assumes run: "ensureModule b s d = (d', None)" and so: "d' (ms_check s) \<noteq> None"
    and ver: "DetectNginxVersion b' d' = DetectNginxVersion b d"
  shows "ensureModule b' s d' = (d', None)"
proof -
  obtain out v where v: "bo_nginx b d = Some out" "find_version out = Some v"
    using run by (auto simp: ensureModule_def DetectNginxVersion_def bind_eq_Some_conv split: option.splits)
  have det: "DetectNginxVersion b d = Some v" using v by (simp add: DetectNginxVersion_def)
  have "upToDate (ms_check s) (ModulesDir @ ''/'' @ ms_stamp s) v d'"
  proof (cases "upToDate (ms_check s) (ModulesDir @ ''/'' @ ms_stamp s) v d")
    case True
    then show ?thesis using run det by (simp add: ensureModule_def)
  next
    case False
    then obtain d1 where "boot_write b (StampError (ms_name s)) (ModulesDir @ ''/'' @ ms_stamp s) (v @ [CHR 0x0A]) d1 = (d', None)"
      using run det by (auto simp: ensureModule_def and_then_ok)
    then show ?thesis using so stamp_reads_back [OF v(2)] by (auto dest: boot_write_ok simp: upToDate_def)
  qed
  then show ?thesis using ver det by (simp add: ensureModule_def)
qed

text \<open>
  The stamp is written last, and the old one is left in place while a new module is built and copied. If
  that last write fails after an upgrade of nginx and the upgrade is then taken back, stamp and
  version agree again and the next run keeps the module of the other version, which nginx refuses to load.
  The box below stores in the module file the version it was built for.
\<close>

definition demo_box :: "string \<Rightarrow> io \<Rightarrow> box_ops" where
  "demo_box ver stamp =
     \<lparr>bo_sh = (\<lambda>script d. (if has_prefix script ''cp '' then d(ms_check headers_more \<mapsto> ver) else d, True)),
      bo_nginx = (\<lambda>d. Some (''nginx/'' @ ver)), bo_uname = None,
      bo_io = (\<lambda>p. if p = ModulesDir @ ''/.brisk-headers-more.version'' then stamp else Works), bo_mkdir = (\<lambda>p. True),
      bo_self = None, bo_systemctl = False, bo_license = '''', bo_marshal = (\<lambda>c. None), bo_load = (\<lambda>d p. None),
      bo_apply = (\<lambda>c d. (d, True))\<rparr>"

lemma module_of_another_version:
  "let built = fst (EnsureHeadersMore (demo_box ''1.28.0'' Works) Map.empty);
       upgraded = EnsureHeadersMore (demo_box ''1.30.2'' Fails) built;
       again = EnsureHeadersMore (demo_box ''1.28.0'' Works) (fst upgraded)
   in snd upgraded = Some (StampError ''headers-more'') \<and> snd again = None \<and>
      fst again (ms_check headers_more) = Some ''1.30.2''"
  by code_simp

text \<open>An edge without a configuration gets the placeholder; one that has a configuration keeps it.\<close>

lemma ensureConfig_keeps: "d path \<noteq> None \<Longrightarrow> fst (ensureConfig b path d) = d"
  by (cases "d path") (simp_all add: ensureConfig_def Let_def)

end
