(* ===== verification/AgentClient.thy ===== *)
theory AgentClient
  imports AgentApi SelfUpdate
begin

section \<open>The agent's HTTP client, and edge and control plane together\<close>

text \<open>
  \<open>brisk-agent/client/client.go\<close>: every request an agent sends, and what it makes of the answer; the
  loops of \<open>brisk-agent/main.go\<close> that send them; and the start of the agent. The last part joins the
  poll loop of \<open>AgentConfig\<close>, through this client and a lossy transport, with the handler of
  \<open>AgentApi\<close> on the other side.

  The transport is the parameter \<open>http\<close> of each call: \<open>None\<close> when the request cannot be built or is
  not answered. \<open>rs_broken\<close> marks a body whose reading ends in an error after its last byte. The JSON
  codec is a parameter.
\<close>

subsection \<open>Requests and answers\<close>

record client_request =
  cq_method :: string
  cq_url :: string
  cq_headers :: "(string \<times> string) list"
  cq_body :: string

record client_response =
  rs_status :: int
  rs_etag :: string
  rs_body :: string
  rs_broken :: bool

type_synonym transport = "client_request \<Rightarrow> client_response option"

record http_client =
  hc_base :: string
  hc_token :: string
  hc_edge :: string
  hc_agent :: string
  hc_nginx :: string
  hc_os :: string
  hc_kernel :: string
  hc_go :: string

definition New_client :: "string \<Rightarrow> string \<Rightarrow> string \<Rightarrow> string \<Rightarrow> string \<Rightarrow> string \<Rightarrow> string \<Rightarrow> string \<Rightarrow> http_client" where
  "New_client baseURL token edgeID agentVersion nginxVersion osPretty kern goVersion =
     \<lparr>hc_base = rev (dropWhile (\<lambda>c. c = CHR ''/'') (rev baseURL)), hc_token = token, hc_edge = edgeID,
      hc_agent = agentVersion, hc_nginx = nginxVersion, hc_os = osPretty, hc_kernel = kern, hc_go = goVersion\<rparr>"

datatype client_error =
    NoResponse
  | BadStatus string
  | BadAnswer

text \<open>\<open>io.ReadAll\<close> of the body, and of its first \<open>n\<close> bytes: what was read and whether reading failed.\<close>

definition ReadAll :: "client_response \<Rightarrow> string \<times> bool" where
  "ReadAll r = (rs_body r, rs_broken r)"

definition ReadLimited :: "nat \<Rightarrow> client_response \<Rightarrow> string \<times> bool" where
  "ReadLimited n r = (take n (rs_body r), rs_broken r \<and> length (rs_body r) < n)"

definition get_request :: "http_client \<Rightarrow> string \<Rightarrow> client_request" where
  "get_request c path =
     \<lparr>cq_method = ''GET'', cq_url = hc_base c @ path, cq_headers = [(''Authorization'', ''Bearer '' @ hc_token c)], cq_body = ''''\<rparr>"

definition post_request :: "http_client \<Rightarrow> string \<Rightarrow> string \<Rightarrow> client_request" where
  "post_request c path body =
     \<lparr>cq_method = ''POST'', cq_url = hc_base c @ path,
      cq_headers = [(''Content-Type'', ''application/json''), (''Authorization'', ''Bearer '' @ hc_token c)], cq_body = body\<rparr>"

text \<open>The text of a refusal quotes at most 512 bytes of the answer.\<close>

definition status_error :: "string \<Rightarrow> client_response \<Rightarrow> client_error" where
  "status_error what r =
     BadStatus (what @ '': status '' @ show_int (rs_status r) @ '': '' @ trim_space (fst (ReadLimited 512 r)))"

subsection \<open>The calls\<close>

record heartbeat_body =
  hbb_edge :: string
  hbb_agent :: string
  hbb_nginx :: string
  hbb_os :: string
  hbb_kernel :: string
  hbb_go :: string

definition client_Heartbeat :: "(heartbeat_body \<Rightarrow> string) \<Rightarrow> http_client \<Rightarrow> transport \<Rightarrow> client_error option" where
  "client_Heartbeat marshal c http =
     (let body = marshal \<lparr>hbb_edge = hc_edge c, hbb_agent = hc_agent c, hbb_nginx = hc_nginx c, hbb_os = hc_os c,
                          hbb_kernel = hc_kernel c, hbb_go = hc_go c\<rparr>
      in case http (post_request c ''/api/v1/agent/heartbeat'' body) of
           None \<Rightarrow> Some NoResponse
         | Some r \<Rightarrow> if rs_status r \<noteq> 200 then Some (status_error ''heartbeat'' r) else None)"

definition FetchRelease :: "(string \<Rightarrow> release_info option) \<Rightarrow> http_client \<Rightarrow> transport \<Rightarrow> client_error + release_info" where
  "FetchRelease decode c http =
     (case http (get_request c ''/api/v1/agent/release'') of
        None \<Rightarrow> Inl NoResponse
      | Some r \<Rightarrow>
          if rs_status r \<noteq> 200 then Inl (BadStatus (''fetch release: status '' @ show_int (rs_status r)))
          else (case decode (rs_body r) of None \<Rightarrow> Inl BadAnswer | Some ri \<Rightarrow> Inr ri))"

definition DownloadBinary :: "http_client \<Rightarrow> string \<Rightarrow> transport \<Rightarrow> client_error + string" where
  "DownloadBinary c version http =
     (case http (get_request c (''/api/v1/releases/'' @ version @ ''/binary'')) of
        None \<Rightarrow> Inl NoResponse
      | Some r \<Rightarrow>
          if rs_status r \<noteq> 200
          then Inl (BadStatus (''download binary '' @ version @ '': status '' @ show_int (rs_status r)))
          else (let (data, err) = ReadAll r in if err then Inl BadAnswer else Inr data))"

text \<open>\<open>ShipStats\<close>, \<open>ShipLogs\<close> and \<open>ShipSecurityEvents\<close> share this body.\<close>

definition ship_to :: "string \<Rightarrow> string \<Rightarrow> http_client \<Rightarrow> string \<Rightarrow> transport \<Rightarrow> client_error option" where
  "ship_to path what c body http =
     (case http (post_request c path body) of
        None \<Rightarrow> Some NoResponse
      | Some r \<Rightarrow> if rs_status r \<noteq> 200 \<and> rs_status r \<noteq> 204 then Some (status_error what r) else None)"

definition ShipStats :: "http_client \<Rightarrow> string \<Rightarrow> transport \<Rightarrow> client_error option" where
  "ShipStats = ship_to ''/api/v1/agent/stats'' ''ship stats''"

definition ShipLogs :: "http_client \<Rightarrow> string \<Rightarrow> transport \<Rightarrow> client_error option" where
  "ShipLogs = ship_to ''/api/v1/agent/logs'' ''ship logs''"

definition ShipSecurityEvents :: "http_client \<Rightarrow> string \<Rightarrow> transport \<Rightarrow> client_error option" where
  "ShipSecurityEvents = ship_to ''/api/v1/agent/security-events'' ''ship security events''"

definition AckPurge :: "http_client \<Rightarrow> int \<Rightarrow> transport \<Rightarrow> client_error option" where
  "AckPurge c jobID http =
     (let body = ''{'' @ [CHR 0x22] @ ''job_id'' @ [CHR 0x22] @ '':'' @ show_int jobID @ ''}''
      in case http (post_request c ''/api/v1/agent/purge/ack'' body) of
           None \<Rightarrow> Some NoResponse
         | Some r \<Rightarrow> if rs_status r \<noteq> 200 then Some (status_error ''ack purge'' r) else None)"

text \<open>\<open>strings.Trim\<close> of the tag's quotes.\<close>

definition unquote :: "string \<Rightarrow> string" where
  "unquote s = rev (dropWhile (\<lambda>c. c = CHR 0x22) (rev (dropWhile (\<lambda>c. c = CHR 0x22) s)))"

definition etag_quoted :: "string \<Rightarrow> string" where
  "etag_quoted s = CHR 0x22 # s @ [CHR 0x22]"

definition configCap :: nat where
  "configCap = 4 * 2 ^ 20"

definition pull_request :: "http_client \<Rightarrow> string \<Rightarrow> client_request" where
  "pull_request c etag =
     (let rq = get_request c ''/api/v1/agent/config''
      in if etag \<noteq> '''' then rq\<lparr>cq_headers := cq_headers rq @ [(''If-None-Match'', etag_quoted etag)]\<rparr> else rq)"

text \<open>The error of a refusal is only logged, so \<open>pa_err\<close> keeps that there was one.\<close>

definition PullConfig :: "http_client \<Rightarrow> string \<Rightarrow> transport \<Rightarrow> pull_answer" where
  "PullConfig c etag http =
     (case http (pull_request c etag) of
        None \<Rightarrow> \<lparr>pa_status = 0, pa_body = '''', pa_etag = '''', pa_err = True\<rparr>
      | Some r \<Rightarrow>
          (let newETag = unquote (rs_etag r)
           in if rs_status r = 200 then
                (let (body, err) = ReadLimited configCap r
                 in \<lparr>pa_status = 200, pa_body = body, pa_etag = newETag, pa_err = err\<rparr>)
              else if rs_status r = 304 then \<lparr>pa_status = 304, pa_body = '''', pa_etag = newETag, pa_err = False\<rparr>
              else \<lparr>pa_status = rs_status r, pa_body = '''', pa_etag = newETag, pa_err = True\<rparr>))"

subsection \<open>The loops of the agent\<close>

text \<open>
  One tick of \<open>releaseLoop\<close> with its calls; the process that runs asks under the version it reports.
\<close>

definition release_round ::
  "agent_cfg \<Rightarrow> (string \<Rightarrow> string) \<Rightarrow> io \<Rightarrow> (string \<Rightarrow> release_info option) \<Rightarrow> http_client \<Rightarrow> transport \<Rightarrow> agent_state \<Rightarrow> agent_state" where
  "release_round cfg version io decode c http s =
     (case FetchRelease decode c http of
        Inl _ \<Rightarrow> release_tick cfg version io None None s
      | Inr ri \<Rightarrow>
          release_tick cfg version io (Some ri)
            (case DownloadBinary c (ri_target ri) http of Inl _ \<Rightarrow> None | Inr data \<Rightarrow> Some data) s)"

text \<open>The ticks of \<open>heartbeatLoop\<close>: the first at once, then one every thirty seconds.\<close>

definition heartbeatInterval :: duration where
  "heartbeatInterval = 30 * second"

definition heartbeat_times :: "instant \<Rightarrow> nat \<Rightarrow> instant list" where
  "heartbeat_times start n = map (\<lambda>k. start + int k * heartbeatInterval) [0..<n]"

definition waf_addr :: "agent_config \<Rightarrow> string" where
  "waf_addr base = (let addr = ac_waf_listen base in if addr = '''' then ''127.0.0.1:9555'' else addr)"

definition agentSelfCheck :: "client_response option \<Rightarrow> string option" where
  "agentSelfCheck answer =
     (case answer of
        None \<Rightarrow> Some ''unreachable''
      | Some r \<Rightarrow> if rs_status r \<noteq> 200 then Some (''healthz returned '' @ show_int (rs_status r)) else None)"

definition modeName :: "(string \<Rightarrow> string option) \<Rightarrow> agent_config \<Rightarrow> string" where
  "modeName readf base = (if PullMode readf base then ''pull'' else ''standalone'')"

subsection \<open>The start of the agent\<close>

record agent_flags =
  fl_bootstrap :: bool
  fl_render :: bool
  fl_renew :: bool
  fl_oneshot :: bool

text \<open>What the calls of \<open>main\<close> yield, errors as \<open>Some\<close> message or \<open>None\<close> result.\<close>

record start_outcomes =
  so_bootstrap :: "string option"
  so_manager :: bool
  so_base :: "agent_config option"
  so_render :: "string option"
  so_renewed :: bool
  so_applied :: bool
  so_rolled_back :: bool

datatype agent_loop =
    WafService string
  | WafEvents bool
  | RenewLoop
  | HeartbeatLoop
  | ConfigPollLoop
  | StatsLoop
  | PurgeLoop
  | LogShipLoop
  | ReleaseLoop

datatype start_result =
    Fatal string
  | Finished string
  | Restarting
  | Serving "agent_loop list"

text \<open>\<open>startPurge\<close> returns at once without a NATS address.\<close>

definition startPurge :: "agent_config \<Rightarrow> agent_loop list" where
  "startPurge base = (if ac_nats base = '''' then [] else [PurgeLoop])"

definition agent_main :: "(string \<Rightarrow> string option) \<Rightarrow> agent_flags \<Rightarrow> start_outcomes \<Rightarrow> start_result" where
  "agent_main readf fl i =
     (if fl_bootstrap fl then (case so_bootstrap i of Some e \<Rightarrow> Fatal (''bootstrap failed: '' @ e) | None \<Rightarrow> Finished '''')
      else if \<not> so_manager i then Fatal ''init nginx manager''
      else case so_base i of
        None \<Rightarrow> Fatal ''load config''
      | Some base \<Rightarrow>
          if fl_render fl then (case so_render i of None \<Rightarrow> Fatal ''render failed'' | Some out \<Rightarrow> Finished out)
          else if fl_renew fl then (if so_renewed i then Finished '''' else Fatal ''renew failed'')
          else (let pull = PullMode readf base;
                    waf = [WafService (waf_addr base), WafEvents pull]
                in if \<not> so_applied i \<and> fl_oneshot fl then Fatal ''initial apply failed''
                   else if fl_oneshot fl then Finished ''''
                   else if so_rolled_back i then Restarting
                   else Serving (waf @ [RenewLoop] @
                     (if pull then [HeartbeatLoop, ConfigPollLoop, StatsLoop] @ startPurge base @ [LogShipLoop, ReleaseLoop]
                      else []))))"

datatype agent_signal = SIGHUP | SIGINT | SIGTERM

text \<open>The service loop: the state after the signals, and whether the process still runs.\<close>

fun signal_loop :: "('s \<Rightarrow> 's \<times> bool) \<Rightarrow> agent_signal list \<Rightarrow> 's \<Rightarrow> 's \<times> bool" where
  "signal_loop apply [] s = (s, True)"
| "signal_loop apply (SIGHUP # sigs) s = signal_loop apply sigs (fst (apply s))"
| "signal_loop apply (SIGINT # sigs) s = (s, False)"
| "signal_loop apply (SIGTERM # sigs) s = (s, False)"

text \<open>
  A bad configuration at boot does not stop an edge in pull mode: the loops that fetch a better one
  and a newer binary start all the same.
\<close>

lemma bad_config_stays_up:
  assumes "agent_main readf fl (i\<lparr>so_applied := True\<rparr>) = Serving loops" "fl_oneshot fl = False"
  shows "agent_main readf fl (i\<lparr>so_applied := False\<rparr>) = Serving loops"
  using assms by (auto simp: agent_main_def Let_def split: if_splits option.splits)

lemma pull_mode_polls:
  assumes "agent_main readf fl i = Serving loops" "so_base i = Some base"
  shows "ConfigPollLoop \<in> set loops \<longleftrightarrow> PullMode readf base"
  using assms by (auto simp: agent_main_def Let_def startPurge_def split: if_splits option.splits)

lemma heartbeats_regular: "k + 1 < n \<Longrightarrow> heartbeat_times t n ! (k + 1) = heartbeat_times t n ! k + 30 * second"
  by (simp add: heartbeat_times_def heartbeatInterval_def algebra_simps)

subsection \<open>Quoting of the tag\<close>

lemma unquote_quoted:
  assumes a: "CHR 0x22 \<notin> set s"
  shows "unquote (etag_quoted s) = s"
proof -
  have keep: "dropWhile (\<lambda>c. c = CHR 0x22) t = t" if "CHR 0x22 \<notin> set t" for t
    using that by (cases t) auto
  have "dropWhile (\<lambda>c. c = CHR 0x22) (s @ [CHR 0x22]) = (if s = [] then [] else s @ [CHR 0x22])"
    using a by (cases s) auto
  then show ?thesis using keep [of "rev s"] a by (simp add: unquote_def etag_quoted_def)
qed

lemma etag_quoted_inject [simp]: "etag_quoted s = etag_quoted t \<longleftrightarrow> s = t"
  by (simp add: etag_quoted_def)

lemma etag_quoted_nonempty [simp]: "etag_quoted s \<noteq> ''''"
  by (simp add: etag_quoted_def)

subsection \<open>Edge and control plane together\<close>

text \<open>What is fixed: the parameters of the handler, the edge it knows, the client and the edge's settings.\<close>

record link_env =
  le_digest :: "string \<Rightarrow> string"
  le_key :: "string \<Rightarrow> int"
  le_dflt :: int
  le_server :: int
  le_client :: http_client
  le_encode :: "string \<Rightarrow> api_zone list \<Rightarrow> string"
  le_decode :: "string \<Rightarrow> wire_config option"
  le_parse :: url_parser
  le_dur :: "string \<Rightarrow> duration option"
  le_base :: agent_config

record link =
  lk_db :: control_db
  lk_poll :: poller

definition header_of :: "string \<Rightarrow> client_request \<Rightarrow> string" where
  "header_of name rq = (case map_of (cq_headers rq) name of None \<Rightarrow> '''' | Some v \<Rightarrow> v)"

abbreviation current_zones :: "link_env \<Rightarrow> control_db \<Rightarrow> api_zone list" where
  "current_zones E d \<equiv> agent_zones (le_key E) (le_dflt E) (le_server E) d"

abbreviation current_tag :: "link_env \<Rightarrow> control_db \<Rightarrow> string" where
  "current_tag E d \<equiv> agent_etag (le_digest E) (le_key E) (le_dflt E) (le_server E) d"

definition current_body :: "link_env \<Rightarrow> control_db \<Rightarrow> string" where
  "current_body E d = le_encode E (current_tag E d) (current_zones E d)"

text \<open>
  What \<open>agentConfig\<close> writes: the tag header, and as body the version (the tag without its quotes) and
  the zones. \<open>accepted\<close>: the middleware knew the token.
\<close>

definition config_response :: "link_env \<Rightarrow> bool \<Rightarrow> control_db \<Rightarrow> client_request \<Rightarrow> client_response" where
  "config_response E accepted d rq =
     (case agentConfig (le_digest E) (le_key E) (le_dflt E) (if accepted then Some (le_server E) else None)
             (header_of ''If-None-Match'' rq) d of
        ConfigUnauthorized \<Rightarrow> \<lparr>rs_status = 401, rs_etag = '''', rs_body = ''unauthorized'', rs_broken = False\<rparr>
      | ConfigNotModified q \<Rightarrow> \<lparr>rs_status = 304, rs_etag = q, rs_body = '''', rs_broken = False\<rparr>
      | ConfigServed q zones \<Rightarrow>
          \<lparr>rs_status = 200, rs_etag = q, rs_body = le_encode E (unquote q) zones, rs_broken = False\<rparr>)"

text \<open>
  The network: a request is lost, refused for its token, answered by something in between, its answer
  breaks off after \<open>n\<close> bytes, or arrives.
\<close>

datatype link_delivery = Lost | Refused | Gateway int string | CutOff nat | Arrives

definition network :: "link_env \<Rightarrow> link_delivery \<Rightarrow> control_db \<Rightarrow> transport" where
  "network E dl d rq =
     (case dl of
        Lost \<Rightarrow> None
      | Refused \<Rightarrow> Some (config_response E False d rq)
      | Gateway s b \<Rightarrow> Some \<lparr>rs_status = s, rs_etag = '''', rs_body = b, rs_broken = False\<rparr>
      | CutOff n \<Rightarrow> (let r = config_response E True d rq in Some (r\<lparr>rs_body := take n (rs_body r), rs_broken := True\<rparr>))
      | Arrives \<Rightarrow> Some (config_response E True d rq))"

text \<open>
  What can happen: transactions of the control plane, a turn of the poll loop with its delivery and the
  faults of the disk and of nginx, a restart of the agent.
\<close>

datatype link_event =
    Edits "txn list"
  | Turn link_delivery write_fault "agent_config \<Rightarrow> bool"
  | AgentRestart

definition poll_round :: "link_env \<Rightarrow> link_delivery \<Rightarrow> write_fault \<Rightarrow> (agent_config \<Rightarrow> bool) \<Rightarrow> link \<Rightarrow> poller" where
  "poll_round E dl fault applyCfg s =
     fst (poll_step (le_decode E) (le_parse E) (le_dur E) (le_base E)
            (PullConfig (le_client E) (pl_etag (lk_poll s)) (network E dl (lk_db s))) fault applyCfg (lk_poll s))"

primrec link_step :: "link_env \<Rightarrow> link_event \<Rightarrow> link \<Rightarrow> link" where
  "link_step E (Edits ts) s = s\<lparr>lk_db := run_txns ts (lk_db s)\<rparr>"
| "link_step E (Turn dl fault applyCfg) s = s\<lparr>lk_poll := poll_round E dl fault applyCfg s\<rparr>"
| "link_step E AgentRestart s = s\<lparr>lk_poll := new_poller (le_decode E) (pl_files (lk_poll s))\<rparr>"

definition link_run :: "link_env \<Rightarrow> link_event list \<Rightarrow> link \<Rightarrow> link" where
  "link_run E evs s = foldl (\<lambda>s e. link_step E e s) s evs"

text \<open>An edge just set up: no cache file, no tag.\<close>

definition new_link :: "link_env \<Rightarrow> control_db \<Rightarrow> link" where
  "new_link E d = \<lparr>lk_db = d, lk_poll = new_poller (le_decode E) \<lparr>cf_cache = None, cf_tmp = None\<rparr>\<rparr>"

text \<open>Everything in between that answers with 200 answers for the control plane.\<close>

primrec honest :: "link_event \<Rightarrow> bool" where
  "honest (Edits ts) = True"
| "honest (Turn dl fault applyCfg) = (case dl of Gateway s b \<Rightarrow> s \<noteq> 200 | _ \<Rightarrow> True)"
| "honest AgentRestart = True"

text \<open>
  What is used of the JSON codec: a body decodes to its version and as many zones as were encoded, and
  no body is a value when it is cut short.
\<close>

definition sound_codec :: "link_env \<Rightarrow> bool" where
  "sound_codec E \<longleftrightarrow>
     (\<forall>v zs. (\<exists>w. le_decode E (le_encode E v zs) = Some w \<and> wc_version w = v \<and> length (wc_zones w) = length zs) \<and>
             (\<forall>n < length (le_encode E v zs). le_decode E (take n (le_encode E v zs)) = None))"

text \<open>What is used of the tags of the databases \<open>V\<close>.\<close>

definition sound_tags :: "link_env \<Rightarrow> control_db set \<Rightarrow> bool" where
  "sound_tags E V \<longleftrightarrow>
     (\<forall>d \<in> V. CHR 0x22 \<notin> set (current_tag E d)) \<and>
     (\<forall>d \<in> V. \<forall>a \<in> set (current_zones E d). etag_clean a) \<and>
     (\<forall>d \<in> V. \<forall>d' \<in> V. serials_identify (tb_certs d @ tb_certs d')) \<and>
     inj_on (le_digest E) ((\<lambda>d. etag_message (server_zone_rows (le_server E) d) (current_zones E d)) ` V)"

lemma same_tag_same_body:
  assumes t: "sound_tags E V" and V: "d \<in> V" "d' \<in> V" and wf: "wf_db d" "wf_db d'" "later d d'"
      and eq: "current_tag E d = current_tag E d'"
    shows "current_body E d = current_body E d'"
proof -
  have "etag_message (server_zone_rows (le_server E) d) (current_zones E d) =
        etag_message (server_zone_rows (le_server E) d') (current_zones E d')"
    using t V eq by (auto simp: sound_tags_def agent_etag_def configETag_def dest: inj_onD)
  moreover have "serials_identify (tb_certs d @ tb_certs d')" "\<forall>a \<in> set (current_zones E d). etag_clean a"
    "\<forall>a \<in> set (current_zones E d'). etag_clean a"
    using t V by (simp_all add: sound_tags_def)
  ultimately have "current_zones E d = current_zones E d'"
    by (intro same_message_same_zones [OF wf]) simp_all
  then show ?thesis using eq by (simp add: current_body_def)
qed

text \<open>What the client makes of an answer that comes from the control plane.\<close>

lemma header_pull: "header_of ''If-None-Match'' (pull_request c etag) = (if etag = '''' then '''' else etag_quoted etag)"
  by (simp add: header_of_def pull_request_def get_request_def Let_def)

lemma agentConfig_quoted:
  "agentConfig digest key dflt (Some server) inm d =
     (let q = etag_quoted (agent_etag digest key dflt server d)
      in if inm = q then ConfigNotModified q else ConfigServed q (agent_zones key dflt server d))"
  by (simp add: agentConfig_def etag_quoted_def Let_def)

lemma config_response_pull:
  assumes "CHR 0x22 \<notin> set (current_tag E d)"
  shows "config_response E True d (pull_request c etag) =
     (if etag \<noteq> '''' \<and> etag = current_tag E d
      then \<lparr>rs_status = 304, rs_etag = etag_quoted (current_tag E d), rs_body = '''', rs_broken = False\<rparr>
      else \<lparr>rs_status = 200, rs_etag = etag_quoted (current_tag E d), rs_body = current_body E d, rs_broken = False\<rparr>)"
  using etag_quoted_nonempty [of "current_tag E d", symmetric]
  by (simp add: config_response_def agentConfig_quoted header_pull current_body_def unquote_quoted [OF assms] Let_def)

lemma config_response_refused: "rs_status (config_response E False d rq) = 401"
  by (simp add: config_response_def agentConfig_def)

lemma pull_network:
  assumes q: "CHR 0x22 \<notin> set (current_tag E d)" and h: "honest (Turn dl fault applyCfg)"
      and a: "a = PullConfig c etag (network E dl d)" and ok: "pa_status a = 200"
  shows "pa_etag a = current_tag E d \<and> (\<exists>n. pa_body a = take n (current_body E d))"
  using h ok unfolding a
  by (cases dl)
     (auto simp: PullConfig_def network_def config_response_refused config_response_pull [OF q] unquote_quoted [OF q]
        ReadLimited_def Let_def take_take split: if_splits prod.splits)

lemma pull_arrives:
  assumes q: "CHR 0x22 \<notin> set (current_tag E d)"
  shows "PullConfig c etag (network E Arrives d) =
     (if etag \<noteq> '''' \<and> etag = current_tag E d
      then \<lparr>pa_status = 304, pa_body = '''', pa_etag = current_tag E d, pa_err = False\<rparr>
      else \<lparr>pa_status = 200, pa_body = take configCap (current_body E d), pa_etag = current_tag E d, pa_err = False\<rparr>)"
  by (simp add: PullConfig_def network_def config_response_pull [OF q] unquote_quoted [OF q] ReadLimited_def)

text \<open>A turn keeps the tag and the cache file, or it stores a whole body together with its tag.\<close>

lemma poll_step_stores:
  fixes p :: poller
  assumes "p' = fst (poll_step decode parse dur base a fault applyCfg p)"
  shows "(pl_etag p' = pl_etag p \<and> cf_cache (pl_files p') = cf_cache (pl_files p)) \<or>
     (pa_status a = 200 \<and> pl_etag p' = pa_etag a \<and> cf_cache (pl_files p') = Some (pa_body a) \<and> decode (pa_body a) \<noteq> None)"
  unfolding assms
  by (auto simp: poll_step_def WriteCache_def Let_def split: option.splits write_fault.splits)

lemma poll_step_no_change: "pa_status a = 304 \<Longrightarrow> \<not> pa_err a \<Longrightarrow>
    pl_etag (fst (poll_step decode parse dur base a fault applyCfg p)) = pl_etag p \<and>
    pl_files (fst (poll_step decode parse dur base a fault applyCfg p)) = pl_files p"
  by (simp add: poll_step_def Let_def)

lemma poll_step_writes: "pa_status a = 200 \<Longrightarrow> decode (pa_body a) = Some w \<Longrightarrow> wc_zones w \<noteq> [] \<Longrightarrow>
    cf_cache (pl_files (fst (poll_step decode parse dur base a NoFault applyCfg p))) = Some (pa_body a)"
  by (simp add: poll_step_def WriteCache_def Let_def)

lemma cut_body:
  assumes "sound_codec E" "le_decode E (take n (current_body E d)) \<noteq> None"
  shows "take n (current_body E d) = current_body E d"
  using assms by (metis current_body_def sound_codec_def not_le take_all_iff)

lemma body_decodes:
  assumes "sound_codec E"
  obtains w where "le_decode E (current_body E d) = Some w" "wc_version w = current_tag E d"
    "length (wc_zones w) = length (current_zones E d)"
  using assms unfolding sound_codec_def current_body_def by blast

text \<open>
  The invariant: the edge holds nothing yet, or the whole body and the tag of one and the same earlier
  state of the control plane.
\<close>

definition in_step :: "link_env \<Rightarrow> control_db set \<Rightarrow> link \<Rightarrow> bool" where
  "in_step E V s \<longleftrightarrow> wf_db (lk_db s) \<and>
     ((cf_cache (pl_files (lk_poll s)) = None \<and> pl_etag (lk_poll s) = '''') \<or>
      (\<exists>d \<in> V. wf_db d \<and> later d (lk_db s) \<and> cf_cache (pl_files (lk_poll s)) = Some (current_body E d) \<and>
              pl_etag (lk_poll s) = current_tag E d))"

lemma in_step_turn:
  assumes i: "in_step E V s" and V: "lk_db s \<in> V" and t: "sound_tags E V" and c: "sound_codec E"
      and h: "honest (Turn dl fault applyCfg)"
    shows "in_step E V (link_step E (Turn dl fault applyCfg) s)"
proof -
  let ?a = "PullConfig (le_client E) (pl_etag (lk_poll s)) (network E dl (lk_db s))"
  let ?p = "poll_round E dl fault applyCfg s"
  have q: "CHR 0x22 \<notin> set (current_tag E (lk_db s))" using t V by (simp add: sound_tags_def)
  from poll_step_stores [OF poll_round_def [of E dl fault applyCfg s]]
  show ?thesis
  proof (elim disjE conjE)
    assume "pl_etag ?p = pl_etag (lk_poll s)" "cf_cache (pl_files ?p) = cf_cache (pl_files (lk_poll s))"
    then show ?thesis using i by (simp add: in_step_def)
  next
    assume r: "pa_status ?a = 200" "pl_etag ?p = pa_etag ?a" "cf_cache (pl_files ?p) = Some (pa_body ?a)"
      "le_decode E (pa_body ?a) \<noteq> None"
    obtain n where n: "pa_etag ?a = current_tag E (lk_db s)" "pa_body ?a = take n (current_body E (lk_db s))"
      using pull_network [OF q h refl r(1)] by blast
    have "pa_body ?a = current_body E (lk_db s)" using r(4) n(2) cut_body [OF c] by simp
    then have "cf_cache (pl_files ?p) = Some (current_body E (lk_db s)) \<and> pl_etag ?p = current_tag E (lk_db s)"
      using r n by simp
    then show ?thesis using i V later_refl [of "lk_db s"] by (auto simp: in_step_def)
  qed
qed

lemma in_step_restart:
  assumes i: "in_step E V s" and c: "sound_codec E"
  shows "in_step E V (link_step E AgentRestart s)"
proof -
  have "CachedETag (le_decode E) (pl_files (lk_poll s)) = pl_etag (lk_poll s)"
  proof (cases "cf_cache (pl_files (lk_poll s))")
    case None
    then show ?thesis using i by (auto simp: in_step_def CachedETag_def readCache_def)
  next
    case (Some raw)
    then obtain d where d: "raw = current_body E d" "pl_etag (lk_poll s) = current_tag E d"
      using i by (auto simp: in_step_def)
    obtain w where "le_decode E (current_body E d) = Some w" "wc_version w = current_tag E d"
      using body_decodes [OF c] by blast
    then show ?thesis using Some d by (simp add: CachedETag_def readCache_def)
  qed
  then show ?thesis using i by (simp add: in_step_def new_poller_def)
qed

lemma in_step_edits: "in_step E V s \<Longrightarrow> in_step E V (link_step E (Edits ts) s)"
  unfolding in_step_def by (auto intro: wf_run_txns later_trans later_run_txns)

lemma in_step_run:
  assumes "in_step E V s" and "\<And>n. lk_db (link_run E (take n evs) s) \<in> V"
      and "sound_tags E V" "sound_codec E" "\<forall>e \<in> set evs. honest e"
    shows "in_step E V (link_run E evs s)"
  using assms(1,2,5)
proof (induction evs rule: rev_induct)
  case Nil
  then show ?case by (simp add: link_run_def)
next
  case (snoc e evs)
  have V: "lk_db (link_run E (take n evs) s) \<in> V" for n
    using snoc.prems(2) [of "min n (length evs)"] by (simp add: min_def split: if_splits)
  have i: "in_step E V (link_run E evs s)" using snoc.IH [OF snoc.prems(1) V] snoc.prems(3) by simp
  have now: "lk_db (link_run E evs s) \<in> V" using V [of "length evs"] by simp
  have "in_step E V (link_step E e (link_run E evs s))"
    using i in_step_edits [OF i] in_step_restart [OF i assms(4)] in_step_turn [OF i now assms(3,4)] snoc.prems(3)
    by (cases e) simp_all
  then show ?case by (simp add: link_run_def)
qed

lemma in_step_new: "wf_db d \<Longrightarrow> in_step E V (new_link E d)"
  by (simp add: in_step_def new_link_def new_poller_def CachedETag_def readCache_def)

text \<open>
  C3: One poll catches up. Take an edge and its control plane through any interleaving of transactions,
  polls that are lost, refused, cut off, answered by something in between or stored only in part, and
  restarts of the agent. After it, one poll that arrives and is written leaves in the cache file
  the body, byte for byte, the control plane would send an edge that knows nothing -- also when the
  answer was 304. The edge must have a zone and the body fit the client's limit; of the tags and the
  codec only the stated facts are used.
\<close>

theorem one_poll_catches_up:
  assumes wf: "wf_db d" and V: "\<And>n. lk_db (link_run E (take n evs) (new_link E d)) \<in> V"
      and tags: "sound_tags E V" and codec: "sound_codec E" and honest: "\<forall>e \<in> set evs. honest e"
      and s: "s = link_run E evs (new_link E d)"
      and zones: "current_zones E (lk_db s) \<noteq> []" and fits: "length (current_body E (lk_db s)) \<le> configCap"
    shows "cf_cache (pl_files (lk_poll (link_step E (Turn Arrives NoFault applyCfg) s))) = Some (current_body E (lk_db s))"
proof -
  have i: "in_step E V s" unfolding s by (rule in_step_run [OF in_step_new [OF wf] V tags codec honest])
  have now: "lk_db s \<in> V" using V [of "length evs"] s by simp
  have q: "CHR 0x22 \<notin> set (current_tag E (lk_db s))" using tags now by (simp add: sound_tags_def)
  note pull = pull_arrives [OF q, of "le_client E" "pl_etag (lk_poll s)"]
  obtain w where w: "le_decode E (current_body E (lk_db s)) = Some w" "wc_zones w \<noteq> []"
    using body_decodes [OF codec, of "lk_db s"] zones by (metis length_0_conv)
  show ?thesis
  proof (cases "pl_etag (lk_poll s) \<noteq> '''' \<and> pl_etag (lk_poll s) = current_tag E (lk_db s)")
    case True
    then obtain d' where d': "d' \<in> V" "wf_db d'" "later d' (lk_db s)"
        "cf_cache (pl_files (lk_poll s)) = Some (current_body E d')" "current_tag E d' = current_tag E (lk_db s)"
      using i unfolding in_step_def by fastforce
    have "current_body E d' = current_body E (lk_db s)"
      using i d' by (intro same_tag_same_body [OF tags d'(1) now]) (simp_all add: in_step_def)
    moreover note pull [unfolded if_P [OF True]]
    ultimately show ?thesis using d'(4) by (simp add: poll_round_def poll_step_no_change)
  next
    case False
    note pull [unfolded if_not_P [OF False]]
    then show ?thesis using w fits by (simp add: poll_round_def poll_step_writes)
  qed
qed

text \<open>
  Where it does not catch up. A body over four mebibytes is cut by the client, never decodes and is
  asked for again at every poll; and an edge whose last zone is taken away keeps the zones it had,
  certificates and keys included.
\<close>

lemma cache_unchanged:
  assumes c: "sound_codec E" and q: "CHR 0x22 \<notin> set (current_tag E (lk_db s))" and h: "honest (Turn dl fault applyCfg)"
      and out: "current_zones E (lk_db s) = [] \<or> configCap < length (current_body E (lk_db s)) \<and> dl = Arrives"
    shows "cf_cache (pl_files (lk_poll (link_step E (Turn dl fault applyCfg) s))) = cf_cache (pl_files (lk_poll s))"
proof (rule ccontr)
  let ?a = "PullConfig (le_client E) (pl_etag (lk_poll s)) (network E dl (lk_db s))"
  assume "\<not> ?thesis"
  then have ne: "cf_cache (pl_files (poll_round E dl fault applyCfg s)) \<noteq> cf_cache (pl_files (lk_poll s))" by simp
  then obtain w where r: "pa_status ?a = 200" "le_decode E (pa_body ?a) = Some w" "wc_zones w \<noteq> []"
    by (auto simp: poll_round_def poll_step_def WriteCache_def Let_def
             split: option.splits write_fault.splits if_splits)
  obtain n where n: "pa_body ?a = take n (current_body E (lk_db s))" using pull_network [OF q h refl r(1)] by blast
  then have whole: "pa_body ?a = current_body E (lk_db s)" using r(2) cut_body [OF c, of n "lk_db s"] by simp
  obtain w' where "le_decode E (current_body E (lk_db s)) = Some w'" "length (wc_zones w') = length (current_zones E (lk_db s))"
    using body_decodes [OF c] by blast
  then have "current_zones E (lk_db s) \<noteq> []" using r whole by auto
  then have "dl = Arrives" "configCap < length (current_body E (lk_db s))" using out by auto
  moreover from this have "pa_body ?a = take configCap (current_body E (lk_db s))"
    using r(1) pull_arrives [OF q, of "le_client E" "pl_etag (lk_poll s)"] by (auto split: if_splits)
  ultimately show False using whole by (metis length_take min.absorb2 nat_less_le)
qed

lemma oversized_config_never_stored:
  assumes "sound_codec E" "CHR 0x22 \<notin> set (current_tag E (lk_db s))" "configCap < length (current_body E (lk_db s))"
  shows "cf_cache (pl_files (lk_poll (link_step E (Turn Arrives fault applyCfg) s))) = cf_cache (pl_files (lk_poll s))"
  using assms by (intro cache_unchanged) simp_all

lemma last_zone_stays:
  assumes "sound_codec E" "CHR 0x22 \<notin> set (current_tag E (lk_db s))" "current_zones E (lk_db s) = []"
      and "honest (Turn dl fault applyCfg)"
    shows "cf_cache (pl_files (lk_poll (link_step E (Turn dl fault applyCfg) s))) = cf_cache (pl_files (lk_poll s))"
  using assms by (intro cache_unchanged) simp_all

subsection \<open>A concrete link\<close>

text \<open>
  A codec that ends every value: the version escaped byte by byte, one mark per zone, a final mark.
\<close>

fun demo_encode :: "string \<Rightarrow> 'z list \<Rightarrow> string" where
  "demo_encode [] [] = '';''"
| "demo_encode [] (z # zs) = CHR ''z'' # demo_encode [] zs"
| "demo_encode (c # v) zs = CHR ''.'' # c # demo_encode v zs"

fun demo_read :: "string \<Rightarrow> (string \<times> nat) option" where
  "demo_read [] = None"
| "demo_read [x] = (if x = CHR '';'' then Some ('''', 0) else None)"
| "demo_read (x # y # r) =
     (if x = CHR ''z'' then map_option (apsnd Suc) (demo_read (y # r))
      else if x = CHR ''.'' then map_option (apfst (Cons y)) (demo_read r)
      else None)"

definition demo_link_decode :: "string \<Rightarrow> wire_config option" where
  "demo_link_decode s =
     map_option (\<lambda>(v, n). \<lparr>wc_version = v, wc_zones = replicate n (demo_wire ''a.x'' ''http://o'' '''' 0)\<rparr>) (demo_read s)"

lemma demo_encode_nonempty: "\<exists>x r. demo_encode v zs = x # r"
  by (cases v; cases zs) auto

lemma demo_read_encode: "demo_read (demo_encode v zs) = Some (v, length zs)"
proof (induction v zs rule: demo_encode.induct)
  case (2 z zs)
  then show ?case using demo_encode_nonempty [of "[]" zs] by auto
qed auto

lemma demo_read_cut: "n < length (demo_encode v zs) \<Longrightarrow> demo_read (take n (demo_encode v zs)) = None"
proof (induction v zs arbitrary: n rule: demo_encode.induct)
  case (2 z zs)
  show ?case
  proof (cases n)
    case (Suc m)
    then have "demo_read (take m (demo_encode [] zs)) = None" using "2.prems" "2.IH" by simp
    moreover obtain x r where "demo_encode [] zs = x # r" using demo_encode_nonempty by metis
    ultimately show ?thesis using Suc by (cases m) simp_all
  qed simp
next
  case (3 c v zs)
  show ?case
  proof (cases n)
    case (Suc m)
    then show ?thesis using "3.prems" "3.IH" [of "m - 1"] by (cases m) auto
  qed simp
qed auto

definition demo_client :: http_client where
  "demo_client = New_client ''https://control/'' ''t'' ''e1'' ''0.3.0'' '''' '''' '''' ''''"

definition demo_link :: link_env where
  "demo_link =
     \<lparr>le_digest = \<lambda>m. m, le_key = \<lambda>_. 0, le_dflt = 0, le_server = 1, le_client = demo_client,
      le_encode = demo_encode, le_decode = demo_link_decode, le_parse = demo_url, le_dur = \<lambda>_. None, le_base = demo_base\<rparr>"

lemma demo_codec: "sound_codec demo_link"
  by (simp add: sound_codec_def demo_link_def demo_link_decode_def demo_read_encode demo_read_cut)

text \<open>
  A first poll, an edit of the zone, a lost poll, one cut off, a restart; then the poll that catches up.
\<close>

definition demo_events :: "link_event list" where
  "demo_events = [Turn Arrives NoFault (\<lambda>_. True), Edits loud_txns, Turn Lost NoFault (\<lambda>_. True),
                  Turn (CutOff 5) NoFault (\<lambda>_. True), AgentRestart]"

abbreviation loud_network :: control_db where
  "loud_network \<equiv> run_txns loud_txns demo_network"

primrec edits_of :: "link_event \<Rightarrow> txn list" where
  "edits_of (Edits ts) = ts"
| "edits_of (Turn dl fault applyCfg) = []"
| "edits_of AgentRestart = []"

lemma link_run_db: "lk_db (link_run E evs s) = run_txns (concat (map edits_of evs)) (lk_db s)"
proof (induction evs arbitrary: s)
  case (Cons e evs)
  then show ?case by (cases e) (simp_all add: link_run_def run_txns_def)
qed (simp add: link_run_def)

lemma demo_visited: "lk_db (link_run demo_link (take n demo_events) (new_link demo_link demo_network)) \<in> {demo_network, loud_network}"
  by (auto simp: link_run_db demo_events_def new_link_def take_Cons split: nat.splits)

lemma demo_encode_length: "length (demo_encode v zs) = 2 * length v + length zs + 1"
  by (induction v zs rule: demo_encode.induct) simp_all

lemma demo_checks:
  "\<forall>d \<in> set [demo_network, loud_network]. CHR 0x22 \<notin> set (current_tag demo_link d)"
  "\<forall>d \<in> set [demo_network, loud_network]. \<forall>a \<in> set (current_zones demo_link d). etag_clean a"
  "\<forall>d \<in> set [demo_network, loud_network]. \<forall>d' \<in> set [demo_network, loud_network]. serials_identify (tb_certs d @ tb_certs d')"
  "length (current_zones demo_link loud_network) = 2" "length (current_tag demo_link loud_network) < 100"
  "current_tag demo_link demo_network \<noteq> current_tag demo_link loud_network"
  by code_simp+

lemma demo_fits: "current_zones demo_link loud_network \<noteq> [] \<and> length (current_body demo_link loud_network) \<le> configCap"
proof -
  have "length (current_body demo_link loud_network) =
        2 * length (current_tag demo_link loud_network) + length (current_zones demo_link loud_network) + 1"
    by (simp add: current_body_def demo_encode_length demo_link_def)
  then show ?thesis using demo_checks(4,5) by (auto simp: configCap_def)
qed

lemma demo_sound_tags: "sound_tags demo_link {demo_network, loud_network}"
  unfolding sound_tags_def using demo_checks(1-3) by (intro conjI) (simp_all add: demo_link_def)

lemma one_poll_catches_up_witness:
  "(let s = link_run demo_link demo_events (new_link demo_link demo_network) in
    current_tag demo_link demo_network \<noteq> current_tag demo_link (lk_db s) \<and>
    cf_cache (pl_files (lk_poll (link_step demo_link (Turn Arrives NoFault (\<lambda>_. True)) s))) =
      Some (current_body demo_link (lk_db s)))"
proof -
  let ?s = "link_run demo_link demo_events (new_link demo_link demo_network)"
  have db: "lk_db ?s = loud_network" by (simp add: link_run_db demo_events_def new_link_def)
  have "cf_cache (pl_files (lk_poll (link_step demo_link (Turn Arrives NoFault (\<lambda>_. True)) ?s))) =
      Some (current_body demo_link (lk_db ?s))"
    by (rule one_poll_catches_up [OF wf_demo demo_visited demo_sound_tags demo_codec _ refl])
       (simp add: demo_events_def, simp_all add: db demo_fits)
  then show ?thesis unfolding Let_def db using demo_checks(6) by (intro conjI)
qed

end
