(* ===== verification/Router.thy ===== *)
theory Router
  imports Tenancy CustomDomains ServersApi ControlStart
begin

section \<open>The route table, and the API as a whole\<close>

text \<open>
  \<open>brisk-control/internal/api/router.go\<close>: every route with the layers of middleware in front of it.
  The multiplexer is the third-party package chi: the parameter \<open>mux\<close> picks, for a method and a path,
  one of the registered patterns. What stands behind the account routes is \<open>serve\<close> of \<open>Tenancy\<close>,
  \<open>auth_step\<close> of \<open>Sessions\<close> and \<open>verifyCustomDomain\<close> of \<open>CustomDomains\<close>; the handlers for
  administrators and agents are functions of the whole state that the theorem does not look into.
  A step is one request with its credentials, from the router to the state its handler leaves.
\<close>

subsection \<open>The routes\<close>

text \<open>Method, pattern and handler.\<close>

type_synonym route = "string \<times> string \<times> string"

definition under_api :: "route list \<Rightarrow> route list" where
  "under_api rs = map (\<lambda>(m, p, h). (m, ''/api/v1'' @ p, h)) rs"

definition public_routes :: "route list" where
  "public_routes =
     [(''GET'', ''/health'', ''health''),
      (''GET'', ''/.well-known/acme-challenge/{token}'', ''acmeChallenge'')] @
     under_api [(''POST'', ''/auth/login'', ''login''), (''POST'', ''/auth/logout'', ''logout'')]"

definition account_routes :: "route list" where
  "account_routes =
     [(''GET'', ''/auth/me'', ''authMe''),
      (''POST'', ''/auth/refresh'', ''refresh''),
      (''POST'', ''/admin/password'', ''changePassword''),
      (''GET'', ''/admin/tokens'', ''listAdminTokens''),
      (''POST'', ''/admin/tokens'', ''createAdminToken''),
      (''DELETE'', ''/admin/tokens/{id}'', ''revokeAdminToken''),
      (''DELETE'', ''/admin/tokens/{id}/purge'', ''deleteAdminToken''),
      (''GET'', ''/zones'', ''listZones''),
      (''POST'', ''/zones'', ''createZone''),
      (''GET'', ''/zones/{id}'', ''getZone''),
      (''PUT'', ''/zones/{id}'', ''updateZone''),
      (''DELETE'', ''/zones/{id}'', ''deleteZone''),
      (''GET'', ''/zones/{id}/rules'', ''listRules''),
      (''POST'', ''/zones/{id}/rules'', ''createRule''),
      (''PUT'', ''/zones/{id}/rules/{rid}'', ''updateRule''),
      (''POST'', ''/zones/{id}/rules/reorder'', ''reorderRules''),
      (''DELETE'', ''/zones/{id}/rules/{rid}'', ''deleteRule''),
      (''GET'', ''/zones/{id}/servers'', ''listZoneServers''),
      (''POST'', ''/zones/{id}/purge'', ''purgeZone''),
      (''GET'', ''/zones/{id}/domains'', ''listZoneDomains''),
      (''POST'', ''/zones/{id}/domains'', ''addCustomDomain''),
      (''POST'', ''/domains/{id}/verify'', ''verifyCustomDomain''),
      (''DELETE'', ''/domains/{id}'', ''deleteCustomDomain''),
      (''POST'', ''/zones/{id}/shield'', ''setZoneShield''),
      (''GET'', ''/zones/{id}/waf'', ''getZoneWAF''),
      (''PUT'', ''/zones/{id}/waf'', ''setZoneWAF''),
      (''GET'', ''/zones/{id}/waf/rules'', ''listWAFRules''),
      (''POST'', ''/zones/{id}/waf/rules'', ''createWAFRule''),
      (''DELETE'', ''/zones/{id}/waf/rules/{rid}'', ''deleteWAFRule''),
      (''GET'', ''/zones/{id}/waf/ratelimits'', ''listWAFRateLimits''),
      (''POST'', ''/zones/{id}/waf/ratelimits'', ''createWAFRateLimit''),
      (''DELETE'', ''/zones/{id}/waf/ratelimits/{rid}'', ''deleteWAFRateLimit''),
      (''GET'', ''/zones/{id}/security-events'', ''listZoneSecurityEvents''),
      (''GET'', ''/zones/{id}/logs'', ''listZoneLogs''),
      (''GET'', ''/zones/{id}/logs/analytics'', ''zoneLogsAnalytics''),
      (''GET'', ''/zones/{id}/header-transforms'', ''listHeaderTransforms''),
      (''POST'', ''/zones/{id}/header-transforms'', ''createHeaderTransform''),
      (''DELETE'', ''/zones/{id}/header-transforms/{tid}'', ''deleteHeaderTransform''),
      (''PUT'', ''/zones/{id}/cache-settings'', ''setZoneCacheSettings''),
      (''PUT'', ''/zones/{id}/hotlink'', ''setZoneHotlink''),
      (''PUT'', ''/zones/{id}/error-page'', ''setZoneErrorPage''),
      (''PUT'', ''/zones/{id}/blocked-ips'', ''setZoneBlockedIPs''),
      (''PUT'', ''/zones/{id}/access-flags'', ''setZoneAccessFlags'')]"

definition infra_routes :: "route list" where
  "infra_routes =
     [(''GET'', ''/servers'', ''listServers''),
      (''POST'', ''/servers'', ''createServer''),
      (''GET'', ''/servers/{id}'', ''getServer''),
      (''DELETE'', ''/servers/{id}'', ''deleteServer''),
      (''POST'', ''/servers/{id}/reprovision'', ''reprovision''),
      (''POST'', ''/servers/{id}/status'', ''setServerStatus''),
      (''POST'', ''/servers/{id}/routing'', ''setServerRouting''),
      (''POST'', ''/servers/{id}/role'', ''setServerRole''),
      (''POST'', ''/servers/{id}/health'', ''setServerHealth''),
      (''POST'', ''/servers/{id}/drain'', ''drainServer''),
      (''POST'', ''/servers/{id}/undrain'', ''undrainServer''),
      (''GET'', ''/servers/{id}/rotation'', ''serverRotation''),
      (''POST'', ''/regions/{region}/drain'', ''drainRegion''),
      (''POST'', ''/regions/{region}/undrain'', ''undrainRegion''),
      (''POST'', ''/servers/{id}/token/rotate'', ''rotateToken''),
      (''GET'', ''/servers/{id}/provision-log'', ''provisionLog''),
      (''GET'', ''/servers/{id}/zones'', ''listServerZones''),
      (''POST'', ''/servers/{id}/zones'', ''assignZone''),
      (''DELETE'', ''/servers/{id}/zones/{zoneId}'', ''unassignZone''),
      (''GET'', ''/servers/{id}/live'', ''serverLive''),
      (''POST'', ''/purge/all'', ''purgeAll''),
      (''GET'', ''/purge/jobs'', ''listPurgeJobs''),
      (''GET'', ''/overview'', ''overview''),
      (''GET'', ''/stats'', ''statsSeries''),
      (''GET'', ''/stats/network'', ''networkStats''),
      (''GET'', ''/dns/status'', ''dnsStatus''),
      (''GET'', ''/dns/records'', ''dnsListRecords''),
      (''POST'', ''/dns/records'', ''dnsAddRecord''),
      (''DELETE'', ''/dns/records/{id}'', ''dnsDeleteRecord''),
      (''GET'', ''/dns/lock'', ''dnsLockStatus''),
      (''POST'', ''/dns/lock/request-unlock'', ''dnsRequestUnlock''),
      (''POST'', ''/dns/lock/cancel'', ''dnsCancelUnlock''),
      (''POST'', ''/dns/lock/relock'', ''dnsRelock''),
      (''POST'', ''/dns/lock/delay'', ''dnsSetDelay''),
      (''POST'', ''/dns/reconcile'', ''dnsReconcile''),
      (''GET'', ''/dns/reconcile/preview'', ''dnsReconcilePreview''),
      (''GET'', ''/dns/audit'', ''dnsAuditList''),
      (''GET'', ''/dns/routing'', ''dnsRouting''),
      (''GET'', ''/geoip'', ''geoIP''),
      (''GET'', ''/health/status'', ''healthStatus''),
      (''GET'', ''/health/config'', ''healthConfig''),
      (''GET'', ''/tls/status'', ''tlsStatus''),
      (''POST'', ''/tls/reissue'', ''tlsReissue''),
      (''GET'', ''/domains'', ''adminListCustomDomains''),
      (''GET'', ''/security-events'', ''adminSecurityEvents''),
      (''GET'', ''/security-events/summary'', ''adminSecuritySummary''),
      (''GET'', ''/logs'', ''adminLogs''),
      (''GET'', ''/logs/analytics'', ''adminLogsAnalytics''),
      (''POST'', ''/releases'', ''uploadRelease''),
      (''GET'', ''/releases'', ''listReleases''),
      (''DELETE'', ''/releases/{version}'', ''deleteRelease''),
      (''POST'', ''/rollouts'', ''startRollout''),
      (''GET'', ''/rollouts/active'', ''activeRollout''),
      (''GET'', ''/rollouts/{id}'', ''getRolloutByID''),
      (''POST'', ''/rollouts/{id}/pause'', ''pauseRollout''),
      (''POST'', ''/rollouts/{id}/resume'', ''resumeRollout''),
      (''POST'', ''/rollouts/{id}/cancel'', ''cancelRollout''),
      (''POST'', ''/rollouts/{id}/rollback'', ''rollbackRollout''),
      (''GET'', ''/audit'', ''listAudit'')]"

definition agent_routes :: "route list" where
  "agent_routes =
     [(''POST'', ''/agent/heartbeat'', ''heartbeat''),
      (''GET'', ''/agent/config'', ''agentConfig''),
      (''POST'', ''/agent/stats'', ''statsIngest''),
      (''POST'', ''/agent/security-events'', ''securityEventsIngest''),
      (''POST'', ''/agent/logs'', ''logsIngest''),
      (''POST'', ''/agent/purge/ack'', ''purgeAck''),
      (''GET'', ''/releases/{version}/binary'', ''getReleaseBinary''),
      (''GET'', ''/agent/release'', ''agentRelease'')]"

datatype layer = NoAuth | AuthLayer | AdminLayer | AgentLayer

definition route_table :: "(layer \<times> route) list" where
  "route_table =
     map (Pair NoAuth) public_routes @ map (Pair AuthLayer) (under_api account_routes) @
     map (Pair AdminLayer) (under_api infra_routes) @ map (Pair AgentLayer) (under_api agent_routes)"

record cors_options =
  co_origins :: "string list"
  co_methods :: "string list"
  co_headers :: "string list"
  co_credentials :: bool
  co_max_age :: int

definition cors_of :: "control_config \<Rightarrow> cors_options" where
  "cors_of cfg =
     \<lparr>co_origins = DashboardOrigins cfg, co_methods = [''GET'', ''POST'', ''PUT'', ''DELETE'', ''OPTIONS''],
      co_headers = [''Content-Type'', ''Authorization'', ''X-CSRF-Token''], co_credentials = True, co_max_age = 300\<rparr>"

text \<open>The configured origins are passed on as they are.\<close>

lemma cors_star: "cc_origin cfg = ''*'' \<Longrightarrow> co_origins (cors_of cfg) = [''*''] \<and> co_credentials (cors_of cfg)"
  by (simp add: cors_of_def DashboardOrigins_def splitCSV_def go_str Let_def)

subsection \<open>Who reaches which handler\<close>

type_synonym mux = "(string \<times> string) list \<Rightarrow> string \<Rightarrow> string \<Rightarrow> nat option"

record web_request =
  wb_path :: string
  wb_body :: string
  wb_http :: http_request

datatype caller = Anyone | Human identity | Edge int

datatype routed = NotRouted | Denied int | Reached layer string caller

definition through_layer ::
  "auth_lib \<Rightarrow> (string \<Rightarrow> string) \<Rightarrow> instant \<Rightarrow> layer \<Rightarrow> http_request \<Rightarrow> auth_db \<Rightarrow> edge_world \<Rightarrow> int + caller" where
  "through_layer A hash now l r auth edge =
     (case l of
        NoAuth \<Rightarrow> Inr Anyone
      | AuthLayer \<Rightarrow> (case requireAuth A now r auth of Inl a \<Rightarrow> Inl (fst a) | Inr c \<Rightarrow> Inr (Human c))
      | AdminLayer \<Rightarrow>
          (case requireAuth A now r auth of
             Inl a \<Rightarrow> Inl (fst a)
           | Inr c \<Rightarrow> (case requireAdmin c of Some a \<Rightarrow> Inl (fst a) | None \<Rightarrow> Inr (Human c)))
      | AgentLayer \<Rightarrow>
          (case auth_Middleware hash (hr_authorization r) edge of Inl s \<Rightarrow> Inl s | Inr i \<Rightarrow> Inr (Edge i)))"

definition route_request ::
  "auth_lib \<Rightarrow> (string \<Rightarrow> string) \<Rightarrow> mux \<Rightarrow> instant \<Rightarrow> web_request \<Rightarrow> auth_db \<Rightarrow> edge_world \<Rightarrow> routed" where
  "route_request A hash mux now w auth edge =
     (case mux (map (\<lambda>(l, m, p, h). (m, p)) route_table) (hr_method (wb_http w)) (wb_path w) of
        None \<Rightarrow> NotRouted
      | Some i \<Rightarrow>
          if length route_table \<le> i then NotRouted
          else (case route_table ! i of (l, m, p, h) \<Rightarrow>
                  (case through_layer A hash now l (wb_http w) auth edge of Inl s \<Rightarrow> Denied s | Inr c \<Rightarrow> Reached l h c)))"

definition handlers :: "route list \<Rightarrow> string list" where
  "handlers rs = map (\<lambda>(m, p, h). h) rs"

lemma handlers_under_api [simp]: "handlers (under_api rs) = handlers rs"
  by (simp add: handlers_def under_api_def case_prod_beta comp_def)

definition routes_of :: "layer \<Rightarrow> route list" where
  "routes_of l =
     (case l of NoAuth \<Rightarrow> public_routes | AuthLayer \<Rightarrow> under_api account_routes | AdminLayer \<Rightarrow> under_api infra_routes
      | AgentLayer \<Rightarrow> under_api agent_routes)"

lemma routed_layer:
  assumes "route_request A hash mux now w auth edge = Reached l h c"
  shows "h \<in> set (handlers (routes_of l)) \<and> through_layer A hash now l (wb_http w) auth edge = Inr c"
proof -
  obtain m p where r: "(l, m, p, h) \<in> set route_table" "through_layer A hash now l (wb_http w) auth edge = Inr c"
    using assms by (auto simp: route_request_def not_le split: option.splits if_splits prod.splits sum.splits)
      (metis nth_mem)
  then have "(m, p, h) \<in> set (routes_of l)" by (auto simp: route_table_def routes_of_def)
  then show ?thesis using r(2) by (force simp: handlers_def)
qed

text \<open>
  The middleware in front of a handler: only the four public handlers run for anyone, only account
  handlers for a person who is no administrator, only agent handlers for the bearer of an agent token.
\<close>

lemma routes_guarded:
  assumes "route_request A hash mux now w auth edge = Reached l h c"
  shows "case c of
           Anyone \<Rightarrow> l = NoAuth \<and> h \<in> set (handlers public_routes)
         | Human c' \<Rightarrow> requireAuth A now (wb_http w) auth = Inr c' \<and>
             (l = AuthLayer \<and> h \<in> set (handlers account_routes) \<or> l = AdminLayer \<and> h \<in> set (handlers infra_routes) \<and> IsAdmin c')
         | Edge i \<Rightarrow> l = AgentLayer \<and> h \<in> set (handlers agent_routes) \<and>
             Authenticate hash (hr_authorization (wb_http w)) edge = Some i"
  using routed_layer [OF assms]
  by (cases l) (auto simp: through_layer_def routes_of_def auth_Middleware_def requireAdmin_def RequireAdmin_def
      split: sum.splits option.splits if_splits)

subsection \<open>The handlers of the account routes\<close>

primrec zone_handler :: "zone_call \<Rightarrow> string" where
  "zone_handler CGetZone = ''getZone''"
| "zone_handler (CUpdateZone i) = ''updateZone''"
| "zone_handler (CDeleteZone i) = ''deleteZone''"
| "zone_handler (CPurgeZone i) = ''purgeZone''"
| "zone_handler CListZoneServers = ''listZoneServers''"
| "zone_handler (CSetShield i) = ''setZoneShield''"
| "zone_handler (CSetWAF i) = ''setZoneWAF''"
| "zone_handler (CSetCache i) = ''setZoneCacheSettings''"
| "zone_handler (CSetHotlink i) = ''setZoneHotlink''"
| "zone_handler (CSetErrorPage i) = ''setZoneErrorPage''"
| "zone_handler (CSetBlockedIPs i) = ''setZoneBlockedIPs''"
| "zone_handler (CSetAccessFlags i) = ''setZoneAccessFlags''"

primrec row_handler :: "row_call \<Rightarrow> string" where
  "row_handler (CUpdateRule r i) = ''updateRule''"
| "row_handler (CReorderRules i) = ''reorderRules''"
| "row_handler CGetWAF = ''getZoneWAF''"
| "row_handler CListWAFRules = ''listWAFRules''"
| "row_handler (CCreateWAFRule i) = ''createWAFRule''"
| "row_handler (CDeleteWAFRule r) = ''deleteWAFRule''"
| "row_handler CListLimits = ''listWAFRateLimits''"
| "row_handler (CCreateLimit i) = ''createWAFRateLimit''"
| "row_handler (CDeleteLimit r) = ''deleteWAFRateLimit''"
| "row_handler CListTransforms = ''listHeaderTransforms''"
| "row_handler (CCreateTransform i) = ''createHeaderTransform''"
| "row_handler (CDeleteTransform r) = ''deleteHeaderTransform''"
| "row_handler CListDomains = ''listZoneDomains''"
| "row_handler (CAddDomain i) = ''addCustomDomain''"

primrec open_handler :: "open_call \<Rightarrow> string" where
  "open_handler CListRules = ''listRules''"
| "open_handler (CCreateRule i) = ''createRule''"
| "open_handler (CDeleteRule r) = ''deleteRule''"

primrec handler_of :: "api_request \<Rightarrow> string" where
  "handler_of RListZones = ''listZones''"
| "handler_of (RCreateZone i) = ''createZone''"
| "handler_of (RZone p q) = zone_handler q"
| "handler_of (RRow p q) = row_handler q"
| "handler_of (RDeleteDomain p) = ''deleteCustomDomain''"
| "handler_of (ROpen p q) = open_handler q"

primrec auth_handler :: "auth_call \<Rightarrow> string" where
  "auth_handler (CallLogin i f) = ''login''"
| "auth_handler CallLogout = ''logout''"
| "auth_handler (CallRefresh f) = ''refresh''"
| "auth_handler (CallPassword i s f) = ''changePassword''"
| "auth_handler (CallCreateToken n x) = ''createAdminToken''"
| "auth_handler (CallRevokeToken p) = ''revokeAdminToken''"
| "auth_handler (CallDeleteToken p) = ''deleteAdminToken''"

text \<open>
  The handlers that change credentials, and those that only show something and are modelled in
  \<open>Sessions\<close> and \<open>Ingest\<close>.
\<close>

definition credential_handlers :: "string list" where
  "credential_handlers =
     [''login'', ''logout'', ''refresh'', ''changePassword'', ''createAdminToken'', ''revokeAdminToken'', ''deleteAdminToken'']"

definition showing_handlers :: "string list" where
  "showing_handlers =
     [''health'', ''acmeChallenge'', ''authMe'', ''listAdminTokens'', ''listZoneSecurityEvents'', ''listZoneLogs'', ''zoneLogsAnalytics'']"

definition open_handlers :: "string list" where
  "open_handlers = [''listRules'', ''createRule'', ''deleteRule'']"

subsection \<open>One request\<close>

record web_state =
  ws_auth :: auth_state
  ws_edge :: edge_world

text \<open>
  \<open>wn_call\<close> and \<open>wn_auth_call\<close> are the reading of path parameters and body for a handler; \<open>wn_infra\<close> and
  \<open>wn_agent\<close> are the handlers for administrators and agents.
\<close>

record web_env =
  wn_auth :: auth_lib
  wn_hash :: "string \<Rightarrow> string"
  wn_mux :: mux
  wn_api :: "instant \<Rightarrow> api_env"
  wn_mgr :: "mgr_env option"
  wn_call :: "string \<Rightarrow> web_request \<Rightarrow> api_request"
  wn_auth_call :: "string \<Rightarrow> web_request \<Rightarrow> auth_call"
  wn_domain :: "web_request \<Rightarrow> string"
  wn_infra :: "string \<Rightarrow> identity \<Rightarrow> web_request \<Rightarrow> web_state \<Rightarrow> web_state"
  wn_agent :: "string \<Rightarrow> int \<Rightarrow> web_request \<Rightarrow> web_state \<Rightarrow> web_state"

definition routed_to :: "web_env \<Rightarrow> instant \<times> web_request \<Rightarrow> web_state \<Rightarrow> routed" where
  "routed_to E e st = route_request (wn_auth E) (wn_hash E) (wn_mux E) (fst e) (snd e) (as_db (ws_auth st)) (ws_edge st)"

definition account_step :: "web_env \<Rightarrow> instant \<Rightarrow> string \<Rightarrow> identity \<Rightarrow> web_request \<Rightarrow> control_db \<Rightarrow> control_db" where
  "account_step E now h c w db =
     (if h \<in> set showing_handlers then db
      else if h = ''verifyCustomDomain'' then snd (verifyCustomDomain (wn_mgr E) now c (wn_domain E w) db)
      else snd (snd (serve (wn_api E now) c (wn_call E h w) db)))"

definition web_step :: "web_env \<Rightarrow> instant \<times> web_request \<Rightarrow> web_state \<Rightarrow> web_state" where
  "web_step E e st =
     (case e of (now, w) \<Rightarrow>
        (case routed_to E e st of
           Reached l h (Edge i) \<Rightarrow> wn_agent E h i w st
         | Reached l h c \<Rightarrow>
             if h \<in> set credential_handlers
             then st\<lparr>ws_auth := snd (auth_step (wn_auth E) (now, wb_http w, wn_auth_call E h w) (ws_auth st))\<rparr>
             else (case c of
                     Human c' \<Rightarrow>
                       if l = AdminLayer then wn_infra E h c' w st
                       else st\<lparr>ws_edge := (ws_edge st)\<lparr>ew_db := account_step E now h c' w (ew_db (ws_edge st))\<rparr>\<rparr>
                   | _ \<Rightarrow> st)
         | _ \<Rightarrow> st))"

primrec web_run :: "web_env \<Rightarrow> (instant \<times> web_request) list \<Rightarrow> web_state \<Rightarrow> web_state" where
  "web_run E [] st = st"
| "web_run E (e # es) st = web_run E es (web_step E e st)"

text \<open>The reading of a request yields a call of the handler it is for.\<close>

definition reads_for_handler :: "web_env \<Rightarrow> bool" where
  "reads_for_handler E \<longleftrightarrow>
     (\<forall>h w. h \<in> set (handlers account_routes) \<longrightarrow> h \<notin> set (showing_handlers @ credential_handlers @ [''verifyCustomDomain'']) \<longrightarrow>
        handler_of (wn_call E h w) = h) \<and>
     (\<forall>h w. h \<in> set credential_handlers \<longrightarrow> auth_handler (wn_auth_call E h w) = h)"

text \<open>
  The requests of the others: refused or public, or of a person who is neither administrator nor of
  account \<open>a\<close> and does not use the three rule routes that look at nobody.
\<close>

definition of_another :: "int \<Rightarrow> routed \<Rightarrow> bool" where
  "of_another a r =
     (case r of
        Reached l h (Human c) \<Rightarrow> \<not> IsAdmin c \<and> id_account c \<noteq> a \<and> h \<notin> set open_handlers
      | Reached l h (Edge i) \<Rightarrow> False
      | _ \<Rightarrow> True)"

primrec all_of_others :: "web_env \<Rightarrow> int \<Rightarrow> (instant \<times> web_request) list \<Rightarrow> web_state \<Rightarrow> bool" where
  "all_of_others E a [] st = True"
| "all_of_others E a (e # es) st = (of_another a (routed_to E e st) \<and> all_of_others E a es (web_step E e st))"

subsection \<open>Checking a domain stays on the caller's zones\<close>

text \<open>The statements of a pass over \<open>d\<close>, with the zone they bump.\<close>

definition own_txn :: "custom_domain \<Rightarrow> txn \<Rightarrow> bool" where
  "own_txn d t \<longleftrightarrow> about_domain d t \<and> (\<forall>z. t = OnZone (TBumpZone z) \<longrightarrow> z = cd_zone d)"

lemma process_own: "list_all (own_txn d) (process_domain E now d db)"
proof -
  have simps: "own_txn d (set_status d s e)" "own_txn d (mark_failure d s e g)"
    "own_txn d (OnDomain (TMarkCustomDomainVerified now (cd_id d)))"
    "own_txn d (OnDomain (TSetCustomDomainActive now (cd_id d) n))"
    "own_txn d (OnDomain (TUpsertTLSCert c)) \<longleftrightarrow> tc_name c = cd_domain d" "own_txn d (OnZone (TBumpZone z)) \<longleftrightarrow> z = cd_zone d"
    for s e g n c z now
    by (auto simp: own_txn_def) (auto simp: set_status_def mark_failure_def)
  have "list_all (own_txn d) (verifyThenIssue E now d db)" for db
    by (auto simp: verifyThenIssue_def Let_def go_live_def issued_name simps split: sum.splits prod.splits)
  then show ?thesis
    by (auto simp: process_domain_def maybeRenew_def Let_def go_live_def issued_name simps split: sum.splits prod.splits)
qed

lemma own_txn_keeps:
  assumes "own_txn d t" "exec_txn t db = Inr db'"
  shows "zones_of_domain db' (cd_id d) \<subseteq> zones_of_domain db (cd_id d)"
  using assms
  by (auto simp: own_txn_def about_domain_def set_status_def mark_failure_def zones_of_domain_def SetCustomDomainStatus_def
      MarkCustomDomainFailure_def MarkCustomDomainVerified_def SetCustomDomainActive_def UpsertTLSCert_def
      BumpZoneConfigVersion_def set_domain_def set_zone_def split: if_splits)

lemma own_txn_acts:
  assumes "own_txn d t" shows "acts_on db t \<subseteq> insert (cd_zone d) (zones_of_domain db (cd_id d))"
proof (cases t)
  case (OnZone u)
  then show ?thesis using assms by (cases u) (auto simp: own_txn_def about_domain_def set_status_def mark_failure_def acts_on_def)
next
  case (OnDomain u)
  then show ?thesis using assms by (cases u) (auto simp: own_txn_def about_domain_def set_status_def mark_failure_def acts_on_def)
qed (use assms in \<open>auto simp: own_txn_def about_domain_def set_status_def mark_failure_def\<close>)

lemma own_txns_steps:
  assumes "list_all (own_txn d) ts" "cd_zone d \<in> A" "zones_of_domain db (cd_id d) \<subseteq> A"
  shows "steps A db (run_txns ts db)"
  using assms
proof (induction ts arbitrary: db)
  case Nil
  then show ?case by (simp add: steps_none)
next
  case (Cons t ts)
  have acts: "acts_on db t \<subseteq> A" using own_txn_acts [of d t db] Cons.prems by auto
  have "zones_of_domain (run_txn t db) (cd_id d) \<subseteq> A"
    using own_txn_keeps [of d t db] Cons.prems by (auto simp: run_txn_def split: sum.splits)
  then have "steps A (run_txn t db) (run_txns ts (run_txn t db))" using Cons.IH Cons.prems by simp
  then show ?case using steps_txn [OF acts] by simp
qed

lemma verify_steps:
  assumes "wf_db db" shows "confined c db (snd (verifyCustomDomain mgr now c p db))"
proof (cases "scopeDomain c p db")
  case (Inr xz)
  obtain d z where xz: "xz = (d, z)" by fastforce
  note x = scopeDomain_found [OF Inr [unfolded xz]]
  have "zones_of_domain db (cd_id d) \<subseteq> insert (sq_zone db) (mine c db)"
    using domain_zone [OF assms, of "cd_id d" d] x by auto
  then have "confined c db (run_txns (process_domain E now d db) db)" for E
    using x by (intro own_txns_steps [OF process_own]) simp_all
  then show ?thesis using x Inr xz
    by (auto simp: verifyCustomDomain_def CheckNow_def Let_def steps_none split: option.splits sum.splits)
qed (simp add: verifyCustomDomain_def steps_none)

subsection \<open>A stranger changes nothing\<close>

lemma read_is_scoped:
  assumes "reads_for_handler E" "h \<in> set (handlers account_routes)" "h \<notin> set open_handlers"
      and "h \<notin> set (showing_handlers @ credential_handlers @ [''verifyCustomDomain''])"
    shows "scoped_route (wn_call E h w)"
proof (rule ccontr)
  assume "\<not> ?thesis"
  then obtain p q where "wn_call E h w = ROpen p q" by (auto simp: scoped_route_def split: api_request.splits)
  moreover have "handler_of (wn_call E h w) = h" using assms by (simp add: reads_for_handler_def)
  ultimately have "h = open_handler q" by simp
  then show False using assms(3) by (cases q) (simp_all add: open_handlers_def)
qed

lemma account_step_confined:
  assumes "wf_db db" "reads_for_handler E" "h \<in> set (handlers account_routes)" "h \<notin> set open_handlers"
      and "h \<notin> set credential_handlers"
    shows "confined c db (account_step E now h c w db)"
  using verify_steps [OF assms(1)] serve_steps [OF assms(1) read_is_scoped [OF assms(2-4), of w]] assms(5)
  by (simp add: account_step_def steps_none)

lemma web_step_respects:
  assumes wf: "wf_db (ew_db (ws_edge st))" and E: "reads_for_handler E"
      and own: "holding_owner (holding k (ew_db (ws_edge st))) = Some a" and o': "of_another a (routed_to E e st)"
    shows "wf_db (ew_db (ws_edge (web_step E e st))) \<and>
           holding k (ew_db (ws_edge (web_step E e st))) = holding k (ew_db (ws_edge st))"
proof (cases "ws_edge (web_step E e st) = ws_edge st")
  case False
  obtain now w where e: "e = (now, w)" by fastforce
  obtain l h c where r: "routed_to E e st = Reached l h (Human c)" and h: "h \<notin> set credential_handlers"
    and step: "web_step E e st = (if l = AdminLayer then wn_infra E h c w st
       else st\<lparr>ws_edge := (ws_edge st)\<lparr>ew_db := account_step E now h c w (ew_db (ws_edge st))\<rparr>\<rparr>)"
    using False o' by (auto simp: web_step_def of_another_def e split: routed.splits caller.splits if_splits)
  have c: "\<not> IsAdmin c" "id_account c \<noteq> a" "h \<notin> set open_handlers" using o' r by (simp_all add: of_another_def)
  have acc: "l = AuthLayer" "h \<in> set (handlers account_routes)"
    using routes_guarded [OF r [unfolded routed_to_def]] c(1) by simp_all
  have s: "confined c (ew_db (ws_edge st)) (ew_db (ws_edge (web_step E e st)))"
    using step acc account_step_confined [OF wf E acc(2) c(3) h] by simp
  have "\<not> CanAccessAccount c a" using c by (simp add: CanAccessAccount_def IsAdmin_def)
  then have "k \<notin> insert (sq_zone (ew_db (ws_edge st))) (mine c (ew_db (ws_edge st)))"
    by (rule not_mine [OF wf own])
  then show ?thesis using steps_wf [OF s wf] steps_holding [OF s] by simp
qed (simp add: wf)

text \<open>
  C1: The API as a whole isolates tenants. Take any series of HTTP requests, with whatever credentials
  and bodies, routed by whatever multiplexer, among them logins, password changes and token requests that
  change who may act. If each is refused, public, or made by a person who at that moment is neither
  administrator nor of the account of zone \<open>k\<close>, and none uses the three rule routes that look at
  nobody, then the zone and everything nested under it is at the end what it was -- also when the
  administrators' handlers behind the same router could change everything.
\<close>

theorem http_isolation:
  assumes wf: "wf_db (ew_db (ws_edge st))" and z: "GetZone k (ew_db (ws_edge st)) = Inr z"
      and E: "reads_for_handler E" and others: "all_of_others E (sz_account z) es st"
    shows "holding k (ew_db (ws_edge (web_run E es st))) = holding k (ew_db (ws_edge st))"
proof -
  have own: "holding_owner (holding k (ew_db (ws_edge st))) = Some (sz_account z)"
    using z by (auto simp: owner_find GetZone_def split: option.splits)
  show ?thesis using wf own others
  proof (induction es arbitrary: st)
    case (Cons e es)
    have o': "of_another (sz_account z) (routed_to E e st)" "all_of_others E (sz_account z) es (web_step E e st)"
      using Cons.prems(3) by simp_all
    note one = web_step_respects [OF Cons.prems(1) E Cons.prems(2) o'(1)]
    then show ?case using Cons.IH [of "web_step E e st"] Cons.prems(2) o'(2) by simp
  qed simp
qed

subsection \<open>A tenant at the door\<close>

text \<open>What a multiplexer answers for the requests below, and a reading of requests for every handler.\<close>

definition demo_mux :: mux where
  "demo_mux ps m p =
     map_of [((''POST'', ''/api/v1/auth/login''), 2), ((''PUT'', ''/api/v1/zones/1/access-flags''), 46),
             ((''PUT'', ''/api/v1/zones/2/access-flags''), 46), ((''POST'', ''/api/v1/servers''), 48)] (m, p)"

definition demo_calls_for :: "string \<Rightarrow> api_request list" where
  "demo_calls_for p =
     [RListZones, RCreateZone None, RDeleteDomain p] @
     map (RZone p) [CGetZone, CUpdateZone None, CDeleteZone ('''', ''''), CPurgeZone None, CListZoneServers, CSetShield None,
        CSetWAF None, CSetCache None, CSetHotlink None, CSetErrorPage None, CSetBlockedIPs None, CSetAccessFlags (Some (True, True))] @
     map (RRow p) [CUpdateRule ''1'' None, CReorderRules None, CGetWAF, CListWAFRules, CCreateWAFRule None, CDeleteWAFRule ''1'',
        CListLimits, CCreateLimit None, CDeleteLimit ''1'', CListTransforms, CCreateTransform None, CDeleteTransform ''1'',
        CListDomains, CAddDomain (Some ''www.x.com'')] @
     map (ROpen p) [CListRules, CCreateRule None, CDeleteRule ''1'']"

definition demo_auth_calls :: "auth_call list" where
  "demo_auth_calls =
     [CallLogin (Some (''t@x'', ''pw'')) (Some (''s1'', ''c1'')), CallLogout, CallRefresh None, CallPassword None None None,
      CallCreateToken '''' None, CallRevokeToken ''1'', CallDeleteToken ''1'']"

definition pick :: "('b \<Rightarrow> string) \<Rightarrow> 'b \<Rightarrow> 'b list \<Rightarrow> string \<Rightarrow> 'b" where
  "pick f other xs h = (case find (\<lambda>x. f x = h) xs of None \<Rightarrow> other | Some x \<Rightarrow> x)"

lemma pick_found: "h \<in> set (map f xs) \<Longrightarrow> f (pick f other xs h) = h"
  by (auto simp: pick_def find_None_iff find_Some_iff split: option.splits)

definition path_id :: "web_request \<Rightarrow> string" where
  "path_id w = (case drop 4 (split_on (CHR ''/'') (wb_path w)) of [] \<Rightarrow> '''' | s # _ \<Rightarrow> s)"

definition demo_web :: web_env where
  "demo_web =
     \<lparr>wn_auth = demo_auth, wn_hash = (\<lambda>s. s), wn_mux = demo_mux, wn_api = (\<lambda>_. demo_env), wn_mgr = None,
      wn_call = (\<lambda>h w. pick handler_of RListZones (demo_calls_for (path_id w)) h),
      wn_auth_call = (\<lambda>h w. pick auth_handler CallLogout demo_auth_calls h), wn_domain = path_id,
      wn_infra = (\<lambda>h c w st. st\<lparr>ws_edge := (ws_edge st)\<lparr>ew_db := AgentApi.empty_db\<rparr>\<rparr>), wn_agent = (\<lambda>h i w st. st)\<rparr>"

lemma demo_handlers:
  "list_all (\<lambda>h. h \<in> set (showing_handlers @ credential_handlers @ [''verifyCustomDomain'']) \<or>
       h \<in> set (map handler_of (demo_calls_for ''1''))) (handlers account_routes)"
  "list_all (\<lambda>h. h \<in> set (map auth_handler demo_auth_calls)) credential_handlers"
  by code_simp+

lemma demo_reads: "reads_for_handler demo_web"
proof -
  have same: "map handler_of (demo_calls_for p) = map handler_of (demo_calls_for ''1'')" for p
    by (simp add: demo_calls_for_def)
  have "handler_of (wn_call demo_web h w) = h"
    if "h \<in> set (handlers account_routes)" "h \<notin> set (showing_handlers @ credential_handlers @ [''verifyCustomDomain''])" for h w
  proof -
    have "h \<in> set (map handler_of (demo_calls_for (path_id w)))"
      using demo_handlers(1) that unfolding same [of "path_id w"] list_all_iff by blast
    then show ?thesis by (simp add: demo_web_def pick_found)
  qed
  moreover have "auth_handler (wn_auth_call demo_web h w) = h" if "h \<in> set credential_handlers" for h w
    using demo_handlers(2) that unfolding list_all_iff by (simp add: demo_web_def pick_found)
  ultimately show ?thesis by (simp add: reads_for_handler_def)
qed

definition demo_customer :: account where
  "demo_customer = demo_account\<lparr>ac_id := 2, ac_name := ''t'', ac_role := ''customer'', account.ac_email := Some ''t@x''\<rparr>"

definition demo_site :: web_state where
  "demo_site =
     \<lparr>ws_auth = demo_auth_state\<lparr>as_db := (as_db demo_auth_state)\<lparr>tb_accounts := [demo_account, demo_customer]\<rparr>\<rparr>,
      ws_edge = \<lparr>ew_db = tenants_db, ew_tokens = [], ew_next = 1\<rparr>\<rparr>"

definition demo_web_request :: "string \<Rightarrow> string \<Rightarrow> instant \<times> web_request" where
  "demo_web_request m p =
     (2, \<lparr>wb_path = p, wb_body = '''', wb_http = (demo_request (Some ''s1'') ''c1'')\<lparr>hr_method := m\<rparr>\<rparr>)"

text \<open>
  A tenant logs in, sets the flags of its zone, tries another's and tries to make a server.
\<close>

definition demo_visit :: "(instant \<times> web_request) list" where
  "demo_visit =
     [demo_web_request ''POST'' ''/api/v1/auth/login'', demo_web_request ''PUT'' ''/api/v1/zones/2/access-flags'',
      demo_web_request ''PUT'' ''/api/v1/zones/1/access-flags'', demo_web_request ''POST'' ''/api/v1/servers'']"

lemma demo_visit_of_tenant:
  "all_of_others demo_web 1 demo_visit demo_site"
  by code_simp

lemma demo_visit_routed:
  "map (\<lambda>i. routed_to demo_web (demo_visit ! i) (web_run demo_web (take 1 demo_visit) demo_site)) [1, 3] =
     [Reached AuthLayer ''setZoneAccessFlags'' (Human tenant), Denied 403]"
  by code_simp

lemma http_isolation_witness:
  "holding 1 (ew_db (ws_edge (web_run demo_web demo_visit demo_site))) = holding 1 tenants_db \<and>
   holding 2 (ew_db (ws_edge (web_run demo_web demo_visit demo_site))) \<noteq> holding 2 tenants_db"
proof
  have db: "ew_db (ws_edge demo_site) = tenants_db" by (simp add: demo_site_def)
  have "map_sum (\<lambda>e. e) sz_account (GetZone 1 tenants_db) = Inr 1" by code_simp
  then obtain z where z: "GetZone 1 tenants_db = Inr z" "sz_account z = 1"
    by (cases "GetZone 1 tenants_db") auto
  show "holding 1 (ew_db (ws_edge (web_run demo_web demo_visit demo_site))) = holding 1 tenants_db"
    using http_isolation [of demo_site 1 z demo_web demo_visit] wf_tenants z demo_reads demo_visit_of_tenant
    by (simp add: db)
  show "holding 2 (ew_db (ws_edge (web_run demo_web demo_visit demo_site))) \<noteq> holding 2 tenants_db"
    by code_simp
qed

end
