(* ===== verification/AdminViews.thy ===== *)
theory AdminViews
  imports ControlStart
begin

section \<open>What the administrators are shown\<close>

text \<open>
  The pages of \<open>brisk-control/internal/api\<close> that only read: health (\<open>health_checks.go\<close>), routing
  (\<open>dns_routing.go\<close> with \<open>ResolveEffective\<close> and \<open>RegionList\<close> of \<open>dns/regions.go\<close>), certificates
  (\<open>tls.go\<close>) and the location of an address (\<open>geoip.go\<close>). The point of these pages is to say what the
  loops in the background do, so the lemmas compare them with the syncer and the checker. The times
  and texts of the last probe are left out, as in \<open>Health\<close>.
\<close>

subsection \<open>Health\<close>

record edge_health =
  eh_server :: int
  eh_edge :: string
  eh_host :: string
  eh_status :: string
  eh_state :: string
  eh_healthy :: bool
  eh_in_rotation :: bool
  eh_reason :: string
  eh_check :: bool
  eh_fails :: int
  eh_oks :: int
  eh_probing :: bool
  eh_interval :: int
  eh_fail :: int
  eh_rise :: int

definition health_endpoint :: "store_server \<Rightarrow> endpoint" where
  "health_endpoint s =
     \<lparr>ep_edge_id = ss_edge s, ep_region = '''', ep_ip = '''', ep_status = ss_status s, ep_last_seen = ss_last_seen s,
      ep_weight = 0, ep_override = '''', ep_capacity = 0, ep_by_capacity = False, ep_load_factor = 0,
      ep_health = ss_health s, ep_drained = ss_drained s\<rparr>"

text \<open>The map from edge ids to what the checker knows: a later entry replaces an earlier one.\<close>

definition live_health :: "health_status list \<Rightarrow> (string \<rightharpoonup> health_status)" where
  "live_health snap = foldl (\<lambda>m st. m(hs_edge st \<mapsto> st)) Map.empty snap"

definition edge_health_row :: "(string \<rightharpoonup> decision) \<Rightarrow> (string \<rightharpoonup> health_status) \<Rightarrow> store_server \<Rightarrow> edge_health" where
  "edge_health_row rot known s =
     (let host = (case ss_hostname s of Some h \<Rightarrow> if h \<noteq> '''' then h else ss_ip s | None \<Rightarrow> ss_ip s);
          dec = (case rot (ss_edge s) of Some d \<Rightarrow> d | None \<Rightarrow> \<lparr>dec_in = False, dec_reason = ''''\<rparr>);
          row = \<lparr>eh_server = ss_id s, eh_edge = ss_edge s, eh_host = host, eh_status = ss_status s, eh_state = ss_health s,
                 eh_healthy = (ss_health s = ''healthy''), eh_in_rotation = dec_in dec, eh_reason = dec_reason dec,
                 eh_check = ss_health_on s, eh_fails = 0, eh_oks = 0, eh_probing = False, eh_interval = 0, eh_fail = 0, eh_rise = 0\<rparr>
      in case known (ss_edge s) of
           None \<Rightarrow> row
         | Some st \<Rightarrow> row\<lparr>eh_state := hs_state st, eh_healthy := hs_healthy st, eh_fails := hs_fails st, eh_oks := hs_oks st,
                         eh_probing := hs_probing st, eh_interval := hs_interval st, eh_fail := hs_fail st, eh_rise := hs_rise st\<rparr>)"

text \<open>\<open>checker\<close>: its snapshot, \<open>None\<close> when health checks are off.\<close>

definition healthStatus :: "fleet_cfg \<Rightarrow> instant \<Rightarrow> health_status list option \<Rightarrow> control_db \<Rightarrow> bool \<times> edge_health list" where
  "healthStatus g now checker db =
     (let servers = ListServers db;
          rot = RotationDecision (map health_endpoint servers) now (staleAfter g);
          known = (case checker of None \<Rightarrow> Map.empty | Some snap \<Rightarrow> live_health snap)
      in (checker \<noteq> None, map (edge_health_row rot known) servers))"

definition effInt :: "int \<Rightarrow> int \<Rightarrow> int" where
  "effInt override dflt = (if override > 0 then override else dflt)"

record server_health_config =
  sh_server :: int
  sh_edge :: string
  sh_check :: bool
  sh_interval :: int
  sh_fail :: int
  sh_rise :: int
  sh_overridden :: bool

definition server_health :: "control_config \<Rightarrow> store_server \<Rightarrow> server_health_config" where
  "server_health cfg s =
     \<lparr>sh_server = ss_id s, sh_edge = ss_edge s, sh_check = ss_health_on s,
      sh_interval = effInt (ss_interval s) (cc_health_interval cfg), sh_fail = effInt (ss_fail s) (cc_health_fail cfg),
      sh_rise = effInt (ss_rise s) (cc_health_rise cfg),
      sh_overridden = (ss_interval s \<noteq> 0 \<or> ss_fail s \<noteq> 0 \<or> ss_rise s \<noteq> 0 \<or> \<not> ss_health_on s)\<rparr>"

definition healthConfig :: "control_config \<Rightarrow> control_db \<Rightarrow> server_health_config list" where
  "healthConfig cfg db = map (server_health cfg) (ListServers db)"

subsection \<open>Routing\<close>

record effective =
  ef_edge :: string
  ef_region :: string
  ef_label :: string
  ef_mode :: string
  ef_mapped :: bool
  ef_online :: bool
  ef_weight :: int
  ef_lat :: real
  ef_long :: real
  ef_zone :: string
  ef_overridden :: bool
  ef_factor :: real

definition ResolveEffective :: "(string \<rightharpoonup> region_loc) \<Rightarrow> endpoint \<Rightarrow> string \<Rightarrow> instant \<Rightarrow> duration \<Rightarrow> effective" where
  "ResolveEffective m ep network now stale =
     (let mode = resolveMode network (ep_override ep);
          e = \<lparr>ef_edge = ep_edge_id ep, ef_region = ep_region ep, ef_label = '''', ef_mode = mode, ef_mapped = False,
               ef_online = Online ep now stale, ef_weight = normWeight (ep_weight ep), ef_lat = 0, ef_long = 0, ef_zone = '''',
               ef_overridden = (NormalizeOverride (ep_override ep) \<noteq> ''''), ef_factor = 1\<rparr>
      in case LookupRegion m (ep_region ep) of
           None \<Rightarrow> e
         | Some loc \<Rightarrow>
             (let e = e\<lparr>ef_mapped := True, ef_label := loc_label loc\<rparr>
              in if mode = ModeLatency then e\<lparr>ef_zone := loc_zone loc\<rparr>
                 else e\<lparr>ef_lat := loc_lat loc, ef_long := loc_long loc\<rparr>))"

text \<open>\<open>cat\<close> is the embedded catalogue; the keys of the map come sorted.\<close>

definition RegionList :: "cat_entry list \<Rightarrow> (string \<times> region_loc) list" where
  "RegionList cat =
     (let m = buildRegionMap cat;
          keys = remdups (filter (\<lambda>k. k \<noteq> '''') (map cat_code cat) @ map fst legacyRegions)
      in map (\<lambda>k. (k, the (m k))) (sort keys))"

definition bunnyMonitorMethod :: "bool \<Rightarrow> string \<Rightarrow> string" where
  "bunnyMonitorMethod enabled typ =
     (if \<not> enabled then ''''
      else (let t = MonitorTypeFromString typ in
            if t = MonitorHTTP then ''http'' else if t = MonitorNone then '''' else ''ping''))"

definition routing_endpoint :: "store_server \<Rightarrow> endpoint" where
  "routing_endpoint s =
     \<lparr>ep_edge_id = ss_edge s, ep_region = ss_region s, ep_ip = ss_ip s, ep_status = ss_status s, ep_last_seen = ss_last_seen s,
      ep_weight = ss_weight s, ep_override = ss_override s, ep_capacity = 0, ep_by_capacity = False, ep_load_factor = 0,
      ep_health = '''', ep_drained = False\<rparr>"

record routing_page =
  rg_mode :: string
  rg_dns :: bool
  rg_servers :: "effective list"
  rg_monitor :: "bool \<times> string"

definition dnsRouting ::
  "(string \<rightharpoonup> region_loc) \<Rightarrow> control_config \<Rightarrow> sync_opts option \<Rightarrow> (string \<Rightarrow> real) \<Rightarrow> instant \<Rightarrow> control_db \<Rightarrow> routing_page" where
  "dnsRouting m cfg sync factor now db =
     (let mode = (case sync of None \<Rightarrow> NormalizeMode (cc_mode cfg) | Some o' \<Rightarrow> NetworkMode (Some o'));
          stale = (case sync of None \<Rightarrow> 60 * second | Some o' \<Rightarrow> StaleAfterDur (Some o'))
      in \<lparr>rg_mode = mode, rg_dns = (sync \<noteq> None),
          rg_servers = map (\<lambda>s. (ResolveEffective m (routing_endpoint s) mode now stale)\<lparr>ef_factor := factor (ss_edge s)\<rparr>)
                         (ListServers db),
          rg_monitor = (cc_monitor cfg, bunnyMonitorMethod (cc_monitor cfg) (cc_monitor_type cfg))\<rparr>)"

subsection \<open>Certificates and locations\<close>

text \<open>The end of validity is read from the chain by \<open>parse\<close>.\<close>

record tls_cert_view =
  tv_name :: string
  tv_domains :: string
  tv_issuer :: string
  tv_serial :: string
  tv_staging :: bool
  tv_not_after :: "instant option"
  tv_days :: "int option"

text \<open>\<open>int(d.Hours() / 24)\<close> cuts towards zero.\<close>

definition days_left :: "instant \<Rightarrow> instant \<Rightarrow> int" where
  "days_left now t = (let d = t - now in if d \<ge> 0 then d div (24 * hour) else - ((- d) div (24 * hour)))"

definition cert_view :: "(string \<Rightarrow> leaf_cert option) \<Rightarrow> instant \<Rightarrow> tls_cert \<Rightarrow> tls_cert_view" where
  "cert_view parse now c =
     (let na = map_option lf_not_after (parse (tc_chain c))
      in \<lparr>tv_name = tc_name c, tv_domains = tc_domains c, tv_issuer = tc_issuer c, tv_serial = tc_serial c,
          tv_staging = tc_staging c, tv_not_after = na, tv_days = map_option (days_left now) na\<rparr>)"

definition tlsStatus :: "(string \<Rightarrow> leaf_cert option) \<Rightarrow> (string \<Rightarrow> int) \<Rightarrow> instant \<Rightarrow> control_db \<Rightarrow> tls_cert_view list" where
  "tlsStatus parse key now db = map (cert_view parse now) (ListTLSCerts key db)"

text \<open>The check runs in the background.\<close>

definition tlsReissue :: "cert_manager option \<Rightarrow> instant \<Rightarrow> control_db \<Rightarrow> int \<times> control_db" where
  "tlsReissue mgr now db = (case mgr of None \<Rightarrow> (503, db) | Some m \<Rightarrow> (202, snd (EnsureOnce m now db)))"

record geo_body =
  gb_status :: string
  gb_lat :: real
  gb_lon :: real
  gb_city :: string
  gb_country :: string
  gb_cc :: string

record geo_result =
  gr_lat :: real
  gr_long :: real
  gr_label :: string
  gr_cc :: string

text \<open>\<open>lookup\<close> is the service: unreachable, an answer that does not decode, or a body.\<close>

definition geoIP ::
  "(string \<Rightarrow> bool) \<Rightarrow> (string \<Rightarrow> geo_body option option) \<Rightarrow> string \<Rightarrow> int + geo_result" where
  "geoIP valid_ip lookup q =
     (let ip = trim_space q in
      if \<not> valid_ip ip then Inl 400
      else (case lookup (''http://ip-api.com/json/'' @ ip @ ''?fields=status,message,lat,lon,city,country,countryCode'') of
              None \<Rightarrow> Inl 502
            | Some None \<Rightarrow> Inl 404
            | Some (Some b) \<Rightarrow>
                if gb_status b \<noteq> ''success'' then Inl 404
                else (let label = (if gb_city b \<noteq> '''' \<and> gb_country b \<noteq> '''' then gb_city b @ '', '' @ gb_country b
                                   else if gb_country b \<noteq> '''' then gb_country b else gb_city b)
                      in Inr \<lparr>gr_lat = gb_lat b, gr_long = gb_lon b, gr_label = label, gr_cc = gb_cc b\<rparr>)))"

subsection \<open>Do the pages tell the truth?\<close>

lemma RotationDecision_map_cong:
  assumes "\<And>s. s \<in> set xs \<Longrightarrow> ep_edge_id (f s) = ep_edge_id (g s) \<and> ep_drained (f s) = ep_drained (g s) \<and>
      Online (f s) now stale = Online (g s) now stale \<and> Unhealthy (f s) = Unhealthy (g s)"
  shows "RotationDecision (map f xs) now stale = RotationDecision (map g xs) now stale"
proof -
  have counts: "rotation_counts (map f xs) now stale = rotation_counts (map g xs) now stale"
    using assms by (induction xs) (auto split: prod.splits)
  have "decide a b (Online (f s) now stale) (f s) = decide a b (Online (g s) now stale) (g s)" if "s \<in> set xs" for a b s
    using assms [OF that] by (simp add: decide_def)
  then have "foldl (\<lambda>out ep. out(ep_edge_id ep \<mapsto> decide a b (Online ep now stale) ep)) m (map f xs) =
      foldl (\<lambda>out ep. out(ep_edge_id ep \<mapsto> decide a b (Online ep now stale) ep)) m (map g xs)" for a b m
    using assms unfolding foldl_map by (intro foldl_cong) auto
  then show ?thesis by (simp add: RotationDecision_def counts)
qed

text \<open>Without pure shields the health page says of every edge what the syncer decides.\<close>

lemma health_page_is_dns:
  assumes "\<forall>s \<in> set (ListServers db). \<not> pure_shield s" and "row \<in> set (snd (healthStatus g now checker db))"
  shows "eh_in_rotation row = in_rotation (RotationState (fleet_endpoints factor db) now (staleAfter g)) (eh_edge row)"
proof -
  have "fleet_endpoints factor db = map (fleet_endpoint factor) (ListServers db)"
    using assms(1) by (simp add: fleet_endpoints_def)
  moreover have "RotationDecision (map health_endpoint (ListServers db)) now (staleAfter g) =
      RotationDecision (map (fleet_endpoint factor) (ListServers db)) now (staleAfter g)"
    by (rule RotationDecision_map_cong) (simp add: health_endpoint_def fleet_endpoint_def Online_def Unhealthy_def)
  ultimately show ?thesis using assms(2)
    by (auto simp: healthStatus_def edge_health_row_def Let_def in_rotation_def RotationState_def split: option.splits)
qed

text \<open>
  A pure shield that is healthy hides the guard: the page shows the last, unhealthy edge out of
  rotation, and the syncer, which leaves the shield out of the count, keeps it in DNS.
\<close>

definition sick_edge_and_shield :: control_db where
  "sick_edge_and_shield = set_servers (\<lambda>s. True) (\<lambda>s. s\<lparr>ss_status := ''online'', ss_last_seen := Some 0,
     ss_health := (if ss_id s = 1 then ''unhealthy'' else ''healthy'')\<rparr>) demo_shielded"

lemma health_page_counts_shields:
  "map (\<lambda>r. (eh_edge r, eh_in_rotation r, eh_reason r)) (snd (healthStatus demo_fleet 0 None sick_edge_and_shield)) =
     [(''e1'', False, ''unhealthy''), (''e2'', True, ''in_rotation'')]"
  "RotationState (fleet_endpoints (\<lambda>i. 1) sick_edge_and_shield) 0 (staleAfter demo_fleet) ''e1'' = Some True"
  by code_simp+

text \<open>
  The configuration page resolves an override as the checker does, as long as the network's own
  values are positive: the page shows a zero of the environment, the checker replaces it.
\<close>

lemma health_config_page:
  assumes "health_options cfg = Some h" and "0 < cc_health_fail cfg" "0 < cc_health_rise cfg"
      and "ht_fail t = ss_fail s" "ht_rise t = ss_rise s"
    shows "sh_fail (server_health cfg s) = failThreshold h t \<and> sh_rise (server_health cfg s) = riseThreshold h t"
  using assms
  by (auto simp: health_options_def server_health_def effInt_def failThreshold_def riseThreshold_def
      health_withDefaults_def Let_def split: if_splits)

lemma health_config_page_zero:
  assumes "health_options cfg = Some h" and "cc_health_fail cfg = 0" "ht_fail t = 0" "ss_fail s = 0"
  shows "sh_fail (server_health cfg s) = 0 \<and> failThreshold h t = 2"
  using assms by (auto simp: health_options_def server_health_def effInt_def failThreshold_def health_withDefaults_def Let_def split: if_splits)

text \<open>
  \<open>ResolveEffective\<close> is documented to mirror what the reconciler writes; the weight is the manual one
  of the server, without its capacity and the load.
\<close>

lemma routing_page_weight:
  "ef_weight (ResolveEffective m ep network now stale) = normWeight (ep_weight ep)"
  by (simp add: ResolveEffective_def Let_def split: option.splits)

lemma routing_page_ignores_capacity:
  assumes "ep_weight ep = 0" "ep_capacity ep = 100" "ep_by_capacity ep" "ep_load_factor ep = 0"
  shows "ef_weight (ResolveEffective m ep network now stale) \<noteq> effectiveWeight ep 1000"
  using assms by (simp add: routing_page_weight normWeight_def effectiveWeight_def baseWeight_def applyLoadFactor_def)

text \<open>The mode, the location and the zone on the page are those of the records.\<close>

lemma routing_page_smart:
  "smartFieldsFor m ep network =
     (let e = ResolveEffective m ep network now stale in
      if \<not> ef_mapped e then (SmartNone, 0, 0, '''')
      else if ef_mode e = ModeLatency then (SmartLatency, 0, 0, ef_zone e)
      else (SmartGeolocation, ef_lat e, ef_long e, ''''))"
  by (simp add: smartFieldsFor_def ResolveEffective_def Let_def split: option.splits)

end
