(* ===== verification/AcmeIssuer.thy ===== *)
theory AcmeIssuer
  imports CustomDomains
begin

section \<open>Obtaining a certificate\<close>

text \<open>
  \<open>brisk-control/internal/acme/issuer.go\<close> and \<open>ObtainHTTP01\<close> of \<open>http01.go\<close>: the account key on disk,
  the registration, and the order. The ACME protocol is the library lego: the record \<open>lego\<close> holds its
  answers as functions of what the code hands it. PEM, PKCS8 and key generation are parameters. The
  outcome is what \<open>me_obtain\<close> of \<open>CustomDomains\<close> stands for.
\<close>

subsection \<open>The account key\<close>

type_synonym disk = "string \<rightharpoonup> string"

record 'k key_lib =
  kl_pem :: "string \<Rightarrow> string option"
  kl_parse :: "string \<Rightarrow> 'k option"
  kl_marshal :: "'k \<Rightarrow> string option"
  kl_encode :: "string \<Rightarrow> string"

text \<open>
  What the operating system does to one call: the directory can be made, the key file can be read, and
  a write that fails stops after some bytes.
\<close>

record acme_io =
  ai_mkdir :: bool
  ai_read :: bool
  ai_write :: "nat option"

definition path_join :: "string \<Rightarrow> string \<Rightarrow> string" where
  "path_join d n = (if d = '''' then n else d @ ''/'' @ n)"

definition stored_key :: "'k key_lib \<Rightarrow> string option \<Rightarrow> 'k option" where
  "stored_key K raw = Option.bind raw (\<lambda>r. Option.bind (kl_pem K r) (kl_parse K))"

text \<open>\<open>fresh\<close>: the key the random source gives, \<open>None\<close> when it fails.\<close>

definition loadOrCreateAccountKey ::
  "'k key_lib \<Rightarrow> acme_io \<Rightarrow> 'k option \<Rightarrow> string \<Rightarrow> disk \<Rightarrow> (string + 'k) \<times> disk" where
  "loadOrCreateAccountKey K io fresh path fs =
     (case stored_key K (if ai_read io then fs path else None) of
        Some k \<Rightarrow> (Inr k, fs)
      | None \<Rightarrow>
          (case fresh of
             None \<Rightarrow> (Inl ''generate account key'', fs)
           | Some k \<Rightarrow>
               (case kl_marshal K k of
                  None \<Rightarrow> (Inl ''marshal'', fs)
                | Some der \<Rightarrow>
                    (let pem = kl_encode K der
                     in case ai_write io of
                          Some n \<Rightarrow> (Inl ''persist account key'', fs(path \<mapsto> take n pem))
                        | None \<Rightarrow> (Inr k, fs(path \<mapsto> pem))))))"

record issuer =
  iu_email :: string
  iu_staging :: bool
  iu_bunny_key :: string
  iu_dir :: string

definition account_path :: "issuer \<Rightarrow> string" where
  "account_path i =
     path_join (path_join (iu_dir i) (if iu_staging i then ''staging'' else ''production'')) ''account.key''"

definition issuer_user :: "'k key_lib \<Rightarrow> acme_io \<Rightarrow> 'k option \<Rightarrow> issuer \<Rightarrow> disk \<Rightarrow> (string + 'k) \<times> disk" where
  "issuer_user K io fresh i fs =
     (if \<not> ai_mkdir io then (Inl ''create acme account dir'', fs)
      else loadOrCreateAccountKey K io fresh (account_path i) fs)"

subsection \<open>The order\<close>

definition leStagingURL :: string where
  "leStagingURL = ''https://acme-staging-v02.api.letsencrypt.org/directory''"

text \<open>What lego answers: for an account (mail, key, directory) a client or not, then each call on it.\<close>

record 'k lego =
  lg_client :: "string \<times> 'k \<times> string option \<Rightarrow> bool"
  lg_provider :: "string option \<Rightarrow> bool"
  lg_register :: "'k \<Rightarrow> bool"
  lg_resolve :: "'k \<Rightarrow> bool"
  lg_ari :: "leaf_cert \<Rightarrow> string option"
  lg_obtain :: "string \<times> 'k \<times> string option \<Rightarrow> string list \<Rightarrow> string option \<Rightarrow> string + string \<times> string"

definition registerAccount :: "'k lego \<Rightarrow> 'k \<Rightarrow> bool" where
  "registerAccount L k = (if lg_register L k then True else lg_resolve L k)"

text \<open>
  The part \<open>Obtain\<close> and \<open>ObtainHTTP01\<close> share, after their own checks. \<open>provider\<close> is the key of the DNS
  provider, or \<open>None\<close> for the challenge store.
\<close>

definition order_certificate ::
  "'k key_lib \<Rightarrow> 'k lego \<Rightarrow> (string \<Rightarrow> leaf_cert option) \<Rightarrow> acme_io \<Rightarrow> 'k option \<Rightarrow> issuer \<Rightarrow> string option \<Rightarrow> string list \<Rightarrow>
   leaf_cert option \<Rightarrow> disk \<Rightarrow> (string + acme_bundle) \<times> disk" where
  "order_certificate K L parseLeaf io fresh i provider domains prev fs =
     (case issuer_user K io fresh i fs of
        (Inl e, fs') \<Rightarrow> (Inl e, fs')
      | (Inr k, fs') \<Rightarrow>
          (let account = (iu_email i, k, if iu_staging i then Some leStagingURL else None)
           in if \<not> lg_client L account then (Inl ''acme client'', fs')
              else if \<not> lg_provider L provider then (Inl ''challenge provider'', fs')
              else if \<not> registerAccount L k then (Inl ''acme register'', fs')
              else (case lg_obtain L account domains (Option.bind prev (lg_ari L)) of
                      Inl e \<Rightarrow> (Inl (''obtain certificate: '' @ e), fs')
                    | Inr (chain, key) \<Rightarrow> (Inr \<lparr>bu_chain = chain, bu_key = key, bu_leaf = parseLeaf chain\<rparr>, fs'))))"

definition acme_Obtain ::
  "'k key_lib \<Rightarrow> 'k lego \<Rightarrow> (string \<Rightarrow> leaf_cert option) \<Rightarrow> acme_io \<Rightarrow> 'k option \<Rightarrow> issuer \<Rightarrow> string list \<Rightarrow>
   leaf_cert option \<Rightarrow> disk \<Rightarrow> (string + acme_bundle) \<times> disk" where
  "acme_Obtain K L parseLeaf io fresh i domains prev fs =
     (if iu_email i = '''' then (Inl ''acme: account email required (BRISK_TLS_EMAIL)'', fs)
      else if iu_bunny_key i = '''' then (Inl ''acme: bunny api key required for DNS-01'', fs)
      else if domains = [] then (Inl ''acme: no domains to issue'', fs)
      else order_certificate K L parseLeaf io fresh i (Some (iu_bunny_key i)) domains prev fs)"

text \<open>\<open>store\<close>: the challenge store was built.\<close>

definition ObtainHTTP01 ::
  "'k key_lib \<Rightarrow> 'k lego \<Rightarrow> (string \<Rightarrow> leaf_cert option) \<Rightarrow> acme_io \<Rightarrow> 'k option \<Rightarrow> issuer \<Rightarrow> string \<Rightarrow> bool \<Rightarrow>
   leaf_cert option \<Rightarrow> disk \<Rightarrow> (string + acme_bundle) \<times> disk" where
  "ObtainHTTP01 K L parseLeaf io fresh i domain store prev fs =
     (if iu_email i = '''' then (Inl ''acme: account email required (BRISK_TLS_EMAIL)'', fs)
      else if domain = '''' then (Inl ''acme: no domain to issue'', fs)
      else if \<not> store then (Inl ''acme: nil challenge store'', fs)
      else order_certificate K L parseLeaf io fresh i None [domain] prev fs)"

subsection \<open>The account lasts\<close>

text \<open>What is used of the codec: a key that is written reads back.\<close>

definition key_codec :: "'k key_lib \<Rightarrow> bool" where
  "key_codec K \<longleftrightarrow> (\<forall>k der. kl_marshal K k = Some der \<longrightarrow> stored_key K (Some (kl_encode K der)) = Some k)"

text \<open>
  After an order that got as far as the account, every later one of the same environment that can read
  the file uses the same account key and writes nothing.
\<close>

lemma account_key_lasts:
  assumes "key_codec K" and "loadOrCreateAccountKey K io fresh path fs = (Inr k, fs')" and "ai_read io'"
  shows "loadOrCreateAccountKey K io' fresh' path fs' = (Inr k, fs')"
proof (cases "stored_key K (if ai_read io then fs path else None)")
  case None
  then obtain der where "fresh = Some k" "kl_marshal K k = Some der" "fs' = fs(path \<mapsto> kl_encode K der)"
    using assms(2) by (auto simp: loadOrCreateAccountKey_def Let_def split: option.splits)
  moreover from this have "stored_key K (Some (kl_encode K der)) = Some k" using assms(1) by (simp add: key_codec_def)
  ultimately show ?thesis using assms(3) by (simp add: loadOrCreateAccountKey_def)
next
  case (Some k')
  then have "k' = k" "fs' = fs" "ai_read io" using assms(2)
    by (auto simp: loadOrCreateAccountKey_def stored_key_def split: if_splits)
  then show ?thesis using Some assms(3) by (simp add: loadOrCreateAccountKey_def)
qed

lemma environments_apart: "iu_dir i = iu_dir j \<Longrightarrow> iu_staging i \<noteq> iu_staging j \<Longrightarrow> account_path i \<noteq> account_path j"
  by (auto simp: account_path_def path_join_def)

text \<open>
  The key is created once, says the comment; a file that cannot be read at the moment, or is damaged, is
  taken for none: the account is replaced without an error.
\<close>

lemma unreadable_account_replaced:
  assumes "kl_marshal K k = Some der" "\<not> ai_read io" "ai_write io = None"
  shows "loadOrCreateAccountKey K io (Some k) path fs = (Inr k, fs(path \<mapsto> kl_encode K der))"
  using assms by (simp add: loadOrCreateAccountKey_def stored_key_def)

text \<open>A staging certificate never comes from the production directory, nor the other way round.\<close>

lemma order_uses_directory:
  assumes "order_certificate K L parseLeaf io fresh i provider domains prev fs = (Inr b, fs')"
  obtains k where "lg_obtain L (iu_email i, k, if iu_staging i then Some leStagingURL else None) domains (Option.bind prev (lg_ari L)) =
      Inr (bu_chain b, bu_key b)" "bu_leaf b = parseLeaf (bu_chain b)" "registerAccount L k"
  using assms by (auto simp: order_certificate_def Let_def split: sum.splits prod.splits if_splits)

end
