(* ===== verification/Spec2Isabelle.thy ===== *)
theory Spec2Isabelle
  imports LoadSteer Telemetry NginxApply WafEngine Tenancy Sessions CustomDomains ServersApi SelfUpdate AgentPurge Ingest ControlStart EdgeSetup AgentClient Router AdminViews AcmeIssuer
begin

section \<open>Brisk: a content delivery network, verified\<close>

text \<open>
  Brisk is a content delivery network in two programs. \<open>brisk-control\<close> is the control plane: an HTTP
  API over a PostgreSQL database, with background loops that keep DNS, certificates, health and
  releases in step with it. \<open>brisk-agent\<close> runs on every edge server: it pulls its configuration,
  renders and reloads nginx, inspects requests, purges the cache, ships metrics and updates itself.

  How the parts meet. A tenant edits a zone through the API; the edit is a transaction that bumps the
  zone's \<open>config_version\<close>; every edge polls \<open>/agent/config\<close> with the tag of the configuration it holds
  and is answered 304 or a new one, which it checks, caches, renders and applies, or rolls back. The
  health checker and the heartbeats decide which edges are in rotation; the syncer turns rotation,
  routing and load into DNS records at the Bunny API. Rollouts tell edges which signed release to run.
  Agents authenticate with tokens, people with sessions or admin tokens.

  Conventions. One Isabelle definition per Go function, handler, SQL statement or loop body, under the
  name of the source. A handler takes the decoded request and the state and returns the answer and
  the new state; a Go error is \<open>Inl\<close> or \<open>None\<close>; a loop of the program is the function of one turn,
  and a run is a list of turns or an inductive reachability relation. What is not under \<open>src/\<close> is a
  parameter: the DNS service, the resolver, the certificate authority, hashes and signatures, the JSON
  and YAML decoders, \<open>net\<close> and \<open>url\<close> parsers, the regular-expression and WAF libraries, \<open>nginx -t\<close>,
  SSH. Where a theorem needs one of them to behave, it says so in a hypothesis, and its witness
  instantiates the parameter with a concrete function. The order in which Go ranges over a map is a
  parameter \<open>ord\<close>. \<open>float64\<close> is \<open>real\<close>, so rounding is not modelled; \<open>int\<close> and \<open>int64\<close> are \<open>int\<close>
  where the code cannot reach 64 bits, and words or written-out wrap-around where it can (the hash of
  \<open>Health\<close>, the bytes of \<open>AdminAuth\<close>, \<open>ServersApi\<close> and \<open>SelfUpdate\<close>).
\<close>

subsection \<open>The theories and the code they model\<close>

text \<open>
  Shared: \<open>Prelude\<close> (the parts of \<open>strings\<close>, \<open>strconv\<close> and \<open>time\<close> the code uses).

  DNS and the fleet (\<open>brisk-control/internal\<close>):
  \<^item> \<open>DnsModel\<close>: records, endpoints and plans of \<open>dns/bunny.go\<close> and \<open>dns/reconcile.go\<close>.
  \<^item> \<open>Rotation\<close>: \<open>RotationDecision\<close>, with its two guards against an empty rotation.
  \<^item> \<open>Regions\<close>: the region table, routing modes and weights of \<open>dns/regions.go\<close>.
  \<^item> \<open>Bunny\<close>: the client of the DNS service; the locale \<open>bunny_zone\<close> is the service's contract, and
    \<open>lossy_zone\<close> adds what a call does that reports an error.
  \<^item> \<open>Reconcile\<close>: \<open>Diff\<close>, \<open>DiffZone\<close> and \<open>Apply\<close>; the locale \<open>reconciler\<close> holds the convergence proof
    both instantiate.
  \<^item> \<open>Syncer\<close>: one reconcile, its triggers and its audit trail (\<open>dns/syncer.go\<close>).
  \<^item> \<open>LoadSteer\<close>: smoothing and factors of \<open>dns/loadsteer.go\<close>.
  \<^item> \<open>Health\<close>: the checker's loop of \<open>health/checker.go\<close>, every state of which is reachable by
    \<open>health_reach\<close>.
  \<^item> \<open>Rollout\<close>: the engine, its tables and handlers; the locale \<open>rollout_store\<close> is \<open>EngineStore\<close>.
  \<^item> \<open>Fleet\<close>: the callbacks of \<open>cmd/brisk-control/main.go\<close>, and the handlers that drain servers, set
    their status, routing and health settings, and assign zones.
  \<^item> \<open>DnsLock\<close>: the time-delayed lock on deletions, and the record handlers.

  The database and the API (\<open>brisk-control/internal\<close>):
  \<^item> \<open>ControlStore\<close>: the tables and one definition per statement of \<open>store/*.go\<close>; \<open>Transactions\<close>: the
    changes as data; \<open>ConfigVersions\<close>: what every change preserves.
  \<^item> \<open>AgentApi\<close>: \<open>agentConfig\<close> of \<open>api/agent.go\<close> with its tag.
  \<^item> \<open>Validators\<close>, \<open>ZonesApi\<close>, \<open>DeliveryApi\<close>: the tenants' handlers and their checks; \<open>Tenancy\<close>: their
    dispatch, and what scoping gives (locale \<open>tenant_service\<close>).
  \<^item> \<open>AdminAuth\<close>, \<open>Sessions\<close>: passwords, the login limiter with overlapping logins, sessions and admin
    tokens.
  \<^item> \<open>CustomDomains\<close>: verification, issue and renewal of tenants' domains, and the renewal of the
    wildcard certificate.
  \<^item> \<open>Ingest\<close>: heartbeats, the three ingest endpoints of the agents, and every query over logs, samples
    and security events (\<open>store/logs.go\<close>, \<open>store/stats.go\<close>, \<open>store/waf.go\<close> and their handlers).
  \<^item> \<open>Router\<close>: the route table of \<open>api/router.go\<close> with its layers of authentication, and a request from the
    router to the state it leaves.
  \<^item> \<open>AdminViews\<close>: the pages of health, routing, certificates and locations, compared with the loops they
    tell of. \<open>AcmeIssuer\<close>: \<open>acme/issuer.go\<close>, the account key and the order of a certificate.
  \<^item> \<open>ControlStart\<close>: the environment (\<open>config/config.go\<close>) and the options, the first admin and the hourly
    retention that \<open>main\<close> derives from it.
  \<^item> \<open>Provision\<close>: onboarding over SSH; \<open>ServersApi\<close>: the servers' handlers, agent tokens and the
    authentication of agents.

  The agent (\<open>brisk-agent\<close>):
  \<^item> \<open>AgentConfig\<close>: the configuration, its checks, the cache file and the poll loop.
  \<^item> \<open>CacheRender\<close>, \<open>NginxRender\<close>: what the templates and the Lua table are given.
  \<^item> \<open>TlsStore\<close>, \<open>NginxApply\<close>: certificate files; write, test, reload or roll back.
  \<^item> \<open>WafEngine\<close>: compiled rules and the verdict on a request.
  \<^item> \<open>Telemetry\<close>: metrics, log tailing and shipping, over the locale \<open>drop_oldest\<close>; a run of the log
    shipper reads and flushes in turn.
  \<^item> \<open>AgentPurge\<close>: purges of the cache directory. \<open>SelfUpdate\<close>: the release store of the control plane
    and the update of the agent's binary.
  \<^item> \<open>AgentClient\<close>: \<open>client/client.go\<close>, the start of \<open>main.go\<close>, and edge and control plane joined: the
    poll loop, through the client and a lossy network, with the handler of \<open>AgentApi\<close>.
  \<^item> \<open>EdgeSetup\<close>: \<open>bootstrap/bootstrap.go\<close>, the first start of an edge, with the scripts it runs written
    out; what a script does to the disk is a parameter.
\<close>

subsection \<open>What the theorems show\<close>

text \<open>
  Isolation and access: no series of HTTP requests by strangers, whatever credentials and routes they
  try, changes a tenant's zone, and no answer shows it, three unguarded rule routes and administrators
  aside; only issued and unrevoked secrets open the API, only a server's current token opens the agent
  API; the login limiter bounds the passwords tried for a key, overlapping attempts included; a record
  deleted through the DNS route has waited out the lock, which the deletion of a server does not ask;
  a pinned host key stays, except against a job that was handed the server before the pin.

  Configuration: after any interleaving of edits, failed polls and restarts, one poll that arrives brings
  an edge up to date; an edge told 304 holds what it would be sent; an edit reaches the next poll; the
  agent keeps the last good configuration through any failure; a broken zone rejects nothing but by the
  compression level of the first one; nginx runs only what passed its test; Lua strings are read back
  as the bytes they were rendered from (not every value is quoted: \<open>path_is_not_quoted\<close>); tenants never
  share a cache entry; a shipped certificate is installed whole, or not at all, or beside the old key
  when the second write fails.

  DNS: a reconcile converges to the wanted records, and the next one leaves the apex set alone; foreign
  records stay; some edge is in rotation exactly when some undrained edge is online or not marked
  unhealthy; health verdicts are those of the probe history; a drain that would empty the rotation is
  refused; an edge that stays cool gets its full share back.

  Releases: at most one rollout is active and at most one of its edges in flight; a rollout that is left
  alone ends after enough ticks without a database error; only signed code runs, as long as the system
  refuses writes over the running program, as Linux does; the trial of a new binary ends within three
  starts, where a rollback depends on that same write. Certificates: a live custom domain stays live
  through scans, and a domain that points here goes live. Purges take exactly the zone's objects. A
  complete log line is acknowledged once while the buffer holds; after a lost answer it is delivered
  again. Every row a tenant's log query shows was reported by an edge for a host of that tenant's zone.

  Bounds. No definition needs fuel: loops that retry are bounded by the code's own constants (four attempts
  of the DNS client, three starts of a new binary), and the others are recursions over finite lists.
\<close>

subsection \<open>Not modelled\<close>

text \<open>
  The dashboard (TypeScript), the SQL of the migrations except the constraints \<open>ControlStore\<close> states,
  the text templates of nginx and the Lua library. In Go: the command-line tool \<open>briskctl\<close>, the orders of
  \<open>tls/letsencrypt.go\<close> (the third-party library lego does the work), and the transport of HTTP, NATS and
  SSH. Concurrency: programs, loops and requests interleave between transactions or turns of a loop, each of
  which is taken as one step. Two things that overlap within a request are modelled as such, logins
  around the check of a password (\<open>AdminAuth\<close>) and the background jobs of the servers' handlers
  (\<open>Provision\<close>); elsewhere a handler of several statements is not split. Reads of the database that a
  handler answers with an error or ignores do not fail in the model (\<open>ControlStore\<close>), writes do where
  the theory says so. Log lines are left out.
\<close>

end
